(* ===== verification/Prelude.thy ===== *)
theory Prelude
  imports Main "HOL-Library.Word"
begin

text \<open>
  Shared library of the development: transition systems with their invariants and
  absorbing states, the association-list model of Rust's \<open>HashMap\<close>, checked and
  saturating machine arithmetic, and the generic list and option lemmas that the
  component theories rest on.

  \<^item> \<open>reach\<close> and the locale \<open>invariant_system\<close>: an invariant of the initial states that
    every step keeps holds in every reachable state. Each stateful component
    interprets it on its own step relation.
  \<^item> \<open>absorbing_system\<close>: states that no operation leaves (a settled task, a dead
    worker) and what that gives for whole runs.
  \<^item> \<open>simulation\<close>: refinement of an abstract step relation through an abstraction
    function, lifted to runs.
  \<^item> \<open>hash_map\<close>: the contract of \<open>std::collections::HashMap\<close> that the registries use,
    interpreted by association lists with distinct keys. The list order stands for
    the (unspecified) iteration order of the hash map.
\<close>

section \<open>Collections of simplification facts\<close>

named_theorems reg_simps "unfolding rules for the registry operations"
named_theorems pool_simps "unfolding rules for the worker pool operations"

section \<open>Machine integers\<close>

type_synonym u8 = "8 word"
type_synonym u16 = "16 word"
type_synonym u32 = "32 word"
type_synonym u64 = "64 word"

text \<open>\<open>usize\<close> on the 64-bit targets the program supports.\<close>

type_synonym usize = "64 word"

text \<open>Rust's \<open>checked_add\<close>: \<open>None\<close> when the sum does not fit the type.\<close>

definition checked_add :: "'a::len word \<Rightarrow> 'a word \<Rightarrow> 'a word option" where
  "checked_add a b = (if unat a + unat b < 2 ^ LENGTH('a) then Some (a + b) else None)"

lemma checked_add_SomeD:
  assumes "checked_add a b = Some c"
  shows "unat c = unat a + unat b"
  using assms
  by (auto simp: checked_add_def unat_word_ariths split: if_splits)

lemma checked_add_one_less:
  fixes a :: "'a::len word"
  assumes "checked_add a 1 = Some c" and "1 < LENGTH('a)"
  shows "a < c"
proof -
  have "unat (1 :: 'a word) = 1" by simp
  with checked_add_SomeD [OF assms(1)] show ?thesis
    by (simp add: word_less_nat_alt)
qed

lemma checked_add_None_iff:
  "checked_add a b = None \<longleftrightarrow> 2 ^ LENGTH('a) \<le> unat (a :: 'a::len word) + unat b"
  by (simp add: checked_add_def not_less)

text \<open>
  Monotonic clock readings and durations are counted in nanoseconds; a cancellation token
  is named by a number.
\<close>

type_synonym instant = nat
type_synonym duration = nat
type_synonym token = nat

definition from_secs :: "nat \<Rightarrow> duration" where
  "from_secs s = s * 1000000000"

definition as_secs :: "duration \<Rightarrow> nat" where
  "as_secs d = d div 1000000000"

lemma as_secs_from_secs [simp]: "as_secs (from_secs s) = s"
  by (simp add: as_secs_def from_secs_def)

text \<open>\<open>u64::saturating_add\<close> on readings kept as naturals.\<close>

definition u64_saturating_add :: "nat \<Rightarrow> nat \<Rightarrow> nat" where
  "u64_saturating_add a b = min (a + b) (2 ^ 64 - 1)"

text \<open>\<open>usize::MAX\<close>, for counters and lengths kept as naturals.\<close>

definition USIZE_MAX :: nat where "USIZE_MAX = 2 ^ 64 - 1"

section \<open>Transition systems\<close>

inductive reach :: "('s \<Rightarrow> bool) \<Rightarrow> ('s \<Rightarrow> 's \<Rightarrow> bool) \<Rightarrow> 's \<Rightarrow> bool"
  for init :: "'s \<Rightarrow> bool" and step :: "'s \<Rightarrow> 's \<Rightarrow> bool" where
  reach_init: "init s \<Longrightarrow> reach init step s"
| reach_step: "reach init step s \<Longrightarrow> step s t \<Longrightarrow> reach init step t"

locale invariant_system =
  fixes init :: "'s \<Rightarrow> bool"
    and step :: "'s \<Rightarrow> 's \<Rightarrow> bool"
    and inv :: "'s \<Rightarrow> bool"
  assumes inv_init: "init s \<Longrightarrow> inv s"
    and inv_step: "inv s \<Longrightarrow> step s t \<Longrightarrow> inv t"
begin

lemma reach_inv: "reach init step s \<Longrightarrow> inv s"
  by (induction rule: reach.induct) (auto intro: inv_init inv_step)

lemma run_inv: "step\<^sup>*\<^sup>* s t \<Longrightarrow> inv s \<Longrightarrow> inv t"
  by (induction rule: rtranclp_induct) (auto intro: inv_step)

end

text \<open>
  An absorbing system: operations applied to an object, and a set of objects that
  no operation changes in what an observer sees of it.
\<close>

locale absorbing_system =
  fixes apply_op :: "'op \<Rightarrow> 'e \<Rightarrow> 'e"
    and settled :: "'e \<Rightarrow> bool"
    and view :: "'e \<Rightarrow> 'v"
  assumes settled_stays: "settled e \<Longrightarrow> settled (apply_op x e)"
    and settled_view: "settled e \<Longrightarrow> view (apply_op x e) = view e"
begin

lemma run_settled: "settled e \<Longrightarrow> settled (fold apply_op xs e)"
  by (induction xs arbitrary: e) (auto intro: settled_stays)

lemma run_view: "settled e \<Longrightarrow> view (fold apply_op xs e) = view e"
proof (induction xs arbitrary: e)
  case (Cons x xs)
  then show ?case using settled_stays [of e x] settled_view [of e x] by simp
qed simp

text \<open>The first operation that settles an object fixes its view for every later run.\<close>

lemma first_settlement_wins:
  assumes "settled (apply_op x e)"
  shows "view (fold apply_op (x # xs) e) = view (apply_op x e)"
  using run_view [OF assms] by simp

end

text \<open>
  Refinement: every concrete step is a run of the abstract specification, read through an
  abstraction function. Runs and the safety of the abstract side carry over.
\<close>

locale simulation =
  fixes cstep :: "'c \<Rightarrow> 'c \<Rightarrow> bool"
    and astep :: "'a \<Rightarrow> 'a \<Rightarrow> bool"
    and abstr :: "'c \<Rightarrow> 'a"
    and cinv :: "'c \<Rightarrow> bool"
  assumes sim_inv: "cinv s \<Longrightarrow> cstep s t \<Longrightarrow> cinv t"
    and sim_step: "cinv s \<Longrightarrow> cstep s t \<Longrightarrow> astep\<^sup>*\<^sup>* (abstr s) (abstr t)"
begin

lemma sim_run_inv: "cstep\<^sup>*\<^sup>* s t \<Longrightarrow> cinv s \<Longrightarrow> cinv t"
  by (induction rule: rtranclp_induct) (auto intro: sim_inv)

lemma sim_run: "cstep\<^sup>*\<^sup>* s t \<Longrightarrow> cinv s \<Longrightarrow> astep\<^sup>*\<^sup>* (abstr s) (abstr t)"
proof (induction rule: rtranclp_induct)
  case (step t u)
  then show ?case using sim_step [of t u] sim_run_inv [of s t] by (auto intro: rtranclp_trans)
qed simp

lemma sim_stable:
  assumes stable: "\<And>a b. astep a b \<Longrightarrow> P a \<Longrightarrow> P b"
    and "cstep\<^sup>*\<^sup>* s t" "cinv s" "P (abstr s)"
  shows "P (abstr t)"
proof -
  have "astep\<^sup>*\<^sup>* (abstr s) (abstr t)" using assms sim_run by blast
  then show ?thesis using assms(4) by (induction rule: rtranclp_induct) (auto intro: stable)
qed

end

section \<open>Hash maps\<close>

type_synonym ('k, 'v) hashmap = "('k \<times> 'v) list"

definition hm_wf :: "('k, 'v) hashmap \<Rightarrow> bool" where
  "hm_wf m \<longleftrightarrow> distinct (map fst m)"

definition hm_get :: "('k, 'v) hashmap \<Rightarrow> 'k \<Rightarrow> 'v option" where
  "hm_get m k = map_of m k"

definition hm_remove :: "'k \<Rightarrow> ('k, 'v) hashmap \<Rightarrow> ('k, 'v) hashmap" where
  "hm_remove k m = filter (\<lambda>p. fst p \<noteq> k) m"

definition hm_insert :: "'k \<Rightarrow> 'v \<Rightarrow> ('k, 'v) hashmap \<Rightarrow> ('k, 'v) hashmap" where
  "hm_insert k v m = hm_remove k m @ [(k, v)]"

text \<open>\<open>get_mut\<close> followed by an in-place update; an absent key changes nothing.\<close>

definition hm_modify :: "'k \<Rightarrow> ('v \<Rightarrow> 'v) \<Rightarrow> ('k, 'v) hashmap \<Rightarrow> ('k, 'v) hashmap" where
  "hm_modify k f m = map (\<lambda>p. (fst p, if fst p = k then f (snd p) else snd p)) m"

definition hm_retain :: "('k \<Rightarrow> 'v \<Rightarrow> bool) \<Rightarrow> ('k, 'v) hashmap \<Rightarrow> ('k, 'v) hashmap" where
  "hm_retain P m = filter (\<lambda>p. P (fst p) (snd p)) m"

locale hash_map =
  fixes wf :: "'m \<Rightarrow> bool"
    and get :: "'m \<Rightarrow> 'k \<Rightarrow> 'v option"
    and ins :: "'k \<Rightarrow> 'v \<Rightarrow> 'm \<Rightarrow> 'm"
    and rem :: "'k \<Rightarrow> 'm \<Rightarrow> 'm"
    and modi :: "'k \<Rightarrow> ('v \<Rightarrow> 'v) \<Rightarrow> 'm \<Rightarrow> 'm"
    and ret :: "('k \<Rightarrow> 'v \<Rightarrow> bool) \<Rightarrow> 'm \<Rightarrow> 'm"
    and len :: "'m \<Rightarrow> nat"
  assumes wf_ins: "wf m \<Longrightarrow> wf (ins k v m)"
    and wf_rem: "wf m \<Longrightarrow> wf (rem k m)"
    and wf_modi: "wf m \<Longrightarrow> wf (modi k f m)"
    and wf_ret: "wf m \<Longrightarrow> wf (ret P m)"
    and get_ins: "wf m \<Longrightarrow> get (ins k v m) k' = (if k' = k then Some v else get m k')"
    and get_rem: "wf m \<Longrightarrow> get (rem k m) k' = (if k' = k then None else get m k')"
    and get_modi: "wf m \<Longrightarrow> get (modi k f m) k' = (if k' = k then map_option f (get m k') else get m k')"
    and get_ret: "wf m \<Longrightarrow> get (ret P m) k = (case get m k of Some v \<Rightarrow> if P k v then Some v else None | None \<Rightarrow> None)"
    and len_ins_new: "wf m \<Longrightarrow> get m k = None \<Longrightarrow> len (ins k v m) = Suc (len m)"
    and len_rem: "wf m \<Longrightarrow> get m k \<noteq> None \<Longrightarrow> Suc (len (rem k m)) = len m"
    and len_ret: "wf m \<Longrightarrow> len (ret P m) \<le> len m"
    and len_modi: "len (modi k f m) = len m"
begin

lemmas map_laws = wf_ins wf_rem wf_modi wf_ret get_ins get_rem get_modi get_ret

lemma get_ins_same: "wf m \<Longrightarrow> get (ins k v m) k = Some v"
  by (simp add: get_ins)

lemma ret_keeps: "wf m \<Longrightarrow> get m k = Some v \<Longrightarrow> P k v \<Longrightarrow> get (ret P m) k = Some v"
  by (simp add: get_ret)

lemma ret_subset: "wf m \<Longrightarrow> get (ret P m) k = Some v \<Longrightarrow> get m k = Some v \<and> P k v"
  by (simp add: get_ret split: option.splits if_splits)

lemma modi_other: "wf m \<Longrightarrow> k' \<noteq> k \<Longrightarrow> get (modi k f m) k' = get m k'"
  by (simp add: get_modi)

end

lemma map_of_filter_distinct:
  "distinct (map fst m) \<Longrightarrow>
   map_of (filter (\<lambda>p. P (fst p) (snd p)) m) k =
     (case map_of m k of Some v \<Rightarrow> if P k v then Some v else None | None \<Rightarrow> None)"
proof (induction m)
  case Nil
  then show ?case by simp
next
  case (Cons p m)
  obtain k' v' where p: "p = (k', v')" by (cases p)
  have notin: "k' \<notin> fst ` set m" using Cons.prems p by simp
  have "map_of (filter (\<lambda>p. P (fst p) (snd p)) m) k' = None"
    using notin by (auto simp: map_of_eq_None_iff)
  with Cons p show ?case by simp
qed

lemma map_of_map_snd:
  "map_of (map (\<lambda>p. (fst p, if fst p = k then f (snd p) else snd p)) m) k' =
     (if k' = k then map_option f (map_of m k') else map_of m k')"
  by (induction m) auto

lemma length_filter_fst_neq:
  "distinct (map fst m) \<Longrightarrow> map_of m k \<noteq> None \<Longrightarrow>
   Suc (length (filter (\<lambda>p. fst p \<noteq> k) m)) = length m"
proof (induction m)
  case Nil
  then show ?case by simp
next
  case (Cons p m)
  show ?case
  proof (cases "fst p = k")
    case True
    with Cons.prems(1) have "\<forall>q \<in> set m. fst q \<noteq> k" by (cases p) force
    then have "filter (\<lambda>p. fst p \<noteq> k) m = m" by (simp add: filter_id_conv)
    with True show ?thesis by simp
  next
    case False
    with Cons show ?thesis by (cases p) auto
  qed
qed

lemma distinct_fst_filter: "distinct (map fst m) \<Longrightarrow> distinct (map fst (filter P m))"
  by (induction m) auto

interpretation hm: hash_map hm_wf hm_get hm_insert hm_remove hm_modify hm_retain length
proof (unfold_locales, goal_cases)
  case (1 m k v)
  then show ?case
    by (auto simp: hm_wf_def hm_insert_def hm_remove_def distinct_fst_filter)
next
  case (2 m k)
  then show ?case by (simp add: hm_wf_def hm_remove_def distinct_fst_filter)
next
  case (3 m k f)
  then show ?case by (simp add: hm_wf_def hm_modify_def comp_def)
next
  case (4 m P)
  then show ?case by (simp add: hm_wf_def hm_retain_def distinct_fst_filter)
next
  case (5 m k v k')
  then have "map_of (filter (\<lambda>p. fst p \<noteq> k) m) k' = (if k' = k then None else map_of m k')"
    using map_of_filter_distinct [of m "\<lambda>k' v. k' \<noteq> k" k']
    by (auto simp: hm_wf_def split: option.splits)
  then show ?case
    by (auto simp: hm_get_def hm_insert_def hm_remove_def map_add_def split: option.splits)
next
  case (6 m k k')
  then show ?case
    using map_of_filter_distinct [of m "\<lambda>k' v. k' \<noteq> k" k']
    by (auto simp: hm_wf_def hm_get_def hm_remove_def split: option.splits)
next
  case (7 m k f k')
  then show ?case by (simp add: hm_get_def hm_modify_def map_of_map_snd)
next
  case (8 m P k)
  then show ?case by (simp add: hm_wf_def hm_get_def hm_retain_def map_of_filter_distinct)
next
  case (9 m k v)
  then have "filter (\<lambda>p. fst p \<noteq> k) m = m"
    by (auto simp: filter_id_conv hm_get_def map_of_eq_None_iff)
  then show ?case by (simp add: hm_insert_def hm_remove_def)
next
  case (10 m k)
  then show ?case by (simp add: hm_wf_def hm_get_def hm_remove_def length_filter_fst_neq)
next
  case (11 m P)
  then show ?case by (simp add: hm_retain_def)
next
  case (12 k f m)
  then show ?case by (simp add: hm_modify_def)
qed

text \<open>The laws of a map also hold for an object with repeated keys.\<close>

lemma hm_get_remove_raw: "hm_get (hm_remove k m) k' = (if k' = k then None else hm_get m k')"
  by (induction m) (auto simp: hm_get_def hm_remove_def)

lemma hm_get_insert_raw: "hm_get (hm_insert k v m) k' = (if k' = k then Some v else hm_get m k')"
  using hm_get_remove_raw[of k m k']
  by (simp add: hm_get_def hm_insert_def map_add_def split: option.split)

lemma hm_get_set: "hm_wf m \<Longrightarrow> hm_get m k = Some v \<longleftrightarrow> (k, v) \<in> set m"
  by (simp add: hm_wf_def hm_get_def)

lemma hm_set_retain [simp]: "set (hm_retain P m) = {p \<in> set m. P (fst p) (snd p)}"
  by (auto simp: hm_retain_def)

lemma hm_set_remove [simp]: "set (hm_remove k m) = {p \<in> set m. fst p \<noteq> k}"
  by (auto simp: hm_remove_def)

lemma hm_set_insert [simp]: "set (hm_insert k v m) = insert (k, v) {p \<in> set m. fst p \<noteq> k}"
  by (auto simp: hm_insert_def)

lemma hm_set_modify:
  "set (hm_modify k f m) = (\<lambda>p. (fst p, if fst p = k then f (snd p) else snd p)) ` set m"
  by (simp add: hm_modify_def)

lemma hm_wf_Nil [simp]: "hm_wf []"
  by (simp add: hm_wf_def)

section \<open>Lists\<close>

text \<open>Removing from a list what a set of keys names keeps at least the difference.\<close>

lemma length_filter_notin_ge:
  assumes "distinct (map fst m)"
  shows "length m - length ks \<le> length (filter (\<lambda>p. fst p \<notin> set ks) m)"
proof -
  have "length (filter (\<lambda>p. fst p \<in> set ks) m) \<le> length ks"
  proof -
    have "length (filter (\<lambda>p. fst p \<in> set ks) m) = card (set (map fst (filter (\<lambda>p. fst p \<in> set ks) m)))"
      using distinct_fst_filter [OF assms, of "\<lambda>p. fst p \<in> set ks"]
      by (metis distinct_card length_map)
    also have "\<dots> \<le> card (set ks)"
      by (rule card_mono) auto
    also have "\<dots> \<le> length ks" by (rule card_length)
    finally show ?thesis .
  qed
  moreover have "length (filter (\<lambda>p. fst p \<in> set ks) m) + length (filter (\<lambda>p. fst p \<notin> set ks) m) = length m"
    using sum_length_filter_compl [of "\<lambda>p. fst p \<in> set ks" m] by simp
  ultimately show ?thesis by arith
qed

lemma fold_cong_pred:
  "(\<And>x s. P s \<Longrightarrow> P (f x s)) \<Longrightarrow> P s \<Longrightarrow> P (fold f xs s)"
  by (induction xs arbitrary: s) auto

end
