(* ===== verification/Rust_Std.thy ===== *)
theory Rust_Std
  imports Prelude "HOL-Library.Sublist"
begin

text \<open>
  The parts of Rust's standard library the program's text handling uses. A Rust
  \<open>String\<close> is a sequence of UTF-8 bytes; it is a \<open>string\<close> here, each \<open>char\<close> one byte.
  Literals outside ASCII are written byte by byte. \<open>trim\<close> removes the characters of
  the Unicode property White\_Space, in their UTF-8 encodings.
\<close>

section \<open>Formatting numbers\<close>

definition digit_char :: "nat \<Rightarrow> char" where
  "digit_char d = (if d < 10 then char_of (48 + d) else char_of (87 + d))"

function show_base :: "nat \<Rightarrow> nat \<Rightarrow> string" where
  "show_base b n =
     (if b < 2 \<or> n < b then [digit_char n] else show_base b (n div b) @ [digit_char (n mod b)])"
  by pat_completeness auto
termination
  by (relation "measure snd") auto

declare show_base.simps [simp del]

text \<open>\<open>{}\<close> and \<open>{:#x}\<close> of an unsigned integer, and zero padding to a width.\<close>

definition show_nat :: "nat \<Rightarrow> string" where
  "show_nat n = show_base 10 n"

definition show_hex :: "nat \<Rightarrow> string" where
  "show_hex n = ''0x'' @ show_base 16 n"

definition zero_pad :: "nat \<Rightarrow> string \<Rightarrow> string" where
  "zero_pad w s = replicate (w - length s) (CHR ''0'') @ s"

lemma show_base_nonempty: "show_base b n \<noteq> []"
  by (subst show_base.simps) simp

lemma length_show_base_small:
  "2 \<le> b \<Longrightarrow> n < b ^ Suc k \<Longrightarrow> length (show_base b n) \<le> Suc k"
proof (induction k arbitrary: n)
  case 0
  then show ?case by (subst show_base.simps) simp
next
  case (Suc k)
  have "n div b < b ^ Suc k"
    using Suc.prems by (simp add: less_mult_imp_div_less mult.commute)
  then have "length (show_base b (n div b)) \<le> Suc k"
    using Suc.IH Suc.prems(1) by blast
  then show ?case by (subst show_base.simps) simp
qed

lemma length_zero_pad: "length s \<le> w \<Longrightarrow> length (zero_pad w s) = w"
  by (simp add: zero_pad_def)

section \<open>Characters and strings\<close>

definition ascii_lower :: "char \<Rightarrow> char" where
  "ascii_lower c = (if 65 \<le> (of_char c :: nat) \<and> (of_char c :: nat) \<le> 90
     then char_of ((of_char c :: nat) + 32) else c)"

definition to_ascii_lowercase :: "string \<Rightarrow> string" where
  "to_ascii_lowercase s = map ascii_lower s"

definition eq_ignore_ascii_case :: "string \<Rightarrow> string \<Rightarrow> bool" where
  "eq_ignore_ascii_case s t \<longleftrightarrow> to_ascii_lowercase s = to_ascii_lowercase t"

fun str_contains :: "string \<Rightarrow> string \<Rightarrow> bool" where
  "str_contains n [] = (n = [])"
| "str_contains n (c # cs) = (prefix n (c # cs) \<or> str_contains n cs)"

fun strip_prefix :: "string \<Rightarrow> string \<Rightarrow> string option" where
  "strip_prefix [] s = Some s"
| "strip_prefix (p # ps) [] = None"
| "strip_prefix (p # ps) (c # cs) = (if p = c then strip_prefix ps cs else None)"

text \<open>\<open>str::split(c)\<close>: the pieces between separators, empty pieces kept.\<close>

fun split_char :: "char \<Rightarrow> string \<Rightarrow> string list" where
  "split_char d [] = [[]]"
| "split_char d (c # cs) =
     (if c = d then [] # split_char d cs
      else case split_char d cs of [] \<Rightarrow> [[c]] | w # ws \<Rightarrow> (c # w) # ws)"

fun str_join :: "string \<Rightarrow> string list \<Rightarrow> string" where
  "str_join sep [] = []"
| "str_join sep [w] = w"
| "str_join sep (w # ws) = w @ sep @ str_join sep ws"

text \<open>
  One leading whitespace character, by its UTF-8 encoding: U+0009--U+000D, U+0020,
  U+0085, U+00A0, U+1680, U+2000--U+200A, U+2028, U+2029, U+202F, U+205F, U+3000.
\<close>

definition ascii_white :: "char \<Rightarrow> bool" where
  "ascii_white c = (let n = (of_char c :: nat) in (9 \<le> n \<and> n \<le> 13) \<or> n = 32)"

definition wide_white2 :: "char \<Rightarrow> char \<Rightarrow> bool" where
  "wide_white2 c d \<longleftrightarrow> c = CHR 0xC2 \<and> (d = CHR 0x85 \<or> d = CHR 0xA0)"

definition wide_white3 :: "char \<Rightarrow> char \<Rightarrow> char \<Rightarrow> bool" where
  "wide_white3 c d e \<longleftrightarrow>
     (c = CHR 0xE1 \<and> d = CHR 0x9A \<and> e = CHR 0x80) \<or>
     (c = CHR 0xE2 \<and> d = CHR 0x80 \<and>
        ((128 \<le> (of_char e :: nat) \<and> (of_char e :: nat) \<le> 138) \<or>
         e = CHR 0xA8 \<or> e = CHR 0xA9 \<or> e = CHR 0xAF)) \<or>
     (c = CHR 0xE2 \<and> d = CHR 0x81 \<and> e = CHR 0x9F) \<or>
     (c = CHR 0xE3 \<and> d = CHR 0x80 \<and> e = CHR 0x80)"

fun trim_start :: "string \<Rightarrow> string" where
  "trim_start (c # d # e # cs) =
     (if ascii_white c then trim_start (d # e # cs)
      else if wide_white2 c d then trim_start (e # cs)
      else if wide_white3 c d e then trim_start cs
      else c # d # e # cs)"
| "trim_start [c, d] =
     (if ascii_white c then trim_start [d]
      else if wide_white2 c d then [] else [c, d])"
| "trim_start [c] = (if ascii_white c then [] else [c])"
| "trim_start [] = []"

text \<open>The same from the end, on the reversed bytes.\<close>

fun trim_end_rev :: "string \<Rightarrow> string" where
  "trim_end_rev (e # d # c # cs) =
     (if ascii_white e then trim_end_rev (d # c # cs)
      else if wide_white2 d e then trim_end_rev (c # cs)
      else if wide_white3 c d e then trim_end_rev cs
      else e # d # c # cs)"
| "trim_end_rev [e, d] =
     (if ascii_white e then trim_end_rev [d]
      else if wide_white2 d e then [] else [e, d])"
| "trim_end_rev [e] = (if ascii_white e then [] else [e])"
| "trim_end_rev [] = []"

definition trim :: "string \<Rightarrow> string" where
  "trim s = rev (trim_end_rev (rev (trim_start s)))"

text \<open>
  \<open>str::to_lowercase\<close> as far as ASCII text can observe it. Beside the ASCII letters the only
  characters whose lower case contains an ASCII character are U+0130 (an i and a combining
  dot) and U+212A (a k); the other letters outside ASCII are left as they are.
\<close>

fun to_lowercase :: "string \<Rightarrow> string" where
  "to_lowercase [] = []"
| "to_lowercase (c # cs) =
     (case cs of
        [] \<Rightarrow> [ascii_lower c]
      | d # ds \<Rightarrow>
          if c = CHR 0xC4 \<and> d = CHR 0xB0 then CHR ''i'' # CHR 0xCC # CHR 0x87 # to_lowercase ds
          else (case ds of
                  [] \<Rightarrow> ascii_lower c # to_lowercase cs
                | e # es \<Rightarrow>
                    if c = CHR 0xE2 \<and> d = CHR 0x84 \<and> e = CHR 0xAA then CHR ''k'' # to_lowercase es
                    else ascii_lower c # to_lowercase cs))"

text \<open>\<open>str::split_whitespace\<close>: the maximal runs without whitespace.\<close>

definition white_len :: "string \<Rightarrow> nat" where
  "white_len s =
     (case s of
        [] \<Rightarrow> 0
      | c # cs \<Rightarrow>
          if ascii_white c then 1
          else (case cs of
                  [] \<Rightarrow> 0
                | d # ds \<Rightarrow>
                    if wide_white2 c d then 2
                    else (case ds of [] \<Rightarrow> 0 | e # _ \<Rightarrow> if wide_white3 c d e then 3 else 0)))"

function split_ws :: "string \<Rightarrow> string \<Rightarrow> string list" where
  "split_ws w [] = (if w = [] then [] else [w])"
| "split_ws w (c # cs) =
     (case white_len (c # cs) of
        0 \<Rightarrow> split_ws (w @ [c]) cs
      | Suc n \<Rightarrow> (if w = [] then [] else [w]) @ split_ws [] (drop n cs))"
  by pat_completeness auto
termination
  by (relation "measure (length \<circ> snd)") auto

definition split_whitespace :: "string \<Rightarrow> string list" where
  "split_whitespace s = split_ws [] s"

section \<open>Facts about the string operations\<close>

lemma str_contains_iff_sublist: "str_contains n s \<longleftrightarrow> sublist n s"
  by (induction s) (auto simp: sublist_Cons_right)

lemma str_contains_append: "str_contains n (xs @ n @ ys)"
  by (simp add: str_contains_iff_sublist)

lemma str_contains_mono: "str_contains n ys \<Longrightarrow> str_contains n (xs @ ys)"
  by (simp add: str_contains_iff_sublist sublist_append_leftI sublist_append)

lemma str_contains_append_right: "str_contains n ys \<Longrightarrow> str_contains n (ys @ zs)"
  by (simp add: str_contains_iff_sublist sublist_append)

lemma str_contains_set: "str_contains n s \<Longrightarrow> set n \<subseteq> set s"
  by (auto simp: str_contains_iff_sublist dest: set_mono_sublist)

lemma digit_char_dec: "d < 10 \<Longrightarrow> digit_char d \<in> set ''0123456789''"
proof -
  assume "d < 10"
  then have "d \<in> set [0..<10]" by simp
  moreover have "\<forall>d \<in> set [0..<10]. digit_char d \<in> set ''0123456789''" by code_simp
  ultimately show ?thesis by blast
qed

lemma set_show_nat: "set (show_nat n) \<subseteq> set ''0123456789''"
  unfolding show_nat_def
proof (induction n rule: less_induct)
  case (less n)
  show ?case
  proof (cases "n < 10")
    case True
    then show ?thesis using digit_char_dec [of n] by (subst show_base.simps) simp
  next
    case False
    then have "set (show_base 10 (n div 10)) \<subseteq> set ''0123456789''" by (intro less.IH) simp
    with False show ?thesis using digit_char_dec [of "n mod 10"] by (subst show_base.simps) simp
  qed
qed

lemma lower_show_nat: "to_ascii_lowercase (show_nat n) = show_nat n"
proof -
  have "\<forall>c \<in> set ''0123456789''. ascii_lower c = c" by code_simp
  with set_show_nat [of n] have "\<forall>c \<in> set (show_nat n). ascii_lower c = c" by blast
  then show ?thesis unfolding to_ascii_lowercase_def by (simp add: map_idI)
qed

lemma to_ascii_lowercase_append [simp]:
  "to_ascii_lowercase (s @ t) = to_ascii_lowercase s @ to_ascii_lowercase t"
  by (simp add: to_ascii_lowercase_def)

lemma strip_prefix_append [simp]: "strip_prefix p (p @ s) = Some s"
  by (induction p) auto

lemma strip_prefix_Some: "strip_prefix p s = Some t \<Longrightarrow> s = p @ t"
  by (induction p s rule: strip_prefix.induct) (auto split: if_splits)

lemma strip_prefix_None_hd:
  "p \<noteq> [] \<Longrightarrow> s = [] \<or> hd s \<noteq> hd p \<Longrightarrow> strip_prefix p s = None"
  by (cases p; cases s) auto

lemma split_char_nonempty [simp]: "split_char d s \<noteq> []"
  by (induction d s rule: split_char.induct) (auto split: list.splits)

lemma str_join_split_char: "str_join [d] (split_char d s) = s"
proof (induction d s rule: split_char.induct)
  case (2 d c cs)
  obtain w ws where "split_char d cs = w # ws"
    by (cases "split_char d cs") auto
  with 2 show ?case by (cases ws) auto
qed simp

lemma split_char_no_sep: "w \<in> set (split_char d s) \<Longrightarrow> d \<notin> set w"
proof (induction d s arbitrary: w rule: split_char.induct)
  case (2 d c cs)
  then show ?case by (auto split: if_splits list.splits)
qed simp

section \<open>Reading numbers back\<close>

definition digit_val :: "char \<Rightarrow> nat" where
  "digit_val c = (let n = of_char c in if n < 58 then n - 48 else n - 87)"

definition base_val :: "nat \<Rightarrow> string \<Rightarrow> nat" where
  "base_val b s = foldl (\<lambda>a c. a * b + digit_val c) 0 s"

lemma digit_val_char: "d < 16 \<Longrightarrow> digit_val (digit_char d) = d"
  by (simp add: digit_val_def digit_char_def Let_def)

lemma base_val_show: "2 \<le> b \<Longrightarrow> b \<le> 16 \<Longrightarrow> base_val b (show_base b n) = n"
proof (induction n rule: less_induct)
  case (less n)
  show ?case
  proof (cases "n < b")
    case True
    with less.prems show ?thesis by (subst show_base.simps) (simp add: base_val_def digit_val_char)
  next
    case False
    with less.prems have "n div b < n" by simp
    with less have "base_val b (show_base b (n div b)) = n div b" by blast
    moreover have "n mod b < 16" using less.prems mod_less_divisor [of b n] by linarith
    ultimately show ?thesis using False less.prems
      by (subst show_base.simps) (simp add: base_val_def digit_val_char)
  qed
qed

lemma digit_val_zero: "digit_val (CHR ''0'') = 0"
  by (simp add: digit_val_def)

lemma base_val_pad: "base_val b (zero_pad w s) = base_val b s"
proof -
  have "foldl (\<lambda>a c. a * b + digit_val c) 0 (replicate k (CHR ''0'')) = 0" for k
    by (induction k) (simp_all add: digit_val_zero)
  then show ?thesis by (simp add: base_val_def zero_pad_def)
qed

lemma show_base_inj: "2 \<le> b \<Longrightarrow> b \<le> 16 \<Longrightarrow> zero_pad w (show_base b m) = zero_pad w (show_base b n) \<Longrightarrow> m = n"
  by (metis base_val_pad base_val_show)

lemma show_hex_inj: "show_hex m = show_hex n \<longleftrightarrow> m = n"
  using show_base_inj [of 16 0 m n] by (auto simp: show_hex_def zero_pad_def)

section \<open>Parsing numbers\<close>

definition radix_digit :: "nat \<Rightarrow> char \<Rightarrow> nat option" where
  "radix_digit radix c =
     (let n = (of_char c :: nat);
          d = (if 48 \<le> n \<and> n \<le> 57 then n - 48
               else if 97 \<le> n \<and> n \<le> 122 then n - 87
               else if 65 \<le> n \<and> n \<le> 90 then n - 55 else radix)
      in if d < radix then Some d else None)"

text \<open>
  \<open>from_str_radix\<close> of an unsigned type with values below \<open>bound\<close>: an optional plus sign,
  then at least one digit, without overflow.
\<close>

fun radix_value :: "nat \<Rightarrow> nat \<Rightarrow> nat \<Rightarrow> string \<Rightarrow> nat option" where
  "radix_value radix bound acc [] = Some acc"
| "radix_value radix bound acc (c # cs) =
     (case radix_digit radix c of
        None \<Rightarrow> None
      | Some d \<Rightarrow> if bound \<le> acc * radix + d then None else radix_value radix bound (acc * radix + d) cs)"

definition from_str_radix :: "nat \<Rightarrow> nat \<Rightarrow> string \<Rightarrow> nat option" where
  "from_str_radix radix bound s =
     (let t = (case s of c # cs \<Rightarrow> if c = CHR ''+'' then cs else s | [] \<Rightarrow> [])
      in if t = [] then None else radix_value radix bound 0 t)"

lemma radix_value_append:
  "radix_value radix bound acc (xs @ ys) =
     (case radix_value radix bound acc xs of None \<Rightarrow> None | Some n \<Rightarrow> radix_value radix bound n ys)"
  by (induction xs arbitrary: acc) (auto split: option.splits)

lemma radix_digit_char: "radix \<le> 16 \<Longrightarrow> d < radix \<Longrightarrow> radix_digit radix (digit_char d) = Some d"
  by (auto simp: radix_digit_def digit_char_def Let_def)

lemma radix_value_show_base:
  "2 \<le> radix \<Longrightarrow> radix \<le> 16 \<Longrightarrow> n < bound \<Longrightarrow> radix_value radix bound 0 (show_base radix n) = Some n"
proof (induction n rule: less_induct)
  case (less n)
  show ?case
  proof (cases "n < radix")
    case True
    with less.prems show ?thesis by (subst show_base.simps) (simp add: radix_digit_char)
  next
    case False
    have "n div radix < n" using False less.prems by simp
    then have "radix_value radix bound 0 (show_base radix (n div radix)) = Some (n div radix)"
      using less by simp
    with False less.prems show ?thesis
      by (subst show_base.simps) (simp add: radix_value_append radix_digit_char)
  qed
qed

lemma show_base_digits: "2 \<le> b \<Longrightarrow> c \<in> set (show_base b n) \<Longrightarrow> \<exists>d < b. c = digit_char d"
proof (induction n rule: less_induct)
  case (less n)
  show ?case
  proof (cases "n < b")
    case True
    with less.prems(2) have "c = digit_char n" by (simp add: show_base.simps [of b n])
    with True show ?thesis by blast
  next
    case False
    with less.prems have "c \<in> set (show_base b (n div b)) \<or> c = digit_char (n mod b)"
      by (auto simp: show_base.simps [of b n] split: if_splits)
    moreover have "n div b < n" using False less.prems(1) by simp
    moreover have "n mod b < b" using less.prems(1) by simp
    ultimately show ?thesis using less.IH less.prems(1) by blast
  qed
qed

lemma hd_show_base:
  assumes "2 \<le> b" "b \<le> 16"
  shows "hd (show_base b n) \<noteq> CHR ''+''"
proof -
  obtain d where "d < b" "hd (show_base b n) = digit_char d"
    using show_base_digits [OF assms(1) hd_in_set [OF show_base_nonempty]] by blast
  then have "radix_digit b (hd (show_base b n)) = Some d" using assms by (simp add: radix_digit_char)
  then show ?thesis by (auto simp: radix_digit_def Let_def)
qed

lemma from_str_radix_show_base:
  "2 \<le> radix \<Longrightarrow> radix \<le> 16 \<Longrightarrow> n < bound \<Longrightarrow> from_str_radix radix bound (show_base radix n) = Some n"
  using show_base_nonempty [of radix n] hd_show_base [of radix n] radix_value_show_base [of radix n bound]
  by (cases "show_base radix n") (auto simp: from_str_radix_def)

section \<open>Plain text\<close>

text \<open>Characters that neither case folding nor trimming touches.\<close>

definition plain_char :: "char \<Rightarrow> bool" where
  "plain_char c \<longleftrightarrow> ascii_lower c = c \<and> \<not> ascii_white c \<and> c \<notin> {CHR 0xC2, CHR 0xE1, CHR 0xE2, CHR 0xE3}"

abbreviation plain :: "string \<Rightarrow> bool" where
  "plain s \<equiv> \<forall>c \<in> set s. plain_char c"

lemma plain_lower: "plain s \<Longrightarrow> to_ascii_lowercase s = s"
  by (simp add: to_ascii_lowercase_def plain_char_def map_idI)

lemma trim_start_plain: "plain s \<Longrightarrow> trim_start s = s"
  by (cases s rule: trim_start.cases) (auto simp: plain_char_def wide_white2_def wide_white3_def)

lemma trim_end_plain: "plain s \<Longrightarrow> trim_end_rev s = s"
  by (cases s rule: trim_end_rev.cases) (auto simp: plain_char_def wide_white2_def wide_white3_def)

lemma trim_plain: "plain s \<Longrightarrow> trim s = s"
  by (simp add: trim_def trim_start_plain trim_end_plain)

lemma plain_digit: "d < 16 \<Longrightarrow> plain_char (digit_char d)"
proof -
  assume "d < 16"
  then have "d \<in> set [0..<16]" by simp
  moreover have "\<forall>d \<in> set [0..<16]. digit_char d \<in> set ''0123456789abcdef''" by code_simp
  moreover have "plain ''0123456789abcdef''" by (simp add: plain_char_def ascii_lower_def ascii_white_def)
  ultimately show ?thesis by blast
qed

lemma plain_show_base: "2 \<le> b \<Longrightarrow> b \<le> 16 \<Longrightarrow> plain (show_base b n)"
proof (induction n rule: less_induct)
  case (less n)
  show ?case
  proof (cases "n < b")
    case True
    with less.prems show ?thesis by (subst show_base.simps) (simp add: plain_digit)
  next
    case False
    have "n mod b < 16" using less.prems mod_less_divisor [of b n] by linarith
    moreover have "n div b < n" using False less.prems by simp
    then have "plain (show_base b (n div b))" using less by blast
    ultimately show ?thesis using False less.prems by (subst show_base.simps) (simp add: plain_digit)
  qed
qed

end
