(* ===== verification/Tool_Error.thy ===== *)
theory Tool_Error
  imports Rust_Std
begin

text \<open>
  \<open>src/src/error.rs\<close>: the error type every tool handler returns, its \<open>Display\<close> text
  (which is what crosses the boundary between a worker process and the router), and
  the two predicates the lifecycle code branches on.
\<close>

text \<open>rmcp's \<open>ErrorData\<close>: the code and message of a JSON-RPC error.\<close>

record error_data =
  ed_code :: int
  ed_message :: string

datatype tool_error =
    NoDatabaseOpen
  | DatabaseAlreadyOpen string
  | OpenFailed string
  | DatabaseLocked string
  | InvalidAddress string
  | InvalidPath string
  | InvalidParams string
  | InvalidToolCategory string
  | InvalidToolName string
  | AddressOutOfRange u64
  | FunctionNotFound u64
  | FunctionNameNotFound string
  | DecompilerUnavailable
  | Timeout u64
  | TimeoutDetailed string
  | Cancelled string
  | Busy
  | DatabaseReplaced
  | BackgroundTaskHandlePrivate
  | BackgroundTaskRegistryFull usize
  | PoolExhausted usize usize
  | WorkerCrashed usize string
  | WorkerRetired string
  | NeverDispatched string
  | SdkCrashed string
  | RemoteProtocol string
  | RemoteCall error_data
  | IdaError string
  | DebuggerTeardown string
  | DebuggerStartRetained string
  | DebuggerSessionLost string
  | NotSupported string
  | WorkerClosed
  | SdkVersionMismatch string

definition show_int :: "int \<Rightarrow> string" where
  "show_int i = (if i < 0 then ''-'' @ show_nat (nat (- i)) else show_nat (nat i))"

definition DEBUGGER_START_RETAINED_PREFIX :: string where
  "DEBUGGER_START_RETAINED_PREFIX = ''Debugger start incomplete; active session retained: ''"

text \<open>\<open>ToolError\<close>'s \<open>Display\<close>, from the \<open>#[error(...)]\<close> attributes.\<close>

fun display :: "tool_error \<Rightarrow> string" where
  "display NoDatabaseOpen =
     ''No database is currently open. If you had one open previously, the server may have restarted '' @
     [CHR 0xE2, CHR 0x80, CHR 0x94] @ '' call open_idb again.''"
| "display (DatabaseAlreadyOpen s) = ''A database is already open: '' @ s @ ''. Use close_idb first.''"
| "display (OpenFailed s) = ''Failed to open database: '' @ s"
| "display (DatabaseLocked s) = ''Database appears to be open in another instance: '' @ s"
| "display (InvalidAddress s) = ''Invalid address format: '' @ s"
| "display (InvalidPath s) = ''Invalid database path: '' @ s"
| "display (InvalidParams s) = ''Invalid parameters: '' @ s"
| "display (InvalidToolCategory s) = ''Invalid tool category: '' @ s"
| "display (InvalidToolName s) = ''Invalid tool name: '' @ s"
| "display (AddressOutOfRange a) = ''Address '' @ show_hex (unat a) @ '' is outside valid range''"
| "display (FunctionNotFound a) = ''Function not found at address '' @ show_hex (unat a)"
| "display (FunctionNameNotFound s) = ''Function not found: '' @ s"
| "display DecompilerUnavailable = ''Decompiler not available''"
| "display (Timeout n) = ''Operation timed out after '' @ show_nat (unat n) @ '' seconds''"
| "display (TimeoutDetailed s) = s"
| "display (Cancelled s) = s"
| "display Busy = ''Server is busy (request queue full). Please retry.''"
| "display DatabaseReplaced =
     ''The database this background operation opened was closed and replaced. '' @
     ''Its remaining work was abandoned so it cannot touch the current database.''"
| "display BackgroundTaskHandlePrivate =
     ''Matching background work is already running; its task handle stays with the response that started it. Retry after it finishes.''"
| "display (BackgroundTaskRegistryFull n) =
     ''Background task registry is full ('' @ show_nat (unat n) @ '' retained tasks). Retry after older results expire.''"
| "display (PoolExhausted a m) =
     ''Worker pool exhausted: '' @ show_nat (unat a) @ ''/'' @ show_nat (unat m) @
     '' workers are leased. Close an IDB or retry later.''"
| "display (WorkerCrashed w op) =
     ''Worker '' @ show_nat (unat w) @ '' crashed or disconnected during '' @ op"
| "display (WorkerRetired s) = s"
| "display (NeverDispatched s) = s"
| "display (SdkCrashed s) = s"
| "display (RemoteProtocol s) = ''Remote worker protocol error: '' @ s"
| "display (RemoteCall e) =
     ''Remote worker rejected request ('' @ show_int (ed_code e) @ ''): '' @ ed_message e"
| "display (IdaError s) = ''IDA error: '' @ s"
| "display (DebuggerTeardown s) = ''Debugger teardown incomplete: '' @ s"
| "display (DebuggerStartRetained s) = DEBUGGER_START_RETAINED_PREFIX @ s"
| "display (DebuggerSessionLost s) = ''Debugger session lost: '' @ s"
| "display (NotSupported s) = ''Not supported: '' @ s"
| "display WorkerClosed = ''Worker channel closed''"
| "display (SdkVersionMismatch s) = ''SDK version mismatch: '' @ s"

fun is_fatal :: "tool_error \<Rightarrow> bool" where
  "is_fatal (SdkCrashed _) = True"
| "is_fatal (DebuggerSessionLost _) = True"
| "is_fatal (WorkerRetired _) = True"
| "is_fatal (WorkerCrashed _ _) = True"
| "is_fatal _ = False"

fun never_dispatched :: "tool_error \<Rightarrow> bool" where
  "never_dispatched (NeverDispatched _) = True"
| "never_dispatched Busy = True"
| "never_dispatched _ = False"

text \<open>A call that never reached a worker reports nothing about that worker.\<close>

lemma never_dispatched_not_fatal: "never_dispatched e \<Longrightarrow> \<not> is_fatal e"
  by (cases e) auto

end
