(* ===== verification/Remote.thy ===== *)
theory Remote
  imports Tool_Error
begin

text \<open>
  \<open>src/src/ida/remote.rs\<close>: how the router talks to a child worker. A child answers with
  an MCP tool result; the router reads the private crash marker from its metadata and
  turns an error result back into a typed error by its text. JSON parsing (serde) and
  the rmcp peer are parameters.
\<close>

section \<open>JSON values and tool results\<close>

text \<open>\<open>serde_json::Value\<close>; a number is kept as its literal text.\<close>

datatype json =
    JNull
  | JBool bool
  | JNum string
  | JStr string
  | JArr "json list"
  | JObj "(string \<times> json) list"

text \<open>A content block of a tool result: text, or one of the other kinds.\<close>

datatype content = TextContent string | OtherContent

record call_tool_result =
  tr_content :: "content list"
  tr_structured :: "json option"
  tr_is_error :: "bool option"
  tr_meta :: "(string, json) hashmap option"

text \<open>\<open>CallToolResult::error\<close> and \<open>ToolError::to_tool_result\<close>.\<close>

definition error_result :: "content list \<Rightarrow> call_tool_result" where
  "error_result cs = \<lparr>tr_content = cs, tr_structured = None, tr_is_error = Some True, tr_meta = None\<rparr>"

definition to_tool_result :: "tool_error \<Rightarrow> call_tool_result" where
  "to_tool_result e = error_result [TextContent (display e)]"

definition hex_addr :: "u64 \<Rightarrow> json" where
  "hex_addr a = JStr (''0x'' @ show_base 16 (unat a))"

definition opt_hex_addr :: "u64 option \<Rightarrow> json" where
  "opt_hex_addr a = (case map_option hex_addr a of Some v \<Rightarrow> v | None \<Rightarrow> JNull)"

text \<open>The debug rendering of the offending value is a parameter.\<close>

definition json_object :: "(json \<Rightarrow> string) \<Rightarrow> json \<Rightarrow> tool_error + (string \<times> json) list" where
  "json_object dbg v = (case v of JObj m \<Rightarrow> Inr m
     | _ \<Rightarrow> Inl (RemoteProtocol (''tool arguments must be a JSON object, got '' @ dbg v)))"

definition NOT_SUPPORTED_PREFIX :: string where
  "NOT_SUPPORTED_PREFIX = ''Not supported: ''"

definition SDK_CRASHED_META_KEY :: string where
  "SDK_CRASHED_META_KEY = ''ida-mcp/sdk-crashed''"

section \<open>The crash marker\<close>

definition mark_sdk_crashed :: "call_tool_result \<Rightarrow> call_tool_result" where
  "mark_sdk_crashed r =
     r\<lparr>tr_meta := Some (hm_insert SDK_CRASHED_META_KEY (JBool True)
        (case tr_meta r of Some m \<Rightarrow> m | None \<Rightarrow> []))\<rparr>"

definition strip_result_metadata :: "call_tool_result \<Rightarrow> call_tool_result" where
  "strip_result_metadata r =
     (case tr_meta r of
        None \<Rightarrow> r
      | Some m \<Rightarrow>
          (let m' = hm_remove SDK_CRASHED_META_KEY m
           in if m' = [] then r\<lparr>tr_meta := None\<rparr> else r\<lparr>tr_meta := Some m'\<rparr>))"

definition is_sdk_crash :: "call_tool_result \<Rightarrow> bool" where
  "is_sdk_crash r =
     (Option.bind (tr_meta r) (\<lambda>m. hm_get m SDK_CRASHED_META_KEY) = Some (JBool True))"

definition result_error_message :: "call_tool_result \<Rightarrow> string \<Rightarrow> string" where
  "result_error_message r tool =
     (case tr_content r of
        TextContent t # _ \<Rightarrow> t
      | _ \<Rightarrow> ''child tool '' @ tool @ '' returned an error'')"

definition sdk_crash :: "call_tool_result \<Rightarrow> string \<Rightarrow> tool_error option" where
  "sdk_crash r tool =
     (if \<not> is_sdk_crash r then None
      else Some (SdkCrashed
        (if tr_is_error r = Some True then result_error_message r tool
         else tool @ '' crashed inside the IDA SDK. The database state can no longer be trusted, '' @
           ''so it is closed without saving and changes since the last save_idb are lost. '' @
           ''Call open_idb again.'')))"

definition worker_metadata_keys :: "string list" where
  "worker_metadata_keys = [''session_id'', ''close_hint'', ''close_owner_session_id'',
     ''close_token'', ''close_token_reused'', ''close_recovery_hint'']"

definition strip_worker_metadata :: "json \<Rightarrow> json" where
  "strip_worker_metadata v = (case v of JObj m \<Rightarrow> JObj (fold hm_remove worker_metadata_keys m) | _ \<Rightarrow> v)"

section \<open>Error results\<close>

definition result_text :: "call_tool_result \<Rightarrow> string \<Rightarrow> tool_error + string" where
  "result_text r tool =
     (if tr_is_error r = Some True then Inl (IdaError (result_error_message r tool))
      else case tr_content r of
        TextContent t # cs \<Rightarrow>
          (if length (tr_content r) \<noteq> 1
           then Inl (RemoteProtocol (''child tool '' @ tool @ '' returned '' @
                  show_nat (length (tr_content r)) @ '' content items; expected 1''))
           else Inr t)
      | _ \<Rightarrow> Inl (RemoteProtocol (''child tool '' @ tool @ '' returned no text content'')))"

definition classify_child_error :: "string \<Rightarrow> tool_error" where
  "classify_child_error message =
     (case strip_prefix DEBUGGER_START_RETAINED_PREFIX message of
        Some detail \<Rightarrow> DebuggerStartRetained detail
      | None \<Rightarrow>
     (case strip_prefix NOT_SUPPORTED_PREFIX message of
        Some detail \<Rightarrow> NotSupported detail
      | None \<Rightarrow>
     (let lowered = to_ascii_lowercase message in
      if str_contains ''worker channel closed'' lowered then WorkerClosed
      else if str_contains ''timed out after'' lowered
        \<or> str_contains ''operation timed out'' lowered
        \<or> str_contains ''exceeded worker operation timeout'' lowered
      then TimeoutDetailed message
      else if str_contains ''cancelled'' lowered \<or> str_contains ''canceled'' lowered
      then Cancelled message
      else if str_contains ''debugger teardown incomplete'' lowered
      then DebuggerTeardown message
      else IdaError message)))"

definition result_error :: "call_tool_result \<Rightarrow> string \<Rightarrow> tool_error option" where
  "result_error r tool =
     (if tr_is_error r \<noteq> Some True then None
      else Some (classify_child_error (result_error_message r tool)))"

text \<open>
  \<open>parse_json\<close> and \<open>parse_value\<close>. \<open>from_str\<close> is \<open>serde_json::from_str\<close>, \<open>from_value\<close> the
  derived deserializer of the target type; each returns its error text on failure.
\<close>

definition parse_value ::
  "(string \<Rightarrow> string + json) \<Rightarrow> call_tool_result \<Rightarrow> string \<Rightarrow> tool_error + json" where
  "parse_value from_str r tool =
     (case result_error r tool of
        Some e \<Rightarrow> Inl e
      | None \<Rightarrow>
     (case tr_structured r of
        Some v \<Rightarrow> Inr (strip_worker_metadata v)
      | None \<Rightarrow>
     (case result_text r tool of
        Inl e \<Rightarrow> Inl e
      | Inr t \<Rightarrow>
     (case from_str t of
        Inl err \<Rightarrow> Inl (RemoteProtocol (''failed to parse '' @ tool @ '' JSON response: '' @ err))
      | Inr v \<Rightarrow> Inr (strip_worker_metadata v)))))"

definition parse_json ::
  "(string \<Rightarrow> string + json) \<Rightarrow> (json \<Rightarrow> string + 'a) \<Rightarrow> call_tool_result \<Rightarrow> string \<Rightarrow> tool_error + 'a" where
  "parse_json from_str from_value r tool =
     (case result_error r tool of
        Some e \<Rightarrow> Inl e
      | None \<Rightarrow>
     (case tr_structured r of
        Some v \<Rightarrow>
          (case from_value (strip_worker_metadata v) of
             Inl err \<Rightarrow> Inl (RemoteProtocol (''failed to parse '' @ tool @ '' structured response: '' @ err))
           | Inr x \<Rightarrow> Inr x)
      | None \<Rightarrow>
     (case result_text r tool of
        Inl e \<Rightarrow> Inl e
      | Inr t \<Rightarrow>
     (case from_str t of
        Inl err \<Rightarrow> Inl (RemoteProtocol (''failed to parse '' @ tool @ '' JSON response: '' @ err))
      | Inr v \<Rightarrow>
     (case from_value (strip_worker_metadata v) of
        Inl err \<Rightarrow> Inl (RemoteProtocol (''invalid '' @ tool @ '' response: '' @ err))
      | Inr x \<Rightarrow> Inr x)))))"

text \<open>What awaiting a dispatched request can bring (rmcp's \<open>ServiceError\<close> and \<open>ServerResult\<close>).\<close>

datatype service_reply =
    ReplyResult call_tool_result
  | ReplyOther
  | ReplyMcpError error_data
  | ReplyServiceError string

definition tool_response :: "service_reply \<Rightarrow> string \<Rightarrow> string \<Rightarrow> tool_error + call_tool_result" where
  "tool_response reply tool unexpected =
     (case reply of
        ReplyMcpError e \<Rightarrow> Inl (RemoteCall e)
      | ReplyServiceError err \<Rightarrow> Inl (RemoteProtocol (tool @ '' call failed: '' @ err))
      | ReplyResult r \<Rightarrow> Inr r
      | ReplyOther \<Rightarrow> Inl (RemoteProtocol (tool @ '' call failed: '' @ unexpected)))"

section \<open>Laws of the crash marker\<close>

lemma is_sdk_crash_mark:
  assumes "\<forall>m. tr_meta r = Some m \<longrightarrow> hm_wf m"
  shows "is_sdk_crash (mark_sdk_crashed r)"
  using assms
  by (auto simp: is_sdk_crash_def mark_sdk_crashed_def hm.get_ins split: option.splits)

lemma is_sdk_crash_strip:
  assumes "\<forall>m. tr_meta r = Some m \<longrightarrow> hm_wf m"
  shows "\<not> is_sdk_crash (strip_result_metadata r)"
  using assms
  by (auto simp: is_sdk_crash_def strip_result_metadata_def Let_def hm.get_rem split: option.splits)

lemma strip_mark:
  assumes "\<forall>m. tr_meta r = Some m \<longrightarrow> hm_wf m \<and> m \<noteq> [] \<and> hm_get m SDK_CRASHED_META_KEY = None"
  shows "strip_result_metadata (mark_sdk_crashed r) = r"
proof (cases "tr_meta r")
  case None
  then show ?thesis
    by (simp add: strip_result_metadata_def mark_sdk_crashed_def hm_insert_def hm_remove_def)
next
  case (Some m)
  with assms have m: "m \<noteq> []" "hm_get m SDK_CRASHED_META_KEY = None" by auto
  from m(2) have "filter (\<lambda>p. fst p \<noteq> SDK_CRASHED_META_KEY) m = m"
    by (force simp: filter_id_conv hm_get_def map_of_eq_None_iff)
  then have "hm_remove SDK_CRASHED_META_KEY (hm_insert SDK_CRASHED_META_KEY (JBool True) m) = m"
    by (simp add: hm_insert_def hm_remove_def)
  with m(1) Some show ?thesis
    by (simp add: strip_result_metadata_def mark_sdk_crashed_def)
qed

lemma strip_worker_metadata_gone:
  assumes "k \<in> set worker_metadata_keys" "strip_worker_metadata (JObj m) = JObj m'"
  shows "k \<notin> fst ` set m'"
proof -
  have "set (fold hm_remove ks m) = {p \<in> set m. fst p \<notin> set ks}" for ks :: "string list" and m :: "(string, json) hashmap"
    by (induction ks arbitrary: m) auto
  with assms show ?thesis by (auto simp: strip_worker_metadata_def)
qed

section \<open>Typed errors across the child boundary\<close>

lemma classify_worker_closed:
  assumes "strip_prefix DEBUGGER_START_RETAINED_PREFIX msg = None"
    and "strip_prefix NOT_SUPPORTED_PREFIX msg = None"
    and "str_contains ''worker channel closed'' (to_ascii_lowercase msg)"
  shows "classify_child_error msg = WorkerClosed"
  using assms by (simp add: classify_child_error_def)

lemma classify_timeout:
  assumes "strip_prefix DEBUGGER_START_RETAINED_PREFIX msg = None"
    and "strip_prefix NOT_SUPPORTED_PREFIX msg = None"
    and "CHR ''w'' \<notin> set (to_ascii_lowercase msg)"
    and "str_contains ''timed out after'' (to_ascii_lowercase msg)"
  shows "classify_child_error msg = TimeoutDetailed msg"
proof -
  have "\<not> str_contains ''worker channel closed'' (to_ascii_lowercase msg)"
    using assms(3) str_contains_set [of "''worker channel closed''" "to_ascii_lowercase msg"] by auto
  with assms(1,2,4) show ?thesis by (simp add: classify_child_error_def)
qed

lemma lower_timeout_text:
  "to_ascii_lowercase (display (Timeout n)) =
     ''operation '' @ ''timed out after'' @ '' '' @ show_nat (unat n) @ '' seconds''"
proof -
  have "to_ascii_lowercase ''Operation timed out after '' = ''operation '' @ ''timed out after'' @ '' ''"
    and "to_ascii_lowercase '' seconds'' = '' seconds''"
    by code_simp+
  then show ?thesis by (simp only: display.simps to_ascii_lowercase_append lower_show_nat append_assoc)
qed

lemma result_error_of: "result_error (to_tool_result e) tool = Some (classify_child_error (display e))"
  by (simp add: result_error_def to_tool_result_def error_result_def result_error_message_def)

text \<open>The errors that a text can be read as: the text is kept, or split into prefix and detail, or says that the channel is closed.\<close>

definition readings :: "string \<Rightarrow> tool_error set" where
  "readings t =
     {TimeoutDetailed t, Cancelled t, DebuggerTeardown t, IdaError t}
     \<union> {e. e = WorkerClosed \<and> str_contains ''worker channel closed'' (to_ascii_lowercase t)}
     \<union> {NotSupported d | d. t = NOT_SUPPORTED_PREFIX @ d}
     \<union> {DebuggerStartRetained d | d. t = DEBUGGER_START_RETAINED_PREFIX @ d}"

lemma classify_reading: "classify_child_error t \<in> readings t"
  using strip_prefix_Some [of DEBUGGER_START_RETAINED_PREFIX t] strip_prefix_Some [of NOT_SUPPORTED_PREFIX t]
  by (auto simp: classify_child_error_def readings_def Let_def split: option.splits)

lemma reading_harmless: "e \<in> readings t \<Longrightarrow> \<not> is_fatal e \<and> \<not> never_dispatched e"
  by (auto simp: readings_def)


end
