(* ===== verification/Task_Registry.thy ===== *)
theory Task_Registry
  imports Rust_Std "HOL-Library.Char_ord" "HOL-Library.List_Lexorder" "HOL-Library.Product_Lexorder"
begin

text \<open>
  \<open>src/src/server/task.rs\<close>: the bounded registry of background tasks. An entry moves
  from running to exactly one terminal status; cancellation is a request recorded on a
  running entry until its operation settles. The registry is the mutex-protected map of
  entries together with the cancellation tokens that have been fired.

  Clock readings are arguments: an \<open>instant\<close> is a monotonic reading in nanoseconds, a
  \<open>clock\<close> pairs it with the ISO text of the same moment. Every operation runs under the
  registry's mutex, so it is one atomic step. The random part of a task id is an
  argument too.
\<close>

section \<open>Data\<close>

type_synonym clock = "instant \<times> string"

definition TASK_RETENTION_TTL_MS :: nat where
  "TASK_RETENTION_TTL_MS = 24 * 60 * 60 * 1000"

definition MAX_TASK_REGISTRY_ENTRIES :: nat where
  "MAX_TASK_REGISTRY_ENTRIES = 256"

datatype task_owner = Session string | Runtime

datatype task_create_error =
    AlreadyRunning string
  | ExistingTaskIdIsPrivate
  | CapacityExceeded nat

datatype task_status = TsRunning | TsCompleted | TsFailed | TsCancelled

datatype task_settlement = StlCompleted | StlFailed | StlCancelled | StlUnchanged

datatype task_completion_decision = DecCompleted | DecCancellationPending | DecUnchanged

record 'v task_state =
  ts_id :: string
  ts_status :: task_status
  ts_message :: string
  ts_result :: "'v option"
  ts_created_at :: instant
  ts_updated_at :: instant
  ts_created_at_iso :: string
  ts_updated_at_iso :: string
  ts_key :: "string option"

record 'v task_entry =
  te_owner :: task_owner
  te_state :: "'v task_state"
  te_workspace_database_id :: "string option"
  te_cancel_token :: "token option"
  te_cancel_requested :: "string option"

record 'v task_registry =
  tr_entries :: "(string, 'v task_entry) hashmap"
  tr_fired :: "token list"

section \<open>Operations on one entry\<close>

definition task_entry_new :: "task_owner \<Rightarrow> 'v task_state \<Rightarrow> 'v task_entry" where
  "task_entry_new owner st = \<lparr>te_owner = owner, te_state = st, te_workspace_database_id = None,
     te_cancel_token = None, te_cancel_requested = None\<rparr>"

definition refresh_updated :: "clock \<Rightarrow> 'v task_state \<Rightarrow> 'v task_state" where
  "refresh_updated now st = st\<lparr>ts_updated_at := fst now, ts_updated_at_iso := snd now\<rparr>"

abbreviation te_status :: "'v task_entry \<Rightarrow> task_status" where
  "te_status e \<equiv> ts_status (te_state e)"

abbreviation is_running :: "'v task_entry \<Rightarrow> bool" where
  "is_running e \<equiv> te_status e = TsRunning"

text \<open>Storing a token cancels it at once when cancellation was requested before it arrived.\<close>

definition entry_set_cancel_token :: "token option \<Rightarrow> 'v task_entry \<Rightarrow> 'v task_entry \<times> token list" where
  "entry_set_cancel_token tok e =
     (e\<lparr>te_cancel_token := tok\<rparr>,
      case tok of Some t \<Rightarrow> if te_cancel_requested e \<noteq> None then [t] else [] | None \<Rightarrow> [])"

definition clear_runtime :: "'v task_entry \<Rightarrow> 'v task_entry" where
  "clear_runtime e = e\<lparr>te_cancel_token := None\<rparr>"

definition transition_cancelled :: "clock \<Rightarrow> string \<Rightarrow> 'v task_entry \<Rightarrow> 'v task_entry" where
  "transition_cancelled now msg e =
     (let e1 = (clear_runtime e)\<lparr>te_cancel_requested := None\<rparr>
      in e1\<lparr>te_state := refresh_updated now
            ((te_state e1)\<lparr>ts_status := TsCancelled, ts_message := msg\<rparr>)\<rparr>)"

definition entry_complete :: "clock \<Rightarrow> 'v \<Rightarrow> 'v task_entry \<Rightarrow> 'v task_entry \<times> task_settlement" where
  "entry_complete now result e =
     (if te_status e \<noteq> TsRunning then (e, StlUnchanged)
      else case te_cancel_requested e of
        Some msg \<Rightarrow> (transition_cancelled now msg (e\<lparr>te_cancel_requested := None\<rparr>), StlCancelled)
      | None \<Rightarrow>
          (clear_runtime (e\<lparr>te_state := refresh_updated now
             ((te_state e)\<lparr>ts_status := TsCompleted, ts_message := ''Completed'', ts_result := Some result\<rparr>)\<rparr>),
           StlCompleted))"

definition entry_complete_after_fatal_error ::
  "clock \<Rightarrow> 'v \<Rightarrow> 'v task_entry \<Rightarrow> 'v task_entry \<times> task_settlement" where
  "entry_complete_after_fatal_error now result e =
     (if te_status e \<noteq> TsRunning then (e, StlUnchanged)
      else entry_complete now result (e\<lparr>te_cancel_requested := None\<rparr>))"

definition entry_fail :: "clock \<Rightarrow> string \<Rightarrow> 'v task_entry \<Rightarrow> 'v task_entry \<times> task_settlement" where
  "entry_fail now err e =
     (if te_status e \<noteq> TsRunning then (e, StlUnchanged)
      else case te_cancel_requested e of
        Some msg \<Rightarrow> (transition_cancelled now msg (e\<lparr>te_cancel_requested := None\<rparr>), StlCancelled)
      | None \<Rightarrow>
          (clear_runtime (e\<lparr>te_state := refresh_updated now
             ((te_state e)\<lparr>ts_status := TsFailed, ts_message := err\<rparr>)\<rparr>), StlFailed))"

definition entry_fail_after_cleanup_error ::
  "clock \<Rightarrow> string \<Rightarrow> 'v task_entry \<Rightarrow> 'v task_entry \<times> task_settlement" where
  "entry_fail_after_cleanup_error now err e =
     (if te_status e \<noteq> TsRunning then (e, StlUnchanged)
      else (clear_runtime (e\<lparr>te_cancel_requested := None,
              te_state := refresh_updated now ((te_state e)\<lparr>ts_status := TsFailed, ts_message := err\<rparr>)\<rparr>),
            StlFailed))"

text \<open>The Boolean result and the token that is fired, if one is registered.\<close>

definition request_cancel :: "clock \<Rightarrow> string \<Rightarrow> 'v task_entry \<Rightarrow> 'v task_entry \<times> bool \<times> token list" where
  "request_cancel now msg e =
     (if te_status e \<noteq> TsRunning \<or> te_cancel_requested e \<noteq> None then (e, False, [])
      else (e\<lparr>te_cancel_requested := Some msg,
              te_state := refresh_updated now
                ((te_state e)\<lparr>ts_message := msg @ ''; waiting for the operation to settle''\<rparr>)\<rparr>,
            True, case te_cancel_token e of Some tok \<Rightarrow> [tok] | None \<Rightarrow> []))"

definition entry_finish_cancelled :: "clock \<Rightarrow> string \<Rightarrow> 'v task_entry \<Rightarrow> 'v task_entry \<times> bool" where
  "entry_finish_cancelled now msg e =
     (if te_status e \<noteq> TsRunning then (e, False) else (transition_cancelled now msg e, True))"

definition entry_update_message :: "clock \<Rightarrow> string \<Rightarrow> 'v task_entry \<Rightarrow> 'v task_entry" where
  "entry_update_message now msg e =
     (if te_status e = TsRunning \<and> te_cancel_requested e = None
      then e\<lparr>te_state := refresh_updated now ((te_state e)\<lparr>ts_message := msg\<rparr>)\<rparr> else e)"

section \<open>Pruning and admission\<close>

definition retention_ns :: nat where
  "retention_ns = TASK_RETENTION_TTL_MS * 1000000"

text \<open>\<open>saturating_duration_since\<close> is truncated subtraction.\<close>

definition prune_terminal_tasks ::
  "instant \<Rightarrow> (string, 'v task_entry) hashmap \<Rightarrow> (string, 'v task_entry) hashmap" where
  "prune_terminal_tasks now m =
     hm_retain (\<lambda>_ e. te_status e = TsRunning \<or> now - ts_updated_at (te_state e) < retention_ns) m"

text \<open>The terminal entries as \<open>(updated_at, id)\<close>, in the order \<open>sort_unstable\<close> gives.\<close>

definition terminal_by_age :: "(string, 'v task_entry) hashmap \<Rightarrow> (instant \<times> string) list" where
  "terminal_by_age m =
     sort (map (\<lambda>p. (ts_updated_at (te_state (snd p)), fst p))
             (filter (\<lambda>p. te_status (snd p) \<noteq> TsRunning) m))"

definition reclaim_victims :: "(string, 'v task_entry) hashmap \<Rightarrow> string list" where
  "reclaim_victims m =
     map snd (take (length m - MAX_TASK_REGISTRY_ENTRIES + 1) (terminal_by_age m))"

definition reclaim_capacity_for_admission ::
  "(string, 'v task_entry) hashmap \<Rightarrow> (string, 'v task_entry) hashmap" where
  "reclaim_capacity_for_admission m =
     (if length m < MAX_TASK_REGISTRY_ENTRIES then m
      else fold hm_remove (reclaim_victims m) m)"

definition next_task_id :: "string \<Rightarrow> string \<Rightarrow> string" where
  "next_task_id pre uuid = pre @ ''-'' @ uuid"

definition find_running_key :: "string \<Rightarrow> (string, 'v task_entry) hashmap \<Rightarrow> 'v task_entry option" where
  "find_running_key key m =
     find (\<lambda>e. te_status e = TsRunning \<and> ts_key (te_state e) = Some key) (map snd m)"

definition fresh_state :: "clock \<Rightarrow> string \<Rightarrow> string \<Rightarrow> string \<Rightarrow> 'v task_state" where
  "fresh_state now tid key msg = \<lparr>ts_id = tid, ts_status = TsRunning, ts_message = msg, ts_result = None,
     ts_created_at = fst now, ts_updated_at = fst now, ts_created_at_iso = snd now,
     ts_updated_at_iso = snd now, ts_key = Some key\<rparr>"

definition create_keyed ::
  "task_owner \<Rightarrow> string \<Rightarrow> string \<Rightarrow> string \<Rightarrow> string \<Rightarrow> instant \<Rightarrow> clock \<Rightarrow> 'v task_registry \<Rightarrow>
   (task_create_error + string) \<times> 'v task_registry" where
  "create_keyed owner pre key msg uuid t now r =
     (let m = prune_terminal_tasks t (tr_entries r) in
      case find_running_key key m of
        Some e \<Rightarrow>
          (Inl (case owner of
                  Session _ \<Rightarrow> if te_owner e = owner then AlreadyRunning (ts_id (te_state e))
                               else ExistingTaskIdIsPrivate
                | Runtime \<Rightarrow> ExistingTaskIdIsPrivate), r\<lparr>tr_entries := m\<rparr>)
      | None \<Rightarrow>
          (let m' = reclaim_capacity_for_admission m in
           if MAX_TASK_REGISTRY_ENTRIES \<le> length m'
           then (Inl (CapacityExceeded MAX_TASK_REGISTRY_ENTRIES), r\<lparr>tr_entries := m'\<rparr>)
           else (let tid = next_task_id pre uuid in
                 (Inr tid, r\<lparr>tr_entries :=
                    hm_insert tid (task_entry_new owner (fresh_state now tid key msg)) m'\<rparr>))))"

section \<open>Operations on the registry\<close>

definition task_registry_new :: "'v task_registry" where
  "task_registry_new = \<lparr>tr_entries = [], tr_fired = []\<rparr>"

definition set_cancel_token :: "string \<Rightarrow> token \<Rightarrow> 'v task_registry \<Rightarrow> 'v task_registry" where
  "set_cancel_token tid tok r =
     (case hm_get (tr_entries r) tid of
        None \<Rightarrow> r
      | Some e \<Rightarrow> r\<lparr>tr_entries := hm_modify tid (\<lambda>e. fst (entry_set_cancel_token (Some tok) e)) (tr_entries r),
                    tr_fired := snd (entry_set_cancel_token (Some tok) e) @ tr_fired r\<rparr>)"

definition bind_workspace_open :: "string \<Rightarrow> string \<Rightarrow> 'v task_registry \<Rightarrow> 'v task_registry" where
  "bind_workspace_open tid dbid r =
     r\<lparr>tr_entries := hm_modify tid (\<lambda>e. e\<lparr>te_workspace_database_id := Some dbid\<rparr>) (tr_entries r)\<rparr>"

definition has_running_workspace_open :: "string \<Rightarrow> instant \<Rightarrow> 'v task_registry \<Rightarrow> bool \<times> 'v task_registry" where
  "has_running_workspace_open dbid t r =
     (let m = prune_terminal_tasks t (tr_entries r)
      in (\<exists>e \<in> snd ` set m. te_status e = TsRunning \<and> te_workspace_database_id e = Some dbid,
          r\<lparr>tr_entries := m\<rparr>))"

definition get_task :: "string \<Rightarrow> instant \<Rightarrow> 'v task_registry \<Rightarrow> 'v task_state option \<times> 'v task_registry" where
  "get_task tid t r =
     (let m = prune_terminal_tasks t (tr_entries r)
      in (map_option te_state (hm_get m tid), r\<lparr>tr_entries := m\<rparr>))"

definition get_for_owner ::
  "task_owner \<Rightarrow> string \<Rightarrow> instant \<Rightarrow> 'v task_registry \<Rightarrow> 'v task_state option \<times> 'v task_registry" where
  "get_for_owner owner tid t r =
     (let m = prune_terminal_tasks t (tr_entries r)
      in (case hm_get m tid of
            Some e \<Rightarrow> if te_owner e = owner then Some (te_state e) else None
          | None \<Rightarrow> None, r\<lparr>tr_entries := m\<rparr>))"

definition update_message :: "string \<Rightarrow> clock \<Rightarrow> string \<Rightarrow> 'v task_registry \<Rightarrow> 'v task_registry" where
  "update_message tid now msg r =
     r\<lparr>tr_entries := hm_modify tid (entry_update_message now msg) (tr_entries r)\<rparr>"

text \<open>
  The shape of every settling call: look the entry up, settle it in place, and prune
  when something changed.
\<close>

definition settle_with ::
  "('v task_entry \<Rightarrow> 'v task_entry \<times> task_settlement) \<Rightarrow> string \<Rightarrow> instant \<Rightarrow> 'v task_registry \<Rightarrow>
   task_settlement \<times> 'v task_registry" where
  "settle_with f tid t r =
     (case hm_get (tr_entries r) tid of
        None \<Rightarrow> (StlUnchanged, r)
      | Some e \<Rightarrow>
          (let m = hm_modify tid (\<lambda>e. fst (f e)) (tr_entries r)
           in (snd (f e), r\<lparr>tr_entries := if snd (f e) \<noteq> StlUnchanged then prune_terminal_tasks t m else m\<rparr>)))"

definition complete :: "string \<Rightarrow> 'v \<Rightarrow> clock \<Rightarrow> instant \<Rightarrow> 'v task_registry \<Rightarrow> task_settlement \<times> 'v task_registry" where
  "complete tid result now t r = settle_with (entry_complete now result) tid t r"

definition entry_complete_with_cancel_token ::
  "bool \<Rightarrow> string \<Rightarrow> clock \<Rightarrow> 'v \<Rightarrow> 'v task_entry \<Rightarrow> 'v task_entry \<times> task_settlement" where
  "entry_complete_with_cancel_token cancelled cancel_msg now result e =
     (if cancelled
      then (case entry_finish_cancelled now cancel_msg e of
              (e', b) \<Rightarrow> (e', if b then StlCancelled else StlUnchanged))
      else entry_complete now result e)"

definition complete_with_cancel_token ::
  "string \<Rightarrow> 'v \<Rightarrow> token \<Rightarrow> string \<Rightarrow> clock \<Rightarrow> instant \<Rightarrow> 'v task_registry \<Rightarrow> task_settlement \<times> 'v task_registry" where
  "complete_with_cancel_token tid result tok cancel_msg now t r =
     settle_with (entry_complete_with_cancel_token (tok \<in> set (tr_fired r)) cancel_msg now result) tid t r"

definition complete_after_fatal_error ::
  "string \<Rightarrow> 'v \<Rightarrow> clock \<Rightarrow> instant \<Rightarrow> 'v task_registry \<Rightarrow> task_settlement \<times> 'v task_registry" where
  "complete_after_fatal_error tid result now t r =
     settle_with (entry_complete_after_fatal_error now result) tid t r"

definition complete_or_defer_cancellation ::
  "string \<Rightarrow> 'v \<Rightarrow> token \<Rightarrow> clock \<Rightarrow> instant \<Rightarrow> 'v task_registry \<Rightarrow> task_completion_decision \<times> 'v task_registry" where
  "complete_or_defer_cancellation tid result tok now t r =
     (case hm_get (tr_entries r) tid of
        None \<Rightarrow> (DecUnchanged, r)
      | Some e \<Rightarrow>
          (if te_status e \<noteq> TsRunning then (DecUnchanged, r)
           else if tok \<in> set (tr_fired r) \<or> te_cancel_requested e \<noteq> None then (DecCancellationPending, r)
           else (let m = hm_modify tid (\<lambda>e. fst (entry_complete now result e)) (tr_entries r) in
                 case snd (entry_complete now result e) of
                   StlCompleted \<Rightarrow> (DecCompleted, r\<lparr>tr_entries := prune_terminal_tasks t m\<rparr>)
                 | _ \<Rightarrow> (DecUnchanged, r\<lparr>tr_entries := m\<rparr>))))"

definition fail_task :: "string \<Rightarrow> string \<Rightarrow> clock \<Rightarrow> instant \<Rightarrow> 'v task_registry \<Rightarrow> task_settlement \<times> 'v task_registry" where
  "fail_task tid err now t r = settle_with (entry_fail now err) tid t r"

definition fail_after_cleanup_error ::
  "string \<Rightarrow> string \<Rightarrow> clock \<Rightarrow> instant \<Rightarrow> 'v task_registry \<Rightarrow> task_settlement \<times> 'v task_registry" where
  "fail_after_cleanup_error tid err now t r = settle_with (entry_fail_after_cleanup_error now err) tid t r"

definition cancel_for_owner ::
  "task_owner \<Rightarrow> string \<Rightarrow> clock \<Rightarrow> instant \<Rightarrow> 'v task_registry \<Rightarrow> bool \<times> 'v task_registry" where
  "cancel_for_owner owner tid now t r =
     (case hm_get (tr_entries r) tid of
        None \<Rightarrow> (False, r)
      | Some e \<Rightarrow>
          (if te_owner e \<noteq> owner then (False, r)
           else (case request_cancel now ''Cancelled by client'' e of
             (e', b, toks) \<Rightarrow>
               (let m = hm_modify tid (\<lambda>_. e') (tr_entries r)
                in (b, r\<lparr>tr_entries := if b then prune_terminal_tasks t m else m,
                         tr_fired := toks @ tr_fired r\<rparr>)))))"

definition finish_cancelled :: "string \<Rightarrow> string \<Rightarrow> clock \<Rightarrow> instant \<Rightarrow> 'v task_registry \<Rightarrow> bool \<times> 'v task_registry" where
  "finish_cancelled tid msg now t r =
     (case hm_get (tr_entries r) tid of
        None \<Rightarrow> (False, r)
      | Some e \<Rightarrow>
          (let b = snd (entry_finish_cancelled now msg e);
               m = hm_modify tid (\<lambda>e. fst (entry_finish_cancelled now msg e)) (tr_entries r)
           in (b, r\<lparr>tr_entries := if b then prune_terminal_tasks t m else m\<rparr>)))"

text \<open>Each entry of \<open>cancel_all_running\<close> reads the clock for itself.\<close>

definition cancel_all_running :: "string \<Rightarrow> (string \<Rightarrow> clock) \<Rightarrow> instant \<Rightarrow> 'v task_registry \<Rightarrow> nat \<times> 'v task_registry" where
  "cancel_all_running msg clk t r =
     (let req = map (\<lambda>p. request_cancel (clk (fst p)) msg (snd p)) (tr_entries r);
          n = length (filter (\<lambda>q. fst (snd q)) req);
          m = map2 (\<lambda>p q. (fst p, fst q)) (tr_entries r) req
      in (n, r\<lparr>tr_entries := if 0 < n then prune_terminal_tasks t m else m,
               tr_fired := concat (map (\<lambda>q. snd (snd q)) req) @ tr_fired r\<rparr>))"

section \<open>The registry as a transition system\<close>

datatype 'v task_op =
    OpCreate task_owner string string string string instant clock
  | OpSetToken string token
  | OpBind string string
  | OpHasOpen string instant
  | OpGet string instant
  | OpGetOwner task_owner string instant
  | OpUpdate string clock string
  | OpComplete string 'v clock instant
  | OpCompleteTok string 'v token string clock instant
  | OpCompleteFatal string 'v clock instant
  | OpCompleteDefer string 'v token clock instant
  | OpFail string string clock instant
  | OpFailCleanup string string clock instant
  | OpCancelOwner task_owner string clock instant
  | OpFinishCancelled string string clock instant
  | OpCancelAll string "string \<Rightarrow> clock" instant

fun task_apply :: "'v task_op \<Rightarrow> 'v task_registry \<Rightarrow> 'v task_registry" where
  "task_apply (OpCreate ow pre key msg uuid t now) r = snd (create_keyed ow pre key msg uuid t now r)"
| "task_apply (OpSetToken tid tok) r = set_cancel_token tid tok r"
| "task_apply (OpBind tid db) r = bind_workspace_open tid db r"
| "task_apply (OpHasOpen db t) r = snd (has_running_workspace_open db t r)"
| "task_apply (OpGet tid t) r = snd (get_task tid t r)"
| "task_apply (OpGetOwner ow tid t) r = snd (get_for_owner ow tid t r)"
| "task_apply (OpUpdate tid now msg) r = update_message tid now msg r"
| "task_apply (OpComplete tid v now t) r = snd (complete tid v now t r)"
| "task_apply (OpCompleteTok tid v tok msg now t) r = snd (complete_with_cancel_token tid v tok msg now t r)"
| "task_apply (OpCompleteFatal tid v now t) r = snd (complete_after_fatal_error tid v now t r)"
| "task_apply (OpCompleteDefer tid v tok now t) r = snd (complete_or_defer_cancellation tid v tok now t r)"
| "task_apply (OpFail tid err now t) r = snd (fail_task tid err now t r)"
| "task_apply (OpFailCleanup tid err now t) r = snd (fail_after_cleanup_error tid err now t r)"
| "task_apply (OpCancelOwner ow tid now t) r = snd (cancel_for_owner ow tid now t r)"
| "task_apply (OpFinishCancelled tid msg now t) r = snd (finish_cancelled tid msg now t r)"
| "task_apply (OpCancelAll msg clk t) r = snd (cancel_all_running msg clk t r)"

inductive task_step :: "'v task_registry \<Rightarrow> 'v task_registry \<Rightarrow> bool" where
  task_step_op: "task_step r (task_apply x r)"

inductive_cases task_stepE: "task_step r r'"

section \<open>How an entry may evolve\<close>

text \<open>
  Every operation on an entry keeps its identity (owner, id, key, creation time), never
  touches the published state of a settled entry, and keeps a pending cancellation on
  running entries only and a result on completed entries only.
\<close>

definition entry_ok :: "'v task_entry \<Rightarrow> bool" where
  "entry_ok e \<longleftrightarrow> (te_cancel_requested e \<noteq> None \<longrightarrow> is_running e)
     \<and> (ts_result (te_state e) \<noteq> None \<longleftrightarrow> te_status e = TsCompleted)"

definition evolves :: "instant \<Rightarrow> 'v task_entry \<Rightarrow> 'v task_entry \<Rightarrow> bool" where
  "evolves u e e' \<longleftrightarrow> te_owner e' = te_owner e
     \<and> ts_id (te_state e') = ts_id (te_state e)
     \<and> ts_key (te_state e') = ts_key (te_state e)
     \<and> ts_created_at (te_state e') = ts_created_at (te_state e)
     \<and> (if is_running e then is_running e' \<or> ts_updated_at (te_state e') = u
        else te_state e' = te_state e)
     \<and> (entry_ok e \<longrightarrow> entry_ok e')"

lemmas entry_defs =
  entry_set_cancel_token_def clear_runtime_def transition_cancelled_def entry_complete_def
  entry_complete_after_fatal_error_def entry_fail_def entry_fail_after_cleanup_error_def
  request_cancel_def entry_finish_cancelled_def entry_update_message_def
  entry_complete_with_cancel_token_def refresh_updated_def Let_def

lemma evolves_refl [simp]: "evolves u e e"
  by (simp add: evolves_def)

lemma evolves_set_token: "evolves u e (fst (entry_set_cancel_token tok e))"
  and evolves_complete: "evolves (fst now) e (fst (entry_complete now v e))"
  and evolves_complete_fatal: "evolves (fst now) e (fst (entry_complete_after_fatal_error now v e))"
  and evolves_fail: "evolves (fst now) e (fst (entry_fail now err e))"
  and evolves_fail_cleanup: "evolves (fst now) e (fst (entry_fail_after_cleanup_error now err e))"
  and evolves_request: "evolves u e (fst (request_cancel now msg e))"
  and evolves_finish: "evolves (fst now) e (fst (entry_finish_cancelled now msg e))"
  and evolves_update: "evolves u e (entry_update_message now msg e)"
  and evolves_complete_tok: "evolves (fst now) e (fst (entry_complete_with_cancel_token c msg now v e))"
  and evolves_bind: "evolves u e (e\<lparr>te_workspace_database_id := d\<rparr>)"
  by (auto simp: evolves_def entry_ok_def entry_defs split: option.splits)

lemmas evolves_ops = evolves_set_token evolves_complete evolves_complete_fatal evolves_fail
  evolves_fail_cleanup evolves_request evolves_finish evolves_update evolves_complete_tok evolves_bind

lemma evolves_running: "evolves u e e' \<Longrightarrow> is_running e' \<Longrightarrow> is_running e"
  by (auto simp: evolves_def split: if_splits)

section \<open>How the map of entries may evolve\<close>

definition pointwise :: "(string \<Rightarrow> 'v task_entry \<Rightarrow> 'v task_entry) \<Rightarrow>
  (string, 'v task_entry) hashmap \<Rightarrow> (string, 'v task_entry) hashmap" where
  "pointwise g m = map (\<lambda>p. (fst p, g (fst p) (snd p))) m"

lemma hm_modify_pointwise: "hm_modify k f m = pointwise (\<lambda>k' e. if k' = k then f e else e) m"
  by (simp add: hm_modify_def pointwise_def if_distrib)

lemma fst_pointwise [simp]: "map fst (pointwise g m) = map fst m"
  by (simp add: pointwise_def)

lemma wf_pointwise [simp]: "hm_wf (pointwise g m) \<longleftrightarrow> hm_wf m"
  by (simp add: hm_wf_def)

lemma length_pointwise [simp]: "length (pointwise g m) = length m"
  by (simp add: pointwise_def)

lemma in_pointwise: "p \<in> set (pointwise g m) \<longleftrightarrow> (\<exists>e. (fst p, e) \<in> set m \<and> snd p = g (fst p) e)"
  by (cases p) (force simp: pointwise_def)

lemma get_pointwise: "hm_get (pointwise g m) k = map_option (g k) (hm_get m k)"
  unfolding pointwise_def hm_get_def by (induction m) auto

text \<open>
  The shape of all operations but \<open>create_keyed\<close>: every entry evolves in place, and a
  pruning pass may follow.
\<close>

definition settles_to ::
  "instant \<Rightarrow> instant \<Rightarrow> (string, 'v task_entry) hashmap \<Rightarrow> (string, 'v task_entry) hashmap \<Rightarrow> bool" where
  "settles_to u t m m' \<longleftrightarrow> (\<exists>g. (\<forall>k e. (k, e) \<in> set m \<longrightarrow> evolves u e (g k e)) \<and>
     (m' = pointwise g m \<or> m' = prune_terminal_tasks t (pointwise g m)))"

lemma settles_toI:
  assumes "\<And>k e. (k, e) \<in> set m \<Longrightarrow> evolves u e (g k e)"
  shows "settles_to u t m (pointwise g m)" and "settles_to u t m (prune_terminal_tasks t (pointwise g m))"
  using assms unfolding settles_to_def by blast+

lemma pointwise_id [simp]: "pointwise (\<lambda>_ e. e) m = m"
  by (simp add: pointwise_def)

lemma settles_to_refl: "settles_to u t m m"
  using settles_toI(1) [of m u "\<lambda>_ e. e"] by simp

lemma settles_to_prune: "settles_to u t m (prune_terminal_tasks t m)"
  using settles_toI(2) [of m u "\<lambda>_ e. e"] by simp

lemma settles_to_modify:
  assumes "\<And>e. (k, e) \<in> set m \<Longrightarrow> evolves u e (f e)"
  shows "settles_to u t m (hm_modify k f m)" and "settles_to u t m (prune_terminal_tasks t (hm_modify k f m))"
  unfolding hm_modify_pointwise using assms by (auto intro!: settles_toI)

lemma settles_to_settle_with:
  assumes "\<And>e. evolves u e (fst (f e))"
  shows "settles_to u t (tr_entries r) (tr_entries (snd (settle_with f tid t r)))"
  using assms
  by (auto simp: settle_with_def Let_def settles_to_refl intro: settles_to_modify split: option.splits)

text \<open>Everything but admission settles the map.\<close>

lemma zip_request_pointwise:
  "map2 (\<lambda>p q. (fst p, fst q)) m (map (\<lambda>p. request_cancel (clk (fst p)) msg (snd p)) m) =
   pointwise (\<lambda>k e. fst (request_cancel (clk k) msg e)) m"
  by (simp add: pointwise_def zip_map2 map_zip_map2 comp_def) (induction m; simp)

lemma hm_modify_const:
  assumes "hm_wf m" "hm_get m k = Some e"
  shows "hm_modify k (\<lambda>_. f e) m = hm_modify k f m"
  unfolding hm_modify_def
proof (rule map_cong [OF refl])
  fix p assume "p \<in> set m"
  then have "fst p = k \<Longrightarrow> snd p = e"
    using assms by (metis hm_get_set option.inject prod.collapse)
  then show "(fst p, if fst p = k then f e else snd p) = (fst p, if fst p = k then f (snd p) else snd p)"
    by simp
qed

lemma settles_to_cancel_for_owner:
  assumes "hm_wf (tr_entries r)"
  shows "settles_to u t (tr_entries r) (tr_entries (snd (cancel_for_owner ow tid now t r)))"
proof (cases "hm_get (tr_entries r) tid")
  case None
  then show ?thesis by (simp add: cancel_for_owner_def settles_to_refl)
next
  case (Some e)
  have eq: "hm_modify tid (\<lambda>_. fst (request_cancel now msg e)) (tr_entries r) =
      hm_modify tid (\<lambda>e. fst (request_cancel now msg e)) (tr_entries r)" for msg
    using hm_modify_const [OF assms Some, of "\<lambda>e. fst (request_cancel now msg e)"] .
  show ?thesis
    using Some
    by (auto simp: cancel_for_owner_def case_prod_beta Let_def eq settles_to_refl
        intro!: settles_to_modify evolves_request)
qed

fun creates_id :: "'v task_op \<Rightarrow> string option" where
  "creates_id (OpCreate ow pre key msg uuid t now) = Some (next_task_id pre uuid)"
| "creates_id _ = None"

text \<open>
  The clock reading an operation settles with and the one it prunes with, where it
  reads one.
\<close>

fun settle_instant :: "'v task_op \<Rightarrow> instant" where
  "settle_instant (OpComplete tid v now t) = fst now"
| "settle_instant (OpCompleteTok tid v tok msg now t) = fst now"
| "settle_instant (OpCompleteFatal tid v now t) = fst now"
| "settle_instant (OpCompleteDefer tid v tok now t) = fst now"
| "settle_instant (OpFail tid err now t) = fst now"
| "settle_instant (OpFailCleanup tid err now t) = fst now"
| "settle_instant (OpFinishCancelled tid msg now t) = fst now"
| "settle_instant _ = 0"

fun prune_instant :: "'v task_op \<Rightarrow> instant" where
  "prune_instant (OpCreate ow pre key msg uuid t now) = t"
| "prune_instant (OpSetToken tid tok) = 0"
| "prune_instant (OpBind tid db) = 0"
| "prune_instant (OpHasOpen db t) = t"
| "prune_instant (OpGet tid t) = t"
| "prune_instant (OpGetOwner ow tid t) = t"
| "prune_instant (OpUpdate tid now msg) = 0"
| "prune_instant (OpComplete tid v now t) = t"
| "prune_instant (OpCompleteTok tid v tok msg now t) = t"
| "prune_instant (OpCompleteFatal tid v now t) = t"
| "prune_instant (OpCompleteDefer tid v tok now t) = t"
| "prune_instant (OpFail tid err now t) = t"
| "prune_instant (OpFailCleanup tid err now t) = t"
| "prune_instant (OpCancelOwner ow tid now t) = t"
| "prune_instant (OpFinishCancelled tid msg now t) = t"
| "prune_instant (OpCancelAll msg clk t) = t"

lemma task_apply_settles:
  assumes "hm_wf (tr_entries r)" and "\<forall>ow pre key msg uuid t now. x \<noteq> OpCreate ow pre key msg uuid t now"
  shows "settles_to (settle_instant x) (prune_instant x) (tr_entries r) (tr_entries (task_apply x r))"
proof (cases x)
  case (OpCreate ow pre key msg uuid t now)
  with assms(2) show ?thesis by blast
next
  case OpCancelOwner
  with assms(1) show ?thesis by (simp add: settles_to_cancel_for_owner)
next
  case (OpCancelAll msg clk t)
  then show ?thesis
    by (auto simp: cancel_all_running_def Let_def zip_request_pointwise intro!: settles_toI evolves_request)
next
  case (OpCompleteDefer tid v tok now t)
  then show ?thesis
    by (auto simp: complete_or_defer_cancellation_def Let_def settles_to_refl
        intro!: settles_to_modify evolves_complete split: option.splits task_settlement.splits)
next
  case (OpFinishCancelled tid msg now t)
  then show ?thesis
    by (auto simp: finish_cancelled_def Let_def settles_to_refl
        intro!: settles_to_modify evolves_finish split: option.splits)
next
  case (OpSetToken tid tok)
  then show ?thesis
    by (auto simp: set_cancel_token_def settles_to_refl
        intro!: settles_to_modify evolves_set_token split: option.splits)
qed (auto simp: bind_workspace_open_def has_running_workspace_open_def get_task_def get_for_owner_def
    update_message_def complete_def complete_with_cancel_token_def complete_after_fatal_error_def
    fail_task_def fail_after_cleanup_error_def Let_def
    intro!: settles_to_prune settles_to_modify settles_to_settle_with evolves_ops)

section \<open>The registry invariant\<close>

definition unique_running_keys :: "(string, 'v task_entry) hashmap \<Rightarrow> bool" where
  "unique_running_keys m \<longleftrightarrow>
     (\<forall>p \<in> set m. \<forall>q \<in> set m. is_running (snd p) \<longrightarrow> is_running (snd q) \<longrightarrow>
        ts_key (te_state (snd p)) \<noteq> None \<longrightarrow>
        ts_key (te_state (snd p)) = ts_key (te_state (snd q)) \<longrightarrow> fst p = fst q)"

definition entries_inv :: "(string, 'v task_entry) hashmap \<Rightarrow> bool" where
  "entries_inv m \<longleftrightarrow> hm_wf m
     \<and> (\<forall>p \<in> set m. ts_id (te_state (snd p)) = fst p \<and> entry_ok (snd p))
     \<and> length m \<le> MAX_TASK_REGISTRY_ENTRIES
     \<and> unique_running_keys m"

definition registry_inv :: "'v task_registry \<Rightarrow> bool" where
  "registry_inv r \<longleftrightarrow> entries_inv (tr_entries r)"

lemma entries_inv_filter: "entries_inv m \<Longrightarrow> entries_inv (filter P m)"
  unfolding entries_inv_def unique_running_keys_def hm_wf_def
  by (auto simp: distinct_fst_filter intro: order_trans [OF length_filter_le])

lemma entries_inv_prune: "entries_inv m \<Longrightarrow> entries_inv (prune_terminal_tasks t m)"
  unfolding prune_terminal_tasks_def hm_retain_def by (rule entries_inv_filter)

lemma entries_inv_pointwise:
  assumes "entries_inv m" "\<And>k e. (k, e) \<in> set m \<Longrightarrow> evolves u e (g k e)"
  shows "entries_inv (pointwise g m)"
proof -
  have ev: "\<exists>e. (fst p, e) \<in> set m \<and> evolves u e (snd p)" if "p \<in> set (pointwise g m)" for p
    using that assms(2) by (auto simp: in_pointwise)
  have "ts_id (te_state (snd p)) = fst p \<and> entry_ok (snd p)" if "p \<in> set (pointwise g m)" for p
    using ev [OF that] assms(1) by (force simp: entries_inv_def evolves_def)
  moreover have "unique_running_keys (pointwise g m)"
    unfolding unique_running_keys_def
  proof (intro ballI impI)
    fix p q
    assume pq: "p \<in> set (pointwise g m)" "q \<in> set (pointwise g m)"
      and run: "is_running (snd p)" "is_running (snd q)"
      and key: "ts_key (te_state (snd p)) \<noteq> None" "ts_key (te_state (snd p)) = ts_key (te_state (snd q))"
    from ev [OF pq(1)] ev [OF pq(2)] obtain d e
      where de: "(fst p, d) \<in> set m" "evolves u d (snd p)" "(fst q, e) \<in> set m" "evolves u e (snd q)" by blast
    have "is_running d" "is_running e" using de run evolves_running by blast+
    moreover have "ts_key (te_state d) \<noteq> None" "ts_key (te_state d) = ts_key (te_state e)"
      using de key by (simp_all add: evolves_def)
    moreover have "unique_running_keys m" using assms(1) by (simp add: entries_inv_def)
    ultimately have "fst (fst p, d) = fst (fst q, e)"
      using de(1,3) unfolding unique_running_keys_def by (metis snd_conv)
    then show "fst p = fst q" by simp
  qed
  ultimately show ?thesis using assms(1) by (simp add: entries_inv_def)
qed

lemma entries_inv_settles: "settles_to u t m m' \<Longrightarrow> entries_inv m \<Longrightarrow> entries_inv m'"
  unfolding settles_to_def by (auto intro: entries_inv_pointwise entries_inv_prune)

subsection \<open>Reclaiming capacity\<close>

lemma set_fold_remove: "set (fold hm_remove ks m) = {p \<in> set m. fst p \<notin> set ks}"
  by (induction ks arbitrary: m) auto

lemma fold_remove_eq: "fold hm_remove ks m = filter (\<lambda>p. fst p \<notin> set ks) m"
  by (induction ks arbitrary: m) (auto simp: hm_remove_def intro: filter_cong)

lemma wf_fold_remove: "hm_wf m \<Longrightarrow> hm_wf (fold hm_remove ks m)"
  by (induction ks arbitrary: m) (auto intro: hm.wf_rem)

lemma entries_inv_reclaim: "entries_inv m \<Longrightarrow> entries_inv (reclaim_capacity_for_admission m)"
  unfolding reclaim_capacity_for_admission_def fold_remove_eq
  by (auto intro: entries_inv_filter)

lemma victims_terminal:
  assumes "tid \<in> set (reclaim_victims m)"
  shows "\<exists>e. (tid, e) \<in> set m \<and> \<not> is_running e"
proof -
  from assms obtain p where "p \<in> set (filter (\<lambda>p. \<not> is_running (snd p)) m)" "fst p = tid"
    unfolding reclaim_victims_def terminal_by_age_def by (auto dest!: in_set_takeD)
  then show ?thesis by (intro exI [of _ "snd p"]) auto
qed

lemma length_terminal_by_age:
  "length (terminal_by_age m) = length (filter (\<lambda>p. \<not> is_running (snd p)) m)"
  by (simp add: terminal_by_age_def)

text \<open>Running entries are never reclaimed.\<close>

lemma reclaim_keeps_running:
  assumes "hm_wf m" "(tid, e) \<in> set m" "is_running e"
  shows "(tid, e) \<in> set (reclaim_capacity_for_admission m)"
proof -
  have "tid \<notin> set (reclaim_victims m)"
    using victims_terminal [of tid m] assms by (metis hm_get_set option.inject)
  with assms(2) show ?thesis
    by (simp add: reclaim_capacity_for_admission_def set_fold_remove)
qed

text \<open>A registry within its bound has room after reclaiming unless every slot is running.\<close>

lemma reclaim_makes_room:
  assumes "hm_wf m" "length m \<le> MAX_TASK_REGISTRY_ENTRIES" "p \<in> set m" "\<not> is_running (snd p)"
  shows "length (reclaim_capacity_for_admission m) < MAX_TASK_REGISTRY_ENTRIES"
proof (cases "length m < MAX_TASK_REGISTRY_ENTRIES")
  case True
  then show ?thesis by (simp add: reclaim_capacity_for_admission_def)
next
  case False
  with assms(2) have len: "length m = MAX_TASK_REGISTRY_ENTRIES" by simp
  have "terminal_by_age m \<noteq> []"
    using assms(3,4) length_terminal_by_age [of m] by (auto simp: filter_empty_conv)
  then obtain v vs where t: "terminal_by_age m = v # vs" by (cases "terminal_by_age m") auto
  then have vic: "reclaim_victims m = [snd v]" by (simp add: reclaim_victims_def len)
  then obtain e where "(snd v, e) \<in> set m" using victims_terminal [of "snd v" m] by auto
  then have "\<not> (fst (snd v, e) \<notin> set [snd v])" "(snd v, e) \<in> set m" by auto
  then have "length (filter (\<lambda>p. fst p \<notin> set [snd v]) m) < length m"
    by (intro length_filter_less) auto
  with False vic len show ?thesis
    by (simp add: reclaim_capacity_for_admission_def hm_remove_def)
qed

lemma reclaim_all_running:
  assumes "\<And>p. p \<in> set m \<Longrightarrow> is_running (snd p)"
  shows "reclaim_capacity_for_admission m = m"
proof -
  have "filter (\<lambda>p. \<not> is_running (snd p)) m = []" using assms by (simp add: filter_empty_conv)
  then show ?thesis by (simp add: reclaim_capacity_for_admission_def reclaim_victims_def terminal_by_age_def)
qed

subsection \<open>Admission keeps the invariant\<close>

lemma find_running_key_None:
  "find_running_key key m = None \<longleftrightarrow>
     (\<forall>p \<in> set m. \<not> (is_running (snd p) \<and> ts_key (te_state (snd p)) = Some key))"
  unfolding find_running_key_def find_None_iff by auto

lemma find_running_key_Some:
  "find_running_key key m = Some e \<Longrightarrow>
     \<exists>tid. (tid, e) \<in> set m \<and> is_running e \<and> ts_key (te_state e) = Some key"
  unfolding find_running_key_def find_Some_iff by (auto simp: in_set_conv_nth) (metis nth_mem prod.collapse)

lemma find_running_key_subset:
  "find_running_key key m = None \<Longrightarrow> set m' \<subseteq> set m \<Longrightarrow> find_running_key key m' = None"
  by (auto simp: find_running_key_None)

lemma reclaim_subset: "set (reclaim_capacity_for_admission m) \<subseteq> set m"
  by (auto simp: reclaim_capacity_for_admission_def set_fold_remove)

lemma entries_inv_insert:
  assumes inv: "entries_inv m" and none: "find_running_key key m = None"
    and room: "length m < MAX_TASK_REGISTRY_ENTRIES"
  shows "entries_inv (hm_insert tid (task_entry_new ow (fresh_state now tid key msg)) m)"
proof -
  let ?e = "task_entry_new ow (fresh_state now tid key msg)"
  have keyless: "\<not> (is_running (snd p) \<and> ts_key (te_state (snd p)) = Some key)" if "p \<in> set m" for p
    using none that by (simp add: find_running_key_None)
  have new: "ts_key (te_state ?e) = Some key" "ts_id (te_state ?e) = tid" "entry_ok ?e"
    by (simp_all add: task_entry_new_def fresh_state_def entry_ok_def)
  have "length (hm_insert tid ?e m) \<le> Suc (length m)"
    by (simp add: hm_insert_def hm_remove_def le_SucI)
  moreover have "unique_running_keys (hm_insert tid ?e m)"
    unfolding unique_running_keys_def
  proof (intro ballI impI)
    fix p q
    assume pq: "p \<in> set (hm_insert tid ?e m)" "q \<in> set (hm_insert tid ?e m)"
      and run: "is_running (snd p)" "is_running (snd q)"
      and key: "ts_key (te_state (snd p)) \<noteq> None" "ts_key (te_state (snd p)) = ts_key (te_state (snd q))"
    have old: "fst p = fst q" if "p \<in> set m" "q \<in> set m"
      using inv that run key unfolding entries_inv_def unique_running_keys_def by blast
    from pq have "(p = (tid, ?e) \<or> p \<in> set m) \<and> (q = (tid, ?e) \<or> q \<in> set m)" by auto
    then show "fst p = fst q"
      using old keyless [of p] keyless [of q] run key new(1) by (metis snd_conv)
  qed
  ultimately show ?thesis
    using inv room new by (auto simp: entries_inv_def hm.wf_ins)
qed

lemma registry_inv_create:
  assumes "registry_inv r"
  shows "registry_inv (snd (create_keyed ow pre key msg uuid t now r))"
proof -
  let ?m = "prune_terminal_tasks t (tr_entries r)"
  have m: "entries_inv ?m" using assms by (simp add: registry_inv_def entries_inv_prune)
  have "entries_inv (hm_insert (next_task_id pre uuid)
      (task_entry_new ow (fresh_state now (next_task_id pre uuid) key msg)) (reclaim_capacity_for_admission ?m))"
    if "find_running_key key ?m = None" "length (reclaim_capacity_for_admission ?m) < MAX_TASK_REGISTRY_ENTRIES"
    using that m entries_inv_insert entries_inv_reclaim find_running_key_subset reclaim_subset by blast
  with m show ?thesis
    by (auto simp: create_keyed_def Let_def registry_inv_def entries_inv_reclaim split: option.splits)
qed

lemma registry_inv_apply: "registry_inv r \<Longrightarrow> registry_inv (task_apply x r)"
proof (cases "\<exists>ow pre key msg uuid t now. x = OpCreate ow pre key msg uuid t now")
  case True
  then show "registry_inv r \<Longrightarrow> ?thesis" by (auto simp: registry_inv_create)
next
  case False
  assume r: "registry_inv r"
  then have "hm_wf (tr_entries r)" by (simp add: registry_inv_def entries_inv_def)
  from task_apply_settles [OF this] False
  have "settles_to (settle_instant x) (prune_instant x) (tr_entries r) (tr_entries (task_apply x r))" by blast
  with r show ?thesis by (simp add: registry_inv_def entries_inv_settles)
qed

lemma registry_inv_new: "registry_inv task_registry_new"
  by (simp add: registry_inv_def entries_inv_def task_registry_new_def unique_running_keys_def)

interpretation task_sys: invariant_system "\<lambda>r. r = task_registry_new" task_step registry_inv
  by unfold_locales (auto simp: registry_inv_new registry_inv_apply elim: task_stepE)

section \<open>Lookups across an operation\<close>

lemma get_prune:
  "hm_wf m \<Longrightarrow> hm_get (prune_terminal_tasks t m) k =
     (case hm_get m k of
        Some e \<Rightarrow> if is_running e \<or> t - ts_updated_at (te_state e) < retention_ns then Some e else None
      | None \<Rightarrow> None)"
  unfolding prune_terminal_tasks_def by (rule hm.get_ret)

lemma prune_wf: "hm_wf m \<Longrightarrow> hm_wf (prune_terminal_tasks t m)"
  unfolding prune_terminal_tasks_def by (rule hm.wf_ret)

text \<open>After a settling operation an entry has evolved, or has settled and expired.\<close>

lemma get_settles:
  assumes "hm_wf m" "settles_to u t m m'" "hm_get m tid = Some e"
  shows "\<exists>e'. evolves u e e' \<and> (hm_get m' tid = Some e'
     \<or> hm_get m' tid = None \<and> \<not> is_running e' \<and> retention_ns \<le> t - ts_updated_at (te_state e'))"
proof -
  from assms(2) obtain g where g: "\<forall>k e. (k, e) \<in> set m \<longrightarrow> evolves u e (g k e)"
    and m': "m' = pointwise g m \<or> m' = prune_terminal_tasks t (pointwise g m)"
    unfolding settles_to_def by blast
  have "evolves u e (g tid e)" using g assms(1,3) by (simp add: hm_get_set)
  moreover have "hm_get m' tid = Some (g tid e)
      \<or> hm_get m' tid = None \<and> \<not> is_running (g tid e) \<and> retention_ns \<le> t - ts_updated_at (te_state (g tid e))"
    using m' assms(1,3) by (auto simp: get_pointwise get_prune not_less split: if_splits)
  ultimately show ?thesis by blast
qed

lemma reclaim_wf: "hm_wf m \<Longrightarrow> hm_wf (reclaim_capacity_for_admission m)"
  by (simp add: reclaim_capacity_for_admission_def wf_fold_remove)

lemma reclaim_get:
  assumes "hm_wf m" "hm_get m tid = Some e"
  shows "hm_get (reclaim_capacity_for_admission m) tid = Some e
     \<or> hm_get (reclaim_capacity_for_admission m) tid = None \<and> \<not> is_running e"
proof (cases "hm_get (reclaim_capacity_for_admission m) tid")
  case None
  then have "(tid, e) \<notin> set (reclaim_capacity_for_admission m)"
    using hm_get_set [OF reclaim_wf [OF assms(1)], of tid e] by auto
  then show ?thesis using None assms reclaim_keeps_running by (auto simp: hm_get_set)
next
  case (Some e')
  then have "(tid, e') \<in> set m"
    using reclaim_subset hm_get_set [OF reclaim_wf [OF assms(1)]] by blast
  then have "e' = e" using assms hm_get_set [OF assms(1), of tid e'] by simp
  then show ?thesis using Some by simp
qed

lemma reclaim_get_None:
  assumes "hm_wf m" "hm_get m tid = None"
  shows "hm_get (reclaim_capacity_for_admission m) tid = None"
proof (rule ccontr)
  assume "hm_get (reclaim_capacity_for_admission m) tid \<noteq> None"
  then obtain e where "(tid, e) \<in> set m"
    using reclaim_subset hm_get_set [OF reclaim_wf [OF assms(1)]] by blast
  with assms hm_get_set [OF assms(1), of tid e] show False by simp
qed

lemma create_entries:
  "tr_entries (snd (create_keyed ow pre key msg uuid t now r)) =
     (let m = prune_terminal_tasks t (tr_entries r); m' = reclaim_capacity_for_admission m;
          tid = next_task_id pre uuid in
      if find_running_key key m \<noteq> None then m
      else if MAX_TASK_REGISTRY_ENTRIES \<le> length m' then m'
      else hm_insert tid (task_entry_new ow (fresh_state now tid key msg)) m')"
  by (simp add: create_keyed_def Let_def split: option.split)

lemma create_get:
  assumes wf: "hm_wf (tr_entries r)" and other: "next_task_id pre uuid \<noteq> tid"
    and e: "hm_get (tr_entries r) tid = Some e"
  shows "hm_get (tr_entries (snd (create_keyed ow pre key msg uuid t now r))) tid = Some e
     \<or> hm_get (tr_entries (snd (create_keyed ow pre key msg uuid t now r))) tid = None \<and> \<not> is_running e"
proof -
  let ?m = "prune_terminal_tasks t (tr_entries r)" and ?ok = "\<lambda>m. hm_get m tid = Some e
     \<or> hm_get m tid = None \<and> \<not> is_running e"
  have m: "hm_wf ?m" using wf by (rule prune_wf)
  have 1: "?ok ?m" using e wf by (simp add: get_prune)
  have 2: "?ok (reclaim_capacity_for_admission ?m)"
  proof (cases "hm_get ?m tid")
    case None
    then have "hm_get (reclaim_capacity_for_admission ?m) tid = None" by (rule reclaim_get_None [OF m])
    then show ?thesis using 1 None by simp
  next
    case (Some e')
    with 1 reclaim_get [OF m, of tid e] show ?thesis by auto
  qed
  show ?thesis
    unfolding create_entries Let_def
    using 1 2 other by (simp add: hm.get_ins [OF reclaim_wf [OF m]])
qed

lemma task_apply_get:
  assumes inv: "registry_inv r" and e: "hm_get (tr_entries r) tid = Some e" and fresh: "creates_id x \<noteq> Some tid"
  shows "\<exists>e'. evolves (settle_instant x) e e' \<and> (hm_get (tr_entries (task_apply x r)) tid = Some e'
     \<or> hm_get (tr_entries (task_apply x r)) tid = None \<and> \<not> is_running e'
       \<and> (retention_ns \<le> prune_instant x - ts_updated_at (te_state e') \<or> creates_id x \<noteq> None \<and> e' = e))"
proof -
  have wf: "hm_wf (tr_entries r)" using inv by (simp add: registry_inv_def entries_inv_def)
  show ?thesis
  proof (cases "\<exists>ow pre key msg uuid t now. x = OpCreate ow pre key msg uuid t now")
    case True
    then obtain ow pre key msg uuid t now where x: "x = OpCreate ow pre key msg uuid t now" by blast
    with fresh have "next_task_id pre uuid \<noteq> tid" by simp
    from create_get [OF wf this e, of ow key msg t now] x show ?thesis by (intro exI [of _ e]) auto
  next
    case False
    then have "\<forall>ow pre key msg uuid t now. x \<noteq> OpCreate ow pre key msg uuid t now" by blast
    from get_settles [OF wf task_apply_settles [OF wf this] e] show ?thesis by blast
  qed
qed


lemma task_apply_get_None:
  assumes inv: "registry_inv r" and e: "hm_get (tr_entries r) tid = None" and fresh: "creates_id x \<noteq> Some tid"
  shows "hm_get (tr_entries (task_apply x r)) tid = None"
proof -
  have wf: "hm_wf (tr_entries r)" using inv by (simp add: registry_inv_def entries_inv_def)
  show ?thesis
  proof (cases "\<exists>ow pre key msg uuid t now. x = OpCreate ow pre key msg uuid t now")
    case True
    then obtain ow pre key msg uuid t now where x: "x = OpCreate ow pre key msg uuid t now" by blast
    let ?m = "prune_terminal_tasks t (tr_entries r)"
    have "hm_wf ?m" "hm_get ?m tid = None" using wf e by (simp_all add: prune_wf get_prune)
    then show ?thesis using fresh
      by (simp add: x create_entries Let_def reclaim_get_None hm.get_ins reclaim_wf)
  next
    case False
    then have "\<forall>ow pre key msg uuid t now. x \<noteq> OpCreate ow pre key msg uuid t now" by blast
    from task_apply_settles [OF wf this] show ?thesis
      using wf e by (auto simp: settles_to_def get_pointwise get_prune)
  qed
qed

lemma registry_inv_run: "registry_inv r \<Longrightarrow> registry_inv (fold task_apply xs r)"
  by (rule fold_cong_pred [of registry_inv]) (simp_all add: registry_inv_apply)

lemma reach_run: "reach (\<lambda>r. r = task_registry_new) task_step (fold task_apply xs task_registry_new)"
proof (induction xs rule: rev_induct)
  case Nil
  show ?case by (simp add: reach_init)
next
  case (snoc x xs)
  then show ?case by (auto intro: reach_step task_step_op)
qed

text \<open>A settled entry is gone or shows the same state after an operation.\<close>

lemma settled_step:
  assumes "registry_inv r" "hm_get (tr_entries r) tid = Some e" "\<not> is_running e" "creates_id x \<noteq> Some tid"
  shows "hm_get (tr_entries (task_apply x r)) tid = None
     \<or> (\<exists>e'. hm_get (tr_entries (task_apply x r)) tid = Some e' \<and> te_state e' = te_state e)"
  using task_apply_get [OF assms(1,2,4)] assms(3) by (auto simp: evolves_def)

lemma absent_run:
  assumes "registry_inv r" "hm_get (tr_entries r) tid = None" "\<And>x. x \<in> set xs \<Longrightarrow> creates_id x \<noteq> Some tid"
  shows "hm_get (tr_entries (fold task_apply xs r)) tid = None"
  using assms by (induction xs arbitrary: r) (auto simp: task_apply_get_None registry_inv_apply)

lemma settled_run:
  assumes "registry_inv r" "hm_get (tr_entries r) tid = Some e" "\<not> is_running e"
    "\<And>x. x \<in> set xs \<Longrightarrow> creates_id x \<noteq> Some tid"
  shows "hm_get (tr_entries (fold task_apply xs r)) tid = None
     \<or> (\<exists>e'. hm_get (tr_entries (fold task_apply xs r)) tid = Some e' \<and> te_state e' = te_state e)"
  using assms
proof (induction xs arbitrary: r e)
  case (Cons x xs)
  from settled_step [OF Cons.prems(1-3)] Cons.prems(4) consider
      "hm_get (tr_entries (task_apply x r)) tid = None"
    | e' where "hm_get (tr_entries (task_apply x r)) tid = Some e'" "te_state e' = te_state e" by force
  then show ?case
  proof cases
    case 1
    then show ?thesis using Cons.prems by (simp add: absent_run registry_inv_apply)
  next
    case 2
    with Cons.IH [of "task_apply x r" e'] Cons.prems show ?thesis by (simp add: registry_inv_apply)
  qed
qed auto

lemma retention_ns_pos: "0 < retention_ns"
  by (simp add: retention_ns_def TASK_RETENTION_TTL_MS_def)

text \<open>Within its retention time a settled entry stays unless a new task is admitted.\<close>

lemma retained_run:
  assumes "registry_inv r" "hm_get (tr_entries r) tid = Some e" "\<not> is_running e"
    "\<And>x. x \<in> set xs \<Longrightarrow> creates_id x = None \<and> prune_instant x < ts_updated_at (te_state e) + retention_ns"
  shows "\<exists>e'. hm_get (tr_entries (fold task_apply xs r)) tid = Some e' \<and> te_state e' = te_state e"
  using assms
proof (induction xs arbitrary: r e)
  case (Cons x xs)
  have "\<exists>e'. hm_get (tr_entries (task_apply x r)) tid = Some e' \<and> te_state e' = te_state e"
  proof -
    have x: "creates_id x = None" "\<not> retention_ns \<le> prune_instant x - ts_updated_at (te_state e)"
      using Cons.prems(4) [of x] retention_ns_pos by auto
    from task_apply_get [OF Cons.prems(1,2), of x] x(1) obtain e' where "evolves (settle_instant x) e e'"
      "hm_get (tr_entries (task_apply x r)) tid = Some e'
        \<or> retention_ns \<le> prune_instant x - ts_updated_at (te_state e')" by auto
    with x(2) Cons.prems(3) show ?thesis by (auto simp: evolves_def)
  qed
  then obtain e' where "hm_get (tr_entries (task_apply x r)) tid = Some e'" "te_state e' = te_state e" by blast
  with Cons.IH [of "task_apply x r" e'] Cons.prems show ?case by (simp add: registry_inv_apply)
qed auto

end
