(* ===== verification/Task_Contract.thy ===== *)
theory Task_Contract
  imports Task_Registry
begin

text \<open>
  What the task registry promises its callers: bounded admission with one running task
  per key, private task ids, running tasks that are never dropped, first settlement
  wins, cancellation that reaches the operation and takes precedence over an ordinary
  result, retention of results, and least-recently-updated eviction.
\<close>

section \<open>Settled entries are absorbing\<close>

text \<open>The operations on one entry, as the registry dispatches them.\<close>

datatype 'v entry_op =
    EComplete clock 'v
  | ECompleteTok bool string clock 'v
  | ECompleteFatal clock 'v
  | EFail clock string
  | EFailCleanup clock string
  | ERequestCancel clock string
  | EFinishCancelled clock string
  | EUpdateMessage clock string
  | ESetToken "token option"

fun entry_apply :: "'v entry_op \<Rightarrow> 'v task_entry \<Rightarrow> 'v task_entry" where
  "entry_apply (EComplete now v) e = fst (entry_complete now v e)"
| "entry_apply (ECompleteTok c msg now v) e = fst (entry_complete_with_cancel_token c msg now v e)"
| "entry_apply (ECompleteFatal now v) e = fst (entry_complete_after_fatal_error now v e)"
| "entry_apply (EFail now err) e = fst (entry_fail now err e)"
| "entry_apply (EFailCleanup now err) e = fst (entry_fail_after_cleanup_error now err e)"
| "entry_apply (ERequestCancel now msg) e = fst (request_cancel now msg e)"
| "entry_apply (EFinishCancelled now msg) e = fst (entry_finish_cancelled now msg e)"
| "entry_apply (EUpdateMessage now msg) e = entry_update_message now msg e"
| "entry_apply (ESetToken tok) e = fst (entry_set_cancel_token tok e)"

lemma entry_apply_settled: "\<not> is_running e \<Longrightarrow> te_state (entry_apply x e) = te_state e"
  by (cases x) (simp_all add: entry_defs)

interpretation settled_entry: absorbing_system entry_apply "\<lambda>e. \<not> is_running e" te_state
  by unfold_locales (simp_all add: entry_apply_settled)

section \<open>Fired tokens\<close>

definition token_ok :: "token list \<Rightarrow> 'v task_entry \<Rightarrow> bool" where
  "token_ok fired e \<longleftrightarrow> (te_cancel_requested e \<noteq> None \<longrightarrow>
     (case te_cancel_token e of Some tok \<Rightarrow> tok \<in> set fired | None \<Rightarrow> True))"

definition tokens_fired :: "'v task_registry \<Rightarrow> bool" where
  "tokens_fired r \<longleftrightarrow> (\<forall>p \<in> set (tr_entries r). token_ok (tr_fired r) (snd p))"

lemma token_ok_mono: "token_ok F e \<Longrightarrow> set F \<subseteq> set G \<Longrightarrow> token_ok G e"
  by (auto simp: token_ok_def split: option.splits)

lemma token_ok_complete: "token_ok F e \<Longrightarrow> token_ok F (fst (entry_complete now v e))"
  and token_ok_fatal: "token_ok F e \<Longrightarrow> token_ok F (fst (entry_complete_after_fatal_error now v e))"
  and token_ok_tok: "token_ok F e \<Longrightarrow> token_ok F (fst (entry_complete_with_cancel_token c msg now v e))"
  and token_ok_fail: "token_ok F e \<Longrightarrow> token_ok F (fst (entry_fail now err e))"
  and token_ok_cleanup: "token_ok F e \<Longrightarrow> token_ok F (fst (entry_fail_after_cleanup_error now err e))"
  and token_ok_finish: "token_ok F e \<Longrightarrow> token_ok F (fst (entry_finish_cancelled now msg e))"
  and token_ok_update: "token_ok F e \<Longrightarrow> token_ok F (entry_update_message now msg e)"
  and token_ok_bind: "token_ok F e \<Longrightarrow> token_ok F (e\<lparr>te_workspace_database_id := d\<rparr>)"
  and token_ok_new: "token_ok F (task_entry_new ow st)"
  by (auto simp: token_ok_def entry_defs task_entry_new_def split: option.splits)

lemma token_ok_set: "token_ok F e \<Longrightarrow> token_ok (snd (entry_set_cancel_token tok e) @ F) (fst (entry_set_cancel_token tok e))"
  and token_ok_request: "token_ok F e \<Longrightarrow> token_ok (snd (snd (request_cancel now msg e)) @ F) (fst (request_cancel now msg e))"
  by (auto simp: token_ok_def entry_defs split: option.splits)

lemmas token_ok_ops = token_ok_complete token_ok_fatal token_ok_tok token_ok_fail token_ok_cleanup
  token_ok_finish token_ok_update token_ok_bind token_ok_new

lemma set_prune: "set (prune_terminal_tasks t m) \<subseteq> set m"
  by (auto simp: prune_terminal_tasks_def)

lemma set_modifyE:
  assumes "p \<in> set (hm_modify k f m)"
  obtains e where "(fst p, e) \<in> set m" "snd p = (if fst p = k then f e else e)"
  using assms by (auto simp: hm_set_modify)

lemma tokens_fired_subset:
  "tokens_fired r \<Longrightarrow> set m \<subseteq> set (tr_entries r) \<Longrightarrow> tokens_fired (r\<lparr>tr_entries := m\<rparr>)"
  by (auto simp: tokens_fired_def)

lemma tokens_fired_modify:
  assumes "tokens_fired r" "\<And>e. token_ok (tr_fired r) e \<Longrightarrow> token_ok (tr_fired r) (f e)"
    "set m \<subseteq> set (hm_modify k f (tr_entries r))"
  shows "tokens_fired (r\<lparr>tr_entries := m\<rparr>)"
proof -
  have "token_ok (tr_fired r) (snd p)" if p: "p \<in> set m" for p
  proof -
    from p assms(3) obtain e where e: "(fst p, e) \<in> set (tr_entries r)"
      "snd p = (if fst p = k then f e else e)" by (blast elim: set_modifyE)
    then have "token_ok (tr_fired r) e" using assms(1) by (force simp: tokens_fired_def)
    with e assms(2) show ?thesis by simp
  qed
  then show ?thesis by (simp add: tokens_fired_def)
qed

lemma tokens_fired_settle_with:
  assumes "tokens_fired r" "\<And>e. token_ok (tr_fired r) e \<Longrightarrow> token_ok (tr_fired r) (fst (f e))"
  shows "tokens_fired (snd (settle_with f tid t r))"
  using assms set_prune
  by (auto simp: settle_with_def Let_def intro!: tokens_fired_modify [where f = "\<lambda>e. fst (f e)"] split: option.splits)

lemma tokens_fired_create:
  assumes "tokens_fired r"
  shows "tokens_fired (snd (create_keyed ow pre key msg uuid t now r))"
proof -
  have sub: "set (reclaim_capacity_for_admission (prune_terminal_tasks t (tr_entries r))) \<subseteq> set (tr_entries r)"
    using reclaim_subset set_prune by blast
  have "tr_fired (snd (create_keyed ow pre key msg uuid t now r)) = tr_fired r"
    by (simp add: create_keyed_def Let_def split: option.splits)
  moreover have "set (tr_entries (snd (create_keyed ow pre key msg uuid t now r))) \<subseteq>
      insert (next_task_id pre uuid, task_entry_new ow (fresh_state now (next_task_id pre uuid) key msg)) (set (tr_entries r))"
    using sub set_prune by (auto simp: create_entries Let_def)
  ultimately show ?thesis using assms by (fastforce simp: tokens_fired_def token_ok_new)
qed

lemma tokens_fired_cancel_all:
  assumes "tokens_fired r"
  shows "tokens_fired (snd (cancel_all_running msg clk t r))"
proof -
  let ?fired = "tr_fired (snd (cancel_all_running msg clk t r))"
  have "token_ok ?fired (fst (request_cancel (clk k) msg e))" if "(k, e) \<in> set (tr_entries r)" for k e
  proof -
    have "token_ok (tr_fired r) e" using assms that by (force simp: tokens_fired_def)
    then have "token_ok (snd (snd (request_cancel (clk k) msg e)) @ tr_fired r) (fst (request_cancel (clk k) msg e))"
      by (rule token_ok_request)
    moreover have "set (snd (snd (request_cancel (clk k) msg e)) @ tr_fired r) \<subseteq> set ?fired"
      using that by (force simp: cancel_all_running_def Let_def)
    ultimately show ?thesis by (rule token_ok_mono)
  qed
  moreover have "set (tr_entries (snd (cancel_all_running msg clk t r))) \<subseteq>
      set (pointwise (\<lambda>k e. fst (request_cancel (clk k) msg e)) (tr_entries r))"
    using set_prune by (auto simp: cancel_all_running_def Let_def zip_request_pointwise)
  ultimately show ?thesis unfolding tokens_fired_def by (fastforce simp: in_pointwise)
qed

lemma tokens_fired_cancel_owner:
  assumes "tokens_fired r"
  shows "tokens_fired (snd (cancel_for_owner ow tid now t r))"
proof (cases "hm_get (tr_entries r) tid")
  case None
  then show ?thesis using assms by (simp add: cancel_for_owner_def)
next
  case (Some e)
  let ?q = "request_cancel now ''Cancelled by client'' e"
  let ?F = "snd (snd ?q) @ tr_fired r"
  have ok: "token_ok ?F d" if "(k, d) \<in> set (tr_entries r)" for k d
    using assms that token_ok_mono [of "tr_fired r" d ?F] by (force simp: tokens_fired_def)
  have "token_ok (tr_fired r) e"
    using assms Some by (force simp: tokens_fired_def hm_get_def dest: map_of_SomeD)
  then have "token_ok ?F (fst ?q)" by (rule token_ok_request)
  with ok have "token_ok ?F (snd p)" if "p \<in> set (hm_modify tid (\<lambda>_. fst ?q) (tr_entries r))" for p
    using that by (auto elim!: set_modifyE split: if_splits)
  then show ?thesis using Some assms set_prune
    by (fastforce simp: cancel_for_owner_def case_prod_beta Let_def tokens_fired_def)
qed

lemma tokens_fired_set_token:
  assumes "tokens_fired r" "hm_wf (tr_entries r)"
  shows "tokens_fired (set_cancel_token tid tok r)"
proof (cases "hm_get (tr_entries r) tid")
  case None
  then show ?thesis using assms by (simp add: set_cancel_token_def)
next
  case (Some e)
  let ?F = "snd (entry_set_cancel_token (Some tok) e) @ tr_fired r"
  have old: "token_ok (tr_fired r) d" if "(k, d) \<in> set (tr_entries r)" for k d
    using assms that by (force simp: tokens_fired_def)
  have "token_ok ?F (snd p)"
    if "p \<in> set (hm_modify tid (\<lambda>e. fst (entry_set_cancel_token (Some tok) e)) (tr_entries r))" for p
  proof -
    from that obtain d where d: "(fst p, d) \<in> set (tr_entries r)"
      "snd p = (if fst p = tid then fst (entry_set_cancel_token (Some tok) d) else d)" by (rule set_modifyE)
    have "fst p = tid \<Longrightarrow> d = e" using d(1) Some assms(2) by (auto simp flip: hm_get_set)
    with d old [OF d(1)] token_ok_set [of "tr_fired r" d "Some tok"] token_ok_mono [of "tr_fired r" d ?F]
    show ?thesis by auto
  qed
  then show ?thesis using Some by (simp add: set_cancel_token_def tokens_fired_def)
qed

lemma tokens_fired_apply:
  assumes "tokens_fired r" "registry_inv r"
  shows "tokens_fired (task_apply x r)"
proof (cases x)
  case (OpSetToken tid tok)
  then show ?thesis using assms by (simp add: tokens_fired_set_token registry_inv_def entries_inv_def)
next
  case (OpCompleteDefer tid v tok now t)
  then show ?thesis using assms(1) set_prune
    by (auto simp: complete_or_defer_cancellation_def Let_def token_ok_complete
        intro!: tokens_fired_modify [where f = "\<lambda>e. fst (entry_complete now v e)"]
        split: option.splits task_settlement.splits)
next
  case (OpFinishCancelled tid msg now t)
  then show ?thesis using assms(1) set_prune
    by (auto simp: finish_cancelled_def Let_def token_ok_finish
        intro!: tokens_fired_modify [where f = "\<lambda>e. fst (entry_finish_cancelled now msg e)"]
        split: option.splits)
next
  case (OpBind tid db)
  then show ?thesis using assms(1)
    by (auto simp: bind_workspace_open_def
        intro!: tokens_fired_modify [where f = "\<lambda>e. e\<lparr>te_workspace_database_id := Some db\<rparr>", OF _ token_ok_bind])
next
  case (OpUpdate tid now msg)
  then show ?thesis using assms(1)
    by (auto simp: update_message_def
        intro!: tokens_fired_modify [where f = "entry_update_message now msg", OF _ token_ok_update])
qed (use assms(1) set_prune in \<open>auto simp: tokens_fired_create tokens_fired_cancel_all tokens_fired_cancel_owner
    has_running_workspace_open_def get_task_def get_for_owner_def Let_def
    complete_def complete_with_cancel_token_def complete_after_fatal_error_def fail_task_def
    fail_after_cleanup_error_def token_ok_ops intro!: tokens_fired_settle_with tokens_fired_subset\<close>)

lemma tokens_fired_new: "tokens_fired task_registry_new"
  by (simp add: tokens_fired_def task_registry_new_def)

interpretation task_tokens: invariant_system "\<lambda>r. r = task_registry_new" task_step
  "\<lambda>r. registry_inv r \<and> tokens_fired r"
  by unfold_locales
    (auto simp: registry_inv_new registry_inv_apply tokens_fired_new tokens_fired_apply elim: task_stepE)

section \<open>Properties\<close>

text \<open>
  C1: Every state the registry can reach holds at most 256 entries, files each entry
  under its own id exactly once, and has at most one running task per key.
\<close>

theorem registry_bounded:
  assumes "reach (\<lambda>r. r = task_registry_new) task_step r"
  shows "length (tr_entries r) \<le> 256 \<and> distinct (map fst (tr_entries r)) \<and>
    (\<forall>p \<in> set (tr_entries r). ts_id (te_state (snd p)) = fst p) \<and> unique_running_keys (tr_entries r)"
  using task_sys.reach_inv [OF assms]
  by (simp add: registry_inv_def entries_inv_def MAX_TASK_REGISTRY_ENTRIES_def hm_wf_def)

definition demo_registry :: "nat task_registry" where
  "demo_registry = fold task_apply
     [OpCreate (Session ''s1'') ''open'' ''k1'' ''opening'' ''u1'' 5 (5, ''t5''),
      OpCreate (Session ''s2'') ''dsc'' ''k2'' ''loading'' ''u2'' 6 (6, ''t6''),
      OpSetToken ''open-u1'' 9,
      OpComplete ''dsc-u2'' 42 (7, ''t7'') 7] task_registry_new"

lemma demo_registry_inv: "registry_inv demo_registry"
  unfolding demo_registry_def by (rule registry_inv_run [OF registry_inv_new])

lemmas task_eval = task_registry_new_def create_keyed_def create_entries prune_terminal_tasks_def hm_retain_def
  retention_ns_def TASK_RETENTION_TTL_MS_def MAX_TASK_REGISTRY_ENTRIES_def reclaim_capacity_for_admission_def
  find_running_key_def next_task_id_def task_entry_new_def fresh_state_def hm_insert_def hm_remove_def
  hm_get_def hm_modify_def set_cancel_token_def complete_def settle_with_def entry_defs

lemma demo_registry_eval:
  "demo_registry = \<lparr>tr_entries =
     [(''open-u1'', \<lparr>te_owner = Session ''s1'',
        te_state = \<lparr>ts_id = ''open-u1'', ts_status = TsRunning, ts_message = ''opening'', ts_result = None,
          ts_created_at = 5, ts_updated_at = 5, ts_created_at_iso = ''t5'', ts_updated_at_iso = ''t5'',
          ts_key = Some ''k1''\<rparr>,
        te_workspace_database_id = None, te_cancel_token = Some 9, te_cancel_requested = None\<rparr>),
      (''dsc-u2'', \<lparr>te_owner = Session ''s2'',
        te_state = \<lparr>ts_id = ''dsc-u2'', ts_status = TsCompleted, ts_message = ''Completed'', ts_result = Some 42,
          ts_created_at = 6, ts_updated_at = 7, ts_created_at_iso = ''t6'', ts_updated_at_iso = ''t7'',
          ts_key = Some ''k2''\<rparr>,
        te_workspace_database_id = None, te_cancel_token = None, te_cancel_requested = None\<rparr>)],
     tr_fired = []\<rparr>"
  unfolding demo_registry_def by (simp add: task_eval)

theorem registry_bounded_witness: "length (tr_entries demo_registry) \<le> 256"
  using registry_bounded [OF reach_run] unfolding demo_registry_def by blast

text \<open>
  A running task is never dropped by any operation whose pruning clock is less than
  the retention time after the clock it settles with: afterwards the task is still filed
  under its id for the same owner and key, whatever the operation was and however full
  the registry is. (The one exception is the creation of a task with the very same id,
  which carries a fresh UUID.)
\<close>

theorem running_task_survives:
  assumes "registry_inv r" "hm_get (tr_entries r) tid = Some e" "is_running e" "creates_id x \<noteq> Some tid"
    and "prune_instant x - settle_instant x < retention_ns"
  shows "\<exists>e'. hm_get (tr_entries (task_apply x r)) tid = Some e' \<and>
    te_owner e' = te_owner e \<and> ts_key (te_state e') = ts_key (te_state e)"
proof -
  from task_apply_get [OF assms(1,2,4)] obtain e' where e': "evolves (settle_instant x) e e'"
    "hm_get (tr_entries (task_apply x r)) tid = Some e' \<or> \<not> is_running e'
       \<and> (retention_ns \<le> prune_instant x - ts_updated_at (te_state e') \<or> e' = e)" by blast
  with assms(3,5) show ?thesis by (auto simp: evolves_def)
qed

theorem running_task_survives_witness:
  "\<exists>e'. hm_get (tr_entries (task_apply (OpFail ''open-u1'' ''boom'' (8, ''t8'') 9) demo_registry)) ''open-u1'' = Some e'
     \<and> te_owner e' = Session ''s1''"
proof -
  have "\<exists>e. hm_get (tr_entries demo_registry) ''open-u1'' = Some e \<and> is_running e \<and> te_owner e = Session ''s1''"
    by (simp add: demo_registry_eval hm_get_def)
  then obtain e where e: "hm_get (tr_entries demo_registry) ''open-u1'' = Some e" "is_running e"
    "te_owner e = Session ''s1''" by blast
  from running_task_survives [OF demo_registry_inv e(1,2), of "OpFail ''open-u1'' ''boom'' (8, ''t8'') 9"] e(3)
  show ?thesis using retention_ns_pos by (auto simp: retention_ns_def TASK_RETENTION_TTL_MS_def)
qed

text \<open>
  C2: The first settlement of a task is final. Once a task has completed, failed or been
  cancelled, every later sequence of registry operations that does not create a task of
  the same id leaves its published state exactly as it was, or has removed the task.
\<close>

theorem settled_task_immutable:
  assumes "registry_inv r" "hm_get (tr_entries r) tid = Some e" "\<not> is_running e"
    and "\<forall>x \<in> set xs. creates_id x \<noteq> Some tid"
  shows "hm_get (tr_entries (fold task_apply xs r)) tid = None
     \<or> (\<exists>e'. hm_get (tr_entries (fold task_apply xs r)) tid = Some e' \<and> te_state e' = te_state e)"
  using settled_run [OF assms(1-3), of xs] assms(4) by blast

theorem settled_task_immutable_witness:
  "hm_get (tr_entries (fold task_apply [OpFail ''dsc-u2'' ''late'' (8, ''t8'') 8, OpGet ''dsc-u2'' 9] demo_registry))
     ''dsc-u2'' = None \<or>
   (\<exists>e'. hm_get (tr_entries (fold task_apply [OpFail ''dsc-u2'' ''late'' (8, ''t8'') 8, OpGet ''dsc-u2'' 9] demo_registry))
     ''dsc-u2'' = Some e' \<and> te_status e' = TsCompleted)"
proof -
  have "\<exists>e. hm_get (tr_entries demo_registry) ''dsc-u2'' = Some e \<and> te_status e = TsCompleted"
    by (simp add: demo_registry_eval hm_get_def)
  then obtain e where e: "hm_get (tr_entries demo_registry) ''dsc-u2'' = Some e" "te_status e = TsCompleted" by blast
  from settled_task_immutable [OF demo_registry_inv e(1), of "[OpFail ''dsc-u2'' ''late'' (8, ''t8'') 8, OpGet ''dsc-u2'' 9]"] e(2)
  show ?thesis by auto
qed

text \<open>
  Whatever sequence of operations reaches one entry, the operation that takes it out
  of the running state fixes its published state for good.
\<close>

theorem first_settlement_wins_entry:
  assumes "\<not> is_running (entry_apply x e)"
  shows "te_state (fold entry_apply (x # xs) e) = te_state (entry_apply x e)"
  using assms by (rule settled_entry.first_settlement_wins)

definition demo_entry :: "nat task_entry" where
  "demo_entry = task_entry_new Runtime (fresh_state (1, ''t1'') ''a'' ''k'' ''start'')"

theorem first_settlement_wins_entry_witness:
  "ts_result (te_state (fold entry_apply [EComplete (2, ''t2'') 7, EFail (3, ''t3'') ''late'', EComplete (4, ''t4'') 8]
     demo_entry)) = Some 7"
  using first_settlement_wins_entry [of "EComplete (2, ''t2'') 7" demo_entry "[EFail (3, ''t3'') ''late'', EComplete (4, ''t4'') 8]"]
  by (simp add: demo_entry_def task_entry_new_def fresh_state_def entry_defs)

text \<open>
  A completed, failed or cancelled task stays available with its result for the
  retention time: no sequence of operations other than admissions, whose clocks lie
  within 24 hours of the settlement, removes it.
\<close>

theorem result_retained:
  assumes "registry_inv r" "hm_get (tr_entries r) tid = Some e" "\<not> is_running e"
    and "\<forall>x \<in> set xs. creates_id x = None \<and> prune_instant x < ts_updated_at (te_state e) + retention_ns"
  shows "fst (get_task tid t (fold task_apply xs r)) = Some (te_state e)
     \<or> ts_updated_at (te_state e) + retention_ns \<le> t"
proof -
  from retained_run [OF assms(1-3), of xs] assms(4) obtain e' where
    "hm_get (tr_entries (fold task_apply xs r)) tid = Some e'" "te_state e' = te_state e" by blast
  moreover have "hm_wf (tr_entries (fold task_apply xs r))"
    using registry_inv_run [OF assms(1)] by (simp add: registry_inv_def entries_inv_def)
  ultimately show ?thesis using retention_ns_pos by (auto simp: get_task_def Let_def get_prune)
qed

theorem result_retained_witness:
  "fst (get_task ''dsc-u2'' 20 (fold task_apply [OpFail ''dsc-u2'' ''late'' (8, ''t8'') 8] demo_registry)) \<noteq> None"
proof -
  have "\<exists>e. hm_get (tr_entries demo_registry) ''dsc-u2'' = Some e \<and> te_status e = TsCompleted
      \<and> ts_updated_at (te_state e) = 7"
    by (simp add: demo_registry_eval hm_get_def)
  then obtain e where e: "hm_get (tr_entries demo_registry) ''dsc-u2'' = Some e" "te_status e = TsCompleted"
      "ts_updated_at (te_state e) = 7" by blast
  from result_retained [OF demo_registry_inv e(1), of "[OpFail ''dsc-u2'' ''late'' (8, ''t8'') 8]" 20] e(2,3)
  show ?thesis by (auto simp: retention_ns_def TASK_RETENTION_TTL_MS_def)
qed

text \<open>
  A client's cancellation request is recorded at once and decides how the task
  settles: an ordinary completion or failure that arrives later turns into a
  cancellation with no result, the deferring completion leaves the task pending, while a
  fatal-error completion and a cleanup failure, which describe damage the client must
  see, still win. A second request changes nothing.
\<close>

theorem cancellation_precedence:
  fixes e :: "'v task_entry" and now :: clock
  defines "m \<equiv> ''Cancelled by client''"
  assumes "is_running e" "te_cancel_requested e = None"
  shows "let e1 = fst (request_cancel now m e) in
     fst (snd (request_cancel now m e)) \<and> is_running e1 \<and> te_cancel_requested e1 = Some m
     \<and> snd (snd (request_cancel now m e)) = (case te_cancel_token e of Some tok \<Rightarrow> [tok] | None \<Rightarrow> [])
     \<and> snd (entry_complete now' v e1) = StlCancelled
     \<and> te_status (fst (entry_complete now' v e1)) = TsCancelled
     \<and> ts_result (te_state (fst (entry_complete now' v e1))) = ts_result (te_state e)
     \<and> ts_message (te_state (fst (entry_complete now' v e1))) = m
     \<and> entry_fail now' err e1 = (fst (entry_complete now' v e1), StlCancelled)
     \<and> snd (entry_complete_after_fatal_error now' v e1) = StlCompleted
     \<and> ts_result (te_state (fst (entry_complete_after_fatal_error now' v e1))) = Some v
     \<and> snd (entry_fail_after_cleanup_error now' err e1) = StlFailed
     \<and> ts_message (te_state (fst (entry_fail_after_cleanup_error now' err e1))) = err
     \<and> request_cancel now' m' e1 = (e1, False, [])"
  using assms(2,3) by (simp add: entry_defs m_def)

theorem cancellation_precedence_witness:
  "snd (entry_complete (3, ''t3'') 7 (fst (request_cancel (2, ''t2'') ''Cancelled by client'' demo_entry))) = StlCancelled"
  using cancellation_precedence [of demo_entry "(2, ''t2'')" "(3, ''t3'')" 7]
  by (simp add: demo_entry_def task_entry_new_def fresh_state_def Let_def)

text \<open>
  In every reachable registry a running task whose cancellation was requested and
  whose operation has registered a cancellation token has had that token fired: a token
  registered after the request is fired on registration, so no request is lost to the
  order in which the two arrive.
\<close>

theorem cancel_reaches_operation:
  assumes "reach (\<lambda>r. r = task_registry_new) task_step r"
    and "(tid, e) \<in> set (tr_entries r)" "te_cancel_requested e = Some msg" "te_cancel_token e = Some tok"
  shows "is_running e \<and> tok \<in> set (tr_fired r)"
proof -
  from task_tokens.reach_inv [OF assms(1)] assms(2)
  have "entry_ok e" "token_ok (tr_fired r) e"
    by (auto simp: registry_inv_def entries_inv_def tokens_fired_def)
  then show ?thesis using assms(3,4) by (simp add: entry_ok_def token_ok_def)
qed

definition cancelled_registry :: "nat task_registry" where
  "cancelled_registry = fold task_apply
     [OpCreate (Session ''s1'') ''open'' ''k1'' ''opening'' ''u1'' 5 (5, ''t5''),
      OpCancelOwner (Session ''s1'') ''open-u1'' (6, ''t6'') 6,
      OpSetToken ''open-u1'' 9] task_registry_new"

lemma cancelled_registry_eval:
  "map_of (tr_entries cancelled_registry) ''open-u1'' = Some \<lparr>te_owner = Session ''s1'',
     te_state = \<lparr>ts_id = ''open-u1'', ts_status = TsRunning,
       ts_message = ''Cancelled by client; waiting for the operation to settle'', ts_result = None,
       ts_created_at = 5, ts_updated_at = 6, ts_created_at_iso = ''t5'', ts_updated_at_iso = ''t6'',
       ts_key = Some ''k1''\<rparr>,
     te_workspace_database_id = None, te_cancel_token = Some 9, te_cancel_requested = Some ''Cancelled by client''\<rparr>"
  unfolding cancelled_registry_def by (simp add: task_eval cancel_for_owner_def)

theorem cancel_reaches_operation_witness: "9 \<in> set (tr_fired cancelled_registry)"
  using cancel_reaches_operation [OF reach_run map_of_SomeD [OF cancelled_registry_eval [unfolded cancelled_registry_def]]]
  by (simp add: cancelled_registry_def)

section \<open>Admission\<close>

abbreviation running_count :: "(string, 'v task_entry) hashmap \<Rightarrow> nat" where
  "running_count m \<equiv> length (filter (\<lambda>p. is_running (snd p)) m)"

lemma running_prune: "filter (\<lambda>p. is_running (snd p)) (prune_terminal_tasks t m) = filter (\<lambda>p. is_running (snd p)) m"
  by (auto simp: prune_terminal_tasks_def hm_retain_def intro: filter_cong)

lemma find_running_prune: "find_running_key key (prune_terminal_tasks t m) = None \<longleftrightarrow> find_running_key key m = None"
  by (auto simp: find_running_key_None prune_terminal_tasks_def)

lemma length_reclaim: "length (reclaim_capacity_for_admission m) \<le> length m"
  by (simp add: reclaim_capacity_for_admission_def fold_remove_eq)

lemma reclaim_full_iff:
  assumes "hm_wf m" "length m \<le> MAX_TASK_REGISTRY_ENTRIES"
  shows "MAX_TASK_REGISTRY_ENTRIES \<le> length (reclaim_capacity_for_admission m) \<longleftrightarrow>
    running_count m = MAX_TASK_REGISTRY_ENTRIES"
proof (cases "\<exists>p \<in> set m. \<not> is_running (snd p)")
  case True
  then have "running_count m < length m" by (auto intro: length_filter_less)
  moreover from True assms reclaim_makes_room
  have "length (reclaim_capacity_for_admission m) < MAX_TASK_REGISTRY_ENTRIES" by blast
  ultimately show ?thesis using assms(2) by simp
next
  case False
  then have "filter (\<lambda>p. is_running (snd p)) m = m" "reclaim_capacity_for_admission m = m"
    by (auto simp: filter_id_conv reclaim_all_running)
  then show ?thesis using assms(2) by auto
qed

text \<open>
  Admission control is exact. With no running task of the same key, a new task is
  refused precisely when all 256 slots are held by running tasks: a finished task never
  blocks an admission.
\<close>

theorem capacity_exceeded_iff:
  assumes "registry_inv r"
  shows "fst (create_keyed ow pre key msg uuid t now r) = Inl (CapacityExceeded 256) \<longleftrightarrow>
    running_count (tr_entries r) = 256 \<and>
    (\<forall>p \<in> set (tr_entries r). is_running (snd p) \<longrightarrow> ts_key (te_state (snd p)) \<noteq> Some key)"
proof -
  let ?m = "prune_terminal_tasks t (tr_entries r)"
  have "entries_inv ?m" using assms by (simp add: registry_inv_def entries_inv_prune)
  then have "MAX_TASK_REGISTRY_ENTRIES \<le> length (reclaim_capacity_for_admission ?m) \<longleftrightarrow>
      running_count (tr_entries r) = MAX_TASK_REGISTRY_ENTRIES"
    using reclaim_full_iff [of ?m] by (simp add: entries_inv_def running_prune)
  moreover have "find_running_key key ?m = None \<longleftrightarrow>
      (\<forall>p \<in> set (tr_entries r). is_running (snd p) \<longrightarrow> ts_key (te_state (snd p)) \<noteq> Some key)"
    unfolding find_running_prune by (simp add: find_running_key_None)
  moreover have "fst (create_keyed ow pre key msg uuid t now r) = Inl (CapacityExceeded 256) \<longleftrightarrow>
      MAX_TASK_REGISTRY_ENTRIES \<le> length (reclaim_capacity_for_admission ?m) \<and> find_running_key key ?m = None"
    by (cases "find_running_key key ?m"; cases ow)
      (simp_all add: create_keyed_def Let_def MAX_TASK_REGISTRY_ENTRIES_def)
  ultimately show ?thesis by (simp add: MAX_TASK_REGISTRY_ENTRIES_def)
qed

theorem capacity_exceeded_iff_witness:
  "fst (create_keyed Runtime ''open'' ''k3'' ''m'' ''u3'' 8 (8, ''t8'') demo_registry) \<noteq> Inl (CapacityExceeded 256)"
  using capacity_exceeded_iff [OF demo_registry_inv] by (simp add: demo_registry_eval)

text \<open>
  Task ids are private to their owner. Admission names an existing task only to the
  session that owns it (and only when that task is running under the same key), and
  \<open>get_for_owner\<close> and \<open>cancel_for_owner\<close> act on a task only for its owner.
\<close>

theorem task_id_private:
  assumes "registry_inv r"
  shows "(fst (create_keyed ow pre key msg uuid t now r) = Inl (AlreadyRunning tid) \<longrightarrow>
      (\<exists>s e. ow = Session s \<and> hm_get (tr_entries r) tid = Some e \<and> te_owner e = ow \<and> is_running e
         \<and> ts_key (te_state e) = Some key))
    \<and> (fst (get_for_owner ow tid t r) = Some st \<longrightarrow>
      (\<exists>e. hm_get (tr_entries r) tid = Some e \<and> te_owner e = ow \<and> te_state e = st))
    \<and> (\<forall>e. hm_get (tr_entries r) tid = Some e \<and> te_owner e \<noteq> ow \<longrightarrow> cancel_for_owner ow tid now t r = (False, r))"
proof (intro conjI impI allI)
  have wf: "hm_wf (tr_entries r)" using assms by (simp add: registry_inv_def entries_inv_def)
  {
    assume "fst (create_keyed ow pre key msg uuid t now r) = Inl (AlreadyRunning tid)"
    then obtain s e where se: "ow = Session s" "find_running_key key (prune_terminal_tasks t (tr_entries r)) = Some e"
        "te_owner e = ow" "ts_id (te_state e) = tid"
      by (auto simp: create_keyed_def Let_def split: option.splits task_owner.splits if_splits)
    from find_running_key_Some [OF se(2)] obtain tid' where "(tid', e) \<in> set (tr_entries r)" "is_running e"
        "ts_key (te_state e) = Some key" using set_prune by blast
    moreover from this(1) have "tid' = tid" using assms se(4) by (force simp: registry_inv_def entries_inv_def)
    ultimately show "\<exists>s e. ow = Session s \<and> hm_get (tr_entries r) tid = Some e \<and> te_owner e = ow \<and> is_running e
         \<and> ts_key (te_state e) = Some key" using se wf by (auto simp: hm_get_set)
  next
    assume "fst (get_for_owner ow tid t r) = Some st"
    then show "\<exists>e. hm_get (tr_entries r) tid = Some e \<and> te_owner e = ow \<and> te_state e = st"
      by (auto simp: get_for_owner_def Let_def get_prune [OF wf] split: option.splits if_splits)
  next
    fix e assume "hm_get (tr_entries r) tid = Some e \<and> te_owner e \<noteq> ow"
    then show "cancel_for_owner ow tid now t r = (False, r)" by (simp add: cancel_for_owner_def)
  }
qed

theorem task_id_private_witness:
  "fst (create_keyed (Session ''s2'') ''open'' ''k1'' ''m'' ''u3'' 8 (8, ''t8'') demo_registry) \<noteq> Inl (AlreadyRunning ''open-u1'')
   \<and> cancel_for_owner (Session ''s2'') ''open-u1'' (8, ''t8'') 8 demo_registry = (False, demo_registry)"
  using task_id_private [OF demo_registry_inv, of "Session ''s2''" "''open''" "''k1''" "''m''" "''u3''" 8 "(8, ''t8'')" "''open-u1''"]
  by (simp add: demo_registry_eval hm_get_def)

text \<open>
  When a full registry must make room it evicts exactly one entry, a settled one, and
  the least recently updated of them.
\<close>

theorem eviction_is_least_recent:
  assumes "hm_wf m" "length m = 256" "p \<in> set m" "\<not> is_running (snd p)"
  shows "\<exists>v \<in> set m. \<not> is_running (snd v) \<and> ts_updated_at (te_state (snd v)) \<le> ts_updated_at (te_state (snd p))
    \<and> set (reclaim_capacity_for_admission m) = set m - {v}"
proof -
  let ?ts = "terminal_by_age m"
  have in_ts: "q \<in> set ?ts \<longleftrightarrow> (\<exists>e. (snd q, e) \<in> set m \<and> \<not> is_running e \<and> fst q = ts_updated_at (te_state e))" for q
    unfolding terminal_by_age_def by (cases q) force
  have p: "(ts_updated_at (te_state (snd p)), fst p) \<in> set ?ts" 
    using assms(3,4) in_ts [of "(ts_updated_at (te_state (snd p)), fst p)"] by (auto intro!: exI [of _ "snd p"])
  then obtain v vs where vs: "?ts = v # vs" by (cases ?ts) auto
  have "sorted ?ts" by (simp add: terminal_by_age_def)
  with p vs have le: "v \<le> (ts_updated_at (te_state (snd p)), fst p)" by auto
  from in_ts [of v] vs obtain e where e: "(snd v, e) \<in> set m" "\<not> is_running e" "fst v = ts_updated_at (te_state e)" by auto
  have "reclaim_victims m = [snd v]"
    using vs assms(2) by (simp add: reclaim_victims_def MAX_TASK_REGISTRY_ENTRIES_def)
  then have "set (reclaim_capacity_for_admission m) = {p \<in> set m. fst p \<noteq> snd v}"
    using assms(2) by (simp add: reclaim_capacity_for_admission_def MAX_TASK_REGISTRY_ENTRIES_def)
  also have "\<dots> = set m - {(snd v, e)}"
    using e(1) assms(1) by (auto simp flip: hm_get_set)
  finally have "set (reclaim_capacity_for_admission m) = set m - {(snd v, e)}" .
  moreover have "ts_updated_at (te_state e) \<le> ts_updated_at (te_state (snd p))"
    using le e(3) by (auto simp: less_eq_prod_def)
  ultimately show ?thesis using e by (intro bexI [of _ "(snd v, e)"]) auto
qed

definition full_map :: "(string, nat task_entry) hashmap" where
  "full_map = map (\<lambda>i. (replicate i CHR ''a'', fst (entry_complete (i, ''t'') 0 demo_entry))) [0..<256]"

theorem eviction_is_least_recent_witness:
  "\<exists>v \<in> set full_map. ts_updated_at (te_state (snd v)) \<le> 0 \<and> set (reclaim_capacity_for_admission full_map) = set full_map - {v}"
proof -
  let ?e = "fst (entry_complete (0, ''t'') 0 demo_entry) :: nat task_entry"
  have wf: "hm_wf full_map"
    by (auto simp: hm_wf_def full_map_def distinct_map inj_on_def comp_def dest: arg_cong [of _ _ length])
  have len: "length full_map = 256" by (simp add: full_map_def)
  have e: "\<not> is_running ?e" "ts_updated_at (te_state ?e) = 0"
    by (simp_all add: demo_entry_def task_entry_new_def fresh_state_def entry_defs)
  have "([], ?e) \<in> set full_map" by (force simp: full_map_def)
  from eviction_is_least_recent [OF wf len this] e show ?thesis by auto
qed

end
