(* ===== verification/Worker_Pool.thy ===== *)
theory Worker_Pool
  imports Remote
begin

text \<open>
  \<open>src/src/ida/pool.rs\<close>, the worker pool: child processes that are spawned, leased to a
  session, released and retired under a capacity bound.

  A \<open>ChildSlot\<close> is shared by reference, so the model keeps every slot that was ever created
  in a store \<open>pi_slots\<close> by its worker id, apart from the pool's own list \<open>pi_children\<close>.
  \<open>pi_log\<close> records what the retirement of a worker does outside the pool: closing the
  service, cleaning up the artifacts of an unfinished open, removing the lock file.
  A critical section of the code (one hold of the pool mutex or of a slot's mutex) is one
  function here; what happens in a child process, on the transport or to a timer is an
  argument.
\<close>

section \<open>Data\<close>

definition CHILD_STARTUP_TIMEOUT_SECS :: nat where "CHILD_STARTUP_TIMEOUT_SECS = 30"
definition POOL_ACQUIRE_CAPACITY :: nat where "POOL_ACQUIRE_CAPACITY = 64"
definition CHILD_TIMEOUT_GRACE_SECS :: nat where "CHILD_TIMEOUT_GRACE_SECS = 10"
definition CHILD_QUEUE_CAPACITY :: nat where "CHILD_QUEUE_CAPACITY = 64"
definition MAX_TIMEOUT_SECS :: nat where "MAX_TIMEOUT_SECS = 600"
definition CLOSE_SEND_TIMEOUT_SECS :: nat where "CLOSE_SEND_TIMEOUT_SECS = 5"
definition DEBUGGER_TEARDOWN_TIMEOUT_SECS :: nat where "DEBUGGER_TEARDOWN_TIMEOUT_SECS = 5"

definition MIN_CHILD_CLOSE_RPC_TIMEOUT_SECS :: nat where
  "MIN_CHILD_CLOSE_RPC_TIMEOUT_SECS =
     CLOSE_SEND_TIMEOUT_SECS + DEBUGGER_TEARDOWN_TIMEOUT_SECS + CHILD_TIMEOUT_GRACE_SECS"

record pool_config =
  cf_max_workers :: nat
  cf_min_workers :: nat
  cf_worker_idle_timeout :: duration
  cf_worker_op_timeout :: duration

datatype child_state =
    Idle
  | Leased string u64
  | Closing u64
  | Dead

fun belongs_to_lease :: "child_state \<Rightarrow> u64 \<Rightarrow> bool" where
  "belongs_to_lease (Leased s l) expected \<longleftrightarrow> l = expected"
| "belongs_to_lease (Closing l) expected \<longleftrightarrow> l = expected"
| "belongs_to_lease Idle expected \<longleftrightarrow> False"
| "belongs_to_lease Dead expected \<longleftrightarrow> False"

text \<open>The snapshot of artifacts that an unfinished raw open owns, by name.\<close>

type_synonym artifacts = string

record pooled_child =
  pc_service :: bool
  pc_pid :: "u32 option"
  pc_state :: child_state
  pc_last_used :: instant
  pc_idb_path :: "string option"
  pc_pending_open_artifacts :: "artifacts option"

record dead_worker =
  dw_service :: bool
  dw_pid :: "u32 option"
  dw_idb_path :: "string option"
  dw_pending_open_artifacts :: "artifacts option"

datatype cleanup =
    CloseService
  | CleanupArtifacts artifacts "u32 option"
  | RemoveLock string "u32 option"

record pool_inner =
  pi_slots :: "(usize, pooled_child) hashmap"
  pi_children :: "usize list"
  pi_spawning :: "usize list"
  pi_next_id :: usize
  pi_next_lease_id :: u64
  pi_shutting_down :: bool
  pi_stop_queued_calls :: bool
  pi_log :: "(usize \<times> cleanup) list"

record worker_handle =
  wh_slot :: usize
  wh_session_id :: string
  wh_lease_id :: u64
  wh_preserve_on_cancel :: bool

section \<open>The slot store\<close>

definition slot_state :: "pool_inner \<Rightarrow> usize \<Rightarrow> child_state option" where
  "slot_state p w = map_option pc_state (hm_get (pi_slots p) w)"

definition slot_live :: "pool_inner \<Rightarrow> usize \<Rightarrow> bool" where
  "slot_live p w \<longleftrightarrow> slot_state p w \<noteq> None \<and> slot_state p w \<noteq> Some Dead"

definition with_slot :: "usize \<Rightarrow> (pooled_child \<Rightarrow> pooled_child) \<Rightarrow> pool_inner \<Rightarrow> pool_inner" where
  "with_slot w f p = p\<lparr>pi_slots := hm_modify w f (pi_slots p)\<rparr>"

definition slot_belongs :: "pool_inner \<Rightarrow> usize \<Rightarrow> u64 \<Rightarrow> bool" where
  "slot_belongs p w l = (case slot_state p w of Some st \<Rightarrow> belongs_to_lease st l | None \<Rightarrow> False)"

definition pool_new :: pool_inner where
  "pool_new = \<lparr>pi_slots = [], pi_children = [], pi_spawning = [], pi_next_id = 0, pi_next_lease_id = 0,
     pi_shutting_down = False, pi_stop_queued_calls = False, pi_log = []\<rparr>"

section \<open>Retiring a worker\<close>

definition take_dead_worker_locked :: "pooled_child \<Rightarrow> pooled_child \<times> dead_worker" where
  "take_dead_worker_locked c =
     (c\<lparr>pc_state := Dead, pc_idb_path := None, pc_pending_open_artifacts := None, pc_service := False\<rparr>,
      \<lparr>dw_service = pc_service c, dw_pid = pc_pid c, dw_idb_path = pc_idb_path c,
       dw_pending_open_artifacts = pc_pending_open_artifacts c\<rparr>)"

definition finish_dead_worker :: "dead_worker \<Rightarrow> cleanup list" where
  "finish_dead_worker d =
     (if dw_service d then [CloseService] else [])
     @ (case dw_pending_open_artifacts d of Some a \<Rightarrow> [CleanupArtifacts a (dw_pid d)] | None \<Rightarrow> [])
     @ (case dw_idb_path d of Some path \<Rightarrow> [RemoveLock path (dw_pid d)] | None \<Rightarrow> [])"

definition log_cleanup :: "usize \<Rightarrow> dead_worker \<Rightarrow> pool_inner \<Rightarrow> pool_inner" where
  "log_cleanup w d p = p\<lparr>pi_log := pi_log p @ map (Pair w) (finish_dead_worker d)\<rparr>"

definition forget_slot :: "usize \<Rightarrow> pool_inner \<Rightarrow> pool_inner" where
  "forget_slot w p = p\<lparr>pi_children := filter (\<lambda>c. c \<noteq> w) (pi_children p)\<rparr>"

text \<open>Takes the worker out of its slot when the test on the slot's child allows it.\<close>

definition take_worker_if :: "(pooled_child \<Rightarrow> bool) \<Rightarrow> usize \<Rightarrow> pool_inner \<Rightarrow> dead_worker option \<times> pool_inner" where
  "take_worker_if P w p =
     (case hm_get (pi_slots p) w of
        None \<Rightarrow> (None, p)
      | Some c \<Rightarrow>
          if P c then (Some (snd (take_dead_worker_locked c)), with_slot w (\<lambda>c. fst (take_dead_worker_locked c)) p)
          else (None, p))"

definition take_dead_worker :: "usize \<Rightarrow> pool_inner \<Rightarrow> dead_worker option \<times> pool_inner" where
  "take_dead_worker w p = take_worker_if (\<lambda>c. pc_state c \<noteq> Dead) w p"

definition take_lease_worker :: "usize \<Rightarrow> u64 \<Rightarrow> pool_inner \<Rightarrow> dead_worker option \<times> pool_inner" where
  "take_lease_worker w l p = take_worker_if (\<lambda>c. belongs_to_lease (pc_state c) l) w p"

definition live_count :: "pool_inner \<Rightarrow> nat" where
  "live_count p = length (pi_spawning p) + length (filter (slot_live p) (pi_children p))"

definition take_stale_idle_worker_if_above_min ::
  "pool_config \<Rightarrow> usize \<Rightarrow> instant \<Rightarrow> pool_inner \<Rightarrow> dead_worker option \<times> pool_inner" where
  "take_stale_idle_worker_if_above_min cfg w sleep_started p =
     (if live_count p \<le> cf_min_workers cfg then (None, p)
      else take_worker_if (\<lambda>c. \<not> (pc_state c \<noteq> Idle \<or> pc_last_used c > sleep_started)) w p)"

definition discard_uninstalled_slot :: "usize \<Rightarrow> pool_inner \<Rightarrow> pool_inner" where
  "discard_uninstalled_slot w p =
     (case take_dead_worker w p of
        (Some d, p1) \<Rightarrow> log_cleanup w d (forget_slot w p1)
      | (None, p1) \<Rightarrow> forget_slot w p1)"

section \<open>Reserving and starting workers\<close>

definition reserve_spawn_slot_locked :: "pool_inner \<Rightarrow> (tool_error + usize) \<times> pool_inner" where
  "reserve_spawn_slot_locked p =
     (if pi_shutting_down p then (Inl WorkerClosed, p)
      else case checked_add (pi_next_id p) 1 of
        None \<Rightarrow> (Inl (RemoteProtocol ''worker identifier space exhausted''), p)
      | Some n \<Rightarrow> (Inr (pi_next_id p),
          p\<lparr>pi_next_id := n, pi_spawning := pi_spawning p @ [pi_next_id p]\<rparr>))"

text \<open>How the start of a child process ends: the process fails to spawn, the shutdown token
  fires first, the handshake times out or fails, or the service runs.\<close>

datatype spawn_outcome =
    SpawnFailed string
  | SpawnShutdown
  | SpawnTimedOut
  | SpawnInitFailed string
  | SpawnServing "u32 option" instant

definition spawn_slot :: "usize \<Rightarrow> child_state \<Rightarrow> spawn_outcome \<Rightarrow> pool_inner \<Rightarrow> tool_error + pooled_child" where
  "spawn_slot w st out p =
     (if pi_shutting_down p then Inl WorkerClosed
      else case out of
        SpawnFailed err \<Rightarrow> Inl (RemoteProtocol (''failed to spawn worker '' @ show_nat (unat w) @ '': '' @ err))
      | SpawnShutdown \<Rightarrow> Inl WorkerClosed
      | SpawnTimedOut \<Rightarrow> Inl (RemoteProtocol (''worker '' @ show_nat (unat w) @ '' startup timed out after '' @
          show_nat CHILD_STARTUP_TIMEOUT_SECS @ '' seconds''))
      | SpawnInitFailed err \<Rightarrow> Inl (RemoteProtocol (''failed to initialize worker '' @ show_nat (unat w) @ '': '' @ err))
      | SpawnServing pid now \<Rightarrow> Inr \<lparr>pc_service = True, pc_pid = pid, pc_state = st, pc_last_used = now,
          pc_idb_path = None, pc_pending_open_artifacts = None\<rparr>)"

definition finish_spawn_reservation ::
  "usize \<Rightarrow> pooled_child option \<Rightarrow> pool_inner \<Rightarrow> (tool_error + unit) \<times> pool_inner" where
  "finish_spawn_reservation w slot p =
     (let p0 = (case slot of Some c \<Rightarrow> p\<lparr>pi_slots := hm_insert w c (pi_slots p)\<rparr> | None \<Rightarrow> p) in
      if pi_shutting_down p0 then
        (let p1 = (case slot of Some _ \<Rightarrow> discard_uninstalled_slot w p0 | None \<Rightarrow> p0)
         in (Inl WorkerClosed, p1\<lparr>pi_spawning := filter (\<lambda>c. c \<noteq> w) (pi_spawning p1)\<rparr>))
      else
        (let p1 = (case slot of Some _ \<Rightarrow> p0\<lparr>pi_children := pi_children p0 @ [w]\<rparr> | None \<Rightarrow> p0)
         in (Inr (), p1\<lparr>pi_spawning := filter (\<lambda>c. c \<noteq> w) (pi_spawning p1)\<rparr>)))"

text \<open>\<open>mid\<close> is what other tasks do to the pool while the child process starts.\<close>

definition spawn_reserved_slot ::
  "usize \<Rightarrow> child_state \<Rightarrow> (pool_inner \<Rightarrow> pool_inner) \<Rightarrow> spawn_outcome \<Rightarrow> pool_inner \<Rightarrow> (tool_error + usize) \<times> pool_inner" where
  "spawn_reserved_slot w st mid out p =
     (case spawn_slot w st out p of
        Inr c \<Rightarrow>
          (case finish_spawn_reservation w (Some c) (mid p) of
             (Inl e, p1) \<Rightarrow> (Inl e, p1)
           | (Inr _, p1) \<Rightarrow> (Inr w, p1))
      | Inl e \<Rightarrow> (Inl e, snd (finish_spawn_reservation w None (mid p))))"

text \<open>\<open>warm_min\<close> runs before the pool is shared, so nothing happens in between.\<close>

fun warm_loop :: "spawn_outcome list \<Rightarrow> pool_inner \<Rightarrow> (tool_error + unit) \<times> pool_inner" where
  "warm_loop [] p = (Inr (), p)"
| "warm_loop (out # outs) p =
     (case reserve_spawn_slot_locked p of
        (Inl e, p1) \<Rightarrow> (Inl e, p1)
      | (Inr w, p1) \<Rightarrow>
          (case spawn_reserved_slot w Idle (\<lambda>p. p) out p1 of
             (Inl e, p2) \<Rightarrow> (Inl e, p2)
           | (Inr _, p2) \<Rightarrow> warm_loop outs p2))"

definition warm_min :: "pool_config \<Rightarrow> (nat \<Rightarrow> spawn_outcome) \<Rightarrow> pool_inner \<Rightarrow> (tool_error + unit) \<times> pool_inner" where
  "warm_min cfg outs p = warm_loop (map outs [0..<min (cf_min_workers cfg) (cf_max_workers cfg)]) p"

text \<open>The reservations that a replenishment makes; \<open>fuel\<close> bounds the loop, which ends after
  at most \<open>min_workers\<close> rounds.\<close>

fun replenish_loop :: "nat \<Rightarrow> nat \<Rightarrow> pool_inner \<Rightarrow> usize list \<times> pool_inner" where
  "replenish_loop 0 target p = ([], p)"
| "replenish_loop (Suc n) target p =
     (if \<not> pi_shutting_down p \<and> length (pi_spawning p) + length (pi_children p) < target
      then (case reserve_spawn_slot_locked p of
              (Inl e, p1) \<Rightarrow> ([], p1)
            | (Inr w, p1) \<Rightarrow> (case replenish_loop n target p1 of (ws, p2) \<Rightarrow> (w # ws, p2)))
      else ([], p))"

definition schedule_replenishment :: "pool_config \<Rightarrow> pool_inner \<Rightarrow> usize list \<times> pool_inner" where
  "schedule_replenishment cfg p =
     (let target = min (cf_min_workers cfg) (cf_max_workers cfg) in replenish_loop target target p)"

section \<open>Leasing\<close>

definition alloc_lease_id :: "pool_inner \<Rightarrow> (tool_error + u64) \<times> pool_inner" where
  "alloc_lease_id p =
     (case checked_add (pi_next_lease_id p) 1 of
        None \<Rightarrow> (Inl (RemoteProtocol ''worker lease identifier space exhausted''), p)
      | Some l \<Rightarrow> (Inr l, p\<lparr>pi_next_lease_id := l\<rparr>))"

datatype scan_outcome =
    ScanLeased usize
  | ScanError tool_error
  | ScanWait
  | ScanReserved usize

definition lease_slot :: "string \<Rightarrow> u64 \<Rightarrow> instant \<Rightarrow> pooled_child \<Rightarrow> pooled_child" where
  "lease_slot session l now c = c\<lparr>pc_state := Leased session l, pc_last_used := now\<rparr>"

text \<open>One turn of the loop of \<open>lease_inner\<close> under the pool mutex.\<close>

definition lease_scan ::
  "pool_config \<Rightarrow> string \<Rightarrow> u64 \<Rightarrow> instant \<Rightarrow> pool_inner \<Rightarrow> scan_outcome \<times> pool_inner" where
  "lease_scan cfg session l now p =
     (if pi_shutting_down p then (ScanError WorkerClosed, p)
      else case find (\<lambda>w. slot_state p w = Some Idle) (pi_children p) of
        Some w \<Rightarrow> (ScanLeased w, with_slot w (lease_slot session l now) p)
      | None \<Rightarrow>
          (let active = live_count p;
               p1 = p\<lparr>pi_children := filter (\<lambda>w. slot_state p w \<noteq> Some Dead) (pi_children p)\<rparr>
           in if cf_max_workers cfg \<le> active
              then (if pi_spawning p = []
                    then ScanError (PoolExhausted (of_nat active) (of_nat (cf_max_workers cfg)))
                    else ScanWait, p1)
              else (case reserve_spawn_slot_locked p1 of
                      (Inl e, p2) \<Rightarrow> (ScanError e, p2)
                    | (Inr w, p2) \<Rightarrow> (ScanReserved w, p2))))"

definition new_handle :: "usize \<Rightarrow> string \<Rightarrow> u64 \<Rightarrow> worker_handle" where
  "new_handle w session l =
     \<lparr>wh_slot = w, wh_session_id = session, wh_lease_id = l, wh_preserve_on_cancel = False\<rparr>"

text \<open>
  \<open>lease_inner\<close>: each turn of the loop comes with what other tasks did while the call
  waited. The list of turns runs out, or the start of the reserved worker has no
  outcome, when the call is dropped or its startup deadline passes at that point; the
  dropped reservation then gives its slot back.
\<close>

fun lease_loop ::
  "pool_config \<Rightarrow> string \<Rightarrow> u64 \<Rightarrow> (instant \<times> (pool_inner \<Rightarrow> pool_inner)) list \<Rightarrow>
   (pool_inner \<Rightarrow> pool_inner) \<Rightarrow> spawn_outcome option \<Rightarrow> pool_inner \<Rightarrow> (tool_error + worker_handle) option \<times> pool_inner" where
  "lease_loop cfg session l [] mid out p = (None, p)"
| "lease_loop cfg session l ((now, other) # turns) mid out p =
     (case lease_scan cfg session l now p of
        (ScanLeased w, p1) \<Rightarrow> (Some (Inr (new_handle w session l)), p1)
      | (ScanError e, p1) \<Rightarrow> (Some (Inl e), p1)
      | (ScanWait, p1) \<Rightarrow>
          if pi_shutting_down (other p1) then (Some (Inl WorkerClosed), other p1)
          else lease_loop cfg session l turns mid out (other p1)
      | (ScanReserved w, p1) \<Rightarrow>
          (case out of
             None \<Rightarrow> (None, snd (finish_spawn_reservation w None (mid p1)))
           | Some outcome \<Rightarrow>
          (case spawn_reserved_slot w (Leased session l) mid outcome p1 of
             (Inl e, p2) \<Rightarrow> (Some (Inl e), p2)
           | (Inr w', p2) \<Rightarrow> (Some (Inr (new_handle w' session l)), p2))))"

definition lease_inner ::
  "pool_config \<Rightarrow> string \<Rightarrow> (instant \<times> (pool_inner \<Rightarrow> pool_inner)) list \<Rightarrow>
   (pool_inner \<Rightarrow> pool_inner) \<Rightarrow> spawn_outcome option \<Rightarrow> pool_inner \<Rightarrow> (tool_error + worker_handle) option \<times> pool_inner" where
  "lease_inner cfg session turns mid out p =
     (case alloc_lease_id p of
        (Inl e, p1) \<Rightarrow> (Some (Inl e), p1)
      | (Inr l, p1) \<Rightarrow> lease_loop cfg session l turns mid out p1)"

text \<open>\<open>acquired\<close> counts the acquisition slots in use when the call arrives.\<close>

definition lease ::
  "pool_config \<Rightarrow> nat \<Rightarrow> string \<Rightarrow> (instant \<times> (pool_inner \<Rightarrow> pool_inner)) list \<Rightarrow>
   (pool_inner \<Rightarrow> pool_inner) \<Rightarrow> spawn_outcome option \<Rightarrow> pool_inner \<Rightarrow> (tool_error + worker_handle) \<times> pool_inner" where
  "lease cfg acquired session turns mid out p =
     (if POOL_ACQUIRE_CAPACITY \<le> acquired then (Inl Busy, p)
      else case lease_inner cfg session turns mid out p of
        (Some r, p1) \<Rightarrow> (r, p1)
      | (None, p1) \<Rightarrow>
          (Inl (NeverDispatched (''timed out after '' @ show_nat CHILD_STARTUP_TIMEOUT_SECS @
             '' seconds waiting for an IDA worker to start; no database request was dispatched, retry open_idb'')), p1))"

section \<open>Retirement paths\<close>

definition mark_dead_for_lease :: "pool_config \<Rightarrow> usize \<Rightarrow> u64 \<Rightarrow> pool_inner \<Rightarrow> usize list \<times> pool_inner" where
  "mark_dead_for_lease cfg w l p =
     (case take_lease_worker w l p of
        (None, p1) \<Rightarrow> ([], p1)
      | (Some d, p1) \<Rightarrow> schedule_replenishment cfg (log_cleanup w d (forget_slot w p1)))"

definition mark_dead_inner :: "pool_config \<Rightarrow> usize \<Rightarrow> bool \<Rightarrow> pool_inner \<Rightarrow> usize list \<times> pool_inner" where
  "mark_dead_inner cfg w replenish p =
     (let p2 = (case take_dead_worker w p of
                  (Some d, p1) \<Rightarrow> log_cleanup w d (forget_slot w p1)
                | (None, p1) \<Rightarrow> forget_slot w p1)
      in if replenish then schedule_replenishment cfg p2 else ([], p2))"

definition mark_dead :: "pool_config \<Rightarrow> usize \<Rightarrow> pool_inner \<Rightarrow> usize list \<times> pool_inner" where
  "mark_dead cfg w p = mark_dead_inner cfg w True p"

definition mark_dead_without_replacement :: "pool_config \<Rightarrow> usize \<Rightarrow> pool_inner \<Rightarrow> pool_inner" where
  "mark_dead_without_replacement cfg w p = snd (mark_dead_inner cfg w False p)"

definition mark_stale_idle_dead :: "pool_config \<Rightarrow> usize \<Rightarrow> instant \<Rightarrow> pool_inner \<Rightarrow> pool_inner" where
  "mark_stale_idle_dead cfg w sleep_started p =
     (case take_stale_idle_worker_if_above_min cfg w sleep_started p of
        (None, p1) \<Rightarrow> p1
      | (Some d, p1) \<Rightarrow> log_cleanup w d (forget_slot w p1))"

text \<open>A reap timer is scheduled unless the idle timeout is zero; it wakes with the reading
  it started from.\<close>

definition schedule_idle_reap :: "pool_config \<Rightarrow> usize \<Rightarrow> instant \<Rightarrow> pool_inner \<Rightarrow> pool_inner" where
  "schedule_idle_reap cfg w sleep_started p =
     (if cf_worker_idle_timeout cfg = 0 then p else mark_stale_idle_dead cfg w sleep_started p)"

section \<open>Timeouts and retirement decisions\<close>

definition worker_op_timeout :: "pool_config \<Rightarrow> nat option \<Rightarrow> duration" where
  "worker_op_timeout cfg requested =
     (case requested of
        None \<Rightarrow> cf_worker_op_timeout cfg
      | Some seconds \<Rightarrow>
          min (from_secs (u64_saturating_add (min seconds MAX_TIMEOUT_SECS) CHILD_TIMEOUT_GRACE_SECS))
              (cf_worker_op_timeout cfg))"

definition close_rpc_timeout :: "pool_config \<Rightarrow> duration" where
  "close_rpc_timeout cfg = max (cf_worker_op_timeout cfg) (from_secs MIN_CHILD_CLOSE_RPC_TIMEOUT_SECS)"

fun release_error_retires_worker :: "tool_error \<Rightarrow> bool" where
  "release_error_retires_worker (Timeout _) = True"
| "release_error_retires_worker (TimeoutDetailed _) = True"
| "release_error_retires_worker (Cancelled _) = True"
| "release_error_retires_worker (DebuggerTeardown _) = True"
| "release_error_retires_worker (WorkerCrashed _ _) = True"
| "release_error_retires_worker (SdkCrashed _) = True"
| "release_error_retires_worker (WorkerRetired _) = True"
| "release_error_retires_worker (RemoteProtocol _) = True"
| "release_error_retires_worker (RemoteCall _) = True"
| "release_error_retires_worker WorkerClosed = True"
| "release_error_retires_worker _ = False"

fun is_timeout :: "tool_error \<Rightarrow> bool" where
  "is_timeout (Timeout _) = True"
| "is_timeout (TimeoutDetailed _) = True"
| "is_timeout _ = False"

fun is_worker_loss :: "tool_error \<Rightarrow> bool" where
  "is_worker_loss WorkerClosed = True"
| "is_worker_loss (WorkerCrashed _ _) = True"
| "is_worker_loss (SdkCrashed _) = True"
| "is_worker_loss (WorkerRetired _) = True"
| "is_worker_loss (RemoteProtocol _) = True"
| "is_worker_loss _ = False"

definition child_tool_error_retires_worker :: "string \<Rightarrow> tool_error \<Rightarrow> bool" where
  "child_tool_error_retires_worker tool err \<longleftrightarrow>
     is_worker_loss err \<or>
     tool \<in> {''debug_launch'', ''debug_attach'', ''debug_modules'', ''debug_stop''} \<and> is_timeout err"

fun unsettled_open_error_retires_worker :: "tool_error \<Rightarrow> bool" where
  "unsettled_open_error_retires_worker (Timeout _) = True"
| "unsettled_open_error_retires_worker (TimeoutDetailed _) = True"
| "unsettled_open_error_retires_worker (Cancelled _) = True"
| "unsettled_open_error_retires_worker (SdkCrashed _) = True"
| "unsettled_open_error_retires_worker (WorkerRetired _) = True"
| "unsettled_open_error_retires_worker WorkerClosed = True"
| "unsettled_open_error_retires_worker _ = False"

fun ends_open_lease :: "tool_error \<Rightarrow> bool" where
  "ends_open_lease (Timeout _) = True"
| "ends_open_lease (TimeoutDetailed _) = True"
| "ends_open_lease (Cancelled _) = True"
| "ends_open_lease (WorkerCrashed _ _) = True"
| "ends_open_lease (SdkCrashed _) = True"
| "ends_open_lease (WorkerRetired _) = True"
| "ends_open_lease WorkerClosed = True"
| "ends_open_lease DatabaseReplaced = True"
| "ends_open_lease _ = False"

definition open_error_releases_lease :: "bool \<Rightarrow> tool_error \<Rightarrow> bool" where
  "open_error_releases_lease fresh_lease err \<longleftrightarrow>
     \<not> never_dispatched err \<and> (fresh_lease \<or> ends_open_lease err)"

section \<open>Calls\<close>

text \<open>
  \<open>call_tool\<close> before the call lock: the queue position. \<open>queued\<close> is the number of calls that
  wait for or hold the slot's call lock.
\<close>

definition admit_queued :: "nat \<Rightarrow> tool_error option \<times> nat" where
  "admit_queued queued = (if CHILD_QUEUE_CAPACITY \<le> queued then (Some Busy, queued) else (None, queued + 1))"

record open_dispatch =
  od_database_path :: string
  od_artifacts :: "artifacts option"

text \<open>How the wait for the call lock, the slot and the outbound queue ends.\<close>

datatype admission =
    AdmShutdown
  | AdmDrained
  | AdmTimedOut
  | AdmCancelled
  | AdmReady "tool_error option"

text \<open>
  The admission part of \<open>call_tool_admitted\<close>. On success it yields what dispatching
  returned and the database path that an open replaced; nothing is retired on a failure.
\<close>

definition shutting_down_msg :: "string \<Rightarrow> string" where
  "shutting_down_msg tool = tool @ '' was not dispatched because the server is shutting down''"

definition busy_msg :: "string \<Rightarrow> duration \<Rightarrow> string" where
  "busy_msg tool timeout = tool @ '' timed out after '' @ show_nat (as_secs timeout) @
     '' seconds waiting for the IDA worker, which is still busy; the worker and its database are unaffected, retry once that call finishes''"

definition note_dispatch :: "open_dispatch option \<Rightarrow> pooled_child \<Rightarrow> pooled_child" where
  "note_dispatch od c =
     (case od of
        None \<Rightarrow> c
      | Some d \<Rightarrow> c\<lparr>pc_idb_path := Some (od_database_path d), pc_pending_open_artifacts := od_artifacts d\<rparr>)"

definition call_admission ::
  "worker_handle \<Rightarrow> string \<Rightarrow> duration \<Rightarrow> open_dispatch option \<Rightarrow> admission \<Rightarrow> pool_inner \<Rightarrow>
   (tool_error + tool_error option \<times> string option) \<times> pool_inner" where
  "call_admission h tool timeout od adm p =
     (case adm of
        AdmCancelled \<Rightarrow> (Inl (NeverDispatched (''cancelled '' @ tool @
          '' before dispatch to the IDA worker; the worker and its database are unaffected'')), p)
      | AdmShutdown \<Rightarrow> (Inl (NeverDispatched (shutting_down_msg tool)), p)
      | AdmDrained \<Rightarrow> (Inl (NeverDispatched (shutting_down_msg tool)), p)
      | AdmTimedOut \<Rightarrow> (Inl (NeverDispatched (busy_msg tool timeout)), p)
      | AdmReady dispatched \<Rightarrow>
          (case hm_get (pi_slots p) (wh_slot h) of
             None \<Rightarrow> (Inl DatabaseReplaced, p)
           | Some c \<Rightarrow>
               (if pc_state c = Leased (wh_session_id h) (wh_lease_id h)
                then (case dispatched of
                        Some e \<Rightarrow> if never_dispatched e then (Inl e, p) else (Inr (Some e, None), p)
                      | None \<Rightarrow> (Inr (None, if od = None then None else pc_idb_path c),
                                  with_slot (wh_slot h) (note_dispatch od) p))
                else if pc_state c = Dead then (Inl (WorkerCrashed (wh_slot h) tool), p)
                else (Inl DatabaseReplaced, p))))"

text \<open>How the wait for the reply ends; \<open>ExecDropped\<close> is the call's future being dropped.\<close>

datatype execution =
    ExecTimedOut
  | ExecDropped
  | ExecReply "tool_error + call_tool_result"

definition cancelled_msg :: "string \<Rightarrow> usize \<Rightarrow> string" where
  "cancelled_msg tool w = ''cancelled '' @ tool @ ''; killed worker '' @ show_nat (unat w) @
     ''. The database it held is no longer open and changes since the last save_idb are lost; call open_idb again''"

definition overrun_msg :: "string \<Rightarrow> duration \<Rightarrow> usize \<Rightarrow> string" where
  "overrun_msg tool timeout w = tool @ '' exceeded worker operation timeout of '' @ show_nat (as_secs timeout) @
     '' seconds; killed worker '' @ show_nat (unat w) @
     ''. The database it held is no longer open and changes since the last save_idb are lost; call open_idb again''"

definition reply_retire_error :: "bool \<Rightarrow> string \<Rightarrow> call_tool_result \<Rightarrow> tool_error option" where
  "reply_retire_error tracks_open tool reply =
     (case sdk_crash reply tool of
        Some e \<Rightarrow> Some e
      | None \<Rightarrow>
          (case result_error reply tool of
             Some e \<Rightarrow> if tracks_open \<and> unsettled_open_error_retires_worker e
                           \<or> child_tool_error_retires_worker tool e then Some e else None
           | None \<Rightarrow> None))"

text \<open>
  Settling an open: the worker must still be this lease's, and its transport alive. The
  path that the reply reports is read by \<open>db_path\<close>, which stands for \<open>parse_json\<close> at
  \<open>DbInfo\<close>.
\<close>

definition settle_open ::
  "pool_config \<Rightarrow> (call_tool_result \<Rightarrow> string \<Rightarrow> string option) \<Rightarrow> bool \<Rightarrow> worker_handle \<Rightarrow> string \<Rightarrow> string option \<Rightarrow>
   (tool_error + call_tool_result) \<Rightarrow> pool_inner \<Rightarrow> (tool_error + call_tool_result) \<times> pool_inner" where
  "settle_open cfg db_path transport_closed h tool previous result p =
     (case hm_get (pi_slots p) (wh_slot h) of
        None \<Rightarrow> (Inl DatabaseReplaced, p)
      | Some c \<Rightarrow>
          (if pc_state c = Dead \<or> \<not> pc_service c \<or> transport_closed
           then (Inl (WorkerCrashed (wh_slot h) tool), snd (mark_dead_for_lease cfg (wh_slot h) (wh_lease_id h) p))
           else if \<not> belongs_to_lease (pc_state c) (wh_lease_id h) then (Inl DatabaseReplaced, p)
           else (result, with_slot (wh_slot h) (\<lambda>c.
              (case result of
                 Inr reply \<Rightarrow>
                   if tr_is_error reply \<noteq> Some True
                   then (case db_path reply tool of
                           Some path \<Rightarrow> c\<lparr>pc_idb_path := Some path\<rparr>
                         | None \<Rightarrow> c)
                   else c\<lparr>pc_idb_path := previous\<rparr>
               | Inl _ \<Rightarrow> c\<lparr>pc_idb_path := previous\<rparr>)\<lparr>pc_pending_open_artifacts := None\<rparr>) p)))"

definition call_settle ::
  "pool_config \<Rightarrow> (call_tool_result \<Rightarrow> string \<Rightarrow> string option) \<Rightarrow> bool \<Rightarrow> worker_handle \<Rightarrow> string \<Rightarrow> duration \<Rightarrow>
   bool \<Rightarrow> string option \<Rightarrow> bool \<Rightarrow> execution \<Rightarrow> pool_inner \<Rightarrow> (tool_error + call_tool_result) option \<times> pool_inner" where
  "call_settle cfg db_path transport_closed h tool timeout tracks_open previous cancelled ex p =
     (let retired = snd (mark_dead_for_lease cfg (wh_slot h) (wh_lease_id h) p);
          settled = (\<lambda>result. if tracks_open
             then (case settle_open cfg db_path transport_closed h tool previous result p of (r, p1) \<Rightarrow> (Some r, p1))
             else (Some result, p))
      in if cancelled then (Some (Inl (WorkerRetired (cancelled_msg tool (wh_slot h)))), retired)
      else case ex of
        ExecDropped \<Rightarrow> (None, retired)
      | ExecTimedOut \<Rightarrow> (Some (Inl (WorkerRetired (overrun_msg tool timeout (wh_slot h)))), retired)
      | ExecReply (Inl (RemoteCall e)) \<Rightarrow> settled (Inl (RemoteCall e))
      | ExecReply (Inl e) \<Rightarrow> (Some (Inl (WorkerCrashed (wh_slot h) (tool @ '': '' @ display e))), retired)
      | ExecReply (Inr reply) \<Rightarrow>
          (case reply_retire_error tracks_open tool reply of
             Some e \<Rightarrow> (Some (Inl e), retired)
           | None \<Rightarrow> settled (Inr reply)))"

text \<open>
  The whole call: \<open>mid\<close> is what other tasks do while the child works, \<open>cancel_fires\<close> that
  the caller's token fires before the reply. A handle that preserves its worker does not
  watch the token once the request is dispatched, and a failed send is answered at once.
\<close>

definition call_tool_admitted ::
  "pool_config \<Rightarrow> (call_tool_result \<Rightarrow> string \<Rightarrow> string option) \<Rightarrow> bool \<Rightarrow> worker_handle \<Rightarrow> string \<Rightarrow> duration \<Rightarrow> duration \<Rightarrow>
   open_dispatch option \<Rightarrow> admission \<Rightarrow> (pool_inner \<Rightarrow> pool_inner) \<Rightarrow> bool \<Rightarrow> execution \<Rightarrow> pool_inner \<Rightarrow>
   (tool_error + call_tool_result) option \<times> pool_inner" where
  "call_tool_admitted cfg db_path transport_closed h tool timeout elapsed od adm mid cancel_fires ex p =
     (case call_admission h tool timeout od adm p of
        (Inl e, p1) \<Rightarrow> (Some (Inl e), p1)
      | (Inr (send_error, previous), p1) \<Rightarrow>
          call_settle cfg db_path transport_closed h tool (timeout - elapsed) (od \<noteq> None) previous
            (cancel_fires \<and> \<not> wh_preserve_on_cancel h)
            (case send_error of Some e \<Rightarrow> ExecReply (Inl e) | None \<Rightarrow> ex) (mid p1))"

section \<open>Releasing\<close>

datatype close_outcome =
    CloseReply "tool_error + call_tool_result"
  | CloseTimedOut

definition close_error_of :: "pool_config \<Rightarrow> close_outcome \<Rightarrow> tool_error option" where
  "close_error_of cfg out =
     (case out of
        CloseReply (Inr r) \<Rightarrow> if tr_is_error r \<noteq> Some True then None else result_error r ''close_idb''
      | CloseReply (Inl e) \<Rightarrow> Some e
      | CloseTimedOut \<Rightarrow> Some (Timeout (of_nat (as_secs (close_rpc_timeout cfg)))))"

fun release_failure :: "tool_error \<Rightarrow> tool_error" where
  "release_failure (RemoteCall e) =
     WorkerRetired (''close_idb returned a protocol error ('' @ show_int (ed_code e) @ '': '' @ ed_message e @
       ''), so its save could not be confirmed. The worker was retired; its database is no longer open and changes since the last save_idb may be lost'')"
| "release_failure e = e"

definition release_begin :: "worker_handle \<Rightarrow> pool_inner \<Rightarrow> bool \<times> pool_inner" where
  "release_begin h p =
     (if slot_belongs p (wh_slot h) (wh_lease_id h)
      then (True, with_slot (wh_slot h) (\<lambda>c. c\<lparr>pc_state := Closing (wh_lease_id h)\<rparr>) p)
      else (False, p))"

definition reset_idle :: "instant \<Rightarrow> pooled_child \<Rightarrow> pooled_child" where
  "reset_idle now c = c\<lparr>pc_state := Idle, pc_last_used := now, pc_idb_path := None, pc_pending_open_artifacts := None\<rparr>"

definition release_finish ::
  "pool_config \<Rightarrow> worker_handle \<Rightarrow> instant \<Rightarrow> tool_error option \<Rightarrow> pool_inner \<Rightarrow> (tool_error + unit) \<times> pool_inner" where
  "release_finish cfg h now close_error p =
     (case close_error of
        Some err \<Rightarrow>
          if release_error_retires_worker err
          then (Inl (release_failure err), snd (mark_dead_for_lease cfg (wh_slot h) (wh_lease_id h) p))
          else if slot_state p (wh_slot h) = Some Dead then (Inl err, p)
          else (Inr (), with_slot (wh_slot h) (reset_idle now) p)
      | None \<Rightarrow>
          if slot_state p (wh_slot h) = Some Dead then (Inr (), p)
          else (Inr (), with_slot (wh_slot h) (reset_idle now) p))"

definition release_inner ::
  "pool_config \<Rightarrow> worker_handle \<Rightarrow> close_outcome \<Rightarrow> instant \<Rightarrow> (pool_inner \<Rightarrow> pool_inner) \<Rightarrow> pool_inner \<Rightarrow>
   (tool_error + unit) \<times> pool_inner" where
  "release_inner cfg h out now mid p =
     (case release_begin h p of
        (False, p1) \<Rightarrow> (Inr (), p1)
      | (True, p1) \<Rightarrow> release_finish cfg h now (close_error_of cfg out) (mid p1))"

section \<open>Shutdown\<close>

definition begin_drain :: "pool_inner \<Rightarrow> pool_inner" where
  "begin_drain p = p\<lparr>pi_stop_queued_calls := True\<rparr>"

definition begin_shutdown :: "pool_inner \<Rightarrow> pool_inner" where
  "begin_shutdown p = (begin_drain p)\<lparr>pi_shutting_down := True\<rparr>"

text \<open>\<open>wait_startups\<close> is what the remaining startups do until none is left.\<close>

definition shutdown_all :: "pool_config \<Rightarrow> (pool_inner \<Rightarrow> pool_inner) \<Rightarrow> pool_inner \<Rightarrow> pool_inner" where
  "shutdown_all cfg wait_startups p =
     (let p1 = wait_startups (begin_shutdown p)
      in fold (mark_dead_without_replacement cfg) (pi_children p1) p1)"

end
