(* ===== verification/Pool_Contract.thy ===== *)
theory Pool_Contract
  imports Worker_Pool
begin

text \<open>
  The worker pool as a transition system over its critical sections, and what the pool
  promises: never more live or starting workers than \<open>max_workers\<close>, leases that no two
  workers share and that never come back once they ended, dead workers that stay dead, and
  a shutdown that leaves no live worker.

  Beside the pool, the system state has what the suspended tasks hold: \<open>sy_scanning\<close> the
  lease calls between allocating their id and obtaining a worker, \<open>sy_starting\<close> the workers
  being started with the state they will have, \<open>sy_releasing\<close> the releases that wait for
  the child's \<open>close_idb\<close> under the slot's call lock.
\<close>

section \<open>The system\<close>

record pool_sys =
  sy_pool :: pool_inner
  sy_scanning :: "(u64 \<times> string) list"
  sy_starting :: "(usize \<times> child_state) list"
  sy_releasing :: "(usize \<times> u64) list"

abbreviation drop_key :: "'a \<Rightarrow> ('a \<times> 'b) list \<Rightarrow> ('a \<times> 'b) list" where
  "drop_key k xs \<equiv> filter (\<lambda>x. fst x \<noteq> k) xs"

definition starting_idle :: "usize list \<Rightarrow> (usize \<times> child_state) list" where
  "starting_idle ws = map (\<lambda>w. (w, Idle)) ws"

definition after_scan :: "pool_sys \<Rightarrow> u64 \<Rightarrow> string \<Rightarrow> scan_outcome \<times> pool_inner \<Rightarrow> pool_sys" where
  "after_scan s l session r =
     (case r of
        (ScanWait, p) \<Rightarrow> s\<lparr>sy_pool := p\<rparr>
      | (ScanReserved w, p) \<Rightarrow> s\<lparr>sy_pool := p, sy_scanning := drop_key l (sy_scanning s),
                                 sy_starting := sy_starting s @ [(w, Leased session l)]\<rparr>
      | (_, p) \<Rightarrow> s\<lparr>sy_pool := p, sy_scanning := drop_key l (sy_scanning s)\<rparr>)"

inductive pool_step :: "pool_config \<Rightarrow> pool_sys \<Rightarrow> pool_sys \<Rightarrow> bool" for cfg where
  lease_start: "alloc_lease_id (sy_pool s) = (Inr l, p) \<Longrightarrow>
     pool_step cfg s (s\<lparr>sy_pool := p, sy_scanning := sy_scanning s @ [(l, session)]\<rparr>)"
| lease_turn: "(l, session) \<in> set (sy_scanning s) \<Longrightarrow>
     pool_step cfg s (after_scan s l session (lease_scan cfg session l now (sy_pool s)))"
| lease_dropped: "pool_step cfg s (s\<lparr>sy_scanning := drop_key l (sy_scanning s)\<rparr>)"
| start_finished: "(w, st) \<in> set (sy_starting s) \<Longrightarrow> pc_state c = st \<Longrightarrow>
     pool_step cfg s (s\<lparr>sy_pool := snd (finish_spawn_reservation w (Some c) (sy_pool s)),
                        sy_starting := drop_key w (sy_starting s)\<rparr>)"
| start_failed: "(w, st) \<in> set (sy_starting s) \<Longrightarrow>
     pool_step cfg s (s\<lparr>sy_pool := snd (finish_spawn_reservation w None (sy_pool s)),
                        sy_starting := drop_key w (sy_starting s)\<rparr>)"
| replenished: "schedule_replenishment cfg (sy_pool s) = (ws, p) \<Longrightarrow>
     pool_step cfg s (s\<lparr>sy_pool := p, sy_starting := sy_starting s @ starting_idle ws\<rparr>)"
| lease_killed: "take_lease_worker w l (sy_pool s) = (Some d, p) \<Longrightarrow>
     pool_step cfg s (s\<lparr>sy_pool := log_cleanup w d p\<rparr>)"
| worker_killed: "take_dead_worker w (sy_pool s) = (Some d, p) \<Longrightarrow>
     w \<in> set (pi_children (sy_pool s)) \<Longrightarrow> pool_step cfg s (s\<lparr>sy_pool := log_cleanup w d p\<rparr>)"
| idle_reaped: "take_stale_idle_worker_if_above_min cfg w t (sy_pool s) = (Some d, p) \<Longrightarrow>
     pool_step cfg s (s\<lparr>sy_pool := log_cleanup w d p\<rparr>)"
| forgotten: "slot_state (sy_pool s) w = Some Dead \<Longrightarrow>
     pool_step cfg s (s\<lparr>sy_pool := forget_slot w (sy_pool s)\<rparr>)"
| dispatched: "call_admission h tool timeout od adm (sy_pool s) = (Inr r, p) \<Longrightarrow>
     pool_step cfg s (s\<lparr>sy_pool := p\<rparr>)"
| open_settled: "slot_belongs (sy_pool s) w l \<Longrightarrow>
     pool_step cfg s (s\<lparr>sy_pool := with_slot w
        (\<lambda>c. c\<lparr>pc_idb_path := path, pc_pending_open_artifacts := None\<rparr>) (sy_pool s)\<rparr>)"
| release_started: "release_begin h (sy_pool s) = (True, p) \<Longrightarrow> wh_slot h \<notin> fst ` set (sy_releasing s) \<Longrightarrow>
     pool_step cfg s (s\<lparr>sy_pool := p, sy_releasing := sy_releasing s @ [(wh_slot h, wh_lease_id h)]\<rparr>)"
| release_finished: "(w, l) \<in> set (sy_releasing s) \<Longrightarrow>
     pool_step cfg s (s\<lparr>sy_pool := if slot_state (sy_pool s) w = Some Dead then sy_pool s
                                   else with_slot w (reset_idle now) (sy_pool s),
                        sy_releasing := drop_key w (sy_releasing s)\<rparr>)"
| release_ended: "pool_step cfg s (s\<lparr>sy_releasing := drop_key w (sy_releasing s)\<rparr>)"
| drained: "pool_step cfg s (s\<lparr>sy_pool := begin_drain (sy_pool s)\<rparr>)"
| shut_down: "pool_step cfg s (s\<lparr>sy_pool := begin_shutdown (sy_pool s)\<rparr>)"

inductive_cases pool_stepE: "pool_step cfg s s'"

text \<open>The pool is shared only after \<open>warm_min\<close> has run.\<close>

definition pool_start :: "pool_config \<Rightarrow> pool_sys \<Rightarrow> bool" where
  "pool_start cfg s \<longleftrightarrow> (\<exists>outs. sy_pool s = snd (warm_min cfg outs pool_new))
     \<and> sy_scanning s = [] \<and> sy_starting s = [] \<and> sy_releasing s = []"

section \<open>The invariant\<close>

text \<open>Who holds a lease id: a slot, a worker being started, or a lease call still waiting.\<close>

datatype holder = HSlot usize | HStart usize | HScan

fun holds :: "pool_sys \<Rightarrow> holder \<Rightarrow> u64 \<Rightarrow> bool" where
  "holds s (HSlot w) l \<longleftrightarrow> slot_belongs (sy_pool s) w l"
| "holds s (HStart w) l \<longleftrightarrow> (\<exists>st. (w, st) \<in> set (sy_starting s) \<and> belongs_to_lease st l)"
| "holds s HScan l \<longleftrightarrow> l \<in> fst ` set (sy_scanning s)"

definition leases_ok :: "pool_sys \<Rightarrow> bool" where
  "leases_ok s \<longleftrightarrow> (\<forall>h h' l. holds s h l \<longrightarrow> holds s h' l \<longrightarrow> h = h')
     \<and> (\<forall>h l. holds s h l \<longrightarrow> l \<le> pi_next_lease_id (sy_pool s))"

definition ids_ok :: "pool_inner \<Rightarrow> bool" where
  "ids_ok p \<longleftrightarrow> hm_wf (pi_slots p)
     \<and> distinct (pi_children p) \<and> distinct (pi_spawning p)
     \<and> (\<forall>w \<in> set (pi_children p). slot_state p w \<noteq> None)
     \<and> (\<forall>w \<in> set (pi_spawning p). slot_state p w = None \<and> w < pi_next_id p)
     \<and> (\<forall>w. slot_state p w \<noteq> None \<longrightarrow> w < pi_next_id p)
     \<and> (\<forall>w. slot_live p w \<longrightarrow> w \<in> set (pi_children p))"

definition releasing_ok :: "pool_sys \<Rightarrow> bool" where
  "releasing_ok s \<longleftrightarrow>
     (\<forall>(w, l) \<in> set (sy_releasing s). slot_state (sy_pool s) w \<in> {Some (Closing l), Some Dead})"

definition pool_inv :: "pool_config \<Rightarrow> pool_sys \<Rightarrow> bool" where
  "pool_inv cfg s \<longleftrightarrow> ids_ok (sy_pool s) \<and> map fst (sy_starting s) = pi_spawning (sy_pool s)
     \<and> leases_ok s \<and> releasing_ok s \<and> live_count (sy_pool s) \<le> cf_max_workers cfg"

subsection \<open>The slot store\<close>

lemma slot_state_with_slot:
  "slot_state (with_slot w f p) w' =
     (if w' = w then map_option (\<lambda>c. pc_state (f c)) (hm_get (pi_slots p) w) else slot_state p w')"
  by (auto simp: slot_state_def with_slot_def hm_get_def hm_modify_def map_of_map_snd map_option.compositionality comp_def)

lemma with_slot_frame [simp]:
  "pi_children (with_slot w f p) = pi_children p" "pi_spawning (with_slot w f p) = pi_spawning p"
  "pi_next_id (with_slot w f p) = pi_next_id p" "pi_next_lease_id (with_slot w f p) = pi_next_lease_id p"
  "pi_shutting_down (with_slot w f p) = pi_shutting_down p"
  "hm_wf (pi_slots (with_slot w f p)) \<longleftrightarrow> hm_wf (pi_slots p)"
  by (simp_all add: with_slot_def hm_wf_def hm_modify_def comp_def)

lemma slot_live_state: "slot_live p w \<longleftrightarrow> (\<exists>st. slot_state p w = Some st \<and> st \<noteq> Dead)"
  by (auto simp: slot_live_def)

lemma slot_belongs_state: "slot_belongs p w l \<longleftrightarrow> (\<exists>st. slot_state p w = Some st \<and> belongs_to_lease st l)"
  by (auto simp: slot_belongs_def split: option.splits)

text \<open>Pools with the same bookkeeping that differ in the state of one slot only.\<close>

definition frame_eq :: "pool_inner \<Rightarrow> pool_inner \<Rightarrow> bool" where
  "frame_eq p p' \<longleftrightarrow> pi_children p' = pi_children p \<and> pi_spawning p' = pi_spawning p
     \<and> pi_next_id p' = pi_next_id p \<and> pi_next_lease_id p' = pi_next_lease_id p
     \<and> (hm_wf (pi_slots p) \<longrightarrow> hm_wf (pi_slots p'))"

lemma length_filter_mono: "(\<And>x. x \<in> set xs \<Longrightarrow> P x \<Longrightarrow> Q x) \<Longrightarrow> length (filter P xs) \<le> length (filter Q xs)"
  by (induction xs) auto

lemma live_count_frame:
  assumes "frame_eq p p'" "\<And>w. slot_live p' w \<Longrightarrow> slot_live p w"
  shows "live_count p' \<le> live_count p"
  using assms by (simp add: live_count_def frame_eq_def length_filter_mono)

lemma ids_ok_frame:
  assumes "ids_ok p" "frame_eq p p'" "\<And>w. slot_state p' w = None \<longleftrightarrow> slot_state p w = None"
    "\<And>w. slot_live p' w \<Longrightarrow> slot_live p w"
  shows "ids_ok p'"
  using assms unfolding ids_ok_def frame_eq_def by simp

text \<open>
  Leases only move between holders: when every holder of the new state takes over from a
  holder of the old state, no two from the same one, leases stay unique.
\<close>

lemma leases_ok_transfer:
  assumes "leases_ok s" and "pi_next_lease_id (sy_pool s) \<le> pi_next_lease_id (sy_pool s')"
    and "\<And>h l. holds s' h l \<Longrightarrow> holds s (g h) l"
    and "\<And>h h' l. holds s' h l \<Longrightarrow> holds s' h' l \<Longrightarrow> g h = g h' \<Longrightarrow> h = h'"
  shows "leases_ok s'"
  unfolding leases_ok_def
proof (intro conjI allI impI)
  fix h h' l assume "holds s' h l" "holds s' h' l"
  then show "h = h'" using assms(1,3,4) unfolding leases_ok_def by metis
next
  fix h l assume "holds s' h l"
  then show "l \<le> pi_next_lease_id (sy_pool s')" using assms(1,2,3) unfolding leases_ok_def by (meson order_trans)
qed

lemma leases_ok_mono:
  assumes "leases_ok s" "pi_next_lease_id (sy_pool s) \<le> pi_next_lease_id (sy_pool s')"
    "\<And>h l. holds s' h l \<Longrightarrow> holds s h l"
  shows "leases_ok s'"
  using leases_ok_transfer [OF assms(1,2), of "\<lambda>h. h"] assms(3) by simp

subsection \<open>Changing the state of one slot\<close>

lemma pool_inv_one_slot:
  assumes inv: "pool_inv cfg s" and w: "slot_state (sy_pool s) w = Some st" "st' = Dead \<or> st \<noteq> Dead"
    and p': "frame_eq (sy_pool s) p'" "\<And>w'. slot_state p' w' = (if w' = w then Some st' else slot_state (sy_pool s) w')"
    and lease: "\<And>l. belongs_to_lease st' l \<Longrightarrow> belongs_to_lease st l"
    and rel: "\<And>l. (w, l) \<in> set rl \<Longrightarrow> st' = Dead \<or> st' = Closing l"
      "\<And>v l. v \<noteq> w \<Longrightarrow> (v, l) \<in> set rl \<Longrightarrow> (v, l) \<in> set (sy_releasing s)"
  shows "pool_inv cfg (s\<lparr>sy_pool := p', sy_releasing := rl\<rparr>)"
proof -
  let ?s = "s\<lparr>sy_pool := p', sy_releasing := rl\<rparr>"
  have live: "slot_live p' v \<Longrightarrow> slot_live (sy_pool s) v" for v
    using w p'(2) [of v] by (auto simp: slot_live_state split: if_splits)
  have "ids_ok p'"
    using ids_ok_frame [OF _ p'(1) _ live] inv w p'(2) by (auto simp: pool_inv_def)
  moreover have "live_count p' \<le> cf_max_workers cfg"
    using live_count_frame [OF p'(1) live] inv by (simp add: pool_inv_def)
  moreover have "leases_ok ?s"
  proof (rule leases_ok_mono)
    show "leases_ok s" using inv by (simp add: pool_inv_def)
    show "pi_next_lease_id (sy_pool s) \<le> pi_next_lease_id (sy_pool ?s)" using p'(1) by (simp add: frame_eq_def)
    fix h l assume "holds ?s h l"
    then show "holds s h l" using w p'(2) lease by (cases h) (auto simp: slot_belongs_state split: if_splits)
  qed
  moreover have "releasing_ok ?s"
    using inv rel p'(2) unfolding pool_inv_def releasing_ok_def by fastforce
  ultimately show ?thesis using inv p'(1) by (simp add: pool_inv_def frame_eq_def)
qed

lemma releasing_same: "s\<lparr>sy_pool := p, sy_releasing := sy_releasing s\<rparr> = s\<lparr>sy_pool := p\<rparr>"
  by (cases s) simp

lemmas pool_inv_one_slot_same = pool_inv_one_slot [where rl = "sy_releasing s" and s = s for s, unfolded releasing_same]

lemma log_cleanup_frame [simp]:
  "pi_slots (log_cleanup w d p) = pi_slots p" "pi_children (log_cleanup w d p) = pi_children p"
  "pi_spawning (log_cleanup w d p) = pi_spawning p" "pi_next_id (log_cleanup w d p) = pi_next_id p"
  "pi_next_lease_id (log_cleanup w d p) = pi_next_lease_id p"
  "pi_shutting_down (log_cleanup w d p) = pi_shutting_down p"
  "slot_state (log_cleanup w d p) w' = slot_state p w'" "slot_live (log_cleanup w d p) w' = slot_live p w'"
  "slot_belongs (log_cleanup w d p) w' l = slot_belongs p w' l"
  by (simp_all add: log_cleanup_def slot_state_def slot_live_def slot_belongs_def)

lemma take_worker_ifD:
  assumes "take_worker_if P w p = (Some d, p1)"
  shows "\<exists>c. hm_get (pi_slots p) w = Some c \<and> P c \<and> p1 = with_slot w (\<lambda>c. fst (take_dead_worker_locked c)) p"
  using assms by (auto simp: take_worker_if_def split: option.splits if_splits)

lemma take_worker_if_slot:
  assumes "take_worker_if P w p = (Some d, p1)"
  shows "slot_state p1 w' = (if w' = w then Some Dead else slot_state p w')"
    and "frame_eq p p1" and "\<exists>st. slot_state p w = Some st" and "pi_shutting_down p1 = pi_shutting_down p"
proof -
  from take_worker_ifD [OF assms] obtain c where c: "hm_get (pi_slots p) w = Some c"
    and p1: "p1 = with_slot w (\<lambda>c. fst (take_dead_worker_locked c)) p" by blast
  show "slot_state p1 w' = (if w' = w then Some Dead else slot_state p w')"
    using c by (simp add: p1 slot_state_with_slot take_dead_worker_locked_def)
  show "frame_eq p p1" and "pi_shutting_down p1 = pi_shutting_down p" by (simp_all add: p1 frame_eq_def)
  show "\<exists>st. slot_state p w = Some st" using c by (simp add: slot_state_def)
qed

lemma pool_inv_killed:
  assumes inv: "pool_inv cfg s" and kill: "take_worker_if P w (sy_pool s) = (Some d, p1)"
  shows "pool_inv cfg (s\<lparr>sy_pool := log_cleanup w d p1\<rparr>)"
proof -
  from take_worker_if_slot(3) [OF kill] obtain st where st: "slot_state (sy_pool s) w = Some st" by blast
  show ?thesis
    by (rule pool_inv_one_slot_same [OF inv st, of Dead])
      (use take_worker_if_slot [OF kill] inv in \<open>auto simp: frame_eq_def pool_inv_def releasing_ok_def\<close>)
qed

lemma with_slot_one:
  assumes "slot_state p w = Some st" "\<And>c. pc_state (f c) = g (pc_state c)"
  shows "slot_state (with_slot w f p) w' = (if w' = w then Some (g st) else slot_state p w')"
proof -
  from assms(1) obtain c where "hm_get (pi_slots p) w = Some c" "pc_state c = st" by (auto simp: slot_state_def)
  then show ?thesis using assms(2) by (simp add: slot_state_with_slot)
qed

lemma frame_eq_with_slot [simp]: "frame_eq p (with_slot w f p)"
  by (simp add: frame_eq_def)

text \<open>Updates of a slot that leave its state alone.\<close>

lemma pool_inv_data:
  assumes inv: "pool_inv cfg s" and f: "\<And>c. pc_state (f c) = pc_state c"
  shows "pool_inv cfg (s\<lparr>sy_pool := with_slot w f (sy_pool s)\<rparr>)"
proof (cases "slot_state (sy_pool s) w")
  case None
  then have "with_slot w f (sy_pool s) = sy_pool s"
    by (force simp: with_slot_def hm_modify_def slot_state_def hm_get_def map_of_eq_None_iff
        intro!: pool_inner.equality map_idI)
  with inv show ?thesis by (cases s) simp
next
  case (Some st)
  show ?thesis
    by (rule pool_inv_one_slot_same [OF inv Some, of st])
      (use with_slot_one [OF Some, of f "\<lambda>x. x"] f inv Some in \<open>auto simp: pool_inv_def releasing_ok_def\<close>)
qed

lemma pool_inv_release_start:
  assumes inv: "pool_inv cfg s" and rb: "release_begin h (sy_pool s) = (True, p)"
    and free: "wh_slot h \<notin> fst ` set (sy_releasing s)"
  shows "pool_inv cfg (s\<lparr>sy_pool := p, sy_releasing := sy_releasing s @ [(wh_slot h, wh_lease_id h)]\<rparr>)"
proof -
  have b: "slot_belongs (sy_pool s) (wh_slot h) (wh_lease_id h)"
    and p: "p = with_slot (wh_slot h) (\<lambda>c. c\<lparr>pc_state := Closing (wh_lease_id h)\<rparr>) (sy_pool s)"
    using rb by (auto simp: release_begin_def split: if_splits)
  then obtain st where st: "slot_state (sy_pool s) (wh_slot h) = Some st" "belongs_to_lease st (wh_lease_id h)"
    by (auto simp: slot_belongs_state)
  show ?thesis
    by (rule pool_inv_one_slot [OF inv st(1), of "Closing (wh_lease_id h)"])
      (use with_slot_one [OF st(1), of "\<lambda>c. c\<lparr>pc_state := Closing (wh_lease_id h)\<rparr>" "\<lambda>_. Closing (wh_lease_id h)"]
        free st(2) in \<open>auto simp: p image_iff\<close>)
qed

lemma pool_inv_release_end:
  assumes inv: "pool_inv cfg s"
  shows "pool_inv cfg (s\<lparr>sy_releasing := drop_key w (sy_releasing s)\<rparr>)"
proof -
  have "holds (s\<lparr>sy_releasing := r\<rparr>) h l \<longleftrightarrow> holds s h l" for r h l by (cases h) auto
  then show ?thesis using inv by (auto simp: pool_inv_def leases_ok_def releasing_ok_def)
qed

lemma pool_inv_release_finish:
  assumes inv: "pool_inv cfg s" and w: "(w, l) \<in> set (sy_releasing s)"
  shows "pool_inv cfg (s\<lparr>sy_pool := if slot_state (sy_pool s) w = Some Dead then sy_pool s
                                   else with_slot w (reset_idle now) (sy_pool s),
                        sy_releasing := drop_key w (sy_releasing s)\<rparr>)"
proof (cases "slot_state (sy_pool s) w = Some Dead")
  case True
  then show ?thesis using pool_inv_release_end [OF inv] by simp
next
  case False
  with inv w have st: "slot_state (sy_pool s) w = Some (Closing l)" by (force simp: pool_inv_def releasing_ok_def)
  have "pool_inv cfg (s\<lparr>sy_pool := with_slot w (reset_idle now) (sy_pool s),
                        sy_releasing := drop_key w (sy_releasing s)\<rparr>)"
    by (rule pool_inv_one_slot [OF inv st, of Idle])
      (use with_slot_one [OF st, of "reset_idle now" "\<lambda>_. Idle"] in \<open>auto simp: reset_idle_def\<close>)
  with False show ?thesis by simp
qed

subsection \<open>Reservations and startups\<close>

lemma reserveD:
  assumes "reserve_spawn_slot_locked p = (Inr w, p1)"
  shows "w = pi_next_id p" "\<not> pi_shutting_down p" "w < pi_next_id p1"
    "p1 = p\<lparr>pi_next_id := pi_next_id p1, pi_spawning := pi_spawning p @ [w]\<rparr>"
  using assms checked_add_one_less [of "pi_next_id p" "pi_next_id p1"]
  by (auto simp: reserve_spawn_slot_locked_def split: if_splits option.splits)

lemma slot_state_update [simp]:
  "slot_state (p\<lparr>pi_next_id := i\<rparr>) w = slot_state p w" "slot_state (p\<lparr>pi_spawning := x\<rparr>) w = slot_state p w"
  "slot_state (p\<lparr>pi_children := x\<rparr>) w = slot_state p w" "slot_state (p\<lparr>pi_next_lease_id := l\<rparr>) w = slot_state p w"
  "slot_state (p\<lparr>pi_shutting_down := b\<rparr>) w = slot_state p w" "slot_state (p\<lparr>pi_stop_queued_calls := b\<rparr>) w = slot_state p w"
  by (simp_all add: slot_state_def)

lemma slot_live_update [simp]:
  "slot_live (p\<lparr>pi_next_id := i\<rparr>) = slot_live p" "slot_live (p\<lparr>pi_spawning := x\<rparr>) = slot_live p"
  "slot_live (p\<lparr>pi_children := x\<rparr>) = slot_live p" "slot_live (p\<lparr>pi_next_lease_id := l\<rparr>) = slot_live p"
  "slot_live (p\<lparr>pi_shutting_down := b\<rparr>) = slot_live p" "slot_live (p\<lparr>pi_stop_queued_calls := b\<rparr>) = slot_live p"
  by (simp_all add: slot_live_def fun_eq_iff)

lemma slot_belongs_update [simp]:
  "slot_belongs (p\<lparr>pi_next_id := i\<rparr>) = slot_belongs p" "slot_belongs (p\<lparr>pi_spawning := x\<rparr>) = slot_belongs p"
  "slot_belongs (p\<lparr>pi_children := x\<rparr>) = slot_belongs p" "slot_belongs (p\<lparr>pi_next_lease_id := l\<rparr>) = slot_belongs p"
  "slot_belongs (p\<lparr>pi_shutting_down := b\<rparr>) = slot_belongs p" "slot_belongs (p\<lparr>pi_stop_queued_calls := b\<rparr>) = slot_belongs p"
  by (simp_all add: slot_belongs_def fun_eq_iff)

lemma ids_ok_reserve:
  assumes "ids_ok p" "reserve_spawn_slot_locked p = (Inr w, p1)"
  shows "ids_ok p1" "w \<notin> set (pi_spawning p)" "live_count p1 = Suc (live_count p)"
proof -
  note r = reserveD [OF assms(2)]
  have lt: "v < pi_next_id p \<Longrightarrow> v < pi_next_id p1" for v using r(1,3) by (meson less_trans)
  show "w \<notin> set (pi_spawning p)" using assms(1) r(1) by (auto simp: ids_ok_def)
  then show "ids_ok p1" using assms(1) r(1,3) lt
    by (subst r(4)) (auto simp: ids_ok_def)
  show "live_count p1 = Suc (live_count p)" by (subst r(4)) (simp add: live_count_def)
qed

lemma pool_inv_reserve:
  assumes inv: "pool_inv cfg s" and res: "reserve_spawn_slot_locked (sy_pool s) = (Inr w, p1)"
    and room: "live_count (sy_pool s) < cf_max_workers cfg"
    and sc: "set sc \<subseteq> set (sy_scanning s)"
      "\<And>l. belongs_to_lease st l \<Longrightarrow> l \<in> fst ` set (sy_scanning s) \<and> l \<notin> fst ` set sc"
  shows "pool_inv cfg (s\<lparr>sy_pool := p1, sy_scanning := sc, sy_starting := sy_starting s @ [(w, st)]\<rparr>)"
proof -
  let ?s = "s\<lparr>sy_pool := p1, sy_scanning := sc, sy_starting := sy_starting s @ [(w, st)]\<rparr>"
  note r = reserveD [OF res]
  have ids: "ids_ok p1" "w \<notin> set (pi_spawning (sy_pool s))" "live_count p1 = Suc (live_count (sy_pool s))"
    using ids_ok_reserve [OF _ res] inv by (auto simp: pool_inv_def)
  then have fresh: "(w, st') \<notin> set (sy_starting s)" for st'
    using inv unfolding pool_inv_def by (metis fst_conv image_eqI set_map)
  have slots: "slot_belongs p1 v l = slot_belongs (sy_pool s) v l" "slot_state p1 v = slot_state (sy_pool s) v" for v l
    by (subst r(4); simp)+
  have next_same: "pi_next_lease_id p1 = pi_next_lease_id (sy_pool s)" by (subst r(4)) simp
  have "leases_ok ?s"
  proof (rule leases_ok_transfer [where s = s and g = "\<lambda>h. if h = HStart w then HScan else h"])
    show "leases_ok s" using inv by (simp add: pool_inv_def)
    show "pi_next_lease_id (sy_pool s) \<le> pi_next_lease_id (sy_pool ?s)" by (simp add: next_same)
    fix h h' l assume h: "holds ?s h l"
    show "holds s (if h = HStart w then HScan else h) l"
      using h fresh sc by (cases h) (auto simp: slots)
    assume "holds ?s h' l" "(if h = HStart w then HScan else h) = (if h' = HStart w then HScan else h')"
    with h fresh sc show "h = h'" by (cases h; cases h') (auto split: if_splits)
  qed
  moreover have "releasing_ok ?s" using inv by (simp add: pool_inv_def releasing_ok_def slots)
  moreover have "pi_spawning p1 = pi_spawning (sy_pool s) @ [w]" by (subst r(4)) simp
  ultimately show ?thesis using inv ids room by (simp add: pool_inv_def)
qed

lemma pool_inv_children:
  assumes inv: "pool_inv cfg s" and P: "\<And>w. slot_live (sy_pool s) w \<Longrightarrow> P w"
  shows "pool_inv cfg (s\<lparr>sy_pool := (sy_pool s)\<lparr>pi_children := filter P (pi_children (sy_pool s))\<rparr>\<rparr>)"
proof -
  let ?p = "sy_pool s" and ?s = "s\<lparr>sy_pool := (sy_pool s)\<lparr>pi_children := filter P (pi_children (sy_pool s))\<rparr>\<rparr>"
  have "holds ?s h l \<longleftrightarrow> holds s h l" for h l by (cases h) simp_all
  moreover have "filter (slot_live ?p) (filter P (pi_children ?p)) = filter (slot_live ?p) (pi_children ?p)"
    using P by (auto intro: filter_cong)
  ultimately show ?thesis using inv P
    by (auto simp: pool_inv_def leases_ok_def releasing_ok_def ids_ok_def live_count_def)
qed

lemma live_count_children: "live_count (p\<lparr>pi_children := filter (\<lambda>w. slot_state p w \<noteq> Some Dead) (pi_children p)\<rparr>) = live_count p"
  by (simp add: live_count_def slot_live_def conj_commute cong: filter_cong conj_cong)

lemma pool_inv_start_done:
  assumes inv: "pool_inv cfg s" and w: "(w, st) \<in> set (sy_starting s)"
    and slots: "\<And>v. slot_state p' v = (if v = w then x else slot_state (sy_pool s) v)"
    and x: "\<And>st' l. x = Some st' \<Longrightarrow> belongs_to_lease st' l \<Longrightarrow> belongs_to_lease st l"
    and kids: "pi_children p' = pi_children (sy_pool s) @ (if slot_live p' w \<or> kept \<and> x \<noteq> None then [w] else [])"
    and frame: "pi_spawning p' = filter (\<lambda>v. v \<noteq> w) (pi_spawning (sy_pool s))" "hm_wf (pi_slots p')"
      "pi_next_id p' = pi_next_id (sy_pool s)" "pi_next_lease_id p' = pi_next_lease_id (sy_pool s)"
  shows "pool_inv cfg (s\<lparr>sy_pool := p', sy_starting := drop_key w (sy_starting s)\<rparr>)"
proof -
  let ?p = "sy_pool s" and ?s = "s\<lparr>sy_pool := p', sy_starting := drop_key w (sy_starting s)\<rparr>"
  have ids: "ids_ok ?p" and sp: "map fst (sy_starting s) = pi_spawning ?p" using inv by (auto simp: pool_inv_def)
  have wsp: "w \<in> set (pi_spawning ?p)" using w sp by (metis fst_conv image_eqI set_map)
  then have none: "slot_state ?p w = None" and lt: "w < pi_next_id ?p" using ids by (auto simp: ids_ok_def)
  then have wk: "w \<notin> set (pi_children ?p)" using ids by (auto simp: ids_ok_def)
  have "ids_ok p'" using ids lt wk slots frame kids
    by (auto simp: ids_ok_def slot_live_def split: if_splits)
  moreover have "leases_ok ?s"
  proof (rule leases_ok_transfer [where s = s and g = "\<lambda>h. if h = HSlot w then HStart w else h"])
    show "leases_ok s" using inv by (simp add: pool_inv_def)
    show "pi_next_lease_id (sy_pool s) \<le> pi_next_lease_id (sy_pool ?s)" by (simp add: frame)
    fix h h' l assume h: "holds ?s h l"
    show "holds s (if h = HSlot w then HStart w else h) l"
      using h w x slots by (cases h) (auto simp: slot_belongs_state split: if_splits)
    assume "holds ?s h' l" "(if h = HSlot w then HStart w else h) = (if h' = HSlot w then HStart w else h')"
    with h show "h = h'" by (cases h; cases h') (auto split: if_splits)
  qed
  moreover have "releasing_ok ?s"
    using inv none slots unfolding pool_inv_def releasing_ok_def by fastforce
  moreover have "live_count p' \<le> live_count ?p"
  proof -
    have "filter (slot_live p') (pi_children ?p) = filter (slot_live ?p) (pi_children ?p)"
      by (rule filter_cong [OF refl]) (use wk slots in \<open>auto simp: slot_live_def\<close>)
    moreover have "Suc (length (filter (\<lambda>v. v \<noteq> w) (pi_spawning ?p))) = length (pi_spawning ?p)"
      using wsp ids length_filter_fst_neq [of "map (\<lambda>v. (v, ())) (pi_spawning ?p)" w]
      by (simp add: ids_ok_def comp_def filter_map map_of_eq_None_iff image_iff)
    ultimately show ?thesis by (simp add: live_count_def kids frame)
  qed
  moreover have "map fst (drop_key w (sy_starting s)) = pi_spawning p'"
    using sp frame(1) by (simp add: filter_map comp_def flip: sp)
  ultimately show ?thesis using inv by (simp add: pool_inv_def)
qed

lemma finish_some_slots:
  assumes "hm_wf (pi_slots p)"
  shows "slot_state (p\<lparr>pi_slots := hm_insert w c (pi_slots p)\<rparr>) v = (if v = w then Some (pc_state c) else slot_state p v)"
    and "hm_wf (hm_insert w c (pi_slots p))"
  using assms by (simp_all add: slot_state_def hm.get_ins hm.wf_ins)

lemma pool_inv_start_failed:
  assumes inv: "pool_inv cfg s" and w: "(w, st) \<in> set (sy_starting s)"
  shows "pool_inv cfg (s\<lparr>sy_pool := snd (finish_spawn_reservation w None (sy_pool s)),
                        sy_starting := drop_key w (sy_starting s)\<rparr>)"
proof -
  have "w \<in> set (pi_spawning (sy_pool s))" using inv w unfolding pool_inv_def by (metis fst_conv image_eqI set_map)
  then have none: "slot_state (sy_pool s) w = None" using inv by (auto simp: pool_inv_def ids_ok_def)
  show ?thesis
    by (rule pool_inv_start_done [OF inv w, where x = None and kept = False])
      (use inv none in \<open>auto simp: finish_spawn_reservation_def Let_def pool_inv_def ids_ok_def slot_live_def\<close>)
qed

lemma discard_state:
  "slot_state (discard_uninstalled_slot w p) v = (if v = w \<and> slot_state p w \<noteq> None then Some Dead else slot_state p v)"
  "pi_children (discard_uninstalled_slot w p) = filter (\<lambda>c. c \<noteq> w) (pi_children p)"
  "pi_spawning (discard_uninstalled_slot w p) = pi_spawning p"
  "pi_next_id (discard_uninstalled_slot w p) = pi_next_id p"
  "pi_next_lease_id (discard_uninstalled_slot w p) = pi_next_lease_id p"
  "hm_wf (pi_slots p) \<Longrightarrow> hm_wf (pi_slots (discard_uninstalled_slot w p))"
  by (auto simp: discard_uninstalled_slot_def take_dead_worker_def take_worker_if_def forget_slot_def
      slot_state_with_slot take_dead_worker_locked_def split: option.splits)
    (auto simp: slot_state_def)

lemma pool_inv_start_finished:
  assumes inv: "pool_inv cfg s" and w: "(w, pc_state c) \<in> set (sy_starting s)"
  shows "pool_inv cfg (s\<lparr>sy_pool := snd (finish_spawn_reservation w (Some c) (sy_pool s)),
                        sy_starting := drop_key w (sy_starting s)\<rparr>)"
proof -
  let ?p = "sy_pool s"
  have ids: "ids_ok ?p" and wf: "hm_wf (pi_slots ?p)" using inv by (auto simp: pool_inv_def ids_ok_def)
  have "w \<in> set (pi_spawning ?p)" using inv w unfolding pool_inv_def by (metis fst_conv image_eqI set_map)
  then have none: "slot_state ?p w = None" using ids by (auto simp: ids_ok_def)
  then have kid: "w \<notin> set (pi_children ?p)" using ids by (auto simp: ids_ok_def)
  show ?thesis
  proof (cases "pi_shutting_down ?p")
    case True
    show ?thesis
      by (rule pool_inv_start_done [OF inv w, where x = "Some Dead" and kept = False])
        (use True kid wf in \<open>auto simp: finish_spawn_reservation_def Let_def discard_state finish_some_slots slot_live_def filter_id_conv\<close>)
  next
    case False
    show ?thesis
      by (rule pool_inv_start_done [OF inv w, where x = "Some (pc_state c)" and kept = True])
        (use False wf in \<open>auto simp: finish_spawn_reservation_def Let_def finish_some_slots slot_live_def\<close>)
  qed
qed

lemma live_count_le: "live_count p \<le> length (pi_spawning p) + length (pi_children p)"
  by (simp add: live_count_def)

lemma reserve_error_same: "reserve_spawn_slot_locked p = (Inl e, p1) \<Longrightarrow> p1 = p"
  by (auto simp: reserve_spawn_slot_locked_def split: if_splits option.splits)

lemma pool_inv_replenish_loop:
  assumes "pool_inv cfg s" "target \<le> cf_max_workers cfg" "replenish_loop n target (sy_pool s) = (ws, p)"
  shows "pool_inv cfg (s\<lparr>sy_pool := p, sy_starting := sy_starting s @ starting_idle ws\<rparr>)"
  using assms
proof (induction n arbitrary: s ws p)
  case 0
  then show ?case by (cases s) (simp add: starting_idle_def)
next
  case (Suc n)
  show ?case
  proof (cases "\<exists>w p1. reserve_spawn_slot_locked (sy_pool s) = (Inr w, p1)
      \<and> \<not> pi_shutting_down (sy_pool s) \<and> length (pi_spawning (sy_pool s)) + length (pi_children (sy_pool s)) < target")
    case False
    with Suc.prems have "ws = [] \<and> p = sy_pool s"
      by (auto simp: reserve_error_same split: if_splits sum.splits prod.splits)
    with Suc.prems show ?thesis by (cases s) (simp add: starting_idle_def)
  next
    case True
    then obtain w p1 where res: "reserve_spawn_slot_locked (sy_pool s) = (Inr w, p1)"
      and guard: "\<not> pi_shutting_down (sy_pool s)" "length (pi_spawning (sy_pool s)) + length (pi_children (sy_pool s)) < target"
      by blast
    let ?s = "s\<lparr>sy_pool := p1, sy_starting := sy_starting s @ [(w, Idle)]\<rparr>"
    have "s\<lparr>sy_pool := p1, sy_scanning := sy_scanning s, sy_starting := sy_starting s @ [(w, Idle)]\<rparr> = ?s" by simp
    moreover have "live_count (sy_pool s) < cf_max_workers cfg"
      using live_count_le [of "sy_pool s"] guard(2) Suc.prems(2) by simp
    ultimately have inv: "pool_inv cfg ?s"
      using pool_inv_reserve [OF Suc.prems(1) res, of "sy_scanning s" Idle] by simp
    from Suc.prems(3) res guard obtain ws' where ws: "ws = w # ws'" "replenish_loop n target p1 = (ws', p)"
      by (auto split: prod.splits)
    from Suc.IH [OF inv Suc.prems(2), of ws' p] ws
    show ?thesis by (simp add: starting_idle_def)
  qed
qed

lemma pool_inv_replenished:
  assumes "pool_inv cfg s" "schedule_replenishment cfg (sy_pool s) = (ws, p)"
  shows "pool_inv cfg (s\<lparr>sy_pool := p, sy_starting := sy_starting s @ starting_idle ws\<rparr>)"
  by (rule pool_inv_replenish_loop [OF assms(1) _ assms(2) [unfolded schedule_replenishment_def Let_def]]) simp

subsection \<open>Leasing\<close>

lemma pool_inv_scanning_drop:
  assumes "pool_inv cfg s"
  shows "pool_inv cfg (s\<lparr>sy_scanning := drop_key l (sy_scanning s)\<rparr>)"
proof -
  let ?s = "s\<lparr>sy_scanning := drop_key l (sy_scanning s)\<rparr>"
  have "leases_ok ?s"
  proof (rule leases_ok_mono)
    show "leases_ok s" using assms by (simp add: pool_inv_def)
    fix h k assume "holds ?s h k"
    then show "holds s h k" by (cases h) auto
  qed simp
  then show ?thesis using assms by (simp add: pool_inv_def releasing_ok_def)
qed

lemma pool_inv_lease_start:
  assumes inv: "pool_inv cfg s" and al: "alloc_lease_id (sy_pool s) = (Inr l, p)"
  shows "pool_inv cfg (s\<lparr>sy_pool := p, sy_scanning := sy_scanning s @ [(l, session)]\<rparr>)"
proof -
  let ?s = "s\<lparr>sy_pool := p, sy_scanning := sy_scanning s @ [(l, session)]\<rparr>"
  have p: "p = (sy_pool s)\<lparr>pi_next_lease_id := l\<rparr>" and lt: "pi_next_lease_id (sy_pool s) < l"
    using al checked_add_one_less [of "pi_next_lease_id (sy_pool s)" l]
    by (auto simp: alloc_lease_id_def split: option.splits)
  have old: "leases_ok s" using inv by (simp add: pool_inv_def)
  have fresh: "\<not> holds s h l" for h
  proof
    assume "holds s h l"
    then have "l \<le> pi_next_lease_id (sy_pool s)" using old by (auto simp: leases_ok_def)
    with lt show False by simp
  qed
  have cases: "holds s h k \<or> h = HScan \<and> k = l" if "holds ?s h k" for h k
    using that by (cases h) (auto simp: p)
  have "leases_ok ?s"
    unfolding leases_ok_def
  proof (intro conjI allI impI)
    fix h h' k assume "holds ?s h k" "holds ?s h' k"
    then show "h = h'" using cases [of h k] cases [of h' k] fresh old unfolding leases_ok_def by blast
  next
    fix h k assume "holds ?s h k"
    then have "k \<le> pi_next_lease_id (sy_pool s) \<or> k = l" using cases [of h k] old unfolding leases_ok_def by blast
    then show "k \<le> pi_next_lease_id (sy_pool ?s)" using lt by (auto simp: p)
  qed
  then show ?thesis using inv by (simp add: p pool_inv_def ids_ok_def releasing_ok_def live_count_def)
qed

lemma pool_inv_leased:
  assumes inv: "pool_inv cfg s" and l: "(l, session) \<in> set (sy_scanning s)"
    and idle: "slot_state (sy_pool s) w = Some Idle"
  shows "pool_inv cfg (s\<lparr>sy_pool := with_slot w (lease_slot session l now) (sy_pool s),
                        sy_scanning := drop_key l (sy_scanning s)\<rparr>)"
proof -
  let ?p = "with_slot w (lease_slot session l now) (sy_pool s)"
  let ?s = "s\<lparr>sy_pool := ?p, sy_scanning := drop_key l (sy_scanning s)\<rparr>"
  have slots: "slot_state ?p v = (if v = w then Some (Leased session l) else slot_state (sy_pool s) v)" for v
    using with_slot_one [OF idle, of "lease_slot session l now" "\<lambda>_. Leased session l"] by (simp add: lease_slot_def)
  have live: "slot_live ?p v \<Longrightarrow> slot_live (sy_pool s) v" for v
    using idle slots [of v] by (auto simp: slot_live_state split: if_splits)
  have "leases_ok ?s"
  proof (rule leases_ok_transfer [where s = s and g = "\<lambda>h. if h = HSlot w then HScan else h"])
    show "leases_ok s" using inv by (simp add: pool_inv_def)
    show "pi_next_lease_id (sy_pool s) \<le> pi_next_lease_id (sy_pool ?s)" by simp
    fix h h' k assume h: "holds ?s h k"
    show "holds s (if h = HSlot w then HScan else h) k"
      using h l slots by (cases h) (force simp: slot_belongs_state split: if_splits)+
    assume "holds ?s h' k" "(if h = HSlot w then HScan else h) = (if h' = HSlot w then HScan else h')"
    with h slots show "h = h'" by (cases h; cases h') (auto simp: slot_belongs_state split: if_splits)
  qed
  moreover have "ids_ok ?p" using ids_ok_frame [OF _ frame_eq_with_slot _ live] inv idle slots
    by (auto simp: pool_inv_def)
  moreover have "live_count ?p \<le> cf_max_workers cfg"
    using live_count_frame [of "sy_pool s" ?p] live inv by (simp add: pool_inv_def)
  moreover have "releasing_ok ?s" using inv idle slots unfolding pool_inv_def releasing_ok_def by fastforce
  ultimately show ?thesis using inv by (simp add: pool_inv_def)
qed

lemma pool_inv_lease_turn:
  assumes inv: "pool_inv cfg s" and l: "(l, session) \<in> set (sy_scanning s)"
  shows "pool_inv cfg (after_scan s l session (lease_scan cfg session l now (sy_pool s)))"
proof -
  let ?p = "sy_pool s"
  let ?p1 = "?p\<lparr>pi_children := filter (\<lambda>w. slot_state ?p w \<noteq> Some Dead) (pi_children ?p)\<rparr>"
  let ?s1 = "s\<lparr>sy_pool := ?p1\<rparr>"
  have inv1: "pool_inv cfg ?s1" by (rule pool_inv_children [OF inv]) (simp add: slot_live_def)
  have err: "pool_inv cfg (s\<lparr>sy_scanning := drop_key l (sy_scanning s)\<rparr>)"
    "pool_inv cfg (?s1\<lparr>sy_scanning := drop_key l (sy_scanning s)\<rparr>)"
    using pool_inv_scanning_drop [OF inv] pool_inv_scanning_drop [OF inv1] by simp_all
  have same: "s\<lparr>sy_pool := sy_pool s\<rparr> = s" by (cases s) simp
  consider (shut) "pi_shutting_down ?p"
    | (idle) w where "\<not> pi_shutting_down ?p" "find (\<lambda>w. slot_state ?p w = Some Idle) (pi_children ?p) = Some w"
    | (busy) "\<not> pi_shutting_down ?p" "find (\<lambda>w. slot_state ?p w = Some Idle) (pi_children ?p) = None"
    by (cases "find (\<lambda>w. slot_state ?p w = Some Idle) (pi_children ?p)") auto
  then show ?thesis
  proof cases
    case shut
    then show ?thesis using err(1) by (simp add: lease_scan_def after_scan_def same)
  next
    case idle
    then have "slot_state ?p w = Some Idle" by (auto simp: find_Some_iff)
    from pool_inv_leased [OF inv l this, of now] idle show ?thesis by (simp add: lease_scan_def after_scan_def)
  next
    case busy
    show ?thesis
    proof (cases "cf_max_workers cfg \<le> live_count ?p")
      case True
      with busy inv1 err(2) show ?thesis by (auto simp: lease_scan_def after_scan_def)
    next
      case False
      then have room: "live_count (sy_pool ?s1) < cf_max_workers cfg" by (simp add: live_count_children)
      show ?thesis
      proof (cases "reserve_spawn_slot_locked ?p1")
        case (Pair r p2)
        show ?thesis
        proof (cases r)
          case (Inl e)
          with Pair have "p2 = ?p1" by (simp add: reserve_error_same)
          with busy False Pair Inl err(2) show ?thesis by (simp add: lease_scan_def after_scan_def)
        next
          case (Inr w)
          have "pool_inv cfg (?s1\<lparr>sy_pool := p2, sy_scanning := drop_key l (sy_scanning s),
              sy_starting := sy_starting ?s1 @ [(w, Leased session l)]\<rparr>)"
            using l by (intro pool_inv_reserve [OF inv1 _ room]) (auto simp: Pair Inr intro: rev_image_eqI)
          with busy False Pair Inr show ?thesis by (simp add: lease_scan_def after_scan_def)
        qed
      qed
    qed
  qed
qed

subsection \<open>Every step keeps the invariant\<close>

lemma pool_inv_forget:
  assumes "pool_inv cfg s" "slot_state (sy_pool s) w = Some Dead"
  shows "pool_inv cfg (s\<lparr>sy_pool := forget_slot w (sy_pool s)\<rparr>)"
  unfolding forget_slot_def using assms(2) by (intro pool_inv_children [OF assms(1)]) (auto simp: slot_live_def)

lemma pool_inv_flags:
  assumes "pool_inv cfg s"
  shows "pool_inv cfg (s\<lparr>sy_pool := (sy_pool s)\<lparr>pi_stop_queued_calls := b\<rparr>\<rparr>)"
    and "pool_inv cfg (s\<lparr>sy_pool := (sy_pool s)\<lparr>pi_stop_queued_calls := b, pi_shutting_down := b'\<rparr>\<rparr>)"
proof -
  have h: "holds (s\<lparr>sy_pool := (sy_pool s)\<lparr>pi_stop_queued_calls := b\<rparr>\<rparr>) h l \<longleftrightarrow> holds s h l"
    "holds (s\<lparr>sy_pool := (sy_pool s)\<lparr>pi_stop_queued_calls := b, pi_shutting_down := b'\<rparr>\<rparr>) h l \<longleftrightarrow> holds s h l" for h l
    by (cases h; simp)+
  show "pool_inv cfg (s\<lparr>sy_pool := (sy_pool s)\<lparr>pi_stop_queued_calls := b\<rparr>\<rparr>)"
    and "pool_inv cfg (s\<lparr>sy_pool := (sy_pool s)\<lparr>pi_stop_queued_calls := b, pi_shutting_down := b'\<rparr>\<rparr>)"
    using assms h by (simp_all add: pool_inv_def leases_ok_def releasing_ok_def ids_ok_def live_count_def)
qed

lemma call_admission_Inr:
  assumes "call_admission h tool timeout od adm p = (Inr r, p1)"
  shows "p1 = p \<or> p1 = with_slot (wh_slot h) (note_dispatch od) p"
    "slot_state p (wh_slot h) = Some (Leased (wh_session_id h) (wh_lease_id h))"
  using assms by (auto simp: call_admission_def slot_state_def split: admission.splits option.splits if_splits)

lemma pool_inv_dispatched:
  assumes inv: "pool_inv cfg s" and adm: "call_admission h tool timeout od adm (sy_pool s) = (Inr r, p)"
  shows "pool_inv cfg (s\<lparr>sy_pool := p\<rparr>)"
  using call_admission_Inr(1) [OF adm]
proof
  assume "p = sy_pool s"
  with inv show ?thesis by (cases s) simp
next
  assume p: "p = with_slot (wh_slot h) (note_dispatch od) (sy_pool s)"
  show ?thesis unfolding p
    by (rule pool_inv_data [OF inv]) (simp add: note_dispatch_def split: option.split)
qed

lemma pool_inv_step: "pool_inv cfg s \<Longrightarrow> pool_step cfg s s' \<Longrightarrow> pool_inv cfg s'"
  by (erule pool_stepE)
    (simp_all add: pool_inv_lease_start pool_inv_lease_turn pool_inv_scanning_drop pool_inv_start_finished
      pool_inv_start_failed pool_inv_replenished take_lease_worker_def take_dead_worker_def pool_inv_killed
      take_stale_idle_worker_if_above_min_def pool_inv_forget pool_inv_dispatched pool_inv_data
      pool_inv_release_start pool_inv_release_finish pool_inv_release_end begin_drain_def begin_shutdown_def
      pool_inv_flags split: if_splits)

subsection \<open>The warm-up establishes the invariant\<close>

definition quiet :: "pool_inner \<Rightarrow> pool_sys" where
  "quiet p = \<lparr>sy_pool = p, sy_scanning = [], sy_starting = [], sy_releasing = []\<rparr>"

lemma pool_inv_max: "pool_inv (cfg\<lparr>cf_max_workers := n\<rparr>) s \<Longrightarrow> n \<le> n' \<Longrightarrow> pool_inv (cfg\<lparr>cf_max_workers := n'\<rparr>) s"
  by (simp add: pool_inv_def)

lemma warm_round:
  assumes inv: "pool_inv (cfg\<lparr>cf_max_workers := n\<rparr>) (quiet p)" and res: "reserve_spawn_slot_locked p = (Inr w, p1)"
    and sp: "spawn_reserved_slot w Idle (\<lambda>p. p) out p1 = (r, p2)"
  shows "pool_inv (cfg\<lparr>cf_max_workers := Suc n\<rparr>) (quiet p2)"
proof -
  let ?cfg = "cfg\<lparr>cf_max_workers := Suc n\<rparr>"
  let ?s1 = "(quiet p)\<lparr>sy_pool := p1, sy_scanning := [], sy_starting := sy_starting (quiet p) @ [(w, Idle)]\<rparr>"
  have "live_count p < cf_max_workers ?cfg" using inv by (simp add: pool_inv_def quiet_def)
  with inv res have inv1: "pool_inv ?cfg ?s1"
    by (intro pool_inv_reserve) (auto simp: quiet_def intro: pool_inv_max)
  have start: "(w, Idle) \<in> set (sy_starting ?s1)" by simp
  show ?thesis
  proof (cases "spawn_slot w Idle out p1")
    case (Inl e)
    then have "p2 = snd (finish_spawn_reservation w None p1)" using sp by (simp add: spawn_reserved_slot_def)
    with pool_inv_start_failed [OF inv1 start] show ?thesis by (simp add: quiet_def)
  next
    case (Inr c)
    then have "pc_state c = Idle" by (auto simp: spawn_slot_def split: if_splits spawn_outcome.splits)
    moreover have "p2 = snd (finish_spawn_reservation w (Some c) p1)"
      using sp Inr by (auto simp: spawn_reserved_slot_def split: prod.splits sum.splits)
    ultimately show ?thesis using pool_inv_start_finished [OF inv1, of w c] start by (simp add: quiet_def)
  qed
qed

lemma warm_loop_inv:
  assumes "pool_inv (cfg\<lparr>cf_max_workers := n\<rparr>) (quiet p)"
  shows "pool_inv (cfg\<lparr>cf_max_workers := n + length outs\<rparr>) (quiet (snd (warm_loop outs p)))"
  using assms
proof (induction outs arbitrary: n p)
  case Nil
  then show ?case by simp
next
  case (Cons out outs)
  obtain r p1 where res: "reserve_spawn_slot_locked p = (r, p1)" by fastforce
  show ?case
  proof (cases r)
    case (Inl e)
    with res have "p1 = p" by (simp add: reserve_error_same)
    with Inl res pool_inv_max [OF Cons.prems, of "Suc (n + length outs)"] show ?thesis by simp
  next
    case (Inr w)
    obtain r2 p2 where sp: "spawn_reserved_slot w Idle (\<lambda>p. p) out p1 = (r2, p2)" by fastforce
    from warm_round [OF Cons.prems res [unfolded Inr] sp] have inv2: "pool_inv (cfg\<lparr>cf_max_workers := Suc n\<rparr>) (quiet p2)" .
    show ?thesis
    proof (cases r2)
      case (Inl e)
      with Inr res sp inv2 show ?thesis by (auto intro: pool_inv_max)
    next
      case (Inr x)
      with \<open>r = Inr w\<close> res sp Cons.IH [OF inv2] show ?thesis by simp
    qed
  qed
qed

lemma pool_inv_start: "pool_start cfg s \<Longrightarrow> pool_inv cfg s"
proof -
  assume "pool_start cfg s"
  then obtain outs where s: "s = quiet (snd (warm_min cfg outs pool_new))"
    by (cases s) (auto simp: pool_start_def quiet_def)
  let ?n = "min (cf_min_workers cfg) (cf_max_workers cfg)"
  have h: "\<not> holds (quiet pool_new) h l" for h l
    by (cases h) (simp_all add: quiet_def pool_new_def slot_belongs_def slot_state_def hm_get_def)
  have "pool_inv (cfg\<lparr>cf_max_workers := 0\<rparr>) (quiet pool_new)"
    using h by (simp add: pool_inv_def leases_ok_def releasing_ok_def ids_ok_def live_count_def)
      (simp add: quiet_def pool_new_def slot_live_def slot_state_def hm_get_def)
  from warm_loop_inv [OF this, of "map outs [0..<?n]"] have "pool_inv (cfg\<lparr>cf_max_workers := ?n\<rparr>) s"
    by (simp add: s warm_min_def)
  then have "pool_inv (cfg\<lparr>cf_max_workers := cf_max_workers cfg\<rparr>) s" by (rule pool_inv_max) simp
  then show ?thesis by simp
qed

interpretation pool_system: invariant_system "pool_start cfg" "pool_step cfg" "pool_inv cfg" for cfg
  by unfold_locales (auto intro: pool_inv_start pool_inv_step)

end
