(* ===== verification/Pool_Properties.thy ===== *)
theory Pool_Properties
  imports Pool_Contract
begin

text \<open>What the worker pool guarantees, stated over its reachable states and its handlers.\<close>

section \<open>A concrete pool\<close>

definition demo_cfg :: pool_config where
  "demo_cfg = \<lparr>cf_max_workers = 2, cf_min_workers = 1, cf_worker_idle_timeout = 0,
     cf_worker_op_timeout = 600000000000\<rparr>"

abbreviation demo_child :: "child_state \<Rightarrow> instant \<Rightarrow> pooled_child" where
  "demo_child st now \<equiv> \<lparr>pc_service = True, pc_pid = Some 100, pc_state = st, pc_last_used = now,
     pc_idb_path = None, pc_pending_open_artifacts = None\<rparr>"

abbreviation demo_pool :: "child_state \<Rightarrow> instant \<Rightarrow> u64 \<Rightarrow> pool_inner" where
  "demo_pool st now l \<equiv> \<lparr>pi_slots = [(0, demo_child st now)], pi_children = [0], pi_spawning = [], pi_next_id = 1,
     pi_next_lease_id = l, pi_shutting_down = False, pi_stop_queued_calls = False, pi_log = []\<rparr>"

lemmas pool_eval = warm_min_def reserve_spawn_slot_locked_def checked_add_def spawn_reserved_slot_def spawn_slot_def
  finish_spawn_reservation_def hm_insert_def hm_remove_def hm_get_def hm_modify_def pool_new_def alloc_lease_id_def
  lease_scan_def slot_state_def with_slot_def lease_slot_def after_scan_def live_count_def slot_live_def

lemma demo_warm: "snd (warm_min demo_cfg (\<lambda>_. SpawnServing (Some 100) 3) pool_new) = demo_pool Idle 3 0"
  by (simp add: pool_eval demo_cfg_def)

lemma demo_start: "pool_start demo_cfg (quiet (demo_pool Idle 3 0))"
  unfolding pool_start_def quiet_def using demo_warm by (metis pool_sys.simps)

lemma demo_scan: "lease_scan demo_cfg ''a'' 1 5 (demo_pool Idle 3 1) = (ScanLeased 0, demo_pool (Leased ''a'' 1) 5 1)"
  by (simp add: pool_eval)

lemma demo_leased: "reach (pool_start demo_cfg) (pool_step demo_cfg) (quiet (demo_pool (Leased ''a'' 1) 5 1))"
proof -
  let ?s0 = "quiet (demo_pool Idle 3 0)"
  let ?s1 = "?s0\<lparr>sy_pool := demo_pool Idle 3 1, sy_scanning := sy_scanning ?s0 @ [(1, ''a'')]\<rparr>"
  have "pool_step demo_cfg ?s0 ?s1"
    by (rule lease_start) (simp add: quiet_def pool_eval)
  then have r1: "reach (pool_start demo_cfg) (pool_step demo_cfg) ?s1"
    by (rule reach_step [OF reach_init [of "pool_start demo_cfg", OF demo_start]])
  have step: "pool_step demo_cfg ?s1 (after_scan ?s1 1 ''a'' (lease_scan demo_cfg ''a'' 1 5 (sy_pool ?s1)))"
    by (rule lease_turn) simp
  have eq: "after_scan ?s1 1 ''a'' (lease_scan demo_cfg ''a'' 1 5 (sy_pool ?s1)) = quiet (demo_pool (Leased ''a'' 1) 5 1)"
    by (simp add: demo_scan) (simp add: after_scan_def quiet_def)
  from reach_step [of "pool_start demo_cfg" "pool_step demo_cfg", OF r1 step] show ?thesis unfolding eq .
qed

section \<open>Capacity and leases\<close>

lemma live_card:
  assumes "ids_ok p"
  shows "card {w. slot_live p w} = length (filter (slot_live p) (pi_children p))"
proof -
  have "{w. slot_live p w} = set (filter (slot_live p) (pi_children p))" using assms by (auto simp: ids_ok_def)
  moreover have "distinct (filter (slot_live p) (pi_children p))" using assms by (simp add: ids_ok_def)
  ultimately show ?thesis by (metis distinct_card)
qed

text \<open>
  C4: The pool never has more worker processes than \<open>max_workers\<close>: in every reachable state
  the workers that are alive anywhere, listed by the pool or not, and those being started
  together stay within the bound, however lease, release, retirement, reaping,
  replenishment and shutdown interleave.
\<close>

theorem pool_capacity:
  assumes "reach (pool_start cfg) (pool_step cfg) s"
  shows "card {w. slot_live (sy_pool s) w} + length (sy_starting s) \<le> cf_max_workers cfg"
proof -
  have inv: "pool_inv cfg s" using assms by (rule pool_system.reach_inv)
  then have "length (sy_starting s) = length (pi_spawning (sy_pool s))"
    unfolding pool_inv_def by (metis length_map)
  with inv live_card [of "sy_pool s"] show ?thesis by (simp add: pool_inv_def live_count_def)
qed

theorem pool_capacity_witness:
  "card {w. slot_live (sy_pool (quiet (demo_pool (Leased ''a'' 1) 5 1))) w} \<le> 2"
  using pool_capacity [OF demo_leased] by (simp add: demo_cfg_def)

text \<open>
  C5: A lease id names one worker: no two slots ever hold the same lease, so a handle
  cannot act on a worker that was given to another session.
\<close>

theorem lease_exclusive:
  assumes "reach (pool_start cfg) (pool_step cfg) s"
    and "slot_belongs (sy_pool s) w l" "slot_belongs (sy_pool s) w' l"
  shows "w = w' \<and> l \<le> pi_next_lease_id (sy_pool s)"
proof -
  have "leases_ok s" using pool_system.reach_inv [OF assms(1)] by (simp add: pool_inv_def)
  moreover have "holds s (HSlot w) l" "holds s (HSlot w') l" using assms(2,3) by simp_all
  ultimately have "HSlot w = HSlot w'" "l \<le> pi_next_lease_id (sy_pool s)" unfolding leases_ok_def by blast+
  then show ?thesis by simp
qed

theorem lease_exclusive_witness:
  "(1::u64) \<le> pi_next_lease_id (sy_pool (quiet (demo_pool (Leased ''a'' 1) 5 1)))"
  using lease_exclusive [OF demo_leased, of 0 1 0] by (simp add: quiet_def slot_belongs_def slot_state_def hm_get_def)

section \<open>Dead workers and ended leases\<close>

lemma finish_dead:
  assumes "ids_ok p" "w \<in> set (pi_spawning p)" "slot_state p v = Some Dead"
  shows "slot_state (snd (finish_spawn_reservation w c p)) v = Some Dead"
proof -
  have "v \<noteq> w" "hm_wf (pi_slots p)" using assms by (auto simp: ids_ok_def)
  then show ?thesis using assms(3)
    by (auto simp: finish_spawn_reservation_def Let_def discard_state finish_some_slots split: option.split)
qed

lemma replenish_slots: "replenish_loop n target p = (ws, p') \<Longrightarrow> pi_slots p' = pi_slots p"
proof (induction n arbitrary: p ws p')
  case (Suc n)
  obtain r p1 where res: "reserve_spawn_slot_locked p = (r, p1)" by fastforce
  then have "pi_slots p1 = pi_slots p"
    by (auto simp: reserve_spawn_slot_locked_def split: if_splits option.splits)
  with Suc.prems res Suc.IH [of p1] show ?case by (auto split: if_splits sum.splits prod.splits)
qed simp

lemma replenishment_slots: "pi_slots (snd (schedule_replenishment cfg p)) = pi_slots p"
  using replenish_slots by (metis prod.collapse schedule_replenishment_def)

lemma lease_scan_dead:
  assumes "slot_state p v = Some Dead"
  shows "slot_state (snd (lease_scan cfg session l now p)) v = Some Dead"
proof -
  have "slot_state p w = Some Idle \<Longrightarrow> v \<noteq> w" for w using assms by auto
  moreover have "reserve_spawn_slot_locked q = (r, q') \<Longrightarrow> slot_state q' v = slot_state q v" for q r q'
    by (auto simp: reserve_spawn_slot_locked_def split: if_splits option.splits)
  ultimately show ?thesis using assms
    by (auto simp: lease_scan_def Let_def slot_state_with_slot find_Some_iff split: option.splits prod.splits sum.splits)
qed

lemma after_scan_pool [simp]: "sy_pool (after_scan s l session r) = snd r"
  by (cases r) (simp add: after_scan_def split: scan_outcome.split)

lemma starting_spawning: "pool_inv cfg s \<Longrightarrow> (w, st) \<in> set (sy_starting s) \<Longrightarrow> w \<in> set (pi_spawning (sy_pool s))"
  unfolding pool_inv_def by (metis fst_conv image_eqI set_map)

lemma dead_with_slot:
  assumes "slot_state p v = Some Dead" "\<And>c. pc_state c = Dead \<Longrightarrow> pc_state (f c) = Dead"
  shows "slot_state (with_slot w f p) v = Some Dead"
  using assms by (auto simp: slot_state_with_slot) (auto simp: slot_state_def)

lemma dead_step:
  assumes inv: "pool_inv cfg s" and step: "pool_step cfg s s'" and dead: "slot_state (sy_pool s) v = Some Dead"
  shows "slot_state (sy_pool s') v = Some Dead"
  using step
proof (cases rule: pool_step.cases)
  case (lease_start l p session)
  then show ?thesis using dead by (auto simp: alloc_lease_id_def split: option.splits)
next
  case (start_finished w st c)
  then show ?thesis using finish_dead [OF _ starting_spawning [OF inv] dead] inv by (simp add: pool_inv_def)
next
  case (start_failed w st)
  then show ?thesis using finish_dead [OF _ starting_spawning [OF inv] dead] inv by (simp add: pool_inv_def)
next
  case (replenished ws p)
  then show ?thesis using dead replenishment_slots [of cfg "sy_pool s"] by (simp add: slot_state_def)
next
  case (dispatched h tool timeout od adm r p)
  then show ?thesis using call_admission_Inr(1) [OF dispatched(2)] dead
    by (auto simp: note_dispatch_def intro!: dead_with_slot split: option.split)
next
  case (release_started h p)
  have "wh_slot h \<noteq> v" using release_started(2) dead
    by (auto simp: release_begin_def slot_belongs_def split: if_splits)
  then show ?thesis using release_started dead by (auto simp: release_begin_def slot_state_with_slot split: if_splits)
next
  case (release_finished w l now)
  then show ?thesis using dead by (auto simp: slot_state_with_slot)
next
  case (lease_killed w l d p)
  then show ?thesis using dead by (auto simp: take_lease_worker_def take_worker_if_slot(1))
next
  case (worker_killed w d p)
  then show ?thesis using dead by (auto simp: take_dead_worker_def take_worker_if_slot(1))
next
  case (idle_reaped w t d p)
  then show ?thesis using dead
    by (auto simp: take_stale_idle_worker_if_above_min_def take_worker_if_slot(1) split: if_splits)
qed (use dead in \<open>simp_all add: lease_scan_dead forget_slot_def dead_with_slot begin_drain_def begin_shutdown_def\<close>)

text \<open>
  Retirement is final. A worker that is dead in some reachable state is dead in every
  later state: no release, late reply, startup or lease brings it back.
\<close>

theorem dead_worker_stays_dead:
  assumes "reach (pool_start cfg) (pool_step cfg) s" "(pool_step cfg)\<^sup>*\<^sup>* s s'"
    and "slot_state (sy_pool s) w = Some Dead"
  shows "slot_state (sy_pool s') w = Some Dead"
proof -
  have "pool_inv cfg s" using assms(1) by (rule pool_system.reach_inv)
  with assms(2) have "pool_inv cfg s' \<and> slot_state (sy_pool s') w = Some Dead"
    by (induction rule: rtranclp_induct) (auto simp: assms(3) intro: pool_inv_step dead_step)
  then show ?thesis by simp
qed

theorem dead_worker_stays_dead_witness:
  "\<exists>s s'. reach (pool_start demo_cfg) (pool_step demo_cfg) s \<and> (pool_step demo_cfg)\<^sup>*\<^sup>* s s' \<and> slot_state (sy_pool s') 0 = Some Dead"
proof -
  let ?s = "quiet (demo_pool (Leased ''a'' 1) 5 1)"
  obtain d p where kill: "take_lease_worker 0 1 (sy_pool ?s) = (Some d, p)"
    by (simp add: take_lease_worker_def take_worker_if_def quiet_def hm_get_def)
  let ?s1 = "?s\<lparr>sy_pool := log_cleanup 0 d p\<rparr>"
  have r: "reach (pool_start demo_cfg) (pool_step demo_cfg) ?s1"
    by (rule reach_step [of "pool_start demo_cfg" "pool_step demo_cfg", OF demo_leased]) (rule lease_killed [OF kill])
  have dead: "slot_state (sy_pool ?s1) 0 = Some Dead"
    using kill by (simp add: take_lease_worker_def take_worker_if_slot(1))
  have "(pool_step demo_cfg)\<^sup>*\<^sup>* ?s1 (?s1\<lparr>sy_pool := forget_slot 0 (sy_pool ?s1)\<rparr>)"
    by (rule r_into_rtranclp) (rule forgotten [OF dead])
  with r dead_worker_stays_dead [OF r _ dead] show ?thesis by blast
qed

text \<open>The leases of a later state come from those of the earlier one.\<close>

definition unheld :: "pool_sys \<Rightarrow> u64 \<Rightarrow> bool" where
  "unheld s l \<longleftrightarrow> (\<forall>w. \<not> slot_belongs (sy_pool s) w l)
     \<and> (\<forall>w st. (w, st) \<in> set (sy_starting s) \<longrightarrow> \<not> belongs_to_lease st l)
     \<and> l \<notin> fst ` set (sy_scanning s)"

lemma unheld_pool:
  assumes "unheld s l" "\<And>w. slot_belongs p w l \<Longrightarrow> slot_belongs (sy_pool s) w l"
    "\<And>w st. (w, st) \<in> set xs \<Longrightarrow> belongs_to_lease st l \<Longrightarrow> (w, st) \<in> set (sy_starting s)" "set ys \<subseteq> set (sy_scanning s)"
  shows "unheld (s\<lparr>sy_pool := p, sy_scanning := ys, sy_starting := xs\<rparr>) l"
  using assms unfolding unheld_def by auto blast+

lemma belongs_with_slot:
  assumes "slot_belongs (with_slot w f p) v l" "\<And>c. belongs_to_lease (pc_state (f c)) l \<Longrightarrow> belongs_to_lease (pc_state c) l"
  shows "slot_belongs p v l"
  using assms by (auto simp: slot_belongs_def slot_state_with_slot split: if_splits option.splits)
    (auto simp: slot_state_def)

lemma belongs_take:
  assumes "take_worker_if P w p = (r, p1)" "slot_belongs p1 v l"
  shows "slot_belongs p v l"
  using assms by (auto simp: take_worker_if_def take_dead_worker_locked_def dest!: belongs_with_slot split: option.splits if_splits)

lemma belongs_finish:
  assumes "hm_wf (pi_slots p)" "slot_belongs (snd (finish_spawn_reservation w c p)) v l"
  shows "slot_belongs p v l \<or> (\<exists>c'. c = Some c' \<and> belongs_to_lease (pc_state c') l)"
  using assms
  by (auto simp: finish_spawn_reservation_def Let_def slot_belongs_state discard_state finish_some_slots split: option.splits if_splits)

lemma belongs_reserve:
  "reserve_spawn_slot_locked p = (r, p1) \<Longrightarrow> slot_belongs p1 v l = slot_belongs p v l"
  by (auto simp: reserve_spawn_slot_locked_def split: if_splits option.splits)

lemma belongs_scan:
  assumes "slot_belongs (snd (lease_scan cfg session l now p)) v k" "k \<noteq> l"
  shows "slot_belongs p v k"
  using assms
  by (auto simp: lease_scan_def Let_def lease_slot_def belongs_reserve dest!: belongs_with_slot
      split: if_splits option.splits prod.splits sum.splits)

lemma unheld_scan:
  assumes "unheld s k" "(l, session) \<in> set (sy_scanning s)"
  shows "unheld (after_scan s l session (lease_scan cfg session l now (sy_pool s))) k"
proof -
  have "k \<noteq> l" using assms by (force simp: unheld_def)
  then have b: "\<not> slot_belongs (snd (lease_scan cfg session l now (sy_pool s))) w k" for w
    using assms(1) belongs_scan [of cfg session l now "sy_pool s" w k] by (auto simp: unheld_def)
  obtain r p where r: "lease_scan cfg session l now (sy_pool s) = (r, p)" by fastforce
  with b \<open>k \<noteq> l\<close> assms(1) show ?thesis
    by (cases r) (auto simp: unheld_def after_scan_def)
qed

lemma unheld_step:
  assumes inv: "pool_inv cfg s" and step: "pool_step cfg s s'" and un: "unheld s k" "k \<le> pi_next_lease_id (sy_pool s)"
  shows "unheld s' k"
  using step
proof (cases rule: pool_step.cases)
  case (lease_start l p session)
  then have "pi_next_lease_id (sy_pool s) < l" "p = (sy_pool s)\<lparr>pi_next_lease_id := l\<rparr>"
    using checked_add_one_less [of "pi_next_lease_id (sy_pool s)" l]
    by (auto simp: alloc_lease_id_def split: option.splits)
  with lease_start un show ?thesis by (auto simp: unheld_def)
next
  case (lease_turn l session now)
  then show ?thesis using unheld_scan [OF un(1)] by simp
next
  case (start_finished w st c)
  have "\<not> belongs_to_lease (pc_state c) k" using start_finished un(1) by (auto simp: unheld_def)
  moreover have "hm_wf (pi_slots (sy_pool s))" using inv by (simp add: pool_inv_def ids_ok_def)
  ultimately have "\<not> slot_belongs (snd (finish_spawn_reservation w (Some c) (sy_pool s))) v k" for v
    using belongs_finish [of "sy_pool s" w "Some c" v k] un(1) by (auto simp: unheld_def)
  then show ?thesis using start_finished un(1) by (auto simp: unheld_def)
next
  case (start_failed w st)
  have "hm_wf (pi_slots (sy_pool s))" using inv by (simp add: pool_inv_def ids_ok_def)
  then show ?thesis using start_failed un(1) belongs_finish [of "sy_pool s" w None] by (auto simp: unheld_def)
next
  case (replenished ws p)
  then have "pi_slots p = pi_slots (sy_pool s)" using replenishment_slots [of cfg "sy_pool s"] by simp
  with replenished un(1) show ?thesis
    by (auto simp: unheld_def starting_idle_def slot_belongs_def slot_state_def)
next
  case (lease_killed w l d p)
  then show ?thesis using un(1) by (auto simp: unheld_def take_lease_worker_def dest: belongs_take)
next
  case (worker_killed w d p)
  then show ?thesis using un(1) by (auto simp: unheld_def take_dead_worker_def dest: belongs_take)
next
  case (idle_reaped w t d p)
  then show ?thesis using un(1)
    by (auto simp: unheld_def take_stale_idle_worker_if_above_min_def dest: belongs_take split: if_splits)
next
  case (dispatched h tool timeout od adm r p)
  have "slot_belongs p v k \<Longrightarrow> slot_belongs (sy_pool s) v k" for v
    using call_admission_Inr(1) [OF dispatched(2)]
    by (auto simp: note_dispatch_def elim!: belongs_with_slot split: option.splits)
  with dispatched un(1) show ?thesis by (auto simp: unheld_def)
next
  case (open_settled w l path)
  have "slot_belongs (with_slot w (\<lambda>c. c\<lparr>pc_idb_path := path, pc_pending_open_artifacts := None\<rparr>) (sy_pool s)) v k
      \<Longrightarrow> slot_belongs (sy_pool s) v k" for v by (erule belongs_with_slot) simp
  with open_settled un(1) show ?thesis by (auto simp: unheld_def)
next
  case (release_started h p)
  then have h: "slot_belongs (sy_pool s) (wh_slot h) (wh_lease_id h)"
    and p: "p = with_slot (wh_slot h) (\<lambda>c. c\<lparr>pc_state := Closing (wh_lease_id h)\<rparr>) (sy_pool s)"
    by (auto simp: release_begin_def split: if_splits)
  then have "wh_lease_id h \<noteq> k" using un(1) by (auto simp: unheld_def)
  then have "slot_belongs p v k \<Longrightarrow> slot_belongs (sy_pool s) v k" for v
    unfolding p by (elim belongs_with_slot) simp
  with release_started un(1) show ?thesis by (auto simp: unheld_def)
next
  case (release_finished w l now)
  have "slot_belongs (with_slot w (reset_idle now) (sy_pool s)) v k \<Longrightarrow> slot_belongs (sy_pool s) v k" for v
    by (erule belongs_with_slot) (simp add: reset_idle_def)
  with release_finished un(1) show ?thesis by (auto simp: unheld_def)
qed (use un(1) in \<open>auto simp: unheld_def forget_slot_def begin_drain_def begin_shutdown_def\<close>)

lemma next_lease_reserve: "reserve_spawn_slot_locked p = (r, p1) \<Longrightarrow> pi_next_lease_id p1 = pi_next_lease_id p"
  by (auto simp: reserve_spawn_slot_locked_def split: if_splits option.splits)

lemma next_lease_replenish: "replenish_loop n target p = (ws, p') \<Longrightarrow> pi_next_lease_id p' = pi_next_lease_id p"
proof (induction n arbitrary: p ws p')
  case (Suc n)
  obtain r p1 where res: "reserve_spawn_slot_locked p = (r, p1)" by fastforce
  with Suc.prems Suc.IH [of p1] next_lease_reserve [OF res] show ?case
    by (auto split: if_splits sum.splits prod.splits)
qed simp

lemma next_lease_scan: "pi_next_lease_id (snd (lease_scan cfg session l now p)) = pi_next_lease_id p"
  by (auto simp: lease_scan_def Let_def next_lease_reserve split: option.split prod.splits sum.splits)

lemma next_lease_finish: "pi_next_lease_id (snd (finish_spawn_reservation w c p)) = pi_next_lease_id p"
  by (simp add: finish_spawn_reservation_def Let_def discard_state split: option.split)

lemma next_lease_take: "take_worker_if P w p = (r, p1) \<Longrightarrow> pi_next_lease_id p1 = pi_next_lease_id p"
  by (auto simp: take_worker_if_def split: option.splits if_splits)

lemma next_lease_step:
  assumes "pool_step cfg s s'"
  shows "pi_next_lease_id (sy_pool s) \<le> pi_next_lease_id (sy_pool s')"
  using assms
proof (cases rule: pool_step.cases)
  case (lease_start l p session)
  then show ?thesis using checked_add_one_less [of "pi_next_lease_id (sy_pool s)" l]
    by (auto simp: alloc_lease_id_def split: option.splits)
next
  case (replenished ws p)
  then show ?thesis by (simp add: schedule_replenishment_def Let_def next_lease_replenish)
next
  case (dispatched h tool timeout od adm r p)
  then show ?thesis using call_admission_Inr(1) [OF dispatched(2)] by auto
qed (auto simp: next_lease_scan next_lease_finish take_lease_worker_def take_dead_worker_def next_lease_take
    take_stale_idle_worker_if_above_min_def forget_slot_def release_begin_def begin_drain_def begin_shutdown_def
    split: if_splits)

lemma unheld_run:
  assumes "(pool_step cfg)\<^sup>*\<^sup>* s s'" "pool_inv cfg s" "unheld s k" "k \<le> pi_next_lease_id (sy_pool s)"
  shows "unheld s' k"
proof -
  from assms(1) have "pool_inv cfg s' \<and> unheld s' k \<and> k \<le> pi_next_lease_id (sy_pool s')"
    by (induction rule: rtranclp_induct)
      (auto simp: assms(2-4) intro: pool_inv_step unheld_step order_trans next_lease_step)
  then show ?thesis by simp
qed

text \<open>
  What a handle whose lease has ended can do to the pool: nothing. Retirement for the
  lease and release leave the pool as it is, and a call is refused before dispatch.
\<close>

lemma stale_handle_inert:
  assumes "\<not> slot_belongs p (wh_slot h) (wh_lease_id h)"
  shows "mark_dead_for_lease cfg (wh_slot h) (wh_lease_id h) p = ([], p)"
    and "release_inner cfg h out now mid p = (Inr (), p)"
    and "snd (call_tool_admitted cfg db_path closed h tool timeout elapsed od adm mid cancel ex p) = p"
    and "\<exists>e. fst (call_tool_admitted cfg db_path closed h tool timeout elapsed od adm mid cancel ex p) = Some (Inl e)"
proof -
  have "\<not> belongs_to_lease (pc_state c) (wh_lease_id h)" if "hm_get (pi_slots p) (wh_slot h) = Some c" for c
    using assms that by (simp add: slot_belongs_def slot_state_def)
  then have "take_lease_worker (wh_slot h) (wh_lease_id h) p = (None, p)"
    by (auto simp: take_lease_worker_def take_worker_if_def split: option.split)
  then show "mark_dead_for_lease cfg (wh_slot h) (wh_lease_id h) p = ([], p)" by (simp add: mark_dead_for_lease_def)
  show "release_inner cfg h out now mid p = (Inr (), p)" using assms by (simp add: release_inner_def release_begin_def)
  have "\<exists>e. call_admission h tool timeout od adm p = (Inl e, p)"
  proof (cases "call_admission h tool timeout od adm p")
    case (Pair r p1)
    show ?thesis
    proof (cases r)
      case (Inl e)
      with Pair show ?thesis
        by (auto simp: call_admission_def split: admission.splits option.splits if_splits)
    next
      case (Inr x)
      with Pair call_admission_Inr(2) assms show ?thesis by (fastforce simp: slot_belongs_def)
    qed
  qed
  then show "snd (call_tool_admitted cfg db_path closed h tool timeout elapsed od adm mid cancel ex p) = p"
    and "\<exists>e. fst (call_tool_admitted cfg db_path closed h tool timeout elapsed od adm mid cancel ex p) = Some (Inl e)"
    by (auto simp: call_tool_admitted_def)
qed

text \<open>
  C6: A lease that has ended stays ended. Once no slot, startup or waiting call holds a
  lease id that was given out, no later state gives that lease a worker again; a handle
  kept from it can retire nobody, release nothing, and every call through it is refused
  with the pool unchanged.
\<close>

theorem ended_lease_is_inert:
  assumes "reach (pool_start cfg) (pool_step cfg) s" "(pool_step cfg)\<^sup>*\<^sup>* s s'"
    and "unheld s (wh_lease_id h)" "wh_lease_id h \<le> pi_next_lease_id (sy_pool s)"
  shows "mark_dead_for_lease cfg (wh_slot h) (wh_lease_id h) (sy_pool s') = ([], sy_pool s')
    \<and> release_inner cfg h out now mid (sy_pool s') = (Inr (), sy_pool s')
    \<and> snd (call_tool_admitted cfg db_path closed h tool timeout elapsed od adm mid' cancel ex (sy_pool s')) = sy_pool s'
    \<and> (\<exists>e. fst (call_tool_admitted cfg db_path closed h tool timeout elapsed od adm mid' cancel ex (sy_pool s')) = Some (Inl e))"
proof -
  have "unheld s' (wh_lease_id h)"
    using unheld_run [OF assms(2) pool_system.reach_inv [OF assms(1)] assms(3,4)] .
  then have "\<not> slot_belongs (sy_pool s') (wh_slot h) (wh_lease_id h)" by (simp add: unheld_def)
  then show ?thesis by (simp add: stale_handle_inert)
qed

theorem ended_lease_is_inert_witness:
  "release_inner demo_cfg (new_handle 0 ''b'' 0) CloseTimedOut 9 id (demo_pool (Leased ''a'' 1) 5 1)
     = (Inr (), demo_pool (Leased ''a'' 1) 5 1)"
proof -
  let ?s = "quiet (demo_pool (Leased ''a'' 1) 5 1)"
  have "unheld ?s (wh_lease_id (new_handle 0 ''b'' 0))"
    by (simp add: unheld_def quiet_def new_handle_def slot_belongs_def slot_state_def hm_get_def)
  moreover have "wh_lease_id (new_handle 0 ''b'' 0) \<le> pi_next_lease_id (sy_pool ?s)"
    by (simp add: quiet_def new_handle_def)
  ultimately show ?thesis
    using ended_lease_is_inert [OF demo_leased rtranclp.rtrancl_refl, of "new_handle 0 ''b'' 0"] by (simp add: quiet_def)
qed

end
