(* ===== verification/Pool_Handlers.thy ===== *)
theory Pool_Handlers
  imports Pool_Properties
begin

text \<open>
  What single handlers of the worker pool guarantee: admission of a lease, the floor that
  idle reaping respects, replenishment, what the outcome of a call means for its worker,
  release, shutdown, and the timeouts.
\<close>

section \<open>Leasing\<close>

text \<open>
  A lease is refused as exhausted exactly when the pool runs, no listed worker is
  idle, nothing is starting and \<open>max_workers\<close> workers are alive; in particular a pool with
  an idle worker never refuses.
\<close>

theorem pool_exhausted_iff:
  "(\<exists>a m. fst (lease_scan cfg session l now p) = ScanError (PoolExhausted a m)) \<longleftrightarrow>
     \<not> pi_shutting_down p \<and> (\<forall>w \<in> set (pi_children p). slot_state p w \<noteq> Some Idle)
     \<and> cf_max_workers cfg \<le> live_count p \<and> pi_spawning p = []"
proof -
  let ?f = "find (\<lambda>w. slot_state p w = Some Idle) (pi_children p)"
  have res: "fst (reserve_spawn_slot_locked q) \<noteq> Inl (PoolExhausted a m)" for q a m
    by (simp add: reserve_spawn_slot_locked_def split: option.split)
  have none: "?f = None \<longleftrightarrow> (\<forall>w \<in> set (pi_children p). slot_state p w \<noteq> Some Idle)"
    by (auto simp: find_None_iff)
  show ?thesis
  proof (cases ?f)
    case (Some w)
    then show ?thesis using none by (auto simp: lease_scan_def)
  next
    case None
    let ?p1 = "p\<lparr>pi_children := filter (\<lambda>w. slot_state p w \<noteq> Some Dead) (pi_children p)\<rparr>"
    show ?thesis using None none res [of ?p1]
      by (cases "reserve_spawn_slot_locked ?p1"; cases "fst (reserve_spawn_slot_locked ?p1)")
        (auto simp: lease_scan_def Let_def split: if_splits)
  qed
qed

theorem pool_exhausted_iff_witness:
  "fst (lease_scan demo_cfg ''b'' 2 9 (demo_pool Idle 3 1)) \<noteq> ScanError (PoolExhausted 1 2)"
  using pool_exhausted_iff [of demo_cfg "''b''" 2 9 "demo_pool Idle 3 1"]
  by (auto simp: slot_state_def hm_get_def)

section \<open>Idle reaping and replenishment\<close>

lemma length_filter_neq: "distinct xs \<Longrightarrow> length xs \<le> Suc (length (filter (\<lambda>v. v \<noteq> w) xs))"
proof (induction xs)
  case (Cons x xs)
  show ?case
  proof (cases "x = w")
    case True
    with Cons.prems have "\<forall>v \<in> set xs. v \<noteq> w" by auto
    then have "filter (\<lambda>v. v \<noteq> w) xs = xs" by (rule filter_True)
    with True show ?thesis by simp
  qed (use Cons in simp)
qed simp

lemma live_count_killed:
  assumes "ids_ok p" "take_worker_if P w p = (Some d, p1)"
  shows "live_count p \<le> Suc (live_count p1)"
proof -
  have eq: "filter (slot_live p1) (pi_children p) = filter (\<lambda>v. v \<noteq> w) (filter (slot_live p) (pi_children p))"
    using take_worker_if_slot(1) [OF assms(2)]
    by (auto simp: slot_live_def intro!: filter_cong split: if_splits)
  have "distinct (filter (slot_live p) (pi_children p))" using assms(1) by (simp add: ids_ok_def)
  then have "length (filter (slot_live p) (pi_children p)) \<le> Suc (length (filter (slot_live p1) (pi_children p)))"
    unfolding eq by (rule length_filter_neq)
  then show ?thesis using take_worker_if_slot(2) [OF assms(2)] by (simp add: live_count_def frame_eq_def)
qed

lemma live_count_forget:
  assumes "slot_state p w = Some Dead"
  shows "live_count (forget_slot w p) = live_count p"
proof -
  have "filter (slot_live p) (filter (\<lambda>c. c \<noteq> w) (pi_children p)) = filter (slot_live p) (pi_children p)"
    using assms by (auto simp: slot_live_def intro: filter_cong)
  then show ?thesis by (simp add: live_count_def forget_slot_def)
qed

lemma live_count_log [simp]: "live_count (log_cleanup w d p) = live_count p"
proof -
  have "slot_live (log_cleanup w d p) = slot_live p" by (simp add: fun_eq_iff)
  then show ?thesis by (simp add: live_count_def)
qed

text \<open>
  The idle reaper never takes the pool below \<open>min_workers\<close> live or starting workers,
  and it never touches a worker that is leased, closing, or was used since its timer
  started.
\<close>

theorem reaper_respects_minimum:
  assumes "ids_ok p" and "mark_stale_idle_dead cfg w t p \<noteq> p"
  shows "cf_min_workers cfg \<le> live_count (mark_stale_idle_dead cfg w t p)
    \<and> (\<exists>c. hm_get (pi_slots p) w = Some c \<and> pc_state c = Idle \<and> pc_last_used c \<le> t)
    \<and> (\<forall>v. v \<noteq> w \<longrightarrow> slot_state (mark_stale_idle_dead cfg w t p) v = slot_state p v)"
proof -
  let ?P = "\<lambda>c. \<not> (pc_state c \<noteq> Idle \<or> pc_last_used c > t)"
  obtain r p1 where tk: "take_stale_idle_worker_if_above_min cfg w t p = (r, p1)" by fastforce
  have same: "p1 = p" if "r = None"
    using tk that by (auto simp: take_stale_idle_worker_if_above_min_def take_worker_if_def split: if_splits option.splits)
  then obtain d where d: "r = Some d" using assms(2) tk by (cases r) (auto simp: mark_stale_idle_dead_def)
  then have kill: "take_worker_if ?P w p = (Some d, p1)" and above: "cf_min_workers cfg < live_count p"
    using tk by (auto simp: take_stale_idle_worker_if_above_min_def split: if_splits)
  have res: "mark_stale_idle_dead cfg w t p = log_cleanup w d (forget_slot w p1)"
    using tk d by (simp add: mark_stale_idle_dead_def)
  have "slot_state p1 w = Some Dead" using take_worker_if_slot(1) [OF kill] by simp
  then have "live_count (log_cleanup w d (forget_slot w p1)) = live_count p1" by (simp add: live_count_forget)
  with live_count_killed [OF assms(1) kill] above have "cf_min_workers cfg \<le> live_count (mark_stale_idle_dead cfg w t p)"
    by (simp add: res)
  moreover have "\<forall>v. v \<noteq> w \<longrightarrow> slot_state (mark_stale_idle_dead cfg w t p) v = slot_state p v"
    using take_worker_if_slot(1) [OF kill] by (simp add: res forget_slot_def)
  moreover have "\<exists>c. hm_get (pi_slots p) w = Some c \<and> pc_state c = Idle \<and> pc_last_used c \<le> t"
    using take_worker_ifD [OF kill] by auto
  ultimately show ?thesis by simp
qed

definition lean_cfg :: pool_config where
  "lean_cfg = demo_cfg\<lparr>cf_min_workers := 0, cf_worker_idle_timeout := 7\<rparr>"

lemma demo_ids: "ids_ok (demo_pool st now l)"
  by (simp add: ids_ok_def slot_state_def slot_live_def hm_get_def hm_wf_def)

theorem reaper_respects_minimum_witness:
  "mark_stale_idle_dead lean_cfg 0 8 (demo_pool Idle 3 1) \<noteq> demo_pool Idle 3 1
   \<and> cf_min_workers lean_cfg \<le> live_count (mark_stale_idle_dead lean_cfg 0 8 (demo_pool Idle 3 1))"
proof -
  have "mark_stale_idle_dead lean_cfg 0 8 (demo_pool Idle 3 1) \<noteq> demo_pool Idle 3 1"
    by (simp add: mark_stale_idle_dead_def take_stale_idle_worker_if_above_min_def take_worker_if_def live_count_def
        slot_live_def slot_state_def hm_get_def lean_cfg_def demo_cfg_def forget_slot_def log_cleanup_def with_slot_def)
  with reaper_respects_minimum [OF demo_ids this] show ?thesis by blast
qed

text \<open>
  The loop of \<open>schedule_replenishment\<close> ends with the target met, unless the pool shuts down
  or the worker id space is used up; the fuel is never the reason to stop.
\<close>

abbreviation planned :: "pool_inner \<Rightarrow> nat" where
  "planned p \<equiv> length (pi_spawning p) + length (pi_children p)"

lemma reserve_ok:
  assumes "\<not> pi_shutting_down p" "unat (pi_next_id p) + 1 < 2 ^ 64"
  shows "reserve_spawn_slot_locked p = (Inr (pi_next_id p),
     p\<lparr>pi_next_id := pi_next_id p + 1, pi_spawning := pi_spawning p @ [pi_next_id p]\<rparr>)"
  using assms by (simp add: reserve_spawn_slot_locked_def checked_add_def)

lemma replenish_loop_meets:
  assumes "\<not> pi_shutting_down p" "unat (pi_next_id p) + n < 2 ^ 64" "target \<le> planned p + n"
  shows "planned (snd (replenish_loop n target p)) = max target (planned p)
    \<and> length (fst (replenish_loop n target p)) = target - planned p"
  using assms
proof (induction n arbitrary: p)
  case 0
  then show ?case by simp
next
  case (Suc n)
  show ?case
  proof (cases "planned p < target")
    case False
    then show ?thesis by simp
  next
    case True
    let ?p1 = "p\<lparr>pi_next_id := pi_next_id p + 1, pi_spawning := pi_spawning p @ [pi_next_id p]\<rparr>"
    have res: "reserve_spawn_slot_locked p = (Inr (pi_next_id p), ?p1)" using Suc.prems by (intro reserve_ok) auto
    have "unat (pi_next_id p + 1) = unat (pi_next_id p) + 1"
      using Suc.prems(2) by (simp add: unat_word_ariths)
    then have "planned (snd (replenish_loop n target ?p1)) = max target (planned ?p1)
        \<and> length (fst (replenish_loop n target ?p1)) = target - planned ?p1"
      using Suc.prems True by (intro Suc.IH) auto
    then show ?thesis using True Suc.prems(1) res by (simp add: case_prod_beta max_def) arith
  qed
qed

text \<open>
  Replenishment restores the minimum. After a worker is lost, a running pool has at
  least \<open>min(min_workers, max_workers)\<close> workers listed or starting, and it starts exactly
  the missing ones.
\<close>

theorem replenishment_restores_minimum:
  fixes cfg :: pool_config
  defines "target \<equiv> min (cf_min_workers cfg) (cf_max_workers cfg)"
  assumes "\<not> pi_shutting_down p" "unat (pi_next_id p) + target < 2 ^ 64"
  shows "planned (snd (schedule_replenishment cfg p)) = max target (planned p)
    \<and> length (fst (schedule_replenishment cfg p)) = target - planned p"
  unfolding schedule_replenishment_def Let_def target_def [symmetric]
  using assms(2,3) by (intro replenish_loop_meets) auto

theorem replenishment_restores_minimum_witness:
  "planned (snd (schedule_replenishment demo_cfg pool_new)) = 1"
  using replenishment_restores_minimum [of pool_new demo_cfg] by (simp add: pool_new_def demo_cfg_def)

section \<open>Retirement\<close>

lemma schedule_slots [simp]:
  "slot_belongs (snd (schedule_replenishment cfg p)) = slot_belongs p"
  "slot_state (snd (schedule_replenishment cfg p)) = slot_state p"
  by (simp_all add: slot_belongs_def slot_state_def replenishment_slots fun_eq_iff)

lemma mark_dead_ends_lease: "\<not> slot_belongs (snd (mark_dead_for_lease cfg w l p)) w l"
proof (cases "take_lease_worker w l p")
  case (Pair r p1)
  show ?thesis
  proof (cases r)
    case None
    with Pair have "p1 = p \<and> \<not> slot_belongs p w l"
      by (auto simp: take_lease_worker_def take_worker_if_def slot_belongs_def slot_state_def split: option.splits if_splits)
    with Pair None show ?thesis by (simp add: mark_dead_for_lease_def)
  next
    case (Some d)
    with Pair have "slot_state p1 w = Some Dead" by (simp add: take_lease_worker_def take_worker_if_slot(1))
    with Pair Some show ?thesis by (simp add: mark_dead_for_lease_def slot_belongs_state forget_slot_def)
  qed
qed

lemma settle_open_same:
  assumes "settle_open cfg db_path closed h tool prev result p = (r, p1)" "r = result" "\<forall>e. result = Inl e \<longrightarrow> (\<exists>x. e = RemoteCall x)"
  shows "slot_state p1 (wh_slot h) = slot_state p (wh_slot h)"
  using assms
  by (auto simp: settle_open_def slot_state_with_slot slot_state_def [symmetric] split: option.splits if_splits sum.splits)
    (auto simp: slot_state_def)

lemma settle_open_other:
  assumes "settle_open cfg db_path closed h tool prev result p = (r, p1)" "r \<noteq> result"
  shows "\<not> slot_belongs p1 (wh_slot h) (wh_lease_id h)"
  using assms
  by (auto simp: settle_open_def mark_dead_ends_lease split: option.splits if_splits)
    (auto simp: slot_belongs_def slot_state_def)

lemma reply_retire_error_not_remote: "reply_retire_error t tool reply \<noteq> Some (RemoteCall e)"
  by (auto simp: reply_retire_error_def sdk_crash_def child_tool_error_retires_worker_def split: option.splits if_splits)

text \<open>Whether a settled call leaves its worker to the session.\<close>

definition keeps_worker :: "(tool_error + call_tool_result) option \<Rightarrow> bool" where
  "keeps_worker r \<longleftrightarrow> (case r of
     Some (Inr _) \<Rightarrow> True
   | Some (Inl (RemoteCall _)) \<Rightarrow> True
   | _ \<Rightarrow> False)"

lemma keeps_worker_simps [simp]:
  "keeps_worker (Some (Inr x))" "keeps_worker (Some (Inl e)) \<longleftrightarrow> (\<exists>y. e = RemoteCall y)" "\<not> keeps_worker None"
  by (cases e; simp add: keeps_worker_def)+

lemma settled_decides:
  assumes "keeps_worker (Some result)"
    and "(if tracks then (case settle_open cfg db_path closed h tool prev result p of (r, p1) \<Rightarrow> (Some r, p1))
          else (Some result, p)) = (r', p')"
  shows "if keeps_worker r' then slot_state p' (wh_slot h) = slot_state p (wh_slot h)
    else \<not> slot_belongs p' (wh_slot h) (wh_lease_id h)"
proof (cases tracks)
  case False
  with assms show ?thesis by auto
next
  case True
  obtain r p1 where so: "settle_open cfg db_path closed h tool prev result p = (r, p1)" by fastforce
  with True assms(2) have eq: "r' = Some r" "p' = p1" by simp_all
  show ?thesis
  proof (cases "r = result")
    case True
    have "\<forall>e. result = Inl e \<longrightarrow> (\<exists>x. e = RemoteCall x)" using assms(1) by auto
    with settle_open_same [OF so True] assms(1) True eq show ?thesis by simp
  next
    case False
    then have "r = Inl DatabaseReplaced \<or> (\<exists>w t. r = Inl (WorkerCrashed w t))"
      using so by (auto simp: settle_open_def split: option.splits if_splits)
    then have "\<not> keeps_worker r'" using eq by auto
    with settle_open_other [OF so False] eq show ?thesis by simp
  qed
qed

lemma call_settle_decides:
  assumes "call_settle cfg db_path closed h tool timeout tracks prev cancelled ex p = (r, p')"
  shows "if keeps_worker r then slot_state p' (wh_slot h) = slot_state p (wh_slot h)
    else \<not> slot_belongs p' (wh_slot h) (wh_lease_id h)"
proof -
  have retired: ?thesis if "p' = snd (mark_dead_for_lease cfg (wh_slot h) (wh_lease_id h) p)" "\<not> keeps_worker r"
    using that by (simp add: mark_dead_ends_lease)
  have reply: "keeps_worker (Some (Inr x))" "keeps_worker (Some (Inl (RemoteCall y)))" for x y
    by simp_all
  show ?thesis
  proof (cases "cancelled")
    case True
    with assms show ?thesis by (intro retired) (auto simp: call_settle_def Let_def)
  next
    case False
    show ?thesis
    proof (cases ex)
      case (ExecReply x)
      show ?thesis
      proof (cases x)
        case (Inl e)
        show ?thesis
        proof (cases "\<exists>y. e = RemoteCall y")
          case True
          then obtain y where e: "e = RemoteCall y" by blast
          with False ExecReply Inl assms
          have "(if tracks then (case settle_open cfg db_path closed h tool prev (Inl (RemoteCall y)) p of
              (r, p1) \<Rightarrow> (Some r, p1)) else (Some (Inl (RemoteCall y)), p)) = (r, p')"
            by (simp add: call_settle_def Let_def)
          then show ?thesis by (rule settled_decides [OF reply(2)])
        next
          case other: False
          with False ExecReply Inl assms show ?thesis
            by (intro retired) (auto simp: call_settle_def Let_def split: tool_error.splits)
        qed
      next
        case (Inr reply)
        show ?thesis
        proof (cases "reply_retire_error tracks tool reply")
          case None
          with False ExecReply Inr assms show ?thesis
            by (intro settled_decides [OF reply(1)]) (auto simp: call_settle_def Let_def)
        next
          case (Some e)
          with False ExecReply Inr assms show ?thesis
            by (intro retired) (auto simp: call_settle_def Let_def reply_retire_error_not_remote)
        qed
      qed
    qed (use False assms in \<open>intro retired; auto simp: call_settle_def Let_def\<close>)+
  qed
qed

text \<open>
  The outcome of a dispatched call says truthfully what became of its worker, whatever
  other tasks do meanwhile. A tool result or a correlated protocol error leaves the slot
  as it was; every other outcome, be it a timeout, a cancellation, a dropped call, a lost
  transport, an SDK crash or an unsettled open, means that the lease no longer holds the
  worker.
\<close>

theorem call_outcome_decides_worker:
  assumes "call_admission h tool timeout od adm p = (Inr x, p1)"
    and "call_tool_admitted cfg db_path closed h tool timeout elapsed od adm mid cancel ex p = (r, p')"
  shows "if keeps_worker r then slot_state p' (wh_slot h) = slot_state (mid p1) (wh_slot h)
    else \<not> slot_belongs p' (wh_slot h) (wh_lease_id h)"
proof -
  obtain send prev where "x = (send, prev)" by (cases x)
  with assms have "call_settle cfg db_path closed h tool (timeout - elapsed) (od \<noteq> None) prev
      (cancel \<and> \<not> wh_preserve_on_cancel h) (case send of Some e \<Rightarrow> ExecReply (Inl e) | None \<Rightarrow> ex) (mid p1) = (r, p')"
    by (simp add: call_tool_admitted_def)
  then show ?thesis by (rule call_settle_decides)
qed

definition demo_handle :: worker_handle where
  "demo_handle = new_handle 0 ''a'' 1"

lemma demo_handle_fields [simp]:
  "wh_slot demo_handle = 0" "wh_session_id demo_handle = ''a''" "wh_lease_id demo_handle = 1" "\<not> wh_preserve_on_cancel demo_handle"
  by (simp_all add: demo_handle_def new_handle_def)

theorem call_outcome_decides_worker_witness:
  "\<not> slot_belongs (snd (call_tool_admitted demo_cfg (\<lambda>_ _. None) False demo_handle ''decompile'' 5 2 None (AdmReady None) id
      False ExecTimedOut (demo_pool (Leased ''a'' 1) 5 1))) 0 1"
proof -
  let ?p = "demo_pool (Leased ''a'' 1) 5 1"
  let ?c = "call_tool_admitted demo_cfg (\<lambda>_ _. None) False demo_handle ''decompile'' 5 2 None (AdmReady None) id
      False ExecTimedOut ?p"
  have adm: "call_admission demo_handle ''decompile'' 5 None (AdmReady None) ?p =
      (Inr (None, None), with_slot 0 (note_dispatch None) ?p)"
    by (simp add: call_admission_def hm_get_def)
  have "fst ?c = Some (Inl (WorkerRetired (overrun_msg ''decompile'' 3 0)))"
    by (simp add: call_tool_admitted_def adm call_settle_def Let_def)
  with call_outcome_decides_worker [OF adm prod.collapse [symmetric], of demo_cfg "\<lambda>_ _. None" False 2 id False ExecTimedOut]
  show ?thesis by simp
qed

text \<open>
  A call that reports \<open>NeverDispatched\<close> really had no effect: the pool is exactly as
  before, the worker and its database untouched, and the child was sent nothing.
\<close>

theorem never_dispatched_has_no_effect:
  assumes "call_tool_admitted cfg db_path closed h tool timeout elapsed od adm mid cancel ex p = (Some (Inl (NeverDispatched m)), p')"
  shows "p' = p \<and> (\<exists>e. call_admission h tool timeout od adm p = (Inl e, p))"
proof (cases "call_admission h tool timeout od adm p")
  case (Pair a p1)
  show ?thesis
  proof (cases a)
    case (Inl e)
    moreover from Inl Pair have "p1 = p"
      by (auto simp: call_admission_def split: admission.splits option.splits if_splits)
    ultimately show ?thesis using Pair assms by (auto simp: call_tool_admitted_def)
  next
    case (Inr x)
    obtain send prev where x: "x = (send, prev)" by (cases x)
    have retire: "reply_retire_error t tl rp \<noteq> Some (NeverDispatched m)" for t tl rp
      by (auto simp: reply_retire_error_def sdk_crash_def child_tool_error_retires_worker_def split: option.splits if_splits)
    from assms Pair Inr x show ?thesis
      by (auto simp: call_tool_admitted_def call_settle_def Let_def settle_open_def retire
          split: if_splits execution.splits sum.splits tool_error.splits option.splits)
  qed
qed

theorem never_dispatched_has_no_effect_witness:
  "snd (call_tool_admitted demo_cfg (\<lambda>_ _. None) False demo_handle ''decompile'' 5 2 None AdmCancelled id
      False ExecTimedOut (demo_pool (Leased ''a'' 1) 5 1)) = demo_pool (Leased ''a'' 1) 5 1"
proof -
  let ?c = "call_tool_admitted demo_cfg (\<lambda>_ _. None) False demo_handle ''decompile'' 5 2 None AdmCancelled id
      False ExecTimedOut (demo_pool (Leased ''a'' 1) 5 1)"
  have "\<exists>m. ?c = (Some (Inl (NeverDispatched m)), snd ?c)"
    by (simp add: call_tool_admitted_def call_admission_def)
  then obtain m where "?c = (Some (Inl (NeverDispatched m)), snd ?c)" by blast
  from never_dispatched_has_no_effect [OF this] show ?thesis by simp
qed

text \<open>
  An error reply is classified by its text, so a failed lookup can cost the session its
  worker: resolving a function whose name contains the words of the closed-channel error
  is answered by the child with an ordinary tool error, which the router takes for a lost
  worker and retires, database and all.
\<close>

theorem error_text_retires_worker:
  "result_error (to_tool_result (FunctionNameNotFound ''worker channel closed'')) ''resolve_function'' = Some WorkerClosed
   \<and> reply_retire_error False ''resolve_function'' (to_tool_result (FunctionNameNotFound ''worker channel closed'')) = Some WorkerClosed
   \<and> \<not> is_fatal (FunctionNameNotFound ''worker channel closed'')"
  by code_simp

section \<open>Release\<close>

lemma mark_dead_for_lease_state:
  "slot_state (snd (mark_dead_for_lease cfg w l p)) w = (if slot_belongs p w l then Some Dead else slot_state p w)"
proof (cases "take_lease_worker w l p")
  case (Pair r p1)
  show ?thesis
  proof (cases r)
    case None
    with Pair have "p1 = p \<and> \<not> slot_belongs p w l"
      by (auto simp: take_lease_worker_def take_worker_if_def slot_belongs_def slot_state_def split: option.splits if_splits)
    with Pair None show ?thesis by (simp add: mark_dead_for_lease_def)
  next
    case (Some d)
    then have "slot_belongs p w l"
      using Pair by (auto simp: take_lease_worker_def slot_belongs_def slot_state_def dest!: take_worker_ifD)
    moreover have "slot_state p1 w = Some Dead" using Pair Some by (simp add: take_lease_worker_def take_worker_if_slot(1))
    ultimately show ?thesis using Pair Some by (simp add: mark_dead_for_lease_def forget_slot_def)
  qed
qed

lemma reset_idle_state: "slot_state p w = Some st \<Longrightarrow> slot_state (with_slot w (reset_idle now) p) w = Some Idle"
  using with_slot_one [of p w st "reset_idle now" "\<lambda>_. Idle" w] by (simp add: reset_idle_def)

text \<open>
  Releasing ends the lease in every case. While the child closes its database the slot
  stays closing for this lease or is killed (which the pool guarantees, see the invariant
  on releases); then a release that reports success leaves the worker idle and reusable,
  or dead if it was killed meanwhile, and a release that reports an error has retired the
  worker. A clean close of a living worker always makes it idle.
\<close>

theorem release_outcome:
  fixes h :: worker_handle
  defines "w \<equiv> wh_slot h" and "l \<equiv> wh_lease_id h"
  assumes "slot_belongs p w l" and "slot_state (mid (snd (release_begin h p))) w \<in> {Some (Closing l), Some Dead}"
    and "release_inner cfg h out now mid p = (r, p')"
  shows "\<not> slot_belongs p' w l
    \<and> (r = Inr () \<longrightarrow> slot_state p' w \<in> {Some Idle, Some Dead})
    \<and> (\<forall>e. r = Inl e \<longrightarrow> slot_state p' w = Some Dead)
    \<and> (close_error_of cfg out = None \<and> slot_state (mid (snd (release_begin h p))) w = Some (Closing l) \<longrightarrow>
         r = Inr () \<and> slot_state p' w = Some Idle)"
proof -
  let ?q = "mid (snd (release_begin h p))"
  have fin: "release_finish cfg h now (close_error_of cfg out) ?q = (r, p')"
    using assms(3,5) by (simp add: release_inner_def release_begin_def w_def l_def)
  have belongs: "slot_state ?q w = Some (Closing l) \<Longrightarrow> slot_belongs ?q w l" by (simp add: slot_belongs_def)
  have dead: "slot_state ?q w = Some Dead \<Longrightarrow> \<not> slot_belongs ?q w l" by (simp add: slot_belongs_def)
  have idle: "slot_state ?q w = Some (Closing l) \<Longrightarrow> slot_state (with_slot w (reset_idle now) ?q) w = Some Idle"
    by (rule reset_idle_state)
  show ?thesis
  proof (cases "close_error_of cfg out")
    case None
    with fin assms(4) idle show ?thesis
      by (auto simp: release_finish_def slot_belongs_state simp flip: w_def l_def split: if_splits)
  next
    case (Some err)
    with fin assms(4) idle belongs dead mark_dead_for_lease_state [of cfg w l ?q] show ?thesis
      by (auto simp: release_finish_def slot_belongs_state simp flip: w_def l_def split: if_splits)
  qed
qed

theorem release_outcome_witness:
  "\<not> slot_belongs (snd (release_inner demo_cfg demo_handle CloseTimedOut 9 id (demo_pool (Leased ''a'' 1) 5 1))) 0 1"
proof -
  let ?p = "demo_pool (Leased ''a'' 1) 5 1"
  have b: "slot_belongs ?p (wh_slot demo_handle) (wh_lease_id demo_handle)"
    by (simp add: slot_belongs_def slot_state_def hm_get_def)
  moreover from b have "slot_state (id (snd (release_begin demo_handle ?p))) (wh_slot demo_handle) = Some (Closing (wh_lease_id demo_handle))"
    by (simp add: release_begin_def slot_state_with_slot hm_get_def)
  ultimately show ?thesis
    using release_outcome [of ?p demo_handle id demo_cfg CloseTimedOut 9, OF _ _ prod.collapse [symmetric]] by simp
qed

section \<open>Shutdown\<close>

lemma mark_dead_without_effect:
  "slot_state (mark_dead_without_replacement cfg w p) v = (if v = w \<and> slot_state p w \<noteq> None then Some Dead else slot_state p v)"
  "pi_children (mark_dead_without_replacement cfg w p) = filter (\<lambda>c. c \<noteq> w) (pi_children p)"
  using discard_state(1,2) [of w p]
  by (simp_all add: mark_dead_without_replacement_def mark_dead_inner_def discard_uninstalled_slot_def Let_def)

lemma fold_mark_dead:
  "(\<forall>v. slot_live (fold (mark_dead_without_replacement cfg) ws p) v \<longrightarrow> slot_live p v \<and> v \<notin> set ws)
   \<and> set (pi_children (fold (mark_dead_without_replacement cfg) ws p)) = set (pi_children p) - set ws"
proof (induction ws arbitrary: p)
  case (Cons w ws)
  have live: "slot_live (mark_dead_without_replacement cfg w p) v \<Longrightarrow> slot_live p v \<and> v \<noteq> w" for v
    by (auto simp: slot_live_def mark_dead_without_effect split: if_splits)
  from Cons.IH [of "mark_dead_without_replacement cfg w p"] live show ?case
    by (auto simp: mark_dead_without_effect)
qed simp

lemma mark_dead_without_flag:
  "pi_shutting_down (mark_dead_without_replacement cfg w p) = pi_shutting_down p"
  by (auto simp: mark_dead_without_replacement_def mark_dead_inner_def take_dead_worker_def take_worker_if_def forget_slot_def
      Let_def split: option.splits)

lemma fold_mark_dead_flag:
  "pi_shutting_down (fold (mark_dead_without_replacement cfg) ws p) = pi_shutting_down p"
  by (induction ws arbitrary: p) (simp_all add: mark_dead_without_flag)

text \<open>The state after a shutdown. No operation of the pool leaves it.\<close>

definition pool_over :: "pool_sys \<Rightarrow> bool" where
  "pool_over s \<longleftrightarrow> pi_shutting_down (sy_pool s) \<and> (\<forall>w. \<not> slot_live (sy_pool s) w) \<and> sy_starting s = []"

lemma dead_pool_no_lease: "\<forall>w. \<not> slot_live p w \<Longrightarrow> \<not> slot_belongs p w l"
  unfolding slot_belongs_state slot_live_state by (metis belongs_to_lease.simps(4))

lemma shutting_scan: "pi_shutting_down p \<Longrightarrow> lease_scan cfg session l now p = (ScanError WorkerClosed, p)"
  by (simp add: lease_scan_def)

lemma shutting_replenish: "pi_shutting_down p \<Longrightarrow> schedule_replenishment cfg p = ([], p)"
  by (cases "min (cf_min_workers cfg) (cf_max_workers cfg)") (simp_all add: schedule_replenishment_def)

lemma discard_flag: "pi_shutting_down (discard_uninstalled_slot w p) = pi_shutting_down p"
  by (auto simp: discard_uninstalled_slot_def take_dead_worker_def take_worker_if_def forget_slot_def split: option.splits)

lemma shutting_step:
  assumes "pool_step cfg s s'" "pi_shutting_down (sy_pool s)"
  shows "pi_shutting_down (sy_pool s')"
  using assms(1)
proof (cases rule: pool_step.cases)
  case (dispatched h tool timeout od adm r p)
  then show ?thesis using call_admission_Inr(1) [OF dispatched(2)] assms(2) by auto
next
  case (idle_reaped w t d p)
  then show ?thesis using assms(2) by (auto simp: take_stale_idle_worker_if_above_min_def take_worker_if_slot(4) split: if_splits)
qed (use assms(2) in \<open>auto simp: alloc_lease_id_def after_scan_def shutting_scan shutting_replenish finish_spawn_reservation_def
    Let_def discard_flag take_lease_worker_def take_dead_worker_def take_worker_if_slot(4) forget_slot_def release_begin_def
    begin_drain_def begin_shutdown_def split: option.splits if_splits\<close>)

lemma over_step:
  assumes "pool_step cfg s s'" "pool_over s"
  shows "pool_over s'"
proof -
  have over: "pi_shutting_down (sy_pool s)" "\<forall>w. \<not> slot_live (sy_pool s) w" "sy_starting s = []"
    using assms(2) by (simp_all add: pool_over_def)
  have flag: "pi_shutting_down (sy_pool s')" by (rule shutting_step [OF assms(1) over(1)])
  have "(\<forall>w. \<not> slot_live (sy_pool s') w) \<and> sy_starting s' = []"
    using assms(1)
  proof (cases rule: pool_step.cases)
    case (lease_start l p session)
    then show ?thesis using over by (auto simp: alloc_lease_id_def split: option.splits)
  next
    case (dispatched h tool timeout od adm r p)
    then show ?thesis using call_admission_Inr(2) [OF dispatched(2)] over(2) by (auto simp: slot_live_state)
  next
    case (idle_reaped w t d p)
    then show ?thesis using over take_worker_if_slot(1)
      by (auto simp: take_stale_idle_worker_if_above_min_def slot_live_state split: if_splits)
  next
    case (release_started h p)
    then show ?thesis using over by (auto simp: release_begin_def dead_pool_no_lease)
  next
    case (open_settled w l path)
    then show ?thesis using over dead_pool_no_lease by blast
  next
    case (release_finished w l now)
    have "hm_get (pi_slots (sy_pool s)) w = None" if "slot_state (sy_pool s) w \<noteq> Some Dead"
      using that spec [OF over(2), of w] by (auto simp: slot_live_def slot_state_def)
    then show ?thesis using release_finished over by (auto simp: slot_live_def slot_state_with_slot)
  next
    case (lease_killed w l d p)
    then show ?thesis using over take_worker_if_slot(1) by (auto simp: take_lease_worker_def slot_live_state)
  next
    case (worker_killed w d p)
    then show ?thesis using over take_worker_if_slot(1) by (auto simp: take_dead_worker_def slot_live_state)
  qed (use over in \<open>auto simp: after_scan_def shutting_scan shutting_replenish starting_idle_def forget_slot_def
      begin_drain_def begin_shutdown_def slot_live_state slot_state_def\<close>)
  with flag show ?thesis by (simp add: pool_over_def)
qed

lemma over_run: "(pool_step cfg)\<^sup>*\<^sup>* s s' \<Longrightarrow> pool_over s \<Longrightarrow> pool_over s'"
  by (induction rule: rtranclp_induct) (auto intro: over_step)

text \<open>
  C7: Shutdown leaves nothing running, and nothing starts again. Let \<open>shutdown_all\<close> begin in any reachable
  state \<open>s\<close>, and let the other operations of the pool interleave with it until the starts that were under way
  have ended, in \<open>s1\<close>. Then every worker is dead and the pool is empty when it returns, and in every state that
  any operations reach from there, leases, replenishment and late releases included, no worker is alive or
  being started and a start is refused.
\<close>

theorem shutdown_leaves_no_worker:
  assumes begun: "reach (pool_start cfg) (pool_step cfg) s"
    and waited: "(pool_step cfg)\<^sup>*\<^sup>* (s\<lparr>sy_pool := begin_shutdown (sy_pool s)\<rparr>) s1" "sy_starting s1 = []"
    and settled: "p = shutdown_all cfg (\<lambda>_. sy_pool s1) (sy_pool s)"
    and later: "(pool_step cfg)\<^sup>*\<^sup>* (s1\<lparr>sy_pool := p\<rparr>) s2"
  shows "pi_children p = [] \<and> (\<forall>w. \<not> slot_live p w) \<and> (\<forall>w. \<not> slot_live (sy_pool s2) w) \<and> sy_starting s2 = []
    \<and> reserve_spawn_slot_locked (sy_pool s2) = (Inl WorkerClosed, sy_pool s2)"
proof -
  let ?p1 = "sy_pool s1"
  have step: "pool_step cfg s (s\<lparr>sy_pool := begin_shutdown (sy_pool s)\<rparr>)" by (rule shut_down)
  have "pool_inv cfg s" using begun by (rule pool_system.reach_inv)
  then have "pool_inv cfg (s\<lparr>sy_pool := begin_shutdown (sy_pool s)\<rparr>)" using step by (rule pool_inv_step)
  with waited(1) have "pool_inv cfg s1 \<and> pi_shutting_down ?p1"
    by (induction rule: rtranclp_induct) (auto simp: begin_shutdown_def intro: pool_inv_step shutting_step)
  then have s1: "slot_live ?p1 w \<Longrightarrow> w \<in> set (pi_children ?p1)" "pi_shutting_down ?p1" for w
    by (auto simp: pool_inv_def ids_ok_def)
  have p: "p = fold (mark_dead_without_replacement cfg) (pi_children ?p1) ?p1" by (simp add: settled shutdown_all_def Let_def)
  then have dead: "\<forall>w. \<not> slot_live p w" "set (pi_children p) = {}"
    using fold_mark_dead [of cfg "pi_children ?p1" ?p1] s1(1) by auto
  then have "pool_over (s1\<lparr>sy_pool := p\<rparr>)"
    using waited(2) s1(2) fold_mark_dead_flag [of cfg "pi_children ?p1" ?p1] by (simp add: pool_over_def p)
  then have "pool_over s2" by (rule over_run [OF later])
  with dead show ?thesis by (simp add: pool_over_def reserve_spawn_slot_locked_def)
qed

theorem shutdown_leaves_no_worker_witness:
  "\<not> slot_live (shutdown_all demo_cfg (\<lambda>_. begin_shutdown (demo_pool (Leased ''a'' 1) 5 1)) (demo_pool (Leased ''a'' 1) 5 1)) 0"
proof -
  let ?s = "quiet (demo_pool (Leased ''a'' 1) 5 1)"
  let ?s1 = "?s\<lparr>sy_pool := begin_shutdown (sy_pool ?s)\<rparr>"
  have "sy_starting ?s1 = []" by (simp add: quiet_def)
  from shutdown_leaves_no_worker [OF demo_leased rtranclp.rtrancl_refl this refl rtranclp.rtrancl_refl]
  show ?thesis by (simp add: quiet_def)
qed

section \<open>Timeouts\<close>

text \<open>
  A requested timeout is capped at ten minutes, gets ten seconds of grace for the
  parent, and never exceeds the operator's limit; the addition cannot wrap. The watchdog
  of a close is never shorter than the child's send, debugger teardown and grace budgets
  together, nor than the operator's limit.
\<close>

theorem pool_timeouts:
  "worker_op_timeout cfg (Some s) = min (from_secs (min s 600 + 10)) (cf_worker_op_timeout cfg)
   \<and> worker_op_timeout cfg None = cf_worker_op_timeout cfg
   \<and> from_secs 20 \<le> close_rpc_timeout cfg \<and> cf_worker_op_timeout cfg \<le> close_rpc_timeout cfg"
  by (simp add: worker_op_timeout_def close_rpc_timeout_def u64_saturating_add_def MAX_TIMEOUT_SECS_def
      CHILD_TIMEOUT_GRACE_SECS_def MIN_CHILD_CLOSE_RPC_TIMEOUT_SECS_def CLOSE_SEND_TIMEOUT_SECS_def
      DEBUGGER_TEARDOWN_TIMEOUT_SECS_def min_def)

end
