(* ===== verification/Workspace_Database.thy ===== *)
theory Workspace_Database
  imports Pool_Handlers
begin

text \<open>
  \<open>src/src/ida/pool.rs\<close>, one workspace database, and the close tokens of
  \<open>src/src/ida/worker.rs\<close>: the lease that binds a database to a pooled worker, its generation,
  its debug pin, and every handler that takes, uses or ends it.

  The state is the database together with the pool. The lock on \<open>handle\<close> is one function
  here; where a handler gives it up, an argument (\<open>gap\<close> and its like) is what other tasks
  do to the database and the pool meanwhile.
\<close>

section \<open>Close tokens\<close>

record close_token_lease =
  ct_token :: string
  ct_owner_session_id :: string

record close_token_grant =
  cg_token :: string
  cg_reused :: bool
  cg_owner_session_id :: string

datatype close_authorization =
    Granted
  | GrantedByOverride string
  | Denied string

text \<open>\<open>fresh\<close> is the token that \<open>generate_token\<close> draws.\<close>

definition issue_for_session ::
  "string \<Rightarrow> string \<Rightarrow> close_token_lease option \<Rightarrow> (string + close_token_grant) \<times> close_token_lease option" where
  "issue_for_session fresh session_id state =
     (case state of
        Some held \<Rightarrow>
          (if ct_owner_session_id held = session_id
           then Inr \<lparr>cg_token = ct_token held, cg_reused = True, cg_owner_session_id = ct_owner_session_id held\<rparr>
           else Inl (ct_owner_session_id held), state)
      | None \<Rightarrow>
          (Inr \<lparr>cg_token = fresh, cg_reused = False, cg_owner_session_id = session_id\<rparr>,
           Some \<lparr>ct_token = fresh, ct_owner_session_id = session_id\<rparr>))"

definition authorize_close ::
  "string \<Rightarrow> string option \<Rightarrow> bool \<Rightarrow> close_token_lease option \<Rightarrow> close_authorization" where
  "authorize_close session_id tok force state =
     (case state of
        None \<Rightarrow> Granted
      | Some held \<Rightarrow>
          if tok = Some (ct_token held) \<or> ct_owner_session_id held = session_id then Granted
          else if force then GrantedByOverride (ct_owner_session_id held)
          else Denied (ct_owner_session_id held))"

section \<open>Calls on a leased worker\<close>

text \<open>How a shared call gets into the pool's set of supervised calls.\<close>

datatype shared_admission =
    SharedCancelled
  | SharedTimedOut
  | SharedAdmitted

text \<open>
  What happens around one call: the queue length it meets, how admission and execution
  end, what other tasks do to the pool meanwhile, whether the caller stops waiting for a
  shared call.
\<close>

record call_env =
  ce_queued :: nat
  ce_shared :: shared_admission
  ce_waited :: duration
  ce_elapsed :: duration
  ce_admission :: admission
  ce_mid :: "pool_inner \<Rightarrow> pool_inner"
  ce_cancel_fires :: bool
  ce_execution :: execution
  ce_transport_closed :: bool
  ce_caller_gone :: bool

definition call_tool ::
  "pool_config \<Rightarrow> (call_tool_result \<Rightarrow> string \<Rightarrow> string option) \<Rightarrow> worker_handle \<Rightarrow> string \<Rightarrow> duration \<Rightarrow>
   open_dispatch option \<Rightarrow> call_env \<Rightarrow> pool_inner \<Rightarrow> (tool_error + call_tool_result) option \<times> pool_inner" where
  "call_tool cfg db_path h tool timeout od env p =
     (let admitted = (\<lambda>t. call_tool_admitted cfg db_path (ce_transport_closed env) h tool t (ce_elapsed env) od
                          (ce_admission env) (ce_mid env) (ce_cancel_fires env) (ce_execution env) p)
      in case admit_queued (ce_queued env) of
           (Some e, _) \<Rightarrow> (Some (Inl e), p)
         | (None, _) \<Rightarrow>
             if \<not> wh_preserve_on_cancel h then admitted timeout
             else (case ce_shared env of
                SharedCancelled \<Rightarrow>
                  (Some (Inl (NeverDispatched (''cancelled '' @ tool @ '' before dispatch to the IDA worker''))), p)
              | SharedTimedOut \<Rightarrow>
                  (Some (Inl (NeverDispatched (tool @ '' timed out waiting for worker admission''))), p)
              | SharedAdmitted \<Rightarrow>
                  if pi_shutting_down p then (Some (Inl (NeverDispatched (shutting_down_msg tool))), p)
                  else (case admitted (timeout - ce_waited env) of
                     (r, p1) \<Rightarrow>
                       (if ce_caller_gone env then None
                        else Some (case r of Some x \<Rightarrow> x | None \<Rightarrow> Inl (WorkerCrashed (wh_slot h) tool)), p1))))"

text \<open>\<open>release\<close>: beside the result, whether an idle timer is started for the slot.\<close>

definition release ::
  "pool_config \<Rightarrow> worker_handle \<Rightarrow> close_outcome \<Rightarrow> instant \<Rightarrow> (pool_inner \<Rightarrow> pool_inner) \<Rightarrow> pool_inner \<Rightarrow>
   ((tool_error + unit) \<times> bool) \<times> pool_inner" where
  "release cfg h out now mid p =
     (case release_inner cfg h out now mid p of
        (r, p1) \<Rightarrow> ((r, slot_state p1 (wh_slot h) = Some Idle), p1))"

section \<open>The database\<close>

record database_lease =
  dl_handle :: worker_handle
  dl_generation :: u64
  dl_close_token :: "close_token_lease option"
  dl_debug_pinned :: bool

record workspace_database =
  wd_session_id :: string
  wd_shared_http :: bool
  wd_handle :: "database_lease option"
  wd_next_generation :: u64

type_synonym ws = "workspace_database \<times> pool_inner"

definition workspace_database_new :: "string \<Rightarrow> workspace_database" where
  "workspace_database_new session_id =
     \<lparr>wd_session_id = session_id, wd_shared_http = False, wd_handle = None, wd_next_generation = 0\<rparr>"

definition new_shared_http :: workspace_database where
  "new_shared_http = (workspace_database_new ''http'')\<lparr>wd_shared_http := True\<rparr>"

definition transport_closed :: "bool \<Rightarrow> pooled_child \<Rightarrow> bool" where
  "transport_closed service_closed c \<longleftrightarrow> \<not> pc_service c \<or> service_closed"

definition set_debug_pin_for_lease :: "usize \<times> u64 \<Rightarrow> bool \<Rightarrow> workspace_database \<Rightarrow> bool \<times> workspace_database" where
  "set_debug_pin_for_lease held pinned d =
     (case wd_handle d of
        None \<Rightarrow> (False, d)
      | Some current \<Rightarrow>
          if wh_slot (dl_handle current) \<noteq> fst held \<or> dl_generation current \<noteq> snd held then (False, d)
          else (True, d\<lparr>wd_handle := Some (current\<lparr>dl_debug_pinned := pinned\<rparr>)\<rparr>))"

definition generation_exhausted :: tool_error where
  "generation_exhausted = IdaError ''database generation counter exhausted''"

definition next_database_generation :: "workspace_database \<Rightarrow> (tool_error + u64) \<times> workspace_database" where
  "next_database_generation d =
     (case checked_add (wd_next_generation d) 1 of
        None \<Rightarrow> (Inl generation_exhausted, d)
      | Some g \<Rightarrow> (Inr g, d\<lparr>wd_next_generation := g\<rparr>))"

definition require_lease_generation :: "u64 \<Rightarrow> u64 option \<Rightarrow> tool_error + unit" where
  "require_lease_generation current expected =
     (case expected of
        None \<Rightarrow> Inr ()
      | Some e \<Rightarrow> if current = e then Inr () else Inl DatabaseReplaced)"

definition required_handle_for_generation ::
  "u64 option \<Rightarrow> workspace_database \<Rightarrow> tool_error + worker_handle \<times> u64" where
  "required_handle_for_generation expected d =
     (case wd_handle d of
        None \<Rightarrow> Inl NoDatabaseOpen
      | Some held \<Rightarrow>
          (case require_lease_generation (dl_generation held) expected of
             Inl e \<Rightarrow> Inl e
           | Inr _ \<Rightarrow> Inr (dl_handle held, dl_generation held)))"

definition take_handle :: "workspace_database \<Rightarrow> database_lease option \<times> workspace_database" where
  "take_handle d = (wd_handle d, d\<lparr>wd_handle := None\<rparr>)"

definition clear_handle_if_lease :: "usize \<Rightarrow> u64 \<Rightarrow> workspace_database \<Rightarrow> bool \<times> workspace_database" where
  "clear_handle_if_lease worker_id generation d =
     (case wd_handle d of
        Some held \<Rightarrow>
          if wh_slot (dl_handle held) = worker_id \<and> dl_generation held = generation
          then (dl_debug_pinned held, d\<lparr>wd_handle := None\<rparr>)
          else (False, d)
      | None \<Rightarrow> (False, d))"

text \<open>
  \<open>lease_for_open\<close> keeps the lock on \<open>handle\<close> throughout; only the pool can change under
  it. \<open>settled\<close> is what happens while it waits for the stale worker's call lock, and
  \<open>acquire\<close> is \<open>lease\<close> at its remaining arguments.
\<close>

type_synonym acquire = "string \<Rightarrow> pool_inner \<Rightarrow> (tool_error + worker_handle) \<times> pool_inner"

definition install_lease :: "acquire \<Rightarrow> ws \<Rightarrow> (tool_error + worker_handle \<times> u64 \<times> bool) \<times> ws" where
  "install_lease acquire s =
     (case next_database_generation (fst s) of
        (Inl e, d) \<Rightarrow> (Inl e, (d, snd s))
      | (Inr g, d) \<Rightarrow>
          (case acquire (wd_session_id d) (snd s) of
             (Inl e, p) \<Rightarrow> (Inl e, (d, p))
           | (Inr h, p) \<Rightarrow>
               (let h' = h\<lparr>wh_preserve_on_cancel := wd_shared_http d\<rparr>
                in (Inr (h', g, True),
                    (d\<lparr>wd_handle := Some \<lparr>dl_handle = h', dl_generation = g, dl_close_token = None,
                       dl_debug_pinned = False\<rparr>\<rparr>, p)))))"

definition lease_usable :: "bool \<Rightarrow> worker_handle \<Rightarrow> pool_inner \<Rightarrow> bool" where
  "lease_usable service_closed h p =
     (case hm_get (pi_slots p) (wh_slot h) of
        Some c \<Rightarrow> belongs_to_lease (pc_state c) (wh_lease_id h) \<and> \<not> transport_closed service_closed c
      | None \<Rightarrow> False)"

definition lease_for_open ::
  "pool_config \<Rightarrow> bool \<Rightarrow> (pool_inner \<Rightarrow> pool_inner) \<Rightarrow> acquire \<Rightarrow> ws \<Rightarrow>
   (tool_error + worker_handle \<times> u64 \<times> bool) \<times> ws" where
  "lease_for_open cfg service_closed settled acquire s =
     (case wd_handle (fst s) of
        Some l \<Rightarrow>
          if lease_usable service_closed (dl_handle l) (snd s)
          then (Inr (dl_handle l, dl_generation l, False), s)
          else install_lease acquire
                 ((fst s)\<lparr>wd_handle := None\<rparr>,
                  snd (mark_dead_for_lease cfg (wh_slot (dl_handle l)) (wh_lease_id (dl_handle l)) (settled (snd s))))
      | None \<Rightarrow> install_lease acquire s)"

section \<open>Snapshots and the reaper's probe\<close>

datatype lease_snapshot =
    Bound string bool
  | NoWorker
  | SnapshotBusy

datatype lease_reap_decision =
    NoLease
  | HealthyUnpinned
  | HealthyPinned
  | ReapBusy
  | DeadWorker usize

text \<open>Which of the locks a probe finds taken, and whether the transport has closed.\<close>

record probe_env =
  pe_handle_locked :: bool
  pe_call_locked :: bool
  pe_child_locked :: bool
  pe_service_closed :: bool

definition lease_snapshot :: "probe_env \<Rightarrow> ws \<Rightarrow> lease_snapshot" where
  "lease_snapshot env s =
     (if pe_handle_locked env then SnapshotBusy
      else case wd_handle (fst s) of
        None \<Rightarrow> NoWorker
      | Some l \<Rightarrow>
          if pe_call_locked env then SnapshotBusy
          else if pe_child_locked env then SnapshotBusy
          else (case hm_get (pi_slots (snd s)) (wh_slot (dl_handle l)) of
                  None \<Rightarrow> NoWorker
                | Some c \<Rightarrow>
                    if transport_closed (pe_service_closed env) c then NoWorker
                    else (case pc_idb_path c of
                            None \<Rightarrow> SnapshotBusy
                          | Some path \<Rightarrow> Bound path (dl_debug_pinned l))))"

definition lease_reap_decision :: "probe_env \<Rightarrow> ws \<Rightarrow> lease_reap_decision \<times> workspace_database" where
  "lease_reap_decision env s =
     (if pe_handle_locked env then (ReapBusy, fst s)
      else case wd_handle (fst s) of
        None \<Rightarrow> (NoLease, fst s)
      | Some l \<Rightarrow>
          if pe_child_locked env then (ReapBusy, fst s)
          else if (case hm_get (pi_slots (snd s)) (wh_slot (dl_handle l)) of
                     None \<Rightarrow> True
                   | Some c \<Rightarrow> pc_state c = Dead \<or> transport_closed (pe_service_closed env) c)
          then (DeadWorker (wh_slot (dl_handle l)), (fst s)\<lparr>wd_handle := None\<rparr>)
          else (if dl_debug_pinned l then HealthyPinned else HealthyUnpinned, fst s))"

definition lease_is_absent :: "bool \<Rightarrow> workspace_database \<Rightarrow> bool" where
  "lease_is_absent handle_locked d \<longleftrightarrow> \<not> handle_locked \<and> wd_handle d = None"

section \<open>Dispatching a call\<close>

definition dash :: string where "dash = [CHR 0xE2, CHR 0x80, CHR 0x94]"

fun ends_start_uncertain :: "tool_error \<Rightarrow> bool" where
  "ends_start_uncertain (Timeout _) = True"
| "ends_start_uncertain (TimeoutDetailed _) = True"
| "ends_start_uncertain (WorkerRetired _) = True"
| "ends_start_uncertain _ = False"

definition debugger_worker_loss_error :: "string \<Rightarrow> tool_error \<Rightarrow> bool \<Rightarrow> tool_error" where
  "debugger_worker_loss_error tool err debug_pinned =
     (let uncertain_start = (tool = ''debug_launch'' \<or> tool = ''debug_attach'') \<and> ends_start_uncertain err
      in if \<not> debug_pinned \<and> \<not> uncertain_start then err
         else if uncertain_start \<and> \<not> debug_pinned then
           DebuggerSessionLost (tool @ '' timed out and its worker was retired ('' @ display err @
             ''); ida-mcp cannot determine whether the debugger started before the timeout, and the target process may still be running '' @
             dash @ '' check for a stray debuggee before retrying '' @ tool)
         else
           DebuggerSessionLost (tool @ '' lost the worker hosting this database's debugger session ('' @ display err @
             ''); ida-mcp no longer controls that session and the target process may still be running '' @
             dash @ '' check for a stray debuggee, then reopen the database to start a new session''))"

text \<open>What other tasks do to the database and the pool at the points where a handler holds
  no lock: after the call, between unbinding and retiring, and before a pin is set.\<close>

record gaps =
  gap_called :: "ws \<Rightarrow> ws"
  gap_cleared :: "ws \<Rightarrow> ws"
  gap_parsed :: "ws \<Rightarrow> ws"

type_synonym dispatched_call = "(tool_error + call_tool_result) \<times> (usize \<times> u64) option"

definition unbind_lost_worker ::
  "string \<Rightarrow> worker_handle \<Rightarrow> u64 \<Rightarrow> tool_error \<Rightarrow> ws \<Rightarrow> (tool_error + call_tool_result) \<times> ws" where
  "unbind_lost_worker tool h g err s =
     (case clear_handle_if_lease (wh_slot h) g (fst s) of
        (debug_pinned, d) \<Rightarrow> (Inl (debugger_worker_loss_error tool err debug_pinned), (d, snd s)))"

fun is_remote_call :: "tool_error \<Rightarrow> bool" where
  "is_remote_call (RemoteCall _) = True"
| "is_remote_call _ = False"

text \<open>What becomes of a call's outcome; \<open>s\<close> is the state when the call has answered.\<close>

definition settle_dispatch ::
  "pool_config \<Rightarrow> gaps \<Rightarrow> string \<Rightarrow> worker_handle \<Rightarrow> u64 \<Rightarrow> (tool_error + call_tool_result) \<Rightarrow> ws \<Rightarrow>
   (tool_error + call_tool_result) \<times> ws" where
  "settle_dispatch cfg gs tool h g r s =
     (case r of
        Inr result \<Rightarrow>
          (case result_error result tool of
             None \<Rightarrow> (Inr result, s)
           | Some err \<Rightarrow>
               if child_tool_error_retires_worker tool err
               then (case unbind_lost_worker tool h g err s of
                       (r', s1) \<Rightarrow>
                         (case gap_cleared gs s1 of
                            (d, p) \<Rightarrow> (r', (d, snd (mark_dead_for_lease cfg (wh_slot h) (wh_lease_id h) p)))))
               else (Inl err, s))
      | Inl err \<Rightarrow>
          if never_dispatched err then (Inl err, s)
          else if is_remote_call err then (Inl err, s)
          else unbind_lost_worker tool h g err s)"

text \<open>
  \<open>dispatch_result_observed\<close>. The result is \<open>None\<close> when the caller's future is dropped
  during the call.
\<close>

definition dispatch_result ::
  "pool_config \<Rightarrow> (json \<Rightarrow> string) \<Rightarrow> (call_tool_result \<Rightarrow> string \<Rightarrow> string option) \<Rightarrow> string \<Rightarrow> json \<Rightarrow> nat option \<Rightarrow>
   u64 option \<Rightarrow> call_env \<Rightarrow> gaps \<Rightarrow> ws \<Rightarrow> dispatched_call option \<times> ws" where
  "dispatch_result cfg dbg db_path tool args timeout_secs expected env gs s =
     (case required_handle_for_generation expected (fst s) of
        Inl err \<Rightarrow> (Some (Inl err, None), s)
      | Inr (h, g) \<Rightarrow>
          (case json_object dbg args of
             Inl err \<Rightarrow> (Some (Inl err, Some (wh_slot h, g)), s)
           | Inr _ \<Rightarrow>
               (case call_tool cfg db_path h tool (worker_op_timeout cfg timeout_secs) None env (snd s) of
                  (None, p) \<Rightarrow> (None, gap_called gs (fst s, p))
                | (Some r, p) \<Rightarrow>
                    (case settle_dispatch cfg gs tool h g r (gap_called gs (fst s, p)) of
                       (r', s1) \<Rightarrow> (Some (r', Some (wh_slot h, g)), s1)))))"

definition call_value ::
  "pool_config \<Rightarrow> (json \<Rightarrow> string) \<Rightarrow> (call_tool_result \<Rightarrow> string \<Rightarrow> string option) \<Rightarrow> (string \<Rightarrow> string + json) \<Rightarrow>
   string \<Rightarrow> json \<Rightarrow> nat option \<Rightarrow> u64 option \<Rightarrow> call_env \<Rightarrow> gaps \<Rightarrow> ws \<Rightarrow> (tool_error + json) option \<times> ws" where
  "call_value cfg dbg db_path from_str tool args timeout_secs expected env gs s =
     (case dispatch_result cfg dbg db_path tool args timeout_secs expected env gs s of
        (None, s1) \<Rightarrow> (None, s1)
      | (Some (Inl e, _), s1) \<Rightarrow> (Some (Inl e), s1)
      | (Some (Inr r, _), s1) \<Rightarrow> (Some (parse_value from_str r tool), s1))"

definition call_json ::
  "pool_config \<Rightarrow> (json \<Rightarrow> string) \<Rightarrow> (call_tool_result \<Rightarrow> string \<Rightarrow> string option) \<Rightarrow> (string \<Rightarrow> string + json) \<Rightarrow>
   (json \<Rightarrow> string + 'a) \<Rightarrow> string \<Rightarrow> json \<Rightarrow> nat option \<Rightarrow> u64 option \<Rightarrow> call_env \<Rightarrow> gaps \<Rightarrow> ws \<Rightarrow>
   (tool_error + 'a) option \<times> ws" where
  "call_json cfg dbg db_path from_str from_value tool args timeout_secs expected env gs s =
     (case dispatch_result cfg dbg db_path tool args timeout_secs expected env gs s of
        (None, s1) \<Rightarrow> (None, s1)
      | (Some (Inl e, _), s1) \<Rightarrow> (Some (Inl e), s1)
      | (Some (Inr r, _), s1) \<Rightarrow> (Some (parse_json from_str from_value r tool), s1))"

definition json_field :: "json \<Rightarrow> string \<Rightarrow> json option" where
  "json_field v key = (case v of JObj m \<Rightarrow> hm_get m key | _ \<Rightarrow> None)"

definition call_json_field ::
  "pool_config \<Rightarrow> (json \<Rightarrow> string) \<Rightarrow> (call_tool_result \<Rightarrow> string \<Rightarrow> string option) \<Rightarrow> (string \<Rightarrow> string + json) \<Rightarrow>
   (json \<Rightarrow> string + 'a) \<Rightarrow> string \<Rightarrow> json \<Rightarrow> string \<Rightarrow> nat option \<Rightarrow> u64 option \<Rightarrow> call_env \<Rightarrow> gaps \<Rightarrow> ws \<Rightarrow>
   (tool_error + 'a) option \<times> ws" where
  "call_json_field cfg dbg db_path from_str from_value tool args field timeout_secs expected env gs s =
     (case call_value cfg dbg db_path from_str tool args timeout_secs expected env gs s of
        (None, s1) \<Rightarrow> (None, s1)
      | (Some (Inl e), s1) \<Rightarrow> (Some (Inl e), s1)
      | (Some (Inr v), s1) \<Rightarrow>
          (Some (case json_field v field of
             None \<Rightarrow> Inl (RemoteProtocol (''child tool '' @ tool @ '' response did not contain `'' @ field @ ''`''))
           | Some fv \<Rightarrow>
               (case from_value fv of
                  Inl err \<Rightarrow> Inl (RemoteProtocol (''invalid '' @ tool @ ''.'' @ field @ '' response: '' @ err))
                | Inr x \<Rightarrow> Inr x)), s1))"

definition call_text ::
  "pool_config \<Rightarrow> (json \<Rightarrow> string) \<Rightarrow> (call_tool_result \<Rightarrow> string \<Rightarrow> string option) \<Rightarrow>
   string \<Rightarrow> json \<Rightarrow> nat option \<Rightarrow> call_env \<Rightarrow> gaps \<Rightarrow> ws \<Rightarrow> (tool_error + string) option \<times> ws" where
  "call_text cfg dbg db_path tool args timeout_secs env gs s =
     (case dispatch_result cfg dbg db_path tool args timeout_secs None env gs s of
        (None, s1) \<Rightarrow> (None, s1)
      | (Some (Inl e, _), s1) \<Rightarrow> (Some (Inl e), s1)
      | (Some (Inr r, _), s1) \<Rightarrow> (Some (result_text r tool), s1))"

section \<open>Closing and opening\<close>

datatype conditional_close_result = Closed | NotCurrent

text \<open>How the close of a worker's database ends, for \<open>release\<close>.\<close>

record close_env =
  cl_outcome :: close_outcome
  cl_now :: instant
  cl_mid :: "pool_inner \<Rightarrow> pool_inner"

definition release_lease :: "pool_config \<Rightarrow> close_env \<Rightarrow> database_lease \<Rightarrow> pool_inner \<Rightarrow> (tool_error + unit) \<times> pool_inner" where
  "release_lease cfg ce l p =
     (case release cfg (dl_handle l) (cl_outcome ce) (cl_now ce) (cl_mid ce) p of ((r, _), p1) \<Rightarrow> (r, p1))"

definition close_database :: "pool_config \<Rightarrow> close_env \<Rightarrow> ws \<Rightarrow> (tool_error + unit) \<times> ws" where
  "close_database cfg ce s =
     (case take_handle (fst s) of
        (None, d) \<Rightarrow> (Inl NoDatabaseOpen, (d, snd s))
      | (Some l, d) \<Rightarrow> (case release_lease cfg ce l (snd s) of (r, p) \<Rightarrow> (r, (d, p))))"

definition close_if_generation ::
  "pool_config \<Rightarrow> close_env \<Rightarrow> u64 \<Rightarrow> ws \<Rightarrow> (tool_error + conditional_close_result) \<times> ws" where
  "close_if_generation cfg ce generation s =
     (case wd_handle (fst s) of
        None \<Rightarrow> (Inr NotCurrent, s)
      | Some l \<Rightarrow>
          if dl_generation l \<noteq> generation then (Inr NotCurrent, s)
          else (case release_lease cfg ce l (snd s) of
                  (Inl e, p) \<Rightarrow> (Inl e, ((fst s)\<lparr>wd_handle := None\<rparr>, p))
                | (Inr _, p) \<Rightarrow> (Inr Closed, ((fst s)\<lparr>wd_handle := None\<rparr>, p))))"

definition issue_close_token ::
  "string \<Rightarrow> string \<Rightarrow> u64 \<Rightarrow> workspace_database \<Rightarrow> (string + close_token_grant) option \<times> workspace_database" where
  "issue_close_token fresh session_id generation d =
     (case wd_handle d of
        None \<Rightarrow> (None, d)
      | Some l \<Rightarrow>
          if dl_generation l \<noteq> generation then (None, d)
          else (case issue_for_session fresh session_id (dl_close_token l) of
                  (grant, st) \<Rightarrow> (Some grant, d\<lparr>wd_handle := Some (l\<lparr>dl_close_token := st\<rparr>)\<rparr>)))"

definition close_authorized ::
  "pool_config \<Rightarrow> close_env \<Rightarrow> string \<Rightarrow> string option \<Rightarrow> bool \<Rightarrow> ws \<Rightarrow> (tool_error + close_authorization) \<times> ws" where
  "close_authorized cfg ce session_id tok force s =
     (case wd_handle (fst s) of
        None \<Rightarrow> (Inl NoDatabaseOpen, s)
      | Some l \<Rightarrow>
          (case authorize_close session_id tok force (dl_close_token l) of
             Denied owner \<Rightarrow> (Inr (Denied owner), s)
           | authorization \<Rightarrow>
               (case release_lease cfg ce l (snd s) of
                  (Inl e, p) \<Rightarrow> (Inl e, ((fst s)\<lparr>wd_handle := None\<rparr>, p))
                | (Inr _, p) \<Rightarrow> (Inr authorization, ((fst s)\<lparr>wd_handle := None\<rparr>, p)))))"

text \<open>
  \<open>open_observed_with_generation\<close>. \<open>db_info\<close> is \<open>parse_json\<close> at \<open>DbInfo\<close>, \<open>od\<close> the record of
  the open that \<open>OpenDispatch::for_request\<close> makes from the file system. The arguments of
  the child's open are always a JSON object.
\<close>

definition open_observed ::
  "pool_config \<Rightarrow> (call_tool_result \<Rightarrow> string \<Rightarrow> string option) \<Rightarrow> (call_tool_result \<Rightarrow> tool_error + 'info) \<Rightarrow>
   (ws \<Rightarrow> (tool_error + worker_handle \<times> u64 \<times> bool) \<times> ws) \<Rightarrow> open_dispatch \<Rightarrow> nat option \<Rightarrow> call_env \<Rightarrow> gaps \<Rightarrow> close_env \<Rightarrow> ws \<Rightarrow>
   (tool_error + 'info \<times> u64) option \<times> ws" where
  "open_observed cfg db_path db_info leasing od timeout_secs env gs ce s =
     (case leasing s of
        (Inl e, s1) \<Rightarrow> (Some (Inl e), s1)
      | (Inr (h, g, fresh_lease), s1) \<Rightarrow>
          (case call_tool cfg db_path h ''open_idb'' (worker_op_timeout cfg timeout_secs) (Some od) env (snd s1) of
             (None, p) \<Rightarrow> (None, gap_called gs (fst s1, p))
           | (Some r, p) \<Rightarrow>
               (let s2 = gap_called gs (fst s1, p)
                in case (case r of Inl e \<Rightarrow> Inl e | Inr result \<Rightarrow> db_info result) of
                     Inr info \<Rightarrow> (Some (Inr (info, g)), s2)
                   | Inl err \<Rightarrow>
                       (Some (Inl err),
                        if open_error_releases_lease fresh_lease err
                        then snd (close_if_generation cfg ce g s2) else s2))))"

section \<open>Debugger sessions\<close>

definition DEBUGGER_RESPONSE_GRACE_SECS :: nat where "DEBUGGER_RESPONSE_GRACE_SECS = 5"

definition debugger_response_timeout_secs :: "u32 \<Rightarrow> nat" where
  "debugger_response_timeout_secs timeout_seconds =
     u64_saturating_add (unat timeout_seconds) DEBUGGER_RESPONSE_GRACE_SECS"

definition debug_start_retains_session :: "tool_error + json \<Rightarrow> bool" where
  "debug_start_retains_session r =
     (case r of
        Inr v \<Rightarrow> json_field v ''session_retained'' = Some (JBool True)
      | Inl (DebuggerStartRetained _) \<Rightarrow> True
      | Inl _ \<Rightarrow> False)"

definition session_lost_msg :: "string \<Rightarrow> string" where
  "session_lost_msg tool =
     tool @ '' started a debugger session, but its worker was lost before the session could be tracked; '' @
     ''ida-mcp no longer controls that session and the target process may still be running '' @ dash @
     '' check for a stray debuggee before retrying '' @ tool"

text \<open>What a start's result becomes once it is parsed: a retained session is pinned to the
  lease that served it or reported as lost.\<close>

definition settle_start ::
  "(string \<Rightarrow> string + json) \<Rightarrow> string \<Rightarrow> (tool_error + call_tool_result) \<Rightarrow> (usize \<times> u64) option \<Rightarrow> ws \<Rightarrow>
   (tool_error + json) option \<times> ws" where
  "settle_start from_str tool r served s =
     (let result = (case r of Inl e \<Rightarrow> Inl e | Inr reply \<Rightarrow> parse_value from_str reply tool)
      in if debug_start_retains_session result
         then (case (case served of Some l \<Rightarrow> set_debug_pin_for_lease l True (fst s) | None \<Rightarrow> (False, fst s)) of
                 (pinned, d) \<Rightarrow>
                   (Some (if pinned then result else Inl (DebuggerSessionLost (session_lost_msg tool))), (d, snd s)))
         else (Some result, s))"

definition debug_start ::
  "pool_config \<Rightarrow> (json \<Rightarrow> string) \<Rightarrow> (call_tool_result \<Rightarrow> string \<Rightarrow> string option) \<Rightarrow> (string \<Rightarrow> string + json) \<Rightarrow>
   string \<Rightarrow> json \<Rightarrow> u32 \<Rightarrow> call_env \<Rightarrow> gaps \<Rightarrow> ws \<Rightarrow> (tool_error + json) option \<times> ws" where
  "debug_start cfg dbg db_path from_str tool args timeout_seconds env gs s =
     (case dispatch_result cfg dbg db_path tool args (Some (debugger_response_timeout_secs timeout_seconds)) None env gs s of
        (None, s1) \<Rightarrow> (None, s1)
      | (Some (r, served), s1) \<Rightarrow> settle_start from_str tool r served (gap_parsed gs s1))"

definition debug_stop ::
  "pool_config \<Rightarrow> (json \<Rightarrow> string) \<Rightarrow> (call_tool_result \<Rightarrow> string \<Rightarrow> string option) \<Rightarrow> (string \<Rightarrow> string + json) \<Rightarrow>
   json \<Rightarrow> u32 \<Rightarrow> call_env \<Rightarrow> gaps \<Rightarrow> ws \<Rightarrow> (tool_error + json) option \<times> ws" where
  "debug_stop cfg dbg db_path from_str args timeout_seconds env gs s =
     (case dispatch_result cfg dbg db_path ''debug_stop'' args (Some (debugger_response_timeout_secs timeout_seconds)) None env gs s of
        (None, s1) \<Rightarrow> (None, s1)
      | (Some (r, held), s1) \<Rightarrow>
          (let result = (case r of Inl e \<Rightarrow> Inl e | Inr reply \<Rightarrow> parse_value from_str reply ''debug_stop'');
               s2 = gap_parsed gs s1
           in (Some result,
               (case (result, held) of
                  (Inr _, Some l) \<Rightarrow> (snd (set_debug_pin_for_lease l False (fst s2)), snd s2)
                | _ \<Rightarrow> s2))))"

end
