(* ===== verification/Workspace_Contract.thy ===== *)
theory Workspace_Contract
  imports Workspace_Database
begin

text \<open>
  What a workspace database promises: a specification of database lifetimes, the refinement
  of it by the handlers, and the properties that rest on it.

  A lifetime is a numbered span in which the database is bound to one worker. Numbers are
  never used twice, at most one lifetime is live, and the debug pin and the owner of the
  close token belong to the live lifetime only.
\<close>

section \<open>Lifetimes\<close>

record lifetime =
  lt_number :: nat
  lt_worker :: usize
  lt_pinned :: bool
  lt_owner :: "string option"

record lifetimes =
  lf_issued :: nat
  lf_live :: "lifetime option"

inductive lifetime_step :: "lifetimes \<Rightarrow> lifetimes \<Rightarrow> bool" where
  burn: "lf_live s = None \<Longrightarrow> lifetime_step s (s\<lparr>lf_issued := Suc (lf_issued s)\<rparr>)"
| start: "lf_live s = None \<Longrightarrow>
    lifetime_step s \<lparr>lf_issued = Suc (lf_issued s),
      lf_live = Some \<lparr>lt_number = Suc (lf_issued s), lt_worker = w, lt_pinned = False, lt_owner = None\<rparr>\<rparr>"
| finish: "lifetime_step s (s\<lparr>lf_live := None\<rparr>)"
| pin: "lf_live s = Some t \<Longrightarrow> lifetime_step s (s\<lparr>lf_live := Some (t\<lparr>lt_pinned := b\<rparr>)\<rparr>)"
| claim: "lf_live s = Some t \<Longrightarrow> lt_owner t = None \<Longrightarrow>
    lifetime_step s (s\<lparr>lf_live := Some (t\<lparr>lt_owner := Some owner\<rparr>)\<rparr>)"

definition lifetimes_of :: "workspace_database \<Rightarrow> lifetimes" where
  "lifetimes_of d =
     \<lparr>lf_issued = unat (wd_next_generation d),
      lf_live = map_option (\<lambda>l. \<lparr>lt_number = unat (dl_generation l), lt_worker = wh_slot (dl_handle l),
        lt_pinned = dl_debug_pinned l, lt_owner = map_option ct_owner_session_id (dl_close_token l)\<rparr>) (wd_handle d)\<rparr>"

section \<open>Critical sections\<close>

text \<open>One hold of the lock on the lease; the pool may do anything in between.\<close>

inductive db_step :: "workspace_database \<Rightarrow> workspace_database \<Rightarrow> bool" where
  db_take: "db_step d (d\<lparr>wd_handle := None\<rparr>)"
| db_burn: "wd_handle d = None \<Longrightarrow> next_database_generation d = (Inr g, d') \<Longrightarrow> db_step d d'"
| db_install: "wd_handle d = None \<Longrightarrow> next_database_generation d = (Inr g, d') \<Longrightarrow>
    db_step d (d'\<lparr>wd_handle := Some \<lparr>dl_handle = h, dl_generation = g, dl_close_token = None, dl_debug_pinned = False\<rparr>\<rparr>)"
| db_pin: "db_step d (snd (set_debug_pin_for_lease l b d))"
| db_clear: "db_step d (snd (clear_handle_if_lease w g d))"
| db_token: "db_step d (snd (issue_close_token fresh session_id g d))"

inductive_cases db_stepE: "db_step d d'"

abbreviation db_run :: "workspace_database \<Rightarrow> workspace_database \<Rightarrow> bool" where
  "db_run \<equiv> db_step\<^sup>*\<^sup>*"

definition gaps_ok :: "gaps \<Rightarrow> bool" where
  "gaps_ok gs \<longleftrightarrow> (\<forall>s. db_run (fst s) (fst (gap_called gs s)) \<and> db_run (fst s) (fst (gap_cleared gs s))
     \<and> db_run (fst s) (fst (gap_parsed gs s)))"

lemma next_generation_issued: "next_database_generation d = (Inr g, d') \<Longrightarrow>
    unat g = Suc (unat (wd_next_generation d)) \<and> d' = d\<lparr>wd_next_generation := g\<rparr>"
  by (auto simp: next_database_generation_def dest: checked_add_SomeD split: option.splits)

lemma lifetime_pin: "lifetime_step\<^sup>*\<^sup>* (lifetimes_of d) (lifetimes_of (snd (set_debug_pin_for_lease l b d)))"
proof (cases "wd_handle d")
  case (Some h)
  have "lifetime_step (lifetimes_of d) (lifetimes_of (d\<lparr>wd_handle := Some (h\<lparr>dl_debug_pinned := b\<rparr>)\<rparr>))"
    using lifetime_step.pin [of "lifetimes_of d" _ b] Some by (simp add: lifetimes_of_def)
  with Some show ?thesis by (auto simp: set_debug_pin_for_lease_def)
qed (simp add: set_debug_pin_for_lease_def)

lemma lifetime_token: "lifetime_step\<^sup>*\<^sup>* (lifetimes_of d) (lifetimes_of (snd (issue_close_token fresh sid g d)))"
proof (cases "wd_handle d")
  case (Some h)
  show ?thesis
  proof (cases "dl_close_token h")
    case None
    then have "lifetime_step (lifetimes_of d)
      (lifetimes_of (d\<lparr>wd_handle := Some (h\<lparr>dl_close_token := Some \<lparr>ct_token = fresh, ct_owner_session_id = sid\<rparr>\<rparr>)\<rparr>))"
      using lifetime_step.claim [of "lifetimes_of d" _ sid] Some by (simp add: lifetimes_of_def)
    with Some None show ?thesis by (auto simp: issue_close_token_def issue_for_session_def)
  next
    case (Some c)
    with \<open>wd_handle d = Some h\<close> have "lifetimes_of (snd (issue_close_token fresh sid g d)) = lifetimes_of d"
      by (simp add: issue_close_token_def issue_for_session_def lifetimes_of_def)
    then show ?thesis by simp
  qed
qed (simp add: issue_close_token_def)

lemma lifetime_finish: "lifetime_step (lifetimes_of d) (lifetimes_of (d\<lparr>wd_handle := None\<rparr>))"
  using lifetime_step.finish [of "lifetimes_of d"] by (simp add: lifetimes_of_def)

lemma lifetime_clear: "lifetime_step\<^sup>*\<^sup>* (lifetimes_of d) (lifetimes_of (snd (clear_handle_if_lease w g d)))"
  using lifetime_finish [of d] by (auto simp: clear_handle_if_lease_def split: option.splits)

lemma db_step_lifetimes:
  assumes "db_step d d'"
  shows "lifetime_step\<^sup>*\<^sup>* (lifetimes_of d) (lifetimes_of d')"
  using assms
proof (cases rule: db_step.cases)
  case db_take
  then show ?thesis using lifetime_finish [of d] by simp
next
  case (db_burn g)
  then have "lifetime_step (lifetimes_of d) (lifetimes_of d')"
    using lifetime_step.burn [of "lifetimes_of d"] next_generation_issued [OF db_burn(2)]
    by (simp add: lifetimes_of_def)
  then show ?thesis by simp
next
  case (db_install g d1 h)
  then have "lifetime_step (lifetimes_of d) (lifetimes_of d')"
    using lifetime_step.start [of "lifetimes_of d" "wh_slot h"] next_generation_issued [OF db_install(3)]
    by (simp add: lifetimes_of_def)
  then show ?thesis by simp
qed (simp_all add: lifetime_pin lifetime_token lifetime_clear)

interpretation lifetimes: simulation db_step lifetime_step lifetimes_of "\<lambda>_. True"
  by unfold_locales (auto intro: db_step_lifetimes)

section \<open>Handlers as runs of critical sections\<close>

lemma db_run_take: "db_run d (d\<lparr>wd_handle := None\<rparr>)"
  by (rule r_into_rtranclp) (rule db_take)

lemma gap_run:
  assumes "gaps_ok gs" "db_run d (fst s)"
  shows "db_run d (fst (gap_called gs s))" "db_run d (fst (gap_cleared gs s))" "db_run d (fst (gap_parsed gs s))"
proof -
  have "db_run (fst s) (fst (gap_called gs s)) \<and> db_run (fst s) (fst (gap_cleared gs s))
    \<and> db_run (fst s) (fst (gap_parsed gs s))"
    using assms(1) unfolding gaps_ok_def by blast
  with assms(2) show "db_run d (fst (gap_called gs s))" "db_run d (fst (gap_cleared gs s))" "db_run d (fst (gap_parsed gs s))"
    by (auto intro: rtranclp_trans)
qed

lemma db_run_unbind: "unbind_lost_worker tool h g err s = (r, s') \<Longrightarrow> db_run (fst s) (fst s')"
  using db_clear [of "fst s" "wh_slot h" g] by (auto simp: unbind_lost_worker_def split: prod.splits)

lemma db_run_settle:
  assumes "gaps_ok gs" "settle_dispatch cfg gs tool h g r s = (r', s')"
  shows "db_run (fst s) (fst s')"
proof -
  have retired: "db_run (fst s) d"
    if "unbind_lost_worker tool h g err s = (r1, s1)" "gap_cleared gs s1 = (d, p1)" for err r1 s1 d p1
    using gap_run(2) [OF assms(1) db_run_unbind [OF that(1)]] that(2) by simp
  from assms(2) show ?thesis
    by (auto simp: settle_dispatch_def split: sum.splits option.splits if_splits prod.splits
        dest: db_run_unbind intro: retired)
qed

lemma db_run_dispatch:
  assumes "gaps_ok gs" "dispatch_result cfg dbg db_path tool args timeout expected env gs s = (r, s')"
  shows "db_run (fst s) (fst s')"
proof -
  have called: "db_run (fst s) (fst (gap_called gs (fst s, p)))" for p
    using gap_run(1) [OF assms(1), of "fst s" "(fst s, p)"] by simp
  then have settled: "db_run (fst s) (fst s1)"
    if "settle_dispatch cfg gs tool h g x (gap_called gs (fst s, p)) = (y, s1)" for h g x p y s1
    using db_run_settle [OF assms(1) that] by (rule rtranclp_trans)
  from assms(2) show ?thesis
    by (auto simp: dispatch_result_def called split: sum.splits option.splits prod.splits dest: settled)
qed

lemma db_run_install:
  assumes "wd_handle (fst s) = None" "install_lease acquire s = (r, s')"
  shows "db_run (fst s) (fst s')"
proof -
  obtain x d where gen: "next_database_generation (fst s) = (x, d)" by (metis surj_pair)
  show ?thesis
  proof (cases x)
    case (Inl e)
    with gen have "d = fst s" by (auto simp: next_database_generation_def split: option.splits)
    with Inl gen assms(2) show ?thesis by (auto simp: install_lease_def)
  next
    case (Inr g)
    have step: "db_run (fst s) d'" if "db_step (fst s) d'" for d' using that by (rule r_into_rtranclp)
    from Inr gen assms show ?thesis
      by (auto simp: install_lease_def Let_def split: sum.splits prod.splits intro!: step intro: db_burn db_install)
  qed
qed

lemma db_run_lease_for_open:
  assumes "lease_for_open cfg closed settled acquire s = (r, s')"
  shows "db_run (fst s) (fst s')"
proof (cases "wd_handle (fst s)")
  case None
  with assms show ?thesis by (simp add: lease_for_open_def db_run_install)
next
  case (Some l)
  have "db_run (fst s) (fst s')"
    if "install_lease acquire ((fst s)\<lparr>wd_handle := None\<rparr>, p) = (r, s')" for p
    using db_run_take db_run_install [OF _ that] by (auto intro: rtranclp_trans)
  with assms Some show ?thesis by (auto simp: lease_for_open_def split: if_splits)
qed

lemma db_run_close_if: "close_if_generation cfg ce g s = (r, s') \<Longrightarrow> db_run (fst s) (fst s')"
  by (auto simp: close_if_generation_def db_run_take split: option.splits if_splits prod.splits sum.splits)

lemma db_run_open:
  assumes "gaps_ok gs" "\<And>r s1. leasing s = (r, s1) \<Longrightarrow> db_run (fst s) (fst s1)"
    and "open_observed cfg db_path db_info leasing od timeout env gs ce s = (r, s')"
  shows "db_run (fst s) (fst s')"
proof -
  obtain x s1 where Pair: "leasing s = (x, s1)" by (metis surj_pair)
  have leased: "db_run (fst s) (fst s1)" using assms(2) Pair by blast
  have called: "db_run (fst s) (fst (gap_called gs (fst s1, p)))" for p
    using gap_run(1) [OF assms(1), of "fst s" "(fst s1, p)"] leased by simp
  have closed: "db_run (fst s) (fst (snd (close_if_generation cfg ce g (gap_called gs (fst s1, p)))))" for g p
    using called db_run_close_if [OF surjective_pairing] by (rule rtranclp_trans)
  from assms(3) Pair leased show ?thesis
    by (auto simp: open_observed_def Let_def called closed split: sum.splits option.splits prod.splits if_splits)
qed

lemma db_run_debug_start:
  assumes "gaps_ok gs" "debug_start cfg dbg db_path from_str tool args timeout env gs s = (r, s')"
  shows "db_run (fst s) (fst s')"
proof -
  obtain x s1 where Pair: "dispatch_result cfg dbg db_path tool args (Some (debugger_response_timeout_secs timeout)) None env gs s = (x, s1)"
    by (metis surj_pair)
  note disp = db_run_dispatch [OF assms(1) Pair]
  then have parsed: "db_run (fst s) (fst (gap_parsed gs s1))" by (rule gap_run(3) [OF assms(1)])
  then have pinned: "db_run (fst s) d" if "set_debug_pin_for_lease l b (fst (gap_parsed gs s1)) = (y, d)" for l b y d
    using db_pin [of "fst (gap_parsed gs s1)" l b] that by (simp add: rtranclp.rtrancl_into_rtrancl)
  from assms(2) Pair disp show ?thesis
    by (auto simp: debug_start_def settle_start_def Let_def parsed split: option.splits prod.splits if_splits dest: pinned)
qed

lemma db_run_debug_stop:
  assumes "gaps_ok gs" "debug_stop cfg dbg db_path from_str args timeout env gs s = (r, s')"
  shows "db_run (fst s) (fst s')"
proof -
  obtain x s1 where Pair: "dispatch_result cfg dbg db_path ''debug_stop'' args (Some (debugger_response_timeout_secs timeout)) None env gs s = (x, s1)"
    by (metis surj_pair)
  note disp = db_run_dispatch [OF assms(1) Pair]
  then have parsed: "db_run (fst s) (fst (gap_parsed gs s1))" by (rule gap_run(3) [OF assms(1)])
  then have pinned: "db_run (fst s) (snd (set_debug_pin_for_lease l b (fst (gap_parsed gs s1))))" for l b
    using db_pin [of "fst (gap_parsed gs s1)" l b] by (simp add: rtranclp.rtrancl_into_rtrancl)
  from assms(2) Pair disp show ?thesis
    by (auto simp: debug_stop_def Let_def parsed pinned split: option.splits prod.splits sum.splits)
qed

text \<open>One use of the database through any of its handlers, beside whatever the rest of the
  program does to the pool.\<close>

inductive db_handler :: "pool_config \<Rightarrow> ws \<Rightarrow> ws \<Rightarrow> bool" for cfg where
  handle_open: "gaps_ok gs \<Longrightarrow>
    open_observed cfg db_path (db_info :: call_tool_result \<Rightarrow> tool_error + json)
      (lease_for_open cfg closed settled (\<lambda>session. lease cfg acquired session turns mid out)) od timeout env gs ce s = (r, s')
    \<Longrightarrow> db_handler cfg s s'"
| handle_call: "gaps_ok gs \<Longrightarrow>
    dispatch_result cfg dbg db_path tool args timeout expected env gs s = (r, s') \<Longrightarrow> db_handler cfg s s'"
| handle_debug_start: "gaps_ok gs \<Longrightarrow>
    debug_start cfg dbg db_path from_str tool args secs env gs s = (r, s') \<Longrightarrow> db_handler cfg s s'"
| handle_debug_stop: "gaps_ok gs \<Longrightarrow>
    debug_stop cfg dbg db_path from_str args secs env gs s = (r, s') \<Longrightarrow> db_handler cfg s s'"
| handle_close: "close_database cfg ce s = (r, s') \<Longrightarrow> db_handler cfg s s'"
| handle_close_if: "close_if_generation cfg ce g s = (r, s') \<Longrightarrow> db_handler cfg s s'"
| handle_close_authorized: "close_authorized cfg ce session_id tok force s = (r, s') \<Longrightarrow> db_handler cfg s s'"
| handle_token: "issue_close_token fresh session_id g (fst s) = (r, d) \<Longrightarrow> db_handler cfg s (d, snd s)"
| handle_probe: "lease_reap_decision env s = (r, d) \<Longrightarrow> db_handler cfg s (d, snd s)"
| handle_pool: "db_handler cfg s (fst s, p)"

lemma db_handler_run:
  assumes "db_handler cfg s s'"
  shows "db_run (fst s) (fst s')"
  using assms
proof (cases rule: db_handler.cases)
  case handle_open
  show ?thesis by (rule db_run_open [OF handle_open(1) _ handle_open(2)]) (rule db_run_lease_for_open)
next
  case (handle_token fresh sid g r d)
  then have "fst s' = snd (issue_close_token fresh sid g (fst s))" by simp
  then show ?thesis using db_token [of "fst s" fresh sid g] by simp
next
  case (handle_probe env r d)
  then show ?thesis by (auto simp: lease_reap_decision_def db_run_take split: if_splits option.splits)
next
  case (handle_close ce r)
  then show ?thesis by (auto simp: close_database_def take_handle_def db_run_take split: option.splits prod.splits)
next
  case (handle_close_authorized ce sid tok force r)
  then show ?thesis
    by (auto simp: close_authorized_def db_run_take split: option.splits prod.splits sum.splits close_authorization.splits)
qed (auto dest: db_run_dispatch db_run_debug_start db_run_debug_stop db_run_close_if)

interpretation handlers: simulation "db_handler cfg" lifetime_step "\<lambda>s. lifetimes_of (fst s)" "\<lambda>_. True" for cfg
  by unfold_locales (auto intro: lifetimes.sim_run db_handler_run)

section \<open>Properties\<close>

text \<open>
  C11: The handlers of a workspace database implement the specification of lifetimes: whatever
  sequence of opens, calls, debugger calls, token requests, closes and reaper probes runs,
  interleaved with each other and with the pool, no generation number is used twice, at
  most one lifetime is live, a new lifetime starts unpinned and unowned, and the owner of
  its close token does not change while it lives.
\<close>

theorem database_refines_lifetimes:
  assumes "(db_handler cfg)\<^sup>*\<^sup>* s s'"
  shows "lifetime_step\<^sup>*\<^sup>* (lifetimes_of (fst s)) (lifetimes_of (fst s'))"
  using handlers.sim_run [OF assms] by simp

definition demo_database :: workspace_database where
  "demo_database = \<lparr>wd_session_id = ''a'', wd_shared_http = False,
     wd_handle = Some \<lparr>dl_handle = demo_handle, dl_generation = 1, dl_close_token = None, dl_debug_pinned = False\<rparr>,
     wd_next_generation = 1\<rparr>"

definition demo_close :: close_env where
  "demo_close = \<lparr>cl_outcome = CloseTimedOut, cl_now = 7, cl_mid = (\<lambda>p. p)\<rparr>"

definition demo_call :: "execution \<Rightarrow> call_env" where
  "demo_call ex = \<lparr>ce_queued = 0, ce_shared = SharedAdmitted, ce_waited = 0, ce_elapsed = 0, ce_admission = AdmReady None,
     ce_mid = (\<lambda>p. p), ce_cancel_fires = False, ce_execution = ex, ce_transport_closed = False, ce_caller_gone = False\<rparr>"

definition quiet_gaps :: gaps where
  "quiet_gaps = \<lparr>gap_called = (\<lambda>s. s), gap_cleared = (\<lambda>s. s), gap_parsed = (\<lambda>s. s)\<rparr>"

lemma quiet_gaps_simps [simp]:
  "gap_called quiet_gaps s = s" "gap_cleared quiet_gaps s = s" "gap_parsed quiet_gaps s = s"
  by (simp_all add: quiet_gaps_def)

text \<open>Closing the database of the example pool, after which generation 1 has ended.\<close>

lemma demo_closed: "(db_handler demo_cfg)\<^sup>*\<^sup>* (demo_database, p)
    (snd (close_database demo_cfg demo_close (demo_database, p)))"
  by (rule r_into_rtranclp, rule handle_close) (rule surjective_pairing)

theorem database_refines_lifetimes_witness:
  "lifetime_step\<^sup>*\<^sup>* (lifetimes_of demo_database)
     (lifetimes_of (fst (snd (close_database demo_cfg demo_close (demo_database, pool_new)))))"
  using database_refines_lifetimes [OF demo_closed [of pool_new]] by simp

text \<open>A number that was issued and whose lifetime is over.\<close>

definition generation_ended :: "nat \<Rightarrow> lifetimes \<Rightarrow> bool" where
  "generation_ended n a \<longleftrightarrow> n \<le> lf_issued a \<and> (\<forall>t. lf_live a = Some t \<longrightarrow> lt_number t \<noteq> n)"

lemma generation_ended_step: "lifetime_step a b \<Longrightarrow> generation_ended n a \<Longrightarrow> generation_ended n b"
  by (induction rule: lifetime_step.induct) (auto simp: generation_ended_def)

lemma generation_ended_run:
  "(db_handler cfg)\<^sup>*\<^sup>* s s' \<Longrightarrow> generation_ended n (lifetimes_of (fst s)) \<Longrightarrow> generation_ended n (lifetimes_of (fst s'))"
  using handlers.sim_stable [of "generation_ended n" cfg s s'] generation_ended_step by blast

lemma generation_ended_lease:
  "generation_ended (unat g) (lifetimes_of d) \<Longrightarrow> wd_handle d = Some l \<Longrightarrow> dl_generation l \<noteq> g"
  by (auto simp: generation_ended_def lifetimes_of_def)

text \<open>
  C12: Generations gate stale calls. Once a database generation has ended, it stays ended
  through every later use of the database: a call bound to it is refused before it reaches
  any worker, and a completion that still carries it can neither close, unbind, pin nor
  claim the database that has been opened since.
\<close>

theorem stale_generation_is_inert:
  assumes "(db_handler cfg)\<^sup>*\<^sup>* s s'" and "generation_ended (unat g) (lifetimes_of (fst s))"
  shows "dispatch_result cfg dbg db_path tool args timeout (Some g) env gs s' =
      (Some (Inl (if wd_handle (fst s') = None then NoDatabaseOpen else DatabaseReplaced), None), s')
    \<and> close_if_generation cfg ce g s' = (Inr NotCurrent, s')
    \<and> clear_handle_if_lease w g (fst s') = (False, fst s')
    \<and> set_debug_pin_for_lease (w, g) b (fst s') = (False, fst s')
    \<and> issue_close_token fresh session_id g (fst s') = (None, fst s')"
proof -
  note ended = generation_ended_lease [OF generation_ended_run [OF assms]]
  show ?thesis
  proof (cases "wd_handle (fst s')")
    case None
    then show ?thesis
      by (simp add: dispatch_result_def required_handle_for_generation_def close_if_generation_def
          clear_handle_if_lease_def set_debug_pin_for_lease_def issue_close_token_def)
  next
    case (Some l)
    with ended show ?thesis
      by (simp add: dispatch_result_def required_handle_for_generation_def require_lease_generation_def
          close_if_generation_def clear_handle_if_lease_def set_debug_pin_for_lease_def issue_close_token_def)
  qed
qed

theorem stale_generation_is_inert_witness:
  "close_if_generation demo_cfg demo_close 1 (snd (close_database demo_cfg demo_close (demo_database, pool_new))) =
     (Inr NotCurrent, snd (close_database demo_cfg demo_close (demo_database, pool_new)))"
proof -
  define s where "s = snd (close_database demo_cfg demo_close (demo_database, pool_new))"
  have "generation_ended (unat 1) (lifetimes_of (fst s))"
    by (simp add: s_def generation_ended_def lifetimes_of_def demo_database_def close_database_def take_handle_def
        split: prod.splits)
  then show ?thesis
    using stale_generation_is_inert [of demo_cfg s s 1 "\<lambda>_. []" "\<lambda>_ _. None" "''list_funcs''" JNull None
        "demo_call (ExecReply (Inl WorkerClosed))" quiet_gaps demo_close]
    by (simp add: s_def)
qed

lemma pin_applied:
  "set_debug_pin_for_lease q b d = (True, d') \<Longrightarrow>
   \<exists>l. wd_handle d' = Some l \<and> wh_slot (dl_handle l) = fst q \<and> dl_generation l = snd q \<and> dl_debug_pinned l = b"
  by (auto simp: set_debug_pin_for_lease_def split: option.splits if_splits)

lemma debug_start_pinned:
  assumes "settle_start from_str tool x (Some q) s2 = (Some r, s')" "debug_start_retains_session r"
  shows "\<exists>l. wd_handle (fst s') = Some l \<and> wh_slot (dl_handle l) = fst q \<and> dl_generation l = snd q \<and> dl_debug_pinned l"
proof -
  obtain b d where pin: "set_debug_pin_for_lease q True (fst s2) = (b, d)" by (metis surj_pair)
  have "b \<and> fst s' = d"
    using assms by (cases b) (auto simp: settle_start_def Let_def pin debug_start_retains_session_def split: if_splits)
  then show ?thesis using pin_applied [of q True "fst s2" d] pin by auto
qed

text \<open>
  The debug pin follows the debugger session. A start that reports a retained session
  has pinned the lease that served it, and a session whose lease was lost meanwhile is
  reported as lost, never as live; after a successful stop the lease that served it is not
  pinned, if it is still there.
\<close>

theorem debug_pin_follows_session:
  assumes "required_handle_for_generation None (fst s) = Inr (h, g)"
  shows "(debug_start cfg dbg db_path from_str tool args secs env gs s = (Some r, s') \<longrightarrow>
      debug_start_retains_session r \<longrightarrow>
      (\<exists>l. wd_handle (fst s') = Some l \<and> wh_slot (dl_handle l) = wh_slot h \<and> dl_generation l = g \<and> dl_debug_pinned l))
    \<and> (debug_stop cfg dbg db_path from_str args secs env gs s = (Some (Inr v), s') \<longrightarrow>
      (\<forall>l. wd_handle (fst s') = Some l \<longrightarrow> wh_slot (dl_handle l) = wh_slot h \<longrightarrow> dl_generation l = g \<longrightarrow> \<not> dl_debug_pinned l))"
proof (intro conjI)
  have lease: "q = Some (wh_slot h, g)" if "dispatch_result cfg dbg db_path t a tm None env gs s = (Some (x, q), s1)" for t a tm x q s1
    using that assms by (auto simp: dispatch_result_def split: sum.splits prod.splits option.splits)
  show "debug_start cfg dbg db_path from_str tool args secs env gs s = (Some r, s') \<longrightarrow>
      debug_start_retains_session r \<longrightarrow>
      (\<exists>l. wd_handle (fst s') = Some l \<and> wh_slot (dl_handle l) = wh_slot h \<and> dl_generation l = g \<and> dl_debug_pinned l)"
  proof (intro impI)
    assume start: "debug_start cfg dbg db_path from_str tool args secs env gs s = (Some r, s')" "debug_start_retains_session r"
    then obtain x q s1 where disp: "dispatch_result cfg dbg db_path tool args (Some (debugger_response_timeout_secs secs)) None env gs s = (Some (x, q), s1)"
      by (auto simp: debug_start_def split: option.splits prod.splits)
    with start lease [OF disp] show "\<exists>l. wd_handle (fst s') = Some l \<and> wh_slot (dl_handle l) = wh_slot h \<and> dl_generation l = g \<and> dl_debug_pinned l"
      using debug_start_pinned [of from_str tool x "(wh_slot h, g)" "gap_parsed gs s1" r s'] by (simp add: debug_start_def)
  qed
  show "debug_stop cfg dbg db_path from_str args secs env gs s = (Some (Inr v), s') \<longrightarrow>
      (\<forall>l. wd_handle (fst s') = Some l \<longrightarrow> wh_slot (dl_handle l) = wh_slot h \<longrightarrow> dl_generation l = g \<longrightarrow> \<not> dl_debug_pinned l)"
  proof (intro impI)
    assume stop: "debug_stop cfg dbg db_path from_str args secs env gs s = (Some (Inr v), s')"
    then obtain x q s1 where disp: "dispatch_result cfg dbg db_path ''debug_stop'' args (Some (debugger_response_timeout_secs secs)) None env gs s = (Some (x, q), s1)"
      by (auto simp: debug_stop_def split: option.splits prod.splits)
    with stop lease [OF disp] have "s' = (snd (set_debug_pin_for_lease (wh_slot h, g) False (fst (gap_parsed gs s1))), snd (gap_parsed gs s1))"
      by (auto simp: debug_stop_def Let_def split: sum.splits)
    then show "\<forall>l. wd_handle (fst s') = Some l \<longrightarrow> wh_slot (dl_handle l) = wh_slot h \<longrightarrow> dl_generation l = g \<longrightarrow> \<not> dl_debug_pinned l"
      by (auto simp: set_debug_pin_for_lease_def split: option.splits if_splits)
  qed
qed

definition retained_reply :: call_tool_result where
  "retained_reply = \<lparr>tr_content = [], tr_structured = Some (JObj [(''session_retained'', JBool True)]), tr_is_error = None, tr_meta = None\<rparr>"

lemma demo_dispatch:
  "dispatch_result demo_cfg (\<lambda>_. []) (\<lambda>_ _. None) tool (JObj []) timeout None (demo_call (ExecReply (Inr retained_reply)))
     quiet_gaps (demo_database, demo_pool (Leased ''a'' 1) 5 1) =
   (Some (Inr retained_reply, Some (0, 1)), (demo_database, demo_pool (Leased ''a'' 1) 5 1))"
  by (simp add: dispatch_result_def required_handle_for_generation_def demo_database_def require_lease_generation_def
      json_object_def call_tool_def admit_queued_def CHILD_QUEUE_CAPACITY_def demo_call_def call_tool_admitted_def
      call_admission_def hm_get_def note_dispatch_def call_settle_def Let_def reply_retire_error_def sdk_crash_def
      is_sdk_crash_def retained_reply_def result_error_def settle_dispatch_def with_slot_def hm_modify_def)

theorem debug_pin_follows_session_witness:
  "\<exists>l. wd_handle (fst (snd (debug_start demo_cfg (\<lambda>_. []) (\<lambda>_ _. None) (\<lambda>_. Inl []) ''debug_launch'' (JObj []) 30
      (demo_call (ExecReply (Inr retained_reply))) quiet_gaps (demo_database, demo_pool (Leased ''a'' 1) 5 1)))) = Some l
    \<and> dl_debug_pinned l"
proof -
  define res where "res = debug_start demo_cfg (\<lambda>_. []) (\<lambda>_ _. None) (\<lambda>_. Inl []) ''debug_launch'' (JObj []) 30
      (demo_call (ExecReply (Inr retained_reply))) quiet_gaps (demo_database, demo_pool (Leased ''a'' 1) 5 1)"
  have "fst res = Some (Inr (JObj [(''session_retained'', JBool True)]))"
    unfolding res_def debug_start_def demo_dispatch
    by (simp add: settle_start_def parse_value_def result_error_def retained_reply_def
        strip_worker_metadata_def worker_metadata_keys_def hm_remove_def debug_start_retains_session_def json_field_def
        hm_get_def set_debug_pin_for_lease_def demo_database_def)
  then have "res = (Some (Inr (JObj [(''session_retained'', JBool True)])), snd res)" by (metis prod.collapse)
  moreover have "required_handle_for_generation None (fst (demo_database, demo_pool (Leased ''a'' 1) 5 1)) = Inr (demo_handle, 1)"
    by (simp add: required_handle_for_generation_def demo_database_def require_lease_generation_def)
  moreover have "debug_start_retains_session (Inr (JObj [(''session_retained'', JBool True)]))"
    by (simp add: debug_start_retains_session_def json_field_def hm_get_def)
  ultimately show ?thesis
    using debug_pin_follows_session unfolding res_def by blast
qed

section \<open>Calls and the binding\<close>

lemma call_admission_refused:
  assumes "call_admission h tool timeout od adm p = (Inl e, p1)"
  shows "p1 = p \<and> (never_dispatched e \<or> slot_state p (wh_slot h) \<noteq> Some (Leased (wh_session_id h) (wh_lease_id h)))"
  using assms by (auto simp: call_admission_def slot_state_def split: admission.splits option.splits if_splits)

text \<open>Whether an error means that the worker is no longer this lease's.\<close>

definition loses_worker :: "tool_error \<Rightarrow> bool" where
  "loses_worker e \<longleftrightarrow> \<not> never_dispatched e \<and> \<not> is_remote_call e"

lemma call_tool_admitted_loses:
  assumes "call_tool_admitted cfg db_path closed h tool timeout elapsed od adm mid cancel ex p = (r, p')"
    and "r = None \<or> (\<exists>e. r = Some (Inl e) \<and> loses_worker e)"
  shows "slot_state p' (wh_slot h) \<noteq> Some (Leased (wh_session_id h) (wh_lease_id h))"
proof -
  obtain a p1 where adm: "call_admission h tool timeout od adm p = (a, p1)" by (metis surj_pair)
  show ?thesis
  proof (cases a)
    case (Inl e)
    with adm assms call_admission_refused [of h tool timeout od adm p e p1] show ?thesis
      by (auto simp: call_tool_admitted_def loses_worker_def)
  next
    case (Inr x)
    obtain send prev where x: "x = (send, prev)" by (cases x)
    from adm Inr x assms(1)
    have settle: "call_settle cfg db_path closed h tool (timeout - elapsed) (od \<noteq> None) prev
        (cancel \<and> \<not> wh_preserve_on_cancel h) (case send of Some e \<Rightarrow> ExecReply (Inl e) | None \<Rightarrow> ex) (mid p1) = (r, p')"
      by (simp add: call_tool_admitted_def)
    have "\<not> keeps_worker r" using assms(2) by (auto simp: loses_worker_def)
    with call_settle_decides [OF settle] show ?thesis by (auto simp: slot_belongs_state)
  qed
qed

lemma call_tool_loses:
  assumes "call_tool cfg db_path h tool timeout od env p = (Some (Inl e), p')" "loses_worker e"
  shows "slot_state p' (wh_slot h) \<noteq> Some (Leased (wh_session_id h) (wh_lease_id h))"
proof -
  have loses: "slot_state p' (wh_slot h) \<noteq> Some (Leased (wh_session_id h) (wh_lease_id h))"
    if "call_tool_admitted cfg db_path closed h tool t elapsed od adm mid cancel ex p = (r, p')"
      "r = None \<or> r = Some (Inl e)" for closed t elapsed adm mid cancel ex r
    using call_tool_admitted_loses [OF that(1)] that(2) assms(2) by blast
  from assms show ?thesis
    by (auto simp: call_tool_def Let_def admit_queued_def loses_worker_def
        split: if_splits shared_admission.splits prod.splits option.splits dest!: loses)
qed

text \<open>
  C13: A call never leaks its worker. When the answer of a call unbinds the database, the
  worker is no longer leased to it, so the pool can hand it out again or has retired it;
  an answer that says nothing about the worker (a result, an ordinary tool error, a
  protocol error, a call that was never dispatched) leaves the binding as it was.
\<close>

theorem dispatch_never_leaks_worker:
  assumes "wd_handle (fst s) = Some l"
    and "dispatch_result cfg dbg db_path tool args timeout expected env quiet_gaps s = (Some (r, q), s')"
  shows "fst s' = fst s \<or>
    wd_handle (fst s') = None \<and>
    slot_state (snd s') (wh_slot (dl_handle l)) \<noteq> Some (Leased (wh_session_id (dl_handle l)) (wh_lease_id (dl_handle l)))
    \<and> (\<exists>e. r = Inl e)"
proof (cases "required_handle_for_generation expected (fst s)")
  case (Inl e)
  with assms show ?thesis by (auto simp: dispatch_result_def)
next
  case (Inr hg)
  with assms(1) have hg: "hg = (dl_handle l, dl_generation l)"
    by (auto simp: required_handle_for_generation_def require_lease_generation_def split: option.splits if_splits)
  show ?thesis
  proof (cases "json_object dbg args")
    case (Inl e)
    with Inr hg assms(2) show ?thesis by (simp add: dispatch_result_def)
  next
    case obj: (Inr m)
    obtain c p where call: "call_tool cfg db_path (dl_handle l) tool (worker_op_timeout cfg timeout) None env (snd s) = (c, p)"
      by (metis surj_pair)
    with Inr hg obj assms(2) obtain x where x: "c = Some x"
      "settle_dispatch cfg quiet_gaps tool (dl_handle l) (dl_generation l) x (fst s, p) = (r, s')"
      by (auto simp: dispatch_result_def split: option.splits prod.splits)
    have unbound: "wd_handle (fst s1) = None \<and> snd s1 = p \<and> (\<exists>e. y = Inl e)"
      if "unbind_lost_worker tool (dl_handle l) (dl_generation l) err (fst s, p) = (y, s1)" for err y s1
      using that assms(1) by (auto simp: unbind_lost_worker_def clear_handle_if_lease_def)
    have retired: "slot_state (snd (mark_dead_for_lease cfg w i p2)) w \<noteq> Some (Leased sid i)" for w i p2 sid
      using mark_dead_ends_lease [of cfg w i p2] by (auto simp: slot_belongs_state)
    show ?thesis
    proof (cases x)
      case (Inl e)
      with x call show ?thesis
        using call_tool_loses [of cfg db_path "dl_handle l" tool "worker_op_timeout cfg timeout" None env "snd s" e p]
        by (cases "loses_worker e")
          (auto simp: settle_dispatch_def loses_worker_def split: if_splits dest!: unbound)
    next
      case (Inr result)
      with x show ?thesis
        by (auto simp: settle_dispatch_def retired split: option.splits if_splits prod.splits dest!: unbound)
    qed
  qed
qed

theorem dispatch_never_leaks_worker_witness:
  "\<exists>r q s'. dispatch_result demo_cfg (\<lambda>_. []) (\<lambda>_ _. None) ''decompile'' (JObj []) None None (demo_call ExecTimedOut) quiet_gaps
      (demo_database, demo_pool (Leased ''a'' 1) 5 1) = (Some (r, q), s') \<and> wd_handle (fst s') = None
    \<and> slot_state (snd s') 0 \<noteq> Some (Leased ''a'' 1)"
proof -
  define s where "s = (demo_database, demo_pool (Leased ''a'' 1) 5 1)"
  have s: "wd_handle (fst s) = Some \<lparr>dl_handle = demo_handle, dl_generation = 1, dl_close_token = None, dl_debug_pinned = False\<rparr>"
    by (simp add: s_def demo_database_def)
  obtain r q s' where run: "dispatch_result demo_cfg (\<lambda>_. []) (\<lambda>_ _. None) ''decompile'' (JObj []) None None (demo_call ExecTimedOut) quiet_gaps s = (Some (r, q), s')"
    and unbound: "fst s' \<noteq> fst s"
    by (simp add: s_def dispatch_result_def required_handle_for_generation_def demo_database_def require_lease_generation_def
      json_object_def call_tool_def admit_queued_def CHILD_QUEUE_CAPACITY_def demo_call_def call_tool_admitted_def
      call_admission_def hm_get_def call_settle_def Let_def settle_dispatch_def unbind_lost_worker_def clear_handle_if_lease_def)
  from dispatch_never_leaks_worker [OF s run] unbound show ?thesis
    using run unfolding s_def by auto
qed

end
