(* ===== verification/Workspace_Registry.thy ===== *)
theory Workspace_Registry
  imports Workspace_Contract "HOL-Library.List_Lexorder" "HOL-Library.Char_ord"
begin

text \<open>
  \<open>src/src/ida/pool.rs\<close>, the workspace registry: database ids, the guards that calls and
  tasks hold on an entry, and the reaper that removes idle and terminal entries.

  An entry is shared by reference, so \<open>rg_store\<close> keeps every entry that was created and
  \<open>rg_entries\<close> the ids the registry's own map holds. Clock readings, UUIDs and lock
  contention are arguments.
\<close>

section \<open>Entries\<close>

record registry_entry =
  re_database :: workspace_database
  re_last_used :: instant
  re_active_calls :: nat
  re_pins :: nat
  re_legacy :: bool

record ws_registry =
  rg_store :: "(string, registry_entry) hashmap"
  rg_entries :: "string list"
  rg_idle_timeout :: duration

type_synonym reg_sys = "ws_registry \<times> pool_inner"

definition registry_with_inner :: "duration \<Rightarrow> ws_registry" where
  "registry_with_inner idle_timeout = \<lparr>rg_store = [], rg_entries = [], rg_idle_timeout = idle_timeout\<rparr>"

definition new_legacy :: ws_registry where
  "new_legacy = registry_with_inner 0"

definition lookup_entry :: "ws_registry \<Rightarrow> string \<Rightarrow> registry_entry option" where
  "lookup_entry r db = (if db \<in> set (rg_entries r) then hm_get (rg_store r) db else None)"

definition with_entry :: "string \<Rightarrow> (registry_entry \<Rightarrow> registry_entry) \<Rightarrow> ws_registry \<Rightarrow> ws_registry" where
  "with_entry db f r = r\<lparr>rg_store := hm_modify db f (rg_store r)\<rparr>"

definition insert_entry :: "string \<Rightarrow> registry_entry \<Rightarrow> ws_registry \<Rightarrow> ws_registry" where
  "insert_entry db e r =
     r\<lparr>rg_store := hm_insert db e (rg_store r), rg_entries := filter (\<lambda>i. i \<noteq> db) (rg_entries r) @ [db]\<rparr>"

definition touch :: "instant \<Rightarrow> registry_entry \<Rightarrow> registry_entry" where
  "touch now e = e\<lparr>re_last_used := now\<rparr>"

definition idle_for :: "instant \<Rightarrow> registry_entry \<Rightarrow> duration" where
  "idle_for now e = now - re_last_used e"

section \<open>Operations\<close>

definition new_entry :: "string \<Rightarrow> bool \<Rightarrow> instant \<Rightarrow> registry_entry" where
  "new_entry owner_id legacy now =
     \<lparr>re_database = workspace_database_new owner_id, re_last_used = now, re_active_calls = 0, re_pins = 0,
      re_legacy = legacy\<rparr>"

definition allocate_database :: "string \<Rightarrow> instant \<Rightarrow> ws_registry \<Rightarrow> string \<times> ws_registry" where
  "allocate_database uuid now r =
     (uuid, insert_entry uuid ((new_entry (''workspace:'' @ uuid) False now)\<lparr>re_active_calls := 1\<rparr>) r)"

definition acquire_database :: "string \<Rightarrow> instant \<Rightarrow> ws_registry \<Rightarrow> string option \<times> ws_registry" where
  "acquire_database db now r =
     (case lookup_entry r db of
        None \<Rightarrow> (None, r)
      | Some _ \<Rightarrow> (Some db, with_entry db (\<lambda>e. touch now (e\<lparr>re_active_calls := re_active_calls e + 1\<rparr>)) r))"

definition pin_database :: "string \<Rightarrow> instant \<Rightarrow> ws_registry \<Rightarrow> string option \<times> ws_registry" where
  "pin_database db now r =
     (case lookup_entry r db of
        None \<Rightarrow> (None, r)
      | Some _ \<Rightarrow> (Some db, with_entry db (\<lambda>e. touch now (e\<lparr>re_pins := re_pins e + 1\<rparr>)) r))"

definition drop_workspace_lease :: "string \<Rightarrow> instant \<Rightarrow> ws_registry \<Rightarrow> ws_registry" where
  "drop_workspace_lease db now =
     with_entry db (\<lambda>e. (touch now e)\<lparr>re_active_calls := re_active_calls e - 1\<rparr>)"

definition drop_workspace_pin :: "string \<Rightarrow> instant \<Rightarrow> ws_registry \<Rightarrow> ws_registry" where
  "drop_workspace_pin db now = with_entry db (\<lambda>e. (touch now e)\<lparr>re_pins := re_pins e - 1\<rparr>)"

definition bind_legacy :: "string \<Rightarrow> string \<Rightarrow> instant \<Rightarrow> ws_registry \<Rightarrow> string \<times> ws_registry" where
  "bind_legacy uuid session_id now r =
     (let db = ''legacy:'' @ uuid in (db, insert_entry db (new_entry session_id True now) r))"

definition remove_database :: "string \<Rightarrow> ws_registry \<Rightarrow> string option \<times> ws_registry" where
  "remove_database db r =
     (case lookup_entry r db of
        None \<Rightarrow> (None, r)
      | Some _ \<Rightarrow> (Some db, r\<lparr>rg_entries := filter (\<lambda>i. i \<noteq> db) (rg_entries r)\<rparr>))"

definition drop_legacy_binding :: "string \<Rightarrow> ws_registry \<Rightarrow> ws_registry" where
  "drop_legacy_binding db r = snd (remove_database db r)"

text \<open>A handler of one database, run on the entry that an id names.\<close>

definition on_database :: "string \<Rightarrow> (ws \<Rightarrow> 'r \<times> ws) \<Rightarrow> reg_sys \<Rightarrow> 'r option \<times> reg_sys" where
  "on_database db f s =
     (case hm_get (rg_store (fst s)) db of
        None \<Rightarrow> (None, s)
      | Some e \<Rightarrow>
          (case f (re_database e, snd s) of
             (x, (d, p)) \<Rightarrow> (Some x, (with_entry db (\<lambda>e. e\<lparr>re_database := d\<rparr>) (fst s), p))))"

definition registry_close_database ::
  "pool_config \<Rightarrow> close_env \<Rightarrow> string \<Rightarrow> reg_sys \<Rightarrow> (tool_error + unit) \<times> reg_sys" where
  "registry_close_database cfg ce db s =
     (case remove_database db (fst s) of
        (None, r) \<Rightarrow> (Inl (InvalidParams (''unknown database_id: '' @ db)), (r, snd s))
      | (Some _, r) \<Rightarrow>
          (case on_database db (close_database cfg ce) (r, snd s) of
             (Some x, s1) \<Rightarrow> (x, s1)
           | (None, s1) \<Rightarrow> (Inl (InvalidParams (''unknown database_id: '' @ db)), s1)))"

text \<open>The closes of a shutdown run at once; each works on its own database, in some order.\<close>

definition registry_shutdown :: "pool_config \<Rightarrow> (string \<Rightarrow> close_env) \<Rightarrow> reg_sys \<Rightarrow> reg_sys" where
  "registry_shutdown cfg ces s =
     fold (\<lambda>db s. snd (on_database db (close_database cfg (ces db)) s)) (rg_entries (fst s))
       ((fst s)\<lparr>rg_entries := []\<rparr>, snd s)"

record database_summary =
  ds_database_id :: string
  ds_path :: "string option"
  ds_state :: string
  ds_idle_seconds :: nat
  ds_active_calls :: nat
  ds_pinned :: bool
  ds_debug_pinned :: bool

definition summarize :: "probe_env \<Rightarrow> instant \<Rightarrow> pool_inner \<Rightarrow> string \<Rightarrow> registry_entry \<Rightarrow> database_summary" where
  "summarize env now p db e =
     (let (path, state, debug_pinned) =
        (case lease_snapshot env (re_database e, p) of
           Bound path debug_pinned \<Rightarrow> (Some path, if re_active_calls e > 0 then ''busy'' else ''open'', debug_pinned)
         | NoWorker \<Rightarrow> (None, ''no_worker'', False)
         | SnapshotBusy \<Rightarrow> (None, ''busy'', False))
      in \<lparr>ds_database_id = db, ds_path = path, ds_state = state, ds_idle_seconds = as_secs (idle_for now e),
          ds_active_calls = re_active_calls e, ds_pinned = (re_pins e > 0), ds_debug_pinned = debug_pinned\<rparr>)"

definition list_databases :: "(string \<Rightarrow> probe_env) \<Rightarrow> (string \<Rightarrow> instant) \<Rightarrow> reg_sys \<Rightarrow> database_summary list" where
  "list_databases env now s =
     sort_key ds_database_id
       (concat (map (\<lambda>db. case lookup_entry (fst s) db of
          Some e \<Rightarrow> if re_legacy e then [] else [summarize (env db) (now db) (snd s) db e]
        | None \<Rightarrow> []) (rg_entries (fst s))))"

section \<open>The reaper\<close>

datatype reap_reason = ReapIdle | ReapTerminal

definition reap_interval :: "duration \<Rightarrow> duration" where
  "reap_interval idle_timeout =
     (if idle_timeout = 0 then from_secs 1
      else max (from_secs 1) (min (from_secs 30) (idle_timeout div 2)))"

definition unguarded :: "registry_entry \<Rightarrow> bool" where
  "unguarded e \<longleftrightarrow> \<not> re_legacy e \<and> re_active_calls e = 0 \<and> re_pins e = 0"

definition expired :: "ws_registry \<Rightarrow> instant \<Rightarrow> registry_entry \<Rightarrow> bool" where
  "expired r now e \<longleftrightarrow> rg_idle_timeout r \<noteq> 0 \<and> idle_for now e \<ge> rg_idle_timeout r"

definition collect_reap_candidates :: "ws_registry \<Rightarrow> string list" where
  "collect_reap_candidates r =
     filter (\<lambda>db. case lookup_entry r db of Some e \<Rightarrow> unguarded e | None \<Rightarrow> False) (rg_entries r)"

text \<open>One probe: what other tasks did before it, the locks it meets, the clock it reads.\<close>

record probe_turn =
  pt_before :: "reg_sys \<Rightarrow> reg_sys"
  pt_env :: probe_env
  pt_now :: instant

definition probe_one :: "pool_config \<Rightarrow> probe_turn \<Rightarrow> string \<Rightarrow> reg_sys \<Rightarrow> reap_reason option \<times> reg_sys" where
  "probe_one cfg turn db s =
     (case hm_get (rg_store (fst s)) db of
        None \<Rightarrow> (None, s)
      | Some e \<Rightarrow>
          (case lease_reap_decision (pt_env turn) (re_database e, snd s) of
             (decision, d) \<Rightarrow>
               (let r = with_entry db (\<lambda>e. e\<lparr>re_database := d\<rparr>) (fst s)
                in case decision of
                     NoLease \<Rightarrow> (Some ReapTerminal, (r, snd s))
                   | HealthyUnpinned \<Rightarrow> (if expired r (pt_now turn) e then Some ReapIdle else None, (r, snd s))
                   | HealthyPinned \<Rightarrow> (None, (r, snd s))
                   | ReapBusy \<Rightarrow> (None, (r, snd s))
                   | DeadWorker w \<Rightarrow> (Some ReapTerminal, (r, snd (mark_dead cfg w (snd s)))))))"

fun probe_reap_candidates ::
  "pool_config \<Rightarrow> (string \<Rightarrow> probe_turn) \<Rightarrow> string list \<Rightarrow> reg_sys \<Rightarrow> (string \<times> reap_reason) list \<times> reg_sys" where
  "probe_reap_candidates cfg turns [] s = ([], s)"
| "probe_reap_candidates cfg turns (db # dbs) s =
     (case probe_one cfg (turns db) db (pt_before (turns db) s) of
        (reason, s1) \<Rightarrow>
          (case probe_reap_candidates cfg turns dbs s1 of
             (reapable, s2) \<Rightarrow> (case reason of Some x \<Rightarrow> (db, x) # reapable | None \<Rightarrow> reapable, s2)))"

definition still_reapable :: "(string \<Rightarrow> bool) \<Rightarrow> (string \<Rightarrow> instant) \<Rightarrow> string \<times> reap_reason \<Rightarrow> ws_registry \<Rightarrow> bool" where
  "still_reapable locked now x r =
     (case lookup_entry r (fst x) of
        None \<Rightarrow> False
      | Some e \<Rightarrow> unguarded e \<and>
          (case snd x of
             ReapIdle \<Rightarrow> expired r (now (fst x)) e
           | ReapTerminal \<Rightarrow> lease_is_absent (locked (fst x)) (re_database e)))"

fun take_expired_entries ::
  "(string \<Rightarrow> bool) \<Rightarrow> (string \<Rightarrow> instant) \<Rightarrow> (string \<times> reap_reason) list \<Rightarrow> ws_registry \<Rightarrow>
   (string \<times> reap_reason) list \<times> ws_registry" where
  "take_expired_entries locked now [] r = ([], r)"
| "take_expired_entries locked now (x # xs) r =
     (if still_reapable locked now x r
      then (case take_expired_entries locked now xs (snd (remove_database (fst x) r)) of (ys, r1) \<Rightarrow> (x # ys, r1))
      else take_expired_entries locked now xs r)"

text \<open>One pass of \<open>workspace_reaper\<close>; \<open>gap\<close> is what happens between the probes and the
  removal. The databases it removes are closed one after the other.\<close>

definition reaper_select ::
  "pool_config \<Rightarrow> (string \<Rightarrow> probe_turn) \<Rightarrow> (reg_sys \<Rightarrow> reg_sys) \<Rightarrow> (string \<Rightarrow> bool) \<Rightarrow> (string \<Rightarrow> instant) \<Rightarrow> reg_sys \<Rightarrow>
   (string \<times> reap_reason) list \<times> reg_sys" where
  "reaper_select cfg turns gap locked now s =
     (case probe_reap_candidates cfg turns (collect_reap_candidates (fst s)) s of
        (reapable, s1) \<Rightarrow>
          (case gap s1 of
             (r, p) \<Rightarrow> (case take_expired_entries locked now reapable r of (xs, r1) \<Rightarrow> (xs, (r1, p)))))"

definition reaper_pass ::
  "pool_config \<Rightarrow> (string \<Rightarrow> probe_turn) \<Rightarrow> (reg_sys \<Rightarrow> reg_sys) \<Rightarrow> (string \<Rightarrow> bool) \<Rightarrow> (string \<Rightarrow> instant) \<Rightarrow>
   (string \<Rightarrow> close_env) \<Rightarrow> reg_sys \<Rightarrow> reg_sys" where
  "reaper_pass cfg turns gap locked now ces s =
     (case reaper_select cfg turns gap locked now s of
        (xs, s1) \<Rightarrow> fold (\<lambda>x s. snd (on_database (fst x) (close_database cfg (ces (fst x))) s)) xs s1)"

section \<open>What may happen between a probe and the removal\<close>

definition debug_pinned :: "workspace_database \<Rightarrow> bool" where
  "debug_pinned d = (case wd_handle d of Some l \<Rightarrow> dl_debug_pinned l | None \<Rightarrow> False)"

text \<open>
  One step of the rest of the program at a clock reading. A client reaches a database only
  while it holds a guard on its entry (a call, a task pin, or a legacy binding); the reaper
  itself probes and closes without one.
\<close>

definition held :: "registry_entry \<Rightarrow> bool" where
  "held e \<longleftrightarrow> re_legacy e \<or> 0 < re_active_calls e \<or> 0 < re_pins e"

inductive reg_step :: "pool_config \<Rightarrow> instant \<Rightarrow> reg_sys \<Rightarrow> reg_sys \<Rightarrow> bool" for cfg now where
  reg_allocate: "hm_get (rg_store r) uuid = None \<Longrightarrow> reg_step cfg now (r, p) (snd (allocate_database uuid now r), p)"
| reg_bind_legacy: "hm_get (rg_store r) (''legacy:'' @ uuid) = None \<Longrightarrow>
    reg_step cfg now (r, p) (snd (bind_legacy uuid session_id now r), p)"
| reg_acquire: "reg_step cfg now (r, p) (snd (acquire_database db now r), p)"
| reg_pin: "reg_step cfg now (r, p) (snd (pin_database db now r), p)"
| reg_drop_lease: "reg_step cfg now (r, p) (drop_workspace_lease db now r, p)"
| reg_drop_pin: "reg_step cfg now (r, p) (drop_workspace_pin db now r, p)"
| reg_remove: "reg_step cfg now (r, p) (snd (remove_database db r), p)"
| reg_use: "hm_get (rg_store r) db = Some e \<Longrightarrow> held e \<Longrightarrow> db_handler cfg (re_database e, p) (d, p') \<Longrightarrow>
    reg_step cfg now (r, p) (with_entry db (\<lambda>e. e\<lparr>re_database := d\<rparr>) r, p')"
| reg_probe: "probe_one cfg turn db (r, p) = (x, s') \<Longrightarrow> reg_step cfg now (r, p) s'"
| reg_close: "on_database db (close_database cfg ce) (r, p) = (x, s') \<Longrightarrow> reg_step cfg now (r, p) s'"

inductive_cases reg_stepE: "reg_step cfg now s s'"

inductive reg_run :: "pool_config \<Rightarrow> instant \<Rightarrow> reg_sys \<Rightarrow> instant \<Rightarrow> reg_sys \<Rightarrow> bool" for cfg t0 s where
  reg_run_refl: "reg_run cfg t0 s t0 s"
| reg_run_step: "reg_run cfg t0 s t s1 \<Longrightarrow> t \<le> t' \<Longrightarrow> reg_step cfg t' s1 s2 \<Longrightarrow> reg_run cfg t0 s t' s2"

lemma reg_run_time: "reg_run cfg t0 s t s' \<Longrightarrow> t0 \<le> t"
  by (induction rule: reg_run.induct) auto

text \<open>A pin that was set since \<open>t0\<close> shows in a guard or in a fresh time stamp.\<close>

definition fresh_pin :: "instant \<Rightarrow> registry_entry \<Rightarrow> bool" where
  "fresh_pin t0 e \<longleftrightarrow> (debug_pinned (re_database e) \<longrightarrow> held e \<or> t0 \<le> re_last_used e)"

definition entry_ok :: "instant \<Rightarrow> string \<Rightarrow> ws_registry \<Rightarrow> bool" where
  "entry_ok t0 db r \<longleftrightarrow> hm_wf (rg_store r) \<and> (\<exists>e. hm_get (rg_store r) db = Some e \<and> fresh_pin t0 e)"

lemma entry_ok_with:
  assumes "entry_ok t0 db r"
    and "\<And>e. hm_get (rg_store r) db = Some e \<Longrightarrow> db = db' \<Longrightarrow> fresh_pin t0 e \<Longrightarrow> fresh_pin t0 (f e)"
  shows "entry_ok t0 db (with_entry db' f r)"
proof -
  obtain e where "hm_wf (rg_store r)" "hm_get (rg_store r) db = Some e" "fresh_pin t0 e"
    using assms(1) by (auto simp: entry_ok_def)
  with assms(2) [of e] show ?thesis by (cases "db = db'") (auto simp: entry_ok_def with_entry_def hm.map_laws)
qed

lemma entry_ok_insert:
  "entry_ok t0 db r \<Longrightarrow> hm_get (rg_store r) db' = None \<Longrightarrow> entry_ok t0 db (insert_entry db' e r)"
  by (auto simp: entry_ok_def insert_entry_def hm.map_laws)

lemma entry_ok_entries [simp]: "entry_ok t0 db (r\<lparr>rg_entries := xs\<rparr>) = entry_ok t0 db r"
  by (simp add: entry_ok_def)

lemma entry_ok_probe:
  assumes "entry_ok t0 db r" "probe_one cfg turn db' (r, p) = (x, s')"
  shows "entry_ok t0 db (fst s')"
proof (cases "hm_get (rg_store r) db'")
  case None
  with assms show ?thesis by (auto simp: probe_one_def)
next
  case (Some e)
  obtain dec d where dec: "lease_reap_decision (pt_env turn) (re_database e, p) = (dec, d)" by (metis surj_pair)
  with Some assms(2) have s': "fst s' = with_entry db' (\<lambda>e. e\<lparr>re_database := d\<rparr>) r"
    by (auto simp: probe_one_def Let_def split: lease_reap_decision.splits)
  have "debug_pinned d \<Longrightarrow> debug_pinned (re_database e)"
    using dec by (auto simp: lease_reap_decision_def debug_pinned_def split: if_splits option.splits)
  with Some have "fresh_pin t0 e' \<Longrightarrow> fresh_pin t0 (e'\<lparr>re_database := d\<rparr>)"
    if "hm_get (rg_store r) db = Some e'" "db = db'" for e'
    using that by (auto simp: fresh_pin_def held_def)
  then show ?thesis using assms(1) by (auto simp: s' intro!: entry_ok_with)
qed

lemma entry_ok_close:
  assumes "entry_ok t0 db r" "on_database db' (close_database cfg ce) (r, p) = (x, s')"
  shows "entry_ok t0 db (fst s')"
proof (cases "hm_get (rg_store r) db'")
  case None
  with assms show ?thesis by (auto simp: on_database_def)
next
  case (Some e)
  obtain y d p1 where close: "close_database cfg ce (re_database e, p) = (y, (d, p1))" by (metis surj_pair)
  then have "wd_handle d = None" by (auto simp: close_database_def take_handle_def split: option.splits prod.splits)
  then have "fresh_pin t0 (e'\<lparr>re_database := d\<rparr>)" for e' by (simp add: fresh_pin_def debug_pinned_def)
  moreover have "fst s' = with_entry db' (\<lambda>e. e\<lparr>re_database := d\<rparr>) r"
    using assms(2) Some close by (auto simp: on_database_def)
  ultimately show ?thesis using assms(1) by (auto intro!: entry_ok_with)
qed

lemma entry_ok_step:
  assumes "reg_step cfg t s s'" "t0 \<le> t" "entry_ok t0 db (fst s)"
  shows "entry_ok t0 db (fst s')"
  using assms
proof (cases rule: reg_step.cases)
  case (reg_use r db' e p d p')
  then have "entry_ok t0 db (with_entry db' (\<lambda>e. e\<lparr>re_database := d\<rparr>) r)"
    using assms(3) by (intro entry_ok_with) (auto simp: fresh_pin_def held_def)
  with reg_use show ?thesis by simp
next
  case (reg_probe turn db' r p x)
  then show ?thesis using entry_ok_probe assms(3) by simp
next
  case (reg_close db' ce r p x)
  then show ?thesis using entry_ok_close assms(3) by simp
qed (use assms in \<open>auto simp: allocate_database_def bind_legacy_def Let_def entry_ok_insert acquire_database_def pin_database_def
      drop_workspace_lease_def drop_workspace_pin_def remove_database_def fresh_pin_def held_def touch_def
      split: option.splits intro!: entry_ok_with\<close>)

lemma entry_ok_run: "reg_run cfg t0 s t s' \<Longrightarrow> entry_ok t0 db (fst s) \<Longrightarrow> entry_ok t0 db (fst s')"
proof (induction rule: reg_run.induct)
  case (reg_run_step t s1 t' s2)
  then have "t0 \<le> t'" using reg_run_time [OF reg_run_step(1)] by simp
  with reg_run_step show ?case using entry_ok_step [of cfg t' s1 s2 t0 db] by simp
qed simp

section \<open>Properties\<close>

lemma lookup_remove:
  "lookup_entry (snd (remove_database db r)) db' = (if db' = db then None else lookup_entry r db')"
  "expired (snd (remove_database db r)) = expired r"
  by (auto simp: remove_database_def lookup_entry_def expired_def fun_eq_iff split: option.splits)

lemma take_expired_sound:
  assumes "take_expired_entries locked now xs r = (ys, r')" "(db, reason) \<in> set ys"
  shows "\<exists>e. lookup_entry r db = Some e \<and> unguarded e \<and>
    (if reason = ReapIdle then expired r (now db) e else wd_handle (re_database e) = None)"
  using assms
proof (induction xs arbitrary: r ys)
  case (Cons x xs)
  show ?case
  proof (cases "still_reapable locked now x r")
    case False
    with Cons show ?thesis by auto
  next
    case True
    obtain ys1 where rest: "take_expired_entries locked now xs (snd (remove_database (fst x) r)) = (ys1, r')" "ys = x # ys1"
      using Cons.prems True by (auto split: prod.splits)
    show ?thesis
    proof (cases "x = (db, reason)")
      case True
      with \<open>still_reapable locked now x r\<close> show ?thesis
        by (auto simp: still_reapable_def lease_is_absent_def split: option.splits reap_reason.splits)
    next
      case False
      with Cons.prems rest have "(db, reason) \<in> set ys1" by auto
      from Cons.IH [OF rest(1) this] show ?thesis
        by (auto simp: lookup_remove split: if_splits)
    qed
  qed
qed simp

lemma take_expired_entries_kept:
  "take_expired_entries locked now xs r = (ys, r') \<Longrightarrow> set (rg_entries r') = set (rg_entries r) - fst ` set ys"
proof (induction xs arbitrary: r ys)
  case (Cons x xs)
  show ?case
  proof (cases "still_reapable locked now x r")
    case False
    with Cons show ?thesis by simp
  next
    case True
    then have entries: "rg_entries (snd (remove_database (fst x) r)) = filter (\<lambda>i. i \<noteq> fst x) (rg_entries r)"
      by (auto simp: still_reapable_def remove_database_def split: option.splits)
    obtain ys1 where rest: "take_expired_entries locked now xs (snd (remove_database (fst x) r)) = (ys1, r')" "ys = x # ys1"
      using Cons.prems True by (auto split: prod.splits)
    from Cons.IH [OF rest(1)] rest(2) entries show ?thesis by auto
  qed
qed simp

text \<open>
  The reaper removes exactly what it reports, and only entries that nobody holds: at the
  moment of the removal the entry is not a legacy binding, serves no call and has no task
  pin, and it is either past the idle timeout, which must not be zero, or without a worker.
  With a zero timeout only entries without a worker are removed.
\<close>

theorem reaper_respects_guards:
  assumes "reaper_select cfg turns gap locked now s = (xs, s')"
  shows "\<exists>s1. s1 = gap (snd (probe_reap_candidates cfg turns (collect_reap_candidates (fst s)) s))
    \<and> set (rg_entries (fst s')) = set (rg_entries (fst s1)) - fst ` set xs
    \<and> (\<forall>db reason. (db, reason) \<in> set xs \<longrightarrow>
        (\<exists>e. lookup_entry (fst s1) db = Some e \<and> \<not> re_legacy e \<and> re_active_calls e = 0 \<and> re_pins e = 0
          \<and> (if reason = ReapIdle then rg_idle_timeout (fst s1) \<noteq> 0 \<and> rg_idle_timeout (fst s1) \<le> now db - re_last_used e
             else wd_handle (re_database e) = None)))"
proof -
  obtain reapable s1 where probe: "probe_reap_candidates cfg turns (collect_reap_candidates (fst s)) s = (reapable, s1)"
    by (metis surj_pair)
  obtain r p where gap: "gap s1 = (r, p)" by (metis surj_pair)
  from assms probe gap obtain r1 where take: "take_expired_entries locked now reapable r = (xs, r1)" "s' = (r1, p)"
    by (auto simp: reaper_select_def split: prod.splits)
  show ?thesis
    using take_expired_entries_kept [OF take(1)] take_expired_sound [OF take(1)] probe gap take(2)
    by (fastforce simp: unguarded_def expired_def idle_for_def)
qed

definition demo_entry :: "workspace_database \<Rightarrow> instant \<Rightarrow> nat \<Rightarrow> registry_entry" where
  "demo_entry d t calls = \<lparr>re_database = d, re_last_used = t, re_active_calls = calls, re_pins = 0, re_legacy = False\<rparr>"

definition demo_registry :: "registry_entry \<Rightarrow> ws_registry" where
  "demo_registry e = \<lparr>rg_store = [(''db'', e)], rg_entries = [''db''], rg_idle_timeout = 10\<rparr>"

definition demo_turn :: "instant \<Rightarrow> probe_turn" where
  "demo_turn t = \<lparr>pt_before = (\<lambda>s. s),
     pt_env = \<lparr>pe_handle_locked = False, pe_call_locked = False, pe_child_locked = False, pe_service_closed = False\<rparr>,
     pt_now = t\<rparr>"

lemmas reap_eval = demo_entry_def demo_registry_def demo_turn_def lookup_entry_def hm_get_def with_entry_def hm_modify_def
  probe_one_def lease_reap_decision_def demo_database_def transport_closed_def expired_def idle_for_def unguarded_def

lemma demo_probe:
  "probe_one demo_cfg (demo_turn 20) ''db'' (demo_registry (demo_entry demo_database 3 0), demo_pool (Leased ''a'' 1) 5 1) =
     (Some ReapIdle, (demo_registry (demo_entry demo_database 3 0), demo_pool (Leased ''a'' 1) 5 1))"
  by (simp add: reap_eval Let_def)

lemma demo_select:
  "fst (reaper_select demo_cfg (\<lambda>_. demo_turn 20) (\<lambda>s. s) (\<lambda>_. False) (\<lambda>_. 21)
     (demo_registry (demo_entry demo_database 3 0), demo_pool (Leased ''a'' 1) 5 1)) = [(''db'', ReapIdle)]"
  by (simp add: reaper_select_def collect_reap_candidates_def still_reapable_def reap_eval Let_def)

theorem reaper_respects_guards_witness:
  "set (rg_entries (fst (snd (reaper_select demo_cfg (\<lambda>_. demo_turn 20) (\<lambda>s. s) (\<lambda>_. False) (\<lambda>_. 21)
     (demo_registry (demo_entry demo_database 3 0), demo_pool (Leased ''a'' 1) 5 1))))) = {}"
proof -
  define s where "s = (demo_registry (demo_entry demo_database 3 0), demo_pool (Leased ''a'' 1) 5 1)"
  define res where "res = reaper_select demo_cfg (\<lambda>_. demo_turn 20) (\<lambda>s. s) (\<lambda>_. False) (\<lambda>_. 21) s"
  have "set (rg_entries (fst (snd (probe_reap_candidates demo_cfg (\<lambda>_. demo_turn 20) (collect_reap_candidates (fst s)) s)))) = {''db''}"
    by (simp add: s_def collect_reap_candidates_def reap_eval Let_def)
  moreover have "fst res = [(''db'', ReapIdle)]" using demo_select by (simp add: res_def s_def)
  moreover have "res = (fst res, snd res)" by simp
  ultimately have "set (rg_entries (fst (snd res))) = {}"
    using reaper_respects_guards [of demo_cfg "\<lambda>_. demo_turn 20" "\<lambda>s. s" "\<lambda>_. False" "\<lambda>_. 21" s "fst res" "snd res",
      folded res_def] by auto
  then show ?thesis by (simp add: res_def s_def)
qed

text \<open>
  The idle reaper spares a debugger session that was started behind its back: when an
  entry was probed as idle and unpinned, and a client started a session on it before the
  removal, the entry is kept, as long as the removal follows the probe within the idle
  timeout. Every such client holds a guard on the entry or has left a fresh time stamp.
\<close>

theorem idle_reap_spares_debug_session:
  assumes "probe_one cfg turn db a = (Some ReapIdle, b)" and "reg_run cfg (pt_now turn) b t c"
    and "hm_wf (rg_store (fst a))"
    and "lookup_entry (fst c) db = Some e" and "debug_pinned (re_database e)"
    and "now db < pt_now turn + rg_idle_timeout (fst c)"
  shows "\<not> still_reapable locked now (db, ReapIdle) (fst c)"
proof -
  obtain e0 where e0: "hm_get (rg_store (fst a)) db = Some e0"
    using assms(1) by (auto simp: probe_one_def split: option.splits)
  obtain d where d: "lease_reap_decision (pt_env turn) (re_database e0, snd a) = (HealthyUnpinned, d)"
    and b: "fst b = with_entry db (\<lambda>e. e\<lparr>re_database := d\<rparr>) (fst a)"
    using assms(1) e0 by (auto simp: probe_one_def Let_def split: lease_reap_decision.splits prod.splits if_splits)
  from d have "\<not> debug_pinned d"
    by (auto simp: lease_reap_decision_def debug_pinned_def split: if_splits option.splits)
  then have "entry_ok (pt_now turn) db (fst b)"
    using assms(3) e0 by (simp add: b entry_ok_def with_entry_def hm.map_laws fresh_pin_def)
  then have "entry_ok (pt_now turn) db (fst c)" by (rule entry_ok_run [OF assms(2)])
  with assms(4,5) have "held e \<or> pt_now turn \<le> re_last_used e"
    by (auto simp: entry_ok_def lookup_entry_def fresh_pin_def split: if_splits)
  with assms(4,6) show ?thesis
    by (auto simp: still_reapable_def unguarded_def held_def expired_def idle_for_def)
qed

definition pinned_database :: workspace_database where
  "pinned_database = demo_database\<lparr>wd_handle := Some \<lparr>dl_handle = demo_handle, dl_generation = 1, dl_close_token = None,
     dl_debug_pinned = True\<rparr>\<rparr>"

lemma demo_start_pins: "db_handler demo_cfg (demo_database, demo_pool (Leased ''a'' 1) 5 1) (pinned_database, demo_pool (Leased ''a'' 1) 5 1)"
proof (rule handle_debug_start [of quiet_gaps])
  show "gaps_ok quiet_gaps" by (simp add: gaps_ok_def)
  show "debug_start demo_cfg (\<lambda>_. []) (\<lambda>_ _. None) (\<lambda>_. Inl []) ''debug_launch'' (JObj []) 30
      (demo_call (ExecReply (Inr retained_reply))) quiet_gaps (demo_database, demo_pool (Leased ''a'' 1) 5 1) =
    (Some (Inr (JObj [(''session_retained'', JBool True)])), (pinned_database, demo_pool (Leased ''a'' 1) 5 1))"
    unfolding debug_start_def demo_dispatch
    by (simp add: settle_start_def parse_value_def result_error_def retained_reply_def
        strip_worker_metadata_def worker_metadata_keys_def hm_remove_def debug_start_retains_session_def json_field_def
        hm_get_def set_debug_pin_for_lease_def demo_database_def pinned_database_def)
qed

text \<open>A client acquires the example entry, starts a debugger session and leaves.\<close>

lemma demo_debug_run:
  "reg_run demo_cfg 20 (demo_registry (demo_entry demo_database 3 0), demo_pool (Leased ''a'' 1) 5 1)
     22 (demo_registry (demo_entry pinned_database 22 0), demo_pool (Leased ''a'' 1) 5 1)"
proof -
  let ?p = "demo_pool (Leased ''a'' 1) 5 1"
  have "reg_step demo_cfg 21 (demo_registry (demo_entry demo_database 3 0), ?p)
      (snd (acquire_database ''db'' 21 (demo_registry (demo_entry demo_database 3 0))), ?p)"
    by (rule reg_acquire)
  then have acq: "reg_step demo_cfg 21 (demo_registry (demo_entry demo_database 3 0), ?p) (demo_registry (demo_entry demo_database 21 1), ?p)"
    by (simp add: acquire_database_def reap_eval touch_def)
  have "reg_step demo_cfg 22 (demo_registry (demo_entry demo_database 21 1), ?p)
      (with_entry ''db'' (\<lambda>e. e\<lparr>re_database := pinned_database\<rparr>) (demo_registry (demo_entry demo_database 21 1)), ?p)"
    by (rule reg_use [where e = "demo_entry demo_database 21 1"])
      (use demo_start_pins in \<open>simp_all add: demo_registry_def hm_get_def demo_entry_def held_def\<close>)
  then have use: "reg_step demo_cfg 22 (demo_registry (demo_entry demo_database 21 1), ?p) (demo_registry (demo_entry pinned_database 21 1), ?p)"
    by (simp add: demo_registry_def demo_entry_def with_entry_def hm_modify_def)
  have "reg_step demo_cfg 22 (demo_registry (demo_entry pinned_database 21 1), ?p)
      (drop_workspace_lease ''db'' 22 (demo_registry (demo_entry pinned_database 21 1)), ?p)"
    by (rule reg_drop_lease)
  then have drop: "reg_step demo_cfg 22 (demo_registry (demo_entry pinned_database 21 1), ?p) (demo_registry (demo_entry pinned_database 22 0), ?p)"
    by (simp add: drop_workspace_lease_def demo_registry_def demo_entry_def with_entry_def hm_modify_def touch_def)
  have "reg_run demo_cfg 20 (demo_registry (demo_entry demo_database 3 0), ?p) 21 (demo_registry (demo_entry demo_database 21 1), ?p)"
    by (rule reg_run_step [OF reg_run_refl _ acq]) simp
  then have "reg_run demo_cfg 20 (demo_registry (demo_entry demo_database 3 0), ?p) 22 (demo_registry (demo_entry pinned_database 21 1), ?p)"
    by (rule reg_run_step [OF _ _ use]) simp
  then show ?thesis by (rule reg_run_step [OF _ _ drop]) simp
qed

theorem idle_reap_spares_debug_session_witness:
  "\<not> still_reapable (\<lambda>_. False) (\<lambda>_. 29) (''db'', ReapIdle) (demo_registry (demo_entry pinned_database 22 0))"
proof -
  let ?p = "demo_pool (Leased ''a'' 1) 5 1"
  have run: "reg_run demo_cfg (pt_now (demo_turn 20)) (demo_registry (demo_entry demo_database 3 0), ?p)
      22 (demo_registry (demo_entry pinned_database 22 0), ?p)"
    using demo_debug_run by (simp add: demo_turn_def)
  show ?thesis
    using idle_reap_spares_debug_session [OF demo_probe run, of "demo_entry pinned_database 22 0" "\<lambda>_. 29" "\<lambda>_. False"]
    by (simp add: reap_eval pinned_database_def debug_pinned_def hm_wf_def)
qed

text \<open>
  Without the time bound the guarantee fails: the removal re-checks guards and the time
  stamp but not the debug pin, so when the probes of a pass take longer than the idle
  timeout, a session that was started and left in between is reaped.
\<close>

theorem slow_pass_reaps_debug_session:
  "\<exists>a b c e. probe_one demo_cfg (demo_turn 20) ''db'' a = (Some ReapIdle, b)
    \<and> reg_run demo_cfg 20 b 22 c \<and> lookup_entry (fst c) ''db'' = Some e \<and> debug_pinned (re_database e)
    \<and> still_reapable (\<lambda>_. False) (\<lambda>_. 32) (''db'', ReapIdle) (fst c)"
proof -
  define a where "a = (demo_registry (demo_entry demo_database 3 0), demo_pool (Leased ''a'' 1) 5 1)"
  define c where "c = (demo_registry (demo_entry pinned_database 22 0), demo_pool (Leased ''a'' 1) 5 1)"
  have "probe_one demo_cfg (demo_turn 20) ''db'' a = (Some ReapIdle, a)" "reg_run demo_cfg 20 a 22 c"
    using demo_probe demo_debug_run by (simp_all add: a_def c_def)
  moreover have "lookup_entry (fst c) ''db'' = Some (demo_entry pinned_database 22 0)"
    by (simp add: c_def reap_eval)
  moreover have "debug_pinned (re_database (demo_entry pinned_database 22 0))"
    by (simp add: demo_entry_def pinned_database_def debug_pinned_def)
  moreover have "still_reapable (\<lambda>_. False) (\<lambda>_. 32) (''db'', ReapIdle) (fst c)"
    by (simp add: c_def reap_eval still_reapable_def)
  ultimately show ?thesis by blast
qed

end
