(* ===== verification/Operation_Registry.thy ===== *)
theory Operation_Registry
  imports Rust_Std
begin

text \<open>
  \<open>src/src/server/operation.rs\<close>: the history of foreground operations that clients can
  observe. Every operation is one hold of the registry's mutex; the wall clock in
  milliseconds and the monotonic clock are arguments.
\<close>

section \<open>Data\<close>

definition RECENT_EVENT_CAP :: nat where "RECENT_EVENT_CAP = 20"
definition MAX_RECENT_LIMIT :: nat where "MAX_RECENT_LIMIT = 50"

datatype operation_status = OpQueued | OpRunning | OpCompleted | OpFailed | OpTimedOut | OpCancelled

record operation_snapshot =
  os_op_id :: string
  os_tool :: string
  os_target_summary :: string
  os_phase :: string
  os_status :: operation_status
  os_message :: string
  os_started_at_ms :: u64
  os_last_update_ms :: u64
  os_elapsed_ms :: u64

record operation_event =
  oe_op_id :: string
  oe_tool :: string
  oe_target_summary :: string
  oe_phase :: string
  oe_status :: operation_status
  oe_message :: string
  oe_timestamp_ms :: u64
  oe_elapsed_ms :: u64

record operation_state =
  op_op_id :: string
  op_tool :: string
  op_target_summary :: string
  op_phase :: string
  op_status :: operation_status
  op_message :: string
  op_started_at :: instant
  op_started_at_ms :: u64
  op_last_update_ms :: u64

record operation_registry =
  or_active_op_id :: "string option"
  or_current :: "(string, operation_state) hashmap"
  or_events :: "operation_event list"

record recent_operations =
  ro_active_operation :: "operation_snapshot option"
  ro_recent_events :: "operation_event list"

section \<open>Operations\<close>

text \<open>\<open>as_millis() as u64\<close> truncates.\<close>

definition elapsed_ms :: "instant \<Rightarrow> operation_state \<Rightarrow> u64" where
  "elapsed_ms now st = of_nat ((now - op_started_at st) div 1000000)"

definition op_snapshot :: "instant \<Rightarrow> operation_state \<Rightarrow> operation_snapshot" where
  "op_snapshot now st = \<lparr>os_op_id = op_op_id st, os_tool = op_tool st, os_target_summary = op_target_summary st,
     os_phase = op_phase st, os_status = op_status st, os_message = op_message st,
     os_started_at_ms = op_started_at_ms st, os_last_update_ms = op_last_update_ms st,
     os_elapsed_ms = elapsed_ms now st\<rparr>"

definition op_event :: "instant \<Rightarrow> operation_state \<Rightarrow> operation_event" where
  "op_event now st = \<lparr>oe_op_id = op_op_id st, oe_tool = op_tool st, oe_target_summary = op_target_summary st,
     oe_phase = op_phase st, oe_status = op_status st, oe_message = op_message st,
     oe_timestamp_ms = op_last_update_ms st, oe_elapsed_ms = elapsed_ms now st\<rparr>"

definition push_event :: "operation_event list \<Rightarrow> operation_event \<Rightarrow> operation_event list" where
  "push_event events e = (if length events = RECENT_EVENT_CAP then tl events else events) @ [e]"

definition operation_registry_new :: operation_registry where
  "operation_registry_new = \<lparr>or_active_op_id = None, or_current = [], or_events = []\<rparr>"

definition op_start :: "string \<Rightarrow> string \<Rightarrow> string \<Rightarrow> u64 \<Rightarrow> instant \<Rightarrow> operation_registry \<Rightarrow> operation_registry" where
  "op_start op_id tool target now_ms now r =
     (let st = \<lparr>op_op_id = op_id, op_tool = tool, op_target_summary = target, op_phase = ''queued'',
                op_status = OpQueued, op_message = ''Queued for IDA worker execution'',
                op_started_at = now, op_started_at_ms = now_ms, op_last_update_ms = now_ms\<rparr>
      in r\<lparr>or_events := push_event (or_events r) (op_event now st), or_active_op_id := Some op_id,
           or_current := hm_insert op_id st (or_current r)\<rparr>)"

definition progress_state :: "string \<Rightarrow> string \<Rightarrow> u64 \<Rightarrow> operation_state \<Rightarrow> operation_state" where
  "progress_state phase msg now_ms st =
     st\<lparr>op_phase := phase, op_status := if phase = ''queued'' then OpQueued else OpRunning,
        op_message := msg, op_last_update_ms := now_ms\<rparr>"

definition record_progress ::
  "string \<Rightarrow> string \<Rightarrow> string \<Rightarrow> u64 \<Rightarrow> instant \<Rightarrow> operation_registry \<Rightarrow> operation_snapshot option \<times> operation_registry" where
  "record_progress op_id phase msg now_ms now r =
     (case hm_get (or_current r) op_id of
        None \<Rightarrow> (None, r)
      | Some st \<Rightarrow>
          (let st1 = progress_state phase msg now_ms st
           in (Some (op_snapshot now st1),
               r\<lparr>or_current := hm_modify op_id (progress_state phase msg now_ms) (or_current r),
                 or_active_op_id := Some op_id,
                 or_events := push_event (or_events r) (op_event now st1)\<rparr>)))"

definition registry_snapshot :: "string \<Rightarrow> instant \<Rightarrow> operation_registry \<Rightarrow> operation_snapshot option" where
  "registry_snapshot op_id now r = map_option (op_snapshot now) (hm_get (or_current r) op_id)"

fun final_phase :: "operation_status \<Rightarrow> string \<Rightarrow> string" where
  "final_phase OpCompleted p = ''completed''"
| "final_phase OpFailed p = ''failed''"
| "final_phase OpTimedOut p = ''timed_out''"
| "final_phase OpCancelled p = ''cancelled''"
| "final_phase OpQueued p = p"
| "final_phase OpRunning p = p"

definition finish_op ::
  "string \<Rightarrow> operation_status \<Rightarrow> string \<Rightarrow> u64 \<Rightarrow> instant \<Rightarrow> operation_registry \<Rightarrow>
   operation_snapshot option \<times> operation_registry" where
  "finish_op op_id status msg now_ms now r =
     (case hm_get (or_current r) op_id of
        None \<Rightarrow> (None, r)
      | Some st \<Rightarrow>
          (let st1 = st\<lparr>op_status := status, op_message := msg, op_last_update_ms := now_ms\<rparr>;
               st2 = (if op_phase st1 = ''queued'' then st1\<lparr>op_phase := final_phase status (op_phase st1)\<rparr> else st1)
           in (Some (op_snapshot now st2),
               r\<lparr>or_current := hm_remove op_id (or_current r),
                 or_active_op_id := if or_active_op_id r = Some op_id then None else or_active_op_id r,
                 or_events := push_event (or_events r) (op_event now st2)\<rparr>)))"

definition recent :: "nat option \<Rightarrow> instant \<Rightarrow> operation_registry \<Rightarrow> recent_operations" where
  "recent limit now r =
     \<lparr>ro_active_operation =
        (case or_active_op_id r of
           None \<Rightarrow> None
         | Some op_id \<Rightarrow> map_option (op_snapshot now) (hm_get (or_current r) op_id)),
      ro_recent_events =
        take (max 1 (min MAX_RECENT_LIMIT (case limit of Some n \<Rightarrow> n | None \<Rightarrow> RECENT_EVENT_CAP))) (rev (or_events r))\<rparr>"

text \<open>\<open>fetch_add\<close> wraps.\<close>

definition next_operation_id :: "u64 \<Rightarrow> u64 \<Rightarrow> string \<times> u64" where
  "next_operation_id now_ms counter =
     (''fg-'' @ zero_pad 16 (show_base 16 (unat now_ms)) @ ''-'' @ zero_pad 8 (show_base 16 (unat counter)), counter + 1)"

section \<open>The registry as a transition system\<close>

datatype history_op =
    HStart string string string u64 instant
  | HProgress string string string u64 instant
  | HFinish string operation_status string u64 instant

fun history_apply :: "history_op \<Rightarrow> operation_registry \<Rightarrow> operation_registry" where
  "history_apply (HStart op_id tool target ms now) r = op_start op_id tool target ms now r"
| "history_apply (HProgress op_id phase msg ms now) r = snd (record_progress op_id phase msg ms now r)"
| "history_apply (HFinish op_id status msg ms now) r = snd (finish_op op_id status msg ms now r)"

inductive history_step :: "operation_registry \<Rightarrow> operation_registry \<Rightarrow> bool" where
  history_stepI: "history_step r (history_apply x r)"

inductive_cases history_stepE: "history_step r r'"

definition history_inv :: "operation_registry \<Rightarrow> bool" where
  "history_inv r \<longleftrightarrow> hm_wf (or_current r) \<and> length (or_events r) \<le> RECENT_EVENT_CAP
     \<and> (\<forall>op_id. or_active_op_id r = Some op_id \<longrightarrow> hm_get (or_current r) op_id \<noteq> None)
     \<and> (\<forall>op_id st. hm_get (or_current r) op_id = Some st \<longrightarrow> op_op_id st = op_id \<and> op_status st \<in> {OpQueued, OpRunning})"

lemma push_event_bound: "length es \<le> RECENT_EVENT_CAP \<Longrightarrow> length (push_event es e) \<le> RECENT_EVENT_CAP"
  by (simp add: push_event_def RECENT_EVENT_CAP_def)

lemma history_inv_apply: "history_inv r \<Longrightarrow> history_inv (history_apply x r)"
proof (cases x)
  case (HStart op_id tool target ms now)
  then show "history_inv r \<Longrightarrow> ?thesis"
    by (auto simp: history_inv_def op_start_def Let_def push_event_bound hm.map_laws split: if_splits)
next
  case (HProgress op_id phase msg ms now)
  then show "history_inv r \<Longrightarrow> ?thesis"
    by (auto simp: history_inv_def record_progress_def Let_def push_event_bound hm.map_laws progress_state_def
        split: if_splits option.splits)
next
  case (HFinish op_id status msg ms now)
  then show "history_inv r \<Longrightarrow> ?thesis"
    by (auto simp: history_inv_def finish_op_def Let_def push_event_bound hm.map_laws split: if_splits option.splits)
qed

lemma history_inv_new: "history_inv operation_registry_new"
  by (simp add: history_inv_def operation_registry_new_def hm_get_def)

interpretation history: invariant_system "\<lambda>r. r = operation_registry_new" history_step history_inv
  by unfold_locales (auto simp: history_inv_new history_inv_apply elim: history_stepE)

section \<open>Properties\<close>

text \<open>
  In every reachable history at most 20 events are kept, the operation reported as
  active is one that is still queued or running, and a client that asks for recent
  operations gets the newest events first, at most as many as it asked for.
\<close>

theorem operation_history:
  assumes "reach (\<lambda>r. r = operation_registry_new) history_step r"
  shows "length (or_events r) \<le> 20
    \<and> (ro_active_operation (recent limit now r) = None \<longleftrightarrow> or_active_op_id r = None)
    \<and> (\<forall>s. ro_active_operation (recent limit now r) = Some s \<longrightarrow>
          or_active_op_id r = Some (os_op_id s) \<and> os_status s \<in> {OpQueued, OpRunning})
    \<and> ro_recent_events (recent limit now r) =
        take (case limit of None \<Rightarrow> 20 | Some n \<Rightarrow> max 1 n) (rev (or_events r))"
proof -
  have inv: "history_inv r" using assms by (rule history.reach_inv)
  then have len: "length (or_events r) \<le> 20" by (simp add: history_inv_def RECENT_EVENT_CAP_def)
  have "take (max 1 (min 50 n)) (rev (or_events r)) = take (max 1 n) (rev (or_events r))" for n
    using len by (cases "n \<le> 50") (simp_all add: min_absorb2)
  then have "ro_recent_events (recent limit now r) = take (case limit of None \<Rightarrow> 20 | Some n \<Rightarrow> max 1 n) (rev (or_events r))"
    by (cases limit) (simp_all add: recent_def MAX_RECENT_LIMIT_def RECENT_EVENT_CAP_def)
  moreover have "ro_active_operation (recent limit now r) = None \<longleftrightarrow> or_active_op_id r = None"
    using inv by (auto simp: history_inv_def recent_def split: option.splits)
  moreover have "or_active_op_id r = Some (os_op_id s) \<and> os_status s \<in> {OpQueued, OpRunning}"
    if "ro_active_operation (recent limit now r) = Some s" for s
    using inv that by (fastforce simp: history_inv_def recent_def op_snapshot_def split: option.splits)
  ultimately show ?thesis using len by blast
qed

lemma history_reach: "reach (\<lambda>r. r = operation_registry_new) history_step (history_apply x operation_registry_new)"
  by (rule reach_step [of "\<lambda>r. r = operation_registry_new" history_step, OF reach_init]) (simp, rule history_stepI)

theorem operation_history_witness:
  "length (or_events (history_apply (HStart ''fg-1'' ''decompile'' ''main'' 7 9) operation_registry_new)) \<le> 20"
  using operation_history [OF history_reach] by blast

text \<open>
  Foreground operation ids do not repeat: two ids are equal only when they were drawn
  in the same millisecond from the same counter value, and the counter moves on with every
  id.
\<close>

theorem operation_ids_unique:
  "(fst (next_operation_id ms c) = fst (next_operation_id ms' c') \<longleftrightarrow> ms = ms' \<and> c = c')
   \<and> snd (next_operation_id ms c) \<noteq> c"
proof -
  have len: "length (zero_pad 16 (show_base 16 (unat x))) = 16" for x :: u64
  proof (rule length_zero_pad)
    have "unat x < 16 ^ Suc 15" using unsigned_less [of x] by simp
    then show "length (show_base 16 (unat x)) \<le> 16" using length_show_base_small [of 16 "unat x" 15] by simp
  qed
  have "ms = ms' \<and> c = c'" if "fst (next_operation_id ms c) = fst (next_operation_id ms' c')"
  proof -
    from that have "zero_pad 16 (show_base 16 (unat ms)) = zero_pad 16 (show_base 16 (unat ms'))"
      "zero_pad 8 (show_base 16 (unat c)) = zero_pad 8 (show_base 16 (unat c'))"
      by (simp_all add: next_operation_id_def append_eq_append_conv len)
    then have "unat ms = unat ms'" "unat c = unat c'" using show_base_inj [of 16] by auto
    then show ?thesis by (simp add: word_unat_eq_iff)
  qed
  then show ?thesis by (auto simp: next_operation_id_def)
qed

end
