(* ===== verification/Macho_Fat.thy ===== *)
theory Macho_Fat
  imports Tool_Error
begin

text \<open>
  \<open>src/src/macho_fat.rs\<close>: universal Mach-O inputs. The header parser reads big-endian
  fields out of the first bytes of the file; slices are selected by name and copied out
  through a small model of the file system.

  Paths are strings, as \<open>display\<close> prints them. A file is its list of bytes. Input and output
  errors are arguments, given by the text of the \<open>io::Error\<close>.
\<close>

unbundle bit_operations_syntax

section \<open>Data\<close>

definition FAT_MAGIC :: u32 where "FAT_MAGIC = 0xcafebabe"
definition FAT_MAGIC_64 :: u32 where "FAT_MAGIC_64 = 0xcafebabf"
definition JAVA_CLASS_MIN_MAJOR :: u32 where "JAVA_CLASS_MIN_MAJOR = 45"
definition FAT_ARCH_SIZE :: nat where "FAT_ARCH_SIZE = 20"
definition FAT_ARCH_64_SIZE :: nat where "FAT_ARCH_64_SIZE = 32"
definition FAT_HEADER_READ_LIMIT :: nat where "FAT_HEADER_READ_LIMIT = 8 + unat JAVA_CLASS_MIN_MAJOR * FAT_ARCH_64_SIZE"
definition MH_MAGIC :: u32 where "MH_MAGIC = 0xfeedface"
definition MH_MAGIC_64 :: u32 where "MH_MAGIC_64 = 0xfeedfacf"

definition CPU_TYPE_X86 :: u32 where "CPU_TYPE_X86 = 7"
definition CPU_TYPE_X86_64 :: u32 where "CPU_TYPE_X86_64 = 7 OR 0x01000000"
definition CPU_TYPE_ARM :: u32 where "CPU_TYPE_ARM = 12"
definition CPU_TYPE_ARM64 :: u32 where "CPU_TYPE_ARM64 = 12 OR 0x01000000"
definition CPU_TYPE_ARM64_32 :: u32 where "CPU_TYPE_ARM64_32 = 12 OR 0x02000000"
definition CPU_TYPE_POWERPC :: u32 where "CPU_TYPE_POWERPC = 18"
definition CPU_TYPE_POWERPC64 :: u32 where "CPU_TYPE_POWERPC64 = 18 OR 0x01000000"
definition CPU_SUBTYPE_FEATURE_MASK :: u32 where "CPU_SUBTYPE_FEATURE_MASK = 0xff000000"

record fat_slice =
  sl_arch :: string
  sl_offset :: u64
  sl_size :: u64

section \<open>The header\<close>

text \<open>CPU types and subtypes are kept as the 32-bit patterns of their signed values, which is
  what \<open>{:#x}\<close> prints.\<close>

definition known_arch :: "u32 \<Rightarrow> u32 \<Rightarrow> string option" where
  "known_arch t sub =
     (if t = CPU_TYPE_X86 \<and> sub = 3 then Some ''i386''
      else if t = CPU_TYPE_X86_64 \<and> sub = 3 then Some ''x86_64''
      else if t = CPU_TYPE_X86_64 \<and> sub = 8 then Some ''x86_64h''
      else if t = CPU_TYPE_ARM \<and> sub = 6 then Some ''armv6''
      else if t = CPU_TYPE_ARM \<and> sub = 9 then Some ''armv7''
      else if t = CPU_TYPE_ARM \<and> sub = 11 then Some ''armv7s''
      else if t = CPU_TYPE_ARM \<and> sub = 12 then Some ''armv7k''
      else if t = CPU_TYPE_ARM64 \<and> sub = 0 then Some ''arm64''
      else if t = CPU_TYPE_ARM64 \<and> sub = 2 then Some ''arm64e''
      else if t = CPU_TYPE_ARM64 \<and> sub = 12 then Some ''arm64e.x1''
      else if t = CPU_TYPE_ARM64_32 \<and> (sub = 0 \<or> sub = 1) then Some ''arm64_32''
      else if t = CPU_TYPE_POWERPC \<and> sub = 0 then Some ''ppc''
      else if t = CPU_TYPE_POWERPC64 \<and> sub = 0 then Some ''ppc64''
      else None)"

definition arch_name :: "u32 \<Rightarrow> u32 \<Rightarrow> string" where
  "arch_name cputype cpusubtype =
     (case known_arch cputype (cpusubtype AND NOT CPU_SUBTYPE_FEATURE_MASK) of
        Some name \<Rightarrow> name
      | None \<Rightarrow> ''cputype'' @ show_hex (unat cputype) @ ''-subtype'' @ show_hex (unat cpusubtype))"

definition be_word :: "u8 list \<Rightarrow> 'a::len word" where
  "be_word bs = foldl (\<lambda>a b. a * 256 + ucast b) 0 bs"

definition be_field :: "nat \<Rightarrow> u8 list \<Rightarrow> nat \<Rightarrow> 'a::len word option" where
  "be_field n bytes at = (if at + n < 2 ^ 64 \<and> at + n \<le> length bytes then Some (be_word (take n (drop at bytes))) else None)"

definition be_u32 :: "u8 list \<Rightarrow> nat \<Rightarrow> u32 option" where
  "be_u32 bytes at = be_field 4 bytes at"

definition be_u64 :: "u8 list \<Rightarrow> nat \<Rightarrow> u64 option" where
  "be_u64 bytes at = be_field 8 bytes at"

definition parse_fat_arch :: "u8 list \<Rightarrow> nat \<Rightarrow> bool \<Rightarrow> (u32 \<times> u32 \<times> u64 \<times> u64) option" where
  "parse_fat_arch header at wide =
     (case be_u32 header at of
        None \<Rightarrow> None
      | Some cputype \<Rightarrow>
     (case be_u32 header (at + 4) of
        None \<Rightarrow> None
      | Some cpusubtype \<Rightarrow>
          if wide
          then (case be_u64 header (at + 8) of
                  None \<Rightarrow> None
                | Some offset \<Rightarrow>
               (case be_u64 header (at + 16) of
                  None \<Rightarrow> None
                | Some sz \<Rightarrow> Some (cputype, cpusubtype, offset, sz)))
          else (case be_u32 header (at + 8) of
                  None \<Rightarrow> None
                | Some offset \<Rightarrow>
               (case be_u32 header (at + 12) of
                  None \<Rightarrow> None
                | Some sz \<Rightarrow> Some (cputype, cpusubtype, ucast offset, ucast sz)))))"

definition span_msg :: "nat \<Rightarrow> string \<Rightarrow> u64 \<Rightarrow> u64 \<Rightarrow> u64 \<Rightarrow> string" where
  "span_msg index arch offset sz file_len =
     ''fat slice '' @ show_nat (index + 1) @ '' ('' @ arch @ '') spans '' @ show_hex (unat offset) @ ''+'' @
     show_hex (unat sz) @ '', outside the '' @ show_nat (unat file_len) @ ''-byte file''"

definition out_of_file :: "u64 \<Rightarrow> u64 \<Rightarrow> nat \<Rightarrow> u64 \<Rightarrow> bool" where
  "out_of_file offset sz table_end file_len \<longleftrightarrow>
     sz = 0 \<or> unat offset < table_end
     \<or> (case checked_add offset sz of None \<Rightarrow> True | Some end_at \<Rightarrow> end_at > file_len)"

fun parse_slices ::
  "u8 list \<Rightarrow> nat \<Rightarrow> bool \<Rightarrow> nat \<Rightarrow> u64 \<Rightarrow> nat list \<Rightarrow> fat_slice list \<Rightarrow> string + fat_slice list" where
  "parse_slices header entry_size wide table_end file_len [] slices = Inr slices"
| "parse_slices header entry_size wide table_end file_len (index # rest) slices =
     (case parse_fat_arch header (8 + index * entry_size) wide of
        None \<Rightarrow> Inl (''fat slice '' @ show_nat (index + 1) @ '' entry is truncated'')
      | Some (cputype, cpusubtype, offset, sz) \<Rightarrow>
          (let arch = arch_name cputype cpusubtype in
           if out_of_file offset sz table_end file_len then Inl (span_msg index arch offset sz file_len)
           else if list_ex (\<lambda>s. sl_arch s = arch) slices then Inl (''fat header lists '' @ arch @ '' twice'')
           else parse_slices header entry_size wide table_end file_len rest
                  (slices @ [\<lparr>sl_arch = arch, sl_offset = offset, sl_size = sz\<rparr>])))"

definition parse_fat_header :: "u8 list \<Rightarrow> u64 \<Rightarrow> string + fat_slice list option" where
  "parse_fat_header header file_len =
     (case be_u32 header 0 of
        None \<Rightarrow> Inr None
      | Some magic \<Rightarrow>
          if magic \<noteq> FAT_MAGIC \<and> magic \<noteq> FAT_MAGIC_64 then Inr None
          else
     (case be_u32 header 4 of
        None \<Rightarrow> Inr None
      | Some count \<Rightarrow>
          if count = 0 \<or> JAVA_CLASS_MIN_MAJOR \<le> count then Inr None
          else
            (let entry_size = (if magic = FAT_MAGIC then FAT_ARCH_SIZE else FAT_ARCH_64_SIZE);
                 n = unat count; table_end = 8 + n * entry_size in
             if length header < table_end
             then Inl (''fat header declares '' @ show_nat n @ '' slices but the file ends inside the slice table'')
             else (case parse_slices header entry_size (magic = FAT_MAGIC_64) table_end file_len [0..<n] [] of
                     Inl e \<Rightarrow> Inl e
                   | Inr slices \<Rightarrow> Inr (Some slices)))))"

definition swap_bytes :: "u32 \<Rightarrow> u32" where
  "swap_bytes w = push_bit 24 (w AND 0xff) OR push_bit 8 (w AND 0xff00)
     OR drop_bit 8 (w AND 0xff0000) OR drop_bit 24 w"

definition thin_arch :: "u8 list \<Rightarrow> string option" where
  "thin_arch header =
     (case be_u32 header 0 of
        None \<Rightarrow> None
      | Some magic \<Rightarrow>
          if magic = MH_MAGIC \<or> magic = MH_MAGIC_64 \<or> swap_bytes magic = MH_MAGIC \<or> swap_bytes magic = MH_MAGIC_64
          then (let swap = \<not> (magic = MH_MAGIC \<or> magic = MH_MAGIC_64);
                    field = (\<lambda>at. map_option (\<lambda>v. if swap then swap_bytes v else v) (be_u32 header at)) in
                case (field 4, field 8) of
                  (Some t, Some sub) \<Rightarrow> Some (arch_name t sub)
                | _ \<Rightarrow> None)
          else None)"

section \<open>Inspecting a file\<close>

datatype macho_kind = Universal "fat_slice list" | Thin string | OtherFile

text \<open>What opening the input gives: it fails, its length is unknown, its header cannot be
  read, or its bytes.\<close>

datatype input_file = NoOpen | NoMetadata | HeaderError string | InputBytes "u8 list"

fun check_slices :: "string \<Rightarrow> u8 list \<Rightarrow> nat \<Rightarrow> fat_slice list \<Rightarrow> tool_error option" where
  "check_slices path bytes index [] = None"
| "check_slices path bytes index (s # ss) =
     (case thin_arch (take 12 (drop (unat (sl_offset s)) bytes)) of
        None \<Rightarrow> Some (InvalidParams (path @ '' is a malformed universal Mach-O: slice '' @ show_nat (index + 1) @
          '' ('' @ sl_arch s @ '') at '' @ show_hex (unat (sl_offset s)) @ '' is not a Mach-O image''))
      | Some _ \<Rightarrow> check_slices path bytes (index + 1) ss)"

definition inspect :: "string \<Rightarrow> input_file \<Rightarrow> tool_error + macho_kind" where
  "inspect path file =
     (case file of
        NoOpen \<Rightarrow> Inr OtherFile
      | NoMetadata \<Rightarrow> Inr OtherFile
      | HeaderError err \<Rightarrow> Inl (OpenFailed (path @ '': reading header: '' @ err))
      | InputBytes bytes \<Rightarrow>
          (let header = take FAT_HEADER_READ_LIMIT bytes in
           case parse_fat_header header (of_nat (length bytes)) of
             Inl reason \<Rightarrow> Inl (InvalidParams (path @ '' is a malformed universal Mach-O: '' @ reason))
           | Inr None \<Rightarrow> Inr (case thin_arch header of None \<Rightarrow> OtherFile | Some a \<Rightarrow> Thin a)
           | Inr (Some slices) \<Rightarrow>
               (case check_slices path bytes 0 slices of
                  Some e \<Rightarrow> Inl e
                | None \<Rightarrow> Inr (Universal slices))))"

definition slice_names :: "fat_slice list \<Rightarrow> string" where
  "slice_names slices = str_join '', '' (map sl_arch slices)"

definition select_slice :: "fat_slice list \<Rightarrow> string \<Rightarrow> fat_slice option" where
  "select_slice slices arch = find (\<lambda>s. eq_ignore_ascii_case (sl_arch s) (trim arch)) slices"

section \<open>Extracting a slice\<close>

type_synonym fs = "string \<Rightarrow> u8 list option"

datatype slice_file = Created | Reused

text \<open>
  What can go wrong and what other processes do: \<open>se_other\<close> changes the file system
  between writing the partial file and publishing it. \<open>se_written\<close> is how many bytes reach
  the partial file when writing fails.
\<close>

record slice_env =
  se_partial :: string
  se_meta_error :: "string option"
  se_create_error :: "string option"
  se_write_error :: "string option"
  se_written :: nat
  se_link_error :: "string option"
  se_compare_error :: "string option"
  se_remove_fails :: bool
  se_other :: "fs \<Rightarrow> fs"

definition slice_io_error :: "string \<Rightarrow> string \<Rightarrow> fat_slice \<Rightarrow> string \<Rightarrow> string \<Rightarrow> tool_error" where
  "slice_io_error action input s path err =
     OpenFailed (action @ '' '' @ sl_arch s @ '' slice of '' @ input @ '' at '' @ path @ '': '' @ err)"

text \<open>The bytes of the slice that \<open>take(slice.size)\<close> after the seek yields.\<close>

definition slice_bytes :: "u8 list \<Rightarrow> fat_slice \<Rightarrow> u8 list" where
  "slice_bytes bytes s = take (unat (sl_size s)) (drop (unat (sl_offset s)) bytes)"

definition write_slice :: "u8 list \<Rightarrow> fat_slice \<Rightarrow> string option \<times> u8 list" where
  "write_slice bytes s =
     (let out = slice_bytes bytes s in
      (if length out \<noteq> unat (sl_size s)
       then Some (''input ended after '' @ show_nat (length out) @ '' of '' @ show_nat (unat (sl_size s)) @ '' slice bytes'')
       else None, out))"

definition COMPARE_CHUNK :: nat where "COMPARE_CHUNK = 64 * 1024"

function slice_matches_loop :: "u8 list \<Rightarrow> u8 list \<Rightarrow> string + bool" where
  "slice_matches_loop source existing =
     (if source = [] then Inr True
      else
        (let n = min COMPARE_CHUNK (length source) in
         if length existing < n then Inl ''failed to fill whole buffer''
         else if take n source \<noteq> take n existing then Inr False
         else slice_matches_loop (drop n source) (drop n existing)))"
  by pat_completeness auto
termination
  by (relation "measure (\<lambda>(source, _). length source)") (auto simp: COMPARE_CHUNK_def)

declare slice_matches_loop.simps [simp del]

definition existing_slice :: "slice_env \<Rightarrow> fs \<Rightarrow> string \<Rightarrow> fat_slice \<Rightarrow> string \<Rightarrow> tool_error + slice_file" where
  "existing_slice env files input s dest =
     (let differs = Inl (InvalidParams (dest @ '' already exists and differs from the '' @ sl_arch s @ '' slice of '' @
            input @ ''; delete it or choose an idb_out in another directory'')) in
      case se_compare_error env of
        Some e \<Rightarrow> Inl (slice_io_error ''comparing'' input s dest e)
      | None \<Rightarrow>
     (case files dest of
        None \<Rightarrow> Inl (slice_io_error ''comparing'' input s dest ''No such file or directory'')
      | Some d \<Rightarrow>
          if length d \<noteq> unat (sl_size s) then differs
          else
     (case files input of
        None \<Rightarrow> Inl (slice_io_error ''comparing'' input s dest ''No such file or directory'')
      | Some bytes \<Rightarrow>
     (case slice_matches_loop (slice_bytes bytes s) d of
        Inl e \<Rightarrow> Inl (slice_io_error ''comparing'' input s dest e)
      | Inr True \<Rightarrow> Inr Reused
      | Inr False \<Rightarrow> differs))))"

definition write_partial :: "slice_env \<Rightarrow> fs \<Rightarrow> string \<Rightarrow> fat_slice \<Rightarrow> string option \<times> u8 list" where
  "write_partial env files input s =
     (case se_write_error env of
        Some e \<Rightarrow> (Some e, case files input of None \<Rightarrow> [] | Some b \<Rightarrow> take (se_written env) (slice_bytes b s))
      | None \<Rightarrow>
          (case files input of
             None \<Rightarrow> (Some ''No such file or directory'', [])
           | Some b \<Rightarrow> write_slice b s))"

definition publish ::
  "slice_env \<Rightarrow> fs \<Rightarrow> string \<Rightarrow> fat_slice \<Rightarrow> string \<Rightarrow> (tool_error + slice_file) \<times> fs" where
  "publish env files input s dest =
     (if files dest \<noteq> None then (existing_slice env files input s dest, files)
      else case se_link_error env of
        Some e \<Rightarrow> (Inl (OpenFailed (''cannot publish the '' @ sl_arch s @ '' slice of '' @ input @ '' at '' @ dest @
          '': the filesystem refused a hard link ('' @ e @
          ''); choose an idb_out directory on a filesystem that supports hard links'')), files)
      | None \<Rightarrow> (Inr Created, files(dest := files (se_partial env))))"

definition extract_slice ::
  "slice_env \<Rightarrow> fs \<Rightarrow> string \<Rightarrow> fat_slice \<Rightarrow> string \<Rightarrow> (tool_error + slice_file) \<times> fs" where
  "extract_slice env files input s dest =
     (case se_meta_error env of
        Some e \<Rightarrow> (Inl (slice_io_error ''inspecting'' input s dest e), files)
      | None \<Rightarrow>
          if files dest \<noteq> None then (existing_slice env files input s dest, files)
          else
     (case (if files (se_partial env) \<noteq> None then Some ''File exists'' else se_create_error env) of
        Some e \<Rightarrow> (Inl (slice_io_error ''creating'' input s (se_partial env) e), files)
      | None \<Rightarrow>
          (let (werr, bytes) = write_partial env files input s;
               files1 = se_other env (files(se_partial env := Some bytes));
               (r, files2) = (case werr of
                  Some e \<Rightarrow> (Inl (slice_io_error ''writing'' input s (se_partial env) e), files1)
                | None \<Rightarrow> publish env files1 input s dest)
           in (r, if se_remove_fails env then files2 else files2(se_partial env := None)))))"

text \<open>The file name of a path, its directory, and joining, on slash-separated paths, are
  parameters of \<open>slice_path\<close>.\<close>

definition slice_path ::
  "(string \<Rightarrow> string option) \<Rightarrow> (string \<Rightarrow> string option) \<Rightarrow> (string \<Rightarrow> string \<Rightarrow> string) \<Rightarrow>
   string \<Rightarrow> string option \<Rightarrow> string \<Rightarrow> string option" where
  "slice_path file_name parent join input idb_out arch =
     (case file_name input of
        None \<Rightarrow> None
      | Some name \<Rightarrow>
          (case parent (case idb_out of Some out \<Rightarrow> out | None \<Rightarrow> input) of
             None \<Rightarrow> None
           | Some dir \<Rightarrow> Some (join dir (name @ ''.'' @ arch))))"

section \<open>The parser is sound\<close>

definition slice_ok :: "nat \<Rightarrow> u64 \<Rightarrow> fat_slice \<Rightarrow> bool" where
  "slice_ok table_end file_len s \<longleftrightarrow> 0 < unat (sl_size s) \<and> table_end \<le> unat (sl_offset s)
     \<and> unat (sl_offset s) + unat (sl_size s) \<le> unat file_len"

lemma in_file:
  assumes "\<not> out_of_file off sz table_end file_len"
  shows "slice_ok table_end file_len \<lparr>sl_arch = a, sl_offset = off, sl_size = sz\<rparr>"
proof -
  from assms obtain e where e: "checked_add off sz = Some e" "e \<le> file_len"
    by (auto simp: out_of_file_def not_less split: option.splits)
  then have "unat off + unat sz \<le> unat file_len"
    using checked_add_SomeD [OF e(1)] by (simp add: word_le_nat_alt)
  moreover have "0 < unat sz" using assms by (auto simp: out_of_file_def unat_gt_0)
  ultimately show ?thesis using assms by (simp add: slice_ok_def out_of_file_def not_less)
qed

lemma parse_slices_sound:
  assumes "parse_slices header es wide te fl idx acc = Inr slices"
    and "\<forall>s \<in> set acc. slice_ok te fl s \<and> (\<exists>t u. sl_arch s = arch_name t u)" "distinct (map sl_arch acc)"
  shows "(\<forall>s \<in> set slices. slice_ok te fl s \<and> (\<exists>t u. sl_arch s = arch_name t u)) \<and> distinct (map sl_arch slices)
    \<and> length slices = length acc + length idx"
  using assms
proof (induction header es wide te fl idx acc rule: parse_slices.induct)
  case (2 header es wide te fl index rest acc)
  from "2.prems"(1) obtain t u off sz where p: "parse_fat_arch header (8 + index * es) wide = Some (t, u, off, sz)"
    by (auto split: option.splits)
  let ?s = "\<lparr>sl_arch = arch_name t u, sl_offset = off, sl_size = sz\<rparr>"
  from "2.prems"(1) p have ok: "\<not> out_of_file off sz te fl" "\<not> list_ex (\<lambda>s. sl_arch s = arch_name t u) acc"
    and rest: "parse_slices header es wide te fl rest (acc @ [?s]) = Inr slices"
    by (auto simp: Let_def split: if_splits)
  have acc: "\<forall>s \<in> set (acc @ [?s]). slice_ok te fl s \<and> (\<exists>t u. sl_arch s = arch_name t u)"
    using "2.prems"(2) in_file [OF ok(1)] by auto
  have "distinct (map sl_arch (acc @ [?s]))" using "2.prems"(3) ok(2) by (auto simp: list_ex_iff)
  from "2.IH" [OF p refl refl refl refl ok(1) ok(2) rest acc this] show ?case by simp
qed simp

section \<open>Architecture names\<close>

lemma plain_known: "known_arch t u = Some name \<Longrightarrow> plain name"
proof -
  assume "known_arch t u = Some name"
  then have "name \<in> set [''i386'', ''x86_64'', ''x86_64h'', ''armv6'', ''armv7'', ''armv7s'', ''armv7k'', ''arm64'', ''arm64e'',
      ''arm64e.x1'', ''arm64_32'', ''ppc'', ''ppc64'']"
    unfolding known_arch_def by (simp split: if_splits)
  moreover have "\<forall>n \<in> set [''i386'', ''x86_64'', ''x86_64h'', ''armv6'', ''armv7'', ''armv7s'', ''armv7k'', ''arm64'', ''arm64e'',
      ''arm64e.x1'', ''arm64_32'', ''ppc'', ''ppc64'']. plain n"
    by (simp add: plain_char_def ascii_lower_def ascii_white_def)
  ultimately show ?thesis by blast
qed

lemma plain_arch_name: "plain (arch_name t u)"
proof (cases "known_arch t (u AND NOT CPU_SUBTYPE_FEATURE_MASK)")
  case None
  have "plain ''cputype''" "plain ''-subtype''" "plain ''0x''"
    by (simp_all add: plain_char_def ascii_lower_def ascii_white_def)
  with None show ?thesis using plain_show_base [of 16] by (auto simp: arch_name_def show_hex_def)
next
  case (Some name)
  then show ?thesis using plain_known by (auto simp: arch_name_def)
qed

lemma select_by_name:
  assumes "distinct (map sl_arch slices)" "\<forall>s \<in> set slices. plain (sl_arch s)" "s \<in> set slices"
  shows "select_slice slices (sl_arch s) = Some s"
proof -
  have eq: "eq_ignore_ascii_case (sl_arch x) (trim (sl_arch s)) \<longleftrightarrow> sl_arch x = sl_arch s" if "x \<in> set slices" for x
    using assms(2,3) that by (simp add: eq_ignore_ascii_case_def trim_plain plain_lower)
  have "find (\<lambda>x. sl_arch x = sl_arch s) slices = Some s"
    using assms(1,3) by (induction slices) auto
  moreover have "find (\<lambda>x. eq_ignore_ascii_case (sl_arch x) (trim (sl_arch s))) slices = find (\<lambda>x. sl_arch x = sl_arch s) slices"
    by (rule find_cong [OF refl]) (simp add: eq)
  ultimately show ?thesis by (simp add: select_slice_def)
qed

section \<open>Properties\<close>

lemma parse_fat_header_slices:
  assumes "parse_fat_header header file_len = Inr (Some slices)"
  shows "(\<forall>s \<in> set slices. slice_ok (8 + 20 * length slices) file_len s \<and> plain (sl_arch s))
    \<and> distinct (map sl_arch slices) \<and> 1 \<le> length slices \<and> length slices < 45"
proof -
  from assms obtain magic count where magic: "be_u32 header 0 = Some magic" "magic = FAT_MAGIC \<or> magic = FAT_MAGIC_64"
    and count: "be_u32 header 4 = Some count" "count \<noteq> 0" "count < JAVA_CLASS_MIN_MAJOR"
    by (auto simp: parse_fat_header_def not_le split: option.splits if_splits)
  let ?es = "if magic = FAT_MAGIC then FAT_ARCH_SIZE else FAT_ARCH_64_SIZE" and ?n = "unat count"
  have "parse_slices header ?es (magic = FAT_MAGIC_64) (8 + ?n * ?es) file_len [0..<?n] [] = Inr slices"
    using assms magic count by (auto simp: parse_fat_header_def Let_def not_le split: if_splits sum.splits)
  from parse_slices_sound [OF this] have s: "\<forall>s \<in> set slices. slice_ok (8 + ?n * ?es) file_len s \<and> (\<exists>t u. sl_arch s = arch_name t u)"
    "distinct (map sl_arch slices)" "length slices = ?n" by simp_all
  have "slice_ok (8 + 20 * ?n) file_len x" if "slice_ok (8 + ?n * ?es) file_len x" for x
    using that by (auto simp: slice_ok_def FAT_ARCH_SIZE_def FAT_ARCH_64_SIZE_def split: if_splits)
  moreover have "1 \<le> ?n" using count(2) by (simp add: Suc_le_eq unat_gt_0)
  moreover have "?n < 45" using count(3) by (simp add: word_less_nat_alt JAVA_CLASS_MIN_MAJOR_def)
  ultimately show ?thesis using s plain_arch_name by auto
qed

text \<open>
  C8: Whatever bytes a file holds, an accepted universal header yields between 1 and 44
  slices that lie inside the file behind the slice table, are not empty, and carry
  pairwise distinct names; offsets and sizes are compared without wrap-around.
\<close>

theorem fat_header_sound:
  assumes "inspect path (InputBytes bytes) = Inr (Universal slices)" "length bytes < 2 ^ 64"
  shows "1 \<le> length slices \<and> length slices < 45 \<and> distinct (map sl_arch slices)
    \<and> (\<forall>s \<in> set slices. 0 < unat (sl_size s) \<and> 8 + 20 * length slices \<le> unat (sl_offset s)
         \<and> length (slice_bytes bytes s) = unat (sl_size s))"
proof -
  from assms(1) have "parse_fat_header (take FAT_HEADER_READ_LIMIT bytes) (of_nat (length bytes)) = Inr (Some slices)"
    by (auto simp: inspect_def Let_def split: sum.splits option.splits)
  from parse_fat_header_slices [OF this] assms(2) show ?thesis
    by (auto simp: slice_ok_def slice_bytes_def take_bit_nat_eq_self unsigned_of_nat min_def)
qed

definition demo_fat :: "u8 list" where
  "demo_fat = [0xca, 0xfe, 0xba, 0xbe, 0, 0, 0, 1,
     1, 0, 0, 12, 0, 0, 0, 0, 0, 0, 0, 28, 0, 0, 0, 12, 0, 0, 0, 0,
     0xfe, 0xed, 0xfa, 0xcf, 1, 0, 0, 12, 0, 0, 0, 0]"

lemmas macho_eval = inspect_def parse_fat_header_def be_u32_def be_u64_def be_field_def be_word_def FAT_MAGIC_def
  FAT_MAGIC_64_def JAVA_CLASS_MIN_MAJOR_def FAT_ARCH_SIZE_def FAT_ARCH_64_SIZE_def FAT_HEADER_READ_LIMIT_def
  parse_fat_arch_def arch_name_def known_arch_def CPU_SUBTYPE_FEATURE_MASK_def out_of_file_def checked_add_def
  thin_arch_def MH_MAGIC_def MH_MAGIC_64_def CPU_TYPE_X86_def CPU_TYPE_X86_64_def CPU_TYPE_ARM_def CPU_TYPE_ARM64_def
  CPU_TYPE_ARM64_32_def CPU_TYPE_POWERPC_def CPU_TYPE_POWERPC64_def

lemma demo_fat_inspect:
  "inspect ''f'' (InputBytes demo_fat) = Inr (Universal [\<lparr>sl_arch = ''arm64'', sl_offset = 28, sl_size = 12\<rparr>])"
  by (simp add: demo_fat_def macho_eval word_le_nat_alt word_less_nat_alt Let_def)

theorem fat_header_sound_witness:
  "length (slice_bytes demo_fat \<lparr>sl_arch = ''arm64'', sl_offset = 28, sl_size = 12\<rparr>) = 12"
  using fat_header_sound [OF demo_fat_inspect] by (simp add: demo_fat_def)

text \<open>
  Every slice of an accepted universal file can be chosen by the name the file's
  listing shows for it, and the choice is that slice and no other.
\<close>

theorem slice_selectable_by_name:
  assumes "inspect path (InputBytes bytes) = Inr (Universal slices)" "s \<in> set slices"
  shows "select_slice slices (sl_arch s) = Some s"
proof -
  from assms(1) have "parse_fat_header (take FAT_HEADER_READ_LIMIT bytes) (of_nat (length bytes)) = Inr (Some slices)"
    by (auto simp: inspect_def Let_def split: sum.splits option.splits)
  from parse_fat_header_slices [OF this] assms(2) show ?thesis by (intro select_by_name) auto
qed

theorem slice_selectable_by_name_witness:
  "select_slice [\<lparr>sl_arch = ''arm64'', sl_offset = 28, sl_size = 12\<rparr>] ''arm64''
     = Some \<lparr>sl_arch = ''arm64'', sl_offset = 28, sl_size = 12\<rparr>"
  using slice_selectable_by_name [OF demo_fat_inspect, of "\<lparr>sl_arch = ''arm64'', sl_offset = 28, sl_size = 12\<rparr>"] by simp

section \<open>Extraction\<close>

lemma slice_matches_True:
  "slice_matches_loop source existing = Inr True \<Longrightarrow> take (length source) existing = source"
proof (induction source existing rule: slice_matches_loop.induct)
  case (1 source existing)
  show ?case
  proof (cases "source = []")
    case False
    let ?n = "min COMPARE_CHUNK (length source)"
    have eq: "take ?n source = take ?n existing" "slice_matches_loop (drop ?n source) (drop ?n existing) = Inr True"
      using "1.prems" False by (auto simp: slice_matches_loop.simps [of source] Let_def split: if_splits)
    have "\<not> length existing < ?n"
      using "1.prems" False by (auto simp: slice_matches_loop.simps [of source] Let_def split: if_splits)
    from "1.IH" [OF False refl this _ eq(2)] eq(1)
    have "take (length source - ?n) (drop ?n existing) = drop ?n source" by simp
    then have "take ?n existing @ take (length source - ?n) (drop ?n existing) = source"
      by (metis append_take_drop_id eq(1))
    then show ?thesis by (metis le_add_diff_inverse min.cobounded2 take_add)
  qed simp
qed

lemma existing_slice_reused:
  assumes "existing_slice env files input s dest = Inr r" "files input = Some bytes"
    and "length (slice_bytes bytes s) = unat (sl_size s)"
  shows "r = Reused \<and> files dest = Some (slice_bytes bytes s)"
proof -
  from assms(1,2) obtain d where d: "files dest = Some d" "length d = unat (sl_size s)" "r = Reused"
    "slice_matches_loop (slice_bytes bytes s) d = Inr True"
    by (auto simp: existing_slice_def Let_def split: option.splits sum.splits bool.splits if_splits)
  from slice_matches_True [OF d(4)] d(1-3) assms(3) show ?thesis by simp
qed

lemma write_partial_ok:
  assumes "write_partial env files input s = (None, bytes)"
  shows "\<exists>b. files input = Some b \<and> bytes = slice_bytes b s \<and> length bytes = unat (sl_size s)"
  using assms by (auto simp: write_partial_def write_slice_def Let_def split: option.splits if_splits)

text \<open>
  Extraction never destroys a file. Whatever fails and whatever other processes do
  between writing and publishing, a file that exists at the destination, before the call or
  since, keeps its bytes; no path other than the destination and the call's own partial
  file is touched; and when the call reports success the destination holds exactly the
  bytes of the slice. A partial file is left behind only if its removal fails.
\<close>

theorem extraction_is_safe:
  fixes env :: slice_env and files :: fs
  defines "part \<equiv> se_partial env"
  assumes "extract_slice env files input s dest = (r, files')"
    and "part \<noteq> dest" "part \<noteq> input" "dest \<noteq> input"
    and "files input = Some bytes" "length (slice_bytes bytes s) = unat (sl_size s)"
    and "\<forall>fs. se_other env fs part = fs part \<and> se_other env fs input = fs input"
  shows "(\<forall>d. files dest = Some d \<longrightarrow> files' = files)
    \<and> (\<exists>seen. (seen = files \<or> (\<exists>b. seen = se_other env (files(part := Some b))))
         \<and> (\<forall>p. p \<noteq> dest \<and> p \<noteq> part \<longrightarrow> files' p = seen p)
         \<and> (\<forall>d. seen dest = Some d \<longrightarrow> files' dest = Some d)
         \<and> (\<forall>f. r = Inr f \<longrightarrow> files' dest = Some (slice_bytes bytes s)))
    \<and> (files part = None \<and> \<not> se_remove_fails env \<longrightarrow> files' part = None)"
proof (cases "se_meta_error env \<noteq> None \<or> files dest \<noteq> None \<or> files part \<noteq> None \<or> se_create_error env \<noteq> None")
  case True
  have same: "files' = files"
    using assms(2) True by (auto simp: extract_slice_def part_def split: option.splits if_splits)
  have "files dest = Some (slice_bytes bytes s)" if "r = Inr f" for f
  proof -
    from that assms(2) True have "existing_slice env files input s dest = Inr f"
      by (auto simp: extract_slice_def part_def split: option.splits if_splits)
    from existing_slice_reused [OF this assms(6,7)] show ?thesis by blast
  qed
  with same show ?thesis by blast
next
  case False
  then have absent: "se_meta_error env = None" "files dest = None" "files part = None" "se_create_error env = None" by auto
  obtain werr out where w: "write_partial env files input s = (werr, out)" by fastforce
  let ?seen = "se_other env (files(part := Some out))"
  obtain r2 files2 where pub: "(case werr of
      Some e \<Rightarrow> (Inl (slice_io_error ''writing'' input s part e), ?seen)
    | None \<Rightarrow> publish env ?seen input s dest) = (r2, files2)" by fastforce
  have fin: "r = r2" "files' = (if se_remove_fails env then files2 else files2(part := None))"
    using assms(2) absent [unfolded part_def] w pub [unfolded part_def] unfolding part_def
    by (simp_all add: extract_slice_def Let_def)
  have seen_in: "?seen input = Some bytes" "?seen part = Some out" using assms(4,6,8) by auto
  have "(\<forall>p. p \<noteq> dest \<longrightarrow> files2 p = ?seen p) \<and> (\<forall>d. ?seen dest = Some d \<longrightarrow> files2 dest = Some d)
      \<and> (\<forall>f. r2 = Inr f \<longrightarrow> files2 dest = Some (slice_bytes bytes s))"
  proof (cases werr)
    case (Some e)
    with pub show ?thesis by auto
  next
    case None
    with w write_partial_ok assms(6) have out: "out = slice_bytes bytes s" by fastforce
    show ?thesis
    proof (cases "?seen dest")
      case (Some d)
      with None pub have "r2 = existing_slice env ?seen input s dest" "files2 = ?seen"
        by (auto simp: publish_def)
      with Some existing_slice_reused [where files = ?seen, OF _ seen_in(1) assms(7)] show ?thesis by auto
    next
      case dest: None
      with None pub seen_in out show ?thesis
        by (auto simp: publish_def part_def split: option.splits)
    qed
  qed
  then show ?thesis
    using absent fin assms(3) by (intro conjI exI [of _ ?seen]) auto
qed

definition demo_slice :: fat_slice where
  "demo_slice = \<lparr>sl_arch = ''arm64'', sl_offset = 28, sl_size = 12\<rparr>"

definition demo_env :: slice_env where
  "demo_env = \<lparr>se_partial = ''o.partial'', se_meta_error = None, se_create_error = None, se_write_error = None,
     se_written = 0, se_link_error = None, se_compare_error = None, se_remove_fails = False, se_other = id\<rparr>"

theorem extraction_is_safe_witness:
  "snd (extract_slice demo_env [''f'' \<mapsto> demo_fat] ''f'' demo_slice ''o'') ''o'' = Some (slice_bytes demo_fat demo_slice)"
proof -
  let ?fs = "[''f'' \<mapsto> demo_fat]"
  have len: "length (slice_bytes demo_fat demo_slice) = unat (sl_size demo_slice)"
    by (simp add: slice_bytes_def demo_fat_def demo_slice_def)
  have "fst (extract_slice demo_env ?fs ''f'' demo_slice ''o'') = Inr Created"
    using len by (simp add: extract_slice_def demo_env_def write_partial_def write_slice_def publish_def Let_def)
  with extraction_is_safe [where env = demo_env and files = ?fs and input = "''f''" and s = demo_slice
      and dest = "''o''" and bytes = demo_fat, OF prod.collapse [symmetric]] len
  show ?thesis by (auto simp: demo_env_def)
qed

end
