(* ===== verification/Stdio_Transport.thy ===== *)
theory Stdio_Transport
  imports Remote
begin

text \<open>
  \<open>src/src/transport/public_stdio.rs\<close> and \<open>src/src/transport.rs\<close>: bounded line framing of the
  public input, bounded replies, and the save-first shutdown of the stdio transport.

  What \<open>fill_buf\<close> returns is the head of a list of chunks; the end of the list, or an empty
  chunk, is end of file. JSON (serde) and rmcp's codec are parameters.
\<close>

section \<open>Reading lines\<close>

datatype 'i line_read = LrComplete | LrOversized "'i option" | LrEof

abbreviation newline :: u8 where "newline \<equiv> 10"

definition position_newline :: "u8 list \<Rightarrow> nat option" where
  "position_newline bs = (let n = length (takeWhile (\<lambda>b. b \<noteq> newline) bs) in if n < length bs then Some n else None)"

text \<open>How much of the available bytes the step consumes.\<close>

definition take_len :: "u8 list \<Rightarrow> nat" where
  "take_len bs = (case position_newline bs of Some n \<Rightarrow> n + 1 | None \<Rightarrow> length bs)"

definition consume :: "nat \<Rightarrow> u8 list \<Rightarrow> u8 list list \<Rightarrow> u8 list list" where
  "consume n bs cs = (if n < length bs then drop n bs # cs else cs)"

lemma position_newline_less: "position_newline bs = Some n \<Longrightarrow> n < length bs"
  by (auto simp: position_newline_def Let_def split: if_splits)

lemma take_len_pos: "bs \<noteq> [] \<Longrightarrow> 0 < take_len bs"
  by (auto simp: take_len_def split: option.splits)

lemma take_len_le: "take_len bs \<le> length bs"
  using position_newline_less by (fastforce simp: take_len_def split: option.splits)

lemma consume_shrinks:
  assumes "bs \<noteq> []"
  shows "sum_list (map length (consume (take_len bs) bs cs)) < sum_list (map length (bs # cs))"
  using take_len_pos [OF assms] take_len_le [of bs] assms by (auto simp: consume_def)

function read_line ::
  "(u8 list \<Rightarrow> 'i option) \<Rightarrow> nat \<Rightarrow> u8 list \<Rightarrow> bool \<Rightarrow> u8 list list \<Rightarrow> 'i line_read \<times> u8 list \<times> bool \<times> u8 list list" where
  "read_line id_of mx line discarding [] = (LrEof, line, discarding, [])"
| "read_line id_of mx line discarding (available # cs) =
     (if available = [] then (LrEof, line, discarding, available # cs)
      else
        (let nl = position_newline available; n = take_len available; rest = consume n available cs in
         if discarding then read_line id_of mx line (nl = None) rest
         else if mx < length line + n
         then (LrOversized (id_of (line @ take (min (mx - length line) n) available)), [], nl = None, rest)
         else if nl \<noteq> None then (LrComplete, line @ take n available, False, rest)
         else read_line id_of mx (line @ take n available) False rest))"
  by pat_completeness auto
termination
  by (relation "measure (\<lambda>(_, _, _, _, cs). sum_list (map length cs))")
    (auto intro: consume_shrinks [simplified])

declare read_line.simps(2) [simp del]

text \<open>
  The reader as \<open>receive\<close> drives it: it reads line after line, and the line buffer is
  cleared after a complete line is handled.
\<close>

datatype 'i frame = Line "u8 list" | Oversized "'i option"

lemma consume_length: "sum_list (map length (consume n bs cs)) \<le> sum_list (map length (bs # cs))"
  by (simp add: consume_def)

lemma read_line_shrinks:
  "read_line id_of mx line disc cs = (r, line', disc', cs') \<Longrightarrow> r \<noteq> LrEof \<Longrightarrow>
   sum_list (map length cs') < sum_list (map length cs)"
proof (induction id_of mx line disc cs rule: read_line.induct)
  case (2 id_of mx line disc available cs)
  show ?case
  proof (cases "available = []")
    case True
    then show ?thesis using "2.prems" by (simp add: read_line.simps)
  next
    case False
    note s = consume_shrinks [OF False, of cs]
    from False "2.prems" "2.IH" [OF False refl refl refl] s show ?thesis
      by (auto simp: read_line.simps(2) [of id_of mx line disc available cs] Let_def split: if_splits)
  qed
qed simp

function frames :: "(u8 list \<Rightarrow> 'i option) \<Rightarrow> nat \<Rightarrow> u8 list \<Rightarrow> bool \<Rightarrow> u8 list list \<Rightarrow> 'i frame list" where
  "frames id_of mx line discarding cs =
     (case read_line id_of mx line discarding cs of
        (LrEof, _) \<Rightarrow> []
      | (LrComplete, l, d, cs') \<Rightarrow> Line l # frames id_of mx [] d cs'
      | (LrOversized i, l, d, cs') \<Rightarrow> Oversized i # frames id_of mx l d cs')"
  by pat_completeness auto
termination
  by (relation "measure (\<lambda>(_, _, _, _, cs). sum_list (map length cs))")
    (auto dest: read_line_shrinks [OF sym])

declare frames.simps [simp del]

text \<open>The reference: the stream read byte by byte.\<close>

fun feed :: "(u8 list \<Rightarrow> 'i option) \<Rightarrow> nat \<Rightarrow> u8 list \<Rightarrow> bool \<Rightarrow> u8 list \<Rightarrow> 'i frame list" where
  "feed id_of mx line discarding [] = []"
| "feed id_of mx line discarding (b # bs) =
     (if discarding then feed id_of mx line (b \<noteq> newline) bs
      else if mx \<le> length line then Oversized (id_of line) # feed id_of mx [] (b \<noteq> newline) bs
      else if b = newline then Line (line @ [b]) # feed id_of mx [] False bs
      else feed id_of mx (line @ [b]) False bs)"

section \<open>The chunked reader implements the reference\<close>

lemma feed_plain:
  "newline \<notin> set x \<Longrightarrow> length line + length x \<le> mx \<Longrightarrow> feed id_of mx line False (x @ r) = feed id_of mx (line @ x) False r"
  by (induction x arbitrary: line) auto

lemma feed_discard: "newline \<notin> set x \<Longrightarrow> feed id_of mx line True (x @ r) = feed id_of mx line True r"
  by (induction x) auto

lemma feed_overflow:
  "newline \<notin> set x \<Longrightarrow> length line \<le> mx \<Longrightarrow> mx < length line + length x \<Longrightarrow>
   feed id_of mx line False (x @ r) = Oversized (id_of (line @ take (mx - length line) x)) # feed id_of mx [] True r"
proof (induction x arbitrary: line)
  case (Cons b x)
  show ?case
  proof (cases "length line = mx")
    case True
    with Cons.prems show ?thesis by (cases x) (auto simp: feed_discard)
  next
    case False
    with Cons.prems Cons.IH [of "line @ [b]"] show ?thesis by (auto simp: take_Cons' Suc_diff_Suc)
  qed
qed simp

lemma position_None: "position_newline bs = None \<Longrightarrow> newline \<notin> set bs"
proof -
  assume "position_newline bs = None"
  then have "length bs \<le> length (takeWhile (\<lambda>b. b \<noteq> newline) bs)"
    by (simp add: position_newline_def Let_def split: if_splits)
  then have "takeWhile (\<lambda>b. b \<noteq> newline) bs = bs"
    using takeWhile_eq_take [of "\<lambda>b. b \<noteq> newline" bs] by simp
  then show ?thesis using takeWhile_eq_all_conv [of "\<lambda>b. b \<noteq> newline" bs] by auto
qed

lemma position_Some:
  assumes "position_newline bs = Some n"
  shows "\<exists>x. bs = x @ newline # drop (n + 1) bs \<and> newline \<notin> set x \<and> length x = n"
proof -
  let ?x = "takeWhile (\<lambda>b. b \<noteq> newline) bs"
  have n: "n = length ?x" "n < length bs" using assms by (auto simp: position_newline_def Let_def split: if_splits)
  then have "bs ! n = newline" using nth_length_takeWhile [of "\<lambda>b. b \<noteq> newline" bs] by simp
  then have "bs = take n bs @ newline # drop (n + 1) bs" using n(2) id_take_nth_drop [of n bs] by simp
  moreover have "take n bs = ?x" using n(1) by (metis takeWhile_eq_take)
  moreover have "newline \<notin> set ?x" using set_takeWhileD by fastforce
  ultimately show ?thesis using n(1) by metis
qed

lemma concat_consume: "n \<le> length bs \<Longrightarrow> concat (consume n bs cs) = drop n bs @ concat cs"
  by (auto simp: consume_def)

lemma consume_nonempty: "[] \<notin> set (bs # cs) \<Longrightarrow> [] \<notin> set (consume n bs cs)"
  by (auto simp: consume_def)

lemma read_line_feed:
  assumes "read_line id_of mx line disc cs = (r, l', d', cs')" "[] \<notin> set cs" "length line \<le> mx"
  shows "[] \<notin> set cs' \<and> feed id_of mx line disc (concat cs) =
    (case r of LrEof \<Rightarrow> []
     | LrComplete \<Rightarrow> Line l' # feed id_of mx [] d' (concat cs')
     | LrOversized i \<Rightarrow> Oversized i # feed id_of mx l' d' (concat cs'))"
  using assms
proof (induction id_of mx line disc cs rule: read_line.induct)
  case (2 id_of mx line disc av cs)
  have av: "av \<noteq> []" "[] \<notin> set cs" using "2.prems"(2) by auto
  let ?n = "take_len av" and ?rest = "consume (take_len av) av cs"
  have rest: "[] \<notin> set ?rest" using "2.prems"(2) by (rule consume_nonempty)
  have cat: "concat ?rest = drop ?n av @ concat cs" by (rule concat_consume [OF take_len_le])
  note IH = "2.IH" [OF av(1) refl refl refl]
  note eq = "2.prems"(1) [unfolded read_line.simps(2) [of id_of mx line disc av cs], simplified av Let_def, simplified]
  show ?case
  proof (cases "position_newline av")
    case None
    then have n: "?n = length av" and no: "newline \<notin> set av" by (simp_all add: take_len_def position_None)
    then have cat': "concat ?rest = concat cs" using cat by simp
    consider "disc" | "\<not> disc" "mx < length line + length av" | "\<not> disc" "length line + length av \<le> mx" by linarith
    then show ?thesis
    proof cases
      case 1
      then have "read_line id_of mx line True ?rest = (r, l', d', cs')" using eq None by simp
      from IH(1) [OF 1] this rest "2.prems"(3) None 1 no av(1) cat' show ?thesis
        by (simp add: feed_discard)
    next
      case 2
      then show ?thesis using eq None n no rest cat' "2.prems"(3) feed_overflow [OF no "2.prems"(3), of id_of "concat cs"]
        by (auto simp: min_def split: if_splits)
    next
      case 3
      then have "read_line id_of mx (line @ av) False ?rest = (r, l', d', cs')" using eq None n by simp
      from IH(2) [OF 3(1)] this rest 3 None n cat' show ?thesis using feed_plain [OF no, of line mx id_of "concat cs"] by simp
    qed
  next
    case (Some k)
    from position_Some [OF Some] obtain x where x: "av = x @ newline # drop (k + 1) av" "newline \<notin> set x" "length x = k" by blast
    have n: "?n = k + 1" using Some by (simp add: take_len_def)
    have tk: "take (k + 1) av = x @ [newline]" by (subst x(1)) (simp add: x(3))
    have whole: "concat (av # cs) = x @ newline # concat ?rest" using x(1) cat n by simp
    consider "disc" | "\<not> disc" "mx < length line + k + 1" | "\<not> disc" "length line + k + 1 \<le> mx" by linarith
    then show ?thesis
    proof cases
      case 1
      then have "read_line id_of mx line False ?rest = (r, l', d', cs')" using eq Some by simp
      from IH(1) [OF 1] this rest "2.prems"(3) Some 1 x(2) show ?thesis
        unfolding whole by (simp add: feed_discard)
    next
      case 2
      then have r: "r = LrOversized (id_of (line @ take (min (mx - length line) (k + 1)) av))" "l' = []" "\<not> d'" "cs' = ?rest"
        using eq Some n by (auto split: if_splits)
      have pre: "take (min (mx - length line) (k + 1)) av = take (mx - length line) x"
      proof -
        have a: "mx - length line \<le> k" using 2(2) by simp
        then have "take (mx - length line) av = take (mx - length line) x" by (subst x(1)) (simp add: x(3))
        with a show ?thesis by (simp add: min_def)
      qed
      show ?thesis
      proof (cases "mx < length line + k")
        case True
        then show ?thesis using r pre rest whole feed_overflow [OF x(2) "2.prems"(3), of id_of "newline # concat ?rest"] 2(1) x(3) by simp
      next
        case False
        with 2 have "length line + k = mx" by simp
        then show ?thesis using r pre rest whole feed_plain [OF x(2), of line mx id_of "newline # concat ?rest"] 2(1) x(3) by auto
      qed
    next
      case 3
      then have "r = LrComplete" "l' = line @ x @ [newline]" "\<not> d'" "cs' = ?rest"
        using eq Some n tk by (auto split: if_splits)
      then show ?thesis using rest whole feed_plain [OF x(2), of line mx id_of "newline # concat ?rest"] 3 x(3) by simp
    qed
  qed
qed simp

lemma frames_feed:
  "[] \<notin> set cs \<Longrightarrow> length line \<le> mx \<Longrightarrow> frames id_of mx line disc cs = feed id_of mx line disc (concat cs)"
proof (induction id_of mx line disc cs rule: frames.induct)
  case (1 id_of mx line disc cs)
  obtain r l' d' cs' where rl: "read_line id_of mx line disc cs = (r, l', d', cs')" by (metis prod_cases4)
  note f = read_line_feed [OF rl "1.prems"]
  show ?case
  proof (cases r)
    case LrComplete
    then show ?thesis using rl f "1.IH"(1) [OF rl [symmetric]] by (subst frames.simps) simp
  next
    case (LrOversized i)
    moreover have "l' = []" using rl LrOversized
      by (induction id_of mx line disc cs rule: read_line.induct)
        (auto simp: read_line.simps(2) Let_def split: if_splits)
    ultimately show ?thesis using rl f "1.IH"(2) [OF rl [symmetric]] by (subst frames.simps) simp
  next
    case LrEof
    then show ?thesis using rl f by (subst frames.simps) simp
  qed
qed

lemma feed_lines:
  "Line l \<in> set (feed id_of mx line disc bs) \<Longrightarrow> length line \<le> mx \<Longrightarrow> length l \<le> mx \<and> l \<noteq> [] \<and> last l = newline"
  by (induction id_of mx line disc bs rule: feed.induct) (auto split: if_splits)

text \<open>
  C9: Framing does not depend on how the input arrives. For every way of cutting the byte
  stream into chunks, the reader yields the frames of the byte-by-byte reference: each
  line within the limit whole, ending in its newline, and exactly one oversized report,
  with the same recoverable request id, for each line beyond it.
\<close>

theorem framing_chunk_independent:
  assumes "[] \<notin> set chunks"
  shows "frames id_of mx [] False chunks = feed id_of mx [] False (concat chunks)
    \<and> (\<forall>l. Line l \<in> set (frames id_of mx [] False chunks) \<longrightarrow> length l \<le> mx \<and> l \<noteq> [] \<and> last l = newline)"
  using frames_feed [OF assms, of "[]" mx id_of False] feed_lines [of _ id_of mx "[]" False "concat chunks"] by auto

theorem framing_chunk_independent_witness:
  "frames (\<lambda>p. Some (length p)) 3 [] False [[65, 66], [10, 67, 68, 69], [70, 10, 71, 10]]
     = [Line [65, 66, 10], Oversized (Some 3), Line [71, 10 :: u8]]"
  using framing_chunk_independent [of "[[65, 66], [10, 67, 68, 69], [70, 10, 71, 10]]" "\<lambda>p. Some (length p)" 3] by simp

section \<open>Bounded frames\<close>

text \<open>
  A serialization: the pieces the serializer writes and the error it ends with, if any.
  The budget refuses the first write that does not fit.
\<close>

record frame_budget =
  fb_remaining :: nat
  fb_exceeded :: bool

definition budget_write :: "u8 list \<Rightarrow> frame_budget \<Rightarrow> bool \<times> frame_budget" where
  "budget_write bytes b =
     (if fb_remaining b < length bytes then (False, b\<lparr>fb_exceeded := True\<rparr>)
      else (True, b\<lparr>fb_remaining := fb_remaining b - length bytes\<rparr>))"

fun to_writer :: "u8 list list \<Rightarrow> string option \<Rightarrow> frame_budget \<Rightarrow> string option \<times> frame_budget" where
  "to_writer [] err b = (err, b)"
| "to_writer (piece # pieces) err b =
     (case budget_write piece b of
        (False, b') \<Rightarrow> (Some ''MCP frame exceeds its size limit'', b')
      | (True, b') \<Rightarrow> to_writer pieces err b')"

definition frame_fits_with_limit :: "u8 list list \<Rightarrow> string option \<Rightarrow> nat \<Rightarrow> string + bool" where
  "frame_fits_with_limit pieces err max_line_length =
     (if max_line_length = 0 then Inr False
      else case to_writer pieces err \<lparr>fb_remaining = max_line_length - 1, fb_exceeded = False\<rparr> of
        (None, b) \<Rightarrow> Inr True
      | (Some e, b) \<Rightarrow> if fb_exceeded b then Inr False else Inl e)"

lemma to_writer_fits:
  "\<not> fb_exceeded b \<Longrightarrow>
   (length (concat pieces) \<le> fb_remaining b \<longrightarrow> fst (to_writer pieces err b) = err \<and> \<not> fb_exceeded (snd (to_writer pieces err b)))
   \<and> (fb_remaining b < length (concat pieces) \<longrightarrow> fst (to_writer pieces err b) \<noteq> None \<and> fb_exceeded (snd (to_writer pieces err b)))"
proof (induction pieces arbitrary: b)
  case (Cons piece pieces)
  show ?case
  proof (cases "fb_remaining b < length piece")
    case True
    then show ?thesis by (simp add: budget_write_def)
  next
    case False
    then show ?thesis using Cons.IH [of "b\<lparr>fb_remaining := fb_remaining b - length piece\<rparr>"] Cons.prems
      by (auto simp: budget_write_def)
  qed
qed simp

text \<open>
  The frame check counts exactly: a message whose serialization succeeds fits if and
  only if its bytes and the terminating newline stay within the limit, in whatever pieces
  the serializer writes them; a serializer error is reported only for a message that fits
  so far.
\<close>

theorem frame_fits_exact:
  "frame_fits_with_limit pieces None mx = Inr (length (concat pieces) + 1 \<le> mx)
   \<and> frame_fits_with_limit pieces (Some e) mx = (if length (concat pieces) + 1 \<le> mx then Inl e else Inr False)"
proof (cases "mx = 0")
  case False
  let ?b = "\<lparr>fb_remaining = mx - 1, fb_exceeded = False\<rparr>"
  have eq: "length (concat pieces) + 1 \<le> mx \<longleftrightarrow> length (concat pieces) \<le> fb_remaining ?b" using False by auto
  have "frame_fits_with_limit pieces err mx = (if length (concat pieces) + 1 \<le> mx
      then (case err of None \<Rightarrow> Inr True | Some e \<Rightarrow> Inl e) else Inr False)" for err
    using to_writer_fits [of ?b pieces err] False unfolding eq
    by (cases "to_writer pieces err ?b")
      (auto simp: frame_fits_with_limit_def split: option.splits)
  then show ?thesis by simp
qed (simp add: frame_fits_with_limit_def)

section \<open>Bounded replies\<close>

type_synonym request_id = string

datatype server_result = ResultCallTool call_tool_result | ResultOther string

datatype server_message =
    MsgResponse request_id server_result
  | MsgError "request_id option" error_data "json option"
  | MsgRequest string
  | MsgNotification string

definition INTERNAL_ERROR :: int where "INTERNAL_ERROR = - 32603"
definition INVALID_REQUEST :: int where "INVALID_REQUEST = - 32600"

definition message_limit_label :: "nat \<Rightarrow> string" where
  "message_limit_label max_bytes =
     (if max_bytes mod (1024 * 1024) = 0 then show_nat (max_bytes div (1024 * 1024)) @ '' MiB''
      else show_nat max_bytes @ '' bytes'')"

definition large_reply_message :: "nat \<Rightarrow> string" where
  "large_reply_message max_bytes = ''The reply exceeds the '' @ message_limit_label max_bytes @
     '' MCP message limit. The operation may already have changed the database. Request less data, or inspect the database before retrying an edit.''"

definition COMPACT_LARGE_REPLY :: string where
  "COMPACT_LARGE_REPLY = ''Reply too large; the operation may have changed the database''"

definition internal_error :: "string \<Rightarrow> error_data" where
  "internal_error msg = \<lparr>ed_code = INTERNAL_ERROR, ed_message = msg\<rparr>"

definition compact_reply_error :: "request_id option \<Rightarrow> server_message" where
  "compact_reply_error i = MsgError i (internal_error COMPACT_LARGE_REPLY) None"

text \<open>\<open>fits\<close> is \<open>frame_fits\<close> of a message's serialization.\<close>

definition settle_compact :: "(server_message \<Rightarrow> string + bool) \<Rightarrow> request_id option \<Rightarrow> string + server_message" where
  "settle_compact fits i =
     (case fits (compact_reply_error i) of
        Inl e \<Rightarrow> Inl e
      | Inr True \<Rightarrow> Inr (compact_reply_error i)
      | Inr False \<Rightarrow> Inl ''Response ID exceeds the MCP size limit'')"

definition try_fit ::
  "(server_message \<Rightarrow> string + bool) \<Rightarrow> server_message \<Rightarrow> (string + server_message) \<Rightarrow> string + server_message" where
  "try_fit fits m otherwise =
     (case fits m of Inl e \<Rightarrow> Inl e | Inr True \<Rightarrow> Inr m | Inr False \<Rightarrow> otherwise)"

definition replace_reply :: "nat \<Rightarrow> request_id \<Rightarrow> server_result \<Rightarrow> server_message" where
  "replace_reply max_bytes i res =
     (case res of
        ResultCallTool original \<Rightarrow>
          (let result = error_result [TextContent (large_reply_message max_bytes)]
           in MsgResponse i (ResultCallTool (if is_sdk_crash original then mark_sdk_crashed result else result)))
      | ResultOther _ \<Rightarrow> MsgError (Some i) (internal_error (large_reply_message max_bytes)) None)"

definition bounded_reply ::
  "(server_message \<Rightarrow> string + bool) \<Rightarrow> nat \<Rightarrow> server_message \<Rightarrow> string + server_message" where
  "bounded_reply fits max_bytes m = try_fit fits m
     (case m of
        MsgResponse i res \<Rightarrow> try_fit fits (replace_reply max_bytes i res) (settle_compact fits (Some i))
      | MsgError i err data \<Rightarrow>
          try_fit fits (MsgError i err None)
            (try_fit fits (MsgError i (err\<lparr>ed_message := ''Error response too large''\<rparr>) None)
               (Inl ''Response ID exceeds the MCP size limit''))
      | MsgRequest _ \<Rightarrow> Inl ''IDA worker message exceeds the MCP size limit''
      | MsgNotification _ \<Rightarrow> Inl ''IDA worker message exceeds the MCP size limit'')"

fun reply_id :: "server_message \<Rightarrow> request_id option" where
  "reply_id (MsgResponse i _) = Some i"
| "reply_id (MsgError i _ _) = i"
| "reply_id _ = None"

lemma try_fitE:
  assumes "try_fit fits m k = Inr m'"
  obtains "fits m = Inr True" "m' = m" | "fits m = Inr False" "k = Inr m'"
  using assms by (auto simp: try_fit_def split: sum.splits bool.splits)

lemma settle_compactD: "settle_compact fits i = Inr m' \<Longrightarrow> fits m' = Inr True \<and> m' = compact_reply_error i"
  by (auto simp: settle_compact_def split: sum.splits bool.splits)

text \<open>
  A reply the transport sends always fits the message limit and answers the same
  request. A reply that fits goes out unchanged, an oversized error keeps its code, and an
  oversized crash report that is replaced by another tool result keeps the crash marker,
  so the worker is still retired.
\<close>

theorem bounded_reply_sound:
  assumes "bounded_reply fits max_bytes m = Inr m'"
  shows "fits m' = Inr True \<and> reply_id m' = reply_id m \<and> (fits m = Inr True \<longrightarrow> m' = m)
    \<and> (\<forall>i r r'. m = MsgResponse i (ResultCallTool r) \<and> m' = MsgResponse i (ResultCallTool r') \<and> is_sdk_crash r \<longrightarrow> is_sdk_crash r')
    \<and> (\<forall>i e d i' e' d'. m = MsgError i e d \<and> m' = MsgError i' e' d' \<longrightarrow> ed_code e' = ed_code e)"
  using assms unfolding bounded_reply_def
proof (cases rule: try_fitE)
  case 1
  then show ?thesis by auto
next
  case 2
  show ?thesis
  proof (cases m)
    case (MsgResponse i res)
    from 2(2) [unfolded MsgResponse] have "try_fit fits (replace_reply max_bytes i res) (settle_compact fits (Some i)) = Inr m'" by simp
    then show ?thesis
    proof (cases rule: try_fitE)
      case 1
      have "is_sdk_crash (mark_sdk_crashed (error_result t))" for t
        by (rule is_sdk_crash_mark) (simp add: error_result_def)
      with 1 MsgResponse 2(1) show ?thesis by (auto simp: replace_reply_def Let_def split: server_result.splits)
    next
      case 2
      then show ?thesis using settle_compactD [OF 2(2)] MsgResponse \<open>fits m = Inr False\<close>
        by (auto simp: compact_reply_error_def)
    qed
  next
    case (MsgError i err data)
    with 2 show ?thesis by (auto elim!: try_fitE)
  qed (use 2 in simp_all)
qed

theorem bounded_reply_sound_witness:
  "\<exists>m'. bounded_reply (\<lambda>m. Inr (m \<noteq> MsgRequest ''x'')) 1048576 (MsgError (Some ''7'') (internal_error ''e'') None) = Inr m'
     \<and> reply_id m' = Some ''7''"
proof -
  have "bounded_reply (\<lambda>m. Inr (m \<noteq> MsgRequest ''x'')) 1048576 (MsgError (Some ''7'') (internal_error ''e'') None)
      = Inr (MsgError (Some ''7'') (internal_error ''e'') None)" by (simp add: bounded_reply_def try_fit_def)
  with bounded_reply_sound [OF this] show ?thesis by simp
qed

section \<open>Receiving messages\<close>

text \<open>What rmcp's codec makes of a line that serde rejects.\<close>

datatype 'm decoded = DecMessage 'm | DecNothing | DecSyntax | DecData | DecOther

datatype 'm rx_action =
    Deliver 'm
  | RejectTooLarge request_id
  | RejectInvalid request_id
  | Skip
  | Stop

text \<open>
  The body of \<open>receive\<close> for one frame. \<open>from_slice\<close> and \<open>decode\<close> are serde and the codec,
  \<open>id_of\<close> is \<open>request_id_from_prefix\<close>, \<open>req_id\<close> the id of a message that is a request,
  \<open>fits\<close> is \<open>frame_fits\<close> and \<open>id_fits\<close> is \<open>response_id_fits\<close>.
\<close>

definition strip_bom :: "u8 list \<Rightarrow> u8 list" where
  "strip_bom l = (if take 3 l = [0xef, 0xbb, 0xbf] then drop 3 l else l)"

definition deliver :: "('m \<Rightarrow> request_id option) \<Rightarrow> (request_id \<Rightarrow> string + bool) \<Rightarrow> 'm \<Rightarrow> 'm rx_action" where
  "deliver req_id id_fits m =
     (case req_id m of
        None \<Rightarrow> Deliver m
      | Some i \<Rightarrow> (case id_fits i of Inr True \<Rightarrow> Deliver m | Inr False \<Rightarrow> Skip | Inl _ \<Rightarrow> Stop))"

definition on_line ::
  "(u8 list \<Rightarrow> 'm option) \<Rightarrow> (u8 list \<Rightarrow> 'm decoded) \<Rightarrow> (u8 list \<Rightarrow> request_id option) \<Rightarrow>
   ('m \<Rightarrow> request_id option) \<Rightarrow> (request_id \<Rightarrow> string + bool) \<Rightarrow> u8 list \<Rightarrow> 'm rx_action" where
  "on_line from_slice decode id_of req_id id_fits l =
     (if l = [10] \<or> l = [13, 10] then Skip
      else case from_slice (strip_bom l) of
        Some m \<Rightarrow> deliver req_id id_fits m
      | None \<Rightarrow>
          (case decode l of
             DecMessage m \<Rightarrow> deliver req_id id_fits m
           | DecNothing \<Rightarrow> Skip
           | DecSyntax \<Rightarrow> Skip
           | DecData \<Rightarrow>
               (case id_of l of
                  Some i \<Rightarrow> if id_fits i = Inr True then RejectInvalid i else Skip
                | None \<Rightarrow> Skip)
           | DecOther \<Rightarrow> Stop))"

definition reject_message :: "nat \<Rightarrow> request_id \<Rightarrow> server_message" where
  "reject_message max_bytes i = MsgError (Some i)
     \<lparr>ed_code = INVALID_REQUEST, ed_message = ''Request exceeds the '' @ message_limit_label max_bytes @ '' MCP message limit''\<rparr> None"

definition on_frame ::
  "(u8 list \<Rightarrow> 'm option) \<Rightarrow> (u8 list \<Rightarrow> 'm decoded) \<Rightarrow> (u8 list \<Rightarrow> request_id option) \<Rightarrow>
   ('m \<Rightarrow> request_id option) \<Rightarrow> (request_id \<Rightarrow> string + bool) \<Rightarrow> (server_message \<Rightarrow> string + bool) \<Rightarrow> nat \<Rightarrow>
   request_id frame \<Rightarrow> 'm rx_action" where
  "on_frame from_slice decode id_of req_id id_fits fits max_bytes f =
     (case f of
        Line l \<Rightarrow> on_line from_slice decode id_of req_id id_fits l
      | Oversized None \<Rightarrow> Skip
      | Oversized (Some i) \<Rightarrow>
          (case fits (reject_message max_bytes i) of
             Inl _ \<Rightarrow> Stop
           | Inr True \<Rightarrow> RejectTooLarge i
           | Inr False \<Rightarrow> Skip))"

text \<open>The actions of a whole session: everything up to a stop.\<close>

fun session :: "('f \<Rightarrow> 'm rx_action) \<Rightarrow> 'f list \<Rightarrow> 'm rx_action list" where
  "session act [] = []"
| "session act (f # fs) = (if act f = Stop then [Stop] else act f # session act fs)"

section \<open>Save-first shutdown\<close>

text \<open>
  \<open>StdioShutdown\<close> with the two places that wait in it: the receiver and failed sends.
  \<open>sd_requests\<close> counts the requests handed to rmcp whose token is still held,
  \<open>sd_delivered\<close> all messages handed over. A receiver that has seen a terminal event waits
  for \<open>saved\<close> when the shutdown was armed at that moment.
\<close>

datatype wait_state = Open | AwaitSaved | Ended

record stdio_shutdown =
  sd_armed :: bool
  sd_closed :: bool
  sd_saved :: bool
  sd_draining :: bool
  sd_requests :: nat
  sd_delivered :: nat
  sd_rx :: wait_state
  sd_failed_sends :: "wait_state list"

definition stdio_shutdown_new :: stdio_shutdown where
  "stdio_shutdown_new = \<lparr>sd_armed = False, sd_closed = False, sd_saved = False, sd_draining = False,
     sd_requests = 0, sd_delivered = 0, sd_rx = Open, sd_failed_sends = []\<rparr>"

definition arm :: "stdio_shutdown \<Rightarrow> stdio_shutdown" where
  "arm s = s\<lparr>sd_armed := True\<rparr>"

definition release_saved :: "stdio_shutdown \<Rightarrow> stdio_shutdown" where
  "release_saved s = s\<lparr>sd_saved := True\<rparr>"

definition begin_stdio_drain :: "stdio_shutdown \<Rightarrow> stdio_shutdown" where
  "begin_stdio_drain s = s\<lparr>sd_closed := True, sd_draining := True\<rparr>"

text \<open>\<open>after_terminal_event\<close>: where the caller is afterwards, waiting for the save or back in the runtime.\<close>

definition after_terminal_event :: "stdio_shutdown \<Rightarrow> wait_state" where
  "after_terminal_event s = (if sd_armed s then (if sd_saved s then Ended else AwaitSaved) else Ended)"

text \<open>One poll of \<open>receive\<close> that is ready: the closed token wins over a message.\<close>

definition receive_ready :: "bool option \<Rightarrow> stdio_shutdown \<Rightarrow> bool \<times> stdio_shutdown" where
  "receive_ready msg s =
     (case (if sd_closed s then None else msg) of
        None \<Rightarrow> (False, s\<lparr>sd_closed := True, sd_rx := after_terminal_event s\<rparr>)
      | Some is_request \<Rightarrow>
          (True, s\<lparr>sd_delivered := sd_delivered s + 1,
                   sd_requests := if is_request then sd_requests s + 1 else sd_requests s\<rparr>))"

definition send_failed :: "stdio_shutdown \<Rightarrow> stdio_shutdown" where
  "send_failed s = s\<lparr>sd_closed := True, sd_failed_sends := sd_failed_sends s @ [after_terminal_event s]\<rparr>"

definition wake :: "wait_state \<Rightarrow> wait_state" where
  "wake w = (if w = AwaitSaved then Ended else w)"

inductive stdio_step :: "stdio_shutdown \<Rightarrow> stdio_shutdown \<Rightarrow> bool" where
  step_arm: "stdio_step s (arm s)"
| step_release: "stdio_step s (release_saved s)"
| step_drain: "stdio_step s (begin_stdio_drain s)"
| step_receive: "sd_rx s = Open \<Longrightarrow> stdio_step s (snd (receive_ready msg s))"
| step_send_failed: "stdio_step s (send_failed s)"
| step_request_done: "0 < sd_requests s \<Longrightarrow> stdio_step s (s\<lparr>sd_requests := sd_requests s - 1\<rparr>)"
| step_rx_wake: "sd_saved s \<Longrightarrow> stdio_step s (s\<lparr>sd_rx := wake (sd_rx s)\<rparr>)"
| step_send_wake: "sd_saved s \<Longrightarrow> stdio_step s (s\<lparr>sd_failed_sends := map wake (sd_failed_sends s)\<rparr>)"

inductive_cases stdio_stepE: "stdio_step s s'"

definition stdio_inv :: "stdio_shutdown \<Rightarrow> bool" where
  "stdio_inv s \<longleftrightarrow>
     (sd_rx s \<noteq> Open \<longrightarrow> sd_closed s)
     \<and> (sd_draining s \<longrightarrow> sd_closed s)"

lemma stdio_inv_step: "stdio_inv s \<Longrightarrow> stdio_step s s' \<Longrightarrow> stdio_inv s'"
  by (erule stdio_stepE)
    (auto simp: stdio_inv_def arm_def release_saved_def begin_stdio_drain_def receive_ready_def send_failed_def
      after_terminal_event_def wake_def split: option.splits if_splits)

lemma stdio_inv_new: "stdio_inv stdio_shutdown_new"
  by (simp add: stdio_inv_def stdio_shutdown_new_def)

interpretation stdio: invariant_system "\<lambda>s. s = stdio_shutdown_new" stdio_step stdio_inv
  by unfold_locales (simp_all add: stdio_inv_new stdio_inv_step)

lemma closed_step:
  "stdio_step s s' \<Longrightarrow> sd_closed s \<Longrightarrow> sd_closed s' \<and> sd_delivered s' = sd_delivered s \<and> sd_requests s' \<le> sd_requests s"
  by (erule stdio_stepE)
    (auto simp: arm_def release_saved_def begin_stdio_drain_def receive_ready_def send_failed_def split: option.splits)

lemma closed_run:
  assumes "stdio_step\<^sup>*\<^sup>* s s'" "sd_closed s"
  shows "sd_closed s' \<and> sd_delivered s' = sd_delivered s \<and> sd_requests s' \<le> sd_requests s"
  using assms by (induction rule: rtranclp_induct) (auto dest: closed_step)

text \<open>How many failed sends have returned to the runtime.\<close>

definition ended_sends :: "stdio_shutdown \<Rightarrow> nat" where
  "ended_sends s = length (filter (\<lambda>w. w = Ended) (sd_failed_sends s))"

lemma ended_wake: "length (filter (\<lambda>w. w = Ended) ws) \<le> length (filter (\<lambda>w. w = Ended) (map wake ws))"
  by (induction ws) (auto simp: wake_def)

lemma armed_step:
  "stdio_step s s' \<Longrightarrow> sd_armed s \<Longrightarrow>
     sd_armed s' \<and> (sd_saved s \<longrightarrow> sd_saved s') \<and> (sd_saved s' \<or> (sd_rx s' = Ended \<longrightarrow> sd_rx s = Ended) \<and> ended_sends s' = ended_sends s)"
  by (erule stdio_stepE)
    (auto simp: arm_def release_saved_def begin_stdio_drain_def receive_ready_def send_failed_def after_terminal_event_def
      ended_sends_def split: option.splits if_splits)

lemma armed_run:
  assumes "stdio_step\<^sup>*\<^sup>* s s'" "sd_armed s"
  shows "sd_armed s' \<and> (sd_saved s' \<or> (sd_rx s' = Ended \<longrightarrow> sd_rx s = Ended) \<and> ended_sends s' = ended_sends s)"
  using assms by (induction rule: rtranclp_induct) (auto dest!: armed_step)

text \<open>
  C10: Termination is save-first. From the moment the shutdown is armed, whatever happens, the end of input
  and a failed write are reported to the MCP runtime only after the database shutdown has settled: the
  receiver has not ended and no further failed send has returned unless \<open>saved\<close> is released. And once input
  is closed no further message is handed over, so the number of requests that a drain waits for can only fall.
\<close>

theorem stdio_save_first:
  assumes "reach (\<lambda>s. s = stdio_shutdown_new) stdio_step s" "stdio_step\<^sup>*\<^sup>* s s'"
  shows "(sd_armed s \<and> sd_rx s \<noteq> Ended \<and> sd_rx s' = Ended \<longrightarrow> sd_saved s')
    \<and> (sd_armed s \<and> ended_sends s' \<noteq> ended_sends s \<longrightarrow> sd_saved s')
    \<and> (sd_rx s \<noteq> Open \<or> sd_draining s \<longrightarrow> sd_delivered s' = sd_delivered s \<and> sd_requests s' \<le> sd_requests s)"
proof -
  have inv: "stdio_inv s" using assms(1) by (rule stdio.reach_inv)
  then have "sd_closed s" if "sd_rx s \<noteq> Open \<or> sd_draining s" using that by (auto simp: stdio_inv_def)
  then have "sd_delivered s' = sd_delivered s \<and> sd_requests s' \<le> sd_requests s" if "sd_rx s \<noteq> Open \<or> sd_draining s"
    using closed_run [OF assms(2)] that by blast
  then show ?thesis using armed_run [OF assms(2)] by blast
qed

theorem stdio_save_first_witness:
  "sd_rx (snd (receive_ready None (arm stdio_shutdown_new))) \<noteq> Ended"
proof -
  let ?armed = "arm stdio_shutdown_new"
  have "reach (\<lambda>s. s = stdio_shutdown_new) stdio_step stdio_shutdown_new"
    by (rule reach_init [of "\<lambda>s. s = stdio_shutdown_new"]) simp
  then have armed: "reach (\<lambda>s. s = stdio_shutdown_new) stdio_step ?armed"
    by (rule reach_step [of "\<lambda>s. s = stdio_shutdown_new" stdio_step]) (rule step_arm)
  have state: "sd_rx ?armed = Open" "sd_armed ?armed" by (simp_all add: arm_def stdio_shutdown_new_def)
  have "stdio_step\<^sup>*\<^sup>* ?armed (snd (receive_ready None ?armed))"
    by (rule r_into_rtranclp) (rule step_receive, rule state)
  from stdio_save_first [OF armed this] state show ?thesis
    by (auto simp: receive_ready_def arm_def stdio_shutdown_new_def)
qed

end
