(* ===== verification/Tool_Registry.thy ===== *)
theory Tool_Registry
  imports Rust_Std
begin

text \<open>
  \<open>src/src/tool_registry.rs\<close>: the table of all tools with the capabilities they need, lookup by
  name and category, and the keyword search behind \<open>tool_catalog\<close>.

  The table is the one of the source, section by section, with every field.
\<close>

section \<open>Data\<close>

datatype tool_scope = ScopeRuntime | ScopeDatabase

record tool_requirements =
  rq_workspace :: bool
  rq_debugger :: bool
  rq_experimental :: bool

definition BASELINE :: tool_requirements where
  "BASELINE = \<lparr>rq_workspace = False, rq_debugger = False, rq_experimental = False\<rparr>"

definition DEBUGGER :: tool_requirements where
  "DEBUGGER = \<lparr>rq_workspace = False, rq_debugger = True, rq_experimental = False\<rparr>"

datatype tool_category =
    CatCore
  | CatFunctions
  | CatDisassembly
  | CatDecompile
  | CatXrefs
  | CatControlFlow
  | CatMemory
  | CatSearch
  | CatMetadata
  | CatTypes
  | CatEditing
  | CatDebug
  | CatUi
  | CatScripting

fun category_as_str :: "tool_category \<Rightarrow> string" where
  "category_as_str CatCore = ''core''"
| "category_as_str CatFunctions = ''functions''"
| "category_as_str CatDisassembly = ''disassembly''"
| "category_as_str CatDecompile = ''decompile''"
| "category_as_str CatXrefs = ''xrefs''"
| "category_as_str CatControlFlow = ''control_flow''"
| "category_as_str CatMemory = ''memory''"
| "category_as_str CatSearch = ''search''"
| "category_as_str CatMetadata = ''metadata''"
| "category_as_str CatTypes = ''types''"
| "category_as_str CatEditing = ''editing''"
| "category_as_str CatDebug = ''debug''"
| "category_as_str CatUi = ''ui''"
| "category_as_str CatScripting = ''scripting''"

fun category_description :: "tool_category \<Rightarrow> string" where
  "category_description CatCore = ''Database open/close and discovery tools''"
| "category_description CatFunctions = ''List, search, and resolve functions''"
| "category_description CatDisassembly = ''Disassemble code at addresses''"
| "category_description CatDecompile = ''Decompile functions to pseudocode (requires Hex-Rays)''"
| "category_description CatXrefs = ''Cross-reference analysis (xrefs to/from)''"
| "category_description CatControlFlow = ''Basic blocks, call graphs, control flow''"
| "category_description CatMemory = ''Read bytes, strings, and data''"
| "category_description CatSearch = ''Search for bytes, strings, patterns''"
| "category_description CatMetadata = ''Database info, segments, imports, exports''"
| "category_description CatTypes = ''Types, structs, and stack variable info''"
| "category_description CatEditing = ''Patching, renaming, and comment editing''"
| "category_description CatDebug = ''Opt-in headless debugger lifecycle and runtime modules''"
| "category_description CatUi = ''UI/cursor helpers (headless unsupported)''"
| "category_description CatScripting = ''Execute Python scripts via IDAPython''"

definition all_categories :: "tool_category list" where
  "all_categories = [CatCore, CatFunctions, CatDisassembly, CatDecompile, CatXrefs, CatControlFlow, CatMemory,
     CatSearch, CatMetadata, CatTypes, CatEditing, CatDebug, CatUi, CatScripting]"

definition underscored :: "string \<Rightarrow> string" where
  "underscored s = map (\<lambda>c. if c = CHR ''-'' \<or> c = CHR '' '' then CHR ''_'' else c) s"

definition category_from_str :: "string \<Rightarrow> tool_category option" where
  "category_from_str input =
     (let n = underscored (to_lowercase (trim input)) in
      if n = ''core'' then Some CatCore
      else if n \<in> {''functions'', ''function''} then Some CatFunctions
      else if n \<in> {''disassembly'', ''disasm''} then Some CatDisassembly
      else if n \<in> {''decompile'', ''decompiler''} then Some CatDecompile
      else if n \<in> {''xrefs'', ''xref'', ''references''} then Some CatXrefs
      else if n \<in> {''control_flow'', ''controlflow'', ''cfg''} then Some CatControlFlow
      else if n \<in> {''memory'', ''data''} then Some CatMemory
      else if n = ''search'' then Some CatSearch
      else if n \<in> {''metadata'', ''meta'', ''info''} then Some CatMetadata
      else if n \<in> {''types'', ''type'', ''structs''} then Some CatTypes
      else if n \<in> {''editing'', ''edit''} then Some CatEditing
      else if n \<in> {''debug'', ''debugger''} then Some CatDebug
      else if n = ''ui'' then Some CatUi
      else if n \<in> {''scripting'', ''script'', ''eval''} then Some CatScripting
      else None)"

record tool_info =
  ti_name :: string
  ti_category :: tool_category
  ti_scope :: tool_scope
  ti_requirements :: tool_requirements
  ti_short_desc :: string
  ti_full_desc :: string
  ti_example :: string
  ti_default :: bool
  ti_keywords :: "string list"

abbreviation tool ::
  "string \<Rightarrow> tool_category \<Rightarrow> tool_scope \<Rightarrow> tool_requirements \<Rightarrow> string \<Rightarrow> string \<Rightarrow> string \<Rightarrow> bool \<Rightarrow> string list \<Rightarrow> tool_info" where
  "tool n c s r d f e b k \<equiv> \<lparr>ti_name = n, ti_category = c, ti_scope = s, ti_requirements = r, ti_short_desc = d,
     ti_full_desc = f, ti_example = e, ti_default = b, ti_keywords = k\<rparr>"

definition allocates_database :: "string \<Rightarrow> bool" where
  "allocates_database name \<longleftrightarrow> name = ''open_idb'' \<or> name = ''open_dsc''"

section \<open>The table\<close>

definition tools_core :: "tool_info list" where
  \<open>tools_core = [
     tool ''open_idb'' CatCore ScopeRuntime BASELINE
       ''Open an IDA database or raw binary''
       (''Open an IDA Pro database file or a raw binary for analysis. Supports .i64 (64-bit) and .idb (32-bit) databases, as well as raw binaries like Mach-O/ELF/PE. Raw binaries default to a .i64 alongside the input; set idb_out to save in another existing, writable directory. Existing output databases are reused only when IDA'' @ [CHR 39] @ ''s recorded input SHA-256 matches the current raw input. Set rebuild=true when the input changed or stale analysis should be overwritten; overwrite is allowed only when the existing database'' @ [CHR 39] @ ''s hash or recorded input path proves that it belongs to this input. Universal (fat) Mach-O inputs need a slice: pass arch (e.g. arm64e, x86_64), or omit it and answer the slice prompt when the client supports input requests (legacy clients get 30s before the call fails). Without an answer the error lists the slices. The chosen slice is copied to <input name>.<arch> beside the output database (an identical copy is reused; a different file is never overwritten) and opened as a single-architecture Mach-O; the response'' @ [CHR 39] @ ''s universal field names it. The loader field reports what IDA loaded, e.g. "Mach-O file (EXECUTE). ARM64e". Auto-analysis does NOT run by default '' @ [CHR 0xE2, CHR 0x80, CHR 0x94] @ '' open returns quickly with the database loaded. Check analysis_status in the response: if auto_is_ok is false and you need xrefs/decompile, call analyze_funcs(background=true) and poll task_status. list_functions, disasm, strings, get_bytes work immediately without full analysis. Set auto_analyse=true for small binaries to wait for analysis inline (risks timeout on large files). If opening a raw binary with no existing .i64 and a sibling .dSYM is present, its DWARF debug info is loaded automatically. Set load_debug_info=true to force loading external debug info after open (optionally specify debug_info_path). The database must be opened before using any other analysis tools. Call close_idb when finished to release database locks; in multi-client servers, coordinate before closing. In HTTP/SSE mode, keep the close_token returned by open_idb for sessionless MCP 2026 or cross-session close requests; the owning legacy session can close directly. Supports timeout_secs (default 300s, max 600s). Phase transitions are observable via recent_operations. Returns metadata about the binary: file type, loader, processor, bitness, function count, analysis_status.'')
       (''{"path": "/path/to/binary", "auto_analyse": false}'') True
       [''open'', ''load'', ''database'', ''binary'', ''idb'', ''i64'', ''macho'', ''elf'', ''pe'', ''fat'', ''universal'', ''slice'', ''arch''],
     tool ''open_dsc'' CatCore ScopeRuntime BASELINE
       ''Open a dyld_shared_cache and load one module; use dsc_add_dylib/dsc_add_region for more''
       (''Open an Apple dyld_shared_cache file and extract a single dylib for analysis. A previously generated .i64 for the same DSC is reopened directly, preserving prior analysis. Otherwise IDA 9.4 opens the DSC header directly and loads images through IDA'' @ [CHR 39] @ ''s native dscu service; older IDA builds keep the legacy idat background flow when a generated .i64 is needed. Use this instead of open_idb when working with dyld_shared_cache files. Optionally load additional frameworks to resolve cross-module references. To load more code modules after the initial open, call dsc_add_dylib. To load additional data/GOT/stub regions by address, call dsc_add_region.'')
       (''{"path": "/path/to/dyld_shared_cache_arm64e", "arch": "arm64e", "module": "/usr/lib/libobjc.A.dylib", "frameworks": ["/System/Library/Frameworks/Foundation.framework/Foundation"]}'') False
       [''open'', ''dsc'', ''dyld'', ''shared'', ''cache'', ''dylib'', ''module'', ''region'', ''apple'', ''macos'', ''ios''],
     tool ''dsc_add_dylib'' CatCore ScopeDatabase BASELINE
       ''Load an additional dylib into an open DSC database''
       (''Incrementally load a single dylib into a database previously opened via open_dsc. Uses IDA'' @ [CHR 39] @ ''s native dscu service to add the module. Skips full auto-analysis to keep the operation fast. Call once per module; then check analysis_status. If auto_is_ok is false, run analyze_funcs before relying on xrefs/decompile. Requires: database opened via open_dsc.'')
       (''{"module": "/System/Library/Frameworks/Foundation.framework/Foundation", "timeout_secs": 300}'') False
       [''dsc'', ''dyld'', ''dylib'', ''module'', ''load'', ''add'', ''framework'', ''cache''],
     tool ''dsc_add_region'' CatCore ScopeDatabase BASELINE
       ''Load a DSC memory region by address (data/GOT/stubs)''
       (''Incrementally load a specific region from the currently open DSC database by address. Accepts exactly one address per call. Uses IDA'' @ [CHR 39] @ ''s native dscu service for on-demand data/GOT/stub loading. This does not force full auto-analysis; check analysis_status and run analyze_funcs when deeper cross-reference/decompile fidelity is required after loading. Requires: database opened via open_dsc.'')
       (''{"address": "0x180116000", "timeout_secs": 300}'') False
       [''dsc'', ''dyld'', ''region'', ''memory'', ''address'', ''got'', ''stubs'', ''data'', ''load''],
     tool ''load_debug_info'' CatCore ScopeDatabase BASELINE
       ''Load external debug info (e.g., dSYM/DWARF)''
       (''Load external debug info (e.g., DWARF from a dSYM) into the current database. If path is omitted, attempts to locate a sibling .dSYM for the currently-open database. Returns whether the load succeeded.'')
       (''{"path": "/path/to/binary.dSYM/Contents/Resources/DWARF/binary"}'') False
       [''debug'', ''dwarf'', ''dsym'', ''symbols'', ''load''],
     tool ''analysis_status'' CatCore ScopeDatabase BASELINE
       ''Report auto-analysis status''
       (''Report auto-analysis status (auto_is_ok, auto_state) so clients can determine whether analysis-dependent tools like xrefs or decompile are fully ready.'')
       (''{}'') True
       [''analysis'', ''autoanalysis'', ''status'', ''xrefs'', ''decompile''],
     tool ''save_idb'' CatCore ScopeDatabase BASELINE
       ''Save the open database without closing it''
       (''Write the open database to its .i64/.idb path and keep it open; returns that path. Use it to checkpoint renames, comments, types, and patches before risky operations; close_idb also saves.'')
       (''{}'') True
       [''save'', ''checkpoint'', ''persist'', ''write'', ''database''],
     tool ''close_idb'' CatCore ScopeDatabase BASELINE
       ''Close the current database (release locks)''
       (''Close the currently open IDA database, releasing resources. Call this when done with analysis or before opening a different database. In multi-client servers, coordinate before closing to avoid interrupting others. In HTTP/SSE mode, provide the close_token returned by open_idb unless the request is in the owning legacy session.'')
       (''{"close_token": "token-from-open-idb"}'') True
       [''close'', ''unload'', ''database''],
     tool ''tool_catalog'' CatCore ScopeRuntime BASELINE
       ''Discover available tools by query or category''
       (''Search for relevant tools based on what you'' @ [CHR 39] @ ''re trying to accomplish. Returns tool names with short descriptions and relevance reasons. Use this to find the right tool before calling tool_help for full details.'')
       (''{"query": "find all callers of a function"}'') True
       [''discover'', ''find'', ''search'', ''tools'', ''help'', ''catalog''],
     tool ''tool_help'' CatCore ScopeRuntime BASELINE
       ''Get full documentation for a tool''
       (''Returns complete documentation for a specific tool including: full description, parameter schema, and example invocation. Use tool_catalog first to find the tool name.'')
       (''{"name": "list_functions"}'') True
       [''help'', ''docs'', ''documentation'', ''schema'', ''usage''],
     tool ''recent_operations'' CatCore ScopeRuntime BASELINE
       ''Inspect recent foreground operation history''
       (''Return the currently active foreground operation (if any) and a capped trail of recent phase transitions recorded for open_idb, run_script, and analyze_funcs. Use this after timeouts, cancellations, or failures to inspect the last known phase.'')
       (''{"limit": 10}'') False
       [''recent'', ''operations'', ''history'', ''progress'', ''timeout'', ''cancel'', ''observability''],
     tool ''task_status'' CatCore ScopeRuntime BASELINE
       ''Check status of a background task (e.g. DSC loading)''
       (''Check the status of a background task started by open_dsc. Returns '' @ [CHR 39] @ ''running'' @ [CHR 39] @ '' (with progress message), '' @ [CHR 39] @ ''completed'' @ [CHR 39] @ '' (with db_info '' @ [CHR 0xE2, CHR 0x80, CHR 0x94] @ '' database is already open and ready for analysis), or '' @ [CHR 39] @ ''failed'' @ [CHR 39] @ '' (with error). Use the task_id returned by open_dsc when a new .i64 must be created.'')
       (''{"task_id": "dsc-abc123"}'') True
       [''task'', ''status'', ''poll'', ''background'', ''dsc'', ''progress''],
     tool ''idb_meta'' CatCore ScopeDatabase BASELINE
       ''Get database metadata and summary''
       (''Returns metadata about the currently open database: file type, loader, processor architecture, bitness, function count, input path/size/hashes, image_base (the loaded image'' @ [CHR 39] @ ''s base, which rebasing updates), base_address (the paragraph base of segmented formats; 0 for Mach-O/ELF/PE), min/max/main addresses.'')
       (''{}'') True
       [''info'', ''metadata'', ''summary'', ''database'', ''binary'']]\<close>

definition tools_functions :: "tool_info list" where
  \<open>tools_functions = [
     tool ''list_functions'' CatFunctions ScopeDatabase BASELINE
       ''List functions with pagination and filtering''
       (''List all functions in the database with optional name filtering. Supports pagination via offset/limit. Returns function address, name, and size. Use filter parameter to search by substring in function name.'')
       (''{"offset": 0, "limit": 100, "filter": "init"}'') False
       [''functions'', ''list'', ''enumerate'', ''find'', ''filter'', ''subroutines''],
     tool ''resolve_function'' CatFunctions ScopeDatabase BASELINE
       ''Find function address by name''
       (''Resolve a function name to its address. Supports exact names and demangled names. Returns the function'' @ [CHR 39] @ ''s address, full name, and size if found.'')
       (''{"name": "main"}'') False
       [''resolve'', ''find'', ''lookup'', ''function'', ''name'', ''address''],
     tool ''function_at'' CatFunctions ScopeDatabase BASELINE
       ''Find the function containing one address''
       (''Return the function that contains the given address, including start/end and size. Useful for mapping PC/LR to a function.'')
       (''{"address": "0x1000"}'') False
       [''function'', ''address'', ''pc'', ''lr'', ''containing''],
     tool ''lookup_funcs'' CatFunctions ScopeDatabase BASELINE
       ''Batch lookup multiple functions by name''
       (''Look up multiple function names at once. Returns address and size for each found function. More efficient than multiple resolve_function calls.'')
       (''{"names": ["main", "printf", "malloc"]}'') False
       [''lookup'', ''batch'', ''multiple'', ''functions'', ''names''],
     tool ''analyze_funcs'' CatFunctions ScopeDatabase BASELINE
       ''Run auto-analysis (foreground or background task)''
       (''Run IDA auto-analysis. Set background=true for large binaries (kernelcache, DSC modules) '' @ [CHR 0xE2, CHR 0x80, CHR 0x94] @ '' returns a task_id immediately, poll task_status for progress. The IDA worker thread blocks on auto_wait() either way, but in background mode the MCP request returns instead of timing out, and task_status reads the registry without going through the worker. Foreground mode (default) waits for completion, records phase transitions in recent_operations, and respects timeout_secs.'')
       (''{"background": true}'') False
       [''analyze'', ''functions'', ''analysis'', ''auto'', ''background'', ''task'']]\<close>

definition tools_disassembly :: "tool_info list" where
  \<open>tools_disassembly = [
     tool ''disasm'' CatDisassembly ScopeDatabase BASELINE
       ''Disassemble instructions at one or more addresses''
       (''Disassemble machine code starting at the given address. Returns assembly instructions with addresses and opcodes. Specify count to control how many instructions to disassemble.'')
       (''{"address": "0x1000", "count": 20}'') False
       [''disassemble'', ''disasm'', ''assembly'', ''instructions'', ''code''],
     tool ''render_range'' CatDisassembly ScopeDatabase BASELINE
       ''Render an IDA-style address range''
       (''Render IDA'' @ [CHR 39] @ ''s disassembly text for a bounded half-open address range, including code and database-defined data directives. Returns stable continuation metadata when max_lines truncates the result. This is separate from disasm so existing instruction-oriented output stays unchanged.'')
       (''{"start": "0x1000", "end": "0x1100", "max_lines": 256}'') False
       [''render'', ''range'', ''ida'', ''view'', ''mixed'', ''data''],
     tool ''disasm_by_name'' CatDisassembly ScopeDatabase BASELINE
       ''Disassemble a function by name''
       (''Disassemble a function given its name. Resolves the name to an address and disassembles the specified number of instructions.'')
       (''{"name": "main", "count": 50}'') False
       [''disassemble'', ''function'', ''name'', ''assembly''],
     tool ''disasm_function_at'' CatDisassembly ScopeDatabase BASELINE
       ''Disassemble the function containing one address''
       (''Disassemble the function that contains the provided address. Useful when you only have a PC/LR.'')
       (''{"address": "0x1000", "count": 200}'') False
       [''disassemble'', ''function'', ''address'', ''pc'', ''lr'']]\<close>

definition tools_decompile :: "tool_info list" where
  \<open>tools_decompile = [
     tool ''decompile'' CatDecompile ScopeDatabase BASELINE
       ''Decompile one or more functions to C pseudocode''
       (''Decompile a function using Hex-Rays decompiler (if available). Returns C-like pseudocode. Accepts address or function name.'')
       (''{"address": "0x1000"}'') False
       [''decompile'', ''pseudocode'', ''c'', ''source'', ''hex-rays''],
     tool ''pseudocode_at'' CatDecompile ScopeDatabase BASELINE
       ''Get pseudocode for one or more addresses/ranges''
       (''Get decompiled pseudocode for a specific address or address range (e.g., a basic block). Unlike decompile which returns the full function, this returns only statements corresponding to the given address(es).'')
       (''{"address": "0x1000", "end_address": "0x1020"}'') False
       [''pseudocode'', ''decompile'', ''block'', ''range'', ''statement''],
     tool ''list_lvars'' CatDecompile ScopeDatabase BASELINE
       ''List decompiler locals and arguments in one function''
       (''List Hex-Rays local names, types, locations, opaque edit locators when available, and argument flags. Select one address or an exact function symbol; results are paginated.'')
       (''{"target_name": "main", "limit": 100}'') False
       [''decompiler'', ''locals'', ''variables'', ''arguments'', ''lvars''],
     tool ''list_pseudocode_comments'' CatDecompile ScopeDatabase BASELINE
       ''List pseudocode comment locations in one function''
       (''List the end-of-line comment locations in one function'' @ [CHR 39] @ ''s Hex-Rays pseudocode, with each line'' @ [CHR 39] @ ''s locator, address, text, and existing comment. Select one address or an exact function symbol; results are paginated.'')
       (''{"target_name": "main", "limit": 100}'') False
       [''pseudocode'', ''decompiler'', ''comments'', ''locations'']]\<close>

definition tools_xrefs :: "tool_info list" where
  \<open>tools_xrefs = [
     tool ''xrefs_to'' CatXrefs ScopeDatabase BASELINE
       ''Find all references TO one or more addresses''
       (''Find all cross-references pointing to the given address. Shows what code/data references this location. Useful for finding callers, data usage, etc.'')
       (''{"address": "0x1000"}'') False
       [''xrefs'', ''references'', ''to'', ''callers'', ''usage''],
     tool ''xrefs_from'' CatXrefs ScopeDatabase BASELINE
       ''Find all references FROM one or more addresses''
       (''Find all cross-references originating from the given address. Shows what this instruction/data references. Useful for finding callees, data accesses, etc.'')
       (''{"address": "0x1000"}'') False
       [''xrefs'', ''references'', ''from'', ''callees'', ''targets''],
     tool ''xrefs_to_string'' CatXrefs ScopeDatabase BASELINE
       ''Find xrefs to strings matching a query''
       (''Find strings that match a query and return xrefs to each match. Useful for '' @ [CHR 39] @ ''xref to cstring'' @ [CHR 39] @ '' workflows.'')
       (''{"query": "value=%d", "limit": 10}'') False
       [''xrefs'', ''strings'', ''cstring'', ''references'', ''usage''],
     tool ''xref_matrix'' CatXrefs ScopeDatabase BASELINE
       ''Build xref matrix between addresses''
       (''Build a cross-reference matrix showing relationships between multiple addresses. Returns a boolean matrix indicating which addresses reference which others.'')
       (''{"addresses": ["0x1000", "0x2000", "0x3000"]}'') False
       [''xrefs'', ''matrix'', ''relationships'', ''graph'']]\<close>

definition tools_control_flow :: "tool_info list" where
  \<open>tools_control_flow = [
     tool ''basic_blocks'' CatControlFlow ScopeDatabase BASELINE
       ''Get basic blocks of one or more functions''
       (''Get the control flow graph basic blocks for a function. Returns block addresses, sizes, and successor relationships.'')
       (''{"address": "0x1000"}'') False
       [''basic'', ''blocks'', ''cfg'', ''control'', ''flow'', ''graph''],
     tool ''callers'' CatControlFlow ScopeDatabase BASELINE
       ''Find all callers of one or more functions''
       (''Find all functions that call the specified function. Returns caller addresses and names.'')
       (''{"address": "0x1000"}'') False
       [''callers'', ''called'', ''by'', ''references'', ''xrefs''],
     tool ''callees'' CatControlFlow ScopeDatabase BASELINE
       ''Find all functions called by one or more functions''
       (''Find all functions that are called by the specified function. Returns callee addresses and names.'')
       (''{"address": "0x1000"}'') False
       [''callees'', ''calls'', ''targets'', ''functions''],
     tool ''callgraph'' CatControlFlow ScopeDatabase BASELINE
       ''Build call graph from one or more root functions''
       (''Build a call graph starting from a function. Direction is callees by default for compatibility, or callers/both when explicitly requested. Returns nodes and normalized caller-to-callee edges. The truncated flag is true when max_nodes prevented the complete requested traversal.'')
       (''{"roots": "0x1000", "direction": "both", "max_depth": 2, "max_nodes": 256}'') False
       [''callgraph'', ''call'', ''graph'', ''depth'', ''tree''],
     tool ''find_paths'' CatControlFlow ScopeDatabase BASELINE
       ''Find control-flow paths between two addresses''
       (''Find control-flow paths between two addresses within the same function. Returns all paths up to max_depth. Both addresses must be in the same function.'')
       (''{"start": "0x1000", "end": "0x2000", "max_depth": 5}'') False
       [''paths'', ''route'', ''flow'', ''between'', ''reach'']]\<close>

definition tools_memory :: "tool_info list" where
  \<open>tools_memory = [
     tool ''get_bytes'' CatMemory ScopeDatabase BASELINE
       ''Read raw bytes from one or more addresses''
       (''Read raw bytes from the database at the specified address. Returns bytes as hex string. Useful for examining data. You can also supply a symbol/function name with an optional offset.'')
       (''{"name": "interesting_function", "offset": 0, "size": 32}'') False
       [''bytes'', ''read'', ''memory'', ''data'', ''raw'', ''hex''],
     tool ''get_string'' CatMemory ScopeDatabase BASELINE
       ''Read strings at one or more addresses''
       (''Read a null-terminated string at the specified address. Supports C strings and other string types recognized by IDA.'')
       (''{"address": "0x1000"}'') False
       [''string'', ''read'', ''text'', ''ascii'', ''data''],
     tool ''read_int'' CatMemory ScopeDatabase BASELINE
       ''Read unsigned integers of a given byte width at one or more addresses''
       (''Read an unsigned integer at each address. size is the width in bytes (1, 2, 4, or 8) and the value is read in the database'' @ [CHR 39] @ ''s byte order.'')
       (''{"address": "0x1000", "size": 4}'') False
       [''u8'', ''u16'', ''u32'', ''u64'', ''byte'', ''word'', ''dword'', ''qword'', ''read'', ''value''],
     tool ''get_global_value'' CatMemory ScopeDatabase BASELINE
       ''Read global value by name or address''
       (''Read a global value by name or address. Returns value and raw bytes.'')
       (''{"query": "g_flag"}'') False
       [''global'', ''value'', ''read'', ''symbol'', ''data'']]\<close>

definition tools_search :: "tool_info list" where
  \<open>tools_search = [
     tool ''find_bytes'' CatSearch ScopeDatabase BASELINE
       ''Search for byte pattern''
       (''Search for a byte pattern in the database. Supports wildcards. Returns all matching addresses up to the limit.'')
       (''{"pattern": "48 89 5C 24", "limit": 100}'') False
       [''find'', ''search'', ''bytes'', ''pattern'', ''hex''],
     tool ''search'' CatSearch ScopeDatabase BASELINE
       ''Search for text or immediate values''
       (''General search tool. Searches for text strings or immediate values in instructions. Use find_bytes for byte-pattern searches.'')
       (''{"targets": "password", "kind": "text"}'') False
       [''search'', ''find'', ''text'', ''string'', ''immediate''],
     tool ''strings'' CatSearch ScopeDatabase BASELINE
       ''List all strings in the database''
       (''List strings found in the database with pagination and optional substring filter (filter/query). Returns address and content.'')
       (''{"offset": 0, "limit": 100, "filter": "http"}'') False
       [''strings'', ''list'', ''text'', ''data''],
     tool ''find_string'' CatSearch ScopeDatabase BASELINE
       ''Find strings matching a query''
       (''Find strings that match a query (substring by default, optional exact match). Supports pagination.'')
       (''{"query": "value=%d", "limit": 20}'') False
       [''strings'', ''find'', ''search'', ''text''],
     tool ''analyze_strings'' CatSearch ScopeDatabase BASELINE
       ''Analyze strings with filtering''
       (''List strings with optional substring filter and pagination. Useful for finding specific string patterns like URLs or paths.'')
       (''{"query": "http", "offset": 0, "limit": 100}'') False
       [''strings'', ''analyze'', ''filter'', ''pattern''],
     tool ''find_insns'' CatSearch ScopeDatabase BASELINE
       ''Find instruction sequences by mnemonic''
       (''Search for instruction mnemonic patterns. If patterns is an array, matches contiguous sequences. Each pattern matches the mnemonic substring unless it contains whitespace or commas (then full line match).'')
       (''{"patterns": ["mov", "bl"], "limit": 5}'') False
       [''find'', ''instructions'', ''sequence'', ''pattern''],
     tool ''find_insn_operands'' CatSearch ScopeDatabase BASELINE
       ''Find instructions by operand substring''
       (''Search for instructions whose operand text matches any provided substring. Returns address, mnemonic, operands, and disasm line.'')
       (''{"patterns": ["sp", "0x10"], "limit": 5}'') False
       [''find'', ''operands'', ''instructions'', ''pattern'']]\<close>

definition tools_metadata :: "tool_info list" where
  \<open>tools_metadata = [
     tool ''segments'' CatMetadata ScopeDatabase BASELINE
       ''List all segments''
       (''List all segments in the database with their addresses, sizes, names, and permissions (read/write/execute).'')
       (''{}'') False
       [''segments'', ''sections'', ''memory'', ''layout''],
     tool ''addr_info'' CatMetadata ScopeDatabase BASELINE
       ''Resolve one address to segment/function/symbol''
       (''Return address context including segment info, containing function, and nearest named symbol.'')
       (''{"address": "0x1000"}'') False
       [''address'', ''segment'', ''function'', ''symbol'', ''context''],
     tool ''imports'' CatMetadata ScopeDatabase BASELINE
       ''List imported functions''
       (''List all imported external symbols with their addresses and names.'')
       (''{"offset": 0, "limit": 100}'') False
       [''imports'', ''external'', ''libraries'', ''api''],
     tool ''exports'' CatMetadata ScopeDatabase BASELINE
       ''List exported functions''
       (''List all exported functions/symbols with their addresses and names.'')
       (''{"offset": 0, "limit": 100}'') False
       [''exports'', ''symbols'', ''public'', ''api''],
     tool ''export_funcs'' CatMetadata ScopeDatabase BASELINE
       ''Export functions (JSON)''
       (''Export functions in JSON format. If addrs is provided, only export those functions.'')
       (''{"addrs": ["0x1000", "0x2000"], "format": "json"}'') False
       [''export'', ''functions'', ''json'', ''dump''],
     tool ''entrypoints'' CatMetadata ScopeDatabase BASELINE
       ''List entry points''
       (''List all entry points in the binary (main, DllMain, etc.).'')
       (''{}'') False
       [''entry'', ''start'', ''main'', ''entrypoint''],
     tool ''lumina_lookup'' CatMetadata ScopeDatabase BASELINE
       ''Look up Lumina metadata for a function''
       (''Query the configured Lumina server for a function signature and metadata without changing the database. Requires explicit server startup with --allow-lumina or IDA_MCP_ALLOW_LUMINA=true.'')
       (''{"target_name": "sub_1000"}'') False
       [''lumina'', ''signature'', ''metadata'', ''lookup'', ''match''],
     tool ''lumina_apply'' CatEditing ScopeDatabase BASELINE
       ''Apply Lumina metadata to a function''
       (''Pull metadata from the configured Lumina server and apply it to one function. Uses IDA'' @ [CHR 39] @ ''s upgrade policy by default; force=true may replace existing names, types, or comments. Requires explicit server startup with --allow-lumina or IDA_MCP_ALLOW_LUMINA=true.'')
       (''{"address": "0x1000", "force": false}'') False
       [''lumina'', ''signature'', ''metadata'', ''apply'', ''rename'', ''type''],
     tool ''list_globals'' CatMetadata ScopeDatabase BASELINE
       ''List global variables''
       (''List global variables and data items with their addresses, names, and types.'')
       (''{"offset": 0, "limit": 100}'') False
       [''globals'', ''variables'', ''data'', ''symbols'']]\<close>

definition tools_types :: "tool_info list" where
  \<open>tools_types = [
     tool ''local_types'' CatTypes ScopeDatabase BASELINE
       ''List local types''
       (''List local types (typedefs, enums, structs, etc.) with pagination and optional filter.'')
       (''{"query": "struct", "limit": 50}'') False
       [''types'', ''local'', ''typedef''],
     tool ''xrefs_to_field'' CatXrefs ScopeDatabase BASELINE
       ''Xrefs to a struct field''
       (''Get cross-references to a struct field by struct name/ordinal and member name/index.'')
       (''{"name": "Outer", "member_name": "inner", "limit": 25}'') False
       [''xrefs'', ''struct'', ''field'', ''member''],
     tool ''declare_type'' CatTypes ScopeDatabase BASELINE
       ''Declare a type in the local type library''
       (''Parse a C declaration and store it in the local type library (optionally replacing existing).'')
       (''{"decl": "typedef int mcp_int_t;", "replace": true}'') False
       [''type'', ''declare'', ''typedef''],
     tool ''apply_types'' CatTypes ScopeDatabase BASELINE
       ''Apply a type to an address or stack variable''
       (''Apply a named type or C declaration to an address/symbol. For stack vars, provide stack_offset or stack_name plus decl.'')
       (''{"name": "interesting_function", "stack_offset": -16, "decl": "int mcp_local;"}'') False
       [''types'', ''apply'', ''annotations''],
     tool ''set_lvar_type'' CatTypes ScopeDatabase BASELINE
       ''Set the type of one exact decompiler local variable''
       (''Parse and persist a C type for one Hex-Rays local. Select an exact function and one local: a locator from list_lvars (preferred) or an exact, unique name. Invalid or incompatible types are rejected.'')
       (''{"target_name": "main", "lvar_locator": "<locator from list_lvars>", "decl": "unsigned int"}'') False
       [''decompiler'', ''locals'', ''variables'', ''type'', ''lvars''],
     tool ''infer_types'' CatTypes ScopeDatabase BASELINE
       ''Infer/guess type at one address''
       (''Guess a type for an address or symbol using IDA'' @ [CHR 39] @ ''s heuristics.'')
       (''{"name": "interesting_function"}'') False
       [''types'', ''infer'', ''analysis''],
     tool ''stack_frame'' CatTypes ScopeDatabase BASELINE
       ''Get stack frame info for one function''
       (''Get stack frame layout for the function at an address, including args/locals ranges and per-member type info.'')
       (''{"address": "0x1000"}'') False
       [''stack'', ''frame'', ''locals''],
     tool ''declare_stack'' CatTypes ScopeDatabase BASELINE
       ''Declare a stack variable''
       (''Define a stack variable in a function frame using a C declaration. Provide function address/name and stack offset (negative for locals).'')
       (''{"name": "interesting_function", "offset": -16, "var_name": "mcp_local", "decl": "int mcp_local;"}'') False
       [''stack'', ''declare'', ''variable''],
     tool ''delete_stack'' CatTypes ScopeDatabase BASELINE
       ''Delete a stack variable''
       (''Delete a stack variable by name or offset in a function frame.'')
       (''{"name": "interesting_function", "offset": -16}'') False
       [''stack'', ''delete'', ''variable''],
     tool ''structs'' CatTypes ScopeDatabase BASELINE
       ''List structs with pagination''
       (''List structs (UDTs) in the database with optional name filtering.'')
       (''{"limit": 50, "filter": "objc"}'') False
       [''structs'', ''types'', ''list''],
     tool ''struct_info'' CatTypes ScopeDatabase BASELINE
       ''Get struct info by name or ordinal''
       (''Get struct details including member layout and sizes.'')
       (''{"name": "MyStruct"}'') False
       [''struct'', ''info'', ''types''],
     tool ''read_struct'' CatTypes ScopeDatabase BASELINE
       ''Read struct instances at one or more addresses''
       (''Read raw bytes for each struct member at a given address.'')
       (''{"address": "0x1000", "name": "MyStruct"}'') False
       [''struct'', ''read'', ''values''],
     tool ''search_structs'' CatTypes ScopeDatabase BASELINE
       ''Search structs by name''
       (''Search for structs by name with optional filter and pagination. Returns the same structure list output as structs.'')
       (''{"query": "my_struct", "limit": 20}'') False
       [''struct'', ''search'', ''types'']]\<close>

definition tools_editing :: "tool_info list" where
  \<open>tools_editing = [
     tool ''set_pseudocode_comment'' CatEditing ScopeDatabase BASELINE
       ''Set a persistent pseudocode comment''
       (''Set, replace, or remove a Hex-Rays pseudocode comment at an exact comment_locator from list_pseudocode_comments. Select one address or an exact function symbol. Empty text removes the comment; save_idb writes it to disk.'')
       (''{"target_name": "main", "comment_locator": "<locator from list_pseudocode_comments>", "comment": "validated input"}'') False
       [''pseudocode'', ''decompiler'', ''comments'', ''annotate''],
     tool ''set_comments'' CatEditing ScopeDatabase BASELINE
       ''Set a disassembly comment at an address''
       (''Set a non-repeatable or repeatable disassembly comment at an address. Empty string clears the comment. You can also supply a symbol/function name with an optional offset. Disassembly comments do not appear in Hex-Rays pseudocode; use list_pseudocode_comments and set_pseudocode_comment for those.'')
       (''{"name": "interesting_function", "comment": "note", "repeatable": false}'') False
       [''comments'', ''set'', ''annotate''],
     tool ''patch_asm'' CatEditing ScopeDatabase BASELINE
       ''Patch instructions with assembly text''
       (''Assemble a single instruction line at the target address and patch the bytes. Requires a processor module with assembler support; may fail on some targets. You can supply an address or a symbol name with an optional offset.'')
       (''{"name": "interesting_function", "offset": 0, "line": "nop"}'') False
       [''patch'', ''asm'', ''edit'', ''modify''],
     tool ''patch'' CatEditing ScopeDatabase BASELINE
       ''Patch bytes at an address''
       (''Patch bytes in the database at the given address. You can also supply a symbol/function name with an optional offset.'')
       (''{"name": "interesting_function", "offset": 0, "bytes": "1f 20 03 d5"}'') False
       [''patch'', ''bytes'', ''edit'', ''modify''],
     tool ''list_patches'' CatEditing ScopeDatabase BASELINE
       ''List patched bytes without mutating the database''
       (''List patched bytes recorded by IDA, coalesced into contiguous ranges and paginated. Optional start/end bounds use a half-open address range.'')
       (''{"start": "0x1000", "end": "0x2000", "offset": 0, "limit": 100}'') False
       [''patches'', ''diff'', ''original'', ''modified'', ''bytes''],
     tool ''rename'' CatEditing ScopeDatabase BASELINE
       ''Rename symbols''
       (''Rename a symbol at an address. Optional flags map to IDA set_name flags. You can also supply the current name instead of an address.'')
       (''{"current_name": "interesting_function", "name": "interesting_function_renamed", "flags": 0}'') False
       [''rename'', ''symbol'', ''edit''],
     tool ''rename_lvar'' CatEditing ScopeDatabase BASELINE
       ''Rename one exact decompiler local variable''
       (''Persist a Hex-Rays local variable name. Select an exact function and one local: a locator from list_lvars (preferred) or an exact, unique name. Stale or ambiguous selectors change nothing. Use save_idb to write the database.'')
       (''{"target_name": "main", "lvar_locator": "<locator from list_lvars>", "new_name": "count"}'') False
       [''decompiler'', ''locals'', ''variables'', ''rename'', ''lvars'']]\<close>

definition tools_debugger :: "tool_info list" where
  \<open>tools_debugger = [
     tool ''debug_status'' CatDebug ScopeRuntime DEBUGGER
       ''Report debugger backend and authorization readiness''
       (''Report whether headless debugger support is ready, requires a supported user authorization action, or is unavailable. On macOS ida-mcp uses IDA'' @ [CHR 39] @ ''s signed loopback helper and never requests root, disables SIP, changes authorizationdb, or re-signs binaries.'')
       (''{}'') False
       [''debugger'', ''status'', ''availability'', ''authorization'', ''backend''],
     tool ''debug_launch'' CatDebug ScopeDatabase DEBUGGER
       ''Launch and suspend a local debug target''
       (''Launch an executable through IDA'' @ [CHR 39] @ ''s native debugger backend and wait for the initial suspended event. Requires an open database and explicit server startup with --enable-debugger.'')
       (''{"path":"/absolute/path/to/program","arguments":"--help","timeout_secs":30}'') False
       [''debugger'', ''launch'', ''process'', ''suspend'', ''runtime''],
     tool ''debug_attach'' CatDebug ScopeDatabase DEBUGGER
       ''Attach and suspend a local process''
       (''Attach IDA'' @ [CHR 39] @ ''s native debugger to a positive operating-system process ID. Platform policy may require an explicit user authorization action.'')
       (''{"pid":1234,"timeout_secs":30}'') False
       [''debugger'', ''attach'', ''pid'', ''process'', ''suspend''],
     tool ''debug_modules'' CatDebug ScopeDatabase DEBUGGER
       ''List runtime modules from the suspended debuggee''
       (''List modules loaded in the active debuggee with runtime base, end, size, and IDA rebase target. The process must already be launched or attached.'')
       (''{}'') False
       [''debugger'', ''modules'', ''images'', ''libraries'', ''runtime'', ''base''],
     tool ''debug_stop'' CatDebug ScopeDatabase DEBUGGER
       ''Detach or terminate the active debug target''
       (''Stop the active debug session. action=auto terminates targets launched by ida-mcp and detaches targets it attached; detach and terminate are available as explicit overrides.'')
       (''{"action":"auto","timeout_secs":10}'') False
       [''debugger'', ''stop'', ''detach'', ''terminate'', ''process''],
     tool ''list_databases'' CatCore ScopeRuntime \<lparr>rq_workspace = True, rq_debugger = False, rq_experimental = False\<rparr>
       ''List open workspace database handles''
       (''List every database_id this workspace server currently routes, with the database path when a worker is bound and its lifecycle state: '' @ [CHR 39] @ ''open'' @ [CHR 39] @ '', '' @ [CHR 39] @ ''busy'' @ [CHR 39] @ '' (a call is in flight), or '' @ [CHR 39] @ ''no_worker'' @ [CHR 39] @ '' (allocated or opening in the background, or its worker was lost). Also reports idle seconds and whether the handle is pinned by a background task or a live debugger session. Use it to recover a database_id after a lost response or a stateless HTTP reconnect. Read-only: it never opens, closes, or modifies a database.'')
       (''{}'') False
       [''workspace'', ''databases'', ''list'', ''handles'', ''database_id'', ''discover''],
     tool ''debug_open_module'' CatDebug ScopeDatabase \<lparr>rq_workspace = True, rq_debugger = True, rq_experimental = False\<rparr>
       ''Open a runtime module in a separate workspace database''
       (''Resolve a module from debug_modules and open it in a newly allocated workspace database. Standalone images open directly; cache-backed macOS system libraries are resolved through the target architecture'' @ [CHR 39] @ ''s host dyld shared cache and loaded with IDA 9.4'' @ [CHR 39] @ ''s in-process DSC service. idb_out is always required because runtime modules commonly live in read-only system directories. Returns the new database_id and a checked runtime slide; it does not replace the active debug database.'')
       (''{"database_id":"source UUID","module":"/usr/lib/libobjc.A.dylib","idb_out":"/tmp/libobjc.i64"}'') False
       [''debugger'', ''module'', ''open'', ''workspace'', ''slide'', ''database'']]\<close>

definition tools_scripting :: "tool_info list" where
  \<open>tools_scripting = [
     tool ''run_script'' CatScripting ScopeDatabase BASELINE
       ''Execute Python code via IDAPython''
       (''Execute a Python script via IDAPython in the currently open database. Provide either '' @ [CHR 39] @ ''code'' @ [CHR 39] @ '' (inline Python) or '' @ [CHR 39] @ ''file'' @ [CHR 39] @ '' (path to a .py file). Has full access to all ida_* modules (ida_funcs, ida_bytes, ida_segment, etc.), idc, and idautils. stdout and stderr are captured and returned, and a trailing expression is returned as `result`: strict JSON up to 1 MiB, or the string of its repr() with result_is_repr=true when it is not JSON-serializable or holds an integer outside the 64-bit range (a larger result fails the call). Imports, variables, and functions persist between calls on the same open database. Use this for custom analysis that goes beyond the built-in tools. Supports timeout_secs, records phase transitions in recent_operations, and requires that the IDAPython plugin is loaded (available by default in IDA Pro). API reference: https://python.docs.hex-rays.com'')
       (''{"code": "import idautils'' @ [CHR 92] @ ''nfor f in idautils.Functions():'' @ [CHR 92] @ ''n    print(hex(f))"}'') False
       [''script'', ''python'', ''execute'', ''eval'', ''idapython'', ''run'', ''code'', ''file'']]\<close>

definition TOOL_REGISTRY :: "tool_info list" where
  "TOOL_REGISTRY = tools_core @
     tools_functions @
     tools_disassembly @
     tools_decompile @
     tools_xrefs @
     tools_control_flow @
     tools_memory @
     tools_search @
     tools_metadata @
     tools_types @
     tools_editing @
     tools_debugger @
     tools_scripting"

section \<open>Lookup\<close>

definition default_tools :: "tool_info list" where
  "default_tools = filter ti_default TOOL_REGISTRY"

definition get_tool :: "string \<Rightarrow> tool_info option" where
  "get_tool name = find (\<lambda>t. ti_name t = name) TOOL_REGISTRY"

definition tools_by_category :: "tool_category \<Rightarrow> tool_info list" where
  "tools_by_category c = filter (\<lambda>t. ti_category t = c) TOOL_REGISTRY"

section \<open>Search\<close>

text \<open>The matched keywords and the score of one tool; \<open>ws\<close> are the lowered query words.\<close>

definition note_keyword :: "string \<Rightarrow> string list \<Rightarrow> string list" where
  "note_keyword kw ms = (if kw \<in> set ms then ms else ms @ [kw])"

definition name_pass :: "string list \<Rightarrow> tool_info \<Rightarrow> string list \<times> nat" where
  "name_pass ws t =
     fold (\<lambda>w (ms, score). if str_contains w (to_lowercase (ti_name t)) then (ms @ [''name match''], score + 10) else (ms, score))
       ws ([], 0)"

definition desc_pass :: "string list \<Rightarrow> tool_info \<Rightarrow> string list \<times> nat \<Rightarrow> string list \<times> nat" where
  "desc_pass ws t acc =
     fold (\<lambda>w (ms, score). if str_contains w (to_lowercase (ti_short_desc t)) then (ms, score + 5) else (ms, score)) ws acc"

definition keyword_pass :: "string list \<Rightarrow> tool_info \<Rightarrow> string list \<times> nat \<Rightarrow> string list \<times> nat" where
  "keyword_pass ws t acc =
     fold (\<lambda>kw. fold (\<lambda>w (ms, score).
         if str_contains w (to_lowercase kw) \<or> str_contains (to_lowercase kw) w
         then (note_keyword kw ms, score + 3) else (ms, score)) ws)
       (ti_keywords t) acc"

definition category_pass :: "string list \<Rightarrow> tool_info \<Rightarrow> string list \<times> nat \<Rightarrow> string list \<times> nat" where
  "category_pass ws t acc =
     fold (\<lambda>w (ms, score). if str_contains w (to_lowercase (category_as_str (ti_category t)))
         then (ms @ [category_as_str (ti_category t)], score + 2) else (ms, score)) ws acc"

definition match_tool :: "string list \<Rightarrow> tool_info \<Rightarrow> string list \<times> nat" where
  "match_tool ws t = category_pass ws t (keyword_pass ws t (desc_pass ws t (name_pass ws t)))"

text \<open>\<open>sort_by_key\<close> with \<open>Reverse\<close> is stable: by falling score, ties in the order of the table.\<close>

definition search_tools :: "string \<Rightarrow> nat \<Rightarrow> (tool_info \<times> string list) list" where
  "search_tools query limit =
     (let ws = split_whitespace (to_lowercase query);
          results = filter (\<lambda>r. 0 < snd (snd r)) (map (\<lambda>t. (t, match_tool ws t)) TOOL_REGISTRY)
      in map (\<lambda>r. (fst r, fst (snd r))) (take limit (sort_key (\<lambda>r. - int (snd (snd r))) results)))"

end
