(* ===== verification/Tool_Filter.thy ===== *)
theory Tool_Filter
  imports Tool_Registry
begin

text \<open>
  \<open>src/src/server/tool_filter.rs\<close>: which tools a server advertises and accepts, from the
  command line flags and the capabilities of the build. A \<open>HashSet\<close> of names is a set.
\<close>

section \<open>The lists\<close>

definition READ_ONLY_DENY_LIST :: "string list" where
  "READ_ONLY_DENY_LIST = [
    ''run_script'', ''save_idb'', ''patch'', ''patch_asm'', ''rename'', ''rename_lvar'', ''set_lvar_type'',
    ''set_comments'', ''set_pseudocode_comment'', ''lumina_apply'', ''declare_type'', ''apply_types'',
    ''infer_types'', ''declare_stack'', ''delete_stack'', ''dsc_add_dylib'', ''dsc_add_region'',
    ''analyze_funcs'', ''debug_launch'', ''debug_attach'', ''debug_stop'']"

definition LEAN_PROFILE :: "string list" where
  "LEAN_PROFILE = [
    ''open_idb'', ''open_dsc'', ''dsc_add_dylib'', ''dsc_add_region'', ''load_debug_info'',
    ''analysis_status'', ''analyze_funcs'', ''save_idb'', ''close_idb'', ''task_status'', ''list_functions'',
    ''resolve_function'', ''function_at'', ''disasm'', ''decompile'', ''xrefs_to'', ''xrefs_from'',
    ''callers'', ''callees'', ''strings'', ''find_bytes'', ''search'', ''segments'', ''imports'',
    ''exports'', ''rename'', ''set_comments'', ''run_script'']"

definition profile_tools :: "string \<Rightarrow> string list option" where
  "profile_tools name = (if to_ascii_lowercase (trim name) = ''lean'' then Some LEAN_PROFILE else None)"

section \<open>The filter\<close>

datatype tool_filter_error =
    UnknownProfile string
  | UnknownToolset string
  | UnknownTool string
  | EmptyFinalSet

record tool_filter =
  tf_enabled :: "string set"
  tf_is_active :: bool
  tf_debugger_enabled :: bool
  tf_workspace_enabled :: bool

definition clean :: "string list \<Rightarrow> string list" where
  "clean input = filter (\<lambda>s. s \<noteq> []) (map trim (concat (map (split_char CHR '','') input)))"

fun add_toolsets :: "string list \<Rightarrow> string set \<Rightarrow> tool_filter_error + string set" where
  "add_toolsets [] enabled = Inr enabled"
| "add_toolsets (raw # raws) enabled =
     (case category_from_str raw of
        None \<Rightarrow> Inl (UnknownToolset raw)
      | Some cat \<Rightarrow> add_toolsets raws (enabled \<union> set (map ti_name (tools_by_category cat))))"

fun add_tools :: "string list \<Rightarrow> string set \<Rightarrow> tool_filter_error + string set" where
  "add_tools [] enabled = Inr enabled"
| "add_tools (raw # raws) enabled =
     (case get_tool raw of
        None \<Rightarrow> Inl (UnknownTool raw)
      | Some t \<Rightarrow> add_tools raws (insert (ti_name t) enabled))"

fun remove_tools :: "string list \<Rightarrow> string set \<Rightarrow> tool_filter_error + string set" where
  "remove_tools [] enabled = Inr enabled"
| "remove_tools (raw # raws) enabled =
     (case get_tool raw of
        None \<Rightarrow> Inl (UnknownTool raw)
      | Some t \<Rightarrow> remove_tools raws (enabled - {ti_name t}))"

definition then_ok :: "'e + 'a \<Rightarrow> ('a \<Rightarrow> 'e + 'b) \<Rightarrow> 'e + 'b" where
  "then_ok r f = (case r of Inl e \<Rightarrow> Inl e | Inr x \<Rightarrow> f x)"

definition include_profile :: "string option \<Rightarrow> string set \<Rightarrow> tool_filter_error + string set" where
  "include_profile profile base =
     (case profile of
        None \<Rightarrow> Inr base
      | Some name \<Rightarrow>
          (case profile_tools name of
             None \<Rightarrow> Inl (UnknownProfile name)
           | Some members \<Rightarrow> Inr (base \<union> set members)))"

definition finish_filter :: "bool \<Rightarrow> bool \<Rightarrow> string set \<Rightarrow> tool_filter_error + tool_filter" where
  "finish_filter any_input read_only enabled0 =
     (let enabled = (if read_only then enabled0 - set READ_ONLY_DENY_LIST else enabled0)
      in if enabled = {} then Inl EmptyFinalSet
         else Inr \<lparr>tf_enabled = enabled, tf_is_active = any_input, tf_debugger_enabled = False,
                tf_workspace_enabled = False\<rparr>)"

definition from_profile_and_inputs ::
  "string option \<Rightarrow> string list \<Rightarrow> string list \<Rightarrow> string list \<Rightarrow> bool \<Rightarrow> tool_filter_error + tool_filter" where
  "from_profile_and_inputs profile0 toolsets0 tools0 exclude0 read_only =
     (let toolsets = clean toolsets0;
          tools = clean tools0;
          excludes = clean exclude0;
          profile = (case profile0 of None \<Rightarrow> None | Some n \<Rightarrow> if trim n = [] then None else Some (trim n));
          any_input = (profile \<noteq> None \<or> toolsets \<noteq> [] \<or> tools \<noteq> [] \<or> excludes \<noteq> [] \<or> read_only);
          base = (if profile = None \<and> toolsets = [] \<and> tools = [] then set (map ti_name TOOL_REGISTRY) else {})
      in then_ok (include_profile profile base)
         (\<lambda>e1. then_ok (add_toolsets toolsets e1)
         (\<lambda>e2. then_ok (add_tools tools e2)
         (\<lambda>e3. then_ok (remove_tools excludes e3) (finish_filter any_input read_only)))))"

definition from_inputs :: "string list \<Rightarrow> string list \<Rightarrow> string list \<Rightarrow> bool \<Rightarrow> tool_filter_error + tool_filter" where
  "from_inputs toolsets tools exclude_tools read_only =
     from_profile_and_inputs None toolsets tools exclude_tools read_only"

definition unrestricted :: tool_filter where
  "unrestricted = \<lparr>tf_enabled = set (map ti_name TOOL_REGISTRY), tf_is_active = False, tf_debugger_enabled = False,
     tf_workspace_enabled = False\<rparr>"

definition is_enabled :: "tool_filter \<Rightarrow> string \<Rightarrow> bool" where
  "is_enabled f name \<longleftrightarrow> name \<in> tf_enabled f \<and>
     (case get_tool name of
        None \<Rightarrow> False
      | Some t \<Rightarrow> (\<not> rq_debugger (ti_requirements t) \<or> tf_debugger_enabled f)
                 \<and> (\<not> rq_workspace (ti_requirements t) \<or> tf_workspace_enabled f))"

definition enabled_count :: "tool_filter \<Rightarrow> nat" where
  "enabled_count f = card {name \<in> tf_enabled f. is_enabled f name}"

text \<open>\<open>supported\<close> says whether the build targets macOS on arm64.\<close>

definition with_capabilities :: "bool \<Rightarrow> bool \<Rightarrow> bool \<Rightarrow> tool_filter \<Rightarrow> tool_filter_error + tool_filter" where
  "with_capabilities supported debugger_requested workspace_enabled f =
     (let f' = f\<lparr>tf_debugger_enabled := debugger_requested \<and> supported, tf_workspace_enabled := workspace_enabled\<rparr>
      in if enabled_count f' = 0 then Inl EmptyFinalSet else Inr f')"

section \<open>The table is well formed\<close>

lemmas table_defs = TOOL_REGISTRY_def tools_core_def tools_functions_def tools_disassembly_def tools_decompile_def tools_xrefs_def tools_control_flow_def tools_memory_def tools_search_def tools_metadata_def tools_types_def tools_editing_def tools_debugger_def tools_scripting_def

lemma registry_names: "map ti_name TOOL_REGISTRY = [
    ''open_idb'', ''open_dsc'', ''dsc_add_dylib'', ''dsc_add_region'', ''load_debug_info'',
    ''analysis_status'', ''save_idb'', ''close_idb'', ''tool_catalog'', ''tool_help'', ''recent_operations'',
    ''task_status'', ''idb_meta'', ''list_functions'', ''resolve_function'', ''function_at'',
    ''lookup_funcs'', ''analyze_funcs'', ''disasm'', ''render_range'', ''disasm_by_name'',
    ''disasm_function_at'', ''decompile'', ''pseudocode_at'', ''list_lvars'', ''list_pseudocode_comments'',
    ''xrefs_to'', ''xrefs_from'', ''xrefs_to_string'', ''xref_matrix'', ''basic_blocks'', ''callers'',
    ''callees'', ''callgraph'', ''find_paths'', ''get_bytes'', ''get_string'', ''read_int'',
    ''get_global_value'', ''find_bytes'', ''search'', ''strings'', ''find_string'', ''analyze_strings'',
    ''find_insns'', ''find_insn_operands'', ''segments'', ''addr_info'', ''imports'', ''exports'',
    ''export_funcs'', ''entrypoints'', ''lumina_lookup'', ''lumina_apply'', ''list_globals'',
    ''local_types'', ''xrefs_to_field'', ''declare_type'', ''apply_types'', ''set_lvar_type'',
    ''infer_types'', ''stack_frame'', ''declare_stack'', ''delete_stack'', ''structs'', ''struct_info'',
    ''read_struct'', ''search_structs'', ''set_pseudocode_comment'', ''set_comments'', ''patch_asm'',
    ''patch'', ''list_patches'', ''rename'', ''rename_lvar'', ''debug_status'', ''debug_launch'',
    ''debug_attach'', ''debug_modules'', ''debug_stop'', ''list_databases'', ''debug_open_module'',
    ''run_script'']"
  by (simp add: table_defs)

lemma registry_names_distinct: "distinct (map ti_name TOOL_REGISTRY)"
  unfolding registry_names by simp

lemma find_key: "distinct (map f xs) \<Longrightarrow> x \<in> set xs \<Longrightarrow> find (\<lambda>y. f y = f x) xs = Some x"
  by (induction xs) (auto simp: image_iff)

lemma get_tool_name: "t \<in> set TOOL_REGISTRY \<Longrightarrow> get_tool (ti_name t) = Some t"
  unfolding get_tool_def by (rule find_key [OF registry_names_distinct])

lemma get_tool_SomeD: "get_tool name = Some t \<Longrightarrow> t \<in> set TOOL_REGISTRY \<and> ti_name t = name"
  by (auto simp: get_tool_def find_Some_iff)

lemma get_tool_iff: "get_tool name \<noteq> None \<longleftrightarrow> name \<in> set (map ti_name TOOL_REGISTRY)"
  by (auto simp: get_tool_def find_None_iff)

lemma lists_registered: "set READ_ONLY_DENY_LIST \<union> set LEAN_PROFILE \<subseteq> set (map ti_name TOOL_REGISTRY)"
  unfolding registry_names READ_ONLY_DENY_LIST_def LEAN_PROFILE_def by simp

lemma requirements_by_category:
  "list_all (\<lambda>t. (rq_debugger (ti_requirements t) \<longleftrightarrow> ti_category t = CatDebug)
      \<and> (rq_workspace (ti_requirements t) \<longleftrightarrow> ti_name t = ''debug_open_module'' \<or> ti_name t = ''list_databases'')
      \<and> \<not> rq_experimental (ti_requirements t)) TOOL_REGISTRY"
  unfolding table_defs by (simp add: BASELINE_def DEBUGGER_def)

lemma all_categories_complete: "c \<in> set all_categories"
  by (cases c) (simp_all add: all_categories_def)

lemma category_roundtrip: "list_all (\<lambda>c. category_from_str (category_as_str c) = Some c) all_categories"
  by code_simp

text \<open>
  The tool table is well formed: no two tools share a name and every tool is found under
  its own name; the read-only deny list and the lean profile name only existing tools, so a
  renamed tool cannot slip past them; exactly the debug category needs the debugger
  capability, and exactly two tools need workspace mode; and every category is recognised
  under the name it is listed with.
\<close>

theorem tool_table_well_formed:
  "distinct (map ti_name TOOL_REGISTRY)
   \<and> list_all (\<lambda>t. get_tool (ti_name t) = Some t) TOOL_REGISTRY
   \<and> set READ_ONLY_DENY_LIST \<union> set LEAN_PROFILE \<subseteq> set (map ti_name TOOL_REGISTRY)
   \<and> list_all (\<lambda>t. (rq_debugger (ti_requirements t) \<longleftrightarrow> ti_category t = CatDebug)
        \<and> (rq_workspace (ti_requirements t) \<longleftrightarrow> ti_name t = ''debug_open_module'' \<or> ti_name t = ''list_databases'')) TOOL_REGISTRY
   \<and> list_all (\<lambda>c. category_from_str (category_as_str c) = Some c) all_categories \<and> (c \<in> set all_categories)"
proof -
  have "list_all (\<lambda>t. get_tool (ti_name t) = Some t) TOOL_REGISTRY" by (simp add: list_all_iff get_tool_name)
  moreover have "list_all (\<lambda>t. (rq_debugger (ti_requirements t) \<longleftrightarrow> ti_category t = CatDebug)
        \<and> (rq_workspace (ti_requirements t) \<longleftrightarrow> ti_name t = ''debug_open_module'' \<or> ti_name t = ''list_databases'')) TOOL_REGISTRY"
    using requirements_by_category by (simp add: list_all_iff)
  ultimately show ?thesis
    using registry_names_distinct lists_registered category_roundtrip all_categories_complete by blast
qed

section \<open>What the filter lets through\<close>

lemma add_toolsets_ok:
  "add_toolsets raws e = Inr e' \<Longrightarrow>
   e' = e \<union> {ti_name t | t raw. t \<in> set TOOL_REGISTRY \<and> raw \<in> set raws \<and> category_from_str raw = Some (ti_category t)}"
  by (induction raws e rule: add_toolsets.induct) (fastforce simp: tools_by_category_def split: option.splits)+

lemma add_tools_ok: "add_tools raws e = Inr e' \<Longrightarrow> e' = e \<union> set raws \<and> set raws \<subseteq> set (map ti_name TOOL_REGISTRY)"
  by (induction raws e rule: add_tools.induct) (auto split: option.splits dest: get_tool_SomeD)

lemma remove_tools_ok: "remove_tools raws e = Inr e' \<Longrightarrow> e' = e - set raws"
  by (induction raws e rule: remove_tools.induct) (auto split: option.splits dest: get_tool_SomeD)

lemma then_ok_Inr: "then_ok r f = Inr y \<longleftrightarrow> (\<exists>x. r = Inr x \<and> f x = Inr y)"
  by (auto simp: then_ok_def split: sum.splits)

text \<open>The tools that the include flags name; without any flag, all of them.\<close>

definition selected :: "string option \<Rightarrow> string list \<Rightarrow> string list \<Rightarrow> string \<Rightarrow> bool" where
  "selected profile toolsets tools name \<longleftrightarrow>
     ((case profile of None \<Rightarrow> True | Some p \<Rightarrow> trim p = []) \<and> clean toolsets = [] \<and> clean tools = [])
     \<or> (\<exists>p members. profile = Some p \<and> trim p \<noteq> [] \<and> profile_tools (trim p) = Some members \<and> name \<in> set members)
     \<or> (\<exists>t raw. t \<in> set TOOL_REGISTRY \<and> ti_name t = name \<and> raw \<in> set (clean toolsets) \<and> category_from_str raw = Some (ti_category t))
     \<or> name \<in> set (clean tools)"

lemma profile_registered: "profile_tools p = Some members \<Longrightarrow> set members \<subseteq> set (map ti_name TOOL_REGISTRY)"
  using lists_registered by (auto simp: profile_tools_def split: if_splits)

lemma filter_enabled:
  assumes "from_profile_and_inputs profile toolsets tools excludes read_only = Inr f"
  shows "name \<in> tf_enabled f \<longleftrightarrow> name \<in> set (map ti_name TOOL_REGISTRY) \<and> selected profile toolsets tools name
    \<and> name \<notin> set (clean excludes) \<and> \<not> (read_only \<and> name \<in> set READ_ONLY_DENY_LIST)"
proof -
  define prof where "prof = (case profile of None \<Rightarrow> None | Some n \<Rightarrow> if trim n = [] then None else Some (trim n))"
  define base where "base = (if prof = None \<and> clean toolsets = [] \<and> clean tools = [] then set (map ti_name TOOL_REGISTRY) else {})"
  from assms obtain e1 e2 e3 e4 a where
    e1: "include_profile prof base = Inr e1"
    and e2: "add_toolsets (clean toolsets) e1 = Inr e2" and e3: "add_tools (clean tools) e2 = Inr e3"
    and e4: "remove_tools (clean excludes) e3 = Inr e4" and fin: "finish_filter a read_only e4 = Inr f"
    unfolding from_profile_and_inputs_def Let_def then_ok_Inr prof_def base_def by blast
  have f: "tf_enabled f = (if read_only then e4 - set READ_ONLY_DENY_LIST else e4)"
    using fin by (auto simp: finish_filter_def Let_def split: if_splits)
  define P where "P \<longleftrightarrow> (\<exists>p members. profile = Some p \<and> trim p \<noteq> [] \<and> profile_tools (trim p) = Some members \<and> name \<in> set members)"
  define C where "C \<longleftrightarrow> (\<exists>t raw. t \<in> set TOOL_REGISTRY \<and> ti_name t = name \<and> raw \<in> set (clean toolsets) \<and> category_from_str raw = Some (ti_category t))"
  define A where "A \<longleftrightarrow> (case profile of None \<Rightarrow> True | Some p \<Rightarrow> trim p = []) \<and> clean toolsets = [] \<and> clean tools = []"
  define R where "R \<longleftrightarrow> name \<in> set (map ti_name TOOL_REGISTRY)"
  have "name \<in> e1 \<longleftrightarrow> name \<in> base \<or> P"
    using e1 by (auto simp: include_profile_def prof_def P_def split: option.splits if_splits)
  moreover have "name \<in> base \<longleftrightarrow> R \<and> A"
    by (auto simp: base_def prof_def R_def A_def split: option.splits if_splits)
  moreover have "name \<in> e2 \<longleftrightarrow> name \<in> e1 \<or> C"
    unfolding add_toolsets_ok [OF e2] C_def by blast
  moreover have "name \<in> e3 \<longleftrightarrow> name \<in> e2 \<or> name \<in> set (clean tools)" "name \<in> set (clean tools) \<Longrightarrow> R"
    using add_tools_ok [OF e3] unfolding R_def by blast+
  moreover have "name \<in> tf_enabled f \<longleftrightarrow> name \<in> e3 \<and> name \<notin> set (clean excludes) \<and> \<not> (read_only \<and> name \<in> set READ_ONLY_DENY_LIST)"
    using remove_tools_ok [OF e4] f by auto
  moreover have "P \<Longrightarrow> R" "C \<Longrightarrow> R"
    using profile_registered unfolding P_def C_def R_def by (blast, force)
  moreover have "selected profile toolsets tools name \<longleftrightarrow> A \<or> P \<or> C \<or> name \<in> set (clean tools)"
    unfolding selected_def A_def P_def C_def by blast
  ultimately show ?thesis unfolding R_def [symmetric] by blast
qed

text \<open>
  C14: The filter lets through exactly what the flags say. A tool is enabled if and only if it
  exists, the include flags select it (or there are none), it is not excluded, it is not on
  the deny list of a read-only server, and the capabilities it needs are on; an exclusion
  and the read-only flag win over every include.
\<close>

theorem tool_filter_exact:
  assumes "from_profile_and_inputs profile toolsets tools excludes read_only = Inr f"
    and "with_capabilities supported debugger workspace f = Inr g"
  shows "is_enabled g name \<longleftrightarrow> (\<exists>t. get_tool name = Some t \<and> selected profile toolsets tools name
    \<and> name \<notin> set (clean excludes) \<and> \<not> (read_only \<and> name \<in> set READ_ONLY_DENY_LIST)
    \<and> (rq_debugger (ti_requirements t) \<longrightarrow> debugger \<and> supported) \<and> (rq_workspace (ti_requirements t) \<longrightarrow> workspace))"
proof -
  have g: "g = f\<lparr>tf_debugger_enabled := debugger \<and> supported, tf_workspace_enabled := workspace\<rparr>"
    using assms(2) by (auto simp: with_capabilities_def Let_def split: if_splits)
  show ?thesis
  proof (cases "get_tool name")
    case None
    then show ?thesis by (simp add: is_enabled_def)
  next
    case (Some t)
    then have "name \<in> set (map ti_name TOOL_REGISTRY)" using get_tool_iff [of name] by simp
    with Some filter_enabled [OF assms(1)] show ?thesis by (auto simp: is_enabled_def g)
  qed
qed

lemma disasm_category: "list_all (\<lambda>t. ti_name t = ''disasm'' \<longrightarrow> ti_category t = CatDisassembly) TOOL_REGISTRY"
  unfolding table_defs by simp

theorem tool_filter_exact_witness:
  "\<exists>f g. from_profile_and_inputs None [] [''patch'', ''disasm''] [] True = Inr f
    \<and> with_capabilities False False False f = Inr g \<and> \<not> is_enabled g ''patch'' \<and> is_enabled g ''disasm''"
proof -
  have clean: "clean [''patch'', ''disasm''] = [''patch'', ''disasm'']" "clean [] = []"
    by code_simp+
  have registered: "''patch'' \<in> set (map ti_name TOOL_REGISTRY)" "''disasm'' \<in> set (map ti_name TOOL_REGISTRY)"
    unfolding registry_names by simp_all
  have tools: "\<exists>t. get_tool ''patch'' = Some t \<and> ti_name t = ''patch''" "\<exists>t. get_tool ''disasm'' = Some t \<and> ti_name t = ''disasm''"
    using registered get_tool_iff get_tool_SomeD by blast+
  have sel: "selected None [] [''patch'', ''disasm''] ''disasm''" by (simp add: selected_def clean)
  define f where "f = \<lparr>tf_enabled = {''patch'', ''disasm''} - set READ_ONLY_DENY_LIST, tf_is_active = True,
    tf_debugger_enabled = False, tf_workspace_enabled = False\<rparr>"
  have dis: "''disasm'' \<notin> set READ_ONLY_DENY_LIST" "''patch'' \<in> set READ_ONLY_DENY_LIST"
    by (simp_all add: READ_ONLY_DENY_LIST_def)
  have f: "from_profile_and_inputs None [] [''patch'', ''disasm''] [] True = Inr f"
    using tools dis by (auto simp: from_profile_and_inputs_def Let_def clean then_ok_def include_profile_def finish_filter_def f_def)
  obtain t where t: "get_tool ''disasm'' = Some t" "t \<in> set TOOL_REGISTRY" "ti_name t = ''disasm''"
    using tools(2) get_tool_SomeD by blast
  have cat: "ti_category t \<noteq> CatDebug"
    using disasm_category t(2,3) by (auto simp: list_all_iff)
  then have req: "\<not> rq_debugger (ti_requirements t)" "\<not> rq_workspace (ti_requirements t)"
    using requirements_by_category t(2,3) by (auto simp: list_all_iff)
  have "is_enabled f ''disasm''" using t dis req by (simp add: is_enabled_def f_def)
  then have "''disasm'' \<in> {name \<in> tf_enabled f. is_enabled f name}" by (simp add: is_enabled_def)
  moreover have "finite (tf_enabled f)" by (simp add: f_def)
  ultimately have "enabled_count f \<noteq> 0" unfolding enabled_count_def by auto
  then have g: "with_capabilities False False False f = Inr f" by (simp add: with_capabilities_def f_def)
  show ?thesis
    using tool_filter_exact [OF f g, of "''patch''"] tool_filter_exact [OF f g, of "''disasm''"] f g dis t req sel
    by (auto simp: clean)
qed

end
