(* ===== verification/Ip_Address.thy ===== *)
theory Ip_Address
  imports Rust_Std
begin

text \<open>
  The parser of \<open>std::net::IpAddr\<close> that the HTTP access check uses on the host of a request,
  with the address classes it asks for. The parser reads from a position and gives the
  rest of the input; a failed read gives nothing and leaves the position alone.
\<close>

datatype ip_addr =
    V4 "u8 list"
  | V6 "u16 list"

type_synonym 'a reader = "string \<Rightarrow> ('a \<times> string) option"

text \<open>Digits are read greedily; one more than \<open>max_digits\<close>, or a value of \<open>bound\<close> or more, fails.\<close>

fun read_digits :: "nat \<Rightarrow> nat \<Rightarrow> nat \<Rightarrow> nat \<Rightarrow> nat \<Rightarrow> string \<Rightarrow> (nat \<times> nat \<times> string) option" where
  "read_digits radix max_digits bound count acc [] = Some (count, acc, [])"
| "read_digits radix max_digits bound count acc (c # cs) =
     (case radix_digit radix c of
        None \<Rightarrow> Some (count, acc, c # cs)
      | Some d \<Rightarrow>
          if bound \<le> acc * radix + d then None
          else if max_digits < count + 1 then None
          else read_digits radix max_digits bound (count + 1) (acc * radix + d) cs)"

definition read_number :: "nat \<Rightarrow> nat \<Rightarrow> nat \<Rightarrow> bool \<Rightarrow> nat reader" where
  "read_number radix max_digits bound allow_zero_prefix s =
     (case read_digits radix max_digits bound 0 0 s of
        None \<Rightarrow> None
      | Some (count, n, rest) \<Rightarrow>
          if count = 0 then None
          else if \<not> allow_zero_prefix \<and> hd s = CHR ''0'' \<and> 1 < count then None
          else Some (n, rest))"

definition read_separator :: "char \<Rightarrow> nat \<Rightarrow> 'a reader \<Rightarrow> 'a reader" where
  "read_separator sep index inner s =
     (if 0 < index then (case s of c # cs \<Rightarrow> if c = sep then inner cs else None | [] \<Rightarrow> None)
      else inner s)"

fun read_octets :: "nat \<Rightarrow> nat \<Rightarrow> (u8 list) reader" where
  "read_octets i 0 s = Some ([], s)"
| "read_octets i (Suc n) s =
     (case read_separator (CHR ''.'') i (read_number 10 3 256 False) s of
        None \<Rightarrow> None
      | Some (x, rest) \<Rightarrow>
          (case read_octets (i + 1) n rest of
             None \<Rightarrow> None
           | Some (xs, rest') \<Rightarrow> Some (of_nat x # xs, rest')))"

definition read_ipv4_addr :: "(u8 list) reader" where
  "read_ipv4_addr s = read_octets 0 4 s"

definition u16_from_be_bytes :: "u8 \<Rightarrow> u8 \<Rightarrow> u16" where
  "u16_from_be_bytes a b = of_nat (unat a * 256 + unat b)"

text \<open>Up to \<open>n\<close> groups from index \<open>i\<close>; the flag says that they end with an IPv4 address. The
  third result is the rest of the input.\<close>

fun read_groups :: "nat \<Rightarrow> nat \<Rightarrow> string \<Rightarrow> u16 list \<times> bool \<times> string" where
  "read_groups i 0 s = ([], False, s)"
| "read_groups i (Suc n) s =
     (case (if 0 < n then read_separator (CHR '':'') i read_ipv4_addr s else None) of
        Some ([a, b, c, d], rest) \<Rightarrow> ([u16_from_be_bytes a b, u16_from_be_bytes c d], True, rest)
      | _ \<Rightarrow>
          (case read_separator (CHR '':'') i (read_number 16 4 65536 True) s of
             None \<Rightarrow> ([], False, s)
           | Some (g, rest) \<Rightarrow>
               (case read_groups (i + 1) n rest of (gs, v4, rest') \<Rightarrow> (of_nat g # gs, v4, rest'))))"

definition read_ipv6_addr :: "(u16 list) reader" where
  "read_ipv6_addr s =
     (case read_groups 0 8 s of
        (head, head_ipv4, rest) \<Rightarrow>
          if length head = 8 then Some (head, rest)
          else if head_ipv4 then None
          else (case rest of
                  c # d # rest1 \<Rightarrow>
                    if c = CHR '':'' \<and> d = CHR '':''
                    then (case read_groups 0 (7 - length head) rest1 of
                            (tail, _, rest2) \<Rightarrow>
                              Some (head @ replicate (8 - length head - length tail) 0 @ tail, rest2))
                    else None
                | _ \<Rightarrow> None))"

definition parse_ip_addr :: "string \<Rightarrow> ip_addr option" where
  "parse_ip_addr s =
     (case (case read_ipv4_addr s of
              Some (octets, rest) \<Rightarrow> Some (V4 octets, rest)
            | None \<Rightarrow> map_option (\<lambda>x. (V6 (fst x), snd x)) (read_ipv6_addr s)) of
        Some (ip, []) \<Rightarrow> Some ip
      | _ \<Rightarrow> None)"

fun is_loopback :: "ip_addr \<Rightarrow> bool" where
  "is_loopback (V4 octets) \<longleftrightarrow> take 1 octets = [127]"
| "is_loopback (V6 groups) \<longleftrightarrow> groups = [0, 0, 0, 0, 0, 0, 0, 1]"

fun is_unspecified :: "ip_addr \<Rightarrow> bool" where
  "is_unspecified (V4 octets) \<longleftrightarrow> octets = [0, 0, 0, 0]"
| "is_unspecified (V6 groups) \<longleftrightarrow> groups = [0, 0, 0, 0, 0, 0, 0, 0]"

section \<open>Laws\<close>

lemma read_octets_length: "read_octets i n s = Some (xs, rest) \<Longrightarrow> length xs = n"
  by (induction i n s arbitrary: xs rest rule: read_octets.induct) (auto split: option.splits)

lemma read_groups_length: "read_groups i n s = (gs, v4, rest) \<Longrightarrow> length gs \<le> n"
proof (induction i n s arbitrary: gs v4 rest rule: read_groups.induct)
  case (2 i n s)
  then show ?case by (fastforce split: option.splits list.splits prod.splits if_splits)
qed simp

text \<open>A parsed address always has the shape of its family.\<close>

fun ip_wf :: "ip_addr \<Rightarrow> bool" where
  "ip_wf (V4 octets) \<longleftrightarrow> length octets = 4"
| "ip_wf (V6 groups) \<longleftrightarrow> length groups = 8"

lemma read_ipv6_length: "read_ipv6_addr s = Some (gs, rest) \<Longrightarrow> length gs = 8"
  by (auto simp: read_ipv6_addr_def split: prod.splits if_splits list.splits dest!: read_groups_length)

lemma parse_ip_wf:
  assumes "parse_ip_addr s = Some ip"
  shows "ip_wf ip"
proof (cases "read_ipv4_addr s")
  case None
  with assms obtain gs where "read_ipv6_addr s = Some (gs, [])" "ip = V6 gs"
    by (auto simp: parse_ip_addr_def split: option.splits list.splits)
  then show ?thesis using read_ipv6_length [of s gs "[]"] by simp
next
  case (Some x)
  with assms obtain xs where "read_octets 0 4 s = Some (xs, [])" "ip = V4 xs"
    by (auto simp: parse_ip_addr_def read_ipv4_addr_def split: list.splits prod.splits)
  then show ?thesis using read_octets_length [of 0 4 s xs "[]"] by simp
qed

lemmas read_numeral =
  read_octets.simps(2) [of i "pred_numeral k" s for i k s, folded numeral_eq_Suc]
  read_groups.simps(2) [of i "pred_numeral k" s for i k s, folded numeral_eq_Suc]

lemmas ip_eval = parse_ip_addr_def read_ipv4_addr_def read_ipv6_addr_def read_number_def read_separator_def radix_digit_def
  Let_def read_numeral

lemma zero_groups: "replicate 7 (0 :: u16) = [0, 0, 0, 0, 0, 0, 0]"
  by (simp add: eval_nat_numeral)

lemma parse_examples:
  "parse_ip_addr ''127.0.0.1'' = Some (V4 [127, 0, 0, 1])" "parse_ip_addr ''127.0.0.01'' = None"
  "parse_ip_addr ''::1'' = Some (V6 [0, 0, 0, 0, 0, 0, 0, 1])" "parse_ip_addr ''localhost'' = None"
  by (simp_all add: ip_eval zero_groups)

end
