(* ===== verification/Http_Access.thy ===== *)
theory Http_Access
  imports Ip_Address
begin

text \<open>
  \<open>src/src/server/http_access.rs\<close>: the check of the Origin and Host headers in front of the
  HTTP service, which keeps web pages from reaching a local server. \<open>Authority::try_from\<close>
  of the \<open>http\<close> crate is a parameter that gives host and port; a header value is text or
  not, as \<open>HeaderValue::to_str\<close> decides.
\<close>

section \<open>Data\<close>

datatype header_value = HvText string | HvOpaque

record headers =
  hd_origin :: "header_value option"
  hd_host :: "header_value option"

type_synonym authority_parser = "string \<Rightarrow> (string \<times> u16 option) option"

record normalized_authority =
  na_host :: string
  na_port :: "u16 option"

datatype host_allow_list =
    AnyHost
  | Restricted "normalized_authority list"

record access_policy =
  ap_bind_ip :: ip_addr
  ap_bind_port :: u16
  ap_allowed_origins :: "string list"
  ap_allowed_hosts :: host_allow_list

text \<open>A refused request is answered with a status code and a message.\<close>

type_synonym access_error = "nat \<times> string"

section \<open>Building the policy\<close>

definition clean_allowlist :: "string list \<Rightarrow> string list" where
  "clean_allowlist values = filter (\<lambda>s. s \<noteq> []) (map trim values)"

definition trim_matches :: "char \<Rightarrow> string \<Rightarrow> string" where
  "trim_matches c s = rev (dropWhile (\<lambda>x. x = c) (rev (dropWhile (\<lambda>x. x = c) s)))"

definition normalize_host :: "string \<Rightarrow> string" where
  "normalize_host host = to_ascii_lowercase (trim_matches (CHR '']'') (trim_matches (CHR ''['') host))"

definition normalize_authority :: "string \<Rightarrow> u16 option \<Rightarrow> normalized_authority" where
  "normalize_authority host port = \<lparr>na_host = normalize_host host, na_port = port\<rparr>"

definition authority_display :: "normalized_authority \<Rightarrow> string" where
  "authority_display a =
     (case na_port a of Some port \<Rightarrow> na_host a @ '':'' @ show_nat (unat port) | None \<Rightarrow> na_host a)"

definition parse_allowed_authority :: "authority_parser \<Rightarrow> string \<Rightarrow> normalized_authority option" where
  "parse_allowed_authority parse allowed0 =
     (let allowed = trim allowed0
      in if allowed = [] then None
         else case parse allowed of
           Some (host, port) \<Rightarrow> Some (normalize_authority host port)
         | None \<Rightarrow> Some (normalize_authority allowed None))"

fun host_list_loop :: "authority_parser \<Rightarrow> string list \<Rightarrow> normalized_authority list \<Rightarrow> host_allow_list" where
  "host_list_loop parse [] hosts = (if hosts = [] then AnyHost else Restricted hosts)"
| "host_list_loop parse (raw # raws) hosts =
     (let value = trim raw
      in if value = ''*'' then AnyHost
         else if value = [] then host_list_loop parse raws hosts
         else case parse_allowed_authority parse value of
           Some a \<Rightarrow> host_list_loop parse raws (hosts @ [a])
         | None \<Rightarrow> host_list_loop parse raws hosts)"

definition hosts_from_cli :: "authority_parser \<Rightarrow> string list option \<Rightarrow> host_allow_list" where
  "hosts_from_cli parse allow_host =
     (case allow_host of None \<Rightarrow> Restricted [] | Some values \<Rightarrow> host_list_loop parse values [])"

definition policy_from_cli ::
  "authority_parser \<Rightarrow> ip_addr \<Rightarrow> u16 \<Rightarrow> string list \<Rightarrow> string list option \<Rightarrow> access_policy" where
  "policy_from_cli parse ip port allow_origin allow_host =
     \<lparr>ap_bind_ip = ip, ap_bind_port = port, ap_allowed_origins = clean_allowlist allow_origin,
      ap_allowed_hosts = hosts_from_cli parse allow_host\<rparr>"

text \<open>The default of \<open>--allow-origin\<close>, split at its commas; \<open>--allow-host\<close> has none.\<close>

definition DEFAULT_ALLOW_ORIGIN :: "string list" where
  "DEFAULT_ALLOW_ORIGIN = [''http://localhost'', ''http://127.0.0.1'']"

section \<open>Checking a request\<close>

fun hosts_contain :: "host_allow_list \<Rightarrow> normalized_authority \<Rightarrow> bool" where
  "hosts_contain AnyHost host \<longleftrightarrow> True"
| "hosts_contain (Restricted allowed) host \<longleftrightarrow>
     (\<exists>a \<in> set allowed. na_host a = na_host host \<and>
        (case na_port a of Some port \<Rightarrow> na_port host = Some port | None \<Rightarrow> True))"

definition host_check_disabled :: "access_policy \<Rightarrow> bool" where
  "host_check_disabled p \<longleftrightarrow> ap_allowed_hosts p = AnyHost"

text \<open>\<open>bind\<close> is the printed socket address.\<close>

definition host_policy_summary :: "string \<Rightarrow> access_policy \<Rightarrow> string" where
  "host_policy_summary bind p =
     (case ap_allowed_hosts p of
        AnyHost \<Rightarrow> ''disabled; all Host values are allowed''
      | Restricted hosts \<Rightarrow>
          if hosts = [] then ''bind-derived IP hosts for '' @ bind
          else ''bind-derived IP hosts for '' @ bind @ ''; extra allowlist: '' @ str_join '','' (map authority_display hosts))"

definition port_matches :: "u16 option \<Rightarrow> u16 \<Rightarrow> bool" where
  "port_matches host_port bind_port = (case host_port of Some port \<Rightarrow> port = bind_port | None \<Rightarrow> True)"

definition host_allowed_by_bind :: "access_policy \<Rightarrow> normalized_authority \<Rightarrow> bool" where
  "host_allowed_by_bind p host \<longleftrightarrow>
     port_matches (na_port host) (ap_bind_port p) \<and>
     (if na_host host = ''localhost'' then is_loopback (ap_bind_ip p) \<or> is_unspecified (ap_bind_ip p)
      else case parse_ip_addr (na_host host) of
        None \<Rightarrow> False
      | Some host_ip \<Rightarrow>
          if is_unspecified (ap_bind_ip p) then True
          else if is_loopback (ap_bind_ip p) then is_loopback host_ip
          else host_ip = ap_bind_ip p)"

definition validate_origin :: "access_policy \<Rightarrow> headers \<Rightarrow> access_error + unit" where
  "validate_origin p h =
     (case hd_origin h of
        None \<Rightarrow> Inr ()
      | Some HvOpaque \<Rightarrow> Inl (400, ''Bad Request: invalid Origin'')
      | Some (HvText origin) \<Rightarrow>
          if origin \<in> set (ap_allowed_origins p) then Inr ()
          else Inl (403, ''Forbidden: Origin is not allowed''))"

definition parse_host_header :: "authority_parser \<Rightarrow> headers \<Rightarrow> access_error + normalized_authority" where
  "parse_host_header parse h =
     (case hd_host h of
        None \<Rightarrow> Inl (400, ''Bad Request: missing Host header'')
      | Some HvOpaque \<Rightarrow> Inl (400, ''Bad Request: invalid Host header'')
      | Some (HvText host) \<Rightarrow>
          (case parse host of
             Some (name, port) \<Rightarrow> Inr (normalize_authority name port)
           | None \<Rightarrow> Inl (400, ''Bad Request: invalid Host header'')))"

definition validate_host :: "authority_parser \<Rightarrow> string \<Rightarrow> access_policy \<Rightarrow> headers \<Rightarrow> access_error + unit" where
  "validate_host parse bind p h =
     (case parse_host_header parse h of
        Inl e \<Rightarrow> Inl e
      | Inr host \<Rightarrow>
          if host_check_disabled p then Inr ()
          else if host_allowed_by_bind p host \<or> hosts_contain (ap_allowed_hosts p) host then Inr ()
          else Inl (403, ''Forbidden: Host header '' @ [CHR 39] @ authority_display host @ [CHR 39] @
                 '' is not allowed; '' @ host_policy_summary bind p))"

definition validate_headers :: "authority_parser \<Rightarrow> string \<Rightarrow> access_policy \<Rightarrow> headers \<Rightarrow> access_error + unit" where
  "validate_headers parse bind p h =
     (case validate_origin p h of Inl e \<Rightarrow> Inl e | Inr _ \<Rightarrow> validate_host parse bind p h)"

text \<open>The service: a refused request never reaches the inner service.\<close>

definition access_call ::
  "authority_parser \<Rightarrow> string \<Rightarrow> access_policy \<Rightarrow> ('req \<Rightarrow> headers) \<Rightarrow> ('req \<Rightarrow> 'resp) \<Rightarrow> (access_error \<Rightarrow> 'resp) \<Rightarrow> 'req \<Rightarrow> 'resp" where
  "access_call parse bind p headers_of inner text_response req =
     (case validate_headers parse bind p (headers_of req) of
        Inl e \<Rightarrow> text_response e
      | Inr _ \<Rightarrow> inner req)"

section \<open>Properties\<close>

lemma default_origins_cleaned: "clean_allowlist DEFAULT_ALLOW_ORIGIN = [''http://localhost'', ''http://127.0.0.1'']"
  by code_simp

lemma host_list_nonempty: "hosts \<noteq> [] \<Longrightarrow> host_list_loop parse raws hosts = AnyHost
    \<or> (\<exists>more. host_list_loop parse raws hosts = Restricted (hosts @ more))"
proof (induction raws arbitrary: hosts)
  case (Cons raw raws)
  have "host_list_loop parse raws (hosts @ [a]) = AnyHost \<or> (\<exists>more. host_list_loop parse raws (hosts @ [a]) = Restricted (hosts @ more))" for a
    using Cons.IH [of "hosts @ [a]"] by auto
  then show ?case using Cons by (auto simp: Let_def split: option.splits)
qed auto

text \<open>
  C16: A server that listens on a loopback address with the default flags cannot be driven by
  a foreign web page: a request passes exactly when it either has no Origin header or has one of
  the two default origins, http://localhost and http://127.0.0.1, and its Host header
  names localhost or a loopback address literal, with the server's port or none. Any other
  origin and any other host name, which is what a rebound DNS name would send, is refused.
\<close>

theorem default_policy_blocks_rebinding:
  assumes "is_loopback ip"
  shows "validate_headers parse bind (policy_from_cli parse ip port DEFAULT_ALLOW_ORIGIN None) h = Inr () \<longleftrightarrow>
    (hd_origin h = None \<or> hd_origin h = Some (HvText ''http://localhost'') \<or>
     hd_origin h = Some (HvText ''http://127.0.0.1'')) \<and>
    (\<exists>text name p. hd_host h = Some (HvText text) \<and> parse text = Some (name, p) \<and> (p = None \<or> p = Some port) \<and>
       (normalize_host name = ''localhost'' \<or>
        (\<exists>host_ip. parse_ip_addr (normalize_host name) = Some host_ip \<and> is_loopback host_ip)))"
proof -
  have unspec: "\<not> is_unspecified ip" using assms by (cases ip) auto
  define P where "P = policy_from_cli parse ip port DEFAULT_ALLOW_ORIGIN None"
  have allowed: "set (ap_allowed_origins P) = {''http://localhost'', ''http://127.0.0.1''}"
    unfolding P_def policy_from_cli_def access_policy.simps default_origins_cleaned by simp
  have origin: "validate_origin P h = Inr () \<longleftrightarrow>
      hd_origin h = None \<or> hd_origin h = Some (HvText ''http://localhost'') \<or>
      hd_origin h = Some (HvText ''http://127.0.0.1'')"
    unfolding validate_origin_def allowed by (auto split: option.splits header_value.splits)
  have bind: "host_allowed_by_bind P \<lparr>na_host = n, na_port = q\<rparr> \<longleftrightarrow> (q = None \<or> q = Some port) \<and>
      (n = ''localhost'' \<or> (\<exists>host_ip. parse_ip_addr n = Some host_ip \<and> is_loopback host_ip))" for n q
    using assms unspec parse_examples(4)
    by (auto simp: P_def host_allowed_by_bind_def policy_from_cli_def port_matches_def split: option.splits)
  have "validate_host parse bind P h = Inr () \<longleftrightarrow>
      (\<exists>text name p. hd_host h = Some (HvText text) \<and> parse text = Some (name, p) \<and>
         host_allowed_by_bind P \<lparr>na_host = normalize_host name, na_port = p\<rparr>)"
    by (auto simp: validate_host_def parse_host_header_def normalize_authority_def host_check_disabled_def P_def
        policy_from_cli_def hosts_from_cli_def split: option.splits header_value.splits)
  then show ?thesis
    unfolding P_def [symmetric] using origin bind
    by (auto simp: validate_headers_def split: sum.splits)
qed

theorem default_policy_blocks_rebinding_witness:
  "validate_headers (\<lambda>s. Some (s, Some 8765)) ''127.0.0.1:8765'' (policy_from_cli (\<lambda>s. Some (s, Some 8765)) (V4 [127, 0, 0, 1]) 8765 DEFAULT_ALLOW_ORIGIN None)
     \<lparr>hd_origin = Some (HvText ''http://localhost''), hd_host = Some (HvText ''localhost'')\<rparr> = Inr ()
   \<and> validate_headers (\<lambda>s. Some (s, Some 8765)) ''127.0.0.1:8765'' (policy_from_cli (\<lambda>s. Some (s, Some 8765)) (V4 [127, 0, 0, 1]) 8765 DEFAULT_ALLOW_ORIGIN None)
     \<lparr>hd_origin = Some (HvText ''http://evil.example''), hd_host = Some (HvText ''localhost'')\<rparr> \<noteq> Inr ()"
proof -
  have "normalize_host ''localhost'' = ''localhost''"
    by (simp add: normalize_host_def trim_matches_def to_ascii_lowercase_def ascii_lower_def)
  then show ?thesis
    using default_policy_blocks_rebinding [of "V4 [127, 0, 0, 1]"] by simp
qed

end
