(* ===== verification/Http_Sessions.thy ===== *)
theory Http_Sessions
  imports Prelude
begin

text \<open>
  \<open>src/src/server/http_config.rs\<close>: the pooled session manager, which closes an HTTP session some
  time after the client dropped its streams. The rmcp session manager itself is not
  modelled; the system below keeps the streams it has handed out, the cleanup timers and
  the sessions that were closed.
\<close>

section \<open>The disconnect registry\<close>

record disconnect_state =
  sd_generation :: u64
  sd_active_streams :: nat
  sd_abandoned_generation :: "u64 option"

type_synonym disconnects = "(string, disconnect_state) hashmap"

definition default_state :: disconnect_state where
  "default_state = \<lparr>sd_generation = 0, sd_active_streams = 0, sd_abandoned_generation = None\<rparr>"

text \<open>\<open>wrapping_add\<close> on the generation, \<open>saturating_add\<close> on the count.\<close>

definition stream_opened :: "string \<Rightarrow> disconnects \<Rightarrow> u64 \<times> disconnects" where
  "stream_opened sid states =
     (let state = (case hm_get states sid of Some st \<Rightarrow> st | None \<Rightarrow> default_state);
          g = sd_generation state + 1
      in (g, hm_insert sid
            \<lparr>sd_generation = g, sd_active_streams = min (sd_active_streams state + 1) USIZE_MAX,
             sd_abandoned_generation = None\<rparr> states))"

definition session_closed :: "string \<Rightarrow> disconnects \<Rightarrow> disconnects" where
  "session_closed sid states = hm_remove sid states"

text \<open>The generation for which a cleanup is scheduled, if any.\<close>

definition stream_closed :: "string \<Rightarrow> u64 \<Rightarrow> bool \<Rightarrow> disconnects \<Rightarrow> u64 option \<times> disconnects" where
  "stream_closed sid generation abandoned states =
     (case hm_get states sid of
        None \<Rightarrow> (None, states)
      | Some state \<Rightarrow>
          (let state1 = state\<lparr>sd_active_streams := sd_active_streams state - 1\<rparr>;
               state2 = (if abandoned then state1\<lparr>sd_abandoned_generation := Some generation\<rparr> else state1)
           in (if sd_active_streams state2 = 0 then sd_abandoned_generation state2 else None,
               hm_modify sid (\<lambda>_. state2) states)))"

definition should_close :: "string \<Rightarrow> u64 \<Rightarrow> disconnects \<Rightarrow> bool" where
  "should_close sid generation states =
     (case hm_get states sid of
        None \<Rightarrow> False
      | Some state \<Rightarrow> sd_abandoned_generation state = Some generation \<and> sd_active_streams state = 0)"

text \<open>A resumed stream counts as standalone when its event id names no request.\<close>

definition resume_close_on_drop :: "string \<Rightarrow> bool" where
  "resume_close_on_drop last_event_id \<longleftrightarrow> CHR ''/'' \<notin> set last_event_id"

section \<open>Streams\<close>

record stream_guard =
  sg_session :: string
  sg_generation :: u64

record tracked_stream =
  tk_guard :: "stream_guard option"
  tk_close_on_drop :: bool

definition tracked_new :: "stream_guard \<Rightarrow> bool \<Rightarrow> tracked_stream" where
  "tracked_new g close_on_drop = \<lparr>tk_guard = Some g, tk_close_on_drop = close_on_drop\<rparr>"

definition tracked_finish :: "bool \<Rightarrow> tracked_stream \<Rightarrow> disconnects \<Rightarrow> (string \<times> u64) option \<times> tracked_stream \<times> disconnects" where
  "tracked_finish abandoned t states =
     (case tk_guard t of
        None \<Rightarrow> (None, t, states)
      | Some g \<Rightarrow>
          (case stream_closed (sg_session g) (sg_generation g) abandoned states of
             (close, states1) \<Rightarrow> (map_option (Pair (sg_session g)) close, t\<lparr>tk_guard := None\<rparr>, states1)))"

text \<open>A stream that has ended finishes at once, and dropping it later does nothing more.\<close>

definition poll_ended :: "tracked_stream \<Rightarrow> disconnects \<Rightarrow> (string \<times> u64) option \<times> tracked_stream \<times> disconnects" where
  "poll_ended t states = tracked_finish False t states"

definition tracked_drop :: "tracked_stream \<Rightarrow> disconnects \<Rightarrow> (string \<times> u64) option \<times> tracked_stream \<times> disconnects" where
  "tracked_drop t states = tracked_finish (tk_close_on_drop t) t states"

text \<open>
  The calls of the session manager that hand out a stream; \<open>inner\<close> is the answer of the
  rmcp manager. A stream that could not be opened leaves the registry alone.
\<close>

definition tracked_open :: "'e + unit \<Rightarrow> string \<Rightarrow> bool \<Rightarrow> disconnects \<Rightarrow> ('e + tracked_stream) \<times> disconnects" where
  "tracked_open inner sid close_on_drop states =
     (case inner of
        Inl e \<Rightarrow> (Inl e, states)
      | Inr _ \<Rightarrow> (case stream_opened sid states of
          (g, states1) \<Rightarrow> (Inr (tracked_new \<lparr>sg_session = sid, sg_generation = g\<rparr> close_on_drop), states1)))"

definition create_stream :: "'e + unit \<Rightarrow> string \<Rightarrow> disconnects \<Rightarrow> ('e + tracked_stream) \<times> disconnects" where
  "create_stream inner sid = tracked_open inner sid False"

definition create_standalone_stream :: "'e + unit \<Rightarrow> string \<Rightarrow> disconnects \<Rightarrow> ('e + tracked_stream) \<times> disconnects" where
  "create_standalone_stream inner sid = tracked_open inner sid True"

definition resume_stream :: "'e + unit \<Rightarrow> string \<Rightarrow> string \<Rightarrow> disconnects \<Rightarrow> ('e + tracked_stream) \<times> disconnects" where
  "resume_stream inner sid last_event_id = tracked_open inner sid (resume_close_on_drop last_event_id)"

definition close_session :: "'e + unit \<Rightarrow> string \<Rightarrow> disconnects \<Rightarrow> ('e + unit) \<times> disconnects" where
  "close_session inner sid states =
     (case inner of Inl e \<Rightarrow> (Inl e, states) | Inr _ \<Rightarrow> (Inr (), session_closed sid states))"

section \<open>The configuration of the transport\<close>

record http_server_options =
  ho_sse_keep_alive_secs :: nat
  ho_stateless :: bool
  ho_json_response :: bool
  ho_max_request_body_mib :: nat

record streamable_config =
  sc_sse_keep_alive :: "nat option"
  sc_sse_retry :: "nat option"
  sc_legacy_session_mode :: bool
  sc_json_response :: bool
  sc_max_request_body_bytes :: nat
  sc_allowed_hosts :: "string list"

definition BYTES_PER_MIB :: nat where "BYTES_PER_MIB = 1024 * 1024"

text \<open>\<open>saturating_mul\<close> on the body cap; seconds are whole durations.\<close>

definition build_streamable_config :: "http_server_options \<Rightarrow> streamable_config" where
  "build_streamable_config opts =
     \<lparr>sc_sse_keep_alive = (if ho_sse_keep_alive_secs opts = 0 then None else Some (ho_sse_keep_alive_secs opts)),
      sc_sse_retry = None,
      sc_legacy_session_mode = (\<not> ho_stateless opts),
      sc_json_response = ho_json_response opts,
      sc_max_request_body_bytes = min (ho_max_request_body_mib opts * BYTES_PER_MIB) USIZE_MAX,
      sc_allowed_hosts = []\<rparr>"

text \<open>The keep-alive and retry settings of the session manager.\<close>

definition session_manager_with_keep_alive :: "nat \<Rightarrow> nat option \<times> nat option" where
  "session_manager_with_keep_alive secs = (if secs = 0 then None else Some secs, None)"

lemma body_cap_saturates:
  "sc_max_request_body_bytes (build_streamable_config opts) \<le> USIZE_MAX
   \<and> (sc_max_request_body_bytes (build_streamable_config opts) < USIZE_MAX \<longrightarrow>
        sc_max_request_body_bytes (build_streamable_config opts) = ho_max_request_body_mib opts * BYTES_PER_MIB)"
  by (auto simp: build_streamable_config_def min_def)

section \<open>The system\<close>

record session_sys =
  ss_states :: disconnects
  ss_streams :: "tracked_stream list"
  ss_timers :: "(string \<times> u64 \<times> instant) list"
  ss_closed :: "string list"
  ss_last_open :: "string \<Rightarrow> instant"
  ss_now :: instant

definition session_start :: session_sys where
  "session_start = \<lparr>ss_states = [], ss_streams = [], ss_timers = [], ss_closed = [], ss_last_open = (\<lambda>_. 0), ss_now = 0\<rparr>"

definition set_timer :: "(string \<times> u64) option \<Rightarrow> session_sys \<Rightarrow> session_sys" where
  "set_timer close s =
     (case close of Some (sid, g) \<Rightarrow> s\<lparr>ss_timers := (sid, g, ss_now s) # ss_timers s\<rparr> | None \<Rightarrow> s)"

text \<open>
  The cleanup of a timer checks \<open>should_close\<close> and then closes the session, in two steps.
  A generation counter that would wrap, after two to the 64 streams of one session, is
  left out.
\<close>

inductive session_step :: "duration \<Rightarrow> session_sys \<Rightarrow> session_sys \<Rightarrow> bool" for grace where
  session_tick: "ss_now s \<le> t \<Longrightarrow> session_step grace s (s\<lparr>ss_now := t\<rparr>)"
| session_open: "stream_opened sid (ss_states s) = (g, states) \<Longrightarrow> g \<noteq> 0 \<Longrightarrow> length (ss_streams s) < USIZE_MAX \<Longrightarrow>
    session_step grace s (s\<lparr>ss_states := states, ss_last_open := (ss_last_open s)(sid := ss_now s),
      ss_streams := tracked_new \<lparr>sg_session = sid, sg_generation = g\<rparr> cod # ss_streams s\<rparr>)"
| session_end: "ss_streams s = xs @ t # ys \<Longrightarrow> poll_ended t (ss_states s) = (close, t', states) \<Longrightarrow>
    session_step grace s (set_timer close (s\<lparr>ss_states := states, ss_streams := xs @ t' # ys\<rparr>))"
| session_drop: "ss_streams s = xs @ t # ys \<Longrightarrow> tracked_drop t (ss_states s) = (close, t', states) \<Longrightarrow>
    session_step grace s (set_timer close (s\<lparr>ss_states := states, ss_streams := xs @ ys\<rparr>))"
| session_fire_keep: "(sid, g, t) \<in> set (ss_timers s) \<Longrightarrow> t + grace \<le> ss_now s \<Longrightarrow> \<not> should_close sid g (ss_states s) \<Longrightarrow>
    session_step grace s (s\<lparr>ss_timers := remove1 (sid, g, t) (ss_timers s)\<rparr>)"
| session_close: "session_step grace s (s\<lparr>ss_states := session_closed sid (ss_states s), ss_closed := sid # ss_closed s\<rparr>)"

inductive_cases session_stepE: "session_step grace s s'"

text \<open>Each call that hands out a stream is an opening step.\<close>

lemma tracked_open_step:
  assumes "tracked_open inner sid cod (ss_states s) = (Inr k, states)" "\<exists>gd. tk_guard k = Some gd \<and> sg_generation gd \<noteq> 0"
    and "length (ss_streams s) < USIZE_MAX"
  shows "session_step grace s (s\<lparr>ss_states := states, ss_last_open := (ss_last_open s)(sid := ss_now s),
      ss_streams := k # ss_streams s\<rparr>)"
proof -
  obtain g where g: "stream_opened sid (ss_states s) = (g, states)"
    "k = tracked_new \<lparr>sg_session = sid, sg_generation = g\<rparr> cod"
    using assms(1) by (auto simp: tracked_open_def split: sum.splits prod.splits)
  then have "g \<noteq> 0" using assms(2) by (simp add: tracked_new_def)
  from session_open [OF g(1) this assms(3), of grace cod] show ?thesis by (simp add: g(2))
qed

lemmas stream_call_steps =
  tracked_open_step [where cod = False, folded create_stream_def]
  tracked_open_step [where cod = True, folded create_standalone_stream_def]
  tracked_open_step [where cod = "resume_close_on_drop last_event_id" for last_event_id, folded resume_stream_def]

text \<open>The guards that are still armed for a session.\<close>

definition guards :: "tracked_stream list \<Rightarrow> stream_guard list" where
  "guards ts = concat (map (\<lambda>t. case tk_guard t of Some g \<Rightarrow> [g] | None \<Rightarrow> []) ts)"

definition armed :: "string \<Rightarrow> session_sys \<Rightarrow> u64 list" where
  "armed sid s = map sg_generation (filter (\<lambda>g. sg_session g = sid) (guards (ss_streams s)))"

definition state_ok :: "string \<Rightarrow> session_sys \<Rightarrow> bool" where
  "state_ok sid s \<longleftrightarrow>
     (case hm_get (ss_states s) sid of
        None \<Rightarrow> armed sid s = [] \<and> (\<forall>g t. (sid, g, t) \<notin> set (ss_timers s))
      | Some st \<Rightarrow>
          sd_active_streams st = length (armed sid s) \<and> distinct (armed sid s)
          \<and> (\<forall>g \<in> set (armed sid s). g \<le> sd_generation st)
          \<and> (\<forall>g. sd_abandoned_generation st = Some g \<longrightarrow> g \<le> sd_generation st)
          \<and> (\<forall>g t. (sid, g, t) \<in> set (ss_timers s) \<longrightarrow> g \<le> sd_generation st \<and> g \<notin> set (armed sid s)
               \<and> (sd_abandoned_generation st = Some g \<longrightarrow> armed sid s = [] \<and> ss_last_open s sid \<le> t)))"

definition session_inv :: "session_sys \<Rightarrow> bool" where
  "session_inv s \<longleftrightarrow> hm_wf (ss_states s) \<and> (\<forall>sid. ss_last_open s sid \<le> ss_now s)
     \<and> (\<forall>sid. sid \<notin> set (ss_closed s) \<longrightarrow> state_ok sid s)"

lemma word_succ_greater: "a + 1 \<noteq> 0 \<Longrightarrow> a < a + (1 :: u64)"
  using unatSuc [of a] by (simp add: word_less_nat_alt add.commute)

lemma guards_simps [simp]:
  "guards [] = []" "guards (t # ts) = (case tk_guard t of Some g \<Rightarrow> [g] | None \<Rightarrow> []) @ guards ts"
  "guards (xs @ ys) = guards xs @ guards ys"
  by (simp_all add: guards_def)

lemma guards_length: "length (guards ts) \<le> length ts"
  by (induction ts) (auto split: option.splits)

lemma in_guards: "gd \<in> set (guards ts) \<longleftrightarrow> (\<exists>k \<in> set ts. tk_guard k = Some gd)"
  by (auto simp: guards_def split: option.splits intro: bexI [rotated])

lemma state_ok_other:
  assumes "state_ok sid s" "hm_get (ss_states s') sid = hm_get (ss_states s) sid" "armed sid s' = armed sid s"
    and "\<And>g t. (sid, g, t) \<in> set (ss_timers s') \<Longrightarrow> (sid, g, t) \<in> set (ss_timers s)" "ss_last_open s' sid = ss_last_open s sid"
  shows "state_ok sid s'"
proof (cases "hm_get (ss_states s) sid")
  case None
  with assms show ?thesis by (auto simp: state_ok_def)
next
  case (Some st)
  have "(sid, g, t) \<in> set (ss_timers s)" if "(sid, g, t) \<in> set (ss_timers s')" for g t using assms(4) that .
  with Some assms(1,2,3,5) show ?thesis unfolding state_ok_def by simp blast
qed

lemma set_timer_simps [simp]:
  "ss_states (set_timer c s) = ss_states s" "ss_streams (set_timer c s) = ss_streams s" "ss_closed (set_timer c s) = ss_closed s"
  "ss_last_open (set_timer c s) = ss_last_open s" "ss_now (set_timer c s) = ss_now s" "armed sid (set_timer c s) = armed sid s"
  by (auto simp: set_timer_def armed_def split: option.splits prod.splits)

lemma set_timer_timers:
  "set (ss_timers (set_timer c s)) = set (ss_timers s) \<union> {(sid, g, ss_now s) | sid g. c = Some (sid, g)}"
  by (auto simp: set_timer_def split: option.splits)

lemma finish_inv:
  assumes inv: "session_inv s" and streams: "ss_streams s = xs @ t # ys" "guards zs = guards xs @ guards ys"
    and fin: "tracked_finish ab t (ss_states s) = (close, t', states)"
  shows "session_inv (set_timer close (s\<lparr>ss_states := states, ss_streams := zs\<rparr>))"
proof (cases "tk_guard t")
  case None
  then have "close = None" "states = ss_states s" using fin by (simp_all add: tracked_finish_def)
  moreover have "armed sid (s\<lparr>ss_states := ss_states s, ss_streams := zs\<rparr>) = armed sid s" for sid
    using streams None by (simp add: armed_def)
  ultimately show ?thesis using inv
    by (auto simp: session_inv_def set_timer_def intro: state_ok_other)
next
  case (Some gd)
  obtain sid g where gd: "sg_session gd = sid" "sg_generation gd = g" by blast
  define s' where "s' = set_timer close (s\<lparr>ss_states := states, ss_streams := zs\<rparr>)"
  have wf: "hm_wf (ss_states s)" using inv by (simp add: session_inv_def)
  obtain c where c: "stream_closed sid g ab (ss_states s) = (c, states)" "close = map_option (Pair sid) c"
    using fin Some gd by (auto simp: tracked_finish_def split: prod.splits)
  have other: "hm_get states sid' = hm_get (ss_states s) sid'" if "sid' \<noteq> sid" for sid'
    using c(1) wf that by (auto simp: stream_closed_def Let_def hm.map_laws split: option.splits)
  have wf': "hm_wf states"
    using c(1) wf by (auto simp: stream_closed_def Let_def hm.map_laws split: option.splits)
  have armed_other: "armed sid' s' = armed sid' s" if "sid' \<noteq> sid" for sid'
    using streams Some gd that by (simp add: s'_def armed_def)
  obtain A B where AB: "armed sid s = A @ g # B" "armed sid s' = A @ B"
    using streams Some gd by (auto simp: s'_def armed_def)
  have "state_ok sid' s'" if open_sid: "sid' \<notin> set (ss_closed s)" for sid'
  proof (cases "sid' = sid")
    case False
    moreover have "state_ok sid' s" using inv open_sid by (simp add: session_inv_def)
    ultimately show ?thesis using c(2) other armed_other
      by (auto simp: s'_def set_timer_timers intro: state_ok_other)
  next
    case True
    have ok: "state_ok sid s" using inv open_sid True by (simp add: session_inv_def)
    then obtain st where st: "hm_get (ss_states s) sid = Some st"
      using AB(1) by (auto simp: state_ok_def split: option.splits)
    have last: "ss_last_open s sid \<le> ss_now s" using inv by (simp add: session_inv_def)
    from c(1) st have states: "hm_get states sid = Some (if ab then st\<lparr>sd_active_streams := sd_active_streams st - 1, sd_abandoned_generation := Some g\<rparr>
        else st\<lparr>sd_active_streams := sd_active_streams st - 1\<rparr>)"
      and c': "c = (if sd_active_streams st - 1 = 0 then (if ab then Some g else sd_abandoned_generation st) else None)"
      using wf by (auto simp: stream_closed_def Let_def hm.map_laws split: if_splits)
    have nonempty: "(sid, g', t0) \<in> set (ss_timers s) \<Longrightarrow> g' \<noteq> g \<and> sd_abandoned_generation st \<noteq> Some g'" for g' t0
      using ok st AB(1) by (auto simp: state_ok_def)
    show ?thesis
      using ok st AB states c' c(2) last nonempty True unfolding s'_def
      by (auto simp: state_ok_def set_timer_timers split: if_splits)
  qed
  then show ?thesis using inv wf' by (simp add: s'_def session_inv_def)
qed

lemma session_inv_step:
  assumes "session_inv s" "session_step grace s s'"
  shows "session_inv s'"
  using assms(2)
proof (cases rule: session_step.cases)
  case (session_tick t)
  then show ?thesis using assms(1)
    by (auto simp: session_inv_def armed_def intro: state_ok_other order_trans)
next
  case (session_open sid g states cod)
  have wf: "hm_wf (ss_states s)" using assms(1) by (simp add: session_inv_def)
  have states: "states = hm_insert sid \<lparr>sd_generation = g,
      sd_active_streams = min (sd_active_streams (case hm_get (ss_states s) sid of Some st \<Rightarrow> st | None \<Rightarrow> default_state) + 1) USIZE_MAX,
      sd_abandoned_generation = None\<rparr> (ss_states s)"
    and g: "g = sd_generation (case hm_get (ss_states s) sid of Some st \<Rightarrow> st | None \<Rightarrow> default_state) + 1"
    using session_open(2) by (auto simp: stream_opened_def Let_def)
  have armed: "armed sid' s' = (if sid' = sid then g # armed sid' s else armed sid' s)" for sid'
    by (simp add: session_open(1) armed_def tracked_new_def)
  have count: "length (armed sid s) < USIZE_MAX"
    unfolding armed_def length_map
    by (rule le_less_trans [OF length_filter_le le_less_trans [OF guards_length session_open(4)]])
  have "state_ok sid' s'" if "sid' \<notin> set (ss_closed s)" for sid'
  proof (cases "sid' = sid")
    case False
    then show ?thesis using assms(1) that wf armed
      by (auto simp: session_inv_def session_open(1) states hm.map_laws intro: state_ok_other)
  next
    case True
    have ok: "state_ok sid s" using assms(1) that True by (simp add: session_inv_def)
    have fresh: "x < g" if "x \<le> sd_generation (case hm_get (ss_states s) sid of Some st \<Rightarrow> st | None \<Rightarrow> default_state)" for x
      using that session_open(3) unfolding g by (rule le_less_trans [OF _ word_succ_greater])
    show ?thesis
    proof (cases "hm_get (ss_states s) sid")
      case None
      with ok wf armed [of sid] count True show ?thesis unfolding session_open(1) states
        by (auto simp: state_ok_def hm.map_laws default_state_def)
    next
      case (Some st)
      have old: "\<forall>x \<in> set (armed sid s). x \<le> g \<and> x \<noteq> g"
        "\<forall>x t. (sid, x, t) \<in> set (ss_timers s) \<longrightarrow> x \<le> g \<and> x \<noteq> g \<and> x \<notin> set (armed sid s)"
        using ok Some fresh by (fastforce simp: state_ok_def)+
      have "sd_active_streams st = length (armed sid s)" "distinct (armed sid s)" using ok Some by (simp_all add: state_ok_def)
      with Some wf armed [of sid] count True old show ?thesis unfolding session_open(1) states
        by (auto simp: state_ok_def hm.map_laws)
    qed
  qed
  then show ?thesis using assms(1) wf by (auto simp: session_inv_def session_open(1) states hm.map_laws)
next
  case (session_end xs t ys close t' states)
  have "tk_guard t' = None" using session_end(3) by (auto simp: poll_ended_def tracked_finish_def split: option.splits prod.splits)
  then show ?thesis unfolding session_end(1)
    by (intro finish_inv [OF assms(1) session_end(2) _ session_end(3) [unfolded poll_ended_def]]) simp
next
  case (session_drop xs t ys close t' states)
  show ?thesis unfolding session_drop(1)
    by (rule finish_inv [OF assms(1) session_drop(2) _ session_drop(3) [unfolded tracked_drop_def]]) simp
next
  case (session_fire_keep sid g t)
  have "state_ok sid' s'" if "sid' \<notin> set (ss_closed s)" for sid'
  proof (rule state_ok_other)
    show "state_ok sid' s" using assms(1) that by (simp add: session_inv_def)
    show "(sid', g', t') \<in> set (ss_timers s)" if "(sid', g', t') \<in> set (ss_timers s')" for g' t'
      using that unfolding session_fire_keep(1)
      using set_remove1_subset [of "(sid, g, t)" "ss_timers s"] by auto
  qed (simp_all add: session_fire_keep(1) armed_def)
  then show ?thesis using assms(1) by (simp add: session_inv_def session_fire_keep(1))
next
  case (session_close sid)
  then show ?thesis using assms(1)
    by (auto simp: session_inv_def session_closed_def hm.map_laws armed_def intro: state_ok_other)
qed

lemma session_inv_start: "session_inv session_start"
  by (simp add: session_inv_def session_start_def state_ok_def hm_get_def armed_def)

interpretation sessions: invariant_system "\<lambda>s. s = session_start" "session_step grace" session_inv for grace
  by unfold_locales (auto intro: session_inv_start session_inv_step)

section \<open>Properties\<close>

text \<open>
  The cleanup of an abandoned HTTP session never hits one that is in use: whenever a timer
  decides to close a session, the session has no open stream, its last abandoned stream
  was dropped at least the grace period ago, and no stream was opened since, in every
  interleaving of streams that open, end, are dropped and of timers.
\<close>

theorem disconnect_cleanup_safe:
  assumes "reach (\<lambda>s. s = session_start) (session_step grace) s"
    and "(sid, g, t) \<in> set (ss_timers s)" and "t + grace \<le> ss_now s" and "should_close sid g (ss_states s)"
    and "sid \<notin> set (ss_closed s)"
  shows "(\<nexists>k gd. k \<in> set (ss_streams s) \<and> tk_guard k = Some gd \<and> sg_session gd = sid) \<and> ss_last_open s sid + grace \<le> ss_now s"
proof -
  have ok: "state_ok sid s" using sessions.reach_inv [OF assms(1)] assms(5) by (simp add: session_inv_def)
  obtain st where "hm_get (ss_states s) sid = Some st" "sd_abandoned_generation st = Some g"
    using assms(4) by (auto simp: should_close_def split: option.splits)
  with ok assms(2) have "armed sid s = []" "ss_last_open s sid \<le> t" by (auto simp: state_ok_def)
  then have "\<forall>gd \<in> set (guards (ss_streams s)). sg_session gd \<noteq> sid"
    by (simp add: armed_def filter_empty_conv)
  then have "\<nexists>k gd. k \<in> set (ss_streams s) \<and> tk_guard k = Some gd \<and> sg_session gd = sid"
    by (metis in_guards)
  moreover have "ss_last_open s sid + grace \<le> ss_now s" using \<open>ss_last_open s sid \<le> t\<close> assms(3) by simp
  ultimately show ?thesis by simp
qed

text \<open>A session whose only stream was dropped at time 3, seen at time 10.\<close>

definition demo_session :: session_sys where
  "demo_session = \<lparr>ss_states = [(''s'', \<lparr>sd_generation = 1, sd_active_streams = 0, sd_abandoned_generation = Some 1\<rparr>)],
     ss_streams = [], ss_timers = [(''s'', 1, 3)], ss_closed = [], ss_last_open = (\<lambda>_. 0)(''s'' := 0), ss_now = 10\<rparr>"

lemma demo_session_reach: "reach (\<lambda>s. s = session_start) (session_step 5) demo_session"
proof -
  let ?st = "\<lambda>n a. [(''s'', \<lparr>sd_generation = 1, sd_active_streams = n, sd_abandoned_generation = a\<rparr>)]"
  let ?k = "tracked_new \<lparr>sg_session = ''s'', sg_generation = 1\<rparr> True"
  define s1 where "s1 = session_start\<lparr>ss_states := ?st 1 None, ss_last_open := (\<lambda>_. 0)(''s'' := 0), ss_streams := [?k]\<rparr>"
  define s2 where "s2 = s1\<lparr>ss_now := 3\<rparr>"
  define s3 where "s3 = set_timer (Some (''s'', 1)) (s2\<lparr>ss_states := ?st 0 (Some 1), ss_streams := []\<rparr>)"
  have big: "1 \<le> USIZE_MAX" unfolding USIZE_MAX_def by simp
  have opened: "stream_opened ''s'' (ss_states session_start) = (1, ?st 1 None)"
    using big by (simp add: stream_opened_def session_start_def hm_get_def hm_insert_def hm_remove_def default_state_def min_def)
  have "length (ss_streams session_start) < USIZE_MAX" using big by (simp add: session_start_def)
  from session_open [OF opened one_neq_zero this, of 5 True]
  have step1: "session_step 5 session_start s1" unfolding s1_def by (simp add: session_start_def)
  have "ss_now s1 \<le> 3" by (simp add: s1_def session_start_def)
  then have step2: "session_step 5 s1 s2" unfolding s2_def by (rule session_tick)
  have dropped: "tracked_drop ?k (ss_states s2) = (Some (''s'', 1), ?k\<lparr>tk_guard := None\<rparr>, ?st 0 (Some 1))"
    by (simp add: s2_def s1_def tracked_drop_def tracked_finish_def tracked_new_def stream_closed_def hm_get_def hm_modify_def Let_def)
  have "ss_streams s2 = [] @ ?k # []" by (simp add: s2_def s1_def)
  from session_drop [OF this dropped, of 5]
  have step3: "session_step 5 s2 s3" unfolding s3_def by simp
  have "ss_now s3 \<le> 10" by (simp add: s3_def s2_def)
  then have "session_step 5 s3 (s3\<lparr>ss_now := 10\<rparr>)" by (rule session_tick)
  moreover have "s3\<lparr>ss_now := 10\<rparr> = demo_session"
    by (simp add: s3_def s2_def s1_def demo_session_def session_start_def set_timer_def)
  ultimately have step4: "session_step 5 s3 demo_session" by simp
  have "reach (\<lambda>s. s = session_start) (session_step 5) session_start" by (rule reach_init) simp
  then have "reach (\<lambda>s. s = session_start) (session_step 5) s1" by (rule reach_step) (rule step1)
  then have "reach (\<lambda>s. s = session_start) (session_step 5) s2" by (rule reach_step) (rule step2)
  then have "reach (\<lambda>s. s = session_start) (session_step 5) s3" by (rule reach_step) (rule step3)
  then show ?thesis by (rule reach_step) (rule step4)
qed

theorem disconnect_cleanup_safe_witness: "ss_last_open demo_session ''s'' + 5 \<le> ss_now demo_session"
  using disconnect_cleanup_safe [OF demo_session_reach, of "''s''" 1 3]
  by (simp add: demo_session_def should_close_def hm_get_def)

end
