(* ===== verification/Ida_View.thy ===== *)
theory Ida_View
  imports Remote
begin

text \<open>
  \<open>src/src/ida/handlers/mod.rs\<close>: what the handlers share. The IDA database itself is the
  idalib binding, code that is not part of the repository: a handler gets it as a record of
  the queries it may ask. The chains of cross references, functions, names and segments that
  the binding walks with \<open>first\<close> and \<open>next\<close> calls are lists.
\<close>

section \<open>The database as the handlers see it\<close>

record func_view =
  fv_start :: u64
  fv_end :: u64
  fv_name :: "string option"
  fv_len :: nat

record name_view =
  nv_address :: u64
  nv_name :: string
  nv_is_public :: bool
  nv_is_weak :: bool

record seg_view =
  sv_start :: u64
  sv_end :: u64
  sv_len :: nat
  sv_is_extern :: bool
  sv_is_import :: bool

datatype xref_type = NearCall | FarCall | OtherXref string

record xref_view =
  xv_from :: u64
  xv_to :: u64
  xv_type :: xref_type
  xv_is_code :: bool

record insn_view =
  iv_len :: nat
  iv_is_call :: bool
  iv_branch_targets :: "u64 option list"

text \<open>
  \<open>iv_branch_targets\<close> lists the operands of the instruction in order: the address of a near
  or far operand, nothing for an operand of another kind.
\<close>

record block_view =
  bv_start :: u64
  bv_end :: u64
  bv_succs :: "u64 list"

record udt_view =
  uv_ordinal :: u32
  uv_name :: string
  uv_size :: u64
  uv_is_union :: bool
  uv_member_count :: nat

record member_view =
  mv_name :: string
  mv_type_name :: string
  mv_offset_bits :: u64
  mv_size_bits :: u64
  mv_is_bitfield :: bool

record local_type_view =
  lt_ordinal :: u32
  lt_name :: string
  lt_decl :: string
  lt_kind :: string

record idb =
  db_functions :: "func_view list"
  db_function_at :: "u64 \<Rightarrow> func_view option"
  db_names :: "name_view list"
  db_has_name :: "u64 \<Rightarrow> bool"
  db_closest_name :: "u64 \<Rightarrow> name_view option"
  db_segments :: "seg_view list"
  db_segment_at :: "u64 \<Rightarrow> seg_view option"
  db_strings :: "(u64 \<times> string) list"
  db_get_bytes :: "u64 \<Rightarrow> nat \<Rightarrow> u8 list"
  db_insn_at :: "u64 \<Rightarrow> insn_view option"
  db_next_head :: "u64 \<Rightarrow> u64 option"
  db_next_head_with :: "u64 \<Rightarrow> u64 \<Rightarrow> u64 option"
  db_disasm_line :: "u64 \<Rightarrow> string option"
  db_address_name :: "u64 \<Rightarrow> string option"
  db_xrefs_from :: "u64 \<Rightarrow> xref_view list"
  db_xrefs_to :: "u64 \<Rightarrow> xref_view list"
  db_cfg :: "u64 \<Rightarrow> string + block_view list"
  db_contains :: "u64 \<Rightarrow> u64 \<Rightarrow> bool"
  db_udt_limit :: nat
  db_udt_info :: "nat \<Rightarrow> udt_view option"
  db_udt_member :: "u32 \<Rightarrow> nat \<Rightarrow> member_view option"
  db_udt_member_tid :: "u32 \<Rightarrow> nat \<Rightarrow> u64 option"
  db_local_type :: "nat \<Rightarrow> local_type_view option"
  db_tid_xrefs :: "u64 \<Rightarrow> xref_view list"

text \<open>
  \<open>db_cfg\<close> is the flow chart of the function that starts at an address, \<open>db_contains f a\<close>
  whether that function contains \<open>a\<close>.
\<close>

text \<open>Every handler starts by asking for the open database.\<close>

definition with_db :: "idb option \<Rightarrow> (idb \<Rightarrow> tool_error + 'a) \<Rightarrow> tool_error + 'a" where
  "with_db idb f = (case idb of None \<Rightarrow> Inl NoDatabaseOpen | Some db \<Rightarrow> f db)"

definition show_addr :: "u64 \<Rightarrow> string" where
  "show_addr a = show_hex (unat a)"

text \<open>\<open>func.name().unwrap_or_else(|| format!("sub_{:x}", start))\<close>\<close>

definition func_name :: "func_view \<Rightarrow> string" where
  "func_name f = (case fv_name f of Some n \<Rightarrow> n | None \<Rightarrow> ''sub_'' @ show_base 16 (unat (fv_start f)))"

section \<open>Addresses\<close>

definition has_prefix :: "string \<Rightarrow> string \<Rightarrow> bool" where
  "has_prefix p s \<longleftrightarrow> take (length p) s = p"

definition parse_radix :: "nat \<Rightarrow> string \<Rightarrow> string \<Rightarrow> tool_error + u64" where
  "parse_radix radix digits s =
     (case from_str_radix radix (2 ^ 64) digits of Some n \<Rightarrow> Inr (of_nat n) | None \<Rightarrow> Inl (InvalidAddress s))"

definition parse_address_str :: "string \<Rightarrow> tool_error + u64" where
  "parse_address_str s0 =
     (let s = trim s0
      in if has_prefix ''0x'' s \<or> has_prefix ''0X'' s then parse_radix 16 (drop 2 s) s
         else if has_prefix ''0b'' s \<or> has_prefix ''0B'' s then parse_radix 2 (drop 2 s) s
         else if has_prefix ''0o'' s \<or> has_prefix ''0O'' s then parse_radix 8 (drop 2 s) s
         else parse_radix 10 s s)"

definition try_parse_address :: "string \<Rightarrow> u64 option" where
  "try_parse_address s = (case parse_address_str s of Inr a \<Rightarrow> Some a | Inl _ \<Rightarrow> None)"

text \<open>\<open>u64::checked_add_signed\<close>\<close>

definition checked_add_signed :: "u64 \<Rightarrow> int \<Rightarrow> u64 option" where
  "checked_add_signed base offset =
     (let r = uint base + offset in if 0 \<le> r \<and> r < 2 ^ 64 then Some (word_of_int r) else None)"

definition out_of_range_error :: "u64 \<Rightarrow> int \<Rightarrow> tool_error" where
  "out_of_range_error base offset =
     InvalidParams (''offset '' @ show_int offset @ '' produces an out-of-range address from base '' @ show_addr base)"

text \<open>Discovery tools match a name loosely: the first function or name that contains it.\<close>

definition resolve_address_by_name :: "idb option \<Rightarrow> string \<Rightarrow> tool_error + u64" where
  "resolve_address_by_name idb name =
     with_db idb (\<lambda>db.
       case find (\<lambda>f. case fv_name f of Some n \<Rightarrow> n = name \<or> str_contains name n | None \<Rightarrow> False) (db_functions db) of
         Some f \<Rightarrow> Inr (fv_start f)
       | None \<Rightarrow>
           (case find (\<lambda>i. nv_name i = name \<or> str_contains name (nv_name i)) (db_names db) of
              Some i \<Rightarrow> Inr (nv_address i)
            | None \<Rightarrow> Inl (FunctionNameNotFound name)))"

definition resolve_address :: "idb option \<Rightarrow> u64 option \<Rightarrow> string option \<Rightarrow> int \<Rightarrow> tool_error + u64" where
  "resolve_address idb addr name offset =
     (let base = (case addr of
                    Some a \<Rightarrow> Inr a
                  | None \<Rightarrow> (case name of
                      Some n \<Rightarrow> resolve_address_by_name idb n
                    | None \<Rightarrow> Inl (InvalidParams ''expected address or name'')))
      in case base of
           Inl e \<Rightarrow> Inl e
         | Inr b \<Rightarrow> (case checked_add_signed b offset of
               Some a \<Rightarrow> Inr a | None \<Rightarrow> Inl (out_of_range_error b offset)))"

section \<open>Text and byte patterns\<close>

definition checked_text :: "string \<Rightarrow> string \<Rightarrow> nat \<Rightarrow> tool_error + unit" where
  "checked_text value field max_len =
     (if value = [] \<or> max_len < length value \<or> CHR 0x00 \<in> set value
      then Inl (InvalidParams (field @ '' must contain 1'' @ [CHR 0xE2, CHR 0x80, CHR 0x93] @ show_nat max_len
                  @ '' bytes and no NUL''))
      else Inr ())"

definition hex_byte :: "u8 \<Rightarrow> string" where
  "hex_byte b = zero_pad 2 (show_base 16 (unat b))"

definition hex_encode :: "u8 list \<Rightarrow> string" where
  "hex_encode bytes = concat (map hex_byte bytes)"

text \<open>\<open>String::from_utf8_lossy\<close> of a chunk of two bytes: what is not UTF-8 becomes U+FFFD.\<close>

definition FFFD :: string where "FFFD = [CHR 0xEF, CHR 0xBF, CHR 0xBD]"

definition utf8_second :: "nat \<Rightarrow> nat \<Rightarrow> bool" where
  "utf8_second c d \<longleftrightarrow>
     (c = 0xE0 \<and> 0xA0 \<le> d \<and> d \<le> 0xBF) \<or> (c = 0xED \<and> 0x80 \<le> d \<and> d \<le> 0x9F)
     \<or> (0xE1 \<le> c \<and> c \<le> 0xEF \<and> c \<noteq> 0xED \<and> 0x80 \<le> d \<and> d \<le> 0xBF)
     \<or> (c = 0xF0 \<and> 0x90 \<le> d \<and> d \<le> 0xBF) \<or> (0xF1 \<le> c \<and> c \<le> 0xF3 \<and> 0x80 \<le> d \<and> d \<le> 0xBF)
     \<or> (c = 0xF4 \<and> 0x80 \<le> d \<and> d \<le> 0x8F)"

definition lossy_byte :: "char \<Rightarrow> string" where
  "lossy_byte c = (if (of_char c :: nat) < 128 then [c] else FFFD)"

definition lossy_pair :: "char \<Rightarrow> char \<Rightarrow> string" where
  "lossy_pair c d =
     (let m = of_char c; n = of_char d
      in if 0xC2 \<le> m \<and> m \<le> 0xDF \<and> 0x80 \<le> n \<and> n \<le> (0xBF :: nat) then [c, d]
         else if utf8_second m n then FFFD
         else lossy_byte c @ lossy_byte d)"

fun chunk_pairs :: "string \<Rightarrow> string list" where
  "chunk_pairs (c # d # cs) = lossy_pair c d # chunk_pairs cs"
| "chunk_pairs [c] = [lossy_byte c]"
| "chunk_pairs [] = []"

text \<open>\<open>trim_start_matches("0x")\<close>\<close>

fun trim_start_0x :: "string \<Rightarrow> string" where
  "trim_start_0x (c # d # cs) = (if c = CHR ''0'' \<and> d = CHR ''x'' then trim_start_0x cs else c # d # cs)"
| "trim_start_0x s = s"

fun pattern_bytes :: "string list \<Rightarrow> tool_error + u8 option list" where
  "pattern_bytes [] = Inr []"
| "pattern_bytes (tok # toks) =
     (if tok = ''?'' \<or> tok = ''??'' then map_sum id (Cons None) (pattern_bytes toks)
      else case from_str_radix 16 256 (trim_start_0x tok) of
        None \<Rightarrow> Inl (IdaError (''invalid byte: '' @ tok))
      | Some b \<Rightarrow> map_sum id (Cons (Some (of_nat b))) (pattern_bytes toks))"

definition parse_pattern :: "string \<Rightarrow> tool_error + u8 option list" where
  "parse_pattern pattern =
     (let trimmed = trim pattern
      in if trimmed = [] then Inl (IdaError ''empty pattern'')
         else if CHR '' '' \<in> set trimmed then pattern_bytes (split_whitespace trimmed)
         else if odd (length trimmed) then Inl (IdaError (''invalid hex pattern length: '' @ trimmed))
         else pattern_bytes (chunk_pairs trimmed))"

section \<open>Round trips\<close>

lemma parse_show_addr [simp]: "parse_address_str (show_addr a) = Inr a"
proof -
  have "plain (show_base 16 (unat a))" by (rule plain_show_base) simp_all
  then have "trim (show_addr a) = show_addr a"
    by (intro trim_plain) (auto simp: show_addr_def show_hex_def plain_char_def ascii_lower_def ascii_white_def)
  moreover have "from_str_radix 16 (2 ^ 64) (show_base 16 (unat a)) = Some (unat a)"
    using unsigned_less [of a] by (intro from_str_radix_show_base) simp_all
  ultimately show ?thesis by (simp add: parse_address_str_def show_addr_def show_hex_def has_prefix_def parse_radix_def Let_def)
qed

lemma uint_word_of_int_64: "0 \<le> r \<Longrightarrow> r < 2 ^ 64 \<Longrightarrow> uint (word_of_int r :: u64) = r"
  by (simp add: uint_word_of_int_eq take_bit_int_eq_self)

lemma checked_add_signed_iff: "checked_add_signed base off = Some a \<longleftrightarrow> uint a = uint base + off"
proof
  assume "checked_add_signed base off = Some a"
  then show "uint a = uint base + off"
    unfolding checked_add_signed_def Let_def by (metis uint_word_of_int_64 option.discI option.inject)
next
  assume r: "uint a = uint base + off"
  have "0 \<le> uint a" "uint a < 2 ^ 64" using unsigned_less [of a, where 'a = int] by simp_all
  then show "checked_add_signed base off = Some a"
    unfolding checked_add_signed_def Let_def r [symmetric] by simp
qed

end
