(* ===== verification/Mutation_Target.thy ===== *)
theory Mutation_Target
  imports Ida_View "HOL-Library.Product_Lexorder" "HOL-Library.List_Lexorder" "HOL-Library.Char_ord"
begin

text \<open>
  \<open>src/src/ida/handlers/target.rs\<close>: which address a tool that changes the database acts on. A
  \<open>BTreeSet\<close> is its sorted list of distinct elements.
\<close>

section \<open>Matching a name\<close>

definition MAX_SUGGESTIONS :: nat where "MAX_SUGGESTIONS = 8"
definition MAX_AMBIGUOUS_LISTED :: nat where "MAX_AMBIGUOUS_LISTED = 8"

record target_spec =
  ts_addr :: "u64 option"
  ts_name :: "string option"
  ts_offset :: int

datatype name_match =
    NmUnique u64 string
  | NmAmbiguous "(u64 \<times> string) list" bool
  | NmMissing "(u64 \<times> string) list"

definition trim_underscores :: "string \<Rightarrow> string" where
  "trim_underscores = dropWhile (\<lambda>c. c = CHR ''_'')"

definition suggestion_rank :: "string \<Rightarrow> string \<Rightarrow> u8 option" where
  "suggestion_rank query name =
     (if trim_underscores name = trim_underscores query then Some 0
      else if eq_ignore_ascii_case name query then Some 1
      else if str_contains query name then Some 2
      else if str_contains (to_ascii_lowercase query) (to_ascii_lowercase name) then Some 3
      else None)"

text \<open>The new set and whether an item had to be dropped.\<close>

definition keep_smallest :: "'a::linorder list \<Rightarrow> 'a \<Rightarrow> nat \<Rightarrow> 'a list \<times> bool" where
  "keep_smallest s item limit =
     (let s' = insort_insert item s in if limit < length s' then (butlast s', True) else (s', False))"

record match_state =
  ms_exact :: "(u64 \<times> string) list"
  ms_more_exact :: bool
  ms_similar :: "(u8 \<times> u64 \<times> string) list"

definition match_step :: "string \<Rightarrow> u64 \<times> string \<Rightarrow> match_state \<Rightarrow> match_state" where
  "match_step query c ms =
     (case c of (address, name) \<Rightarrow>
        if name = query
        then (case keep_smallest (ms_exact ms) (address, name) MAX_AMBIGUOUS_LISTED of
                (exact, dropped) \<Rightarrow> ms\<lparr>ms_exact := exact, ms_more_exact := ms_more_exact ms \<or> dropped\<rparr>)
        else (case suggestion_rank query name of
                Some rank \<Rightarrow>
                  ms\<lparr>ms_similar := fst (keep_smallest (ms_similar ms) (rank, address, name) MAX_SUGGESTIONS)\<rparr>
              | None \<Rightarrow> ms))"

definition match_name :: "string \<Rightarrow> (u64 \<times> string) list \<Rightarrow> name_match" where
  "match_name query candidates =
     (let ms = fold (match_step query) candidates \<lparr>ms_exact = [], ms_more_exact = False, ms_similar = []\<rparr>
      in if 1 < length (ms_exact ms) then NmAmbiguous (ms_exact ms) (ms_more_exact ms)
         else case ms_exact ms of
           (address, name) # _ \<Rightarrow> NmUnique address name
         | [] \<Rightarrow> NmMissing (map snd (ms_similar ms)))"

section \<open>Resolving a target\<close>

definition quoted :: "string \<Rightarrow> string" where
  "quoted s = [CHR 0x22] @ s @ [CHR 0x22]"

definition describe_names :: "(u64 \<times> string) list \<Rightarrow> string" where
  "describe_names names = str_join '', '' (map (\<lambda>(address, name). quoted name @ '' at '' @ show_addr address) names)"

definition missing_name_error :: "string \<Rightarrow> (u64 \<times> string) list \<Rightarrow> tool_error" where
  "missing_name_error query suggestions =
     (let hint = (if suggestions = [] then ''use lookup_funcs or list_functions to find the exact name''
                  else ''similar names: '' @ describe_names suggestions)
      in InvalidParams (''no symbol is named exactly '' @ quoted query @ ''; '' @ hint
           @ ''. Mutating tools act only on an exact, case-sensitive name or an address''))"

definition listed_name_at :: "idb \<Rightarrow> u64 \<Rightarrow> string option" where
  "listed_name_at db address =
     (if \<not> db_has_name db address then None
      else case db_closest_name db address of
        Some name \<Rightarrow> if nv_address name = address then Some (nv_name name) else None
      | None \<Rightarrow> None)"

text \<open>Functions first, then the name list.\<close>

definition name_candidates :: "idb \<Rightarrow> (u64 \<times> string) list" where
  "name_candidates db =
     concat (map (\<lambda>f. case fv_name f of Some n \<Rightarrow> [(fv_start f, n)] | None \<Rightarrow> []) (db_functions db))
     @ map (\<lambda>n. (nv_address n, nv_name n)) (db_names db)"

definition resolve_exact_name :: "idb \<Rightarrow> string \<Rightarrow> tool_error + u64 \<times> string" where
  "resolve_exact_name db query =
     (case match_name query (name_candidates db) of
        NmUnique address name \<Rightarrow> Inr (address, name)
      | NmMissing suggestions \<Rightarrow> Inl (missing_name_error query suggestions)
      | NmAmbiguous listed others \<Rightarrow>
          Inl (InvalidParams (quoted query @ '' names more than one address ('' @ describe_names listed
                 @ (if others then '', and others'' else []) @ ''); pass the address instead'')))"

datatype target_selector = SelAddress | SelName

record mutation_target =
  mt_database :: "string option"
  mt_selector :: target_selector
  mt_symbol :: "string option"
  mt_base :: string
  mt_requested_address :: string
  mt_address :: string

definition resolve_mutation_target ::
  "idb \<Rightarrow> string option \<Rightarrow> target_spec \<Rightarrow> tool_error + u64 \<times> mutation_target" where
  "resolve_mutation_target db database spec =
     (let selected = (case (ts_addr spec, ts_name spec) of
          (Some _, Some _) \<Rightarrow> Inl (InvalidParams ''pass either an address or a name for the target, not both'')
        | (None, None) \<Rightarrow> Inl (InvalidParams ''pass an address or an exact name for the target'')
        | (Some address, None) \<Rightarrow> Inr (SelAddress, address, listed_name_at db address)
        | (None, Some query) \<Rightarrow>
            (case resolve_exact_name db query of
               Inl e \<Rightarrow> Inl e
             | Inr (address, name) \<Rightarrow> Inr (SelName, address, Some name)))
      in case selected of
           Inl e \<Rightarrow> Inl e
         | Inr (selector, base, symbol) \<Rightarrow>
             (case checked_add_signed base (ts_offset spec) of
                None \<Rightarrow> Inl (out_of_range_error base (ts_offset spec))
              | Some address \<Rightarrow>
                  Inr (address, \<lparr>mt_database = database, mt_selector = selector, mt_symbol = symbol,
                     mt_base = show_addr base, mt_requested_address = show_addr address,
                     mt_address = show_addr address\<rparr>)))"

definition acting_at :: "mutation_target \<Rightarrow> u64 \<Rightarrow> mutation_target" where
  "acting_at target address = target\<lparr>mt_address := show_addr address\<rparr>"

text \<open>The decompiler of the binding: whether it is available, and its result for a function.\<close>

definition decompile_mutation_target ::
  "bool \<Rightarrow> (func_view \<Rightarrow> tool_error + 'c) \<Rightarrow> idb option \<Rightarrow> string option \<Rightarrow> target_spec
     \<Rightarrow> tool_error + 'c \<times> mutation_target" where
  "decompile_mutation_target available decompile idb database spec =
     with_db idb (\<lambda>db.
       case resolve_mutation_target db database spec of
         Inl e \<Rightarrow> Inl e
       | Inr (address, target) \<Rightarrow>
           if \<not> available then Inl DecompilerUnavailable
           else case db_function_at db address of
             None \<Rightarrow> Inl (FunctionNotFound address)
           | Some f \<Rightarrow>
               (case decompile f of Inl e \<Rightarrow> Inl e | Inr c \<Rightarrow> Inr (c, acting_at target (fv_start f))))"

section \<open>The bounded sets\<close>

lemma length_insort_insert:
  "length (insort_insert x ys) = (if x \<in> set ys then length ys else Suc (length ys))"
  by (simp add: insort_insert_key_def)

lemma insort_above: "\<forall>y \<in> set ys. y < x \<Longrightarrow> insort x ys = ys @ [x]"
  by (induction ys) auto

lemma take_insort: "sorted ys \<Longrightarrow> take n (insort x ys) = take n (insort x (take n ys))"
proof (induction ys arbitrary: n)
  case (Cons y ys)
  show ?case
  proof (cases n)
    case (Suc m)
    have "take m (y # ys) = take m (y # take m ys)" by (cases m) auto
    with Cons Suc show ?thesis by auto
  qed simp
qed simp

lemma take_insort_insert:
  assumes "sorted ys" "distinct ys"
  shows "take n (insort_insert x ys) = take n (insort_insert x (take n ys))"
proof (cases "x \<in> set ys")
  case True
  show ?thesis
  proof (cases "x \<in> set (take n ys)")
    case True
    then have "x \<in> set ys" by (meson in_set_takeD)
    with True show ?thesis by (simp add: insort_insert_key_def)
  next
    case False
    have "x \<in> set (drop n ys)" using \<open>x \<in> set ys\<close> False append_take_drop_id [of n ys] by (metis Un_iff set_append)
    then have above: "\<forall>y \<in> set (take n ys). y \<le> x"
      using assms(1) append_take_drop_id [of n ys] by (metis sorted_append)
    then have "\<forall>y \<in> set (take n ys). y < x" using False by (metis order_le_imp_less_or_eq)
    then have "insort x (take n ys) = take n ys @ [x]" by (rule insort_above)
    moreover have "length (take n ys) = n" using \<open>x \<in> set (drop n ys)\<close> by (cases "n \<le> length ys") auto
    ultimately show ?thesis using True False by (simp add: insort_insert_key_def)
  qed
next
  case False
  then have "x \<notin> set (take n ys)" by (meson in_set_takeD)
  with False show ?thesis using take_insort [OF assms(1)] by (simp add: insort_insert_key_def)
qed

definition smallest :: "nat \<Rightarrow> 'a::linorder set \<Rightarrow> 'a list" where
  "smallest n S = take n (sorted_list_of_set S)"

lemma insort_insert_sorted_list: "finite S \<Longrightarrow> insort_insert x (sorted_list_of_set S) = sorted_list_of_set (insert x S)"
  by (rule sorted_distinct_set_unique)
    (auto simp: sorted_insort_insert distinct_insort_insert set_insort_insert simp del: sorted_list_of_set_insert_remove)

lemma set_smallest: "finite S \<Longrightarrow> set (smallest n S) \<subseteq> S"
  using set_take_subset [of n "sorted_list_of_set S"] by (simp add: smallest_def)

lemma length_smallest: "finite S \<Longrightarrow> length (smallest n S) = min n (card S)"
  by (simp add: smallest_def min.commute)

lemma smallest_all: "finite S \<Longrightarrow> card S \<le> n \<Longrightarrow> smallest n S = sorted_list_of_set S"
  by (simp add: smallest_def)

text \<open>Inserting into the kept part is inserting into the whole set; an item is dropped once the set exceeds the limit.\<close>

lemma keep_smallest_fst:
  assumes "finite S"
  shows "fst (keep_smallest (smallest n S) x n) = smallest n (insert x S)"
proof -
  let ?s = "insort_insert x (smallest n S)"
  have "length ?s \<le> Suc n" using assms by (auto simp: length_insort_insert length_smallest min_def)
  then have "fst (keep_smallest (smallest n S) x n) = take n ?s"
    by (auto simp: keep_smallest_def Let_def butlast_conv_take le_Suc_eq)
  also have "\<dots> = take n (insort_insert x (sorted_list_of_set S))"
    unfolding smallest_def by (rule take_insort_insert [symmetric]) simp_all
  finally show ?thesis using assms by (simp add: insort_insert_sorted_list smallest_def)
qed

lemma keep_smallest_snd:
  assumes "finite S"
  shows "(n < card S \<or> snd (keep_smallest (smallest n S) x n)) \<longleftrightarrow> n < card (insert x S)"
proof (cases "n < card S")
  case True
  then show ?thesis using assms card_insert_le [of S x] by auto
next
  case False
  then have "smallest n S = sorted_list_of_set S" using assms by (simp add: smallest_all)
  moreover have "length (insort_insert x (sorted_list_of_set S)) = card (insert x S)"
    using assms by (simp add: length_insort_insert card_insert_if)
  ultimately show ?thesis using assms False by (auto simp: keep_smallest_def Let_def)
qed

section \<open>What a name matches\<close>

definition exact_names :: "string \<Rightarrow> (u64 \<times> string) list \<Rightarrow> (u64 \<times> string) set" where
  "exact_names query cs = {c \<in> set cs. snd c = query}"

definition similar_names :: "string \<Rightarrow> (u64 \<times> string) list \<Rightarrow> (u8 \<times> u64 \<times> string) set" where
  "similar_names query cs =
     (\<lambda>c. (the (suggestion_rank query (snd c)), c)) ` {c \<in> set cs. snd c \<noteq> query \<and> suggestion_rank query (snd c) \<noteq> None}"

lemma finite_names [simp]: "finite (exact_names query cs)" "finite (similar_names query cs)"
  by (simp_all add: exact_names_def similar_names_def)

lemma exact_names_snoc: "exact_names query (cs @ [c]) = (if snd c = query then insert c (exact_names query cs) else exact_names query cs)"
  by (auto simp: exact_names_def)

lemma similar_names_snoc: "similar_names query (cs @ [c]) =
   (if snd c \<noteq> query \<and> suggestion_rank query (snd c) \<noteq> None
    then insert (the (suggestion_rank query (snd c)), c) (similar_names query cs) else similar_names query cs)"
  by (auto simp: similar_names_def)

lemma match_step_exact:
  "match_step query (a, query) ms = ms\<lparr>ms_exact := fst (keep_smallest (ms_exact ms) (a, query) MAX_AMBIGUOUS_LISTED),
     ms_more_exact := ms_more_exact ms \<or> snd (keep_smallest (ms_exact ms) (a, query) MAX_AMBIGUOUS_LISTED)\<rparr>"
  by (simp add: match_step_def case_prod_unfold)

lemma match_step_similar:
  "name \<noteq> query \<Longrightarrow> match_step query (a, name) ms =
     (case suggestion_rank query name of
        Some rank \<Rightarrow> ms\<lparr>ms_similar := fst (keep_smallest (ms_similar ms) (rank, a, name) MAX_SUGGESTIONS)\<rparr>
      | None \<Rightarrow> ms)"
  by (simp add: match_step_def)

lemma match_loop:
  "fold (match_step query) cs \<lparr>ms_exact = [], ms_more_exact = False, ms_similar = []\<rparr>
   = \<lparr>ms_exact = smallest MAX_AMBIGUOUS_LISTED (exact_names query cs),
      ms_more_exact = MAX_AMBIGUOUS_LISTED < card (exact_names query cs),
      ms_similar = smallest MAX_SUGGESTIONS (similar_names query cs)\<rparr>"
proof (induction cs rule: rev_induct)
  case Nil
  show ?case by (simp add: exact_names_def similar_names_def smallest_def)
next
  case (snoc c cs)
  obtain a n where c: "c = (a, n)" by (cases c)
  show ?case
  proof (cases "n = query")
    case True
    have "fold (match_step query) (cs @ [c]) m = match_step query (a, query) (fold (match_step query) cs m)" for m
      using c True by simp
    then show ?thesis
      using c True by (simp add: snoc match_step_exact keep_smallest_fst keep_smallest_snd exact_names_snoc similar_names_snoc)
  next
    case False
    have "fold (match_step query) (cs @ [c]) m = match_step query (a, n) (fold (match_step query) cs m)" for m
      using c by simp
    then show ?thesis
      using c False by (simp add: snoc match_step_similar keep_smallest_fst exact_names_snoc similar_names_snoc split: option.splits)
  qed
qed

text \<open>The matcher against its specification over the set of candidates.\<close>

lemma match_name_spec:
  "match_name query cs =
     (let E = exact_names query cs
      in if 1 < card E then NmAmbiguous (smallest MAX_AMBIGUOUS_LISTED E) (MAX_AMBIGUOUS_LISTED < card E)
         else if card E = 1 then (case the_elem E of (a, n) \<Rightarrow> NmUnique a n)
         else NmMissing (map snd (smallest MAX_SUGGESTIONS (similar_names query cs))))"
proof -
  let ?E = "exact_names query cs"
  consider (none) "?E = {}" | (one) x where "?E = {x}" | (more) "1 < card ?E"
    by (metis One_nat_def card_0_eq card_1_singletonE finite_names(1) less_one linorder_neqE_nat)
  then show ?thesis
  proof cases
    case none
    then show ?thesis by (simp add: match_name_def match_loop smallest_def)
  next
    case one
    then show ?thesis
      by (simp add: match_name_def match_loop smallest_def MAX_AMBIGUOUS_LISTED_def split: prod.splits)
  next
    case more
    then show ?thesis by (simp add: match_name_def match_loop length_smallest MAX_AMBIGUOUS_LISTED_def Let_def)
  qed
qed

section \<open>Properties\<close>

lemma exact_names_image: "exact_names query cs = (\<lambda>a. (a, query)) ` {a. (a, query) \<in> set cs}"
  by (auto simp: exact_names_def)

lemma resolve_exact_name_iff:
  "resolve_exact_name db query = Inr (a, n) \<longleftrightarrow> n = query \<and> {a'. (a', query) \<in> set (name_candidates db)} = {a}"
proof -
  let ?A = "{a'. (a', query) \<in> set (name_candidates db)}"
  have E: "exact_names query (name_candidates db) = (\<lambda>a. (a, query)) ` ?A" by (rule exact_names_image)
  have card: "card (exact_names query (name_candidates db)) = card ?A"
    unfolding E by (rule card_image) (simp add: inj_on_def)
  have "resolve_exact_name db query = Inr (a, n) \<longleftrightarrow>
      card ?A = 1 \<and> the_elem (exact_names query (name_candidates db)) = (a, n)"
    by (auto simp: resolve_exact_name_def match_name_spec card Let_def split: prod.splits)
  also have "\<dots> \<longleftrightarrow> n = query \<and> ?A = {a}"
  proof
    assume l: "card ?A = 1 \<and> the_elem (exact_names query (name_candidates db)) = (a, n)"
    then obtain x where "?A = {x}" by (auto simp: card_1_singleton_iff)
    with l show "n = query \<and> ?A = {a}" unfolding E by auto
  next
    assume r: "n = query \<and> ?A = {a}"
    then show "card ?A = 1 \<and> the_elem (exact_names query (name_candidates db)) = (a, n)" unfolding E by simp
  qed
  finally show ?thesis .
qed

text \<open>
  C17: A tool that changes the database acts only on the target the caller named exactly.
  Resolution succeeds precisely when the caller gave either an address, or a name that
  literally and case-sensitively names one single address of the database, and the offset
  leads to an address that exists without wrapping around; the tool then acts on that
  address, and the report says how it was chosen.
\<close>

theorem mutation_target_exact:
  "resolve_mutation_target db database spec = Inr (addr, target) \<longleftrightarrow>
     (\<exists>base. ((ts_name spec = None \<and> ts_addr spec = Some base \<and> mt_selector target = SelAddress
                \<and> mt_symbol target = listed_name_at db base)
           \<or> (\<exists>query. ts_addr spec = None \<and> ts_name spec = Some query \<and> mt_selector target = SelName
                \<and> mt_symbol target = Some query \<and> {a. (a, query) \<in> set (name_candidates db)} = {base}))
        \<and> uint addr = uint base + ts_offset spec
        \<and> mt_database target = database \<and> mt_base target = show_addr base
        \<and> mt_requested_address target = show_addr addr \<and> mt_address target = show_addr addr)"
proof -
  have finish: "(case checked_add_signed base off of None \<Rightarrow> Inl e | Some address \<Rightarrow> Inr (address, T address)) = Inr (addr, target)
      \<longleftrightarrow> uint addr = uint base + off \<and> T addr = target" for base :: u64 and off e and T :: "u64 \<Rightarrow> mutation_target"
    by (cases "checked_add_signed base off") (auto simp flip: checked_add_signed_iff)
  have eq: "\<lparr>mt_database = database, mt_selector = sel, mt_symbol = sym, mt_base = b, mt_requested_address = r, mt_address = x\<rparr> = target \<longleftrightarrow>
      mt_database target = database \<and> mt_selector target = sel \<and> mt_symbol target = sym \<and> mt_base target = b
      \<and> mt_requested_address target = r \<and> mt_address target = x" for sel sym b r x
    by (cases target) auto
  show ?thesis
  proof (cases "ts_addr spec"; cases "ts_name spec")
    fix query
    assume spec: "ts_addr spec = None" "ts_name spec = Some query"
    show ?thesis
    proof (cases "resolve_exact_name db query")
      case (Inl e)
      then have "{a. (a, query) \<in> set (name_candidates db)} \<noteq> {base}" for base
        using resolve_exact_name_iff [of db query base query] by simp
      with spec Inl show ?thesis by (simp add: resolve_mutation_target_def)
    next
      case (Inr r)
      obtain base n where r: "r = (base, n)" by (cases r)
      with Inr have "n = query" "{a. (a, query) \<in> set (name_candidates db)} = {base}"
        using resolve_exact_name_iff [of db query base n] by simp_all
      with spec Inr r show ?thesis by (auto simp: resolve_mutation_target_def finish eq)
    qed
  qed (auto simp: resolve_mutation_target_def finish eq)
qed

end
