(* ===== verification/Byte_Search.thy ===== *)
theory Byte_Search
  imports Ida_View
begin

text \<open>
  \<open>src/src/ida/handlers/search.rs\<close>: searching the segments for a byte pattern with wildcards,
  and the disassembly for instructions and operands.
\<close>

section \<open>Byte patterns\<close>

definition FIND_CHUNK :: nat where "FIND_CHUNK = 1024 * 1024"

lemma FIND_CHUNK_pos: "0 < FIND_CHUNK"
  by (simp add: FIND_CHUNK_def)

text \<open>Every byte of the pattern that is not a wildcard agrees.\<close>

definition byte_ok :: "u8 option \<Rightarrow> u8 \<Rightarrow> bool" where
  "byte_ok pb b = (case pb of None \<Rightarrow> True | Some v \<Rightarrow> b = v)"

fun pattern_at :: "u8 option list \<Rightarrow> u8 list \<Rightarrow> bool" where
  "pattern_at [] bytes \<longleftrightarrow> True"
| "pattern_at (pb # pat) [] \<longleftrightarrow> False"
| "pattern_at (pb # pat) (b # bytes) \<longleftrightarrow> byte_ok pb b \<and> pattern_at pat bytes"

fun scan_positions :: "u8 option list \<Rightarrow> nat \<Rightarrow> u64 \<Rightarrow> u8 list \<Rightarrow> nat list \<Rightarrow> string list \<Rightarrow> string list" where
  "scan_positions pat max_results base bytes [] matches = matches"
| "scan_positions pat max_results base bytes (i # is) matches =
     (if max_results \<le> length matches then matches
      else scan_positions pat max_results base bytes is
             (if pattern_at pat (drop i bytes) then matches @ [show_addr (base + of_nat i)] else matches))"

text \<open>One segment, in chunks that overlap by the pattern length less one.\<close>

function scan_segment :: "idb \<Rightarrow> u8 option list \<Rightarrow> nat \<Rightarrow> seg_view \<Rightarrow> nat \<Rightarrow> string list \<Rightarrow> string list" where
  "scan_segment db pat max_results seg offset matches =
     (if offset < sv_len seg \<and> length matches < max_results
      then (let remaining = sv_len seg - offset;
                read_len = min remaining (FIND_CHUNK + (length pat - 1));
                base = sv_start seg + of_nat offset;
                bytes = db_get_bytes db base read_len
            in if length bytes < length pat then matches
               else (let matches' = scan_positions pat max_results base bytes [0..<Suc (length bytes - length pat)] matches
                     in if remaining \<le> FIND_CHUNK then matches'
                        else scan_segment db pat max_results seg (offset + FIND_CHUNK) matches'))
      else matches)"
  by pat_completeness auto
termination
  by (relation "measure (\<lambda>(_, _, _, seg, offset, _). sv_len seg - offset)")
    (auto intro: diff_less_mono2 simp: FIND_CHUNK_pos)

declare scan_segment.simps [simp del]

fun scan_segments :: "idb \<Rightarrow> u8 option list \<Rightarrow> nat \<Rightarrow> seg_view list \<Rightarrow> string list \<Rightarrow> string list" where
  "scan_segments db pat max_results [] matches = matches"
| "scan_segments db pat max_results (seg # segs) matches =
     (let matches' = scan_segment db pat max_results seg 0 matches
      in if max_results \<le> length matches' then matches' else scan_segments db pat max_results segs matches')"

text \<open>The pattern, the matches and their number.\<close>

definition handle_find_bytes :: "idb option \<Rightarrow> string \<Rightarrow> nat \<Rightarrow> tool_error + string \<times> string list \<times> nat" where
  "handle_find_bytes idb pattern max_results =
     with_db idb (\<lambda>db.
       case parse_pattern pattern of
         Inl e \<Rightarrow> Inl e
       | Inr pat \<Rightarrow>
           if pat = [] then Inl (IdaError ''empty pattern'')
           else (let matches = scan_segments db pat max_results (db_segments db) []
                 in Inr (pattern, matches, length matches)))"

section \<open>Text and immediates\<close>

text \<open>The searches of the binding are lists of addresses; at least one result is reported.\<close>

fun take_results :: "nat \<Rightarrow> u64 list \<Rightarrow> string list \<Rightarrow> string list" where
  "take_results max_results [] out = out"
| "take_results max_results (a # as) out =
     (let out' = out @ [show_addr a] in if max_results \<le> length out' then out' else take_results max_results as out')"

definition handle_search_text :: "(idb \<Rightarrow> string \<Rightarrow> u64 list) \<Rightarrow> idb option \<Rightarrow> string \<Rightarrow> nat \<Rightarrow> tool_error + string list \<times> nat" where
  "handle_search_text find_text idb text max_results =
     with_db idb (\<lambda>db. let out = take_results max_results (find_text db text) [] in Inr (out, length out))"

text \<open>The immediate is cut to 32 bits.\<close>

definition handle_search_imm :: "(idb \<Rightarrow> u32 \<Rightarrow> u64 list) \<Rightarrow> idb option \<Rightarrow> u64 \<Rightarrow> nat \<Rightarrow> tool_error + string list \<times> nat" where
  "handle_search_imm find_imm idb imm max_results =
     with_db idb (\<lambda>db. let out = take_results max_results (find_imm db (ucast imm)) [] in Inr (out, length out))"

section \<open>Instructions\<close>

definition strip_comment :: "string \<Rightarrow> string" where
  "strip_comment line = takeWhile (\<lambda>c. c \<noteq> CHR '';'') line"

text \<open>\<open>splitn(2, char::is_whitespace)\<close>: the part before the first whitespace character and the rest.\<close>

fun split_first_ws :: "string \<Rightarrow> string \<times> string option" where
  "split_first_ws [] = ([], None)"
| "split_first_ws (c # cs) =
     (if 0 < white_len (c # cs) then ([], Some (drop (white_len (c # cs)) (c # cs)))
      else (case split_first_ws cs of (w, rest) \<Rightarrow> (c # w, rest)))"

definition split_disasm_line :: "string \<Rightarrow> string \<times> string \<times> string" where
  "split_disasm_line line =
     (let trimmed = trim (strip_comment line)
      in if trimmed = [] then ([], [], [])
         else case split_first_ws trimmed of
           (mnemonic, rest) \<Rightarrow> (trim mnemonic, trim (case rest of Some r \<Rightarrow> r | None \<Rightarrow> []), trimmed))"

definition saturating_add64 :: "u64 \<Rightarrow> nat \<Rightarrow> u64" where
  "saturating_add64 a n = (if unat a + n < 2 ^ 64 then a + of_nat n else - 1)"

definition next_addr :: "idb \<Rightarrow> u64 \<Rightarrow> u64 option" where
  "next_addr db current =
     (case db_insn_at db current of
        Some insn \<Rightarrow> if iv_len insn = 0 then None else Some (saturating_add64 current (iv_len insn))
      | None \<Rightarrow> (case db_next_head db current of
            Some n \<Rightarrow> if current < n then Some n else None
          | None \<Rightarrow> None))"

definition fold_case :: "bool \<Rightarrow> string \<Rightarrow> string" where
  "fold_case case_insensitive s = (if case_insensitive then to_ascii_lowercase s else s)"

text \<open>A pattern with a space or a comma is looked for in the whole line, any other in the mnemonic.\<close>

definition line_matches :: "bool \<Rightarrow> string \<Rightarrow> string \<Rightarrow> string \<Rightarrow> bool" where
  "line_matches ci pat mnemonic line =
     (if CHR '' '' \<in> set pat \<or> CHR '','' \<in> set pat then str_contains pat (fold_case ci line)
      else str_contains pat (fold_case ci mnemonic))"

text \<open>The addresses of the instructions that match the remaining patterns in a row.\<close>

fun match_sequence :: "idb \<Rightarrow> bool \<Rightarrow> u64 \<Rightarrow> string list \<Rightarrow> u64 \<Rightarrow> u64 list \<Rightarrow> u64 list option" where
  "match_sequence db ci seg_end [] current seq = Some seq"
| "match_sequence db ci seg_end (pat # pats) current seq =
     (case next_addr db current of
        None \<Rightarrow> None
      | Some n \<Rightarrow>
          if \<not> n < seg_end then None
          else case db_disasm_line db n of
            None \<Rightarrow> None
          | Some line \<Rightarrow>
              (case split_disasm_line line of
                 (mnemonic, _, clean) \<Rightarrow>
                   if mnemonic = [] then None
                   else if \<not> line_matches ci pat mnemonic clean then None
                   else match_sequence db ci seg_end pats n (seq @ [n])))"

record insn_match =
  im_address :: u64
  im_mnemonic :: string
  im_line :: string
  im_sequence :: "u64 list option"

definition insn_match_at :: "idb \<Rightarrow> bool \<Rightarrow> string list \<Rightarrow> u64 \<Rightarrow> u64 \<Rightarrow> insn_match option" where
  "insn_match_at db ci patterns seg_end addr =
     (case db_disasm_line db addr of
        None \<Rightarrow> None
      | Some line \<Rightarrow>
          (case split_disasm_line line of
             (mnemonic, _, clean) \<Rightarrow>
               if mnemonic = [] \<or> \<not> line_matches ci (hd patterns) mnemonic clean then None
               else if length patterns = 1
               then Some \<lparr>im_address = addr, im_mnemonic = mnemonic, im_line = clean, im_sequence = None\<rparr>
               else map_option (\<lambda>seq. \<lparr>im_address = addr, im_mnemonic = mnemonic, im_line = clean, im_sequence = Some seq\<rparr>)
                      (match_sequence db ci seg_end (tl patterns) addr [addr])))"

text \<open>The walk over one segment; it only goes forward.\<close>

function walk_segment :: "(u64 \<Rightarrow> u64 option) \<Rightarrow> (u64 \<Rightarrow> 'm option) \<Rightarrow> nat \<Rightarrow> u64 \<Rightarrow> u64 \<Rightarrow> 'm list \<Rightarrow> 'm list" where
  "walk_segment advance match_at max_results seg_end addr matches =
     (if addr < seg_end \<and> length matches < max_results
      then (let matches' = (case match_at addr of Some m \<Rightarrow> matches @ [m] | None \<Rightarrow> matches)
            in case advance addr of
                 Some n \<Rightarrow> if addr < n then walk_segment advance match_at max_results seg_end n matches' else matches'
               | None \<Rightarrow> matches')
      else matches)"
  by pat_completeness auto
termination
  by (relation "measure (\<lambda>(_, _, _, seg_end, addr, _). unat seg_end - unat addr)")
    (auto simp: word_less_nat_alt)

declare walk_segment.simps [simp del]

fun walk_segments :: "(u64 \<Rightarrow> u64 option) \<Rightarrow> (seg_view \<Rightarrow> u64 \<Rightarrow> 'm option) \<Rightarrow> nat \<Rightarrow> seg_view list \<Rightarrow> 'm list \<Rightarrow> 'm list" where
  "walk_segments advance match_at max_results [] matches = matches"
| "walk_segments advance match_at max_results (seg # segs) matches =
     (let matches' = walk_segment advance (match_at seg) max_results (sv_end seg) (sv_start seg) matches
      in if max_results \<le> length matches' then matches' else walk_segments advance match_at max_results segs matches')"

definition handle_find_insns :: "idb option \<Rightarrow> string list \<Rightarrow> nat \<Rightarrow> bool \<Rightarrow> tool_error + insn_match list" where
  "handle_find_insns idb patterns max_results ci =
     with_db idb (\<lambda>db.
       if patterns = [] then Inl (InvalidParams ''empty patterns'')
       else Inr (walk_segments (next_addr db)
              (\<lambda>seg. insn_match_at db ci (map (fold_case ci) patterns) (sv_end seg)) max_results (db_segments db) []))"

record operand_match =
  om_address :: u64
  om_mnemonic :: string
  om_operands :: string
  om_line :: string

definition operand_match_at :: "idb \<Rightarrow> bool \<Rightarrow> string list \<Rightarrow> u64 \<Rightarrow> operand_match option" where
  "operand_match_at db ci patterns addr =
     (case db_disasm_line db addr of
        None \<Rightarrow> None
      | Some line \<Rightarrow>
          (case split_disasm_line line of
             (mnemonic, operands, clean) \<Rightarrow>
               if mnemonic \<noteq> [] \<and> (\<exists>pat \<in> set patterns. str_contains pat (fold_case ci operands))
               then Some \<lparr>om_address = addr, om_mnemonic = mnemonic, om_operands = operands, om_line = clean\<rparr>
               else None))"

definition handle_find_insn_operands :: "idb option \<Rightarrow> string list \<Rightarrow> nat \<Rightarrow> bool \<Rightarrow> tool_error + operand_match list" where
  "handle_find_insn_operands idb patterns max_results ci =
     with_db idb (\<lambda>db.
       if patterns = [] then Inl (InvalidParams ''empty patterns'')
       else Inr (walk_segments (next_addr db) (\<lambda>_. operand_match_at db ci (map (fold_case ci) patterns)) max_results
              (db_segments db) []))"

section \<open>The chunked search is the plain search\<close>

text \<open>
  \<open>get_bytes\<close> of the binding, as its documentation has it: a read inside a segment gives the
  bytes of the memory.
\<close>

definition reads_memory :: "idb \<Rightarrow> (u64 \<Rightarrow> u8) \<Rightarrow> bool" where
  "reads_memory db mem \<longleftrightarrow> (\<forall>a n. db_get_bytes db a n = map (\<lambda>i. mem (a + of_nat i)) [0..<n])"

text \<open>Byte by byte, without chunks: the offsets of a segment where the whole pattern matches.\<close>

definition occurs :: "(u64 \<Rightarrow> u8) \<Rightarrow> u64 \<Rightarrow> u8 option list \<Rightarrow> nat \<Rightarrow> bool" where
  "occurs mem start pat i \<longleftrightarrow>
     (\<forall>j < length pat. byte_ok (pat ! j) (mem (start + of_nat (i + j))))"

definition hits_from :: "(u64 \<Rightarrow> u8) \<Rightarrow> seg_view \<Rightarrow> u8 option list \<Rightarrow> nat \<Rightarrow> string list" where
  "hits_from mem seg pat offset =
     map (\<lambda>i. show_addr (sv_start seg + of_nat i)) (filter (occurs mem (sv_start seg) pat) [offset..<Suc (sv_len seg) - length pat])"

lemma pattern_at_iff:
  "pattern_at pat bytes \<longleftrightarrow> length pat \<le> length bytes
     \<and> (\<forall>j < length pat. byte_ok (pat ! j) (bytes ! j))"
  by (induction pat bytes rule: pattern_at.induct) (auto simp: All_less_Suc2)

lemma pattern_at_memory:
  assumes "i + length pat \<le> n"
  shows "pattern_at pat (drop i (map (\<lambda>k. mem (base + of_nat k)) [0..<n])) \<longleftrightarrow> occurs mem base pat i"
proof -
  have nth: "drop i (map (\<lambda>k. mem (base + of_nat k)) [0..<n]) ! j = mem (base + of_nat (i + j))" if "j < length pat" for j
    using that assms by simp
  then show ?thesis unfolding pattern_at_iff occurs_def
    using assms by (auto split: option.splits)
qed

lemma scan_positions_spec:
  "length matches \<le> max_results \<Longrightarrow>
   scan_positions pat max_results base bytes is matches =
     take max_results (matches @ map (\<lambda>i. show_addr (base + of_nat i)) (filter (\<lambda>i. pattern_at pat (drop i bytes)) is))"
proof (induction "is" arbitrary: matches)
  case (Cons i "is")
  show ?case
  proof (cases "length matches = max_results")
    case False
    with Cons.prems have "length matches < max_results" by simp
    with Cons.IH [of matches] Cons.IH [of "matches @ [show_addr (base + of_nat i)]"] show ?thesis by simp
  qed simp
qed simp

lemma occurs_shift: "occurs mem (start + of_nat offset) pat i \<longleftrightarrow> occurs mem start pat (offset + i)"
  by (simp add: occurs_def add.assoc [where 'a = nat])
    (simp add: add.assoc)

text \<open>One chunk finds the offsets up to the next chunk.\<close>

lemma scan_chunk:
  fixes k :: nat
  assumes mem: "reads_memory db mem" and len: "length matches \<le> max_results" "length pat \<le> n" "pat \<noteq> []"
  shows "scan_positions pat max_results (start + of_nat offset) (db_get_bytes db (start + of_nat offset) n)
      [0..<Suc (n - length pat)] matches =
     take max_results (matches @ map (\<lambda>i. show_addr (start + of_nat i))
        (filter (occurs mem start pat) [offset..<offset + Suc (n - length pat)]))"
proof -
  let ?base = "start + of_nat offset :: u64"
  have bytes: "db_get_bytes db ?base n = map (\<lambda>k. mem (?base + of_nat k)) [0..<n]"
    using mem by (simp add: reads_memory_def)
  have "filter (\<lambda>i. pattern_at pat (drop i (db_get_bytes db ?base n))) [0..<Suc (n - length pat)]
      = filter (\<lambda>i. occurs mem start pat (offset + i)) [0..<Suc (n - length pat)]"
    unfolding bytes using len(2) by (intro filter_cong refl) (auto simp: pattern_at_memory simp flip: occurs_shift)
  moreover have "[offset..<offset + Suc (n - length pat)] = map (\<lambda>i. i + offset) [0..<Suc (n - length pat)]"
    unfolding map_add_upt by (simp only: add.commute)
  ultimately show ?thesis
    by (simp add: scan_positions_spec [OF len(1)] filter_map comp_def add.commute add.left_commute del: upt_Suc)
qed

lemma upt_split_filter: "a \<le> b \<Longrightarrow> b \<le> c \<Longrightarrow> filter P [a..<c] = filter P [a..<b] @ filter P [b..<c]"
  by (metis filter_append le_Suc_ex upt_add_eq_append)

lemma take_take_append: "take n (take n xs @ ys) = take n (xs @ ys)"
  by (cases "n \<le> length xs") auto

lemma hits_from_empty: "Suc (sv_len seg) - length pat \<le> offset \<Longrightarrow> hits_from mem seg pat offset = []"
  by (simp add: hits_from_def)

lemma hits_from_split:
  assumes "offset \<le> b" "b \<le> Suc (sv_len seg) - length pat"
  shows "hits_from mem seg pat offset =
     map (\<lambda>i. show_addr (sv_start seg + of_nat i)) (filter (occurs mem (sv_start seg) pat) [offset..<b]) @ hits_from mem seg pat b"
  unfolding hits_from_def upt_split_filter [OF assms] by simp

lemma scan_segment_spec:
  assumes mem: "reads_memory db mem" and pat: "pat \<noteq> []"
  shows "length matches \<le> max_results \<Longrightarrow>
    scan_segment db pat max_results seg offset matches = take max_results (matches @ hits_from mem seg pat offset)"
proof (induction "sv_len seg - offset" arbitrary: offset matches rule: less_induct)
  case less
  let ?L = "sv_len seg" and ?pl = "length pat"
  let ?n = "min (?L - offset) (FIND_CHUNK + (?pl - 1))"
  let ?base = "sv_start seg + of_nat offset :: u64"
  let ?M = "scan_positions pat max_results ?base (db_get_bytes db ?base ?n) [0..<Suc (?n - ?pl)] matches"
  have pl: "0 < ?pl" using pat by simp
  have len: "length (db_get_bytes db ?base ?n) = ?n" using mem by (simp add: reads_memory_def)
  have unfold: "scan_segment db pat max_results seg offset matches =
      (if offset < ?L \<and> length matches < max_results
       then if ?n < ?pl then matches
            else if ?L - offset \<le> FIND_CHUNK then ?M
            else scan_segment db pat max_results seg (offset + FIND_CHUNK) ?M
       else matches)"
    by (subst scan_segment.simps) (simp only: Let_def len)
  show ?case
  proof (cases "offset < ?L \<and> length matches < max_results")
    case False
    then show ?thesis using less.prems pl unfolding unfold by (auto simp: hits_from_empty)
  next
    case outer: True
    show ?thesis
    proof (cases "?n < ?pl")
      case True
      then have "?L - offset < ?pl" using pl FIND_CHUNK_pos by linarith
      then have "hits_from mem seg pat offset = []" by (intro hits_from_empty) linarith
      moreover have "scan_segment db pat max_results seg offset matches = matches"
        by (simp only: unfold outer True simp_thms if_True if_False)
      ultimately show ?thesis using less.prems by simp
    next
      case False
      then have M: "?M = take max_results (matches @ map (\<lambda>i. show_addr (sv_start seg + of_nat i))
          (filter (occurs mem (sv_start seg) pat) [offset..<offset + Suc (?n - ?pl)]))"
        by (intro scan_chunk [OF mem less.prems _ pat]) linarith
      have e: "offset + Suc (?n - ?pl) \<le> Suc ?L - ?pl" "offset \<le> offset + Suc (?n - ?pl)"
        using False outer by linarith+
      note split = hits_from_split [OF e(2) e(1), of mem]
      show ?thesis
      proof (cases "?L - offset \<le> FIND_CHUNK")
        case small: True
        then have "Suc ?L - ?pl \<le> offset + Suc (?n - ?pl)" using False outer by linarith
        then have "hits_from mem seg pat (offset + Suc (?n - ?pl)) = []" by (rule hits_from_empty)
        then have "?M = take max_results (matches @ hits_from mem seg pat offset)" unfolding M split by simp
        moreover have "scan_segment db pat max_results seg offset matches = ?M"
          by (simp only: unfold outer False small simp_thms if_True if_False)
        ultimately show ?thesis by simp
      next
        case big: False
        have "scan_segment db pat max_results seg (offset + FIND_CHUNK) ?M
            = take max_results (?M @ hits_from mem seg pat (offset + FIND_CHUNK))"
        proof (rule less.hyps)
          show "?L - (offset + FIND_CHUNK) < ?L - offset" using big FIND_CHUNK_pos by linarith
          show "length ?M \<le> max_results" unfolding M length_take by (rule min.cobounded2)
        qed
        also have "hits_from mem seg pat (offset + FIND_CHUNK) = hits_from mem seg pat (offset + Suc (?n - ?pl))"
        proof (cases "FIND_CHUNK + (?pl - 1) \<le> ?L - offset")
          case True
          then have "offset + Suc (?n - ?pl) = offset + FIND_CHUNK" using pl FIND_CHUNK_pos by linarith
          then show ?thesis by simp
        next
          case short: False
          then have "Suc ?L - ?pl \<le> offset + FIND_CHUNK" "Suc ?L - ?pl \<le> offset + Suc (?n - ?pl)"
            using outer pl by linarith+
          then show ?thesis by (simp add: hits_from_empty)
        qed
        finally have "scan_segment db pat max_results seg (offset + FIND_CHUNK) ?M
            = take max_results (matches @ hits_from mem seg pat offset)"
          unfolding M split take_take_append append_assoc .
        moreover have "scan_segment db pat max_results seg offset matches
            = scan_segment db pat max_results seg (offset + FIND_CHUNK) ?M"
          by (simp only: unfold outer False big simp_thms if_True if_False)
        ultimately show ?thesis by simp
      qed
    qed
  qed
qed

lemma scan_segments_spec:
  assumes "reads_memory db mem" "pat \<noteq> []"
  shows "length matches \<le> max_results \<Longrightarrow>
    scan_segments db pat max_results segs matches =
      take max_results (matches @ concat (map (\<lambda>seg. hits_from mem seg pat 0) segs))"
proof (induction segs arbitrary: matches)
  case (Cons seg segs)
  let ?M = "take max_results (matches @ hits_from mem seg pat 0)"
  have M: "scan_segment db pat max_results seg 0 matches = ?M"
    by (rule scan_segment_spec [OF assms Cons.prems])
  show ?case
  proof (cases "max_results \<le> length ?M")
    case True
    then have "max_results \<le> length (matches @ hits_from mem seg pat 0)" by simp
    then show ?thesis using True by (simp add: M Let_def flip: append_assoc)
  next
    case False
    then have "scan_segments db pat max_results segs ?M = take max_results (?M @ concat (map (\<lambda>seg. hits_from mem seg pat 0) segs))"
      by (intro Cons.IH) simp
    then show ?thesis using False unfolding take_take_append by (simp add: M Let_def)
  qed
qed simp

section \<open>Properties\<close>

text \<open>
  C19: The byte search finds exactly the occurrences of the pattern. Reading a segment in
  chunks of one MiB neither loses a match that crosses a boundary nor reports one twice:
  the result is the list of all addresses of all segments, in order, at which every byte
  of the pattern that is not a wildcard agrees with the memory and the pattern ends inside
  the segment, cut off after the number of results asked for.
\<close>

theorem find_bytes_exact:
  assumes "reads_memory db mem" and "parse_pattern pattern = Inr pat" and "pat \<noteq> []"
  shows "handle_find_bytes (Some db) pattern max_results =
    (let matches = take max_results (concat (map (\<lambda>seg.
           map (\<lambda>i. show_addr (sv_start seg + of_nat i))
             (filter (occurs mem (sv_start seg) pat) [0..<Suc (sv_len seg) - length pat])) (db_segments db)))
     in Inr (pattern, matches, length matches))"
  using assms scan_segments_spec [OF assms(1,3), of "[]" max_results "db_segments db"]
  by (simp add: handle_find_bytes_def with_db_def Let_def hits_from_def [abs_def])

text \<open>A segment of four bytes, two of them 0xAD.\<close>

definition search_memory :: "u64 \<Rightarrow> u8" where
  "search_memory a = (if a = 0x1001 \<or> a = 0x1003 then 0xAD else 0)"

definition search_db :: idb where
  "search_db = \<lparr>db_functions = [], db_function_at = (\<lambda>_. None), db_names = [], db_has_name = (\<lambda>_. False),
     db_closest_name = (\<lambda>_. None),
     db_segments = [\<lparr>sv_start = 0x1000, sv_end = 0x1004, sv_len = 4, sv_is_extern = False, sv_is_import = False\<rparr>],
     db_segment_at = (\<lambda>_. None), db_strings = [],
     db_get_bytes = (\<lambda>a n. map (\<lambda>i. search_memory (a + of_nat i)) [0..<n]), db_insn_at = (\<lambda>_. None),
     db_next_head = (\<lambda>_. None), db_next_head_with = (\<lambda>_ _. None), db_disasm_line = (\<lambda>_. None), db_address_name = (\<lambda>_. None),
     db_xrefs_from = (\<lambda>_. []), db_xrefs_to = (\<lambda>_. []), db_cfg = (\<lambda>_. Inl []), db_contains = (\<lambda>_ _. False),
     db_udt_limit = 0, db_udt_info = (\<lambda>_. None), db_udt_member = (\<lambda>_ _. None), db_udt_member_tid = (\<lambda>_ _. None),
     db_local_type = (\<lambda>_. None), db_tid_xrefs = (\<lambda>_. [])\<rparr>"

lemma search_pattern: "parse_pattern ''AD'' = Inr [Some 0xAD]"
  by code_simp

lemma search_occurs: "filter (occurs search_memory 0x1000 [Some 0xAD]) [0..<4] = [1, 3]"
  by (simp add: upt_rec occurs_def byte_ok_def search_memory_def)

lemma search_digits: "digit_char 0 = CHR ''0''" "digit_char 1 = CHR ''1''" "digit_char 3 = CHR ''3''"
  by code_simp+

lemma search_shown: "show_addr 0x1001 = ''0x1001''" "show_addr 0x1003 = ''0x1003''"
  by (simp_all add: show_addr_def show_hex_def show_base.simps search_digits [simplified])

theorem find_bytes_exact_witness:
  "handle_find_bytes (Some search_db) ''AD'' 5 = Inr (''AD'', [''0x1001'', ''0x1003''], 2)"
proof -
  have "reads_memory search_db search_memory" by (simp add: reads_memory_def search_db_def)
  from find_bytes_exact [OF this search_pattern, of 5] show ?thesis
    by (simp add: search_db_def search_occurs search_shown Let_def)
qed

end
