(* ===== verification/Listing.thy ===== *)
theory Listing
  imports Ida_View
begin

text \<open>
  The listing handlers of \<open>src/src/ida/handlers\<close>: functions, strings, globals, imports, exports,
  types and cross references, one page at a time. \<open>str::to_lowercase\<close> is an argument \<open>lower\<close>,
  so that every statement holds for the Unicode mapping.
\<close>

section \<open>The paging loops\<close>

text \<open>Count what passes the filter, skip \<open>offset\<close> of it and keep at most \<open>limit\<close>.\<close>

fun page_loop :: "('a \<Rightarrow> bool) \<Rightarrow> ('a \<Rightarrow> 'b) \<Rightarrow> nat \<Rightarrow> nat \<Rightarrow> 'a list \<Rightarrow> nat \<Rightarrow> 'b list \<Rightarrow> 'b list \<times> nat" where
  "page_loop keep render offset limit [] seen out = (out, seen)"
| "page_loop keep render offset limit (x # xs) seen out =
     (if \<not> keep x then page_loop keep render offset limit xs seen out
      else if seen + 1 \<le> offset then page_loop keep render offset limit xs (seen + 1) out
      else if limit \<le> length out then page_loop keep render offset limit xs (seen + 1) out
      else page_loop keep render offset limit xs (seen + 1) (out @ [render x]))"

definition next_offset :: "nat \<Rightarrow> nat \<Rightarrow> nat \<Rightarrow> nat option" where
  "next_offset offset n seen =
     (if min (offset + n) USIZE_MAX < seen then Some (min (offset + n) USIZE_MAX) else None)"

record 'a page =
  pg_items :: "'a list"
  pg_total :: nat
  pg_next :: "nat option"

definition page_of :: "('a \<Rightarrow> bool) \<Rightarrow> ('a \<Rightarrow> 'b) \<Rightarrow> nat \<Rightarrow> nat \<Rightarrow> 'a list \<Rightarrow> 'b page" where
  "page_of keep render offset limit xs =
     (case page_loop keep render offset limit xs 0 [] of
        (items, seen) \<Rightarrow> \<lparr>pg_items = items, pg_total = seen, pg_next = next_offset offset (length items) seen\<rparr>)"

text \<open>A bounded window of a chain; \<open>True\<close> when there is more behind it.\<close>

fun take_window :: "nat \<Rightarrow> nat \<Rightarrow> 'a list \<Rightarrow> nat \<Rightarrow> 'a list \<Rightarrow> 'a list \<times> bool" where
  "take_window offset limit [] skipped items = (items, False)"
| "take_window offset limit (x # xs) skipped items =
     (if skipped < offset then take_window offset limit xs (skipped + 1) items
      else if length items = limit then (items, True)
      else take_window offset limit xs skipped (items @ [x]))"

section \<open>Functions\<close>

record function_info =
  fi_address :: string
  fi_name :: string
  fi_size :: nat

definition function_info_of :: "func_view \<Rightarrow> function_info" where
  "function_info_of f = \<lparr>fi_address = show_addr (fv_start f), fi_name = func_name f, fi_size = fv_len f\<rparr>"

definition name_filter :: "(string \<Rightarrow> string) \<Rightarrow> string option \<Rightarrow> string \<Rightarrow> bool" where
  "name_filter lower filter_text name =
     (case filter_text of None \<Rightarrow> True | Some f \<Rightarrow> str_contains (lower f) (lower name))"

definition handle_list_functions ::
  "(string \<Rightarrow> string) \<Rightarrow> idb option \<Rightarrow> nat \<Rightarrow> nat \<Rightarrow> string option \<Rightarrow> tool_error + function_info page" where
  "handle_list_functions lower idb offset limit filter_text =
     with_db idb (\<lambda>db. Inr (page_of (\<lambda>f. name_filter lower filter_text (func_name f)) function_info_of offset limit
       (db_functions db)))"

definition handle_resolve_function :: "idb option \<Rightarrow> string \<Rightarrow> tool_error + function_info" where
  "handle_resolve_function idb name =
     with_db idb (\<lambda>db.
       case find (\<lambda>f. case fv_name f of Some n \<Rightarrow> n = name \<or> str_contains name n | None \<Rightarrow> False) (db_functions db) of
         Some f \<Rightarrow> Inr (function_info_of f)
       | None \<Rightarrow> Inl (FunctionNameNotFound name))"

datatype lookup_result = LookupFound string function_info | LookupMissing string

definition lookup_one :: "idb \<Rightarrow> string \<Rightarrow> lookup_result" where
  "lookup_one db query =
     (case parse_address_str query of
        Inr addr \<Rightarrow>
          (case db_function_at db addr of
             Some f \<Rightarrow> LookupFound query (function_info_of f)
           | None \<Rightarrow> LookupMissing query)
      | Inl _ \<Rightarrow>
          (case find (\<lambda>i. fi_name i = query \<or> str_contains query (fi_name i)) (map function_info_of (db_functions db)) of
             Some i \<Rightarrow> LookupFound query i
           | None \<Rightarrow> LookupMissing query))"

definition handle_lookup_funcs :: "idb option \<Rightarrow> string list \<Rightarrow> tool_error + lookup_result list" where
  "handle_lookup_funcs idb queries = with_db idb (\<lambda>db. Inr (map (lookup_one db) queries))"

record function_range_info =
  fr_address :: string
  fr_name :: string
  fr_start :: string
  fr_end :: string
  fr_size :: nat

definition handle_function_at :: "idb option \<Rightarrow> u64 \<Rightarrow> tool_error + function_range_info" where
  "handle_function_at idb addr =
     with_db idb (\<lambda>db.
       case db_function_at db addr of
         None \<Rightarrow> Inl (FunctionNotFound addr)
       | Some f \<Rightarrow> Inr \<lparr>fr_address = show_addr (fv_start f), fr_name = func_name f, fr_start = show_addr (fv_start f),
             fr_end = show_addr (fv_end f), fr_size = fv_len f\<rparr>)"

section \<open>Strings\<close>

record string_info =
  si_address :: string
  si_content :: string
  si_length :: nat

definition string_info_of :: "u64 \<times> string \<Rightarrow> string_info" where
  "string_info_of s = \<lparr>si_address = show_addr (fst s), si_content = snd s, si_length = length (snd s)\<rparr>"

definition handle_strings ::
  "(string \<Rightarrow> string) \<Rightarrow> idb option \<Rightarrow> nat \<Rightarrow> nat \<Rightarrow> string option \<Rightarrow> tool_error + string_info page" where
  "handle_strings lower idb offset limit filter_text =
     with_db idb (\<lambda>db. Inr (page_of (\<lambda>s. name_filter lower filter_text (snd s)) string_info_of offset limit (db_strings db)))"

text \<open>Push a reference, then stop once there are \<open>max_xrefs\<close>.\<close>

fun xref_sources :: "nat \<Rightarrow> xref_view list \<Rightarrow> string list \<Rightarrow> string list" where
  "xref_sources max_xrefs [] out = out"
| "xref_sources max_xrefs (x # xs) out =
     (let out' = out @ [show_addr (xv_from x)]
      in if max_xrefs \<le> length out' then out' else xref_sources max_xrefs xs out')"

record string_xref_info = string_info +
  sx_xrefs :: "string list"
  sx_xref_count :: nat

definition string_xref_info_of :: "idb \<Rightarrow> nat \<Rightarrow> u64 \<times> string \<Rightarrow> string_xref_info" where
  "string_xref_info_of db max_xrefs s =
     (let xrefs = xref_sources max_xrefs (db_xrefs_to db (fst s)) []
      in \<lparr>si_address = show_addr (fst s), si_content = snd s, si_length = length (snd s),
          sx_xrefs = xrefs, sx_xref_count = length xrefs\<rparr>)"

definition handle_analyze_strings ::
  "(string \<Rightarrow> string) \<Rightarrow> idb option \<Rightarrow> string option \<Rightarrow> nat \<Rightarrow> nat \<Rightarrow> tool_error + string_xref_info page" where
  "handle_analyze_strings lower idb query offset limit =
     with_db idb (\<lambda>db. Inr (page_of (\<lambda>s. name_filter lower query (snd s)) (string_xref_info_of db 64) offset limit
       (db_strings db)))"

definition string_matches :: "(string \<Rightarrow> string) \<Rightarrow> string \<Rightarrow> bool \<Rightarrow> bool \<Rightarrow> string \<Rightarrow> bool" where
  "string_matches lower query exact case_insensitive content =
     (let query_norm = (if case_insensitive then lower query else query);
          hay = (if case_insensitive then lower content else content)
      in if exact then hay = query_norm else str_contains query_norm hay)"

definition handle_find_string ::
  "(string \<Rightarrow> string) \<Rightarrow> idb option \<Rightarrow> string \<Rightarrow> bool \<Rightarrow> bool \<Rightarrow> nat \<Rightarrow> nat \<Rightarrow> tool_error + string_info page" where
  "handle_find_string lower idb query exact case_insensitive offset limit =
     with_db idb (\<lambda>db. Inr (page_of (\<lambda>s. string_matches lower query exact case_insensitive (snd s)) string_info_of
       offset limit (db_strings db)))"

definition handle_xrefs_to_string ::
  "(string \<Rightarrow> string) \<Rightarrow> idb option \<Rightarrow> string \<Rightarrow> bool \<Rightarrow> bool \<Rightarrow> nat \<Rightarrow> nat \<Rightarrow> nat \<Rightarrow> tool_error + string_xref_info page" where
  "handle_xrefs_to_string lower idb query exact case_insensitive offset limit max_xrefs =
     with_db idb (\<lambda>db. Inr (page_of (\<lambda>s. string_matches lower query exact case_insensitive (snd s))
       (string_xref_info_of db (max 1 (min max_xrefs 1024))) offset limit (db_strings db)))"

text \<open>Up to 64 KiB, cut at the first zero byte; \<open>lossy\<close> is \<open>from_utf8_lossy\<close>.\<close>

definition handle_get_string :: "(u8 list \<Rightarrow> string) \<Rightarrow> idb option \<Rightarrow> u64 \<Rightarrow> nat \<Rightarrow> tool_error + string \<times> string \<times> nat \<times> string" where
  "handle_get_string lossy idb addr max_len =
     with_db idb (\<lambda>db.
       let text = takeWhile (\<lambda>b. b \<noteq> 0) (db_get_bytes db addr (min max_len 0x10000))
       in Inr (show_addr addr, lossy text, length text, hex_encode text))"

section \<open>Globals, imports and exports\<close>

record global_info =
  gi_address :: string
  gi_name :: string
  gi_is_public :: bool
  gi_is_weak :: "bool option"

definition handle_list_globals ::
  "(string \<Rightarrow> string) \<Rightarrow> idb option \<Rightarrow> string option \<Rightarrow> nat \<Rightarrow> nat \<Rightarrow> tool_error + global_info page" where
  "handle_list_globals lower idb query offset limit =
     with_db idb (\<lambda>db. Inr (page_of
       (\<lambda>n. name_filter lower query (nv_name n) \<and> db_function_at db (nv_address n) = None)
       (\<lambda>n. \<lparr>gi_address = show_addr (nv_address n), gi_name = nv_name n, gi_is_public = nv_is_public n,
            gi_is_weak = Some (nv_is_weak n)\<rparr>)
       offset limit (db_names db)))"

text \<open>The value at an address or at an exactly named symbol: eight bytes, little endian.\<close>

definition global_address :: "idb \<Rightarrow> string \<Rightarrow> tool_error + u64" where
  "global_address db query =
     (case try_parse_address query of
        Some a \<Rightarrow> Inr a
      | None \<Rightarrow> (case find (\<lambda>n. nv_name n = query) (db_names db) of
            Some n \<Rightarrow> Inr (nv_address n)
          | None \<Rightarrow> Inl (FunctionNameNotFound query)))"

definition le_value :: "u8 list \<Rightarrow> u64" where
  "le_value bytes = foldl (\<lambda>val (i, b). or val (push_bit (i * 8) (ucast b))) 0 (enumerate 0 (take 8 bytes))"

definition handle_get_global_value :: "idb option \<Rightarrow> string \<Rightarrow> tool_error + string \<times> u64 \<times> string \<times> string" where
  "handle_get_global_value idb query =
     with_db idb (\<lambda>db.
       case global_address db query of
         Inl e \<Rightarrow> Inl e
       | Inr addr \<Rightarrow>
           (let bytes = db_get_bytes db addr 8; val = le_value bytes
            in Inr (show_addr addr, val, show_hex (unat val), hex_encode bytes)))"

record import_info =
  ii_address :: string
  ii_name :: string
  ii_ordinal :: nat

definition is_import :: "idb \<Rightarrow> name_view \<Rightarrow> bool" where
  "is_import db n =
     (case db_segment_at db (nv_address n) of Some seg \<Rightarrow> sv_is_extern seg \<or> sv_is_import seg | None \<Rightarrow> False)"

fun imports_loop :: "idb \<Rightarrow> nat \<Rightarrow> nat \<Rightarrow> name_view list \<Rightarrow> nat \<Rightarrow> import_info list \<Rightarrow> import_info list" where
  "imports_loop db offset limit [] count out = out"
| "imports_loop db offset limit (n # ns) count out =
     (if \<not> is_import db n then imports_loop db offset limit ns count out
      else if count < offset then imports_loop db offset limit ns (count + 1) out
      else if limit \<le> length out then out
      else imports_loop db offset limit ns (count + 1)
             (out @ [\<lparr>ii_address = show_addr (nv_address n), ii_name = nv_name n, ii_ordinal = count\<rparr>]))"

definition handle_imports :: "idb option \<Rightarrow> nat \<Rightarrow> nat \<Rightarrow> tool_error + import_info list" where
  "handle_imports idb offset limit = with_db idb (\<lambda>db. Inr (imports_loop db offset limit (db_names db) 0 []))"

record export_info =
  ei_address :: string
  ei_name :: string
  ei_is_public :: bool

fun exports_loop :: "nat \<Rightarrow> nat \<Rightarrow> name_view list \<Rightarrow> nat \<Rightarrow> export_info list \<Rightarrow> export_info list" where
  "exports_loop offset limit [] count out = out"
| "exports_loop offset limit (n # ns) count out =
     (if count < offset then exports_loop offset limit ns (count + 1) out
      else if limit \<le> length out then out
      else exports_loop offset limit ns (count + 1)
             (out @ [\<lparr>ei_address = show_addr (nv_address n), ei_name = nv_name n, ei_is_public = nv_is_public n\<rparr>]))"

definition handle_exports :: "idb option \<Rightarrow> nat \<Rightarrow> nat \<Rightarrow> tool_error + export_info list" where
  "handle_exports idb offset limit = with_db idb (\<lambda>db. Inr (exports_loop offset limit (db_names db) 0 []))"

text \<open>The entry table up to its first repetition, then the start address when it is not in it.\<close>

fun entries_loop :: "u64 list \<Rightarrow> u64 list \<Rightarrow> u64 list" where
  "entries_loop [] seen = seen"
| "entries_loop (a # as) seen = (if a \<in> set seen then seen else entries_loop as (seen @ [a]))"

definition handle_entrypoints :: "(idb \<Rightarrow> u64 list) \<Rightarrow> (idb \<Rightarrow> u64 option) \<Rightarrow> idb option \<Rightarrow> tool_error + string list" where
  "handle_entrypoints entries start_address idb =
     with_db idb (\<lambda>db.
       let seen = entries_loop (entries db) []
       in Inr (map show_addr (case start_address db of
            Some a \<Rightarrow> if a \<in> set seen then seen else seen @ [a]
          | None \<Rightarrow> seen)))"

section \<open>Cross references\<close>

record xref_info =
  xi_from :: string
  xi_to :: string
  xi_type :: xref_type
  xi_is_code :: bool

definition to_xref_info :: "xref_view \<Rightarrow> xref_info" where
  "to_xref_info x = \<lparr>xi_from = show_addr (xv_from x), xi_to = show_addr (xv_to x), xi_type = xv_type x, xi_is_code = xv_is_code x\<rparr>"

record xref_list_result =
  xl_xrefs :: "xref_info list"
  xl_truncated :: bool
  xl_next :: "nat option"

definition collect_window :: "xref_view list \<Rightarrow> nat \<Rightarrow> nat \<Rightarrow> xref_list_result" where
  "collect_window chain offset limit =
     (case take_window offset limit chain 0 [] of
        (window, truncated) \<Rightarrow>
          (let xrefs = map to_xref_info window
           in \<lparr>xl_xrefs = xrefs, xl_truncated = truncated,
               xl_next = (if truncated then Some (offset + length xrefs) else None)\<rparr>))"

definition handle_xrefs_to :: "idb option \<Rightarrow> u64 \<Rightarrow> nat \<Rightarrow> nat \<Rightarrow> tool_error + xref_list_result" where
  "handle_xrefs_to idb addr offset limit = with_db idb (\<lambda>db. Inr (collect_window (db_xrefs_to db addr) offset limit))"

definition handle_xrefs_from :: "idb option \<Rightarrow> u64 \<Rightarrow> nat \<Rightarrow> nat \<Rightarrow> tool_error + xref_list_result" where
  "handle_xrefs_from idb addr offset limit = with_db idb (\<lambda>db. Inr (collect_window (db_xrefs_from db addr) offset limit))"

text \<open>The map holds the last set inserted for an address; equal addresses have equal sets.\<close>

definition handle_xref_matrix :: "idb option \<Rightarrow> u64 list \<Rightarrow> tool_error + string list \<times> bool list list" where
  "handle_xref_matrix idb addrs =
     with_db idb (\<lambda>db.
       let xref_map = fold (\<lambda>a m. m(a \<mapsto> xv_to ` set (db_xrefs_from db a))) addrs (\<lambda>_. None)
       in Inr (map show_addr addrs,
            map (\<lambda>from. map (\<lambda>to. case xref_map from of Some s \<Rightarrow> to \<in> s | None \<Rightarrow> False) addrs) addrs))"

section \<open>Types\<close>

text \<open>\<open>1..limit\<close>, skipping ordinals that are not of the kind asked for.\<close>

definition ordinals :: "(nat \<Rightarrow> 'a option) \<Rightarrow> nat \<Rightarrow> 'a list" where
  "ordinals info limit = List.map_filter info [1..<limit]"

record struct_summary =
  sm_ordinal :: u32
  sm_name :: string
  sm_size :: u64
  sm_is_union :: bool
  sm_member_count :: nat

definition handle_structs ::
  "(string \<Rightarrow> string) \<Rightarrow> idb option \<Rightarrow> nat \<Rightarrow> nat \<Rightarrow> string option \<Rightarrow> tool_error + struct_summary page" where
  "handle_structs lower idb offset limit filter_text =
     with_db idb (\<lambda>db. Inr (page_of (\<lambda>u. name_filter lower filter_text (uv_name u))
       (\<lambda>u. \<lparr>sm_ordinal = uv_ordinal u, sm_name = uv_name u, sm_size = uv_size u, sm_is_union = uv_is_union u,
            sm_member_count = uv_member_count u\<rparr>)
       offset limit (ordinals (db_udt_info db) (db_udt_limit db))))"

definition handle_local_types ::
  "(string \<Rightarrow> string) \<Rightarrow> idb option \<Rightarrow> nat \<Rightarrow> nat \<Rightarrow> string option \<Rightarrow> tool_error + local_type_view page" where
  "handle_local_types lower idb offset limit filter_text =
     with_db idb (\<lambda>db. Inr (page_of (\<lambda>t. name_filter lower filter_text (lt_name t)) id offset limit
       (ordinals (db_local_type db) (db_udt_limit db))))"

section \<open>The contract of a listing\<close>

text \<open>A handler answers with the window of the whole listing that was asked for.\<close>

locale windowed =
  fixes items :: "nat \<Rightarrow> nat \<Rightarrow> 'a list" and whole :: "'a list"
  assumes items_window: "items limit offset = take limit (drop offset whole)"
begin

lemma consecutive: "items m offset @ items n (offset + m) = items (m + n) offset"
  by (simp add: items_window take_add add.commute)

lemma items_length: "length (items limit offset) \<le> limit"
  by (simp add: items_window)

end

text \<open>A client that asks for the next page until there is none.\<close>

partial_function (option) follow_pages :: "(nat \<Rightarrow> 'a list \<times> nat option) \<Rightarrow> nat \<Rightarrow> 'a list option" where
  "follow_pages page offset =
     (case snd (page offset) of
        None \<Rightarrow> Some (fst (page offset))
      | Some offset' \<Rightarrow> Option.bind (follow_pages page offset') (\<lambda>rest. Some (fst (page offset) @ rest)))"

locale paged = windowed items whole for items :: "nat \<Rightarrow> nat \<Rightarrow> 'a list" and whole +
  fixes following :: "nat \<Rightarrow> nat \<Rightarrow> nat option"
  assumes following_window: "length whole \<le> USIZE_MAX \<Longrightarrow>
    following limit offset =
      (if offset + length (items limit offset) < length whole then Some (offset + length (items limit offset)) else None)"
begin

lemma follow_from:
  assumes "0 < limit" "length whole \<le> USIZE_MAX" "offset \<le> length whole"
  shows "follow_pages (\<lambda>k. (items limit k, following limit k)) offset = Some (drop offset whole)"
  using assms(3)
proof (induction "length whole - offset" arbitrary: offset rule: less_induct)
  case less
  let ?n = "length (items limit offset)"
  show ?case
  proof (cases "offset + ?n < length whole")
    case True
    have "?n = limit" using True less.prems by (simp add: items_window)
    then have n: "?n = limit" "items limit offset = take limit (drop offset whole)" by (simp_all add: items_window)
    have "length whole - (offset + limit) < length whole - offset" using True n assms(1) by simp
    then have "follow_pages (\<lambda>k. (items limit k, following limit k)) (offset + limit) = Some (drop (offset + limit) whole)"
      using True n by (intro less.hyps) simp_all
    moreover have "following limit offset = Some (offset + limit)"
      using True n(1) following_window [OF assms(2), of limit offset] by simp
    ultimately show ?thesis
      by (subst follow_pages.simps) (simp add: n(2) add.commute flip: drop_drop)
  next
    case False
    then have "length whole - offset \<le> limit" using less.prems by (simp add: items_window)
    then have "items limit offset = drop offset whole" by (simp add: items_window)
    moreover have "following limit offset = None" using False following_window [OF assms(2), of limit offset] by simp
    ultimately show ?thesis by (subst follow_pages.simps) simp
  qed
qed

lemma follow_all:
  "0 < limit \<Longrightarrow> length whole \<le> USIZE_MAX \<Longrightarrow> follow_pages (\<lambda>k. (items limit k, following limit k)) 0 = Some whole"
  using follow_from [of limit 0] by simp

end

section \<open>The handlers keep the contract\<close>

lemma take_room_Cons: "k < limit \<Longrightarrow> take (limit - k) (x # xs) = x # take (limit - Suc k) xs"
  by (simp add: Suc_diff_Suc [symmetric])

lemma page_loop_spec:
  "(n < offset \<longrightarrow> out = []) \<Longrightarrow>
   page_loop keep render offset limit xs n out =
     (out @ take (limit - length out) (drop (offset - n) (map render (filter keep xs))), n + length (filter keep xs))"
proof (induction xs arbitrary: n out)
  case (Cons x xs)
  show ?case
  proof (cases "keep x")
    case True
    show ?thesis
    proof (cases "n < offset")
      case True
      then have "offset - n = Suc (offset - Suc n)" by simp
      with True Cons \<open>keep x\<close> show ?thesis by simp
    next
      case False
      then show ?thesis using Cons True by (cases "limit \<le> length out") (simp_all add: take_room_Cons)
    qed
  qed (use Cons in simp)
qed simp

lemma page_of_spec:
  "pg_items (page_of keep render offset limit xs) = take limit (drop offset (map render (filter keep xs)))"
  "pg_total (page_of keep render offset limit xs) = length (filter keep xs)"
  by (simp_all add: page_of_def page_loop_spec)

lemma page_of_next:
  assumes "length (filter keep xs) \<le> USIZE_MAX"
  shows "pg_next (page_of keep render offset limit xs) =
     (let n = offset + length (pg_items (page_of keep render offset limit xs))
      in if n < length (filter keep xs) then Some n else None)"
proof -
  have "min (offset + k) USIZE_MAX < length (filter keep xs) \<longleftrightarrow> offset + k < length (filter keep xs)" for k
    using assms by auto
  moreover have "offset + k < length (filter keep xs) \<Longrightarrow> min (offset + k) USIZE_MAX = offset + k" for k
    using assms by simp
  ultimately show ?thesis by (auto simp: page_of_def page_loop_spec next_offset_def Let_def)
qed

interpretation filtered: paged "\<lambda>limit offset. pg_items (page_of keep render offset limit xs)"
  "map render (filter keep xs)" "\<lambda>limit offset. pg_next (page_of keep render offset limit xs)"
  for keep :: "'a \<Rightarrow> bool" and render :: "'a \<Rightarrow> 'b" and xs
  by unfold_locales (auto simp: page_of_spec page_of_next Let_def)

lemma take_window_spec:
  "(n < offset \<longrightarrow> out = []) \<Longrightarrow> length out \<le> limit \<Longrightarrow>
   take_window offset limit xs n out =
     (out @ take (limit - length out) (drop (offset - n) xs), limit - length out < length (drop (offset - n) xs))"
proof (induction xs arbitrary: n out)
  case (Cons x xs)
  show ?case
  proof (cases "n < offset")
    case True
    then have "offset - n = Suc (offset - Suc n)" by simp
    with True Cons show ?thesis by simp
  next
    case False
    show ?thesis
    proof (cases "length out = limit")
      case True
      with False Cons show ?thesis by simp
    next
      case neq: False
      then have "limit - length out = Suc (limit - Suc (length out))" using Cons.prems by simp
      with neq False Cons show ?thesis by simp
    qed
  qed
qed simp

lemma collect_window_spec:
  "xl_xrefs (collect_window chain offset limit) = take limit (drop offset (map to_xref_info chain))"
  "xl_truncated (collect_window chain offset limit) \<longleftrightarrow> offset + limit < length chain"
  by (auto simp: collect_window_def take_window_spec take_map drop_map Let_def)

interpretation xref_chain: paged "\<lambda>limit offset. xl_xrefs (collect_window chain offset limit)"
  "map to_xref_info chain" "\<lambda>limit offset. xl_next (collect_window chain offset limit)" for chain
  by unfold_locales (auto simp: collect_window_def take_window_spec take_map drop_map Let_def)

lemma exports_loop_spec:
  "(n < offset \<longrightarrow> out = []) \<Longrightarrow>
   exports_loop offset limit ns n out = out @ take (limit - length out) (drop (offset - n)
     (map (\<lambda>v. \<lparr>ei_address = show_addr (nv_address v), ei_name = nv_name v, ei_is_public = nv_is_public v\<rparr>) ns))"
proof (induction ns arbitrary: n out)
  case (Cons v ns)
  show ?case
  proof (cases "n < offset")
    case True
    then have "offset - n = Suc (offset - Suc n)" by simp
    with True Cons show ?thesis by simp
  next
    case False
    then show ?thesis using Cons by (cases "limit \<le> length out") (simp_all add: take_room_Cons)
  qed
qed simp

interpretation exported: windowed "\<lambda>limit offset. exports_loop offset limit ns 0 []"
  "map (\<lambda>v. \<lparr>ei_address = show_addr (nv_address v), ei_name = nv_name v, ei_is_public = nv_is_public v\<rparr>) ns" for ns
  by unfold_locales (simp add: exports_loop_spec)

definition import_info_of :: "nat \<times> name_view \<Rightarrow> import_info" where
  "import_info_of c = \<lparr>ii_address = show_addr (nv_address (snd c)), ii_name = nv_name (snd c), ii_ordinal = fst c\<rparr>"

lemma imports_loop_spec:
  "(n < offset \<longrightarrow> out = []) \<Longrightarrow>
   imports_loop db offset limit ns n out =
     out @ take (limit - length out) (drop (offset - n) (map import_info_of (enumerate n (filter (is_import db) ns))))"
proof (induction ns arbitrary: n out)
  case (Cons v ns)
  show ?case
  proof (cases "is_import db v")
    case True
    show ?thesis
    proof (cases "n < offset")
      case True
      then have "offset - n = Suc (offset - Suc n)" by simp
      with True Cons \<open>is_import db v\<close> show ?thesis by simp
    next
      case False
      then show ?thesis using Cons True
        by (cases "limit \<le> length out") (simp_all add: take_room_Cons import_info_of_def)
    qed
  qed (use Cons in simp)
qed simp

interpretation imported: windowed "\<lambda>limit offset. imports_loop db offset limit ns 0 []"
  "map import_info_of (enumerate 0 (filter (is_import db) ns))" for db ns
  by unfold_locales (simp add: imports_loop_spec)

section \<open>Properties\<close>

text \<open>What a client reads off the answer to one page.\<close>

definition page_answer :: "tool_error + 'a page \<Rightarrow> 'a list \<times> nat option" where
  "page_answer r = (case r of Inr p \<Rightarrow> (pg_items p, pg_next p) | Inl _ \<Rightarrow> ([], None))"

definition xref_answer :: "tool_error + xref_list_result \<Rightarrow> xref_info list \<times> nat option" where
  "xref_answer r = (case r of Inr x \<Rightarrow> (xl_xrefs x, xl_next x) | Inl _ \<Rightarrow> ([], None))"

lemma page_answer_ok: "page_answer (with_db (Some db) (\<lambda>db. Inr (page_of (keep db) (render db) offset limit (xs db))))
   = (pg_items (page_of (keep db) (render db) offset limit (xs db)), pg_next (page_of (keep db) (render db) offset limit (xs db)))"
  by (simp add: page_answer_def with_db_def)

lemma xref_answer_ok: "xref_answer (with_db (Some db) (\<lambda>db. Inr (collect_window (chain db) offset limit)))
   = (xl_xrefs (collect_window (chain db) offset limit), xl_next (collect_window (chain db) offset limit))"
  by (simp add: xref_answer_def with_db_def)

lemma follow_filtered:
  assumes "0 < limit" "length xs \<le> USIZE_MAX"
  shows "follow_pages (\<lambda>k. (pg_items (page_of keep render k limit xs), pg_next (page_of keep render k limit xs))) 0
    = Some (map render (filter keep xs))"
proof (rule filtered.follow_all [OF assms(1)])
  show "length (map render (filter keep xs)) \<le> USIZE_MAX"
    using le_trans [OF length_filter_le assms(2)] by simp
qed

text \<open>
  C18: Paging loses and repeats nothing. A client that asks for pages of any positive size
  and follows \<open>next_offset\<close> until there is none gets an answer after finitely many pages,
  and it is exactly the list of all matching functions, strings, globals, structs, local
  types or cross references, in the order of the database, each one once.
\<close>

theorem listing_pages_complete:
  assumes "0 < limit"
    and "length (db_functions db) \<le> USIZE_MAX" and "length (db_strings db) \<le> USIZE_MAX"
    and "length (db_names db) \<le> USIZE_MAX" and "db_udt_limit db \<le> USIZE_MAX"
    and "length (db_xrefs_to db addr) \<le> USIZE_MAX"
  shows "follow_pages (\<lambda>k. page_answer (handle_list_functions lower (Some db) k limit flt)) 0
        = Some (map function_info_of (filter (\<lambda>f. name_filter lower flt (func_name f)) (db_functions db)))
     \<and> follow_pages (\<lambda>k. page_answer (handle_strings lower (Some db) k limit flt)) 0
        = Some (map string_info_of (filter (\<lambda>s. name_filter lower flt (snd s)) (db_strings db)))
     \<and> follow_pages (\<lambda>k. page_answer (handle_find_string lower (Some db) q exact ci k limit)) 0
        = Some (map string_info_of (filter (\<lambda>s. string_matches lower q exact ci (snd s)) (db_strings db)))
     \<and> map_option (map gi_name) (follow_pages (\<lambda>k. page_answer (handle_list_globals lower (Some db) flt k limit)) 0)
        = Some (map nv_name (filter (\<lambda>n. name_filter lower flt (nv_name n) \<and> db_function_at db (nv_address n) = None) (db_names db)))
     \<and> map_option (map sm_name) (follow_pages (\<lambda>k. page_answer (handle_structs lower (Some db) k limit flt)) 0)
        = Some (map uv_name (filter (\<lambda>u. name_filter lower flt (uv_name u)) (ordinals (db_udt_info db) (db_udt_limit db))))
     \<and> follow_pages (\<lambda>k. page_answer (handle_local_types lower (Some db) k limit flt)) 0
        = Some (filter (\<lambda>t. name_filter lower flt (lt_name t)) (ordinals (db_local_type db) (db_udt_limit db)))
     \<and> follow_pages (\<lambda>k. xref_answer (handle_xrefs_to (Some db) addr k limit)) 0
        = Some (map to_xref_info (db_xrefs_to db addr))"
proof -
  have len: "length (ordinals info (db_udt_limit db)) \<le> USIZE_MAX" for info :: "nat \<Rightarrow> 'x option"
    using le_trans [OF length_filter_le, of "[1..<db_udt_limit db]" USIZE_MAX "\<lambda>x. info x \<noteq> None"] assms(5)
    by (simp add: ordinals_def map_filter_def)
  note follow = follow_filtered [OF assms(1)]
  have "follow_pages (\<lambda>k. page_answer (handle_list_functions lower (Some db) k limit flt)) 0
        = Some (map function_info_of (filter (\<lambda>f. name_filter lower flt (func_name f)) (db_functions db)))"
    unfolding handle_list_functions_def page_answer_ok by (rule follow [OF assms(2)])
  moreover have "follow_pages (\<lambda>k. page_answer (handle_strings lower (Some db) k limit flt)) 0
        = Some (map string_info_of (filter (\<lambda>s. name_filter lower flt (snd s)) (db_strings db)))"
    unfolding handle_strings_def page_answer_ok by (rule follow [OF assms(3)])
  moreover have "follow_pages (\<lambda>k. page_answer (handle_find_string lower (Some db) q exact ci k limit)) 0
        = Some (map string_info_of (filter (\<lambda>s. string_matches lower q exact ci (snd s)) (db_strings db)))"
    unfolding handle_find_string_def page_answer_ok by (rule follow [OF assms(3)])
  moreover have "map_option (map gi_name) (follow_pages (\<lambda>k. page_answer (handle_list_globals lower (Some db) flt k limit)) 0)
        = Some (map nv_name (filter (\<lambda>n. name_filter lower flt (nv_name n) \<and> db_function_at db (nv_address n) = None) (db_names db)))"
    unfolding handle_list_globals_def page_answer_ok follow [OF assms(4)] by simp
  moreover have "map_option (map sm_name) (follow_pages (\<lambda>k. page_answer (handle_structs lower (Some db) k limit flt)) 0)
        = Some (map uv_name (filter (\<lambda>u. name_filter lower flt (uv_name u)) (ordinals (db_udt_info db) (db_udt_limit db))))"
    unfolding handle_structs_def page_answer_ok follow [OF len] by simp
  moreover have "follow_pages (\<lambda>k. page_answer (handle_local_types lower (Some db) k limit flt)) 0
        = Some (filter (\<lambda>t. name_filter lower flt (lt_name t)) (ordinals (db_local_type db) (db_udt_limit db)))"
    unfolding handle_local_types_def page_answer_ok follow [OF len] by simp
  moreover have "follow_pages (\<lambda>k. xref_answer (handle_xrefs_to (Some db) addr k limit)) 0
        = Some (map to_xref_info (db_xrefs_to db addr))"
    unfolding handle_xrefs_to_def xref_answer_ok by (rule xref_chain.follow_all [OF assms(1)]) (simp add: assms(6))
  ultimately show ?thesis by blast
qed

text \<open>A database with three functions, read in pages of two.\<close>

definition demo_function :: "u64 \<Rightarrow> string \<Rightarrow> func_view" where
  "demo_function a n = \<lparr>fv_start = a, fv_end = a + 16, fv_name = Some n, fv_len = 16\<rparr>"

definition demo_db :: idb where
  "demo_db = \<lparr>db_functions = [demo_function 0x1000 ''alpha'', demo_function 0x2000 ''beta'', demo_function 0x3000 ''delta''],
     db_function_at = (\<lambda>_. None), db_names = [], db_has_name = (\<lambda>_. False), db_closest_name = (\<lambda>_. None),
     db_segments = [], db_segment_at = (\<lambda>_. None), db_strings = [], db_get_bytes = (\<lambda>_ _. []), db_insn_at = (\<lambda>_. None),
     db_next_head = (\<lambda>_. None), db_next_head_with = (\<lambda>_ _. None), db_disasm_line = (\<lambda>_. None), db_address_name = (\<lambda>_. None),
     db_xrefs_from = (\<lambda>_. []), db_xrefs_to = (\<lambda>_. []), db_cfg = (\<lambda>_. Inl []), db_contains = (\<lambda>_ _. False),
     db_udt_limit = 0, db_udt_info = (\<lambda>_. None), db_udt_member = (\<lambda>_ _. None), db_udt_member_tid = (\<lambda>_ _. None),
     db_local_type = (\<lambda>_. None), db_tid_xrefs = (\<lambda>_. [])\<rparr>"

theorem listing_pages_complete_witness:
  "map_option (map fi_name) (follow_pages (\<lambda>k. page_answer (handle_list_functions id (Some demo_db) k 2 None)) 0)
   = Some [''alpha'', ''beta'', ''delta'']"
proof -
  have "3 \<le> USIZE_MAX" unfolding USIZE_MAX_def by simp
  then show ?thesis
    using listing_pages_complete [of 2 demo_db 0 id None]
    by (simp add: demo_db_def demo_function_def name_filter_def function_info_of_def func_name_def)
qed

end
