(* ===== verification/Control_Flow.thy ===== *)
theory Control_Flow
  imports Listing "HOL-Library.Product_Lexorder"
begin

text \<open>
  \<open>src/src/ida/handlers/controlflow.rs\<close>: callers, callees, the call graph around a function and
  the paths between two addresses of a function.
\<close>

section \<open>Callers and callees\<close>

text \<open>The collected functions with the addresses already seen.\<close>

type_synonym callee_state = "function_info list \<times> u64 list"

definition add_callee :: "idb \<Rightarrow> u64 \<Rightarrow> callee_state \<Rightarrow> callee_state" where
  "add_callee db target st =
     (case st of (callees, seen) \<Rightarrow>
        case db_function_at db target of
          Some f \<Rightarrow>
            if fv_start f \<in> set seen then (callees, seen)
            else (callees @ [function_info_of f], fv_start f # seen)
        | None \<Rightarrow>
            if target \<in> set seen then (callees, seen)
            else (callees @ [\<lparr>fi_address = show_addr target,
                    fi_name = (case db_address_name db target of Some n \<Rightarrow> n | None \<Rightarrow> ''sub_'' @ show_base 16 (unat target)),
                    fi_size = 0\<rparr>], target # seen))"

definition is_call_xref :: "xref_view \<Rightarrow> bool" where
  "is_call_xref x \<longleftrightarrow> xv_type x = NearCall \<or> xv_type x = FarCall"

definition first_some :: "'a option list \<Rightarrow> 'a option" where
  "first_some xs = (case filter (\<lambda>x. x \<noteq> None) xs of x # _ \<Rightarrow> x | [] \<Rightarrow> None)"

definition direct_call_target :: "idb \<Rightarrow> u64 \<Rightarrow> u64 option" where
  "direct_call_target db addr =
     (case db_insn_at db addr of
        None \<Rightarrow> None
      | Some insn \<Rightarrow> if iv_is_call insn then first_some (iv_branch_targets insn) else None)"

text \<open>What one address adds: its call references or, without any, its direct target.\<close>

definition callees_at :: "idb \<Rightarrow> u64 \<Rightarrow> callee_state \<Rightarrow> callee_state" where
  "callees_at db addr st =
     (let calls = filter is_call_xref (db_xrefs_from db addr)
      in if calls \<noteq> [] then fold (\<lambda>x. add_callee db (xv_to x)) calls st
         else case direct_call_target db addr of Some target \<Rightarrow> add_callee db target st | None \<Rightarrow> st)"

definition callee_step :: "idb \<Rightarrow> u64 \<Rightarrow> u64 option" where
  "callee_step db addr =
     (case db_insn_at db addr of
        Some insn \<Rightarrow> Some (if unat addr + iv_len insn < 2 ^ 64 then addr + of_nat (iv_len insn) else - 1)
      | None \<Rightarrow> db_next_head db addr)"

function callees_walk :: "idb \<Rightarrow> u64 \<Rightarrow> u64 \<Rightarrow> callee_state \<Rightarrow> callee_state" where
  "callees_walk db end_addr addr st =
     (if addr < end_addr
      then (let st' = callees_at db addr st
            in case callee_step db addr of
                 Some n \<Rightarrow> if n \<le> addr then st' else callees_walk db end_addr n st'
               | None \<Rightarrow> st')
      else st)"
  by pat_completeness auto
termination
  by (relation "measure (\<lambda>(_, end_addr, addr, _). unat end_addr - unat addr)") (auto simp: word_less_nat_alt word_le_nat_alt)

declare callees_walk.simps [simp del]

definition handle_callees :: "idb option \<Rightarrow> u64 \<Rightarrow> tool_error + function_info list" where
  "handle_callees idb addr =
     with_db idb (\<lambda>db.
       case db_function_at db addr of
         None \<Rightarrow> Inl (FunctionNotFound addr)
       | Some f \<Rightarrow> Inr (fst (callees_walk db (fv_end f) (fv_start f) ([], []))))"

fun callers_loop :: "idb \<Rightarrow> xref_view list \<Rightarrow> callee_state \<Rightarrow> callee_state" where
  "callers_loop db [] st = st"
| "callers_loop db (x # xs) (callers, seen) =
     callers_loop db xs
       (if is_call_xref x
        then (case db_function_at db (xv_from x) of
                Some f \<Rightarrow> if fv_start f \<in> set seen then (callers, seen) else (callers @ [function_info_of f], fv_start f # seen)
              | None \<Rightarrow> (callers, seen))
        else (callers, seen))"

definition handle_callers :: "idb option \<Rightarrow> u64 \<Rightarrow> tool_error + function_info list" where
  "handle_callers idb addr =
     with_db idb (\<lambda>db.
       case db_function_at db addr of
         None \<Rightarrow> Inl (FunctionNotFound addr)
       | Some f \<Rightarrow> Inr (fst (callers_loop db (db_xrefs_to db (fv_start f)) ([], []))))"

section \<open>The call graph\<close>

datatype call_graph_direction = Callees | Callers | Both

definition callgraph_frontier :: "tool_error + function_info list \<Rightarrow> tool_error + function_info list" where
  "callgraph_frontier r = (case r of Inl (FunctionNotFound _) \<Rightarrow> Inr [] | _ \<Rightarrow> r)"

text \<open>A relation: from, to, and the function that it leads to with its address.\<close>

type_synonym relation = "u64 \<times> u64 \<times> u64 \<times> function_info"

definition parsed :: "(u64 \<Rightarrow> function_info \<Rightarrow> relation) \<Rightarrow> function_info list \<Rightarrow> relation list" where
  "parsed mk fs = List.map_filter (\<lambda>f. case parse_address_str (fi_address f) of Inr a \<Rightarrow> Some (mk a f) | Inl _ \<Rightarrow> None) fs"

definition callee_relations :: "idb option \<Rightarrow> call_graph_direction \<Rightarrow> u64 \<Rightarrow> tool_error + relation list" where
  "callee_relations idb dir cur =
     (if dir = Callers then Inr []
      else map_sum id (parsed (\<lambda>a f. (cur, a, a, f))) (callgraph_frontier (handle_callees idb cur)))"

definition caller_relations :: "idb option \<Rightarrow> call_graph_direction \<Rightarrow> u64 \<Rightarrow> tool_error + relation list" where
  "caller_relations idb dir cur =
     (if dir = Callees then Inr []
      else map_sum id (parsed (\<lambda>a f. (a, cur, a, f))) (callgraph_frontier (handle_callers idb cur)))"

definition relations_of :: "idb option \<Rightarrow> call_graph_direction \<Rightarrow> u64 \<Rightarrow> tool_error + relation list" where
  "relations_of idb dir cur =
     (case callee_relations idb dir cur of
        Inl e \<Rightarrow> Inl e
      | Inr rs \<Rightarrow>
          (case caller_relations idb dir cur of
             Inl e \<Rightarrow> Inl e
           | Inr rs' \<Rightarrow> Inr (sort_key (\<lambda>(from, to, _). (from, to)) (rs @ rs'))))"

record graph_state =
  gs_nodes :: "(u64, function_info) hashmap"
  gs_edges :: "(u64 \<times> u64) list"
  gs_queue :: "(u64 \<times> nat) list"
  gs_truncated :: bool

definition add_relation :: "nat \<Rightarrow> nat \<Rightarrow> relation \<Rightarrow> graph_state \<Rightarrow> graph_state" where
  "add_relation max_nodes depth r g =
     (case r of (from, to, discovered_addr, discovered) \<Rightarrow>
        if hm_get (gs_nodes g) discovered_addr = None
        then if max_nodes \<le> length (gs_nodes g) then g\<lparr>gs_truncated := True\<rparr>
             else g\<lparr>gs_nodes := hm_insert discovered_addr discovered (gs_nodes g),
                    gs_queue := gs_queue g @ [(discovered_addr, depth + 1)],
                    gs_edges := insort_insert (from, to) (gs_edges g)\<rparr>
        else g\<lparr>gs_edges := insort_insert (from, to) (gs_edges g)\<rparr>)"

text \<open>The loop over the queue; \<open>expand\<close> gives the relations of a function.\<close>

partial_function (option) graph_loop ::
  "(u64 \<Rightarrow> tool_error + relation list) \<Rightarrow> nat \<Rightarrow> nat \<Rightarrow> graph_state \<Rightarrow> (tool_error + graph_state) option" where
  "graph_loop expand max_depth max_nodes g =
     (case gs_queue g of
        [] \<Rightarrow> Some (Inr g)
      | (cur, depth) # queue \<Rightarrow>
          if max_depth \<le> depth then graph_loop expand max_depth max_nodes (g\<lparr>gs_queue := queue\<rparr>)
          else (case expand cur of
                  Inl e \<Rightarrow> Some (Inl e)
                | Inr rs \<Rightarrow>
                    graph_loop expand max_depth max_nodes (fold (add_relation max_nodes depth) rs (g\<lparr>gs_queue := queue\<rparr>))))"

text \<open>The answer: the nodes by address, the edges in order and whether the graph was cut.\<close>

definition handle_callgraph ::
  "idb option \<Rightarrow> u64 \<Rightarrow> call_graph_direction \<Rightarrow> nat \<Rightarrow> nat
     \<Rightarrow> (tool_error + function_info list \<times> (u64 \<times> u64) list \<times> bool) option" where
  "handle_callgraph idb addr dir max_depth max_nodes =
     (case idb of
        None \<Rightarrow> Some (Inl NoDatabaseOpen)
      | Some db \<Rightarrow>
          (case db_function_at db addr of
             None \<Rightarrow> Some (Inl (FunctionNotFound addr))
           | Some root \<Rightarrow>
               map_option (map_sum id (\<lambda>g. (map snd (sort_key fst (gs_nodes g)), gs_edges g, gs_truncated g)))
                 (graph_loop (relations_of idb dir) (max max_depth 1) (max max_nodes 1)
                    \<lparr>gs_nodes = [(fv_start root, function_info_of root)], gs_edges = [],
                     gs_queue = [(fv_start root, 0)], gs_truncated = False\<rparr>)))"

section \<open>Paths\<close>

definition block_contains :: "block_view \<Rightarrow> u64 \<Rightarrow> bool" where
  "block_contains b a \<longleftrightarrow> bv_start b \<le> a \<and> a < bv_end b"

text \<open>The last block with a start address wins in the index; the first that contains an address is its block.\<close>

definition index_by_start :: "block_view list \<Rightarrow> u64 \<Rightarrow> nat option" where
  "index_by_start blocks = fold (\<lambda>(i, b) m. m(bv_start b \<mapsto> i)) (enumerate 0 blocks) (\<lambda>_. None)"

definition block_position :: "block_view list \<Rightarrow> u64 \<Rightarrow> nat option" where
  "block_position blocks a = map_option fst (find (\<lambda>(i, b). block_contains b a) (enumerate 0 blocks))"

function (sequential) dfs :: "block_view list \<Rightarrow> nat \<Rightarrow> nat \<Rightarrow> nat \<Rightarrow> nat \<Rightarrow> nat list \<Rightarrow> string list list \<Rightarrow> string list list"
  and dfs_succs :: "block_view list \<Rightarrow> nat \<Rightarrow> nat \<Rightarrow> nat \<Rightarrow> u64 list \<Rightarrow> nat list \<Rightarrow> string list list \<Rightarrow> string list list" where
  "dfs blocks end_idx max_depth max_paths cur path results =
     (if max_paths \<le> length results then results
      else if max_depth < length path then results
      else (let path' = path @ [cur]
            in if cur = end_idx then results @ [map (\<lambda>i. show_addr (bv_start (blocks ! i))) path']
               else dfs_succs blocks end_idx max_depth max_paths (bv_succs (blocks ! cur)) path' results))"
| "dfs_succs blocks end_idx max_depth max_paths [] path results = results"
| "dfs_succs blocks end_idx max_depth max_paths (s # ss) path results =
     (case index_by_start blocks s of
        None \<Rightarrow> dfs_succs blocks end_idx max_depth max_paths ss path results
      | Some n \<Rightarrow>
          if n \<in> set path then dfs_succs blocks end_idx max_depth max_paths ss path results
          else (let results' = dfs blocks end_idx max_depth max_paths n path results
                in if max_paths \<le> length results' then results'
                   else dfs_succs blocks end_idx max_depth max_paths ss path results'))"
  by pat_completeness auto
termination
  by (relation "measures [
      \<lambda>x. (case x of Inl (_, _, max_depth, _, _, path, _) \<Rightarrow> Suc max_depth - length path
                   | Inr (_, _, max_depth, _, _, path, _) \<Rightarrow> Suc max_depth - length path),
      \<lambda>x. (case x of Inl _ \<Rightarrow> 0 | Inr (_, _, _, _, ss, _, _) \<Rightarrow> Suc (length ss))]")
    auto

declare dfs.simps [simp del] dfs_succs.simps [simp del]

definition handle_find_paths :: "idb option \<Rightarrow> u64 \<Rightarrow> u64 \<Rightarrow> nat \<Rightarrow> nat \<Rightarrow> tool_error + string list list \<times> nat" where
  "handle_find_paths idb start end_addr max_paths max_depth =
     with_db idb (\<lambda>db.
       case db_function_at db start of
         None \<Rightarrow> Inl (FunctionNotFound start)
       | Some f \<Rightarrow>
           if \<not> db_contains db (fv_start f) end_addr
           then Inl (NotSupported ''find_paths only supports addresses within the same function'')
           else case db_cfg db (fv_start f) of
             Inl e \<Rightarrow> Inl (IdaError e)
           | Inr blocks \<Rightarrow>
               (case block_position blocks start of
                  None \<Rightarrow> Inl (AddressOutOfRange start)
                | Some start_idx \<Rightarrow>
                    (case block_position blocks end_addr of
                       None \<Rightarrow> Inl (AddressOutOfRange end_addr)
                     | Some end_idx \<Rightarrow>
                         (let results = dfs blocks end_idx (max max_depth 1) (max max_paths 1) start_idx [] []
                          in Inr (results, length results)))))"

section \<open>The search enumerates the simple paths\<close>

definition succ_blocks :: "block_view list \<Rightarrow> nat \<Rightarrow> nat list" where
  "succ_blocks blocks i = List.map_filter (index_by_start blocks) (bv_succs (blocks ! i))"

text \<open>All paths of at most \<open>d\<close> blocks that avoid what was visited, without a bound on their number.\<close>

fun paths_from :: "(nat \<Rightarrow> nat list) \<Rightarrow> nat \<Rightarrow> nat \<Rightarrow> nat list \<Rightarrow> nat \<Rightarrow> nat list list" where
  "paths_from succ end_idx 0 visited cur = []"
| "paths_from succ end_idx (Suc d) visited cur =
     (if cur = end_idx then [[cur]]
      else concat (map (\<lambda>n. map ((#) cur) (paths_from succ end_idx d (visited @ [cur]) n))
             (filter (\<lambda>n. n \<notin> set (visited @ [cur])) (succ cur))))"

definition shown_path :: "block_view list \<Rightarrow> nat list \<Rightarrow> string list" where
  "shown_path blocks p = map (\<lambda>i. show_addr (bv_start (blocks ! i))) p"

lemma take_take_append': "take n (take n xs @ ys) = take n (xs @ ys)"
  by (cases "n \<le> length xs") auto

lemma dfs_spec:
  "length results \<le> max_paths \<Longrightarrow>
   dfs blocks end_idx max_depth max_paths cur path results =
     take max_paths (results @ map (\<lambda>p. shown_path blocks (path @ p))
       (paths_from (succ_blocks blocks) end_idx (Suc max_depth - length path) path cur))"
  and dfs_succs_spec:
  "length results \<le> max_paths \<Longrightarrow>
   dfs_succs blocks end_idx max_depth max_paths ss path results =
     take max_paths (results @ concat (map (\<lambda>n. map (\<lambda>p. shown_path blocks (path @ p))
        (paths_from (succ_blocks blocks) end_idx (Suc max_depth - length path) path n))
       (filter (\<lambda>n. n \<notin> set path) (List.map_filter (index_by_start blocks) ss))))"
proof (induction blocks end_idx max_depth max_paths cur path results
    and blocks end_idx max_depth max_paths ss path results rule: dfs_dfs_succs.induct)
  case (1 blocks end_idx max_depth max_paths cur path results)
  show ?case
  proof (cases "max_paths \<le> length results \<or> max_depth < length path")
    case True
    then show ?thesis using 1(2) by (auto simp: dfs.simps)
  next
    case False
    then have d: "Suc max_depth - length path = Suc (max_depth - length path)" by linarith
    show ?thesis
    proof (cases "cur = end_idx")
      case True
      with False d show ?thesis by (simp add: dfs.simps shown_path_def take_Cons')
    next
      case neq: False
      have "dfs blocks end_idx max_depth max_paths cur path results
          = dfs_succs blocks end_idx max_depth max_paths (bv_succs (blocks ! cur)) (path @ [cur]) results"
        using False neq by (simp add: dfs.simps Let_def)
      also have "\<dots> = take max_paths (results @ concat (map (\<lambda>n. map (\<lambda>p. shown_path blocks ((path @ [cur]) @ p))
          (paths_from (succ_blocks blocks) end_idx (Suc max_depth - length (path @ [cur])) (path @ [cur]) n))
          (filter (\<lambda>n. n \<notin> set (path @ [cur])) (List.map_filter (index_by_start blocks) (bv_succs (blocks ! cur))))))"
        using False neq 1(2) by (intro 1(1)) auto
      finally show ?thesis
        using neq by (simp add: d map_concat comp_def flip: succ_blocks_def)
    qed
  qed
next
  case (2 blocks end_idx max_depth max_paths path results)
  then show ?case by (simp add: dfs_succs.simps map_filter_simps)
next
  case (3 blocks end_idx max_depth max_paths s ss path results)
  show ?case
  proof (cases "index_by_start blocks s")
    case None
    then show ?thesis using 3(1) [OF None 3(5)] by (simp add: dfs_succs.simps map_filter_simps)
  next
    case (Some n)
    show ?thesis
    proof (cases "n \<in> set path")
      case True
      then show ?thesis using 3(2) [OF Some True 3(5)] Some by (simp add: dfs_succs.simps map_filter_simps)
    next
      case False
      let ?R = "dfs blocks end_idx max_depth max_paths n path results"
      have R: "?R = take max_paths (results @ map (\<lambda>p. shown_path blocks (path @ p))
          (paths_from (succ_blocks blocks) end_idx (Suc max_depth - length path) path n))"
        by (rule 3(3) [OF Some False 3(5)])
      show ?thesis
      proof (cases "max_paths \<le> length ?R")
        case True
        then have "dfs_succs blocks end_idx max_depth max_paths (s # ss) path results = ?R"
          using Some False by (simp add: dfs_succs.simps)
        moreover have "max_paths \<le> length (results @ map (\<lambda>p. shown_path blocks (path @ p))
            (paths_from (succ_blocks blocks) end_idx (Suc max_depth - length path) path n))"
          using True unfolding R by simp
        ultimately show ?thesis unfolding R using Some False
          by (simp add: map_filter_simps flip: append_assoc)
      next
        case less: False
        then have "dfs_succs blocks end_idx max_depth max_paths (s # ss) path results
            = dfs_succs blocks end_idx max_depth max_paths ss path ?R"
          using Some False by (simp add: dfs_succs.simps)
        also have "\<dots> = take max_paths (?R @ concat (map (\<lambda>n. map (\<lambda>p. shown_path blocks (path @ p))
            (paths_from (succ_blocks blocks) end_idx (Suc max_depth - length path) path n))
            (filter (\<lambda>n. n \<notin> set path) (List.map_filter (index_by_start blocks) ss))))"
          using less by (intro 3(4) [OF Some False refl]) simp_all
        finally show ?thesis unfolding R take_take_append' using Some False by (simp add: map_filter_simps)
      qed
    qed
  qed
qed

definition simple_path :: "(nat \<Rightarrow> nat list) \<Rightarrow> nat \<Rightarrow> nat \<Rightarrow> nat list \<Rightarrow> bool" where
  "simple_path succ start end_idx p \<longleftrightarrow>
     p \<noteq> [] \<and> hd p = start \<and> last p = end_idx \<and> distinct p \<and> successively (\<lambda>a b. b \<in> set (succ a)) p"

lemma simple_path_Cons: "simple_path succ cur e (c # p) \<longleftrightarrow>
   c = cur \<and> (p = [] \<and> cur = e \<or> p \<noteq> [] \<and> cur \<notin> set p \<and> hd p \<in> set (succ cur) \<and> simple_path succ (hd p) e p)"
  by (cases p) (auto simp: simple_path_def)

lemma simple_path_end: "simple_path succ e e p \<Longrightarrow> p = [e]"
  by (cases p) (auto simp: simple_path_def split: if_splits)

lemma paths_from_iff:
  "p \<in> set (paths_from succ e d visited cur) \<longleftrightarrow>
     simple_path succ cur e p \<and> length p \<le> d \<and> set (tl p) \<inter> set visited = {}"
proof (induction d arbitrary: visited cur p)
  case 0
  then show ?case by (simp add: simple_path_def)
next
  case (Suc d)
  show ?case
  proof (cases "cur = e")
    case True
    then show ?thesis using simple_path_end [of succ e p] by (auto simp: simple_path_Cons)
  next
    case False
    show ?thesis
    proof (cases p)
      case Nil
      then show ?thesis using False by (auto simp: simple_path_def)
    next
      case (Cons c q)
      have "p \<in> set (paths_from succ e (Suc d) visited cur) \<longleftrightarrow>
          c = cur \<and> (\<exists>n \<in> set (succ cur). n \<notin> set visited \<and> n \<noteq> cur \<and> q \<in> set (paths_from succ e d (visited @ [cur]) n))"
        using False Cons by auto
      also have "\<dots> \<longleftrightarrow> c = cur \<and> (\<exists>n \<in> set (succ cur). n \<notin> set visited \<and> n \<noteq> cur \<and> simple_path succ n e q
            \<and> length q \<le> d \<and> set (tl q) \<inter> set (visited @ [cur]) = {})"
        by (simp only: Suc.IH)
      also have "\<dots> \<longleftrightarrow> simple_path succ cur e p \<and> length p \<le> Suc d \<and> set (tl p) \<inter> set visited = {}"
        using False Cons by (cases q) (auto simp: simple_path_Cons simple_path_def)
      finally show ?thesis .
    qed
  qed
qed

lemma distinct_concat_keyed:
  "distinct ns \<Longrightarrow> (\<And>n. n \<in> set ns \<Longrightarrow> distinct (f n) \<and> (\<forall>p \<in> set (f n). key p = n)) \<Longrightarrow> distinct (concat (map f ns))"
proof (induction ns)
  case (Cons n ns)
  have "set (f n) \<inter> set (concat (map f ns)) = {}"
  proof -
    have "x \<notin> set (f m)" if "x \<in> set (f n)" "m \<in> set ns" for x m
      using that Cons.prems(1) Cons.prems(2) [of n] Cons.prems(2) [of m] by auto
    then show ?thesis by auto
  qed
  then show ?case using Cons by simp
qed simp

lemma paths_from_distinct:
  assumes "\<And>i. distinct (succ i)"
  shows "distinct (paths_from succ e d visited cur)"
proof (induction d arbitrary: visited cur)
  case (Suc d)
  have "distinct (concat (map (\<lambda>n. map ((#) cur) (paths_from succ e d (visited @ [cur]) n))
      (filter (\<lambda>n. n \<notin> set (visited @ [cur])) (succ cur))))"
  proof (rule distinct_concat_keyed [where key = "\<lambda>p. hd (tl p)"])
    fix n
    show "distinct (map ((#) cur) (paths_from succ e d (visited @ [cur]) n))
        \<and> (\<forall>p \<in> set (map ((#) cur) (paths_from succ e d (visited @ [cur]) n)). hd (tl p) = n)"
      using Suc.IH by (auto simp: distinct_map paths_from_iff simple_path_def)
  qed (simp add: assms)
  then show ?case by simp
qed simp

section \<open>The call graph loop\<close>

text \<open>
  What expanding one function does to the graph: it appends the new functions to the queue,
  and without a cut every function it leads to is a node and every relation an edge.
\<close>

abbreviation graph_nodes :: "graph_state \<Rightarrow> u64 set" where
  "graph_nodes g \<equiv> set (map fst (gs_nodes g))"

definition led_to :: "relation list \<Rightarrow> u64 set" where
  "led_to rs = {d. \<exists>f t i. (f, t, d, i) \<in> set rs}"

definition edges_within :: "relation list \<Rightarrow> u64 set \<Rightarrow> (u64 \<times> u64) set" where
  "edges_within rs A = {(f, t). \<exists>d i. (f, t, d, i) \<in> set rs \<and> d \<in> A}"

definition expanded :: "nat \<Rightarrow> nat \<Rightarrow> relation list \<Rightarrow> graph_state \<Rightarrow> u64 list \<Rightarrow> graph_state \<Rightarrow> bool" where
  "expanded max_nodes depth rs g new g' \<longleftrightarrow>
     hm_wf (gs_nodes g') \<and> length (gs_nodes g') = length (gs_nodes g) + length new \<and> length (gs_nodes g') \<le> max_nodes
     \<and> distinct new \<and> set new \<inter> graph_nodes g = {} \<and> graph_nodes g' = graph_nodes g \<union> set new
     \<and> gs_queue g' = gs_queue g @ map (\<lambda>a. (a, depth + 1)) new
     \<and> set new \<subseteq> led_to rs
     \<and> (\<forall>x \<in> set (gs_nodes g'). x \<in> set (gs_nodes g) \<or> (\<exists>f t. (f, t, x) \<in> set rs))
     \<and> set (gs_edges g') \<subseteq> set (gs_edges g) \<union> edges_within rs (graph_nodes g')
     \<and> (\<not> gs_truncated g' \<longrightarrow> \<not> gs_truncated g \<and> led_to rs \<subseteq> graph_nodes g'
           \<and> set (gs_edges g') = set (gs_edges g) \<union> edges_within rs UNIV)"

lemma led_to_simps [simp]: "led_to [] = {}" "led_to (rs @ rs') = led_to rs \<union> led_to rs'" "led_to [(f, t, d, i)] = {d}"
  by (auto simp: led_to_def)

lemma edges_within_simps [simp]:
  "edges_within [] A = {}" "edges_within (rs @ rs') A = edges_within rs A \<union> edges_within rs' A"
  "edges_within [(f, t, d, i)] A = (if d \<in> A then {(f, t)} else {})"
  by (auto simp: edges_within_def)

lemma edges_within_mono: "A \<subseteq> B \<Longrightarrow> edges_within rs A \<subseteq> edges_within rs B"
  by (auto simp: edges_within_def)

lemma nodes_get: "hm_wf m \<Longrightarrow> hm_get m k = None \<longleftrightarrow> k \<notin> set (map fst m)"
  by (simp add: hm_get_def map_of_eq_None_iff)

lemma hm_insert_fresh: "k \<notin> set (map fst m) \<Longrightarrow> hm_remove k m = m"
  by (auto simp: hm_remove_def filter_id_conv)

lemma add_relation_expanded:
  assumes "hm_wf (gs_nodes g)" "length (gs_nodes g) \<le> max_nodes"
  shows "\<exists>new. expanded max_nodes depth [(f, t, d, i)] g new (add_relation max_nodes depth (f, t, d, i) g)"
proof (cases "d \<in> graph_nodes g")
  case True
  then show ?thesis using assms
    by (intro exI [of _ "[]"]) (auto simp: expanded_def add_relation_def nodes_get set_insort_insert)
next
  case False
  show ?thesis
  proof (cases "max_nodes \<le> length (gs_nodes g)")
    case True
    then show ?thesis using False assms
      by (intro exI [of _ "[]"]) (auto simp: expanded_def add_relation_def nodes_get)
  next
    case room: False
    have "hm_insert d i (gs_nodes g) = (d, i) # gs_nodes g \<or> hm_insert d i (gs_nodes g) = gs_nodes g @ [(d, i)]"
      using hm_insert_fresh [OF False] by (auto simp: hm_insert_def)
    then have ins: "length (hm_insert d i (gs_nodes g)) = Suc (length (gs_nodes g))"
      "fst ` set (hm_insert d i (gs_nodes g)) = insert d (fst ` set (gs_nodes g))" by auto
    then show ?thesis using False room assms
      by (intro exI [of _ "[d]"])
        (auto simp: expanded_def add_relation_def nodes_get hm.map_laws set_insort_insert)
  qed
qed

lemma expanded_trans:
  assumes "expanded max_nodes depth rs g new g1" "expanded max_nodes depth rs' g1 new' g2"
  shows "expanded max_nodes depth (rs @ rs') g (new @ new') g2"
proof -
  note defs = assms [unfolded expanded_def]
  have nodes: "graph_nodes g2 = graph_nodes g \<union> set new \<union> set new'" using defs by blast
  have mono: "edges_within rs (graph_nodes g1) \<subseteq> edges_within rs (graph_nodes g2)"
    using defs by (intro edges_within_mono) blast
  have step1: "set (gs_edges g1) \<subseteq> set (gs_edges g) \<union> edges_within rs (graph_nodes g1)" using defs by blast
  have step2: "set (gs_edges g2) \<subseteq> set (gs_edges g1) \<union> edges_within rs' (graph_nodes g2)" using defs by blast
  from step1 step2 mono have edges: "set (gs_edges g2) \<subseteq> set (gs_edges g) \<union> edges_within (rs @ rs') (graph_nodes g2)"
    unfolding edges_within_simps by blast
  have queue: "gs_queue g2 = gs_queue g @ map (\<lambda>a. (a, depth + 1)) (new @ new')" using defs by simp
  have len: "length (gs_nodes g2) = length (gs_nodes g) + length (new @ new')" using defs by simp
  have disj: "distinct (new @ new')" "set (new @ new') \<inter> graph_nodes g = {}" using defs by auto
  have led: "set (new @ new') \<subseteq> led_to (rs @ rs')" using defs by auto
  have cut: "\<not> gs_truncated g2 \<longrightarrow> \<not> gs_truncated g \<and> led_to (rs @ rs') \<subseteq> graph_nodes g2
      \<and> set (gs_edges g2) = set (gs_edges g) \<union> edges_within (rs @ rs') UNIV"
    using defs by (simp only: led_to_simps edges_within_simps) blast
  have nodes': "graph_nodes g2 = graph_nodes g \<union> set (new @ new')" using nodes by (simp add: Un_assoc)
  have wf: "hm_wf (gs_nodes g2)" "length (gs_nodes g2) \<le> max_nodes" using defs by blast+
  have from1: "\<forall>x \<in> set (gs_nodes g1). x \<in> set (gs_nodes g) \<or> (\<exists>f t. (f, t, x) \<in> set rs)"
    and from2: "\<forall>x \<in> set (gs_nodes g2). x \<in> set (gs_nodes g1) \<or> (\<exists>f t. (f, t, x) \<in> set rs')" using defs by blast+
  then have origin: "\<forall>x \<in> set (gs_nodes g2). x \<in> set (gs_nodes g) \<or> (\<exists>f t. (f, t, x) \<in> set (rs @ rs'))"
    unfolding set_append by blast
  show ?thesis unfolding expanded_def by (intro conjI wf len disj nodes' queue led origin edges cut)
qed

lemma expand_all:
  assumes "hm_wf (gs_nodes g)" "length (gs_nodes g) \<le> max_nodes"
  shows "\<exists>new. expanded max_nodes depth rs g new (fold (add_relation max_nodes depth) rs g)"
proof (induction rs rule: rev_induct)
  case Nil
  show ?case using assms by (intro exI [of _ "[]"]) (simp add: expanded_def)
next
  case (snoc r rs)
  then obtain new where new: "expanded max_nodes depth rs g new (fold (add_relation max_nodes depth) rs g)" by blast
  obtain f t d i where r: "r = (f, t, d, i)" by (cases r)
  obtain new' where "expanded max_nodes depth [r] (fold (add_relation max_nodes depth) rs g) new'
      (add_relation max_nodes depth r (fold (add_relation max_nodes depth) rs g))"
    using add_relation_expanded [of "fold (add_relation max_nodes depth) rs g" max_nodes depth f t d i] new
    unfolding r by (auto simp: expanded_def)
  from expanded_trans [OF new this] show ?case by auto
qed

text \<open>One step of the graph, and the state of the search: what was expanded and how far each node is.\<close>

definition leads :: "(u64 \<Rightarrow> tool_error + relation list) \<Rightarrow> (u64 \<times> u64) set" where
  "leads expand = {(u, v). \<exists>rs. expand u = Inr rs \<and> v \<in> led_to rs}"

definition queue_inv :: "graph_state \<Rightarrow> u64 set \<Rightarrow> (u64 \<Rightarrow> nat) \<Rightarrow> bool" where
  "queue_inv g finished lab \<longleftrightarrow>
     finished \<subseteq> graph_nodes g \<and> distinct (map fst (gs_queue g)) \<and> fst ` set (gs_queue g) = graph_nodes g - finished
     \<and> (\<forall>x \<in> set (gs_queue g). snd x = lab (fst x) \<and> snd x \<le> Suc (snd (hd (gs_queue g))))
     \<and> sorted (map snd (gs_queue g)) \<and> (\<forall>a \<in> finished. \<forall>x \<in> set (gs_queue g). lab a \<le> snd x)"

definition graph_inv ::
  "(u64 \<Rightarrow> tool_error + relation list) \<Rightarrow> u64 \<Rightarrow> nat \<Rightarrow> nat \<Rightarrow> graph_state \<Rightarrow> u64 set \<Rightarrow> (u64 \<Rightarrow> nat) \<Rightarrow> bool" where
  "graph_inv expand root max_depth max_nodes g finished lab \<longleftrightarrow>
     hm_wf (gs_nodes g) \<and> length (gs_nodes g) \<le> max_nodes \<and> root \<in> graph_nodes g \<and> lab root = 0
     \<and> (\<forall>x \<in> set (gs_nodes g). fi_address (snd x) = show_addr (fst x))
     \<and> (\<forall>a \<in> graph_nodes g. (root, a) \<in> leads expand ^^ lab a \<and> lab a \<le> max_depth)
     \<and> set (gs_edges g) \<subseteq> graph_nodes g \<times> graph_nodes g
     \<and> (\<not> gs_truncated g \<longrightarrow> (\<forall>u \<in> finished. lab u < max_depth \<longrightarrow>
           (\<forall>v. (u, v) \<in> leads expand \<longrightarrow> v \<in> graph_nodes g \<and> lab v \<le> Suc (lab u))))"

lemma queue_inv_head:
  assumes "queue_inv g finished lab" "gs_queue g = (cur, depth) # q"
  shows "cur \<in> graph_nodes g" "cur \<notin> finished" "lab cur = depth"
    "\<forall>a \<in> finished. lab a \<le> depth" "\<forall>x \<in> set q. depth \<le> snd x \<and> snd x \<le> Suc depth \<and> snd x = lab (fst x)"
    "\<forall>a \<in> graph_nodes g. lab a \<le> Suc depth"
proof -
  have img: "insert cur (fst ` set q) = graph_nodes g - finished" using assms by (simp add: queue_inv_def)
  then show "cur \<in> graph_nodes g" "cur \<notin> finished" by blast+
  show lab: "lab cur = depth" and fin: "\<forall>a \<in> finished. lab a \<le> depth"
    using assms by (auto simp: queue_inv_def)
  show q: "\<forall>x \<in> set q. depth \<le> snd x \<and> snd x \<le> Suc depth \<and> snd x = lab (fst x)"
    using assms unfolding queue_inv_def by simp (metis order_refl)
  show "\<forall>a \<in> graph_nodes g. lab a \<le> Suc depth"
  proof
    fix a
    assume "a \<in> graph_nodes g"
    then consider "a \<in> finished" | "a = cur" | x where "x \<in> set q" "a = fst x" using img by blast
    then show "lab a \<le> Suc depth" by cases (use lab fin q in fastforce)+
  qed
qed

text \<open>Taking the head off the queue and appending the new functions behind it.\<close>

lemma queue_inv_step:
  assumes inv: "queue_inv g finished lab" and queue: "gs_queue g = (cur, depth) # q"
    and new: "gs_queue g' = q @ map (\<lambda>a. (a, depth + 1)) new" "graph_nodes g' = graph_nodes g \<union> set new"
      "distinct new" "set new \<inter> graph_nodes g = {}"
  shows "queue_inv g' (insert cur finished) (\<lambda>a. if a \<in> set new then depth + 1 else lab a)"
proof -
  note head = queue_inv_head [OF inv queue]
  have img: "insert cur (fst ` set q) = graph_nodes g - finished" "cur \<notin> fst ` set q" "distinct (map fst q)"
    using inv queue by (auto simp: queue_inv_def)
  have fin: "finished \<subseteq> graph_nodes g" using inv by (simp add: queue_inv_def)
  have old: "fst x \<notin> set new" if "x \<in> set q" for x using that img(1) new(4) by blast
  have sorted: "sorted (map snd (gs_queue g'))"
    using inv queue head(5) by (auto simp: queue_inv_def new(1) sorted_append comp_def map_replicate_const)
  have hd: "depth \<le> snd (hd (gs_queue g'))" if "gs_queue g' \<noteq> []"
    using that head(5) by (cases q) (auto simp: new(1) hd_map)
  have "snd x \<le> Suc (snd (hd (gs_queue g')))" if x: "x \<in> set (gs_queue g')" for x
  proof -
    have "snd x \<le> Suc depth" using x head(5) by (auto simp: new(1))
    moreover have "depth \<le> snd (hd (gs_queue g'))" using x by (intro hd) auto
    ultimately show ?thesis by simp
  qed
  moreover have "snd x = (if fst x \<in> set new then depth + 1 else lab (fst x))" if x: "x \<in> set (gs_queue g')" for x
  proof (cases "x \<in> set q")
    case True
    then show ?thesis using head(5) old [OF True] by simp
  qed (use x in \<open>auto simp: new(1)\<close>)
  moreover have "distinct (map fst (gs_queue g'))" using img new(3,4) by (auto simp: new(1) comp_def)
  moreover have "fst ` set (gs_queue g') = graph_nodes g' - insert cur finished"
  proof -
    have "fst ` set (gs_queue g') = fst ` set q \<union> set new" by (simp add: new(1) image_Un image_image)
    also have "\<dots> = graph_nodes g' - insert cur finished"
      unfolding new(2) using img(1,2) fin new(4) head(1,2) by blast
    finally show ?thesis .
  qed
  moreover have "insert cur finished \<subseteq> graph_nodes g'" using head(1) fin unfolding new(2) by blast
  moreover have "(if a \<in> set new then depth + 1 else lab a) \<le> snd x"
    if "a \<in> insert cur finished" "x \<in> set (gs_queue g')" for a x
  proof -
    have "a \<notin> set new" using that(1) head(1) fin new(4) by blast
    moreover have "lab a \<le> depth" using that(1) head(3,4) by auto
    ultimately show ?thesis using that(2) head(5) by (auto simp: new(1))
  qed
  ultimately show ?thesis unfolding queue_inv_def using sorted by blast
qed

text \<open>The functions a search may expand: every relation of a function touches it and the function it leads to.\<close>

locale explorer =
  fixes expand :: "u64 \<Rightarrow> tool_error + relation list"
  assumes touches: "expand cur = Inr rs \<Longrightarrow> (f, t, d, i) \<in> set rs \<Longrightarrow> f = cur \<and> t = d \<or> f = d \<and> t = cur"
    and named: "expand cur = Inr rs \<Longrightarrow> (f, t, d, i) \<in> set rs \<Longrightarrow> fi_address i = show_addr d"
begin

lemma edges_touch:
  assumes "expand cur = Inr rs" "cur \<in> A"
  shows "edges_within rs A \<subseteq> A \<times> A"
  using touches [OF assms(1)] assms(2) by (auto simp: edges_within_def)

lemma inv_expand:
  assumes inv: "graph_inv expand root max_depth max_nodes g finished lab" and q: "queue_inv g finished lab"
    and queue: "gs_queue g = (cur, depth) # queue" and depth: "depth < max_depth" and rs: "expand cur = Inr rs"
    and exp: "expanded max_nodes depth rs (g\<lparr>gs_queue := queue\<rparr>) new g'"
  shows "graph_inv expand root max_depth max_nodes g' (insert cur finished) (\<lambda>a. if a \<in> set new then depth + 1 else lab a)"
proof -
  note head = queue_inv_head [OF q queue]
  have new: "graph_nodes g' = graph_nodes g \<union> set new" "set new \<inter> graph_nodes g = {}" "set new \<subseteq> led_to rs"
    using exp by (auto simp: expanded_def)
  have wf: "hm_wf (gs_nodes g')" "length (gs_nodes g') \<le> max_nodes" using exp by (auto simp: expanded_def)
  have root: "root \<in> graph_nodes g" "lab root = 0" using inv by (auto simp: graph_inv_def)
  have reach: "(root, a) \<in> leads expand ^^ lab a" "lab a \<le> max_depth" if "a \<in> graph_nodes g" for a
    using inv that unfolding graph_inv_def by blast+
  have "(root, a) \<in> leads expand ^^ (depth + 1)" if "a \<in> set new" for a
  proof -
    have "(cur, a) \<in> leads expand" using rs new(3) that by (auto simp: leads_def)
    moreover have "(root, cur) \<in> leads expand ^^ depth" using reach(1) [OF head(1)] head(3) by simp
    ultimately show ?thesis by auto
  qed
  then have reach': "\<forall>a \<in> graph_nodes g'. (root, a) \<in> leads expand ^^ (if a \<in> set new then depth + 1 else lab a)
      \<and> (if a \<in> set new then depth + 1 else lab a) \<le> max_depth"
    using reach depth unfolding new(1) by auto
  have "cur \<in> graph_nodes g'" using head(1) unfolding new(1) by blast
  then have "edges_within rs (graph_nodes g') \<subseteq> graph_nodes g' \<times> graph_nodes g'" by (rule edges_touch [OF rs])
  moreover have "set (gs_edges g) \<subseteq> graph_nodes g' \<times> graph_nodes g'"
    using inv unfolding graph_inv_def new(1) by blast
  moreover have "set (gs_edges g') \<subseteq> set (gs_edges g) \<union> edges_within rs (graph_nodes g')"
    using exp by (auto simp: expanded_def)
  ultimately have edges: "set (gs_edges g') \<subseteq> graph_nodes g' \<times> graph_nodes g'" by blast
  have "v \<in> graph_nodes g' \<and> (if v \<in> set new then depth + 1 else lab v) \<le> Suc (if u \<in> set new then depth + 1 else lab u)"
    if cut: "\<not> gs_truncated g'" and u: "u \<in> insert cur finished"
      and lab_u: "(if u \<in> set new then depth + 1 else lab u) < max_depth" and uv: "(u, v) \<in> leads expand" for u v
  proof -
    have fin: "finished \<subseteq> graph_nodes g" using q by (simp add: queue_inv_def)
    have u_old: "u \<notin> set new" using u head(1) fin new(2) by blast
    show ?thesis
    proof (cases "u = cur")
      case True
      have "led_to rs \<subseteq> graph_nodes g'" using exp cut unfolding expanded_def by blast
      then have "v \<in> graph_nodes g'" using uv rs True by (auto simp: leads_def)
      then show ?thesis using head(3,6) True u_old unfolding new(1) by auto
    next
      case False
      have "\<not> gs_truncated g" using exp cut by (simp add: expanded_def)
      moreover have "u \<in> finished" using False u by blast
      ultimately have "v \<in> graph_nodes g \<and> lab v \<le> Suc (lab u)"
        using inv uv lab_u u_old unfolding graph_inv_def by auto
      then show ?thesis using u_old new(2) unfolding new(1) by auto
    qed
  qed
  moreover have "(if root \<in> set new then depth + 1 else lab root) = 0" "root \<in> graph_nodes g'"
    using root new(2) unfolding new(1) by auto
  moreover have "fi_address (snd x) = show_addr (fst x)" if "x \<in> set (gs_nodes g')" for x
  proof -
    have "x \<in> set (gs_nodes g) \<or> (\<exists>f t. (f, t, x) \<in> set rs)" using exp that by (auto simp: expanded_def)
    then show ?thesis
    proof
      assume "x \<in> set (gs_nodes g)"
      then show ?thesis using inv by (simp add: graph_inv_def)
    next
      assume "\<exists>f t. (f, t, x) \<in> set rs"
      then show ?thesis using named [OF rs] by (cases x) auto
    qed
  qed
  ultimately show ?thesis unfolding graph_inv_def using wf reach' edges by blast
qed

lemma inv_skip:
  assumes "graph_inv expand root max_depth max_nodes g finished lab" "queue_inv g finished lab"
    and "gs_queue g = (cur, depth) # queue" "max_depth \<le> depth"
  shows "graph_inv expand root max_depth max_nodes (g\<lparr>gs_queue := queue\<rparr>) (insert cur finished) lab"
proof -
  have "lab cur = depth" by (rule queue_inv_head(3) [OF assms(2,3)])
  then show ?thesis using assms(1,4) by (auto simp: graph_inv_def)
qed

text \<open>
  The loop ends: each round takes one function off the queue, and a function enters it only
  when it becomes a node, which happens at most \<open>max_nodes\<close> times.
\<close>

lemma loop_returns:
  assumes "graph_inv expand root max_depth max_nodes g finished lab" "queue_inv g finished lab"
  shows "\<exists>r. graph_loop expand max_depth max_nodes g = Some r \<and>
    (case r of Inl e \<Rightarrow> \<exists>u. expand u = Inl e
     | Inr g' \<Rightarrow> gs_queue g' = [] \<and> (\<exists>finished' lab'. graph_inv expand root max_depth max_nodes g' finished' lab' \<and> queue_inv g' finished' lab'))"
  using assms
proof (induction "2 * (max_nodes - length (gs_nodes g)) + length (gs_queue g)" arbitrary: g finished lab rule: less_induct)
  case less
  note inv = less.prems
  show ?case
  proof (cases "gs_queue g")
    case Nil
    then have "graph_loop expand max_depth max_nodes g = Some (Inr g)" by (subst graph_loop.simps) simp
    with Nil inv show ?thesis by auto
  next
    case (Cons x queue)
    obtain cur depth where x: "x = (cur, depth)" by (cases x)
    note queue = Cons [unfolded x]
    show ?thesis
    proof (cases "max_depth \<le> depth")
      case True
      let ?g = "g\<lparr>gs_queue := queue\<rparr>"
      have "graph_loop expand max_depth max_nodes g = graph_loop expand max_depth max_nodes ?g"
        using queue True by (subst graph_loop.simps) simp
      moreover have "queue_inv ?g (insert cur finished) (\<lambda>a. if a \<in> set [] then depth + 1 else lab a)"
        by (rule queue_inv_step [OF inv(2) queue]) simp_all
      then have "queue_inv ?g (insert cur finished) lab" by simp
      moreover have "graph_inv expand root max_depth max_nodes ?g (insert cur finished) lab"
        by (rule inv_skip [OF inv queue True])
      moreover have "2 * (max_nodes - length (gs_nodes ?g)) + length (gs_queue ?g)
          < 2 * (max_nodes - length (gs_nodes g)) + length (gs_queue g)" using queue by simp
      ultimately show ?thesis using less.hyps by simp
    next
      case False
      then have depth: "depth < max_depth" by simp
      show ?thesis
      proof (cases "expand cur")
        case (Inl e)
        then have "graph_loop expand max_depth max_nodes g = Some (Inl e)"
          using queue False by (subst graph_loop.simps) simp
        with Inl show ?thesis by auto
      next
        case (Inr rs)
        let ?h = "g\<lparr>gs_queue := queue\<rparr>" and ?g = "fold (add_relation max_nodes depth) rs (g\<lparr>gs_queue := queue\<rparr>)"
        have "hm_wf (gs_nodes ?h)" "length (gs_nodes ?h) \<le> max_nodes" using inv(1) by (simp_all add: graph_inv_def)
        then obtain new where exp: "expanded max_nodes depth rs ?h new ?g" using expand_all by blast
        have facts: "gs_queue ?g = queue @ map (\<lambda>a. (a, depth + 1)) new" "graph_nodes ?g = graph_nodes g \<union> set new"
          "distinct new" "set new \<inter> graph_nodes g = {}" "length (gs_nodes ?g) = length (gs_nodes g) + length new"
          "length (gs_nodes ?g) \<le> max_nodes"
          using exp by (simp_all add: expanded_def)
        have "graph_loop expand max_depth max_nodes g = graph_loop expand max_depth max_nodes ?g"
          using queue False Inr by (subst graph_loop.simps) simp
        moreover have "\<exists>r. graph_loop expand max_depth max_nodes ?g = Some r \<and>
            (case r of Inl e \<Rightarrow> \<exists>u. expand u = Inl e
             | Inr g' \<Rightarrow> gs_queue g' = [] \<and> (\<exists>finished' lab'. graph_inv expand root max_depth max_nodes g' finished' lab' \<and> queue_inv g' finished' lab'))"
        proof (rule less.hyps)
          show "2 * (max_nodes - length (gs_nodes ?g)) + length (gs_queue ?g)
            < 2 * (max_nodes - length (gs_nodes g)) + length (gs_queue g)"
            using facts(1,5,6) queue by simp
          show "graph_inv expand root max_depth max_nodes ?g (insert cur finished) (\<lambda>a. if a \<in> set new then depth + 1 else lab a)"
            by (rule inv_expand [OF inv queue depth Inr exp])
          show "queue_inv ?g (insert cur finished) (\<lambda>a. if a \<in> set new then depth + 1 else lab a)"
            by (rule queue_inv_step [OF inv(2) queue facts(1-4)])
        qed
        ultimately show ?thesis by simp
      qed
    qed
  qed
qed

text \<open>Without a cut, everything within the depth is a node.\<close>

lemma uncut_complete:
  assumes "graph_inv expand root max_depth max_nodes g finished lab" "queue_inv g finished lab"
    and "gs_queue g = []" "\<not> gs_truncated g" "(root, a) \<in> leads expand ^^ k" "k \<le> max_depth"
  shows "a \<in> graph_nodes g \<and> lab a \<le> k"
  using assms(5,6)
proof (induction k arbitrary: a)
  case 0
  then show ?case using assms(1) by (auto simp: graph_inv_def)
next
  case (Suc k)
  then obtain u where u: "(root, u) \<in> leads expand ^^ k" "(u, a) \<in> leads expand" by auto
  then have "u \<in> graph_nodes g" "lab u \<le> k" using Suc by simp_all
  moreover have "finished = graph_nodes g" using assms(2,3) by (auto simp: queue_inv_def)
  moreover have "lab u < max_depth" using \<open>lab u \<le> k\<close> Suc.prems(2) by simp
  ultimately have "a \<in> graph_nodes g \<and> lab a \<le> Suc (lab u)"
    using assms(1,4) u(2) unfolding graph_inv_def by blast
  then show ?case using \<open>lab u \<le> k\<close> by simp
qed

end

lemma parsed_mem: "r \<in> set (parsed mk fs) \<Longrightarrow> \<exists>a f. f \<in> set fs \<and> parse_address_str (fi_address f) = Inr a \<and> r = mk a f"
  by (force simp: parsed_def map_filter_def split: sum.splits)

text \<open>The handlers print every address the way the parser reads it back.\<close>

definition shown_info :: "function_info \<Rightarrow> bool" where
  "shown_info f \<longleftrightarrow> (\<exists>a. fi_address f = show_addr a)"

definition all_shown :: "callee_state \<Rightarrow> bool" where
  "all_shown st \<longleftrightarrow> (\<forall>f \<in> set (fst st). shown_info f)"

lemma function_info_shown: "shown_info (function_info_of f)"
  by (auto simp: shown_info_def function_info_of_def)

lemma shown_info_addr [simp]: "shown_info \<lparr>fi_address = show_addr a, fi_name = n, fi_size = k\<rparr>"
  by (auto simp: shown_info_def)

lemma add_callee_shown: "all_shown st \<Longrightarrow> all_shown (add_callee db target st)"
  by (cases st) (auto simp: all_shown_def add_callee_def function_info_shown split: option.split)

lemma fold_callee_shown: "all_shown st \<Longrightarrow> all_shown (fold (\<lambda>x. add_callee db (xv_to x)) xs st)"
  by (induction xs arbitrary: st) (simp_all add: add_callee_shown)

lemma callees_at_shown: "all_shown st \<Longrightarrow> all_shown (callees_at db addr st)"
  unfolding callees_at_def Let_def by (simp add: fold_callee_shown add_callee_shown split: option.split)

lemma callees_walk_shown: "all_shown st \<Longrightarrow> all_shown (callees_walk db end_addr addr st)"
proof (induction db end_addr addr st rule: callees_walk.induct)
  case (1 db end_addr addr st)
  note step = callees_at_shown [OF 1(2), of db addr]
  show ?case
    by (subst callees_walk.simps) (use 1 step in \<open>auto simp: Let_def split: option.splits\<close>)
qed

lemma callers_loop_shown: "all_shown st \<Longrightarrow> all_shown (callers_loop db xs st)"
proof (induction db xs st rule: callers_loop.induct)
  case (2 db x xs callers seen)
  show ?case unfolding callers_loop.simps
    by (rule 2(1)) (use 2(2) in \<open>auto simp: all_shown_def function_info_shown split: option.split\<close>)
qed simp

lemma frontier_cases:
  "callgraph_frontier r = Inr fs \<Longrightarrow> r = Inr fs \<or> fs = []"
  by (auto simp: callgraph_frontier_def split: sum.splits tool_error.splits)

lemma frontier_shown:
  "callgraph_frontier (handle_callees idb cur) = Inr fs \<Longrightarrow> \<forall>f \<in> set fs. shown_info f"
  "callgraph_frontier (handle_callers idb cur) = Inr fs \<Longrightarrow> \<forall>f \<in> set fs. shown_info f"
proof -
  have init: "all_shown ([], [])" by (simp add: all_shown_def)
  assume "callgraph_frontier (handle_callees idb cur) = Inr fs"
  then consider "handle_callees idb cur = Inr fs" | "fs = []" using frontier_cases by blast
  then show "\<forall>f \<in> set fs. shown_info f"
  proof cases
    case 1
    then obtain db e a where "fs = fst (callees_walk db e a ([], []))"
      by (auto simp: handle_callees_def with_db_def split: option.splits)
    then show ?thesis using callees_walk_shown [OF init] by (auto simp: all_shown_def)
  qed simp
next
  have init: "all_shown ([], [])" by (simp add: all_shown_def)
  assume "callgraph_frontier (handle_callers idb cur) = Inr fs"
  then consider "handle_callers idb cur = Inr fs" | "fs = []" using frontier_cases by blast
  then show "\<forall>f \<in> set fs. shown_info f"
  proof cases
    case 1
    then obtain db xs where "fs = fst (callers_loop db xs ([], []))"
      by (auto simp: handle_callers_def with_db_def split: option.splits)
    then show ?thesis using callers_loop_shown [OF init] by (auto simp: all_shown_def)
  qed simp
qed

lemma relation_cases:
  assumes "relations_of idb dir cur = Inr rs" "(f, t, d, i) \<in> set rs"
  shows "(f = cur \<and> t = d \<or> f = d \<and> t = cur) \<and> fi_address i = show_addr d"
proof -
  obtain xs ys where xy: "callee_relations idb dir cur = Inr xs" "caller_relations idb dir cur = Inr ys"
    "(f, t, d, i) \<in> set xs \<or> (f, t, d, i) \<in> set ys"
    using assms by (auto simp: relations_of_def split: sum.splits)
  have parse: "fi_address g = show_addr a" if "shown_info g" "parse_address_str (fi_address g) = Inr a" for g a
    using that by (auto simp: shown_info_def)
  from xy(3) show ?thesis
  proof
    assume "(f, t, d, i) \<in> set xs"
    with xy(1) obtain fs where fs: "callgraph_frontier (handle_callees idb cur) = Inr fs"
      "(f, t, d, i) \<in> set (parsed (\<lambda>a f. (cur, a, a, f)) fs)"
      by (auto simp: callee_relations_def map_sum_def split: if_splits sum.splits)
    with parsed_mem [OF fs(2)] frontier_shown(1) [OF fs(1)] parse show ?thesis by auto
  next
    assume "(f, t, d, i) \<in> set ys"
    with xy(2) obtain fs where fs: "callgraph_frontier (handle_callers idb cur) = Inr fs"
      "(f, t, d, i) \<in> set (parsed (\<lambda>a f. (a, cur, a, f)) fs)"
      by (auto simp: caller_relations_def map_sum_def split: if_splits sum.splits)
    with parsed_mem [OF fs(2)] frontier_shown(2) [OF fs(1)] parse show ?thesis by auto
  qed
qed

interpretation call_graph: explorer "relations_of idb dir" for idb dir
  by unfold_locales (use relation_cases in blast)+


text \<open>The search starts with the root as its only node.\<close>

definition root_graph :: "func_view \<Rightarrow> graph_state" where
  "root_graph root = \<lparr>gs_nodes = [(fv_start root, function_info_of root)], gs_edges = [],
     gs_queue = [(fv_start root, 0)], gs_truncated = False\<rparr>"

lemma root_graph_inv:
  "1 \<le> max_nodes \<Longrightarrow> graph_inv expand (fv_start root) max_depth max_nodes (root_graph root) {} (\<lambda>_. 0)"
  "queue_inv (root_graph root) {} (\<lambda>_. 0)"
  by (auto simp: graph_inv_def queue_inv_def root_graph_def hm_wf_def function_info_of_def)

lemma root_loop_returns:
  "\<exists>r. graph_loop (relations_of idb dir) max_depth (max max_nodes 1) (root_graph root) = Some r \<and>
    (case r of Inl e \<Rightarrow> \<exists>u. relations_of idb dir u = Inl e
     | Inr g' \<Rightarrow> gs_queue g' = [] \<and> (\<exists>finished lab.
         graph_inv (relations_of idb dir) (fv_start root) max_depth (max max_nodes 1) g' finished lab \<and> queue_inv g' finished lab))"
  by (rule call_graph.loop_returns [OF root_graph_inv(1) root_graph_inv(2)]) simp

text \<open>The nodes of an answer, in the order of their addresses.\<close>

lemma sorted_nodes:
  assumes "distinct (map fst m)" "\<forall>x \<in> set m. fi_address (snd x) = show_addr (fst x)"
  shows "map fi_address (map snd (sort_key fst m)) = map show_addr (sorted_list_of_set (set (map fst m)))"
proof -
  have "map fi_address (map snd (sort_key fst m)) = map show_addr (map fst (sort_key fst m))"
    using assms(2) by simp
  also have "map fst (sort_key fst m) = sorted_list_of_set (set (map fst m))"
    using assms(1) by (intro sorted_distinct_set_unique)
      (simp_all add: distinct_map)
  finally show ?thesis .
qed

lemma callgraph_answer:
  assumes "db_function_at db addr = Some root"
    and "handle_callgraph (Some db) addr dir max_depth max_nodes = Some (Inr (nodes, edges, truncated))"
  obtains g where "graph_loop (relations_of (Some db) dir) (max max_depth 1) (max max_nodes 1) (root_graph root) = Some (Inr g)"
    "nodes = map snd (sort_key fst (gs_nodes g))" "edges = gs_edges g" "truncated = gs_truncated g"
proof -
  obtain r where r: "graph_loop (relations_of (Some db) dir) (max max_depth 1) (max max_nodes 1) (root_graph root) = Some r"
    "map_sum id (\<lambda>g. (map snd (sort_key fst (gs_nodes g)), gs_edges g, gs_truncated g)) r = Inr (nodes, edges, truncated)"
    using assms unfolding handle_callgraph_def root_graph_def by (auto simp only: option.case map_option_eq_Some)
  then show ?thesis using that by (cases r) auto
qed

section \<open>Properties\<close>

text \<open>
  C21: \<open>handle_callgraph\<close> always returns, also on recursive programs and for every bound: the
  loop over the queue ends with a graph or with the error of a lookup.
\<close>

theorem callgraph_terminates: "\<exists>r. handle_callgraph idb addr dir max_depth max_nodes = Some r"
proof -
  have "\<exists>r. graph_loop (relations_of idb dir) (max max_depth 1) (max max_nodes 1) (root_graph root) = Some r" for root
    using root_loop_returns by blast
  then show ?thesis
    by (auto simp: handle_callgraph_def simp flip: root_graph_def split: option.split)
qed

text \<open>
  C20: A call graph lists, in the order of their addresses, at most \<open>max_nodes\<close> functions, the
  root among them; its edges connect listed functions; every listed function is at most
  \<open>max_depth\<close> calls away from the root; and if the answer does not say that it is truncated,
  then it lists every function that is that close.
\<close>

theorem callgraph_exact:
  assumes "db_function_at db addr = Some root"
    and "handle_callgraph (Some db) addr dir max_depth max_nodes = Some (Inr (nodes, edges, truncated))"
  shows "\<exists>A. map fi_address nodes = map show_addr (sorted_list_of_set A) \<and> finite A \<and> card A \<le> max max_nodes 1
    \<and> fv_start root \<in> A \<and> set edges \<subseteq> A \<times> A
    \<and> A \<subseteq> {a. \<exists>k \<le> max max_depth 1. (fv_start root, a) \<in> leads (relations_of (Some db) dir) ^^ k}
    \<and> (\<not> truncated \<longrightarrow> A = {a. \<exists>k \<le> max max_depth 1. (fv_start root, a) \<in> leads (relations_of (Some db) dir) ^^ k})"
proof -
  let ?expand = "relations_of (Some db) dir" and ?d = "max max_depth 1" and ?n = "max max_nodes 1"
  obtain g where g: "graph_loop ?expand ?d ?n (root_graph root) = Some (Inr g)"
    and ans: "nodes = map snd (sort_key fst (gs_nodes g))" "edges = gs_edges g" "truncated = gs_truncated g"
    by (rule callgraph_answer [OF assms])
  obtain finished lab where empty: "gs_queue g = []"
    and inv: "graph_inv ?expand (fv_start root) ?d ?n g finished lab" "queue_inv g finished lab"
    using root_loop_returns [of "Some db" dir ?d max_nodes root] unfolding g by auto
  note facts = inv(1) [unfolded graph_inv_def]
  have dist: "distinct (map fst (gs_nodes g))" using facts by (simp add: hm_wf_def)
  have near: "graph_nodes g \<subseteq> {a. \<exists>k \<le> ?d. (fv_start root, a) \<in> leads ?expand ^^ k}"
    using facts by blast
  have "card (graph_nodes g) \<le> ?n" using facts distinct_card [OF dist] by simp
  moreover have "map fi_address nodes = map show_addr (sorted_list_of_set (graph_nodes g))"
    using sorted_nodes [OF dist] facts ans(1) by blast
  moreover have "graph_nodes g = {a. \<exists>k \<le> ?d. (fv_start root, a) \<in> leads ?expand ^^ k}" if "\<not> truncated"
    using near call_graph.uncut_complete [OF inv empty] that ans(3) by blast
  moreover have "fv_start root \<in> graph_nodes g" "set edges \<subseteq> graph_nodes g \<times> graph_nodes g"
    using facts ans(2) by blast+
  ultimately show ?thesis using near by (intro exI [of _ "graph_nodes g"]) simp
qed

text \<open>A function that calls another one.\<close>

definition call_db :: idb where
  "call_db = demo_db\<lparr>db_function_at := (\<lambda>a. if a = 0x1000 then Some (demo_function 0x1000 ''alpha'')
       else if a = 0x2000 then Some (demo_function 0x2000 ''beta'') else None),
     db_xrefs_from := (\<lambda>a. if a = 0x1000 then [\<lparr>xv_from = 0x1000, xv_to = 0x2000, xv_type = NearCall, xv_is_code = True\<rparr>] else [])\<rparr>"

lemma call_db_relations:
  "relations_of (Some call_db) Callees 0x1000 = Inr [(0x1000, 0x2000, 0x2000, function_info_of (demo_function 0x2000 ''beta''))]"
  "relations_of (Some call_db) Callees 0x2000 = Inr []"
  by (simp_all add: relations_of_def callee_relations_def caller_relations_def callgraph_frontier_def handle_callees_def
      with_db_def call_db_def demo_db_def callees_walk.simps callees_at_def is_call_xref_def add_callee_def direct_call_target_def
      callee_step_def parsed_def map_filter_simps function_info_of_def demo_function_def)

lemma call_db_graph:
  "handle_callgraph (Some call_db) 0x1000 Callees 3 10 = Some (Inr
     ([function_info_of (demo_function 0x1000 ''alpha''), function_info_of (demo_function 0x2000 ''beta'')],
      [(0x1000, 0x2000)], False))"
proof -
  have root: "db_function_at call_db 0x1000 = Some (demo_function 0x1000 ''alpha'')" by (simp add: call_db_def)
  show ?thesis
    by (simp add: handle_callgraph_def root) (simp add: graph_loop.simps demo_function_def call_db_relations [unfolded demo_function_def]
        add_relation_def hm_get_def hm_insert_def hm_remove_def insort_insert_key_def)
qed

theorem callgraph_exact_witness:
  "\<exists>A. map show_addr [0x1000, 0x2000] = map show_addr (sorted_list_of_set A) \<and> (0x1000 :: u64) \<in> A
    \<and> A = {a. \<exists>k \<le> 3. (0x1000, a) \<in> leads (relations_of (Some call_db) Callees) ^^ k}"
proof -
  have root: "db_function_at call_db 0x1000 = Some (demo_function 0x1000 ''alpha'')" by (simp add: call_db_def)
  from callgraph_exact [OF root call_db_graph] show ?thesis
    by (simp add: demo_function_def function_info_of_def)
qed

text \<open>
  C15: For a start and an end that lie in blocks of one function, \<open>find_paths\<close> answers with block
  paths that lead from the block of the one to the block of the other without visiting a
  block twice and with at most \<open>max_depth + 1\<close> blocks, never more than \<open>max_paths\<close> of them;
  when it returns fewer than that, it has found all such paths. No path is repeated unless the
  flow chart itself repeats an edge.
\<close>

theorem find_paths_exact:
  assumes "db_function_at db start = Some f" "db_contains db (fv_start f) end_addr" "db_cfg db (fv_start f) = Inr blocks"
    and "block_position blocks start = Some s" "block_position blocks end_addr = Some e"
  shows "\<exists>ps. handle_find_paths (Some db) start end_addr max_paths max_depth = Inr (map (shown_path blocks) ps, length ps)
    \<and> length ps \<le> max max_paths 1
    \<and> (\<forall>p \<in> set ps. simple_path (succ_blocks blocks) s e p \<and> length p \<le> Suc (max max_depth 1))
    \<and> (length ps < max max_paths 1 \<longrightarrow>
         set ps = {p. simple_path (succ_blocks blocks) s e p \<and> length p \<le> Suc (max max_depth 1)})
    \<and> ((\<forall>i. distinct (succ_blocks blocks i)) \<longrightarrow> distinct ps)"
proof -
  let ?all = "paths_from (succ_blocks blocks) e (Suc (max max_depth 1)) [] s"
  let ?ps = "take (max max_paths 1) ?all"
  have "dfs blocks e (max max_depth 1) (max max_paths 1) s [] [] = map (shown_path blocks) ?ps"
    using dfs_spec [of "[]" "max max_paths 1" blocks e "max max_depth 1" s "[]"]
    by (simp only: list.size append_Nil take_map minus_nat.diff_0 le0 simp_thms)
  then have run: "handle_find_paths (Some db) start end_addr max_paths max_depth = Inr (map (shown_path blocks) ?ps, length ?ps)"
    using assms by (simp add: handle_find_paths_def with_db_def Let_def del: paths_from.simps)
  have all: "set ?all = {p. simple_path (succ_blocks blocks) s e p \<and> length p \<le> Suc (max max_depth 1)}"
    by (intro set_eqI) (simp only: paths_from_iff mem_Collect_eq list.set Int_empty_right simp_thms)
  have "set ?ps \<subseteq> set ?all" by (rule set_take_subset)
  moreover have "?ps = ?all" if "length ?ps < max max_paths 1"
    using that by (intro take_all) (simp del: paths_from.simps)
  then have "length ?ps < max max_paths 1 \<longrightarrow> set ?ps = set ?all" by (simp del: paths_from.simps)
  moreover have "length ?ps \<le> max max_paths 1" by (simp del: paths_from.simps)
  moreover have "(\<forall>i. distinct (succ_blocks blocks i)) \<longrightarrow> distinct ?ps"
    by (intro impI distinct_take paths_from_distinct) blast
  ultimately show ?thesis using run unfolding all by blast
qed

text \<open>A function of three blocks with a branch and a loop back to its entry.\<close>

definition path_blocks :: "block_view list" where
  "path_blocks = [\<lparr>bv_start = 0x1000, bv_end = 0x1004, bv_succs = [0x1004, 0x1008]\<rparr>,
     \<lparr>bv_start = 0x1004, bv_end = 0x1008, bv_succs = [0x1008]\<rparr>,
     \<lparr>bv_start = 0x1008, bv_end = 0x1010, bv_succs = [0x1000]\<rparr>]"

definition path_db :: idb where
  "path_db = call_db\<lparr>db_contains := (\<lambda>_ _. True), db_cfg := (\<lambda>_. Inr path_blocks)\<rparr>"

theorem find_paths_exact_witness:
  "\<exists>ps. handle_find_paths (Some path_db) 0x1000 0x100A 10 5 = Inr (map (shown_path path_blocks) ps, length ps)
    \<and> (length ps < 10 \<longrightarrow> set ps = {p. simple_path (succ_blocks path_blocks) 0 2 p \<and> length p \<le> 6})"
proof -
  have "block_position path_blocks 0x1000 = Some 0" "block_position path_blocks 0x100A = Some 2"
    by (simp_all add: block_position_def path_blocks_def block_contains_def)
  from find_paths_exact [OF _ _ _ this, of path_db "demo_function 0x1000 ''alpha''" 10 5] show ?thesis
    by (simp add: path_db_def call_db_def) blast
qed

end
