(* ===== verification/Rust_Path.thy ===== *)
theory Rust_Path
  imports Rust_Std
begin

text \<open>
  What the sources use of \<open>std::path::Path\<close> on Unix and of \<open>BufRead::lines\<close>: a path is its
  byte string, and its components are the pieces between slashes without the empty and \<open>.\<close> ones.
\<close>

section \<open>Paths\<close>

definition trivial_piece :: "string \<Rightarrow> bool" where
  "trivial_piece c \<longleftrightarrow> c = [] \<or> c = ''.''"

text \<open>The path without trailing slashes and \<open>/.\<close>, as pieces.\<close>

definition path_pieces :: "string \<Rightarrow> string list" where
  "path_pieces p = rev (dropWhile trivial_piece (rev (split_char (CHR ''/'') p)))"

definition file_name :: "string \<Rightarrow> string option" where
  "file_name p = (let ps = path_pieces p in if ps = [] \<or> last ps = ''..'' then None else Some (last ps))"

text \<open>\<open>rsplit_file_at_dot\<close>: a name that starts with its only dot has no extension.\<close>

definition before_last_dot :: "string \<Rightarrow> string option" where
  "before_last_dot f =
     (case dropWhile (\<lambda>c. c \<noteq> CHR ''.'') (rev f) of [] \<Rightarrow> None | _ # r \<Rightarrow> if r = [] then None else Some (rev r))"

definition stem_of :: "string \<Rightarrow> string" where
  "stem_of f = (case before_last_dot f of Some s \<Rightarrow> s | None \<Rightarrow> f)"

definition extension_of :: "string \<Rightarrow> string option" where
  "extension_of f =
     (case before_last_dot f of Some _ \<Rightarrow> Some (rev (takeWhile (\<lambda>c. c \<noteq> CHR ''.'') (rev f))) | None \<Rightarrow> None)"

definition file_stem :: "string \<Rightarrow> string option" where
  "file_stem p = map_option stem_of (file_name p)"

definition path_extension :: "string \<Rightarrow> string option" where
  "path_extension p = Option.bind (file_name p) extension_of"

text \<open>\<open>set_extension\<close>: the path is cut behind the stem of its file name.\<close>

definition set_extension :: "string \<Rightarrow> string \<Rightarrow> string" where
  "set_extension ext p =
     (let ps = path_pieces p
      in case file_name p of
           None \<Rightarrow> p
         | Some f \<Rightarrow> str_join ''/'' (butlast ps @ [stem_of f]) @ (if ext = [] then [] else CHR ''.'' # ext))"

section \<open>Lines\<close>

definition utf8_cont :: "char \<Rightarrow> bool" where
  "utf8_cont c \<longleftrightarrow> (let n = (of_char c :: nat) in 128 \<le> n \<and> n < 192)"

definition utf8_len :: "char \<Rightarrow> nat" where
  "utf8_len c =
     (let n = (of_char c :: nat)
      in if n < 128 then 1 else if 194 \<le> n \<and> n < 224 then 2 else if 224 \<le> n \<and> n < 240 then 3
         else if 240 \<le> n \<and> n < 245 then 4 else 0)"

text \<open>No overlong form, no surrogate and nothing above U+10FFFF.\<close>

definition utf8_second_ok :: "char \<Rightarrow> char \<Rightarrow> bool" where
  "utf8_second_ok c d \<longleftrightarrow>
     (let m = (of_char c :: nat); n = (of_char d :: nat)
      in utf8_cont d \<and> (m = 224 \<longrightarrow> 160 \<le> n) \<and> (m = 237 \<longrightarrow> n < 160) \<and> (m = 240 \<longrightarrow> 144 \<le> n) \<and> (m = 244 \<longrightarrow> n < 144))"

function utf8_valid :: "string \<Rightarrow> bool" where
  "utf8_valid [] = True"
| "utf8_valid (c # cs) =
     (let k = utf8_len c
      in if k = 0 \<or> length cs < k - 1 then False
         else list_all utf8_cont (take (k - 1) cs) \<and> (1 < k \<longrightarrow> utf8_second_ok c (hd cs)) \<and> utf8_valid (drop (k - 1) cs))"
  by pat_completeness auto
termination
  by (relation "measure length") auto

declare utf8_valid.simps [simp del]

text \<open>The lines of a file; a final newline ends the last line and a carriage return before a newline is dropped.\<close>

definition line_feed :: char where "line_feed = CHR 0x0A"

definition drop_cr :: "string \<Rightarrow> string" where
  "drop_cr l = (if l \<noteq> [] \<and> last l = CHR 0x0D then butlast l else l)"

definition raw_lines :: "string \<Rightarrow> string list" where
  "raw_lines s = (let ps = split_char line_feed s in map drop_cr (butlast ps) @ (if last ps = [] then [] else [last ps]))"

text \<open>\<open>lines().map_while(Result::ok)\<close> stops at the first line that is not UTF-8.\<close>

definition ok_lines :: "string \<Rightarrow> string list" where
  "ok_lines s = takeWhile utf8_valid (raw_lines s)"

section \<open>Facts\<close>

lemma utf8_valid_ascii: "\<forall>c \<in> set s. (of_char c :: nat) < 128 \<Longrightarrow> utf8_valid s"
proof (induction s)
  case (Cons c s)
  then have "utf8_len c = 1" by (simp add: utf8_len_def)
  with Cons show ?case by (simp add: utf8_valid.simps)
qed (simp add: utf8_valid.simps)

lemma split_char_append_sep: "d \<notin> set xs \<Longrightarrow> split_char d (xs @ d # ys) = xs # split_char d ys"
  by (induction xs) (auto split: list.split)

lemma split_char_plain: "d \<notin> set xs \<Longrightarrow> split_char d xs = [xs]"
  by (induction xs) auto

lemma hd_ok_lines:
  assumes "line_feed \<notin> set l" "l \<noteq> []" "last l \<noteq> CHR 0x0D" "utf8_valid l"
  shows "\<exists>ls. ok_lines (l @ line_feed # s) = l # ls"
  using assms by (simp add: ok_lines_def raw_lines_def split_char_append_sep drop_cr_def)

text \<open>A file in a directory, with and without an extension.\<close>

lemma path_pieces_join:
  assumes "CHR ''/'' \<notin> set f" "\<not> trivial_piece f"
  shows "path_pieces (dir @ CHR ''/'' # f) = split_char (CHR ''/'') dir @ [f]"
proof -
  have "split_char d (xs @ d # f) = split_char d xs @ [f]" if "d \<notin> set f" for d xs
    using that by (induction xs) (auto simp: split_char_plain split: list.split)
  then show ?thesis using assms by (simp add: path_pieces_def)
qed

lemma before_last_dot_append: "s \<noteq> [] \<Longrightarrow> CHR ''.'' \<notin> set e \<Longrightarrow> before_last_dot (s @ CHR ''.'' # e) = Some s"
  by (subst before_last_dot_def) (simp, subst dropWhile_append2, auto)

lemma set_extension_file:
  assumes "CHR ''/'' \<notin> set s" "s \<noteq> []" "CHR ''.'' \<notin> set e" "CHR ''/'' \<notin> set e" "s \<noteq> ''.'' \<or> e \<noteq> []" "ext \<noteq> []"
  shows "set_extension ext (dir @ CHR ''/'' # s @ CHR ''.'' # e) = dir @ CHR ''/'' # s @ CHR ''.'' # ext"
proof -
  let ?f = "s @ CHR ''.'' # e"
  have f: "\<not> trivial_piece ?f" "?f \<noteq> ''..''" using assms(2,3,5) by (auto simp: trivial_piece_def append_eq_Cons_conv)
  have pieces: "path_pieces (dir @ CHR ''/'' # ?f) = split_char (CHR ''/'') dir @ [?f]"
    using assms(1,4) f(1) by (intro path_pieces_join) auto
  have "file_name (dir @ CHR ''/'' # ?f) = Some ?f"
    unfolding file_name_def Let_def pieces using f(2) by simp
  moreover have "stem_of ?f = s" using assms(2,3) by (simp add: stem_of_def before_last_dot_append)
  moreover have "str_join ''/'' (ws @ [w]) = str_join ''/'' ws @ CHR ''/'' # w" if "ws \<noteq> []" for ws w
    using that by (induction ws rule: induct_list012) auto
  ultimately show ?thesis
    using assms(6) unfolding set_extension_def Let_def pieces by (simp add: str_join_split_char)
qed

end
