(* ===== verification/Db_Lock.thy ===== *)
theory Db_Lock
  imports Rust_Path Tool_Error
begin

text \<open>
  \<open>src/src/ida/lock.rs\<close>: the lock file that keeps two processes from opening one database.

  The operating system is a state of paths, file contents and advisory locks. A file is an
  inode, which stays the same file after its path was removed; a write lock belongs to a
  process and goes away when that process closes any descriptor of the inode. Each system
  call is one function; the operations of the module compose them, first without and then
  with other processes in between.
\<close>

section \<open>The operating system\<close>

type_synonym inode = nat
type_synonym pid = nat

record os_state =
  os_paths :: "string \<Rightarrow> inode option"
  os_content :: "inode \<Rightarrow> string"
  os_locks :: "inode \<Rightarrow> pid option"
  os_next :: inode

text \<open>What can go wrong in one operation: the open, the metadata queries and the removal.\<close>

record os_faults =
  of_open :: "string option"
  of_stat :: bool
  of_unlink :: "string option"

definition no_faults :: os_faults where
  "no_faults = \<lparr>of_open = None, of_stat = False, of_unlink = None\<rparr>"

definition open_create :: "string \<Rightarrow> os_state \<Rightarrow> inode \<times> os_state" where
  "open_create path os =
     (case os_paths os path of
        Some i \<Rightarrow> (i, os)
      | None \<Rightarrow> (os_next os, os\<lparr>os_paths := (os_paths os)(path \<mapsto> os_next os),
                                os_content := (os_content os)(os_next os := []),
                                os_next := Suc (os_next os)\<rparr>))"

definition close_file :: "pid \<Rightarrow> inode \<Rightarrow> os_state \<Rightarrow> os_state" where
  "close_file me i os = (if os_locks os i = Some me then os\<lparr>os_locks := (os_locks os)(i := None)\<rparr> else os)"

definition unlink :: "string \<Rightarrow> os_state \<Rightarrow> os_state" where
  "unlink path os = os\<lparr>os_paths := (os_paths os)(path := None)\<rparr>"

definition set_content :: "inode \<Rightarrow> string \<Rightarrow> os_state \<Rightarrow> os_state" where
  "set_content i text os = os\<lparr>os_content := (os_content os)(i := text)\<rparr>"

text \<open>\<open>F_GETLK\<close> reports a lock of another process.\<close>

definition locked_by_pid_from_fd :: "pid \<Rightarrow> inode \<Rightarrow> os_state \<Rightarrow> pid option" where
  "locked_by_pid_from_fd me i os = (if os_locks os i = Some me then None else os_locks os i)"

definition try_lock_file :: "pid \<Rightarrow> inode \<Rightarrow> os_state \<Rightarrow> pid + os_state" where
  "try_lock_file me i os =
     (if os_locks os i = None \<or> os_locks os i = Some me then Inr (os\<lparr>os_locks := (os_locks os)(i \<mapsto> me)\<rparr>)
      else Inl (case locked_by_pid_from_fd me i os of Some p \<Rightarrow> p | None \<Rightarrow> 0))"

section \<open>The lock file\<close>

record mcp_lock =
  ml_file :: inode
  ml_path :: string
  ml_transferred :: bool

definition lock_path_of :: "string \<Rightarrow> string" where
  "lock_path_of db_path = set_extension ''imcp'' db_path"

definition lock_info :: "pid \<Rightarrow> string \<Rightarrow> string \<Rightarrow> nat \<Rightarrow> string" where
  "lock_info me host exe opened_at =
     ''pid='' @ show_nat me @ line_feed # ''host='' @ host @ line_feed # ''exe='' @ exe @ line_feed #
     ''opened_at='' @ show_nat opened_at @ [line_feed]"

fun pid_line :: "string list \<Rightarrow> pid option" where
  "pid_line [] = None"
| "pid_line (l # ls) = (case strip_prefix ''pid='' l of Some p \<Rightarrow> from_str_radix 10 (2 ^ 32) (trim p) | None \<Rightarrow> pid_line ls)"

definition read_lock_file_pid_from_file :: "inode \<Rightarrow> os_state \<Rightarrow> pid option" where
  "read_lock_file_pid_from_file i os = pid_line (ok_lines (os_content os i))"

text \<open>A fresh descriptor: closing it drops the locks of this process on the file.\<close>

definition read_lock_file_pid :: "pid \<Rightarrow> string \<Rightarrow> os_state \<Rightarrow> pid option \<times> os_state" where
  "read_lock_file_pid me path os =
     (case os_paths os path of
        None \<Rightarrow> (None, os)
      | Some i \<Rightarrow> (read_lock_file_pid_from_file i os, close_file me i os))"

definition lock_path_names_file :: "os_faults \<Rightarrow> inode \<Rightarrow> string \<Rightarrow> os_state \<Rightarrow> bool" where
  "lock_path_names_file f i path os \<longleftrightarrow> \<not> of_stat f \<and> os_paths os path = Some i"

definition remove_file :: "os_faults \<Rightarrow> string \<Rightarrow> os_state \<Rightarrow> os_state" where
  "remove_file f path os = (if of_unlink f = None then unlink path os else os)"

definition into_parts :: "mcp_lock \<Rightarrow> inode \<times> string" where
  "into_parts lock = (ml_file lock, ml_path lock)"

definition mcp_lock_drop :: "os_faults \<Rightarrow> pid \<Rightarrow> mcp_lock \<Rightarrow> os_state \<Rightarrow> os_state" where
  "mcp_lock_drop f me lock os =
     close_file me (ml_file lock)
       (if \<not> ml_transferred lock \<and> lock_path_names_file f (ml_file lock) (ml_path lock) os
        then remove_file f (ml_path lock) os else os)"

definition locked_message :: "string \<Rightarrow> pid \<Rightarrow> string" where
  "locked_message path holder = (if 0 < holder then path @ '' (locked by pid '' @ show_nat holder @ '')'' else path)"

definition acquire_mcp_lock ::
  "os_faults \<Rightarrow> pid \<Rightarrow> string \<Rightarrow> string \<Rightarrow> nat \<Rightarrow> string \<Rightarrow> os_state \<Rightarrow> (tool_error + mcp_lock) \<times> os_state" where
  "acquire_mcp_lock f me host exe now db_path os =
     (let lock_path = lock_path_of db_path
      in case of_open f of
           Some e \<Rightarrow> (Inl (OpenFailed (lock_path @ '': '' @ e)), os)
         | None \<Rightarrow>
             (case open_create lock_path os of (i, os1) \<Rightarrow>
                case try_lock_file me i os1 of
                  Inl holder \<Rightarrow> (Inl (DatabaseLocked (locked_message lock_path holder)), close_file me i os1)
                | Inr os2 \<Rightarrow>
                    (Inr \<lparr>ml_file = i, ml_path = lock_path, ml_transferred = False\<rparr>,
                     set_content i (lock_info me host exe now) (set_content i [] os2))))"

definition reclaim_mcp_lock_path :: "os_faults \<Rightarrow> pid \<Rightarrow> string \<Rightarrow> pid option \<Rightarrow> os_state \<Rightarrow> mcp_lock option \<times> os_state" where
  "reclaim_mcp_lock_path f me lock_path expected os =
     (case (of_open f, os_paths os lock_path) of
        (None, Some i) \<Rightarrow>
          (case try_lock_file me i os of
             Inl _ \<Rightarrow> (None, close_file me i os)
           | Inr os1 \<Rightarrow>
               if read_lock_file_pid_from_file i os1 \<noteq> expected \<or> \<not> lock_path_names_file f i lock_path os1
               then (None, close_file me i os1)
               else (Some \<lparr>ml_file = i, ml_path = lock_path, ml_transferred = False\<rparr>, os1))
      | _ \<Rightarrow> (None, os))"

definition reclaim_killed_worker_mcp_lock ::
  "os_faults \<Rightarrow> pid \<Rightarrow> string \<Rightarrow> pid option \<Rightarrow> os_state \<Rightarrow> mcp_lock option \<times> os_state" where
  "reclaim_killed_worker_mcp_lock f me db_path worker_pid os =
     (case worker_pid of
        None \<Rightarrow> (None, os)
      | Some w \<Rightarrow> reclaim_mcp_lock_path f me (lock_path_of db_path) (Some w) os)"

text \<open>The worker keeps the file and the path of its lock in two options and empties both.\<close>

definition release_mcp_lock ::
  "os_faults \<Rightarrow> pid \<Rightarrow> inode option \<Rightarrow> string option \<Rightarrow> os_state \<Rightarrow> inode option \<times> string option \<times> os_state" where
  "release_mcp_lock f me lock_file lock_path os =
     (None, None,
      case (lock_file, lock_path) of
        (Some i, Some path) \<Rightarrow> close_file me i (if lock_path_names_file f i path os then remove_file f path os else os)
      | (Some i, None) \<Rightarrow> close_file me i os
      | (None, _) \<Rightarrow> os)"

definition remove_mcp_lock_file :: "os_faults \<Rightarrow> pid \<Rightarrow> mcp_lock \<Rightarrow> os_state \<Rightarrow> (string \<times> string + string) \<times> os_state" where
  "remove_mcp_lock_file f me lock os =
     (let owned = lock_path_names_file f (ml_file lock) (ml_path lock) os
      in case into_parts lock of (i, path) \<Rightarrow>
           if \<not> owned then (Inl (path, ''MCP lock path no longer names the locked file''), close_file me i os)
           else ((case of_unlink f of None \<Rightarrow> Inr path | Some e \<Rightarrow> Inl (path, e)), close_file me i (remove_file f path os)))"

definition release_mcp_lock_file :: "os_faults \<Rightarrow> pid \<Rightarrow> mcp_lock \<Rightarrow> os_state \<Rightarrow> os_state" where
  "release_mcp_lock_file f me lock os = snd (remove_mcp_lock_file f me lock os)"

definition remove_mcp_lock_for_pid :: "os_faults \<Rightarrow> pid \<Rightarrow> string \<Rightarrow> pid option \<Rightarrow> os_state \<Rightarrow> os_state" where
  "remove_mcp_lock_for_pid f me db_path worker_pid os =
     (case worker_pid of
        None \<Rightarrow> os
      | Some w \<Rightarrow>
          (case reclaim_killed_worker_mcp_lock f me db_path (Some w) os of
             (None, os1) \<Rightarrow> os1
           | (Some lock, os1) \<Rightarrow> snd (remove_mcp_lock_file f me lock os1)))"

record stale_lock_info =
  sl_path :: string
  sl_pid :: pid
  sl_reason :: string

text \<open>\<open>running\<close> answers whether a process exists.\<close>

definition clean_stale_mcp_lock ::
  "os_faults \<Rightarrow> (pid \<Rightarrow> bool) \<Rightarrow> pid \<Rightarrow> string \<Rightarrow> os_state \<Rightarrow> stale_lock_info option \<times> os_state" where
  "clean_stale_mcp_lock f running me db_path os =
     (let path = lock_path_of db_path
      in if os_paths os path = None then (None, os)
         else case read_lock_file_pid me path os of
           (None, os1) \<Rightarrow>
             (case reclaim_mcp_lock_path f me path None os1 of
                (Some lock, os2) \<Rightarrow>
                  (case remove_mcp_lock_file f me lock os2 of
                     (Inr _, os3) \<Rightarrow> (Some \<lparr>sl_path = path, sl_pid = 0, sl_reason = ''no valid PID and no fcntl lock held''\<rparr>, os3)
                   | (Inl _, os3) \<Rightarrow> (None, os3))
              | (None, os2) \<Rightarrow> (None, os2))
         | (Some p, os1) \<Rightarrow>
             if running p then (None, os1)
             else (case reclaim_mcp_lock_path f me path (Some p) os1 of
                (Some lock, os2) \<Rightarrow>
                  (case remove_mcp_lock_file f me lock os2 of
                     (Inr _, os3) \<Rightarrow>
                       (Some \<lparr>sl_path = path, sl_pid = p, sl_reason = ''process '' @ show_nat p @ '' is no longer running''\<rparr>, os3)
                   | (Inl _, os3) \<Rightarrow> (None, os3))
              | (None, os2) \<Rightarrow> (None, os2)))"

text \<open>The files of a database that may be locked by another instance.\<close>

definition lock_candidates :: "string \<Rightarrow> string list" where
  "lock_candidates path =
     [path]
     @ (case path_extension path of
          Some ext \<Rightarrow>
            if ext = ''i64'' \<or> ext = ''idb'' \<or> ext = ''id0''
            then (if ext = ''id0'' then [set_extension ''i64'' path] else [])
                 @ [set_extension ''id0'' path, set_extension ''id1'' path, set_extension ''nam'' path]
            else []
        | None \<Rightarrow> [])
     @ [set_extension ''imcp'' path]"

definition locked_by_pid :: "pid \<Rightarrow> string \<Rightarrow> os_state \<Rightarrow> pid option \<times> os_state" where
  "locked_by_pid me path os =
     (case os_paths os path of
        None \<Rightarrow> (None, os)
      | Some i \<Rightarrow> (locked_by_pid_from_fd me i os, close_file me i os))"

fun first_locked :: "pid \<Rightarrow> string list \<Rightarrow> os_state \<Rightarrow> string option \<times> os_state" where
  "first_locked me [] os = (None, os)"
| "first_locked me (c # cs) os =
     (case locked_by_pid me c os of
        (Some p, os1) \<Rightarrow>
          (Some (if p = 0 then c @ '' (locked by another process)'' else c @ '' (locked by pid '' @ show_nat p @ '')''), os1)
      | (None, os1) \<Rightarrow> first_locked me cs os1)"

definition detect_db_lock :: "pid \<Rightarrow> string \<Rightarrow> os_state \<Rightarrow> string option \<times> os_state" where
  "detect_db_lock me path os = first_locked me (lock_candidates path) os"

section \<open>Processes in between\<close>

text \<open>
  Where a process is in its work on one lock path, between two system calls. \<open>Holding\<close> is an
  acquired and \<open>Reclaimed\<close> a reclaimed lock; \<open>Unlinking\<close> has checked that the path still names
  the file and is about to remove it.
\<close>

datatype lock_phase =
    Away
  | Opened inode
  | Claimed inode
  | Truncated inode
  | Holding inode
  | Probing inode "pid option"
  | Validating inode "pid option"
  | Matched inode
  | Reclaimed inode
  | Unlinking inode
  | Closing inode

fun phase_file :: "lock_phase \<Rightarrow> inode option" where
  "phase_file Away = None"
| "phase_file (Opened i) = Some i"
| "phase_file (Claimed i) = Some i"
| "phase_file (Truncated i) = Some i"
| "phase_file (Holding i) = Some i"
| "phase_file (Probing i _) = Some i"
| "phase_file (Validating i _) = Some i"
| "phase_file (Matched i) = Some i"
| "phase_file (Reclaimed i) = Some i"
| "phase_file (Unlinking i) = Some i"
| "phase_file (Closing i) = Some i"

fun phase_locked :: "lock_phase \<Rightarrow> bool" where
  "phase_locked Away = False"
| "phase_locked (Opened _) = False"
| "phase_locked (Probing _ _) = False"
| "phase_locked _ = True"

record lock_system =
  ls_os :: os_state
  ls_phase :: "pid \<Rightarrow> string \<Rightarrow> lock_phase"

definition goto :: "pid \<Rightarrow> string \<Rightarrow> lock_phase \<Rightarrow> os_state \<Rightarrow> lock_system \<Rightarrow> lock_system" where
  "goto me path ph os s = \<lparr>ls_os = os, ls_phase = (ls_phase s)(me := (ls_phase s me)(path := ph))\<rparr>"

text \<open>A process that dies loses its descriptors and with them its locks.\<close>

definition drop_locks :: "pid \<Rightarrow> os_state \<Rightarrow> os_state" where
  "drop_locks me os = os\<lparr>os_locks := (\<lambda>i. if os_locks os i = Some me then None else os_locks os i)\<rparr>"

definition die :: "pid \<Rightarrow> lock_system \<Rightarrow> lock_system" where
  "die me s =
     \<lparr>ls_os = drop_locks me (ls_os s),
      ls_phase = (ls_phase s)(me := (\<lambda>_. Away))\<rparr>"

inductive lock_step :: "lock_system \<Rightarrow> lock_system \<Rightarrow> bool" where
  acquire_open: "ls_phase s me path = Away \<Longrightarrow> open_create path (ls_os s) = (i, os1) \<Longrightarrow>
     lock_step s (goto me path (Opened i) os1 s)"
| acquire_busy: "ls_phase s me path = Opened i \<Longrightarrow> try_lock_file me i (ls_os s) = Inl holder \<Longrightarrow>
     lock_step s (goto me path Away (close_file me i (ls_os s)) s)"
| acquire_lock: "ls_phase s me path = Opened i \<Longrightarrow> try_lock_file me i (ls_os s) = Inr os1 \<Longrightarrow>
     lock_step s (goto me path (Claimed i) os1 s)"
| acquire_truncate: "ls_phase s me path = Claimed i \<Longrightarrow>
     lock_step s (goto me path (Truncated i) (set_content i [] (ls_os s)) s)"
| acquire_write: "ls_phase s me path = Truncated i \<Longrightarrow>
     lock_step s (goto me path (Holding i) (set_content i (lock_info me host exe now) (ls_os s)) s)"
| reclaim_open: "ls_phase s me path = Away \<Longrightarrow> os_paths (ls_os s) path = Some i \<Longrightarrow>
     lock_step s (goto me path (Probing i expected) (ls_os s) s)"
| reclaim_busy: "ls_phase s me path = Probing i expected \<Longrightarrow> try_lock_file me i (ls_os s) = Inl holder \<Longrightarrow>
     lock_step s (goto me path Away (close_file me i (ls_os s)) s)"
| reclaim_lock: "ls_phase s me path = Probing i expected \<Longrightarrow> try_lock_file me i (ls_os s) = Inr os1 \<Longrightarrow>
     lock_step s (goto me path (Validating i expected) os1 s)"
| reclaim_match: "ls_phase s me path = Validating i expected \<Longrightarrow> read_lock_file_pid_from_file i (ls_os s) = expected \<Longrightarrow>
     lock_step s (goto me path (Matched i) (ls_os s) s)"
| reclaim_mismatch: "ls_phase s me path = Validating i expected \<Longrightarrow> read_lock_file_pid_from_file i (ls_os s) \<noteq> expected \<Longrightarrow>
     lock_step s (goto me path (Closing i) (ls_os s) s)"
| reclaim_named: "ls_phase s me path = Matched i \<Longrightarrow> lock_path_names_file f i path (ls_os s) \<Longrightarrow>
     lock_step s (goto me path (Reclaimed i) (ls_os s) s)"
| reclaim_unnamed: "ls_phase s me path = Matched i \<Longrightarrow> \<not> lock_path_names_file f i path (ls_os s) \<Longrightarrow>
     lock_step s (goto me path (Closing i) (ls_os s) s)"
| release_named: "ls_phase s me path \<in> {Holding i, Reclaimed i} \<Longrightarrow> lock_path_names_file f i path (ls_os s) \<Longrightarrow>
     lock_step s (goto me path (Unlinking i) (ls_os s) s)"
| release_unnamed: "ls_phase s me path \<in> {Holding i, Reclaimed i} \<Longrightarrow> \<not> lock_path_names_file f i path (ls_os s) \<Longrightarrow>
     lock_step s (goto me path (Closing i) (ls_os s) s)"
| release_unlink: "ls_phase s me path = Unlinking i \<Longrightarrow>
     lock_step s (goto me path (Closing i) (remove_file f path (ls_os s)) s)"
| release_close: "ls_phase s me path = Closing i \<Longrightarrow>
     lock_step s (goto me path Away (close_file me i (ls_os s)) s)"
| death: "lock_step s (die me s)"

inductive_cases lock_stepE: "lock_step s t"

definition lock_start :: "lock_system \<Rightarrow> bool" where
  "lock_start s \<longleftrightarrow> (\<forall>me path. ls_phase s me path = Away) \<and> (\<forall>i. os_locks (ls_os s) i = None)
     \<and> (\<forall>path i. os_paths (ls_os s) path = Some i \<longrightarrow> i < os_next (ls_os s))
     \<and> (\<forall>p q i. os_paths (ls_os s) p = Some i \<longrightarrow> os_paths (ls_os s) q = Some i \<longrightarrow> p = q)"

section \<open>The invariant\<close>

text \<open>
  Every open or named file belongs to one path (\<open>origin\<close>); a file is locked by exactly the
  process whose phase says so; and a path that is about to be removed, or whose lock was
  reclaimed, names the locked file.
\<close>

definition lock_ok :: "(inode \<Rightarrow> string) \<Rightarrow> lock_system \<Rightarrow> bool" where
  "lock_ok origin s \<longleftrightarrow>
     (\<forall>path i. os_paths (ls_os s) path = Some i \<longrightarrow> origin i = path \<and> i < os_next (ls_os s))
     \<and> (\<forall>me path i. phase_file (ls_phase s me path) = Some i \<longrightarrow> origin i = path \<and> i < os_next (ls_os s))
     \<and> (\<forall>me path i. phase_file (ls_phase s me path) = Some i \<longrightarrow>
           (phase_locked (ls_phase s me path) \<longleftrightarrow> os_locks (ls_os s) i = Some me))
     \<and> (\<forall>i me. os_locks (ls_os s) i = Some me \<longrightarrow> phase_file (ls_phase s me (origin i)) = Some i)
     \<and> (\<forall>me path i. ls_phase s me path \<in> {Unlinking i, Reclaimed i} \<longrightarrow> os_paths (ls_os s) path = Some i)"

definition lock_inv :: "lock_system \<Rightarrow> bool" where
  "lock_inv s \<longleftrightarrow> (\<exists>origin. lock_ok origin s)"

lemma lock_okD:
  assumes "lock_ok origin s"
  shows "os_paths (ls_os s) path = Some i \<Longrightarrow> origin i = path"
    and "os_paths (ls_os s) path = Some i \<Longrightarrow> i < os_next (ls_os s)"
    and "phase_file (ls_phase s me path) = Some i \<Longrightarrow> origin i = path"
    and "phase_file (ls_phase s me path) = Some i \<Longrightarrow> i < os_next (ls_os s)"
    and "phase_file (ls_phase s me path) = Some i \<Longrightarrow> phase_locked (ls_phase s me path) \<Longrightarrow> os_locks (ls_os s) i = Some me"
    and "phase_file (ls_phase s me path) = Some i \<Longrightarrow> os_locks (ls_os s) i = Some me \<Longrightarrow> phase_locked (ls_phase s me path)"
    and "os_locks (ls_os s) i = Some me \<Longrightarrow> phase_file (ls_phase s me (origin i)) = Some i"
    and "ls_phase s me path = Unlinking i \<Longrightarrow> os_paths (ls_os s) path = Some i"
    and "ls_phase s me path = Reclaimed i \<Longrightarrow> os_paths (ls_os s) path = Some i"
  using assms unfolding lock_ok_def by blast+

lemma lock_ok_locked:
  "lock_ok origin s \<Longrightarrow> phase_file (ls_phase s me path) = Some i \<Longrightarrow>
   phase_locked (ls_phase s me path) \<longleftrightarrow> os_locks (ls_os s) i = Some me"
  unfolding lock_ok_def by blast

lemma lock_inv_start: "lock_start s \<Longrightarrow> lock_inv s"
proof -
  assume start: "lock_start s"
  let ?origin = "\<lambda>i. THE path. os_paths (ls_os s) path = Some i"
  have "?origin i = path" if "os_paths (ls_os s) path = Some i" for path i
    using that start by (intro the_equality) (auto simp: lock_start_def)
  with start show ?thesis unfolding lock_inv_def lock_ok_def lock_start_def by (intro exI [of _ ?origin]) auto
qed

text \<open>
  Moving to a phase with the same file: the new phase has to agree with the lock, and when it
  promises the path then the path has to name the file.
\<close>

lemma goto_same_file:
  assumes ok: "lock_ok origin s" and same: "phase_file (ls_phase s me path) = Some i" "phase_file ph = Some i"
    and paths: "os_paths os' = os_paths (ls_os s)" and fresh: "os_next os' = os_next (ls_os s)"
    and lock: "os_locks os' = (if phase_locked ph then (os_locks (ls_os s))(i \<mapsto> me) else os_locks (ls_os s))"
    and free: "phase_locked ph \<Longrightarrow> os_locks (ls_os s) i \<in> {None, Some me}"
    and stay: "phase_locked (ls_phase s me path) \<Longrightarrow> phase_locked ph"
    and named: "ph \<in> {Unlinking i, Reclaimed i} \<Longrightarrow> os_paths (ls_os s) path = Some i"
  shows "lock_ok origin (goto me path ph os' s)"
proof -
  note inv = lock_okD [OF ok]
  have origin: "origin i = path" using inv(3) same(1) .
  have other: "os_locks os' j = Some q \<longleftrightarrow> os_locks (ls_os s) j = Some q" if "j \<noteq> i \<or> q \<noteq> me" for j q
    using that lock free by (auto split: if_splits)
  have mine: "os_locks os' i = Some me \<longleftrightarrow> phase_locked ph"
    using lock stay inv(6) same(1) by (auto split: if_splits)
  have single: "i \<noteq> j" if "phase_file (ls_phase s q p) = Some j" "p \<noteq> path" for q p j
    using inv(3) that origin by blast
  show ?thesis unfolding lock_ok_def
  proof (intro conjI allI impI)
    fix p j assume "os_paths (ls_os (goto me path ph os' s)) p = Some j"
    then show "origin j = p" "j < os_next (ls_os (goto me path ph os' s))" using inv(1,2) paths fresh by (auto simp: goto_def)
  next
    fix q p j assume "phase_file (ls_phase (goto me path ph os' s) q p) = Some j"
    then show "origin j = p" "j < os_next (ls_os (goto me path ph os' s))"
      using inv(3,4) same fresh by (auto simp: goto_def split: if_splits)
  next
    fix q p j assume q: "phase_file (ls_phase (goto me path ph os' s) q p) = Some j"
    show "phase_locked (ls_phase (goto me path ph os' s) q p) \<longleftrightarrow> os_locks (ls_os (goto me path ph os' s)) j = Some q"
    proof (cases "q = me \<and> p = path")
      case True
      then show ?thesis using q same(2) mine by (simp add: goto_def)
    next
      case False
      then have old: "ls_phase (goto me path ph os' s) q p = ls_phase s q p" by (auto simp: goto_def)
      have "j \<noteq> i \<or> q \<noteq> me" using False q single unfolding old by blast
      then show ?thesis using lock_ok_locked [OF ok q [unfolded old]] other unfolding old by (simp add: goto_def)
    qed
  next
    fix j q assume q: "os_locks (ls_os (goto me path ph os' s)) j = Some q"
    show "phase_file (ls_phase (goto me path ph os' s) q (origin j)) = Some j"
    proof (cases "j = i \<and> q = me")
      case True
      then show ?thesis using same(2) origin by (simp add: goto_def)
    next
      case False
      then have "os_locks (ls_os s) j = Some q" using q other by (simp add: goto_def)
      from inv(7) [OF this] show ?thesis using same(1) False by (auto simp: goto_def)
    qed
  next
    fix q p j assume "ls_phase (goto me path ph os' s) q p \<in> {Unlinking j, Reclaimed j}"
    then show "os_paths (ls_os (goto me path ph os' s)) p = Some j"
      using inv(8,9) named same(2) paths by (auto simp: goto_def split: if_splits)
  qed
qed


lemma goto_locked:
  assumes ok: "lock_ok origin s" and same: "phase_file (ls_phase s me path) = Some i" "phase_file ph = Some i"
    and locked: "phase_locked (ls_phase s me path)" "phase_locked ph"
    and rest: "os_paths os' = os_paths (ls_os s)" "os_next os' = os_next (ls_os s)" "os_locks os' = os_locks (ls_os s)"
    and named: "ph \<in> {Unlinking i, Reclaimed i} \<Longrightarrow> os_paths (ls_os s) path = Some i"
  shows "lock_ok origin (goto me path ph os' s)"
proof -
  have "os_locks (ls_os s) i = Some me" using lock_ok_locked [OF ok same(1)] locked(1) by simp
  then show ?thesis
    by (intro goto_same_file [OF ok same rest(1,2)]) (use locked rest(3) named in \<open>auto simp: fun_upd_idem\<close>)
qed

text \<open>Giving up the file, with the lock if there is one.\<close>

lemma goto_away:
  assumes ok: "lock_ok origin s" and same: "phase_file (ls_phase s me path) = Some i"
  shows "lock_ok origin (goto me path Away (close_file me i (ls_os s)) s)"
proof -
  note inv = lock_okD [OF ok]
  have origin: "origin i = path" using inv(3) same .
  have locks: "os_locks (close_file me i (ls_os s)) j = Some q \<longleftrightarrow> os_locks (ls_os s) j = Some q \<and> (j \<noteq> i \<or> q \<noteq> me)" for j q
    by (auto simp: close_file_def)
  have rest: "os_paths (close_file me i (ls_os s)) = os_paths (ls_os s)" "os_next (close_file me i (ls_os s)) = os_next (ls_os s)"
    by (simp_all add: close_file_def)
  have old: "ls_phase (goto me path Away os' s) q p = ls_phase s q p \<and> (q \<noteq> me \<or> p \<noteq> path)"
    if "ls_phase (goto me path Away os' s) q p \<noteq> Away" for q p os'
    using that by (auto simp: goto_def split: if_splits)
  show ?thesis unfolding lock_ok_def
  proof (intro conjI allI impI)
    fix q p j assume q: "phase_file (ls_phase (goto me path Away (close_file me i (ls_os s)) s) q p) = Some j"
    then have "ls_phase (goto me path Away (close_file me i (ls_os s)) s) q p \<noteq> Away" by auto
    from old [OF this] have keep: "ls_phase (goto me path Away (close_file me i (ls_os s)) s) q p = ls_phase s q p" "q \<noteq> me \<or> p \<noteq> path"
      by simp_all
    show "origin j = p" "j < os_next (ls_os (goto me path Away (close_file me i (ls_os s)) s))"
      using inv(3,4) q unfolding keep(1) by (auto simp: goto_def rest)
    have "j \<noteq> i \<or> q \<noteq> me" using keep(2) inv(3) q origin unfolding keep(1) by blast
    then show "phase_locked (ls_phase (goto me path Away (close_file me i (ls_os s)) s) q p)
        \<longleftrightarrow> os_locks (ls_os (goto me path Away (close_file me i (ls_os s)) s)) j = Some q"
      using lock_ok_locked [OF ok q [unfolded keep(1)]] locks unfolding keep(1) by (simp add: goto_def)
  next
    fix q p j assume "ls_phase (goto me path Away (close_file me i (ls_os s)) s) q p \<in> {Unlinking j, Reclaimed j}"
    then show "os_paths (ls_os (goto me path Away (close_file me i (ls_os s)) s)) p = Some j"
      using inv(8,9) by (auto simp: goto_def rest split: if_splits)
  next
    fix j q assume "os_locks (ls_os (goto me path Away (close_file me i (ls_os s)) s)) j = Some q"
    then have q: "os_locks (ls_os s) j = Some q" "j \<noteq> i \<or> q \<noteq> me" using locks by (simp_all add: goto_def)
    from inv(7) [OF q(1)] show "phase_file (ls_phase (goto me path Away (close_file me i (ls_os s)) s) q (origin j)) = Some j"
      using same q(2) by (auto simp: goto_def)
  qed (use inv(1,2) in \<open>auto simp: goto_def rest\<close>)
qed

lemma die_ok: "lock_ok origin s \<Longrightarrow> lock_ok origin (die me s)"
  unfolding lock_ok_def die_def drop_locks_def by (auto split: if_splits)

text \<open>Opening a lock file: a new inode gets the path as its origin.\<close>

lemma open_ok:
  assumes ok: "lock_ok origin s" and away: "ls_phase s me path = Away" and run: "open_create path (ls_os s) = (i, os1)"
    and same: "phase_file ph = Some i" and unlocked: "\<not> phase_locked ph"
  shows "\<exists>origin'. lock_ok origin' (goto me path ph os1 s)"
proof -
  note inv = lock_okD [OF ok]
  have ph: "ph \<noteq> Unlinking j" "ph \<noteq> Reclaimed j" for j using unlocked by auto
  have mine: "origin j \<noteq> path" if "os_locks (ls_os s) j = Some me" for j
    using inv(7) [OF that] away by auto
  show ?thesis
  proof (cases "os_paths (ls_os s) path")
    case None
    then have new: "i = os_next (ls_os s)" "os_paths os1 = (os_paths (ls_os s))(path \<mapsto> i)" "os_locks os1 = os_locks (ls_os s)"
      "os_next os1 = Suc i" using run by (auto simp: open_create_def)
    have unused: "phase_file (ls_phase s q p) \<noteq> Some i" "os_paths (ls_os s) p \<noteq> Some i" "os_locks (ls_os s) i \<noteq> Some q" for q p
      using inv(2,4,7) new(1) by blast+
    show ?thesis
    proof (intro exI [of _ "origin(i := path)"])
      show "lock_ok (origin(i := path)) (goto me path ph os1 s)"
        unfolding lock_ok_def goto_def using ok away same unlocked ph new unused None mine
        by (auto simp: lock_ok_def less_Suc_eq)
    qed
  next
    case (Some j)
    then have "i = j" "os1 = ls_os s" using run by (simp_all add: open_create_def)
    moreover have "origin j = path" "j < os_next (ls_os s)" using inv(1,2) Some by blast+
    moreover have "os_locks (ls_os s) j \<noteq> Some me" using inv(7) [of j me] away \<open>origin j = path\<close> by auto
    ultimately have "lock_ok origin (goto me path ph os1 s)"
      unfolding lock_ok_def goto_def using ok away same unlocked ph mine by (auto simp: lock_ok_def)
    then show ?thesis by blast
  qed
qed

lemma unlink_ok:
  assumes "lock_ok origin s" "\<And>q j. ls_phase s q path \<noteq> Unlinking j \<and> ls_phase s q path \<noteq> Reclaimed j"
  shows "lock_ok origin (s\<lparr>ls_os := unlink path (ls_os s)\<rparr>)"
  using assms by (simp add: lock_ok_def unlink_def)

lemma unlinking_ok:
  assumes ok: "lock_ok origin s" and ph: "ls_phase s me path = Unlinking i"
  shows "lock_ok origin (goto me path (Closing i) (remove_file f path (ls_os s)) s)"
proof -
  note inv = lock_okD [OF ok]
  let ?t = "goto me path (Closing i) (ls_os s) s"
  have mine: "os_paths (ls_os s) path = Some i" "os_locks (ls_os s) i = Some me"
    using inv(8) ph inv(5) [of me path i] by auto
  have t: "lock_ok origin ?t"
    using goto_same_file [OF ok, of me path i "Closing i" "ls_os s"] ph mine by (auto simp: fun_upd_idem)
  have "ls_phase ?t q path \<noteq> Unlinking j \<and> ls_phase ?t q path \<noteq> Reclaimed j" for q j
  proof (cases "q = me")
    case False
    have "False" if "ls_phase s q path = Unlinking j \<or> ls_phase s q path = Reclaimed j"
    proof -
      have "os_paths (ls_os s) path = Some j" using that inv(8,9) by blast
      then have "j = i" using mine(1) by simp
      moreover have "os_locks (ls_os s) j = Some q" using that inv(5) [of q path j] by auto
      ultimately show False using mine(2) False by simp
    qed
    then show ?thesis using False by (auto simp: goto_def)
  qed (simp add: goto_def)
  from unlink_ok [OF t this] have "lock_ok origin (?t\<lparr>ls_os := unlink path (ls_os ?t)\<rparr>)" .
  moreover have "?t\<lparr>ls_os := unlink path (ls_os ?t)\<rparr> = goto me path (Closing i) (unlink path (ls_os s)) s"
    by (simp add: goto_def)
  ultimately show ?thesis using t by (simp add: remove_file_def)
qed

lemma try_lock_spec:
  assumes "try_lock_file me i os = Inr os1"
  shows "os_locks os i \<in> {None, Some me}" "os_locks os1 = (os_locks os)(i \<mapsto> me)" "os_paths os1 = os_paths os" "os_next os1 = os_next os"
  using assms by (auto simp: try_lock_file_def split: if_splits)

lemma lock_ok_step:
  assumes ok: "lock_ok origin s" and step: "lock_step s t"
  shows "\<exists>origin'. lock_ok origin' t"
proof -
  note move = goto_locked [OF ok] and away = goto_away [OF ok]
  from step show ?thesis
  proof cases
    case (acquire_open me path i os1)
    show ?thesis unfolding acquire_open(1) by (rule open_ok [OF ok acquire_open(2,3)]) simp_all
  next
    case (acquire_lock me path i os1)
    then show ?thesis using try_lock_spec [OF acquire_lock(3)] goto_same_file [OF ok, of me path i "Claimed i" os1] by auto
  next
    case (reclaim_open me path i expected)
    have "open_create path (ls_os s) = (i, ls_os s)" using reclaim_open(3) by (simp add: open_create_def)
    then show ?thesis unfolding reclaim_open(1) by (intro open_ok [OF ok reclaim_open(2)]) simp_all
  next
    case (reclaim_lock me path i expected os1)
    then show ?thesis using try_lock_spec [OF reclaim_lock(3)] goto_same_file [OF ok, of me path i "Validating i expected" os1] by auto
  next
    case (acquire_truncate me path i)
    then show ?thesis using move [of me path i "Truncated i" "set_content i [] (ls_os s)"] by (auto simp: set_content_def)
  next
    case (acquire_write me path i host exe now)
    then show ?thesis using move [of me path i "Holding i" "set_content i (lock_info me host exe now) (ls_os s)"] by (auto simp: set_content_def)
  next
    case (reclaim_match me path i expected)
    then show ?thesis using move [of me path i "Matched i" "ls_os s"] by auto
  next
    case (reclaim_mismatch me path i expected)
    then show ?thesis using move [of me path i "Closing i" "ls_os s"] by auto
  next
    case (reclaim_named me path i f)
    then show ?thesis using move [of me path i "Reclaimed i" "ls_os s"] by (auto simp: lock_path_names_file_def)
  next
    case (reclaim_unnamed me path i f)
    then show ?thesis using move [of me path i "Closing i" "ls_os s"] by auto
  next
    case (release_named me path i f)
    then show ?thesis using move [of me path i "Unlinking i" "ls_os s"] by (auto simp: lock_path_names_file_def)
  next
    case (release_unnamed me path i f)
    then show ?thesis using move [of me path i "Closing i" "ls_os s"] by auto
  next
    case (release_unlink me path i f)
    then show ?thesis using unlinking_ok [OF ok] by blast
  qed (metis away die_ok [OF ok] phase_file.simps)+
qed

lemma lock_inv_step: "lock_inv s \<Longrightarrow> lock_step s t \<Longrightarrow> lock_inv t"
  using lock_ok_step unfolding lock_inv_def by blast

interpretation lock_file: invariant_system lock_start lock_step lock_inv
  by unfold_locales (auto intro: lock_inv_start lock_inv_step)

section \<open>Operations as runs\<close>

text \<open>
  Undisturbed, an operation is a run of the steps above: acquiring ends in \<open>Holding\<close>,
  reclaiming in \<open>Reclaimed\<close> and removing back in \<open>Away\<close>, with the operation's own result.
\<close>

lemma goto_goto [simp]: "goto me path ph' os2 (goto me path ph os1 s) = goto me path ph' os2 s"
  by (simp add: goto_def)

lemma goto_sel [simp]: "ls_os (goto me path ph os1 s) = os1" "ls_phase (goto me path ph os1 s) me path = ph"
  by (simp_all add: goto_def)

lemma goto_same: "ls_phase s me path = ph \<Longrightarrow> goto me path ph (ls_os s) s = s"
  by (auto simp: goto_def)

lemma claim_run:
  assumes "ls_phase s me path = Opened i" "try_lock_file me i (ls_os s) = Inr os2"
  shows "lock_step\<^sup>*\<^sup>* s (goto me path (Holding i) (set_content i (lock_info me host exe now) (set_content i [] os2)) s)"
proof -
  have "lock_step s (goto me path (Claimed i) os2 s)" using assms by (rule acquire_lock)
  moreover have "lock_step (goto me path (Claimed i) os2 s) (goto me path (Truncated i) (set_content i [] os2) s)"
    using acquire_truncate [of "goto me path (Claimed i) os2 s" me path i] by simp
  moreover have "lock_step (goto me path (Truncated i) (set_content i [] os2) s)
      (goto me path (Holding i) (set_content i (lock_info me host exe now) (set_content i [] os2)) s)"
    using acquire_write [of "goto me path (Truncated i) (set_content i [] os2) s" me path i] by simp
  ultimately show ?thesis by (meson rtranclp.rtrancl_into_rtrancl rtranclp.rtrancl_refl)
qed

lemma acquire_run:
  assumes "ls_phase s me (lock_path_of db_path) = Away"
    and "acquire_mcp_lock f me host exe now db_path (ls_os s) = (Inr lock, os')"
  shows "lock_step\<^sup>*\<^sup>* s (goto me (lock_path_of db_path) (Holding (ml_file lock)) os' s) \<and> ml_path lock = lock_path_of db_path"
proof -
  let ?p = "lock_path_of db_path"
  obtain i os1 os2 where run: "open_create ?p (ls_os s) = (i, os1)" "try_lock_file me i os1 = Inr os2"
    "lock = \<lparr>ml_file = i, ml_path = ?p, ml_transferred = False\<rparr>"
    "os' = set_content i (lock_info me host exe now) (set_content i [] os2)"
    using assms(2) by (auto simp: acquire_mcp_lock_def Let_def split: option.splits sum.splits prod.splits)
  have "lock_step s (goto me ?p (Opened i) os1 s)" using assms(1) run(1) by (rule acquire_open)
  moreover have "lock_step\<^sup>*\<^sup>* (goto me ?p (Opened i) os1 s) (goto me ?p (Holding i) os' s)"
    using claim_run [of "goto me ?p (Opened i) os1 s" me ?p i os2] run(2,4) by simp
  ultimately have "lock_step\<^sup>*\<^sup>* s (goto me ?p (Holding i) os' s)" by simp
  then show ?thesis using run(3) by simp
qed

lemma reclaim_run:
  assumes "ls_phase s me path = Away" "reclaim_mcp_lock_path f me path expected (ls_os s) = (Some lock, os')"
  shows "lock_step\<^sup>*\<^sup>* s (goto me path (Reclaimed (ml_file lock)) os' s) \<and> ml_path lock = path"
proof -
  obtain i where run: "os_paths (ls_os s) path = Some i" "try_lock_file me i (ls_os s) = Inr os'"
    "read_lock_file_pid_from_file i os' = expected" "lock_path_names_file f i path os'"
    "lock = \<lparr>ml_file = i, ml_path = path, ml_transferred = False\<rparr>"
    using assms(2) by (auto simp: reclaim_mcp_lock_path_def split: option.splits sum.splits if_splits)
  have "lock_step s (goto me path (Probing i expected) (ls_os s) s)" using assms(1) run(1) by (rule reclaim_open)
  moreover have "lock_step (goto me path (Probing i expected) (ls_os s) s) (goto me path (Validating i expected) os' s)"
    using reclaim_lock [of "goto me path (Probing i expected) (ls_os s) s" me path i expected os'] run(2) by simp
  moreover have "lock_step (goto me path (Validating i expected) os' s) (goto me path (Matched i) os' s)"
    using reclaim_match [of "goto me path (Validating i expected) os' s" me path i expected] run(3) by simp
  moreover have "lock_step (goto me path (Matched i) os' s) (goto me path (Reclaimed i) os' s)"
    using reclaim_named [of "goto me path (Matched i) os' s" me path i f] run(4) by simp
  ultimately have "lock_step\<^sup>*\<^sup>* s (goto me path (Reclaimed i) os' s)"
    by (meson rtranclp.rtrancl_into_rtrancl rtranclp.rtrancl_refl)
  then show ?thesis using run(5) by simp
qed

lemma remove_run:
  assumes "ls_phase s me (ml_path lock) \<in> {Holding (ml_file lock), Reclaimed (ml_file lock)}"
  shows "lock_step\<^sup>*\<^sup>* s (goto me (ml_path lock) Away (release_mcp_lock_file f me lock (ls_os s)) s)"
proof (cases "lock_path_names_file f (ml_file lock) (ml_path lock) (ls_os s)")
  case True
  let ?p = "ml_path lock" and ?i = "ml_file lock" and ?os = "remove_file f (ml_path lock) (ls_os s)"
  have "lock_step s (goto me ?p (Unlinking ?i) (ls_os s) s)" using assms True by (rule release_named)
  moreover have "lock_step (goto me ?p (Unlinking ?i) (ls_os s) s) (goto me ?p (Closing ?i) ?os s)"
    using release_unlink [of "goto me ?p (Unlinking ?i) (ls_os s) s" me ?p ?i f] by simp
  moreover have "lock_step (goto me ?p (Closing ?i) ?os s) (goto me ?p Away (close_file me ?i ?os) s)"
    using release_close [of "goto me ?p (Closing ?i) ?os s" me ?p ?i] by simp
  ultimately have "lock_step\<^sup>*\<^sup>* s (goto me ?p Away (close_file me ?i ?os) s)"
    by (meson rtranclp.rtrancl_into_rtrancl rtranclp.rtrancl_refl)
  then show ?thesis using True by (simp add: release_mcp_lock_file_def remove_mcp_lock_file_def into_parts_def)
next
  case False
  let ?p = "ml_path lock" and ?i = "ml_file lock"
  have "lock_step s (goto me ?p (Closing ?i) (ls_os s) s)" using assms False by (rule release_unnamed)
  moreover have "lock_step (goto me ?p (Closing ?i) (ls_os s) s) (goto me ?p Away (close_file me ?i (ls_os s)) s)"
    using release_close [of "goto me ?p (Closing ?i) (ls_os s) s" me ?p ?i] by simp
  ultimately have "lock_step\<^sup>*\<^sup>* s (goto me ?p Away (close_file me ?i (ls_os s)) s)"
    by (meson rtranclp.rtrancl_into_rtrancl rtranclp.rtrancl_refl)
  then show ?thesis using False by (simp add: release_mcp_lock_file_def remove_mcp_lock_file_def into_parts_def)
qed

section \<open>Properties\<close>

lemma strip_pid: "strip_prefix ''pid='' (''pid='' @ s) = Some s"
  by (rule strip_prefix_append)

lemma digits_ascii: "c \<in> set (show_nat n) \<Longrightarrow> (of_char c :: nat) < 128 \<and> c \<noteq> line_feed \<and> c \<noteq> CHR 0x0D"
  using set_show_nat [of n] by (auto simp: line_feed_def)

lemma recorded_pid:
  assumes "me < 2 ^ 32"
  shows "pid_line (ok_lines (lock_info me host exe now)) = Some me"
proof -
  let ?l = "''pid='' @ show_nat me"
  have "last ?l \<in> set (show_nat me)"
    using show_base_nonempty [of 10 me] by (auto simp: show_nat_def)
  then have "last ?l \<noteq> CHR 0x0D" using digits_ascii by blast
  moreover have "utf8_valid ?l" using digits_ascii by (intro utf8_valid_ascii) auto
  moreover have "line_feed \<notin> set ?l" using digits_ascii by (auto simp: line_feed_def)
  ultimately obtain ls where "ok_lines (lock_info me host exe now) = ?l # ls"
    using hd_ok_lines [of ?l] unfolding lock_info_def by (simp only: append_assoc append_Cons append_Nil) blast
  moreover have "trim (show_nat me) = show_nat me" 
    using trim_plain [OF plain_show_base [of 10 me]] by (simp add: show_nat_def)
  ultimately show ?thesis
    using from_str_radix_show_base [of 10 me "2 ^ 32"] assms by (simp add: strip_pid show_nat_def del: append_Cons)
qed

text \<open>
  C22: A process that is about to remove a lock file, or that works under a reclaimed lock, has
  the lock of exactly the file the path names, and no other process has it; so no process
  ever removes the lock file of another one, however the operations of any number of
  processes interleave and whichever of them die.
\<close>

theorem lock_unlink_owned:
  assumes "reach lock_start lock_step s" "ls_phase s me path = Unlinking i \<or> ls_phase s me path = Reclaimed i"
  shows "os_paths (ls_os s) path = Some i \<and> os_locks (ls_os s) i = Some me
    \<and> (\<forall>other. phase_locked (ls_phase s other path) \<and> phase_file (ls_phase s other path) = Some i \<longrightarrow> other = me)"
proof -
  obtain origin where ok: "lock_ok origin s" using lock_file.reach_inv [OF assms(1)] by (auto simp: lock_inv_def)
  have "os_paths (ls_os s) path = Some i" using assms(2) lock_okD(8,9) [OF ok] by blast
  moreover have mine: "os_locks (ls_os s) i = Some me" using assms(2) lock_okD(5) [OF ok, of me path i] by auto
  moreover have "other = me" if "phase_locked (ls_phase s other path)" "phase_file (ls_phase s other path) = Some i" for other
    using lock_okD(5) [OF ok that(2,1)] mine by simp
  ultimately show ?thesis by blast
qed

text \<open>The empty system, and its first steps.\<close>

definition lock_idle :: lock_system where
  "lock_idle = \<lparr>ls_os = \<lparr>os_paths = (\<lambda>_. None), os_content = (\<lambda>_. []), os_locks = (\<lambda>_. None), os_next = 0\<rparr>,
     ls_phase = (\<lambda>_ _. Away)\<rparr>"

lemma lock_idle_reach: "reach lock_start lock_step lock_idle"
  by (rule reach_init) (simp add: lock_start_def lock_idle_def)

lemma lock_reach_run: "lock_step\<^sup>*\<^sup>* s t \<Longrightarrow> reach lock_start lock_step s \<Longrightarrow> reach lock_start lock_step t"
  by (induction rule: rtranclp_induct) (auto intro: reach_step)

text \<open>
  Undisturbed, the operations of the module are runs of the step relation: acquiring
  ends with the lock held, reclaiming with the lock reclaimed, and releasing gives it up,
  in the state that the operation returns.
\<close>

theorem lock_operations_refine:
  "(\<forall>lock os'. ls_phase s me (lock_path_of db_path) = Away
      \<and> acquire_mcp_lock f me host exe now db_path (ls_os s) = (Inr lock, os')
      \<longrightarrow> lock_step\<^sup>*\<^sup>* s (goto me (ml_path lock) (Holding (ml_file lock)) os' s))
   \<and> (\<forall>lock os'. ls_phase s me (lock_path_of db_path) = Away
      \<and> reclaim_killed_worker_mcp_lock f me db_path worker (ls_os s) = (Some lock, os')
      \<longrightarrow> lock_step\<^sup>*\<^sup>* s (goto me (ml_path lock) (Reclaimed (ml_file lock)) os' s))
   \<and> (\<forall>lock. ls_phase s me (ml_path lock) \<in> {Holding (ml_file lock), Reclaimed (ml_file lock)}
      \<longrightarrow> lock_step\<^sup>*\<^sup>* s (goto me (ml_path lock) Away (release_mcp_lock_file f me lock (ls_os s)) s))"
proof (intro conjI allI impI; (elim conjE)?)
  fix lock os'
  assume "ls_phase s me (lock_path_of db_path) = Away" "acquire_mcp_lock f me host exe now db_path (ls_os s) = (Inr lock, os')"
  from acquire_run [OF this] show "lock_step\<^sup>*\<^sup>* s (goto me (ml_path lock) (Holding (ml_file lock)) os' s)" by simp
next
  fix lock os'
  assume away: "ls_phase s me (lock_path_of db_path) = Away"
    and "reclaim_killed_worker_mcp_lock f me db_path worker (ls_os s) = (Some lock, os')"
  then obtain w where "reclaim_mcp_lock_path f me (lock_path_of db_path) (Some w) (ls_os s) = (Some lock, os')"
    by (auto simp: reclaim_killed_worker_mcp_lock_def split: option.splits)
  from reclaim_run [OF away this] show "lock_step\<^sup>*\<^sup>* s (goto me (ml_path lock) (Reclaimed (ml_file lock)) os' s)" by simp
qed (rule remove_run)

text \<open>
  The lock of a worker that acquired it and was killed is reclaimed exactly for that
  worker's process id.
\<close>

theorem killed_worker_lock_reclaimed:
  assumes "acquire_mcp_lock f w host exe now db_path os = (Inr lock, os1)" "w < 2 ^ 32" "w \<noteq> me"
  shows "fst (reclaim_killed_worker_mcp_lock no_faults me db_path pid (drop_locks w os1)) = (if pid = Some w then Some lock else None)"
proof -
  let ?p = "lock_path_of db_path"
  obtain i os0 os2 where run: "open_create ?p os = (i, os0)" "try_lock_file w i os0 = Inr os2"
    "lock = \<lparr>ml_file = i, ml_path = ?p, ml_transferred = False\<rparr>"
    "os1 = set_content i (lock_info w host exe now) (set_content i [] os2)"
    using assms(1) by (auto simp: acquire_mcp_lock_def Let_def split: option.splits sum.splits prod.splits)
  have path: "os_paths os1 ?p = Some i"
    using run(1) try_lock_spec(3) [OF run(2)] by (auto simp: run(4) set_content_def open_create_def split: option.splits)
  have free: "os_locks (drop_locks w os1) i = None"
    using try_lock_spec(2) [OF run(2)] by (simp add: run(4) drop_locks_def set_content_def)
  have "os_content os1 i = lock_info w host exe now" by (simp add: run(4) set_content_def)
  then have "pid_line (ok_lines (os_content os1 i)) = Some w" using recorded_pid [OF assms(2)] by simp
  with path free show ?thesis
    by (cases pid) (auto simp: reclaim_killed_worker_mcp_lock_def reclaim_mcp_lock_path_def no_faults_def try_lock_file_def
        read_lock_file_pid_from_file_def lock_path_names_file_def drop_locks_def run(3))
qed

text \<open>
  Without I/O errors a stale lock file is removed exactly when it exists, no other
  process has its lock and the process it records, if it records one, is not running; then
  the path is free, and otherwise it stays as it was.
\<close>

theorem stale_cleanup_exact:
  "let path = lock_path_of db_path; (info, os') = clean_stale_mcp_lock no_faults running me db_path os;
       stale = (case os_paths os path of
                  None \<Rightarrow> False
                | Some i \<Rightarrow> os_locks os i \<in> {None, Some me}
                    \<and> (case read_lock_file_pid_from_file i os of None \<Rightarrow> True | Some p \<Rightarrow> \<not> running p))
   in (info \<noteq> None \<longleftrightarrow> stale) \<and> os_paths os' = (if stale then (os_paths os)(path := None) else os_paths os)"
  by (auto simp: clean_stale_mcp_lock_def Let_def read_lock_file_pid_def reclaim_mcp_lock_path_def remove_mcp_lock_file_def
      into_parts_def close_file_def try_lock_file_def no_faults_def lock_path_names_file_def remove_file_def unlink_def
      read_lock_file_pid_from_file_def split: option.split)


text \<open>Two processes and their lock path in the runs below.\<close>

definition demo_path :: string where "demo_path = lock_path_of ''db.i64''"

definition demo_os :: "inode \<Rightarrow> pid \<Rightarrow> os_state" where
  "demo_os i me = \<lparr>os_paths = (\<lambda>_. None)(demo_path \<mapsto> i), os_content = (\<lambda>_. [])(i := lock_info me [] [] 0),
     os_locks = (\<lambda>_. None)(i \<mapsto> me), os_next = Suc i\<rparr>"

lemma demo_lock:
  "acquire_mcp_lock no_faults me [] [] 0 ''db.i64'' (ls_os lock_idle)
      = (Inr \<lparr>ml_file = 0, ml_path = demo_path, ml_transferred = False\<rparr>, demo_os 0 me)"
  by (simp add: acquire_mcp_lock_def Let_def no_faults_def lock_idle_def open_create_def try_lock_file_def set_content_def
      demo_os_def flip: demo_path_def)

lemma demo_acquire: "lock_step\<^sup>*\<^sup>* lock_idle (goto me demo_path (Holding 0) (demo_os 0 me) lock_idle)"
  using acquire_run [OF _ demo_lock, of me] by (simp add: lock_idle_def demo_path_def)

theorem lock_unlink_owned_witness:
  "\<exists>s. reach lock_start lock_step s \<and> ls_phase s 7 demo_path = Unlinking 0 \<and> os_paths (ls_os s) demo_path = Some 0
     \<and> os_locks (ls_os s) 0 = Some 7"
proof -
  let ?s = "goto 7 demo_path (Holding 0) (demo_os 0 7) lock_idle"
  let ?t = "goto 7 demo_path (Unlinking 0) (demo_os 0 7) lock_idle"
  have "reach lock_start lock_step ?s" by (rule lock_reach_run [OF demo_acquire lock_idle_reach])
  moreover have "lock_step ?s ?t"
    using release_named [of ?s 7 demo_path 0 no_faults] by (simp add: lock_path_names_file_def no_faults_def demo_os_def)
  ultimately have reach: "reach lock_start lock_step ?t" by (rule reach_step)
  moreover have ph: "ls_phase ?t 7 demo_path = Unlinking 0" by simp
  moreover note lock_unlink_owned [OF reach disjI1 [OF ph]]
  ultimately show ?thesis by blast
qed

theorem lock_operations_refine_witness:
  "lock_step\<^sup>*\<^sup>* lock_idle (goto 7 demo_path (Holding 0) (demo_os 0 7) lock_idle)"
proof -
  show ?thesis
    using demo_lock [of 7] lock_operations_refine [of lock_idle 7 "''db.i64''" no_faults "[]" "[]" 0 None] by (auto simp: lock_idle_def)
qed

theorem killed_worker_lock_reclaimed_witness:
  "fst (reclaim_killed_worker_mcp_lock no_faults 1 ''db.i64'' (Some 7) (drop_locks 7 (demo_os 0 7)))
   = Some \<lparr>ml_file = 0, ml_path = demo_path, ml_transferred = False\<rparr>"
proof -
  from killed_worker_lock_reclaimed [OF demo_lock, of 7 1 "Some 7"] show ?thesis by simp
qed

text \<open>
  Acquiring does not check after locking that the path still names the file: a process
  that opened the lock file just before its owner removed it locks the removed file, while
  another one creates a new file, and both hold the lock of one database.
\<close>

theorem acquire_race:
  "\<exists>s i j. reach lock_start lock_step s \<and> ls_phase s 1 demo_path = Holding i \<and> ls_phase s 2 demo_path = Holding j"
proof -
  let ?p = demo_path and ?info = "\<lambda>me. lock_info me [] [] 0"
  let ?s1 = "goto 3 ?p (Holding 0) (demo_os 0 3) lock_idle"
  let ?s2 = "goto 1 ?p (Opened 0) (demo_os 0 3) ?s1"
  let ?lock = "\<lparr>ml_file = 0, ml_path = ?p, ml_transferred = False\<rparr>"
  let ?os3 = "release_mcp_lock_file no_faults 3 ?lock (demo_os 0 3)"
  let ?s3 = "goto 3 ?p Away ?os3 ?s2"
  let ?os4 = "?os3\<lparr>os_locks := (os_locks ?os3)(0 \<mapsto> 1)\<rparr>"
  let ?os5 = "set_content 0 (?info 1) (set_content 0 [] ?os4)"
  let ?s5 = "goto 1 ?p (Holding 0) ?os5 ?s3"
  have os3: "os_paths ?os3 ?p = None" "os_locks ?os3 0 = None" "os_next ?os3 = 1" "\<And>i. os_locks ?os3 i = None"
    by (simp_all add: release_mcp_lock_file_def remove_mcp_lock_file_def into_parts_def lock_path_names_file_def no_faults_def
        remove_file_def unlink_def close_file_def demo_os_def)
  have "reach lock_start lock_step ?s1" by (rule lock_reach_run [OF demo_acquire lock_idle_reach])
  moreover have "lock_step ?s1 ?s2"
    using acquire_open [of ?s1 1 ?p 0 "demo_os 0 3"] by (simp add: goto_def lock_idle_def open_create_def demo_os_def)
  ultimately have "reach lock_start lock_step ?s2" by (rule reach_step)
  moreover have "lock_step\<^sup>*\<^sup>* ?s2 ?s3"
    using remove_run [of ?s2 3 ?lock no_faults] by (simp add: goto_def)
  ultimately have s3: "reach lock_start lock_step ?s3" using lock_reach_run by blast
  have "ls_phase ?s3 1 ?p = Opened 0" "try_lock_file 1 0 (ls_os ?s3) = Inr ?os4"
    using os3(2) by (simp_all add: goto_def try_lock_file_def)
  from claim_run [OF this] have s5: "reach lock_start lock_step ?s5" using s3 lock_reach_run by blast
  obtain lock os' where "acquire_mcp_lock no_faults 2 [] [] 0 ''db.i64'' (ls_os ?s5) = (Inr lock, os')"
    using os3 by (simp add: acquire_mcp_lock_def Let_def no_faults_def open_create_def set_content_def try_lock_file_def
        flip: demo_path_def)
  from acquire_run [OF _ this] have "lock_step\<^sup>*\<^sup>* ?s5 (goto 2 ?p (Holding (ml_file lock)) os' ?s5)"
    by (simp add: goto_def lock_idle_def demo_path_def)
  then have "reach lock_start lock_step (goto 2 ?p (Holding (ml_file lock)) os' ?s5)" using s5 lock_reach_run by blast
  then show ?thesis by (intro exI [of _ "goto 2 ?p (Holding (ml_file lock)) os' ?s5"]) (auto simp: goto_def)
qed

end
