(* ===== verification/Debugger.thy ===== *)
theory Debugger
  imports Rust_Std Tool_Error
begin

text \<open>
  \<open>src/src/ida/handlers/debugger.rs\<close>: the debugger session of the worker. The platform, the
  opened target and the answers of the IDA debugger are arguments; what the module keeps is
  whether the backend is loaded, which session it owns and, on macOS, the helper process.
\<close>

section \<open>State and answers\<close>

datatype debug_session_kind = Launched | Attached
datatype target_architecture = Arm | Aarch64 | X86 | X86_64
datatype file_type = MACHO | ELF | PE | OtherFile string
datatype platform = MacOS | Linux | Windows | OtherPlatform
datatype processor_family = FamilyArm | Family386 | OtherFamily string
datatype process_state = Suspended | NoProcess | Running | UnknownState int
datatype debug_stop_action = StopAuto | StopTerminate | StopDetach

record debug_target =
  dt_family :: processor_family
  dt_is_64bit :: bool
  dt_file_type :: file_type

record mac_debugger_helper =
  mh_port :: nat
  mh_name :: string

record debugger_runtime =
  rt_backend_loaded :: bool
  rt_session :: "debug_session_kind option"
  rt_helper :: "mac_debugger_helper option"

text \<open>
  The answers one operation gets: the process state when it asks, the results of loading,
  starting and stopping, and what happens to the macOS helper process (whether a helper that
  was started earlier has exited, where its program is, an error of the bind, the port, an error
  of the spawn, and whether the new process exits at once).
\<close>

record debug_sdk =
  ds_state :: process_state
  ds_load :: "string option"
  ds_start :: "string + int"
  ds_teardown :: "string + int"
  ds_helper_exited :: "string + bool"
  ds_helper_path :: "string option"
  ds_helper_bind :: "string option"
  ds_helper_port :: "string + nat"
  ds_helper_spawn :: "string option"
  ds_helper_early :: "string + string option"

definition DEBUG_EVENT_TIMEOUT_MAX_SECS :: nat where "DEBUG_EVENT_TIMEOUT_MAX_SECS = 120"
definition MACOS_ARM64_DEBUGGER_HELPER :: string where "MACOS_ARM64_DEBUGGER_HELPER = ''mac_server_arm''"
definition MACOS_X86_DEBUGGER_HELPER :: string where "MACOS_X86_DEBUGGER_HELPER = ''mac_server''"

section \<open>Targets and backends\<close>

definition target_architecture_of :: "debug_target \<Rightarrow> tool_error + target_architecture" where
  "target_architecture_of t =
     (case dt_family t of
        FamilyArm \<Rightarrow> Inr (if dt_is_64bit t then Aarch64 else Arm)
      | Family386 \<Rightarrow> Inr (if dt_is_64bit t then X86_64 else X86)
      | OtherFamily n \<Rightarrow> Inl (NotSupported (''no debugger backend for target processor '' @ n)))"

definition debugger_backend_for_target :: "platform \<Rightarrow> file_type \<Rightarrow> target_architecture \<Rightarrow> string + string" where
  "debugger_backend_for_target pf ft a =
     (case pf of
        MacOS \<Rightarrow>
          (if ft = MACHO \<and> a = Aarch64 then Inr ''arm_mac''
           else if ft = MACHO \<and> (a = X86 \<or> a = X86_64) then Inr ''mac''
           else if ft = MACHO \<and> a = Arm then Inl ''32-bit ARM Mach-O debugging is unsupported''
           else Inl ''target is not a supported macOS executable'')
      | Linux \<Rightarrow>
          (if ft = ELF \<and> (a = X86 \<or> a = X86_64) then Inr ''linux''
           else if ft = ELF \<and> (a = Arm \<or> a = Aarch64)
             then Inl ''the ARM Linux debugger is remote-only and remote configuration is not exposed''
           else Inl ''target is not a supported Linux executable'')
      | Windows \<Rightarrow>
          (if ft = PE \<and> (a = X86 \<or> a = X86_64) then Inr ''win32''
           else if ft = PE \<and> (a = Arm \<or> a = Aarch64)
             then Inl ''the IDA SDK does not provide a Windows-on-ARM user debugger''
           else Inl ''target is not a supported Windows executable'')
      | OtherPlatform \<Rightarrow> Inl ''debugger support is unavailable on this platform'')"

text \<open>\<open>shown\<close> is the debug text of a file type and an architecture.\<close>

definition debugger_backend ::
  "(file_type \<Rightarrow> target_architecture \<Rightarrow> string) \<Rightarrow> platform \<Rightarrow> debug_target \<Rightarrow> tool_error + string \<times> target_architecture" where
  "debugger_backend shown pf t =
     (case target_architecture_of t of
        Inl e \<Rightarrow> Inl e
      | Inr a \<Rightarrow>
          (case debugger_backend_for_target pf (dt_file_type t) a of
             Inl reason \<Rightarrow> Inl (NotSupported (''no debugger backend for target '' @ shown (dt_file_type t) a @ '': '' @ reason))
           | Inr b \<Rightarrow> Inr (b, a)))"

definition macos_debugger_helper_for_target :: "target_architecture \<Rightarrow> string + string" where
  "macos_debugger_helper_for_target a =
     (case a of
        Aarch64 \<Rightarrow> Inr MACOS_ARM64_DEBUGGER_HELPER
      | X86 \<Rightarrow> Inr MACOS_X86_DEBUGGER_HELPER
      | X86_64 \<Rightarrow> Inr MACOS_X86_DEBUGGER_HELPER
      | Arm \<Rightarrow> Inl ''32-bit ARM macOS debugging is unsupported'')"

section \<open>The runtime\<close>

definition debugger_error :: "string \<Rightarrow> tool_error" where
  "debugger_error e = IdaError (''IDA debugger operation failed: '' @ e)"

definition start_error :: "string \<Rightarrow> bool \<Rightarrow> tool_error" where
  "start_error e session_retained =
     (if session_retained then DebuggerStartRetained (display (debugger_error e)) else debugger_error e)"

definition ensure_start_allowed :: "debugger_runtime \<Rightarrow> tool_error + unit" where
  "ensure_start_allowed rt =
     (if rt_session rt \<noteq> None
      then Inl (InvalidParams ''a debugger session is already active; call debug_stop before starting another'')
      else Inr ())"

definition session_kind :: "debugger_runtime \<Rightarrow> tool_error + debug_session_kind" where
  "session_kind rt =
     (case rt_session rt of
        Some k \<Rightarrow> Inr k
      | None \<Rightarrow> Inl (InvalidParams ''no active debugger session; call debug_launch or debug_attach first''))"

definition stop_helper :: "debugger_runtime \<Rightarrow> debugger_runtime" where
  "stop_helper rt = rt\<lparr>rt_helper := None\<rparr>"

definition clear_session :: "debugger_runtime \<Rightarrow> debugger_runtime" where
  "clear_session rt = stop_helper (rt\<lparr>rt_session := None, rt_backend_loaded := False\<rparr>)"

definition retain_session_after_start_error ::
  "debugger_runtime \<Rightarrow> debug_session_kind \<Rightarrow> process_state \<Rightarrow> bool \<times> debugger_runtime" where
  "retain_session_after_start_error rt k st =
     (let retained = (st \<noteq> NoProcess)
      in (retained, if retained \<and> rt_session rt = None then rt\<lparr>rt_session := Some k\<rparr> else rt))"

definition spawn_macos_helper :: "debug_sdk \<Rightarrow> string \<Rightarrow> debugger_runtime \<Rightarrow> (tool_error + nat) \<times> debugger_runtime" where
  "spawn_macos_helper sdk helper_name rt =
     (case ds_helper_path sdk of
        None \<Rightarrow> (Inl (InvalidParams (''cannot find signed macOS debugger helper '' @ helper_name
                        @ ''; set IDADIR to the IDA 9.5 installation directory'')), rt)
      | Some path \<Rightarrow>
          (case (ds_helper_bind sdk, ds_helper_port sdk) of
             (Some e, _) \<Rightarrow> (Inl (IdaError (''failed to reserve debugger loopback port: '' @ e)), rt)
           | (None, Inl e) \<Rightarrow> (Inl (IdaError (''failed to read debugger loopback port: '' @ e)), rt)
           | (None, Inr port) \<Rightarrow>
               (case ds_helper_spawn sdk of
                  Some e \<Rightarrow>
                    (Inl (IdaError (''failed to start IDA's signed loopback debugger helper '' @ path @ '': '' @ e)), rt)
                | None \<Rightarrow>
                    (case ds_helper_early sdk of
                       Inl e \<Rightarrow> (Inl (IdaError (''failed to inspect signed macOS debugger helper: '' @ e)),
                                 rt\<lparr>rt_helper := Some \<lparr>mh_port = port, mh_name = helper_name\<rparr>\<rparr>)
                     | Inr (Some status) \<Rightarrow>
                         (Inl (IdaError (''IDA's signed macOS debugger helper exited during startup: '' @ status)),
                          rt\<lparr>rt_helper := None\<rparr>)
                     | Inr None \<Rightarrow> (Inr port, rt\<lparr>rt_helper := Some \<lparr>mh_port = port, mh_name = helper_name\<rparr>\<rparr>)))))"

definition matching_helper :: "string \<Rightarrow> debugger_runtime \<Rightarrow> debugger_runtime" where
  "matching_helper helper_name rt =
     (case rt_helper rt of
        Some h \<Rightarrow> if mh_name h \<noteq> helper_name then (stop_helper rt)\<lparr>rt_backend_loaded := False\<rparr> else rt
      | None \<Rightarrow> rt)"

definition ensure_macos_helper :: "debug_sdk \<Rightarrow> string \<Rightarrow> debugger_runtime \<Rightarrow> (tool_error + nat) \<times> debugger_runtime" where
  "ensure_macos_helper sdk helper_name rt0 =
     (let rt = matching_helper helper_name rt0
      in case rt_helper rt of
           None \<Rightarrow> spawn_macos_helper sdk helper_name rt
         | Some h \<Rightarrow>
             (case ds_helper_exited sdk of
                Inl e \<Rightarrow> (Inl (IdaError (''failed to inspect signed macOS debugger helper: '' @ e)), rt)
              | Inr exited \<Rightarrow>
                  if exited then spawn_macos_helper sdk helper_name (rt\<lparr>rt_helper := None, rt_backend_loaded := False\<rparr>)
                  else (Inr (mh_port h), rt)))"

definition load_backend :: "debug_sdk \<Rightarrow> string \<Rightarrow> debugger_runtime \<Rightarrow> (tool_error + string) \<times> debugger_runtime" where
  "load_backend sdk backend rt =
     (if rt_backend_loaded rt then (Inr backend, rt)
      else case ds_load sdk of
        Some e \<Rightarrow> (Inl (debugger_error e), rt)
      | None \<Rightarrow> (Inr backend, rt\<lparr>rt_backend_loaded := True\<rparr>))"

definition ensure_backend ::
  "(file_type \<Rightarrow> target_architecture \<Rightarrow> string) \<Rightarrow> (target_architecture \<Rightarrow> string) \<Rightarrow> platform \<Rightarrow> debug_sdk \<Rightarrow> debug_target
     \<Rightarrow> debugger_runtime \<Rightarrow> (tool_error + string) \<times> debugger_runtime" where
  "ensure_backend shown shown_arch pf sdk t rt =
     (case debugger_backend shown pf t of
        Inl e \<Rightarrow> (Inl e, rt)
      | Inr (backend, a) \<Rightarrow>
          (case pf of
             MacOS \<Rightarrow>
               (case macos_debugger_helper_for_target a of
                  Inl reason \<Rightarrow>
                    (Inl (NotSupported (''no signed macOS debugger helper for target '' @ shown_arch a @ '': '' @ reason)), rt)
                | Inr helper_name \<Rightarrow>
                    (case ensure_macos_helper sdk helper_name rt of
                       (Inl e, rt1) \<Rightarrow> (Inl e, rt1)
                     | (Inr _, rt1) \<Rightarrow> load_backend sdk backend rt1))
           | OtherPlatform \<Rightarrow> (Inl (InvalidParams ''debugger support is unavailable on this platform''), rt)
           | _ \<Rightarrow> load_backend sdk backend rt))"

definition close_session :: "debug_sdk \<Rightarrow> bool \<Rightarrow> debugger_runtime \<Rightarrow> (tool_error + unit) \<times> debugger_runtime" where
  "close_session sdk database_open rt =
     (if \<not> database_open then (Inr (), clear_session rt)
      else if rt_session rt \<noteq> None \<and> ds_state sdk = NoProcess then (Inr (), clear_session rt)
      else case (rt_session rt, ds_teardown sdk) of
        (Some _, Inl e) \<Rightarrow> (Inl (DebuggerTeardown e), rt)
      | _ \<Rightarrow> (Inr (), clear_session rt))"

section \<open>The tools\<close>

record debug_reply =
  dr_status :: string
  dr_backend :: string
  dr_event_code :: "int option"
  dr_action :: "string option"
  dr_session_retained :: "bool option"
  dr_already_stopped :: bool

definition validate_timeout :: "u32 \<Rightarrow> tool_error + unit" where
  "validate_timeout timeout_seconds =
     (if timeout_seconds = 0 \<or> DEBUG_EVENT_TIMEOUT_MAX_SECS < unat timeout_seconds
      then Inl (InvalidParams (''debugger timeout must be between 1 and '' @ show_nat DEBUG_EVENT_TIMEOUT_MAX_SECS @ '' seconds''))
      else Inr ())"

definition macos_authorization_failure :: "string \<Rightarrow> bool" where
  "macos_authorization_failure text =
     (let m = to_ascii_lowercase (trim text);
          outcome = (str_contains ''denied'' m \<or> str_contains ''failed'' m \<or> str_contains ''required'' m
                     \<or> str_contains ''cancelled'' m \<or> str_contains ''canceled'' m)
      in str_contains ''task_for_pid'' m \<or> str_contains ''take control'' m
         \<or> str_contains ''authorization'' m \<and> outcome
         \<or> m \<in> set [''debug launch was cancelled'', ''debug launch was canceled'',
                     ''debug attach was cancelled'', ''debug attach was canceled''])"

record debug_env =
  de_shown :: "file_type \<Rightarrow> target_architecture \<Rightarrow> string"
  de_shown_arch :: "target_architecture \<Rightarrow> string"
  de_platform :: platform
  de_sdk :: debug_sdk

definition start_debug_session ::
  "debug_env \<Rightarrow> debug_target option \<Rightarrow> debug_session_kind \<Rightarrow> u32 \<Rightarrow> debugger_runtime
     \<Rightarrow> (tool_error + debug_reply) \<times> debugger_runtime" where
  "start_debug_session env idb k timeout_seconds rt =
     (case validate_timeout timeout_seconds of
        Inl e \<Rightarrow> (Inl e, rt)
      | Inr _ \<Rightarrow>
          (case idb of
             None \<Rightarrow> (Inl NoDatabaseOpen, rt)
           | Some t \<Rightarrow>
               (case ensure_start_allowed rt of
                  Inl e \<Rightarrow> (Inl e, rt)
                | Inr _ \<Rightarrow>
                    (case ensure_backend (de_shown env) (de_shown_arch env) (de_platform env) (de_sdk env) t rt of
                       (Inl e, rt1) \<Rightarrow> (Inl e, rt1)
                     | (Inr backend, rt1) \<Rightarrow>
                         (case ds_start (de_sdk env) of
                            Inr event_code \<Rightarrow>
                              (Inr \<lparr>dr_status = ''ready'', dr_backend = backend, dr_event_code = Some event_code, dr_action = None,
                                    dr_session_retained = Some True, dr_already_stopped = False\<rparr>,
                               rt1\<lparr>rt_session := Some k\<rparr>)
                          | Inl e \<Rightarrow>
                              (case retain_session_after_start_error rt1 k (ds_state (de_sdk env)) of
                                 (retained, rt2) \<Rightarrow>
                                   if de_platform env = MacOS \<and> macos_authorization_failure e
                                   then (Inr \<lparr>dr_status = ''user_action_required'', dr_backend = backend, dr_event_code = None,
                                              dr_action = None, dr_session_retained = Some retained, dr_already_stopped = False\<rparr>, rt2)
                                   else (Inl (start_error e retained), rt2)))))))"

definition launch_session :: "debug_env \<Rightarrow> debug_target option \<Rightarrow> u32 \<Rightarrow> debugger_runtime \<Rightarrow> (tool_error + debug_reply) \<times> debugger_runtime" where
  "launch_session env idb timeout_seconds rt = start_debug_session env idb Launched timeout_seconds rt"

definition attach_session :: "debug_env \<Rightarrow> debug_target option \<Rightarrow> u32 \<Rightarrow> debugger_runtime \<Rightarrow> (tool_error + debug_reply) \<times> debugger_runtime" where
  "attach_session env idb timeout_seconds rt = start_debug_session env idb Attached timeout_seconds rt"

definition action_name :: "debug_stop_action \<Rightarrow> string" where
  "action_name a = (case a of StopAuto \<Rightarrow> ''auto'' | StopTerminate \<Rightarrow> ''terminate'' | StopDetach \<Rightarrow> ''detach'')"

definition resolved_action :: "debug_stop_action \<Rightarrow> debug_session_kind \<Rightarrow> debug_stop_action" where
  "resolved_action action k =
     (case action of StopAuto \<Rightarrow> (case k of Launched \<Rightarrow> StopTerminate | Attached \<Rightarrow> StopDetach) | _ \<Rightarrow> action)"

definition stop_session ::
  "debug_env \<Rightarrow> debug_target option \<Rightarrow> debug_stop_action \<Rightarrow> u32 \<Rightarrow> debugger_runtime \<Rightarrow> (tool_error + debug_reply) \<times> debugger_runtime" where
  "stop_session env idb action timeout_seconds rt =
     (case validate_timeout timeout_seconds of
        Inl e \<Rightarrow> (Inl e, rt)
      | Inr _ \<Rightarrow>
          (case idb of
             None \<Rightarrow> (Inl NoDatabaseOpen, rt)
           | Some t \<Rightarrow>
               (case session_kind rt of
                  Inl e \<Rightarrow> (Inl e, rt)
                | Inr k \<Rightarrow>
                    (let name = action_name (resolved_action action k)
                     in if ds_state (de_sdk env) = NoProcess
                        then (case debugger_backend (de_shown env) (de_platform env) t of
                                Inl e \<Rightarrow> (Inl e, rt)
                              | Inr (backend, _) \<Rightarrow>
                                  (Inr \<lparr>dr_status = ''ready'', dr_backend = backend, dr_event_code = Some 0, dr_action = Some name,
                                        dr_session_retained = None, dr_already_stopped = True\<rparr>, clear_session rt))
                        else (case ensure_backend (de_shown env) (de_shown_arch env) (de_platform env) (de_sdk env) t rt of
                                (Inl e, rt1) \<Rightarrow> (Inl e, rt1)
                              | (Inr backend, rt1) \<Rightarrow>
                                  (case ds_teardown (de_sdk env) of
                                     Inl e \<Rightarrow> (Inl (debugger_error e), rt1)
                                   | Inr event_code \<Rightarrow>
                                       (Inr \<lparr>dr_status = ''ready'', dr_backend = backend, dr_event_code = Some event_code,
                                             dr_action = Some name, dr_session_retained = None, dr_already_stopped = False\<rparr>,
                                        clear_session rt1)))))))"

text \<open>Listing the modules needs a session and may load the backend again; \<open>listed\<close> is the SDK's answer.\<close>

definition list_modules ::
  "debug_env \<Rightarrow> (string + 'm list) \<Rightarrow> debug_target option \<Rightarrow> debugger_runtime \<Rightarrow> (tool_error + string \<times> 'm list) \<times> debugger_runtime" where
  "list_modules env listed idb rt =
     (case idb of
        None \<Rightarrow> (Inl NoDatabaseOpen, rt)
      | Some t \<Rightarrow>
          (case session_kind rt of
             Inl e \<Rightarrow> (Inl e, rt)
           | Inr _ \<Rightarrow>
               (case ensure_backend (de_shown env) (de_shown_arch env) (de_platform env) (de_sdk env) t rt of
                  (Inl e, rt1) \<Rightarrow> (Inl e, rt1)
                | (Inr backend, rt1) \<Rightarrow>
                    (case listed of Inl e \<Rightarrow> (Inl (debugger_error e), rt1) | Inr ms \<Rightarrow> (Inr (backend, ms), rt1)))))"

section \<open>Ownership of the session\<close>

lemma spawn_macos_helper_session: "rt_session (snd (spawn_macos_helper sdk n rt)) = rt_session rt"
  by (simp add: spawn_macos_helper_def split: option.split sum.split)

lemma ensure_macos_helper_session: "rt_session (snd (ensure_macos_helper sdk n rt)) = rt_session rt"
  by (simp add: ensure_macos_helper_def matching_helper_def Let_def stop_helper_def spawn_macos_helper_session
      split: option.split sum.split)

lemma load_backend_session: "rt_session (snd (load_backend sdk b rt)) = rt_session rt"
  by (auto simp: load_backend_def split: option.splits)

lemma ensure_backend_session: "rt_session (snd (ensure_backend sh sa pf sdk t rt)) = rt_session rt"
proof -
  have "rt_session rt1 = rt_session rt" if "ensure_macos_helper sdk n rt = (x, rt1)" for n x rt1
    using ensure_macos_helper_session [of sdk n rt] that by simp
  then show ?thesis
    by (auto simp: ensure_backend_def load_backend_session split: sum.splits platform.splits prod.splits)
qed

lemma ensure_backend_session': "ensure_backend sh sa pf sdk t rt = (x, rt1) \<Longrightarrow> rt_session rt1 = rt_session rt"
  using ensure_backend_session [of sh sa pf sdk t rt] by simp

datatype debug_op = OpLaunch u32 | OpAttach u32 | OpStop debug_stop_action u32 | OpModules | OpClose

definition run_debug_op :: "debug_env \<Rightarrow> debug_target option \<Rightarrow> debug_op \<Rightarrow> debugger_runtime \<Rightarrow> debugger_runtime" where
  "run_debug_op env idb op rt =
     (case op of
        OpLaunch t \<Rightarrow> snd (launch_session env idb t rt)
      | OpAttach t \<Rightarrow> snd (attach_session env idb t rt)
      | OpStop a t \<Rightarrow> snd (stop_session env idb a t rt)
      | OpModules \<Rightarrow> snd (list_modules env (Inr ([] :: unit list)) idb rt)
      | OpClose \<Rightarrow> snd (close_session (de_sdk env) (idb \<noteq> None) rt))"

text \<open>What IDA has to answer before a session may be forgotten.\<close>

definition session_over :: "debug_env \<Rightarrow> bool" where
  "session_over env \<longleftrightarrow> ds_state (de_sdk env) = NoProcess \<or> (\<exists>c. ds_teardown (de_sdk env) = Inr c)"

lemma start_keeps_session:
  "rt_session rt = Some k \<Longrightarrow> rt_session (snd (start_debug_session env idb k' t rt)) = Some k"
  by (auto simp: start_debug_session_def ensure_start_allowed_def split: sum.splits option.splits)

lemma stop_keeps_session:
  assumes "rt_session rt = Some k" "rt_session (snd (stop_session env idb a t rt)) \<noteq> Some k"
  shows "session_over env"
  using assms
  by (auto simp: stop_session_def session_over_def Let_def clear_session_def stop_helper_def
      split: sum.splits option.splits if_splits prod.splits dest!: ensure_backend_session')

lemma modules_keep_session:
  "rt_session rt = Some k \<Longrightarrow> rt_session (snd (list_modules env listed idb rt)) = Some k"
  by (auto simp: list_modules_def split: sum.splits option.splits prod.splits dest!: ensure_backend_session')

lemma close_keeps_session:
  assumes "rt_session rt = Some k" "rt_session (snd (close_session (de_sdk env) True rt)) \<noteq> Some k"
  shows "session_over env"
  using assms by (auto simp: close_session_def session_over_def split: if_splits option.splits sum.splits)

section \<open>Properties\<close>

text \<open>
  C23: While a database is open the worker forgets a debugger session only when IDA has
  confirmed its end: no debugger operation and no close of the database drops an owned session
  unless IDA reports that there is no process or that a termination or detach succeeded.
  Without a database no debugger operation drops it either; only the close does, which
  happens to a session whose teardown failed while a crash discarded its database.
\<close>

theorem debug_session_kept:
  assumes "rt_session rt = Some k" "idb \<noteq> None \<and> \<not> session_over env \<or> idb = None \<and> op \<noteq> OpClose"
  shows "rt_session (run_debug_op env idb op rt) = Some k"
proof (cases idb)
  case None
  then show ?thesis using assms
    by (cases op) (auto simp: run_debug_op_def launch_session_def attach_session_def start_keeps_session
        modules_keep_session stop_session_def Let_def split: sum.splits)
next
  case (Some target)
  then show ?thesis using assms stop_keeps_session [OF assms(1), of env idb] close_keeps_session [OF assms(1), of env]
    by (cases op) (auto simp: run_debug_op_def launch_session_def attach_session_def start_keeps_session modules_keep_session)
qed

text \<open>What the answer to a start says about the session.\<close>

fun reports_session :: "tool_error + debug_reply \<Rightarrow> bool" where
  "reports_session (Inr reply) = (dr_session_retained reply = Some True)"
| "reports_session (Inl e) = (case e of DebuggerStartRetained _ \<Rightarrow> True | _ \<Rightarrow> False)"

lemma ensure_backend_error:
  assumes "ensure_backend sh sa pf sdk t rt = (Inl e, rt1)"
  shows "e \<noteq> DebuggerStartRetained m"
proof -
  have "e \<noteq> DebuggerStartRetained m" if "spawn_macos_helper sdk n rt' = (Inl e, rt1)" for n rt' rt1
    using that by (simp add: spawn_macos_helper_def split: option.splits sum.splits) auto
  then have "e \<noteq> DebuggerStartRetained m" if "ensure_macos_helper sdk n rt = (Inl e, rt1)" for n rt1
    using that by (auto simp: ensure_macos_helper_def Let_def split: option.splits sum.splits if_splits)
  moreover have "e \<noteq> DebuggerStartRetained m" if "load_backend sdk b rt' = (Inl e, rt1)" for b rt' rt1
    using that by (auto simp: load_backend_def debugger_error_def split: option.splits if_splits)
  ultimately show ?thesis using assms
    by (auto simp: ensure_backend_def debugger_backend_def target_architecture_of_def
        split: sum.splits platform.splits prod.splits processor_family.splits if_splits)
qed

text \<open>
  After an attempt to launch or attach without a session, the worker owns a session of
  that kind exactly when the answer says so, as a result or as an error; in particular a
  failed start that left a process behind is reported as retained.
\<close>

theorem debug_start_reported:
  assumes "rt_session rt = None" "start_debug_session env idb k timeout_seconds rt = (r, rt')"
  shows "rt_session rt' = (if reports_session r then Some k else None)"
proof (cases "\<exists>t. idb = Some t \<and> validate_timeout timeout_seconds = Inr ()")
  case False
  then show ?thesis using assms
    by (auto simp: start_debug_session_def validate_timeout_def split: option.splits if_splits)
next
  case True
  then obtain t where idb: "idb = Some t" "validate_timeout timeout_seconds = Inr ()" by blast
  obtain b rt1 where backend:
    "ensure_backend (de_shown env) (de_shown_arch env) (de_platform env) (de_sdk env) t rt = (b, rt1)" by (cases "ensure_backend (de_shown env) (de_shown_arch env) (de_platform env) (de_sdk env) t rt")
  have none: "rt_session rt1 = None" using ensure_backend_session' [OF backend] assms(1) by simp
  show ?thesis
  proof (cases b)
    case (Inl e)
    then have "\<not> reports_session (Inl e)" using ensure_backend_error [OF backend [unfolded Inl]]
      by (auto split: tool_error.split)
    then show ?thesis using assms idb backend none Inl by (auto simp: start_debug_session_def ensure_start_allowed_def)
  next
    case (Inr backend_name)
    then show ?thesis using assms idb backend none
      by (auto simp: start_debug_session_def ensure_start_allowed_def retain_session_after_start_error_def start_error_def
          debugger_error_def Let_def split: sum.splits if_splits)
  qed
qed

text \<open>A target on Linux whose process keeps running when it cannot be stopped.\<close>

definition demo_target :: debug_target where
  "demo_target = \<lparr>dt_family = Family386, dt_is_64bit = True, dt_file_type = ELF\<rparr>"

definition demo_env :: debug_env where
  "demo_env = \<lparr>de_shown = (\<lambda>_ _. []), de_shown_arch = (\<lambda>_. []), de_platform = Linux,
     de_sdk = \<lparr>ds_state = Running, ds_load = None, ds_start = Inl ''event timeout'', ds_teardown = Inl ''timeout'',
       ds_helper_exited = Inr False, ds_helper_path = None, ds_helper_bind = None, ds_helper_port = Inl [],
       ds_helper_spawn = None, ds_helper_early = Inr None\<rparr>\<rparr>"

theorem debug_session_kept_witness:
  "rt_session (run_debug_op demo_env (Some demo_target) OpClose \<lparr>rt_backend_loaded = True, rt_session = Some Launched, rt_helper = None\<rparr>)
   = Some Launched"
  by (rule debug_session_kept) (simp_all add: session_over_def demo_env_def)

theorem debug_start_reported_witness:
  "rt_session (snd (start_debug_session demo_env (Some demo_target) Launched 30
     \<lparr>rt_backend_loaded = False, rt_session = None, rt_helper = None\<rparr>)) = Some Launched"
proof -
  let ?rt = "\<lparr>rt_backend_loaded = False, rt_session = None, rt_helper = None\<rparr>"
  have "start_debug_session demo_env (Some demo_target) Launched 30 ?rt
      = (Inl (start_error ''event timeout'' True), ?rt\<lparr>rt_backend_loaded := True, rt_session := Some Launched\<rparr>)"
    by (simp add: start_debug_session_def validate_timeout_def DEBUG_EVENT_TIMEOUT_MAX_SECS_def ensure_start_allowed_def
        ensure_backend_def debugger_backend_def target_architecture_of_def debugger_backend_for_target_def demo_target_def
        demo_env_def load_backend_def retain_session_after_start_error_def)
  from debug_start_reported [OF _ this] this show ?thesis by (simp add: start_error_def)
qed

end
