(* ===== verification/Ida_Worker.thy ===== *)
theory Ida_Worker
  imports Db_Lock Debugger
begin

text \<open>
  \<open>src/src/ida/request.rs\<close>, \<open>src/src/crash_guard.rs\<close>, the receiving half of
  \<open>src/src/ida/worker.rs\<close> and the loop of \<open>src/src/ida/loop_impl.rs\<close>: requests are queued to
  one thread that owns the open database, its lock file, its generation number and the
  debugger session. What the native calls answer is an argument of a round of the loop.
\<close>

section \<open>Admission of side effects\<close>

datatype effect_state = SIDE_EFFECT_QUEUED | SIDE_EFFECT_STARTED | SIDE_EFFECT_CANCELLED

definition start_effect :: "effect_state \<Rightarrow> (tool_error + unit) \<times> effect_state" where
  "start_effect a =
     (if a = SIDE_EFFECT_QUEUED then (Inr (), SIDE_EFFECT_STARTED)
      else (Inl (Cancelled ''request expired while queued; no side effects were started''), a))"

definition cancel_if_queued :: "effect_state \<Rightarrow> bool \<times> effect_state" where
  "cancel_if_queued a = (if a = SIDE_EFFECT_QUEUED then (True, SIDE_EFFECT_CANCELLED) else (False, a))"

definition DEFAULT_TIMEOUT_SECS :: u64 where "DEFAULT_TIMEOUT_SECS = 120"
definition MAX_TIMEOUT_SECS :: u64 where "MAX_TIMEOUT_SECS = 600"
definition SUPERVISED_TIMEOUT_SECS :: u64 where "SUPERVISED_TIMEOUT_SECS = 60 * 60 * 24 * 365"

definition clamped_timeout :: "bool \<Rightarrow> u64 option \<Rightarrow> u64" where
  "clamped_timeout supervised timeout_secs =
     (if supervised then SUPERVISED_TIMEOUT_SECS
      else min (case timeout_secs of Some t \<Rightarrow> t | None \<Rightarrow> DEFAULT_TIMEOUT_SECS) MAX_TIMEOUT_SECS)"

datatype send_result = SendOk | SendFull | SendDisconnected

definition worker_try_send :: "send_result \<Rightarrow> tool_error + unit" where
  "worker_try_send r = (case r of SendOk \<Rightarrow> Inr () | SendFull \<Rightarrow> Inl Busy | SendDisconnected \<Rightarrow> Inl WorkerClosed)"

text \<open>The attempts with the time since the first one; a queue that stays full without a limit gives no result.\<close>

fun send_with_retry :: "nat option \<Rightarrow> (send_result \<times> nat) list \<Rightarrow> (tool_error + unit) option" where
  "send_with_retry max_wait [] = None"
| "send_with_retry max_wait ((SendOk, _) # _) = Some (Inr ())"
| "send_with_retry max_wait ((SendDisconnected, _) # _) = Some (Inl WorkerClosed)"
| "send_with_retry max_wait ((SendFull, elapsed) # rest) =
     (if (\<exists>w. max_wait = Some w \<and> w \<le> elapsed) then Some (Inl Busy) else send_with_retry max_wait rest)"

text \<open>
  One request with a side effect: where it is in the worker, whether the native operation was
  started, the reply in the channel, and what its caller is doing. \<open>Patient\<close> is a caller whose
  timeout fired after the start and who waits for the real result.
\<close>

datatype effect_place = InQueue | InProgress | Settled
datatype 'v caller = Waiting | Patient | TimedOut | Answered "tool_error + 'v" | Dropped

record 'v effect_call =
  ec_admission :: effect_state
  ec_place :: effect_place
  ec_started :: bool
  ec_reply :: "(tool_error + 'v) option"
  ec_caller :: "'v caller"

inductive effect_step :: "'v effect_call \<Rightarrow> 'v effect_call \<Rightarrow> bool" where
  admit: "ec_place c = InQueue \<Longrightarrow> start_effect (ec_admission c) = (Inr (), a) \<Longrightarrow>
     effect_step c (c\<lparr>ec_admission := a, ec_place := InProgress, ec_started := True\<rparr>)"
| reject: "ec_place c = InQueue \<Longrightarrow> start_effect (ec_admission c) = (Inl e, a) \<Longrightarrow>
     effect_step c (c\<lparr>ec_admission := a, ec_place := Settled, ec_reply := Some (Inl e)\<rparr>)"
| complete: "ec_place c = InProgress \<Longrightarrow> effect_step c (c\<lparr>ec_place := Settled, ec_reply := Some r\<rparr>)"
| worker_gone: "ec_place c \<noteq> Settled \<Longrightarrow> effect_step c (c\<lparr>ec_place := Settled, ec_reply := Some (Inl WorkerClosed)\<rparr>)"
| answer: "ec_caller c \<in> {Waiting, Patient} \<Longrightarrow> ec_reply c = Some r \<Longrightarrow>
     effect_step c (c\<lparr>ec_caller := Answered r, ec_admission := snd (cancel_if_queued (ec_admission c))\<rparr>)"
| timeout_queued: "ec_caller c = Waiting \<Longrightarrow> cancel_if_queued (ec_admission c) = (True, a) \<Longrightarrow>
     effect_step c (c\<lparr>ec_caller := TimedOut, ec_admission := a\<rparr>)"
| timeout_started: "ec_caller c = Waiting \<Longrightarrow> cancel_if_queued (ec_admission c) = (False, a) \<Longrightarrow>
     effect_step c (c\<lparr>ec_caller := Patient\<rparr>)"
| abandon: "ec_caller c \<in> {Waiting, Patient} \<Longrightarrow>
     effect_step c (c\<lparr>ec_caller := Dropped, ec_admission := snd (cancel_if_queued (ec_admission c))\<rparr>)"

definition effect_new :: "'v effect_call \<Rightarrow> bool" where
  "effect_new c \<longleftrightarrow> c = \<lparr>ec_admission = SIDE_EFFECT_QUEUED, ec_place = InQueue, ec_started = False, ec_reply = None, ec_caller = Waiting\<rparr>"

text \<open>\<open>recv_side_effect\<close> as the caller sees it: the reply, or the timeout it reports.\<close>

definition recv_side_effect :: "bool \<Rightarrow> u64 option \<Rightarrow> 'v caller \<Rightarrow> (tool_error + 'v) option" where
  "recv_side_effect supervised timeout_secs c =
     (case c of
        TimedOut \<Rightarrow> Some (Inl (Timeout (clamped_timeout supervised timeout_secs)))
      | Answered r \<Rightarrow> Some r
      | _ \<Rightarrow> None)"

definition effect_inv :: "'v effect_call \<Rightarrow> bool" where
  "effect_inv c \<longleftrightarrow>
     (ec_started c \<longrightarrow> ec_admission c = SIDE_EFFECT_STARTED)
     \<and> (ec_admission c = SIDE_EFFECT_STARTED \<longrightarrow> ec_started c)
     \<and> (ec_place c = InProgress \<longrightarrow> ec_started c)
     \<and> (ec_place c = InQueue \<longrightarrow> \<not> ec_started c)
     \<and> (ec_caller c \<in> {TimedOut, Dropped} \<longrightarrow> ec_admission c \<noteq> SIDE_EFFECT_QUEUED)
     \<and> (ec_caller c = TimedOut \<longrightarrow> ec_admission c = SIDE_EFFECT_CANCELLED)
     \<and> (ec_caller c \<in> {Waiting, Patient} \<longrightarrow> ec_admission c \<noteq> SIDE_EFFECT_CANCELLED)
     \<and> (ec_reply c \<noteq> None \<longleftrightarrow> ec_place c = Settled)
     \<and> (\<forall>r. ec_caller c = Answered r \<longrightarrow> ec_reply c = Some r)
     \<and> (ec_caller c = Patient \<longrightarrow> ec_admission c = SIDE_EFFECT_STARTED)"

lemma effect_inv_step:
  assumes "effect_inv c" "effect_step c d"
  shows "effect_inv d"
  using assms(2)
proof cases
  case (admit a)
  then show ?thesis using assms(1) by (auto simp: effect_inv_def start_effect_def split: if_splits)
next
  case (reject e a)
  then show ?thesis using assms(1) by (auto simp: effect_inv_def start_effect_def split: if_splits)
next
  case (answer r)
  then show ?thesis using assms(1) by (cases "ec_admission c"; cases "ec_caller c") (simp_all add: effect_inv_def cancel_if_queued_def)
next
  case (timeout_queued a)
  then show ?thesis using assms(1) by (auto simp: effect_inv_def cancel_if_queued_def split: if_splits)
next
  case (timeout_started a)
  then show ?thesis using assms(1) by (cases "ec_admission c"; cases "ec_caller c") (simp_all add: effect_inv_def cancel_if_queued_def)
next
  case abandon
  then show ?thesis using assms(1) by (cases "ec_admission c"; cases "ec_caller c") (simp_all add: effect_inv_def cancel_if_queued_def)
next
  case (complete r)
  then show ?thesis using assms(1) by (cases "ec_caller c") (auto simp add: effect_inv_def)
next
  case worker_gone
  then show ?thesis using assms(1) by (cases "ec_caller c") (auto simp add: effect_inv_def)
qed

interpretation side_effect: invariant_system effect_new effect_step effect_inv
  by unfold_locales (simp add: effect_new_def effect_inv_def, rule effect_inv_step)

section \<open>Requests\<close>

text \<open>
  The requests with an arm of their own, and the others by the name of their variant. What an
  arm of the second kind does before the native operation is a row of a table: whether it
  claims the side effect, checks the generation and checks the cancellation token, and the
  name under which it runs in the crash guard.
\<close>

datatype ida_request = RqOpen | RqClose | RqCloseIfGeneration u64 | RqNative string | RqShutdown

record request_arm =
  ra_admission :: bool
  ra_generation :: bool
  ra_cancel :: bool
  ra_guard :: "string option"

definition arm :: "bool \<Rightarrow> bool \<Rightarrow> bool \<Rightarrow> string option \<Rightarrow> request_arm" where
  "arm a g c op = \<lparr>ra_admission = a, ra_generation = g, ra_cancel = c, ra_guard = op\<rparr>"

definition native_arms :: "(string \<times> request_arm) list" where
  "native_arms = [
     (''LoadDebugInfo'', arm False False False (Some ''handle_load_debug_info'')),
     (''DebugLaunch'', arm True False False (Some ''debug_launch'')),
     (''DebugAttach'', arm True False False (Some ''debug_attach'')),
     (''DebugModules'', arm False False False (Some ''debug_modules'')),
     (''DebugStop'', arm True False False (Some ''debug_stop'')),
     (''AnalysisStatus'', arm False True False (Some ''handle_analysis_status'')),
     (''DscLoadImage'', arm True True False (Some ''handle_dsc_load_image'')),
     (''DscLoadRegion'', arm True False False (Some ''handle_dsc_load_region'')),
     (''ListFunctions'', arm False False False None),
     (''ResolveFunction'', arm False False False (Some ''handle_resolve_function'')),
     (''DisasmByName'', arm False False False (Some ''handle_disasm_by_name'')),
     (''Disasm'', arm False False False (Some ''handle_disasm'')),
     (''RenderRange'', arm False False False (Some ''handle_render_range'')),
     (''Decompile'', arm False False False (Some ''handle_decompile'')),
     (''ListLvars'', arm False False False (Some ''handle_list_lvars'')),
     (''RenameLvar'', arm True False False (Some ''handle_rename_lvar'')),
     (''SetLvarType'', arm True False False (Some ''handle_set_lvar_type'')),
     (''ListPseudocodeComments'', arm False False False (Some ''handle_list_pseudocode_comments'')),
     (''SetPseudocodeComment'', arm True False False (Some ''handle_set_pseudocode_comment'')),
     (''Segments'', arm False False False (Some ''handle_segments'')),
     (''Strings'', arm False False False (Some ''handle_strings'')),
     (''LocalTypes'', arm False False False (Some ''handle_local_types'')),
     (''DeclareType'', arm False False False (Some ''handle_declare_type'')),
     (''ApplyTypes'', arm False False False (Some ''handle_apply_types'')),
     (''InferTypes'', arm False False False (Some ''handle_infer_types'')),
     (''AddrInfo'', arm False False False None),
     (''FunctionAt'', arm False False False None),
     (''DisasmFunctionAt'', arm False False False None),
     (''DeclareStack'', arm False False False (Some ''handle_declare_stack'')),
     (''DeleteStack'', arm False False False (Some ''handle_delete_stack'')),
     (''StackFrame'', arm False False False (Some ''handle_stack_frame'')),
     (''Structs'', arm False False False (Some ''handle_structs'')),
     (''StructInfo'', arm False False False (Some ''handle_struct_info'')),
     (''ReadStruct'', arm False False False (Some ''handle_read_struct'')),
     (''XRefsTo'', arm False False False (Some ''handle_xrefs_to'')),
     (''XRefsFrom'', arm False False False (Some ''handle_xrefs_from'')),
     (''XRefsToField'', arm False False False (Some ''handle_xrefs_to_field'')),
     (''Imports'', arm False False False (Some ''handle_imports'')),
     (''Exports'', arm False False False (Some ''handle_exports'')),
     (''Entrypoints'', arm False False False (Some ''handle_entrypoints'')),
     (''LuminaLookup'', arm False False False (Some ''handle_lumina_lookup'')),
     (''LuminaApply'', arm False False False (Some ''handle_lumina_apply'')),
     (''GetBytes'', arm False False False (Some ''handle_get_bytes'')),
     (''SetComments'', arm False False False (Some ''handle_set_comments'')),
     (''Rename'', arm False False False (Some ''handle_rename'')),
     (''PatchBytes'', arm False False False (Some ''handle_patch_bytes'')),
     (''ListPatches'', arm False False False (Some ''handle_list_patches'')),
     (''PatchAsm'', arm False False False (Some ''handle_patch_asm'')),
     (''BasicBlocks'', arm False False False (Some ''handle_basic_blocks'')),
     (''Callees'', arm False False False (Some ''handle_callees'')),
     (''Callers'', arm False False False (Some ''handle_callers'')),
     (''IdbMeta'', arm False False False (Some ''handle_idb_meta'')),
     (''LookupFunctions'', arm False False False (Some ''handle_lookup_funcs'')),
     (''ListGlobals'', arm False False False (Some ''handle_list_globals'')),
     (''AnalyzeStrings'', arm False False False (Some ''handle_analyze_strings'')),
     (''FindString'', arm False False False (Some ''handle_find_string'')),
     (''XrefsToString'', arm False False False (Some ''handle_xrefs_to_string'')),
     (''AnalyzeFuncs'', arm True False True (Some ''handle_analyze_funcs'')),
     (''FindBytes'', arm False False False (Some ''handle_find_bytes'')),
     (''SearchText'', arm False False False (Some ''handle_search_text'')),
     (''SearchImm'', arm False False False (Some ''handle_search_imm'')),
     (''FindInsns'', arm False False False (Some ''handle_find_insns'')),
     (''FindInsnOperands'', arm False False False (Some ''handle_find_insn_operands'')),
     (''SaveDatabase'', arm False False False (Some ''handle_save_database'')),
     (''ReadInt'', arm False False False (Some ''handle_read_int'')),
     (''GetString'', arm False False False (Some ''handle_get_string'')),
     (''GetGlobalValue'', arm False False False (Some ''handle_get_global_value'')),
     (''FindPaths'', arm False False False (Some ''handle_find_paths'')),
     (''CallGraph'', arm False False False (Some ''handle_callgraph'')),
     (''XrefMatrix'', arm False False False (Some ''handle_xref_matrix'')),
     (''ExportFuncs'', arm False False False (Some ''handle_list_functions'')),
     (''PseudocodeAt'', arm False False False (Some ''handle_pseudocode_at'')),
     (''RunScript'', arm True False True (Some ''handle_run_script''))]"

definition arm_of :: "string \<Rightarrow> request_arm" where
  "arm_of n = (case map_of native_arms n of Some r \<Rightarrow> r | None \<Rightarrow> arm False False False None)"

text \<open>How the callers in \<open>worker.rs\<close> wait for the reply to such a request.\<close>

datatype wait_kind = WaitSideEffect | WaitReadOnly | WaitReply

definition caller_waits :: "(string \<times> wait_kind list) list" where
  "caller_waits = [
     (''LoadDebugInfo'', [WaitReply]),
     (''DebugLaunch'', [WaitSideEffect]),
     (''DebugAttach'', [WaitSideEffect]),
     (''DebugModules'', [WaitReadOnly]),
     (''DebugStop'', [WaitSideEffect]),
     (''AnalysisStatus'', [WaitReply]),
     (''DscLoadImage'', [WaitSideEffect]),
     (''DscLoadRegion'', [WaitSideEffect]),
     (''ListFunctions'', [WaitReadOnly]),
     (''ResolveFunction'', [WaitReply]),
     (''DisasmByName'', [WaitReply]),
     (''Disasm'', [WaitReply]),
     (''RenderRange'', [WaitReply]),
     (''Decompile'', [WaitReply]),
     (''ListLvars'', [WaitReadOnly]),
     (''RenameLvar'', [WaitSideEffect]),
     (''SetLvarType'', [WaitSideEffect]),
     (''ListPseudocodeComments'', [WaitReadOnly]),
     (''SetPseudocodeComment'', [WaitSideEffect]),
     (''Segments'', [WaitReply]),
     (''Strings'', [WaitReadOnly]),
     (''LocalTypes'', [WaitReadOnly]),
     (''DeclareType'', [WaitReply]),
     (''ApplyTypes'', [WaitReply]),
     (''InferTypes'', [WaitReply]),
     (''AddrInfo'', [WaitReply]),
     (''FunctionAt'', [WaitReply]),
     (''DisasmFunctionAt'', [WaitReply]),
     (''DeclareStack'', [WaitReply]),
     (''DeleteStack'', [WaitReply]),
     (''StackFrame'', [WaitReply]),
     (''Structs'', [WaitReadOnly]),
     (''StructInfo'', [WaitReply]),
     (''ReadStruct'', [WaitReply]),
     (''XRefsTo'', [WaitReadOnly]),
     (''XRefsFrom'', [WaitReadOnly]),
     (''XRefsToField'', [WaitReply]),
     (''Imports'', [WaitReply]),
     (''Exports'', [WaitReply]),
     (''Entrypoints'', [WaitReply]),
     (''LuminaLookup'', [WaitReadOnly]),
     (''LuminaApply'', [WaitReply]),
     (''GetBytes'', [WaitReply]),
     (''SetComments'', [WaitReply]),
     (''Rename'', [WaitReply]),
     (''PatchBytes'', [WaitReply]),
     (''ListPatches'', [WaitReply]),
     (''PatchAsm'', [WaitReply]),
     (''BasicBlocks'', [WaitReply]),
     (''Callees'', [WaitReply]),
     (''Callers'', [WaitReply]),
     (''IdbMeta'', [WaitReply]),
     (''LookupFunctions'', [WaitReply]),
     (''ListGlobals'', [WaitReadOnly]),
     (''AnalyzeStrings'', [WaitReadOnly]),
     (''FindString'', [WaitReadOnly]),
     (''XrefsToString'', [WaitReadOnly]),
     (''AnalyzeFuncs'', [WaitSideEffect, WaitReply]),
     (''FindBytes'', [WaitReadOnly]),
     (''SearchText'', [WaitReadOnly]),
     (''SearchImm'', [WaitReadOnly]),
     (''FindInsns'', [WaitReadOnly]),
     (''FindInsnOperands'', [WaitReadOnly]),
     (''SaveDatabase'', [WaitReply]),
     (''ReadInt'', [WaitReply]),
     (''GetString'', [WaitReply]),
     (''GetGlobalValue'', [WaitReply]),
     (''FindPaths'', [WaitReply]),
     (''CallGraph'', [WaitReply]),
     (''XrefMatrix'', [WaitReply]),
     (''ExportFuncs'', [WaitReply]),
     (''PseudocodeAt'', [WaitReply]),
     (''RunScript'', [WaitSideEffect, WaitReply])]"

definition has_cancel_token :: "ida_request \<Rightarrow> bool" where
  "has_cancel_token k =
     (case k of RqOpen \<Rightarrow> True | RqNative n \<Rightarrow> n = ''AnalyzeFuncs'' \<or> n = ''RunScript'' | _ \<Rightarrow> False)"

record request =
  rq_kind :: ida_request
  rq_admission :: effect_state
  rq_expected :: "u64 option"
  rq_cancelled :: bool

section \<open>The crash guard\<close>

record crash_guard =
  cg_crashed :: "string option"
  cg_signal :: bool

text \<open>\<open>sig\<close> is the signal that \<open>crash_guard_call\<close> caught, 0 for none.\<close>

definition guarded :: "string \<Rightarrow> nat \<Rightarrow> (tool_error + 'v) \<Rightarrow> tool_error + 'v" where
  "guarded operation sig result =
     (if sig = 0 then result
      else Inl (SdkCrashed (operation @ '' crashed inside the IDA SDK (signal '' @ show_nat sig @ ''). The database state can no longer be trusted, so it is closed without saving and changes since the last save_idb are lost. Call open_idb again.'')))"

definition is_crash :: "tool_error + 'v \<Rightarrow> bool" where
  "is_crash r = (case r of Inl (SdkCrashed _) \<Rightarrow> True | _ \<Rightarrow> False)"

definition run_guarded :: "string \<Rightarrow> nat \<Rightarrow> (tool_error + 'v) \<Rightarrow> crash_guard \<Rightarrow> (tool_error + 'v) \<times> crash_guard" where
  "run_guarded operation sig result g =
     (let r = guarded operation sig result
      in (r, if is_crash r then \<lparr>cg_crashed = Some operation, cg_signal = True\<rparr> else g))"

definition take_crashed :: "crash_guard \<Rightarrow> string option \<times> crash_guard" where
  "take_crashed g = (cg_crashed g, g\<lparr>cg_crashed := None\<rparr>)"

definition take_signal :: "crash_guard \<Rightarrow> bool \<times> crash_guard" where
  "take_signal g = (cg_signal g, g\<lparr>cg_signal := False\<rparr>)"

section \<open>The loop\<close>

text \<open>
  A database object is a number. The trace records what happened to databases: opened with a
  generation, a caught crash (with the database that was open), saved by request, and closed, saving it or not.
\<close>

datatype loop_event = EvOpened nat u64 | EvCrashed "nat option" string | EvSaved nat | EvClosed nat bool

record loop_state =
  lp_idb :: "nat option"
  lp_path :: "string option"
  lp_generation :: "u64 option"
  lp_next_generation :: u64
  lp_lock_file :: "inode option"
  lp_lock_path :: "string option"
  lp_initialized :: bool
  lp_mismatch :: "string option"
  lp_debugger :: debugger_runtime
  lp_guard :: crash_guard
  lp_os :: os_state
  lp_trace :: "loop_event list"

text \<open>
  The answers of one round: initialising the library, opening (a database that is open
  already is only compared, \<open>nt_same\<close>; a new one comes with its lock file), the native
  operation with the signal it ends in, the debugger, and closing a discarded database.
\<close>

record 'v native =
  nt_init :: "string + string option"
  nt_same :: "tool_error + string"
  nt_open :: "tool_error + nat \<times> string \<times> inode \<times> string"
  nt_open_os :: os_state
  nt_result :: "tool_error + 'v"
  nt_signal :: nat
  nt_sdk :: debug_sdk
  nt_debugger :: debugger_runtime
  nt_discard_signal :: nat
  nt_faults :: os_faults

definition require_generation :: "u64 option \<Rightarrow> u64 option \<Rightarrow> tool_error + unit" where
  "require_generation expected current =
     (case expected of None \<Rightarrow> Inr () | Some g \<Rightarrow> if current = Some g then Inr () else Inl DatabaseReplaced)"

definition release_lock :: "pid \<Rightarrow> 'v native \<Rightarrow> loop_state \<Rightarrow> loop_state" where
  "release_lock me nt s =
     (case release_mcp_lock (nt_faults nt) me (lp_lock_file s) (lp_lock_path s) (lp_os s) of
        (lf, lpath, os) \<Rightarrow> s\<lparr>lp_lock_file := lf, lp_lock_path := lpath, lp_os := os\<rparr>)"

text \<open>Dropping the database closes it, with or without saving.\<close>

definition drop_idb :: "bool \<Rightarrow> loop_state \<Rightarrow> loop_state" where
  "drop_idb save s =
     (case lp_idb s of None \<Rightarrow> s | Some db \<Rightarrow> s\<lparr>lp_idb := None, lp_trace := lp_trace s @ [EvClosed db save]\<rparr>)"

definition discard_database_after_crash :: "'v native \<Rightarrow> loop_state \<Rightarrow> loop_state" where
  "discard_database_after_crash nt s =
     (let s1 = s\<lparr>lp_debugger := snd (close_session (nt_sdk nt) (lp_idb s \<noteq> None) (lp_debugger s))\<rparr>
      in case lp_idb s1 of
           None \<Rightarrow> s1
         | Some _ \<Rightarrow>
             (let s2 = drop_idb False s1;
                  (r, g) = run_guarded ''discard_database'' (nt_discard_signal nt) (Inr () :: tool_error + unit) (lp_guard s2)
              in s2\<lparr>lp_guard := snd (take_crashed g)\<rparr>))"

definition shutdown_cleanup :: "pid \<Rightarrow> 'v native \<Rightarrow> loop_state \<Rightarrow> loop_state" where
  "shutdown_cleanup me nt s =
     release_lock me nt (drop_idb True
       (s\<lparr>lp_debugger := snd (close_session (nt_sdk nt) (lp_idb s \<noteq> None) (lp_debugger s))\<rparr>))"

text \<open>The start of a round: a database on which a call crashed is closed without saving.\<close>

definition recover :: "pid \<Rightarrow> 'v native \<Rightarrow> loop_state \<Rightarrow> loop_state" where
  "recover me nt s =
     (case take_crashed (lp_guard s) of
        (None, _) \<Rightarrow> s
      | (Some _, g) \<Rightarrow>
          release_lock me nt ((discard_database_after_crash nt (s\<lparr>lp_guard := g\<rparr>))\<lparr>lp_path := None, lp_generation := None\<rparr>))"

datatype 'v reply = NoReply | ReplyError tool_error | ReplyOpened string u64 | ReplyClosed bool | ReplyValue 'v

definition reject_with_error :: "request \<Rightarrow> tool_error \<Rightarrow> 'v reply" where
  "reject_with_error rq err = (if rq_kind rq = RqShutdown then NoReply else ReplyError err)"

definition open_arm :: "pid \<Rightarrow> 'v native \<Rightarrow> loop_state \<Rightarrow> loop_state \<times> 'v reply" where
  "open_arm me nt s =
     (case lp_idb s of
        Some _ \<Rightarrow>
          (case nt_same nt of
             Inl e \<Rightarrow> (s, ReplyError e)
           | Inr path \<Rightarrow>
               (case lp_generation s of
                  Some g \<Rightarrow> (s, ReplyOpened path g)
                | None \<Rightarrow>
                    (case checked_add (lp_next_generation s) 1 of
                       None \<Rightarrow> (release_lock me nt ((drop_idb True s)\<lparr>lp_path := None\<rparr>), ReplyError (IdaError ''database generation counter exhausted''))
                     | Some n \<Rightarrow> (s\<lparr>lp_next_generation := n, lp_generation := Some n\<rparr>, ReplyOpened path n))))
      | None \<Rightarrow>
          (case nt_open nt of
             Inl e \<Rightarrow> (s\<lparr>lp_os := nt_open_os nt\<rparr>, ReplyError e)
           | Inr (db, path, lf, lpath) \<Rightarrow>
               (let s1 = s\<lparr>lp_idb := Some db, lp_lock_file := Some lf, lp_lock_path := Some lpath, lp_os := nt_open_os nt\<rparr>
                in case checked_add (lp_next_generation s) 1 of
                     None \<Rightarrow>
                       (release_lock me nt ((drop_idb True s1)\<lparr>lp_path := None\<rparr>),
                        ReplyError (IdaError ''database generation counter exhausted''))
                   | Some n \<Rightarrow>
                       (s1\<lparr>lp_next_generation := n, lp_generation := Some n, lp_path := Some path,
                           lp_trace := lp_trace s @ [EvOpened db n]\<rparr>, ReplyOpened path n))))"

definition close_arm :: "pid \<Rightarrow> 'v native \<Rightarrow> loop_state \<Rightarrow> loop_state \<times> 'v reply" where
  "close_arm me nt s =
     (case close_session (nt_sdk nt) (lp_idb s \<noteq> None) (lp_debugger s) of
        (Inl e, rt) \<Rightarrow> (s\<lparr>lp_debugger := rt\<rparr>, ReplyError e)
      | (Inr _, rt) \<Rightarrow>
          (release_lock me nt ((drop_idb True (s\<lparr>lp_debugger := rt\<rparr>))\<lparr>lp_path := None, lp_generation := None\<rparr>), ReplyClosed True))"

definition close_if_generation_arm :: "pid \<Rightarrow> 'v native \<Rightarrow> u64 \<Rightarrow> loop_state \<Rightarrow> loop_state \<times> 'v reply" where
  "close_if_generation_arm me nt g s = (if lp_generation s = Some g then close_arm me nt s else (s, ReplyClosed False))"

text \<open>
  The native operation, under the crash guard if the arm says so. The debugger tools leave
  the debugger in the state \<open>nt_debugger\<close>.
\<close>

definition run_operation :: "'v native \<Rightarrow> string \<Rightarrow> loop_state \<Rightarrow> (tool_error + 'v) \<times> loop_state" where
  "run_operation nt n s =
     (let (r, g) = (case ra_guard (arm_of n) of
                      Some op \<Rightarrow> run_guarded op (nt_signal nt) (nt_result nt) (lp_guard s)
                    | None \<Rightarrow> (nt_result nt, lp_guard s));
          rt = (if n \<in> set [''DebugLaunch'', ''DebugAttach'', ''DebugModules'', ''DebugStop''] then nt_debugger nt else lp_debugger s);
          saved = (if n = ''SaveDatabase'' \<and> \<not> isl r then (case lp_idb s of Some db \<Rightarrow> [EvSaved db] | None \<Rightarrow> []) else []);
          evs = (case ra_guard (arm_of n) of
                   Some op \<Rightarrow> if is_crash r then [EvCrashed (lp_idb s) op] else saved
                 | None \<Rightarrow> saved)
      in (r, s\<lparr>lp_guard := g, lp_debugger := rt, lp_trace := lp_trace s @ evs\<rparr>))"

text \<open>
  The other arms: the request claims its side effect, is checked against the generation and
  its cancellation token, and then the native operation runs, under the crash guard or not.
\<close>

definition native_arm :: "'v native \<Rightarrow> string \<Rightarrow> request \<Rightarrow> loop_state \<Rightarrow> loop_state \<times> 'v reply" where
  "native_arm nt n rq s =
     (let answer = (\<lambda>r. case r of Inl e \<Rightarrow> ReplyError e | Inr v \<Rightarrow> ReplyValue v)
      in case (if ra_admission (arm_of n) then fst (start_effect (rq_admission rq)) else Inr ()) of
           Inl e \<Rightarrow> (s, ReplyError e)
         | Inr _ \<Rightarrow>
             (case (if ra_generation (arm_of n) then require_generation (rq_expected rq) (lp_generation s) else Inr ()) of
                Inl e \<Rightarrow> (s, ReplyError e)
              | Inr _ \<Rightarrow>
                  if ra_cancel (arm_of n) \<and> rq_cancelled rq then (s, ReplyError (Cancelled ''Operation cancelled by client''))
                  else (case run_operation nt n s of (r, s') \<Rightarrow> (s', answer r))))"

text \<open>One round for a request. The flag says whether the loop goes on.\<close>

definition dispatch_request :: "pid \<Rightarrow> 'v native \<Rightarrow> request \<Rightarrow> loop_state \<Rightarrow> loop_state \<times> 'v reply \<times> bool" where
  "dispatch_request me nt rq s =
     (case lp_mismatch s of
        Some msg \<Rightarrow>
          if rq_kind rq = RqShutdown then (shutdown_cleanup me nt s, NoReply, False)
          else (s, reject_with_error rq (SdkVersionMismatch msg), True)
      | None \<Rightarrow>
          (case rq_kind rq of
             RqOpen \<Rightarrow>
               if rq_cancelled rq then (s, ReplyError (Cancelled ''Operation cancelled by client''), True)
               else (case open_arm me nt s of (s', r) \<Rightarrow> (s', r, True))
           | RqClose \<Rightarrow> (case close_arm me nt s of (s', r) \<Rightarrow> (s', r, True))
           | RqCloseIfGeneration g \<Rightarrow> (case close_if_generation_arm me nt g s of (s', r) \<Rightarrow> (s', r, True))
           | RqNative n \<Rightarrow> (case native_arm nt n rq s of (s', r) \<Rightarrow> (s', r, True))
           | RqShutdown \<Rightarrow> (shutdown_cleanup me nt s, NoReply, False)))"

definition loop_round :: "pid \<Rightarrow> 'v native \<Rightarrow> request \<Rightarrow> loop_state \<Rightarrow> loop_state \<times> 'v reply \<times> bool" where
  "loop_round me nt rq s0 =
     (let s = recover me nt s0
      in if lp_initialized s then dispatch_request me nt rq s
         else if has_cancel_token (rq_kind rq) \<and> rq_cancelled rq
           then (s, reject_with_error rq (Cancelled ''Operation cancelled by client''), True)
         else case nt_init nt of
           Inl err \<Rightarrow> (s, reject_with_error rq (IdaError (''failed to initialize IDA on the main thread: '' @ err)), True)
         | Inr mismatch \<Rightarrow> dispatch_request me nt rq (s\<lparr>lp_initialized := True, lp_mismatch := mismatch\<rparr>))"

text \<open>
  When every sender is gone the loop ends without a round: the locals are dropped, which
  closes an open database and saves it, and the lock file stays where it is.
\<close>

definition loop_end :: "pid \<Rightarrow> loop_state \<Rightarrow> loop_state" where
  "loop_end me s =
     (let s1 = drop_idb True s
      in case lp_lock_file s1 of None \<Rightarrow> s1 | Some i \<Rightarrow> s1\<lparr>lp_lock_file := None, lp_os := close_file me i (lp_os s1)\<rparr>)"

inductive loop_step :: "pid \<Rightarrow> loop_state \<Rightarrow> loop_state \<Rightarrow> bool" for me :: pid where
  round: "loop_round me (nt :: nat native) rq s = (s', rep, True) \<Longrightarrow> loop_step me s s'"

definition loop_start :: "loop_state \<Rightarrow> bool" where
  "loop_start s \<longleftrightarrow> lp_idb s = None \<and> lp_path s = None \<and> lp_generation s = None \<and> lp_next_generation s = 0
     \<and> lp_lock_file s = None \<and> lp_lock_path s = None \<and> cg_crashed (lp_guard s) = None \<and> lp_trace s = []"

section \<open>Invariants of the loop\<close>

text \<open>Whether the open database was hit by a crash, and whether a crashed one was ever saved.\<close>

fun trace_scan :: "loop_event \<Rightarrow> bool \<times> bool \<Rightarrow> bool \<times> bool" where
  "trace_scan (EvOpened _ _) (ok, t) = (ok, False)"
| "trace_scan (EvCrashed db _) (ok, t) = (ok, t \<or> db \<noteq> None)"
| "trace_scan (EvSaved _) (ok, t) = (ok \<and> \<not> t, t)"
| "trace_scan (EvClosed _ save) (ok, t) = (ok \<and> \<not> (save \<and> t), False)"

definition scan :: "loop_event list \<Rightarrow> bool \<times> bool" where
  "scan tr = fold trace_scan tr (True, False)"

definition opened :: "loop_event list \<Rightarrow> (nat \<times> u64) list" where
  "opened tr = List.map_filter (\<lambda>e. case e of EvOpened db g \<Rightarrow> Some (db, g) | _ \<Rightarrow> None) tr"

lemma scan_snoc [simp]: "scan (tr @ [e]) = trace_scan e (scan tr)" "scan [] = (True, False)"
  by (simp_all add: scan_def)

lemma opened_append [simp]: "opened (tr @ tr') = opened tr @ opened tr'" "opened [] = []"
  by (simp_all add: opened_def map_filter_def)

lemma opened_event [simp]:
  "opened [EvOpened db g] = [(db, g)]" "opened [EvCrashed x n] = []" "opened [EvSaved db] = []" "opened [EvClosed db b] = []"
  by (simp_all add: opened_def map_filter_simps)

text \<open>Everything that belongs to an open database is there, or nothing of it.\<close>

definition resources_ok :: "loop_state \<Rightarrow> bool" where
  "resources_ok s \<longleftrightarrow>
     (case lp_idb s of
        None \<Rightarrow> lp_path s = None \<and> lp_generation s = None \<and> lp_lock_file s = None \<and> lp_lock_path s = None
      | Some db \<Rightarrow> lp_path s \<noteq> None \<and> lp_lock_file s \<noteq> None \<and> lp_lock_path s \<noteq> None
          \<and> (\<exists>g. lp_generation s = Some g \<and> opened (lp_trace s) \<noteq> [] \<and> last (opened (lp_trace s)) = (db, g)))"

definition generations_ok :: "loop_state \<Rightarrow> bool" where
  "generations_ok s \<longleftrightarrow> sorted_wrt (<) (map snd (opened (lp_trace s)))
     \<and> (\<forall>x \<in> set (opened (lp_trace s)). snd x \<le> lp_next_generation s)"

definition crash_ok :: "loop_state \<Rightarrow> bool" where
  "crash_ok s \<longleftrightarrow> fst (scan (lp_trace s)) \<and> (snd (scan (lp_trace s)) \<longrightarrow> cg_crashed (lp_guard s) \<noteq> None \<and> lp_idb s \<noteq> None)"

definition loop_inv :: "loop_state \<Rightarrow> bool" where
  "loop_inv s \<longleftrightarrow> resources_ok s \<and> generations_ok s \<and> crash_ok s"

text \<open>After the start of a round no crash is pending.\<close>

definition calm :: "loop_state \<Rightarrow> bool" where
  "calm s \<longleftrightarrow> fst (scan (lp_trace s)) \<and> \<not> snd (scan (lp_trace s))"

lemma release_lock_simps [simp]:
  "lp_idb (release_lock me nt s) = lp_idb s" "lp_path (release_lock me nt s) = lp_path s"
  "lp_generation (release_lock me nt s) = lp_generation s" "lp_next_generation (release_lock me nt s) = lp_next_generation s"
  "lp_lock_file (release_lock me nt s) = None" "lp_lock_path (release_lock me nt s) = None"
  "lp_guard (release_lock me nt s) = lp_guard s" "lp_trace (release_lock me nt s) = lp_trace s"
  "lp_initialized (release_lock me nt s) = lp_initialized s" "lp_mismatch (release_lock me nt s) = lp_mismatch s"
  by (simp_all add: release_lock_def release_mcp_lock_def)

lemma drop_idb_simps [simp]:
  "lp_idb (drop_idb save s) = None" "lp_path (drop_idb save s) = lp_path s" "lp_generation (drop_idb save s) = lp_generation s"
  "lp_next_generation (drop_idb save s) = lp_next_generation s" "lp_guard (drop_idb save s) = lp_guard s"
  "lp_initialized (drop_idb save s) = lp_initialized s" "lp_mismatch (drop_idb save s) = lp_mismatch s"
  "opened (lp_trace (drop_idb save s)) = opened (lp_trace s)"
  "lp_trace (drop_idb save s) = lp_trace s @ (case lp_idb s of Some db \<Rightarrow> [EvClosed db save] | None \<Rightarrow> [])"
  by (simp_all add: drop_idb_def split: option.split)

lemma discard_simps [simp]:
  "lp_idb (discard_database_after_crash nt s) = None"
  "lp_next_generation (discard_database_after_crash nt s) = lp_next_generation s"
  "lp_trace (discard_database_after_crash nt s) = lp_trace s @ (case lp_idb s of Some db \<Rightarrow> [EvClosed db False] | None \<Rightarrow> [])"
  by (simp_all add: discard_database_after_crash_def Let_def split: option.split prod.split)

lemma recover_inv:
  assumes "loop_inv s"
  shows "loop_inv (recover me nt s) \<and> calm (recover me nt s)"
proof (cases "cg_crashed (lp_guard s)")
  case None
  with assms show ?thesis by (auto simp: recover_def take_crashed_def loop_inv_def crash_ok_def calm_def)
next
  case (Some op)
  then have rec: "recover me nt s = release_lock me nt
      ((discard_database_after_crash nt (s\<lparr>lp_guard := (lp_guard s)\<lparr>cg_crashed := None\<rparr>\<rparr>))\<lparr>lp_path := None, lp_generation := None\<rparr>)"
    by (simp add: recover_def take_crashed_def)
  have "lp_trace (recover me nt s) = lp_trace s @ (case lp_idb s of Some db \<Rightarrow> [EvClosed db False] | None \<Rightarrow> [])"
    by (simp add: rec)
  moreover have "fst (scan (lp_trace s))" "lp_idb s = None \<longrightarrow> \<not> snd (scan (lp_trace s))"
    using assms by (auto simp: loop_inv_def crash_ok_def)
  moreover have "generations_ok s" using assms by (simp add: loop_inv_def)
  ultimately show ?thesis
    by (cases "scan (lp_trace s)")
      (auto simp: loop_inv_def calm_def crash_ok_def resources_ok_def generations_ok_def rec split: option.split)
qed

lemma loop_inv_frame [simp]:
  "loop_inv (s\<lparr>lp_os := os\<rparr>) = loop_inv s" "loop_inv (s\<lparr>lp_debugger := rt\<rparr>) = loop_inv s"
  "loop_inv (s\<lparr>lp_initialized := b, lp_mismatch := m\<rparr>) = loop_inv s"
  "calm (s\<lparr>lp_initialized := b, lp_mismatch := m\<rparr>) = calm s"
  by (simp_all add: loop_inv_def resources_ok_def generations_ok_def crash_ok_def calm_def split: option.split)

lemma open_arm_inv:
  assumes inv: "loop_inv s" and calm: "calm s" and run: "open_arm me nt s = (s', r)"
  shows "loop_inv s'"
proof (cases "lp_idb s")
  case (Some db)
  then have "lp_generation s \<noteq> None" using inv by (auto simp: loop_inv_def resources_ok_def)
  then have "s' = s" using run Some by (auto simp: open_arm_def split: sum.splits option.splits)
  with inv show ?thesis by simp
next
  case None
  note free = inv [unfolded loop_inv_def resources_ok_def None, simplified]
  show ?thesis
  proof (cases "nt_open nt")
    case (Inl e)
    then have "s' = s\<lparr>lp_os := nt_open_os nt\<rparr>" using run None by (simp add: open_arm_def)
    with inv show ?thesis by (simp add: loop_inv_frame)
  next
    case (Inr x)
    then obtain db path lf lpath where x: "nt_open nt = Inr (db, path, lf, lpath)" by (cases x) auto
    show ?thesis
    proof (cases "checked_add (lp_next_generation s) 1")
      case exhausted: None
      with run None x have "lp_idb s' = None" "lp_path s' = None" "lp_generation s' = None" "lp_lock_file s' = None"
        "lp_lock_path s' = None" "lp_next_generation s' = lp_next_generation s" "lp_trace s' = lp_trace s @ [EvClosed db True]"
        using free by (auto simp: open_arm_def Let_def)
      with inv calm show ?thesis
        by (cases "scan (lp_trace s)") (auto simp: loop_inv_def resources_ok_def generations_ok_def crash_ok_def calm_def)
    next
      case (Some n)
      from Some have less: "lp_next_generation s < n" by (rule checked_add_one_less) simp
      have "s' = s\<lparr>lp_idb := Some db, lp_lock_file := Some lf, lp_lock_path := Some lpath, lp_os := nt_open_os nt,
          lp_next_generation := n, lp_generation := Some n, lp_path := Some path, lp_trace := lp_trace s @ [EvOpened db n]\<rparr>"
        using run None x Some by (simp add: open_arm_def Let_def)
      with free less calm show ?thesis
        by (cases "scan (lp_trace s)")
          (auto simp: loop_inv_def resources_ok_def generations_ok_def crash_ok_def calm_def sorted_wrt_append)
    qed
  qed
qed

lemma close_arm_inv:
  assumes inv: "loop_inv s" and calm: "calm s" and run: "close_arm me nt s = (s', r)"
  shows "loop_inv s'"
proof (cases "close_session (nt_sdk nt) (lp_idb s \<noteq> None) (lp_debugger s)")
  case (Pair x rt)
  show ?thesis
  proof (cases x)
    case (Inl e)
    then have "s' = s\<lparr>lp_debugger := rt\<rparr>" using run Pair by (simp add: close_arm_def)
    with inv show ?thesis by (simp add: loop_inv_frame)
  next
    case (Inr u)
    then have s': "s' = release_lock me nt ((drop_idb True (s\<lparr>lp_debugger := rt\<rparr>))\<lparr>lp_path := None, lp_generation := None\<rparr>)"
      using run Pair by (simp add: close_arm_def)
    show ?thesis using inv calm unfolding s'
      by (cases "scan (lp_trace s)"; cases "lp_idb s")
        (auto simp: loop_inv_def resources_ok_def generations_ok_def crash_ok_def calm_def)
  qed
qed

lemma run_operation_inv:
  assumes inv: "loop_inv s" and calm: "calm s" and run: "run_operation nt n s = (r, s')"
  shows "loop_inv s'"
proof -
  define saved where "saved = (if n = ''SaveDatabase'' \<and> \<not> isl r then (case lp_idb s of Some db \<Rightarrow> [EvSaved db] | None \<Rightarrow> []) else [])"
  have saved: "saved = [] \<or> (\<exists>db. saved = [EvSaved db])" by (auto simp: saved_def split: option.split)
  obtain g evs rt where s': "s' = s\<lparr>lp_guard := g, lp_debugger := rt, lp_trace := lp_trace s @ evs\<rparr>"
    and "evs = saved \<or> (\<exists>op. evs = [EvCrashed (lp_idb s) op] \<and> cg_crashed g \<noteq> None)"
  proof (cases "ra_guard (arm_of n)")
    case None
    then show ?thesis
      using run by (intro that [where g = "lp_guard s" and evs = saved]) (auto simp: run_operation_def Let_def saved_def)
  next
    case (Some op)
    then show ?thesis
      using run by (intro that [where g = "if is_crash r then \<lparr>cg_crashed = Some op, cg_signal = True\<rparr> else lp_guard s"
            and evs = "if is_crash r then [EvCrashed (lp_idb s) op] else saved"])
        (auto simp: run_operation_def run_guarded_def Let_def saved_def)
  qed
  then have evs: "evs = [] \<or> (\<exists>db. evs = [EvSaved db]) \<or> (\<exists>op. evs = [EvCrashed (lp_idb s) op] \<and> cg_crashed g \<noteq> None)"
    using saved by blast
  have keep: "resources_ok s'" "generations_ok s'"
    using inv evs unfolding s' by (auto simp: loop_inv_def resources_ok_def generations_ok_def split: option.splits)
  moreover have "crash_ok s'"
    using calm evs unfolding s' by (cases "scan (lp_trace s)") (auto simp: crash_ok_def calm_def)
  ultimately show ?thesis by (simp add: loop_inv_def)
qed

lemma native_arm_inv:
  assumes "loop_inv s" "calm s" "native_arm nt n rq s = (s', r)"
  shows "loop_inv s'"
proof -
  have "s' = s \<or> (\<exists>x. run_operation nt n s = (x, s'))"
    using assms(3) by (auto simp: native_arm_def Let_def split: sum.splits if_splits prod.splits)
  with assms run_operation_inv show ?thesis by blast
qed

lemma dispatch_inv:
  assumes "loop_inv s" "calm s" "dispatch_request me nt rq s = (s', r, True)"
  shows "loop_inv s'"
  using assms(3) open_arm_inv [OF assms(1,2)] close_arm_inv [OF assms(1,2)] native_arm_inv [OF assms(1,2)] assms(1)
  by (auto simp: dispatch_request_def close_if_generation_arm_def split: option.splits ida_request.splits prod.splits if_splits)

lemma loop_inv_step: "loop_inv s \<Longrightarrow> loop_step me s s' \<Longrightarrow> loop_inv s'"
proof (erule loop_step.cases)
  fix nt :: "nat native" and rq t t' rep
  assume inv: "loop_inv s" and eq: "s = t" "s' = t'" and run: "loop_round me nt rq t = (t', rep, True)"
  note rec = recover_inv [OF inv, of me nt, THEN conjunct1] recover_inv [OF inv, of me nt, THEN conjunct2]
  show "loop_inv s'"
    using run rec dispatch_inv [OF rec, of me nt rq t'] dispatch_inv [of "(recover me nt t)\<lparr>lp_initialized := True, lp_mismatch := m\<rparr>" me nt rq t' rep for m]
    unfolding eq by (auto simp: loop_round_def Let_def split: if_splits sum.splits)
qed

interpretation worker_loop: invariant_system loop_start "loop_step me" loop_inv for me
  by unfold_locales
    (simp add: loop_start_def loop_inv_def resources_ok_def generations_ok_def crash_ok_def, rule loop_inv_step)

lemma loop_round_safe:
  assumes inv: "loop_inv s" and run: "loop_round me (nt :: nat native) rq s = (s', rep, go)"
  shows "fst (scan (lp_trace s'))"
proof (cases go)
  case True
  then have "loop_step me s s'" using run by (auto intro: round)
  then show ?thesis using loop_inv_step [OF inv] by (auto simp: loop_inv_def crash_ok_def)
next
  case False
  have calm: "calm (recover me nt s)" using recover_inv [OF inv] by blast
  have stop: "s' = shutdown_cleanup me nt t" if "dispatch_request me nt rq t = (s', rep, False)" for t
    using that by (auto simp: dispatch_request_def split: option.splits ida_request.splits prod.splits if_splits)
  have "s' = shutdown_cleanup me nt (recover me nt s)
      \<or> (\<exists>m. s' = shutdown_cleanup me nt ((recover me nt s)\<lparr>lp_initialized := True, lp_mismatch := m\<rparr>))"
    using run False stop by (auto simp: loop_round_def Let_def split: if_splits sum.splits)
  then obtain t where "calm t" "s' = shutdown_cleanup me nt t" using calm loop_inv_frame(4) by blast
  then show ?thesis
    by (cases "scan (lp_trace t)"; cases "lp_idb t") (auto simp: shutdown_cleanup_def calm_def)
qed

section \<open>Properties\<close>

text \<open>
  C24: A side effect whose caller waits for it through \<open>recv_side_effect\<close> of its worker, and
  was told by that wait that it timed out, has not started and never will; a caller that gets
  an answer gets the one the worker sent. Timeouts from elsewhere are outside: a
  supervising pool that kills the child of an overrunning call, which covers the scripts and
  the analysis runs that wait without such a deadline, reports a timeout of its own for an
  operation that may have started.
\<close>

theorem timed_out_effect_never_starts:
  assumes "reach effect_new effect_step c" "effect_step\<^sup>*\<^sup>* c d" "ec_caller c = TimedOut"
  shows "\<not> ec_started d \<and> recv_side_effect supervised timeout_secs (ec_caller d) = Some (Inl (Timeout (clamped_timeout supervised timeout_secs)))"
proof -
  have "ec_caller d = TimedOut \<and> effect_inv d"
    using assms(2,3)
  proof (induction rule: rtranclp_induct)
    case base
    then show ?case using side_effect.reach_inv [OF assms(1)] by simp
  next
    case (step y z)
    then have "ec_caller y = TimedOut" "effect_inv y" by simp_all
    moreover have "ec_caller z = TimedOut" using step.hyps(2) \<open>ec_caller y = TimedOut\<close> by cases auto
    ultimately show ?case using effect_inv_step step.hyps(2) by blast
  qed
  then show ?thesis by (auto simp: effect_inv_def recv_side_effect_def)
qed

text \<open>A request whose caller gives up before the worker takes it.\<close>

definition queued_call :: "nat effect_call" where
  "queued_call = \<lparr>ec_admission = SIDE_EFFECT_QUEUED, ec_place = InQueue, ec_started = False, ec_reply = None, ec_caller = Waiting\<rparr>"

theorem timed_out_effect_never_starts_witness:
  "\<not> ec_started (queued_call\<lparr>ec_caller := TimedOut, ec_admission := SIDE_EFFECT_CANCELLED, ec_place := Settled,
      ec_reply := Some (Inl (Cancelled ''request expired while queued; no side effects were started''))\<rparr>)"
proof -
  let ?c = "queued_call\<lparr>ec_caller := TimedOut, ec_admission := SIDE_EFFECT_CANCELLED\<rparr>"
  have "reach effect_new effect_step queued_call" by (rule reach_init) (simp add: effect_new_def queued_call_def)
  moreover have "effect_step queued_call ?c"
    by (rule timeout_queued) (simp_all add: queued_call_def cancel_if_queued_def)
  ultimately have c: "reach effect_new effect_step ?c" by (rule reach_step)
  have "effect_step ?c (?c\<lparr>ec_admission := SIDE_EFFECT_CANCELLED, ec_place := Settled,
      ec_reply := Some (Inl (Cancelled ''request expired while queued; no side effects were started''))\<rparr>)"
    by (rule reject) (simp_all add: queued_call_def start_effect_def)
  from timed_out_effect_never_starts [OF c r_into_rtranclp [of effect_step, OF this], of False None] show ?thesis
    by simp
qed

text \<open>
  Every request that a caller waits for as a side effect claims its admission in the
  loop, and no other one does; the two tables list the same requests.
\<close>

theorem bounded_effects_are_admitted:
  "list_all2 (\<lambda>(n, ws) (m, a). n = m \<and> ra_admission a = (WaitSideEffect \<in> set ws)) caller_waits native_arms"
  by (simp add: caller_waits_def native_arms_def arm_def)

text \<open>
  C25: A database on which a native call crashed is never saved: not by a save request, not by
  closing it and not by the shutdown of the worker, whatever requests follow the crash.
\<close>

theorem crashed_database_never_saved:
  assumes "reach loop_start (loop_step me) s" "loop_round me (nt :: nat native) rq s = (s', rep, go)"
  shows "fst (scan (lp_trace s'))"
  by (rule loop_round_safe [OF worker_loop.reach_inv [OF assms(1)] assms(2)])

text \<open>
  C26: A running worker has a database, its path, its lock file and its generation together or
  none of them; generations only grow, and the current one is that of the last opening.
\<close>

theorem database_lifetime:
  assumes "reach loop_start (loop_step me) s"
  shows "(lp_idb s = None \<longleftrightarrow> lp_generation s = None) \<and> (lp_idb s = None \<longleftrightarrow> lp_lock_file s = None)
    \<and> (lp_idb s = None \<longleftrightarrow> lp_path s = None) \<and> sorted_wrt (<) (map snd (opened (lp_trace s)))
    \<and> (\<forall>db g. lp_idb s = Some db \<and> lp_generation s = Some g \<longrightarrow> last (opened (lp_trace s)) = (db, g))"
  using worker_loop.reach_inv [OF assms] by (auto simp: loop_inv_def resources_ok_def generations_ok_def split: option.splits)

text \<open>
  An operation that is bound to a generation either is refused and changes nothing, or it
  runs on the database that was opened with that generation and on no other one.
\<close>

theorem bound_operation_hits_its_database:
  assumes "reach loop_start (loop_step me) s" "ra_generation (arm_of n)" "rq_expected rq = Some g" "rq_admission rq = SIDE_EFFECT_QUEUED"
  shows "native_arm nt n rq s = (s, ReplyError DatabaseReplaced)
    \<or> (\<exists>db. lp_idb s = Some db \<and> {db'. (db', g) \<in> set (opened (lp_trace s))} = {db})"
proof (cases "lp_generation s = Some g")
  case False
  then show ?thesis using assms(2-4) by (simp add: native_arm_def start_effect_def require_generation_def)
next
  case True
  have inv: "resources_ok s" "generations_ok s" using worker_loop.reach_inv [OF assms(1)] by (simp_all add: loop_inv_def)
  then obtain db where db: "lp_idb s = Some db" "opened (lp_trace s) \<noteq> []" "last (opened (lp_trace s)) = (db, g)"
    using True by (auto simp: resources_ok_def split: option.splits)
  then have mem: "(db, g) \<in> set (opened (lp_trace s))" using last_in_set by metis
  have "distinct (map snd (opened (lp_trace s)))"
    using inv(2) by (auto simp: generations_ok_def strict_sorted_iff)
  then have inj: "inj_on snd (set (opened (lp_trace s)))" by (simp add: distinct_map)
  have "db' = db" if "(db', g) \<in> set (opened (lp_trace s))" for db'
    using inj_onD [OF inj _ that mem] by simp
  with db(1) mem show ?thesis by blast
qed

text \<open>
  When the library cannot be initialised, a shutdown request is answered by nothing and
  the loop goes on: it ends only when the last sender is gone.
\<close>

theorem shutdown_lost_without_library:
  assumes "\<not> lp_initialized s" "cg_crashed (lp_guard s) = None" "rq_kind rq = RqShutdown" "nt_init nt = Inl err"
  shows "loop_round me nt rq s = (s, NoReply, True)"
  using assms by (simp add: loop_round_def recover_def take_crashed_def reject_with_error_def has_cancel_token_def)

text \<open>A worker that opens a database, whose decompiler then crashes, and that is shut down.\<close>

definition demo_sdk :: debug_sdk where
  "demo_sdk = \<lparr>ds_state = NoProcess, ds_load = None, ds_start = Inr 0, ds_teardown = Inr 0, ds_helper_exited = Inr False,
     ds_helper_path = None, ds_helper_bind = None, ds_helper_port = Inr 0, ds_helper_spawn = None, ds_helper_early = Inr None\<rparr>"

definition demo_runtime :: debugger_runtime where
  "demo_runtime = \<lparr>rt_backend_loaded = False, rt_session = None, rt_helper = None\<rparr>"

definition demo_native :: "nat \<Rightarrow> nat native" where
  "demo_native sig = \<lparr>nt_init = Inl ''no license'', nt_same = Inl Busy, nt_open = Inr (5, ''db.i64'', 0, ''db.imcp''),
     nt_open_os = ls_os lock_idle, nt_result = Inr 0, nt_signal = sig, nt_sdk = demo_sdk, nt_debugger = demo_runtime,
     nt_discard_signal = 0, nt_faults = no_faults\<rparr>"

definition demo_loop :: loop_state where
  "demo_loop = \<lparr>lp_idb = None, lp_path = None, lp_generation = None, lp_next_generation = 0, lp_lock_file = None, lp_lock_path = None,
     lp_initialized = True, lp_mismatch = None, lp_debugger = demo_runtime,
     lp_guard = \<lparr>cg_crashed = None, cg_signal = False\<rparr>, lp_os = ls_os lock_idle, lp_trace = []\<rparr>"

definition demo_request :: "ida_request \<Rightarrow> request" where
  "demo_request k = \<lparr>rq_kind = k, rq_admission = SIDE_EFFECT_QUEUED, rq_expected = Some 7, rq_cancelled = False\<rparr>"

definition demo_opened :: loop_state where
  "demo_opened = demo_loop\<lparr>lp_idb := Some 5, lp_lock_file := Some 0, lp_lock_path := Some ''db.imcp'', lp_next_generation := 1,
     lp_generation := Some 1, lp_path := Some ''db.i64'', lp_trace := [EvOpened 5 1]\<rparr>"

definition demo_crashed :: loop_state where
  "demo_crashed = demo_opened\<lparr>lp_guard := \<lparr>cg_crashed = Some ''handle_decompile'', cg_signal = True\<rparr>,
     lp_trace := [EvOpened 5 1, EvCrashed (Some 5) ''handle_decompile'']\<rparr>"

lemma arm_decompile: "arm_of ''Decompile'' = arm False False False (Some ''handle_decompile'')"
  by (simp add: arm_of_def native_arms_def)

lemma arm_status: "arm_of ''AnalysisStatus'' = arm False True False (Some ''handle_analysis_status'')"
  by (simp add: arm_of_def native_arms_def)

lemma demo_opened_reach: "reach loop_start (loop_step 1) demo_opened"
proof -
  have "reach loop_start (loop_step 1) demo_loop" by (rule reach_init) (simp add: loop_start_def demo_loop_def)
  moreover have "loop_round 1 (demo_native 0) (demo_request RqOpen) demo_loop = (demo_opened, ReplyOpened ''db.i64'' 1, True)"
    by (simp add: loop_round_def recover_def take_crashed_def dispatch_request_def open_arm_def demo_native_def demo_loop_def
        demo_request_def demo_opened_def checked_add_def Let_def)
  then have "loop_step 1 demo_loop demo_opened" by (rule round)
  ultimately show ?thesis by (rule reach_step)
qed

lemma demo_crashed_reach: "reach loop_start (loop_step 1) demo_crashed"
proof -
  have "\<exists>e. loop_round 1 (demo_native 11) (demo_request (RqNative ''Decompile'')) demo_opened = (demo_crashed, ReplyError e, True)"
    by (simp add: loop_round_def recover_def take_crashed_def dispatch_request_def native_arm_def run_operation_def run_guarded_def
        guarded_def is_crash_def arm_decompile arm_def demo_native_def demo_loop_def demo_request_def demo_opened_def demo_crashed_def Let_def)
  then have "loop_step 1 demo_opened demo_crashed" by (auto intro: round)
  with demo_opened_reach show ?thesis by (rule reach_step)
qed

theorem crashed_database_never_saved_witness:
  "fst (scan (lp_trace (fst (loop_round 1 (demo_native 0) (demo_request RqShutdown) demo_crashed))))"
  using crashed_database_never_saved [OF demo_crashed_reach, of "demo_native 0" "demo_request RqShutdown"]
  by (cases "loop_round 1 (demo_native 0) (demo_request RqShutdown) demo_crashed") simp

theorem database_lifetime_witness: "last (opened (lp_trace demo_opened)) = (5, 1)"
  using database_lifetime [OF demo_opened_reach] by (simp add: demo_opened_def)

theorem bound_operation_hits_its_database_witness:
  "native_arm (demo_native 0) ''AnalysisStatus'' (demo_request (RqNative ''AnalysisStatus'')) demo_opened
   = (demo_opened, ReplyError DatabaseReplaced)"
proof -
  have "opened (lp_trace demo_opened) = [(5, 1)]" by (simp add: demo_opened_def)
  then show ?thesis
    using bound_operation_hits_its_database [OF demo_opened_reach, of "''AnalysisStatus''"
        "demo_request (RqNative ''AnalysisStatus'')" 7 "demo_native 0"]
    by (auto simp: arm_status arm_def demo_request_def)
qed

theorem shutdown_lost_without_library_witness:
  "loop_round 1 (demo_native 0) (demo_request RqShutdown) (demo_loop\<lparr>lp_initialized := False\<rparr>)
   = (demo_loop\<lparr>lp_initialized := False\<rparr>, NoReply, True)"
  by (rule shutdown_lost_without_library) (simp_all add: demo_loop_def demo_request_def demo_native_def)

text \<open>Without another request the crashed database is saved when the loop ends.\<close>

lemma hangup_after_crash_saves: "\<not> fst (scan (lp_trace (loop_end 1 demo_crashed)))"
  by (simp add: loop_end_def demo_crashed_def demo_opened_def demo_loop_def scan_def drop_idb_def)

end
