(* ===== verification/Db_Open.thy ===== *)
theory Db_Open
  imports Db_Lock
begin

text \<open>
  \<open>src/src/ida/handlers/database.rs\<close>: opening a database. A raw input is analysed into an output
  database; an existing output is reused or replaced only when its recorded input matches, the
  output is locked while the database is open, and a failed open removes the files it created.

  IDA itself is the record \<open>idalib\<close> of what its operations answer and do to the files. Paths are
  byte strings, used as the code writes them; \<open>files\<close> gives the metadata of what a path names.
  The lock files live in the operating system state of \<open>Db_Lock\<close>.
\<close>

section \<open>Paths\<close>

text \<open>Two paths are equal when their components are: the root, a leading dot, and the other pieces.\<close>

definition path_components :: "string \<Rightarrow> bool \<times> bool \<times> string list" where
  "path_components p =
     (let ps = split_char (CHR ''/'') p
      in (p \<noteq> [] \<and> hd p = CHR ''/'', hd ps = ''.'', filter (\<lambda>c. \<not> trivial_piece c) ps))"

definition path_eq :: "string \<Rightarrow> string \<Rightarrow> bool" where
  "path_eq p q \<longleftrightarrow> path_components p = path_components q"

definition path_join :: "string \<Rightarrow> string \<Rightarrow> string" where
  "path_join p q =
     (if q \<noteq> [] \<and> hd q = CHR ''/'' then q
      else if p = [] \<or> last p = CHR ''/'' then p @ q else p @ CHR ''/'' # q)"

definition path_parent :: "string \<Rightarrow> string option" where
  "path_parent p =
     (let ps = path_pieces p
      in if ps = [] then (if hd (split_char (CHR ''/'') p) = ''.'' then Some [] else None)
         else let b = butlast ps; c = rev (dropWhile trivial_piece (rev b))
              in Some (if c \<noteq> [] then str_join ''/'' c else if b = [] then [] else if hd b = [] then ''/'' else ''.''))"

text \<open>\<open>HOME\<close> is the value of the environment variable.\<close>

definition expand_path :: "string option \<Rightarrow> string \<Rightarrow> string" where
  "expand_path home path =
     (case strip_prefix ''~/'' path of
        None \<Rightarrow> path
      | Some stripped \<Rightarrow> (case home of None \<Rightarrow> path | Some h \<Rightarrow> path_join h stripped))"

definition non_empty_trimmed :: "string option \<Rightarrow> string option" where
  "non_empty_trimmed value = (case value of None \<Rightarrow> None | Some v \<Rightarrow> if trim v = [] then None else Some (trim v))"

definition lower_hex :: "u64 \<Rightarrow> string" where
  "lower_hex a = show_hex (unat a)"

section \<open>Files\<close>

record file_meta =
  fm_len :: nat
  fm_modified :: "nat option"
  fm_dir :: bool
  fm_readonly :: bool

type_synonym files = "string \<Rightarrow> file_meta option"

definition path_exists :: "files \<Rightarrow> string \<Rightarrow> bool" where
  "path_exists fs p \<longleftrightarrow> fs p \<noteq> None"

definition path_is_file :: "files \<Rightarrow> string \<Rightarrow> bool" where
  "path_is_file fs p \<longleftrightarrow> (case fs p of None \<Rightarrow> False | Some m \<Rightarrow> \<not> fm_dir m)"

definition dsym_expected_path_for_binary :: "string \<Rightarrow> string option" where
  "dsym_expected_path_for_binary path =
     map_option (path_join (path_join (path_join (path_join (path @ ''.dSYM'') ''Contents'') ''Resources'') ''DWARF''))
       (file_name path)"

definition dsym_path_for_binary :: "files \<Rightarrow> string \<Rightarrow> string option" where
  "dsym_path_for_binary fs path =
     (case dsym_expected_path_for_binary path of
        Some p \<Rightarrow> if path_exists fs p then Some p else None
      | None \<Rightarrow> None)"

text \<open>\<open>and_then(|e| e.to_str())\<close>: an extension that is not UTF-8 counts as none.\<close>

definition utf8_extension :: "string \<Rightarrow> string option" where
  "utf8_extension p = (case path_extension p of Some e \<Rightarrow> if utf8_valid e then Some e else None | None \<Rightarrow> None)"

definition packed_extension :: "string \<Rightarrow> bool" where
  "packed_extension e \<longleftrightarrow> eq_ignore_ascii_case e ''i64'' \<or> eq_ignore_ascii_case e ''idb''"

definition unpacked_id0_path :: "string \<Rightarrow> string option" where
  "unpacked_id0_path path =
     (case utf8_extension path of
        None \<Rightarrow> None
      | Some e \<Rightarrow> if packed_extension e then Some (set_extension ''id0'' path) else None)"

definition idb_path_for_raw_binary :: "string \<Rightarrow> string" where
  "idb_path_for_raw_binary path = path @ ''.i64''"

definition has_ida_database_extension :: "string \<Rightarrow> bool" where
  "has_ida_database_extension path =
     (case utf8_extension path of
        None \<Rightarrow> False
      | Some e \<Rightarrow> let e = to_ascii_lowercase e in e = ''i64'' \<or> e = ''idb'' \<or> e = ''id0'')"

definition database_path_for_open_request :: "string option \<Rightarrow> string \<Rightarrow> string option \<Rightarrow> string" where
  "database_path_for_open_request home path idb_out =
     (let input = expand_path home path
      in if has_ida_database_extension input then input
         else case idb_out of Some out \<Rightarrow> expand_path home out | None \<Rightarrow> idb_path_for_raw_binary input)"

definition ida_database_output_exists :: "files \<Rightarrow> string \<Rightarrow> bool" where
  "ida_database_output_exists fs output \<longleftrightarrow>
     path_exists fs output \<or> (case unpacked_id0_path output of Some p \<Rightarrow> path_exists fs p | None \<Rightarrow> False)"

definition existing_idb_for_raw_binary :: "files \<Rightarrow> string \<Rightarrow> string option" where
  "existing_idb_for_raw_binary fs path =
     (let idb_path = idb_path_for_raw_binary path
      in if ida_database_output_exists fs idb_path then Some idb_path else None)"

definition existing_idb_for_raw_open :: "files \<Rightarrow> string \<Rightarrow> string option \<Rightarrow> string option" where
  "existing_idb_for_raw_open fs path explicit =
     (case explicit of
        Some out \<Rightarrow> if ida_database_output_exists fs out then Some out else None
      | None \<Rightarrow> existing_idb_for_raw_binary fs path)"

definition database_artifact_paths :: "string \<Rightarrow> string list" where
  "database_artifact_paths output =
     output # map (\<lambda>extension. set_extension extension output) [''id0'', ''id1'', ''id2'', ''nam'', ''til'']"

definition raw_input_matches_generated_database :: "string \<Rightarrow> string \<Rightarrow> bool" where
  "raw_input_matches_generated_database raw database \<longleftrightarrow>
     \<not> has_ida_database_extension raw \<and> path_eq (idb_path_for_raw_binary raw) database"

definition base_input_path_for_database :: "string \<Rightarrow> string" where
  "base_input_path_for_database path =
     (case utf8_extension path of
        None \<Rightarrow> path
      | Some e \<Rightarrow> if packed_extension e \<or> eq_ignore_ascii_case e ''id0'' then set_extension [] path else path)"

definition same_path_option :: "string option \<Rightarrow> string \<Rightarrow> bool" where
  "same_path_option p q \<longleftrightarrow> (case p of Some p \<Rightarrow> path_eq p q | None \<Rightarrow> False)"

definition database_paths_match :: "string \<Rightarrow> string \<Rightarrow> bool" where
  "database_paths_match current requested \<longleftrightarrow>
     path_eq current requested
     \<or> same_path_option (unpacked_id0_path current) requested
     \<or> same_path_option (unpacked_id0_path requested) current
     \<or> raw_input_matches_generated_database requested current
     \<or> raw_input_matches_generated_database current requested"

definition init_database_args :: "string list \<Rightarrow> string list" where
  "init_database_args extra_args = (if ''-A'' \<in> set extra_args then [] else [''-A'']) @ extra_args"

section \<open>Provenance\<close>

datatype existing_raw_idb_action = Reuse | Rebuild

type_synonym digest = string

definition hash_recorded :: "digest \<Rightarrow> bool" where
  "hash_recorded h \<longleftrightarrow> list_ex (\<lambda>b. b \<noteq> CHR 0x00) h"

definition existing_raw_idb_action_of :: "bool \<Rightarrow> digest \<Rightarrow> digest \<Rightarrow> bool \<Rightarrow> existing_raw_idb_action option" where
  "existing_raw_idb_action_of rebuild recorded_hash input_hash recorded_path_matches =
     (let hash_matches = hash_recorded recorded_hash \<and> recorded_hash = input_hash
      in if \<not> rebuild \<and> hash_matches then Some Reuse
         else if rebuild \<and> (hash_matches \<or> recorded_path_matches) then Some Rebuild
         else None)"

text \<open>
  Where the cancellation token is read, in the order of the code; \<open>PollHash n\<close> is the check
  before the \<open>n\<close>-th read of the input.
\<close>

datatype poll = PollStart | PollRetryHash nat | PollCandidate | PollHash nat | PollConfigured | PollDebugInfo | PollEnd

definition ensure_not_cancelled :: "bool \<Rightarrow> tool_error + unit" where
  "ensure_not_cancelled cancelled = (if cancelled then Inl (Cancelled ''Operation cancelled by client'') else Inr ())"

text \<open>
  Hashing reads the input in pieces; each read gives an error or some bytes, and no bytes are the
  end of the file, as is a reader without further answers. \<open>Sha256\<close> hashes what was fed to it.
\<close>

fun sha256_reader ::
  "(string \<Rightarrow> digest) \<Rightarrow> string \<Rightarrow> (nat \<Rightarrow> bool) \<Rightarrow> nat \<Rightarrow> string \<Rightarrow> (string + string) list \<Rightarrow> tool_error + digest" where
  "sha256_reader sha path cancelled n fed [] =
     (if cancelled n \<or> cancelled (Suc n) then Inl (Cancelled ''Operation cancelled by client'') else Inr (sha fed))"
| "sha256_reader sha path cancelled n fed (r # reads) =
     (if cancelled n then Inl (Cancelled ''Operation cancelled by client'')
      else case r of
        Inl err \<Rightarrow> Inl (OpenFailed (''failed while hashing input ('' @ path @ ''): '' @ err))
      | Inr bytes \<Rightarrow>
          if bytes = []
          then (if cancelled (Suc n) then Inl (Cancelled ''Operation cancelled by client'') else Inr (sha fed))
          else sha256_reader sha path cancelled (Suc n) (fed @ bytes) reads)"

definition sha256_file ::
  "(string \<Rightarrow> digest) \<Rightarrow> string \<Rightarrow> (nat \<Rightarrow> bool) \<Rightarrow> string + (string + string) list \<Rightarrow> tool_error + digest" where
  "sha256_file sha path cancelled input =
     (case input of
        Inl err \<Rightarrow> Inl (OpenFailed (''failed to read input for SHA-256 verification ('' @ path @ ''): '' @ err))
      | Inr reads \<Rightarrow> sha256_reader sha path cancelled 0 [] reads)"

definition paths_refer_to_same_file :: "(string \<Rightarrow> string option) \<Rightarrow> string \<Rightarrow> string \<Rightarrow> bool" where
  "paths_refer_to_same_file canonicalize left right \<longleftrightarrow>
     (case (canonicalize left, canonicalize right) of
        (Some l, Some r) \<Rightarrow> path_eq l r
      | _ \<Rightarrow> path_eq left right)"

definition trim_nul :: "string \<Rightarrow> string" where
  "trim_nul s = rev (dropWhile (\<lambda>c. c = CHR 0x00) (rev s))"

definition recorded_input_path_matches :: "string option \<Rightarrow> (string \<Rightarrow> string option) \<Rightarrow> string \<Rightarrow> string \<Rightarrow> bool" where
  "recorded_input_path_matches home canonicalize input recorded \<longleftrightarrow>
     (let recorded = trim_nul recorded
      in recorded \<noteq> [] \<and> paths_refer_to_same_file canonicalize input (expand_path home recorded))"

definition open_database_path_matches_raw_request ::
  "string option \<Rightarrow> (string \<Rightarrow> string option) \<Rightarrow> string \<Rightarrow> string \<Rightarrow> string option \<Rightarrow> string \<Rightarrow> bool" where
  "open_database_path_matches_raw_request home canonicalize current_path requested_input requested_output recorded_input \<longleftrightarrow>
     \<not> has_ida_database_extension requested_input
     \<and> (case requested_output of
          Some out \<Rightarrow> paths_refer_to_same_file canonicalize current_path out \<or> same_path_option (unpacked_id0_path out) current_path
        | None \<Rightarrow> database_paths_match current_path requested_input)
     \<and> recorded_input_path_matches home canonicalize requested_input recorded_input"

definition open_database_matches_raw_request ::
  "(string \<Rightarrow> digest) \<Rightarrow> string option \<Rightarrow> (string \<Rightarrow> string option) \<Rightarrow> (nat \<Rightarrow> bool) \<Rightarrow> string + (string + string) list
   \<Rightarrow> string \<Rightarrow> string option \<Rightarrow> string \<Rightarrow> string option \<Rightarrow> string \<Rightarrow> digest \<Rightarrow> tool_error + bool" where
  "open_database_matches_raw_request sha home canonicalize cancelled content
     database_input_path effective_database_path requested_input requested_output recorded_input recorded_hash =
     (let current_path = (case effective_database_path of Some p \<Rightarrow> p | None \<Rightarrow> database_input_path)
      in if \<not> open_database_path_matches_raw_request home canonicalize current_path requested_input requested_output recorded_input
            \<or> \<not> hash_recorded recorded_hash
         then Inr False
         else case sha256_file sha requested_input cancelled content of
                Inl e \<Rightarrow> Inl e
              | Inr h \<Rightarrow> Inr (h = recorded_hash))"

definition validate_raw_idb_output :: "(string \<Rightarrow> string option) \<Rightarrow> (string \<Rightarrow> string) \<Rightarrow> files \<Rightarrow> string \<Rightarrow> string \<Rightarrow> tool_error + unit" where
  "validate_raw_idb_output canonicalize stat_error fs input output =
     (if \<not> (case utf8_extension output of Some e \<Rightarrow> packed_extension e | None \<Rightarrow> False)
      then Inl (InvalidParams (''idb_out must end in .i64 or .idb: '' @ output))
      else if paths_refer_to_same_file canonicalize input output
      then Inl (InvalidParams ''idb_out must not refer to the raw input file'')
      else if path_exists fs output \<and> \<not> path_is_file fs output
      then Inl (InvalidPath (''idb_out is not a file: '' @ output))
      else case filter (\<lambda>id0. path_exists fs id0 \<and> \<not> path_is_file fs id0) (case unpacked_id0_path output of Some p \<Rightarrow> [p] | None \<Rightarrow> []) of
        id0 # _ \<Rightarrow> Inl (InvalidPath (''unpacked idb_out artifact is not a file: '' @ id0))
      | [] \<Rightarrow>
      (case (if ida_database_output_exists fs output then None else find (path_exists fs) (drop 1 (database_artifact_paths output))) of
        Some orphan \<Rightarrow>
          Inl (InvalidParams (''idb_out has an orphaned pre-existing database artifact ('' @ orphan @
            ''); choose another output path or remove the artifact after verifying it''))
      | None \<Rightarrow>
      (let parent = (case path_parent output of Some p \<Rightarrow> if p = [] then ''.'' else p | None \<Rightarrow> ''.'')
       in case fs parent of
            None \<Rightarrow> Inl (InvalidPath (''idb_out parent is unavailable ('' @ parent @ ''): '' @ stat_error parent))
          | Some m \<Rightarrow>
              if \<not> fm_dir m then Inl (InvalidPath (''idb_out parent is not a directory: '' @ parent))
              else if fm_readonly m then Inl (InvalidPath (''idb_out parent is read-only: '' @ parent))
              else Inr ())))"

section \<open>Artifacts of a failed open\<close>

record artifact_snapshot =
  as_path :: string
  as_before :: "(nat \<times> nat option) option"

definition artifact_identity :: "files \<Rightarrow> string \<Rightarrow> (nat \<times> nat option) option" where
  "artifact_identity fs path = map_option (\<lambda>m. (fm_len m, fm_modified m)) (fs path)"

definition snapshot_database_artifacts :: "files \<Rightarrow> string \<Rightarrow> artifact_snapshot list" where
  "snapshot_database_artifacts fs output =
     map (\<lambda>path. \<lparr>as_path = path, as_before = artifact_identity fs path\<rparr>) (database_artifact_paths output)"

text \<open>\<open>unlink_error\<close> answers whether a removal fails.\<close>

definition touched_by_this_call :: "artifact_snapshot \<Rightarrow> files \<Rightarrow> bool" where
  "touched_by_this_call a fs =
     (case (as_before a, artifact_identity fs (as_path a)) of
        (_, None) \<Rightarrow> False
      | (None, Some _) \<Rightarrow> True
      | (Some before, Some now) \<Rightarrow> before \<noteq> now)"

fun remove_new_database_artifacts :: "(string \<Rightarrow> string option) \<Rightarrow> artifact_snapshot list \<Rightarrow> files \<Rightarrow> files" where
  "remove_new_database_artifacts unlink_error [] fs = fs"
| "remove_new_database_artifacts unlink_error (a # as) fs =
     remove_new_database_artifacts unlink_error as
       (if touched_by_this_call a fs \<and> unlink_error (as_path a) = None then fs(as_path a := None) else fs)"

record disk =
  dk_files :: files
  dk_os :: os_state

definition release_on :: "os_faults \<Rightarrow> pid \<Rightarrow> mcp_lock \<Rightarrow> disk \<Rightarrow> disk" where
  "release_on f me lock dk = dk\<lparr>dk_os := release_mcp_lock_file f me lock (dk_os dk)\<rparr>"

definition cleanup_open_artifacts_before_unlock ::
  "(string \<Rightarrow> string option) \<Rightarrow> os_faults \<Rightarrow> pid \<Rightarrow> mcp_lock \<Rightarrow> artifact_snapshot list option \<Rightarrow> disk \<Rightarrow> disk" where
  "cleanup_open_artifacts_before_unlock unlink_error f me lock artifacts dk =
     release_on f me lock
       (case artifacts of
          None \<Rightarrow> dk
        | Some as \<Rightarrow> dk\<lparr>dk_files := remove_new_database_artifacts unlink_error as (dk_files dk)\<rparr>)"

section \<open>Opens of a killed worker\<close>

record raw_open_artifact_cleanup =
  rc_output :: string
  rc_artifacts :: "artifact_snapshot list"

definition WORKER_LOCK_RECLAIM_ATTEMPTS :: nat where "WORKER_LOCK_RECLAIM_ATTEMPTS = 20"

definition for_request :: "string option \<Rightarrow> files \<Rightarrow> string \<Rightarrow> string option \<Rightarrow> bool \<Rightarrow> raw_open_artifact_cleanup option" where
  "for_request home fs path idb_out rebuild =
     (let input = expand_path home path
      in if has_ida_database_extension input then None
         else let output = database_path_for_open_request home path idb_out
              in if \<not> rebuild \<and> ida_database_output_exists fs output then None
                 else Some \<lparr>rc_output = output, rc_artifacts = snapshot_database_artifacts fs output\<rparr>)"

text \<open>\<open>elapse n\<close> is what other processes do to the disk during the wait after attempt \<open>n\<close>.\<close>

fun reclaim_attempts ::
  "(string \<Rightarrow> string option) \<Rightarrow> os_faults \<Rightarrow> pid \<Rightarrow> (nat \<Rightarrow> disk \<Rightarrow> disk) \<Rightarrow> raw_open_artifact_cleanup
   \<Rightarrow> pid option \<Rightarrow> nat \<Rightarrow> nat \<Rightarrow> disk \<Rightarrow> disk" where
  "reclaim_attempts unlink_error f me elapse c worker_pid attempt 0 dk = dk"
| "reclaim_attempts unlink_error f me elapse c worker_pid attempt (Suc left) dk =
     (case reclaim_killed_worker_mcp_lock f me (rc_output c) worker_pid (dk_os dk) of
        (Some lock, os) \<Rightarrow>
          release_on f me lock
            (dk\<lparr>dk_os := os, dk_files := remove_new_database_artifacts unlink_error (rc_artifacts c) (dk_files dk)\<rparr>)
      | (None, os) \<Rightarrow>
          let dk = dk\<lparr>dk_os := os\<rparr>
          in reclaim_attempts unlink_error f me elapse c worker_pid (Suc attempt) left
               (if attempt + 1 < WORKER_LOCK_RECLAIM_ATTEMPTS then elapse attempt dk else dk))"

definition cleanup_after_worker_loss ::
  "(string \<Rightarrow> string option) \<Rightarrow> os_faults \<Rightarrow> pid \<Rightarrow> (nat \<Rightarrow> disk \<Rightarrow> disk) \<Rightarrow> raw_open_artifact_cleanup \<Rightarrow> pid option \<Rightarrow> disk \<Rightarrow> disk" where
  "cleanup_after_worker_loss unlink_error f me elapse c worker_pid dk =
     reclaim_attempts unlink_error f me elapse c worker_pid 0 WORKER_LOCK_RECLAIM_ATTEMPTS dk"

section \<open>IDA\<close>

text \<open>
  What \<open>idalib\<close> answers. Opening and dropping a database may change files; every other operation
  may change the database \<open>'db\<close>.
\<close>

record open_options =
  oo_auto_analyse :: bool
  oo_save :: bool
  oo_args :: "string list"
  oo_processor :: "string option"
  oo_base_address :: "u64 option"
  oo_entry_point :: "u64 option"
  oo_idb :: "string option"

definition plain_options :: "bool \<Rightarrow> string list \<Rightarrow> open_options" where
  "plain_options save init_args =
     \<lparr>oo_auto_analyse = False, oo_save = save, oo_args = init_args, oo_processor = None, oo_base_address = None,
      oo_entry_point = None, oo_idb = None\<rparr>"

record 'db idalib =
  il_open :: "open_options \<Rightarrow> string \<Rightarrow> files \<Rightarrow> (string + 'db) \<times> files"
  il_drop :: "'db \<Rightarrow> files \<Rightarrow> files"
  il_base_address :: "u64 \<Rightarrow> string option"
  il_path :: "'db \<Rightarrow> string"
  il_input_file_path :: "'db \<Rightarrow> string"
  il_input_file_sha256 :: "'db \<Rightarrow> digest"
  il_save_on_close :: "bool \<Rightarrow> 'db \<Rightarrow> 'db"
  il_is_64bit :: "'db \<Rightarrow> bool"
  il_is_32bit_exactly :: "'db \<Rightarrow> bool"
  il_set_app_bitness :: "nat \<Rightarrow> 'db \<Rightarrow> 'db"
  il_segments :: "'db \<Rightarrow> u64 list"
  il_set_segment_bitness :: "u64 \<Rightarrow> nat \<Rightarrow> 'db \<Rightarrow> bool \<times> 'db"
  il_segment_at :: "u64 \<Rightarrow> 'db \<Rightarrow> bool"
  il_is_thumb_at :: "u64 \<Rightarrow> 'db \<Rightarrow> bool"
  il_set_thumb_at :: "u64 \<Rightarrow> 'db \<Rightarrow> bool \<times> 'db"
  il_start_address :: "'db \<Rightarrow> u64 option"
  il_set_start_address :: "u64 \<Rightarrow> 'db \<Rightarrow> bool \<times> 'db"
  il_auto_wait :: "'db \<Rightarrow> bool \<times> 'db"
  il_is_code_at :: "u64 \<Rightarrow> 'db \<Rightarrow> bool"
  il_recreate_insn_at :: "u64 \<Rightarrow> 'db \<Rightarrow> bool \<times> 'db"
  il_save_database :: "'db \<Rightarrow> files \<Rightarrow> (string + string) \<times> 'db \<times> files"
  il_load_debug_info :: "string \<Rightarrow> bool \<Rightarrow> 'db \<Rightarrow> (string + bool) \<times> 'db"
  il_file_type :: "'db \<Rightarrow> string"
  il_loader :: "'db \<Rightarrow> string"
  il_processor :: "'db \<Rightarrow> string"
  il_function_count :: "'db \<Rightarrow> nat"
  il_analysis_status :: "'db \<Rightarrow> string"

record debug_info_load =
  di_path :: string
  di_loaded :: bool
  di_error :: "string option"

record db_info =
  dbi_path :: string
  dbi_file_type :: string
  dbi_loader :: string
  dbi_processor :: string
  dbi_bits :: nat
  dbi_function_count :: nat
  dbi_debug_info :: "debug_info_load option"
  dbi_analysis_status :: string

definition database_bitness :: "'db idalib \<Rightarrow> 'db \<Rightarrow> nat" where
  "database_bitness ida db = (if il_is_64bit ida db then 64 else if il_is_32bit_exactly ida db then 32 else 16)"

definition build_db_info :: "'db idalib \<Rightarrow> 'db \<Rightarrow> string \<Rightarrow> debug_info_load option \<Rightarrow> db_info" where
  "build_db_info ida db path debug_info =
     \<lparr>dbi_path = path, dbi_file_type = il_file_type ida db, dbi_loader = il_loader ida db,
      dbi_processor = il_processor ida db, dbi_bits = database_bitness ida db,
      dbi_function_count = il_function_count ida db, dbi_debug_info = debug_info,
      dbi_analysis_status = il_analysis_status ida db\<rparr>"

definition flush_analysis :: "'db idalib \<Rightarrow> 'db \<Rightarrow> files \<Rightarrow> 'db \<times> files" where
  "flush_analysis ida db fs = snd (il_save_database ida db fs)"

definition handle_save_database :: "'db idalib \<Rightarrow> 'db option \<Rightarrow> files \<Rightarrow> (tool_error + string) \<times> 'db option \<times> files" where
  "handle_save_database ida idb fs =
     (case idb of
        None \<Rightarrow> (Inl NoDatabaseOpen, None, fs)
      | Some db \<Rightarrow>
          (case il_save_database ida db fs of
             (Inl e, db, fs) \<Rightarrow> (Inl (IdaError e), Some db, fs)
           | (Inr path, db, fs) \<Rightarrow> (Inr path, Some db, fs)))"

definition open_existing_idb ::
  "'db idalib \<Rightarrow> string \<Rightarrow> string list \<Rightarrow> bool \<Rightarrow> files \<Rightarrow> (string + 'db \<times> string) \<times> files" where
  "open_existing_idb ida path init_args save fs =
     (case il_open ida (plain_options save init_args) path fs of
        (Inr db, fs1) \<Rightarrow> (Inr (db, path), fs1)
      | (Inl err, fs1) \<Rightarrow>
          (case unpacked_id0_path path of
             None \<Rightarrow> (Inl err, fs1)
           | Some id0 \<Rightarrow>
               if \<not> path_exists fs1 id0 then (Inl err, fs1)
               else (case il_open ida (plain_options save init_args) id0 fs1 of
                       (Inr db, fs2) \<Rightarrow> (Inr (db, id0), fs2)
                     | (Inl err2, fs2) \<Rightarrow> (Inl err2, fs2))))"

section \<open>Configuring a raw input\<close>

record raw_binary_target =
  rt_processor :: "string option"
  rt_bitness :: "nat option"
  rt_base_address :: "u64 option"
  rt_entry_point :: "u64 option"

definition target_is_empty :: "raw_binary_target \<Rightarrow> bool" where
  "target_is_empty t \<longleftrightarrow>
     rt_processor t = None \<and> rt_bitness t = None \<and> rt_base_address t = None \<and> rt_entry_point t = None"

fun set_segments_bitness :: "'db idalib \<Rightarrow> nat \<Rightarrow> u64 list \<Rightarrow> 'db \<Rightarrow> (tool_error + unit) \<times> 'db" where
  "set_segments_bitness ida bits [] db = (Inr (), db)"
| "set_segments_bitness ida bits (seg # segs) db =
     (case il_set_segment_bitness ida seg bits db of
        (False, db) \<Rightarrow> (Inl (OpenFailed (''failed to set '' @ show_nat bits @ ''-bit addressing for segment at '' @ lower_hex seg)), db)
      | (True, db) \<Rightarrow> set_segments_bitness ida bits segs db)"

definition configure_raw_bitness :: "'db idalib \<Rightarrow> nat \<Rightarrow> 'db \<Rightarrow> (tool_error + unit) \<times> 'db" where
  "configure_raw_bitness ida bits db =
     (let db = il_set_app_bitness ida bits db
      in case set_segments_bitness ida bits (il_segments ida db) db of
           (Inl e, db) \<Rightarrow> (Inl e, db)
         | (Inr _, db) \<Rightarrow>
             let actual = database_bitness ida db
             in if actual \<noteq> bits
                then (Inl (OpenFailed (''IDA reported '' @ show_nat actual @ ''-bit after requesting '' @ show_nat bits @ ''-bit raw input mode'')), db)
                else (Inr (), db))"

definition normalized_raw_entry_point :: "raw_binary_target \<Rightarrow> (u64 \<times> bool) option" where
  "normalized_raw_entry_point t =
     (case rt_entry_point t of
        None \<Rightarrow> None
      | Some entry_point \<Rightarrow>
          (let arm = (case rt_processor t of Some p \<Rightarrow> eq_ignore_ascii_case (hd (split_char (CHR '':'') p)) ''arm'' | None \<Rightarrow> False);
               thumb = (arm \<and> and entry_point 1 = 1)
           in Some (if thumb then and entry_point (not 1) else entry_point, thumb)))"

definition configure_raw_entry_point :: "'db idalib \<Rightarrow> u64 \<Rightarrow> bool \<Rightarrow> 'db \<Rightarrow> (tool_error + unit) \<times> 'db" where
  "configure_raw_entry_point ida entry_point thumb db =
     (if \<not> il_segment_at ida entry_point db
      then (Inl (OpenFailed (''raw entry point '' @ lower_hex entry_point @ '' is outside every loaded segment'')), db)
      else let (thumb_set, db) =
             (if thumb \<and> \<not> il_is_thumb_at ida entry_point db then il_set_thumb_at ida entry_point db else (True, db))
      in if \<not> thumb_set
         then (Inl (OpenFailed (''IDA refused Thumb state at raw entry point '' @ lower_hex entry_point)), db)
         else if thumb \<and> \<not> il_is_thumb_at ida entry_point db
         then (Inl (OpenFailed (''IDA did not retain Thumb state at raw entry point '' @ lower_hex entry_point)), db)
      else let (start_set, db) =
             (if il_start_address ida db \<noteq> Some entry_point then il_set_start_address ida entry_point db else (True, db))
      in if \<not> start_set then (Inl (OpenFailed (''IDA refused raw entry point '' @ lower_hex entry_point)), db)
         else if il_start_address ida db \<noteq> Some entry_point
         then (Inl (OpenFailed (''IDA did not retain requested raw entry point '' @ lower_hex entry_point)), db)
         else (Inr (), db))"

definition materialize_raw_entry_point :: "'db idalib \<Rightarrow> u64 \<Rightarrow> bool \<Rightarrow> 'db \<Rightarrow> (tool_error + unit) \<times> 'db" where
  "materialize_raw_entry_point ida entry_point thumb db =
     (if \<not> thumb then (Inr (), db)
      else let was_thumb = il_is_thumb_at ida entry_point db;
               (thumb_set, db) = (if \<not> was_thumb then il_set_thumb_at ida entry_point db else (True, db))
      in if \<not> thumb_set
         then (Inl (OpenFailed (''IDA refused Thumb state at raw entry point '' @ lower_hex entry_point @ '' after analysis'')), db)
         else if \<not> il_is_thumb_at ida entry_point db
         then (Inl (OpenFailed (''IDA did not retain Thumb state at raw entry point '' @ lower_hex entry_point @ '' after analysis'')), db)
      else let (created, db) =
             (if \<not> was_thumb \<or> \<not> il_is_code_at ida entry_point db then il_recreate_insn_at ida entry_point db else (True, db))
      in if \<not> created then (Inl (OpenFailed (''IDA could not create code at raw entry point '' @ lower_hex entry_point)), db)
         else if \<not> il_is_code_at ida entry_point db
         then (Inl (OpenFailed (''IDA did not retain code at raw entry point '' @ lower_hex entry_point)), db)
         else (Inr (), db))"

section \<open>Opening\<close>

text \<open>
  What one call reads besides its arguments and the disk: the process, the environment, hashing
  and the content of the input, cancellation, and what goes wrong in its file operations.
\<close>

record open_env =
  oe_pid :: pid
  oe_host :: string
  oe_exe :: string
  oe_now :: nat
  oe_home :: "string option"
  oe_canonicalize :: "string \<Rightarrow> string option"
  oe_sha :: "string \<Rightarrow> digest"
  oe_input :: "string + (string + string) list"
  oe_cancelled :: "poll \<Rightarrow> bool"
  oe_running :: "pid \<Rightarrow> bool"
  oe_stat_error :: "string \<Rightarrow> string"
  oe_unlink_error :: "string \<Rightarrow> string option"
  oe_clean_faults :: "string \<Rightarrow> os_faults"
  oe_lock_faults :: os_faults
  oe_release_faults :: os_faults

record open_request =
  or_path :: string
  or_load_debug_info :: bool
  or_debug_info_path :: "string option"
  or_debug_info_verbose :: bool
  or_force :: bool
  or_rebuild :: bool
  or_auto_analyse :: bool
  or_target :: raw_binary_target
  or_extra_args :: "string list"
  or_idb_out :: "string option"

record 'db open_state =
  os_idb :: "'db option"
  os_lock_file :: "inode option"
  os_lock_path :: "string option"
  os_disk :: disk

definition expanded_of :: "open_env \<Rightarrow> open_request \<Rightarrow> string" where
  "expanded_of env rq = expand_path (oe_home env) (or_path rq)"

definition is_idb_request :: "open_env \<Rightarrow> open_request \<Rightarrow> bool" where
  "is_idb_request env rq \<longleftrightarrow> has_ida_database_extension (expanded_of env rq)"

definition check_open_parameters :: "open_env \<Rightarrow> open_request \<Rightarrow> bool \<Rightarrow> tool_error + unit" where
  "check_open_parameters env rq database_open =
     (case ensure_not_cancelled (oe_cancelled env PollStart) of
        Inl e \<Rightarrow> Inl e
      | Inr _ \<Rightarrow>
          if is_idb_request env rq \<and> (or_idb_out rq \<noteq> None \<or> \<not> target_is_empty (or_target rq))
          then Inl (InvalidParams ''processor, bitness, base_address, entry_point, and idb_out apply only to a raw input'')
          else case filter (\<lambda>b. b mod 16 \<noteq> 0) (case rt_base_address (or_target rq) of Some b \<Rightarrow> [b] | None \<Rightarrow> []) of
            b # _ \<Rightarrow> Inl (InvalidParams (''raw base address '' @ lower_hex b @ '' must be 16-byte aligned''))
          | [] \<Rightarrow>
              if database_open \<and> \<not> target_is_empty (or_target rq)
              then Inl (InvalidParams ''raw target options only apply while creating a database; close the open database before retrying with processor, bitness, base_address, or entry_point'')
              else Inr ())"

definition open_while_open :: "'db idalib \<Rightarrow> open_env \<Rightarrow> open_request \<Rightarrow> string option \<Rightarrow> 'db \<Rightarrow> tool_error + db_info" where
  "open_while_open ida env rq effective_database_path db =
     (let current_path = (case effective_database_path of Some p \<Rightarrow> p | None \<Rightarrow> il_path ida db);
          same_database =
            (if is_idb_request env rq then Inr (database_paths_match current_path (expanded_of env rq))
             else open_database_matches_raw_request (oe_sha env) (oe_home env) (oe_canonicalize env)
                    (\<lambda>n. oe_cancelled env (PollRetryHash n)) (oe_input env)
                    (il_path ida db) effective_database_path (expanded_of env rq)
                    (map_option (expand_path (oe_home env)) (or_idb_out rq))
                    (il_input_file_path ida db) (il_input_file_sha256 ida db))
      in case same_database of
           Inl e \<Rightarrow> Inl e
         | Inr same \<Rightarrow>
             if same then Inr (build_db_info ida db current_path None) else Inl (DatabaseAlreadyOpen current_path))"

record open_plan =
  pl_raw_out :: "string option"
  pl_candidate :: "string option"
  pl_dsym :: "string option"

definition plan_open :: "open_env \<Rightarrow> open_request \<Rightarrow> files \<Rightarrow> tool_error + open_plan" where
  "plan_open env rq fs =
     (let expanded = expanded_of env rq
      in if \<not> ida_database_output_exists fs expanded then Inl (InvalidPath (''File not found: '' @ expanded))
         else if is_idb_request env rq then Inr \<lparr>pl_raw_out = None, pl_candidate = None, pl_dsym = None\<rparr>
         else let explicit = map_option (expand_path (oe_home env)) (or_idb_out rq);
                  out = (case explicit of Some out \<Rightarrow> out | None \<Rightarrow> idb_path_for_raw_binary expanded)
              in case validate_raw_idb_output (oe_canonicalize env) (oe_stat_error env) fs expanded out of
                   Inl e \<Rightarrow> Inl e
                 | Inr _ \<Rightarrow>
                     let generated = existing_idb_for_raw_open fs expanded explicit
                     in if generated \<noteq> None \<and> \<not> or_rebuild rq \<and> \<not> target_is_empty (or_target rq)
                        then Inl (InvalidParams ''raw target options cannot change an existing database; set rebuild=true to recreate it'')
                        else Inr \<lparr>pl_raw_out = Some out, pl_candidate = generated,
                                  pl_dsym = (if generated = None then dsym_path_for_binary fs expanded else None)\<rparr>)"

definition lock_target_path :: "open_env \<Rightarrow> open_request \<Rightarrow> open_plan \<Rightarrow> string" where
  "lock_target_path env rq plan = (case pl_raw_out plan of Some out \<Rightarrow> out | None \<Rightarrow> expanded_of env rq)"

definition force_clean :: "open_env \<Rightarrow> open_request \<Rightarrow> open_plan \<Rightarrow> os_state \<Rightarrow> os_state" where
  "force_clean env rq plan os =
     (if or_force rq
      then fold (\<lambda>candidate os. snd (clean_stale_mcp_lock (oe_clean_faults env candidate) (oe_running env) (oe_pid env) candidate os))
             [lock_target_path env rq plan, expanded_of env rq] os
      else os)"

text \<open>The text of a refusal depends on what the candidate database recorded.\<close>

definition provenance_refusal :: "open_request \<Rightarrow> string \<Rightarrow> string \<Rightarrow> digest \<Rightarrow> bool \<Rightarrow> tool_error" where
  "provenance_refusal rq candidate expanded recorded_hash path_matches =
     InvalidParams
       (if \<not> or_rebuild rq \<and> path_matches
        then if hash_recorded recorded_hash
             then candidate @ '' was created from this input path, but its recorded SHA-256 does not match the current file; open that database path directly to preserve its analysis, choose a different idb_out, or retry with rebuild=true to replace stale analysis''
             else candidate @ '' has no recorded input SHA-256 and cannot be reused automatically; open that database path directly to preserve its analysis, choose a different idb_out, or retry with rebuild=true to replace it because its recorded input path matches''
        else ''refusing to '' @ (if or_rebuild rq then ''overwrite'' else ''reuse'') @ '' '' @ candidate @
             '' because it is not provenance-matched to '' @ expanded @ ''; choose a different idb_out or remove the candidate after verifying it'')"

definition or_else_lock :: "pid \<Rightarrow> string list \<Rightarrow> tool_error \<Rightarrow> os_state \<Rightarrow> tool_error \<times> os_state" where
  "or_else_lock me paths err os =
     (case fold (\<lambda>p (r, os). if r = None then detect_db_lock me p os else (r, os)) paths (None, os) of
        (Some message, os) \<Rightarrow> (DatabaseLocked message, os)
      | (None, os) \<Rightarrow> (err, os))"

definition drop_on :: "'db idalib \<Rightarrow> 'db \<Rightarrow> disk \<Rightarrow> disk" where
  "drop_on ida db dk = dk\<lparr>dk_files := il_drop ida db (dk_files dk)\<rparr>"

text \<open>An existing output is inspected; \<open>Some\<close> database is to be reused, \<open>None\<close> to be created anew.\<close>

definition check_candidate ::
  "'db idalib \<Rightarrow> open_env \<Rightarrow> open_request \<Rightarrow> string option \<Rightarrow> mcp_lock \<Rightarrow> disk \<Rightarrow> (tool_error + ('db \<times> string) option) \<times> disk" where
  "check_candidate ida env rq candidate lock dk =
     (let me = oe_pid env; release = release_on (oe_release_faults env) me lock; expanded = expanded_of env rq
      in case candidate of
        None \<Rightarrow> (Inr None, dk)
      | Some candidate_path \<Rightarrow>
          (case open_existing_idb ida candidate_path (init_database_args (or_extra_args rq)) False (dk_files dk) of
             (Inl err, fs) \<Rightarrow>
               (let dk = release (dk\<lparr>dk_files := fs\<rparr>);
                    (e, os) = or_else_lock me [candidate_path]
                      (OpenFailed (''refusing to reuse or overwrite '' @ candidate_path @
                         '' because its input provenance could not be read: '' @ err)) (dk_os dk)
                in (Inl e, dk\<lparr>dk_os := os\<rparr>))
           | (Inr (db, opened_path), fs) \<Rightarrow>
               (let dk = dk\<lparr>dk_files := fs\<rparr>; recorded_hash = il_input_file_sha256 ida db
                in case ensure_not_cancelled (oe_cancelled env PollCandidate) of
                  Inl e \<Rightarrow> (Inl e, release (drop_on ida db dk))
                | Inr _ \<Rightarrow>
                    (case sha256_file (oe_sha env) expanded (\<lambda>n. oe_cancelled env (PollHash n)) (oe_input env) of
                       Inl e \<Rightarrow> (Inl e, release (drop_on ida db dk))
                     | Inr input_hash \<Rightarrow>
                         let path_matches = recorded_input_path_matches (oe_home env) (oe_canonicalize env) expanded (il_input_file_path ida db)
                         in case existing_raw_idb_action_of (or_rebuild rq) recorded_hash input_hash path_matches of
                              Some Reuse \<Rightarrow> (Inr (Some (il_save_on_close ida True db, opened_path)), dk)
                            | Some Rebuild \<Rightarrow> (Inr None, drop_on ida db dk)
                            | None \<Rightarrow> (Inl (provenance_refusal rq candidate_path expanded recorded_hash path_matches),
                                        release (drop_on ida db dk))))))"

definition open_raw :: "'db idalib \<Rightarrow> open_env \<Rightarrow> open_request \<Rightarrow> string \<Rightarrow> files \<Rightarrow> (string + 'db) \<times> files" where
  "open_raw ida env rq out fs =
     (let t = or_target rq
      in il_open ida
           \<lparr>oo_auto_analyse = (or_auto_analyse rq \<and> rt_bitness t = None \<and> rt_entry_point t = None),
            oo_save = True, oo_args = init_database_args (or_extra_args rq), oo_processor = rt_processor t,
            oo_base_address = rt_base_address t, oo_entry_point = map_option fst (normalized_raw_entry_point t),
            oo_idb = Some out\<rparr>
           (expanded_of env rq) fs)"

text \<open>The base address is refused before anything is opened; other failures clean up and look for a lock.\<close>

definition open_database ::
  "'db idalib \<Rightarrow> open_env \<Rightarrow> open_request \<Rightarrow> open_plan \<Rightarrow> ('db \<times> string) option \<Rightarrow> artifact_snapshot list option
   \<Rightarrow> mcp_lock \<Rightarrow> disk \<Rightarrow> (tool_error + 'db \<times> string) \<times> disk" where
  "open_database ida env rq plan reused owned lock dk =
     (let me = oe_pid env; expanded = expanded_of env rq;
          failed = (\<lambda>opened_path err dk.
            let dk = cleanup_open_artifacts_before_unlock (oe_unlink_error env) (oe_release_faults env) me lock owned dk;
                (e, os) = or_else_lock me [opened_path, expanded] (OpenFailed (opened_path @ '': '' @ err)) (dk_os dk)
            in (Inl e, dk\<lparr>dk_os := os\<rparr>))
      in case reused of
           Some found \<Rightarrow> (Inr found, dk)
         | None \<Rightarrow>
             if is_idb_request env rq
             then (case open_existing_idb ida expanded (init_database_args (or_extra_args rq)) True (dk_files dk) of
                     (Inr found, fs) \<Rightarrow> (Inr found, dk\<lparr>dk_files := fs\<rparr>)
                   | (Inl err, fs) \<Rightarrow> failed expanded err (dk\<lparr>dk_files := fs\<rparr>))
             else (case pl_raw_out plan of
                     None \<Rightarrow>
                       (Inl (OpenFailed ''raw binary output path was not initialized''),
                        dk\<lparr>dk_os := mcp_lock_drop (oe_release_faults env) me lock (dk_os dk)\<rparr>)
                   | Some out \<Rightarrow>
                       (case Option.bind (rt_base_address (or_target rq)) (il_base_address ida) of
                          Some err \<Rightarrow> (Inl (InvalidParams err), release_on (oe_release_faults env) me lock dk)
                        | None \<Rightarrow>
                            (case open_raw ida env rq out (dk_files dk) of
                               (Inr db, fs) \<Rightarrow> (Inr (db, out), dk\<lparr>dk_files := fs\<rparr>)
                             | (Inl err, fs) \<Rightarrow> failed out err (dk\<lparr>dk_files := fs\<rparr>)))))"

definition configure_database :: "'db idalib \<Rightarrow> open_env \<Rightarrow> open_request \<Rightarrow> 'db \<Rightarrow> (tool_error + unit) \<times> 'db" where
  "configure_database ida env rq db =
     (let t = or_target rq; entry = normalized_raw_entry_point t
      in case (case rt_bitness t of Some bits \<Rightarrow> configure_raw_bitness ida bits db | None \<Rightarrow> (Inr (), db)) of
           (Inl e, db) \<Rightarrow> (Inl e, db)
         | (Inr _, db) \<Rightarrow>
      (case (case entry of Some (a, thumb) \<Rightarrow> configure_raw_entry_point ida a thumb db | None \<Rightarrow> (Inr (), db)) of
           (Inl e, db) \<Rightarrow> (Inl e, db)
         | (Inr _, db) \<Rightarrow>
      (case (if or_auto_analyse rq \<and> (rt_bitness t \<noteq> None \<or> rt_entry_point t \<noteq> None) then il_auto_wait ida db else (True, db)) of
           (False, db) \<Rightarrow> (Inl (OpenFailed ''IDA auto-analysis did not complete after raw target configuration''), db)
         | (True, db) \<Rightarrow>
      (case (case entry of Some (a, thumb) \<Rightarrow> materialize_raw_entry_point ida a thumb db | None \<Rightarrow> (Inr (), db)) of
           (Inl e, db) \<Rightarrow> (Inl e, db)
         | (Inr _, db) \<Rightarrow> (ensure_not_cancelled (oe_cancelled env PollConfigured), db)))))"

definition debug_info_answer :: "string \<Rightarrow> string + bool \<Rightarrow> debug_info_load" where
  "debug_info_answer path answer =
     (case answer of
        Inr True \<Rightarrow> \<lparr>di_path = path, di_loaded = True, di_error = None\<rparr>
      | Inr False \<Rightarrow> \<lparr>di_path = path, di_loaded = False, di_error = Some ''load returned false''\<rparr>
      | Inl err \<Rightarrow> \<lparr>di_path = path, di_loaded = False, di_error = Some err\<rparr>)"

definition load_debug_information ::
  "'db idalib \<Rightarrow> open_env \<Rightarrow> open_request \<Rightarrow> open_plan \<Rightarrow> files \<Rightarrow> 'db \<Rightarrow> (tool_error + debug_info_load option) \<times> 'db" where
  "load_debug_information ida env rq plan fs db =
     (let expanded = expanded_of env rq
      in if or_load_debug_info rq
         then (case ensure_not_cancelled (oe_cancelled env PollDebugInfo) of
                 Inl e \<Rightarrow> (Inl e, db)
               | Inr _ \<Rightarrow>
                   let resolved = (case non_empty_trimmed (or_debug_info_path rq) of
                                     Some p \<Rightarrow> Some p
                                   | None \<Rightarrow> dsym_expected_path_for_binary
                                               (if is_idb_request env rq then base_input_path_for_database expanded else expanded))
                   in case resolved of
                        None \<Rightarrow> (Inr None, db)
                      | Some p \<Rightarrow>
                          if \<not> path_exists fs p
                          then (Inr (Some \<lparr>di_path = p, di_loaded = False, di_error = Some ''debug info not found''\<rparr>), db)
                          else (case il_load_debug_info ida p (or_debug_info_verbose rq) db of
                                  (answer, db) \<Rightarrow> (Inr (Some (debug_info_answer p answer)), db)))
         else (case pl_dsym plan of
                 None \<Rightarrow> (Inr None, db)
               | Some p \<Rightarrow>
                   if is_idb_request env rq then (Inr None, db)
                   else case ensure_not_cancelled (oe_cancelled env PollDebugInfo) of
                     Inl e \<Rightarrow> (Inl e, db)
                   | Inr _ \<Rightarrow> (Inr None, snd (il_load_debug_info ida p False db))))"

definition cleanup_failed_open ::
  "'db idalib \<Rightarrow> open_env \<Rightarrow> 'db \<Rightarrow> mcp_lock \<Rightarrow> artifact_snapshot list option \<Rightarrow> disk \<Rightarrow> disk" where
  "cleanup_failed_open ida env db lock owned dk =
     cleanup_open_artifacts_before_unlock (oe_unlink_error env) (oe_release_faults env) (oe_pid env) lock owned (drop_on ida db dk)"

text \<open>The part of the handler that runs with a fresh database and holds the lock.\<close>

definition finish_open ::
  "'db idalib \<Rightarrow> open_env \<Rightarrow> open_request \<Rightarrow> open_plan \<Rightarrow> artifact_snapshot list option \<Rightarrow> mcp_lock
   \<Rightarrow> 'db \<times> string \<Rightarrow> disk \<Rightarrow> (tool_error + db_info) \<times> 'db open_state" where
  "finish_open ida env rq plan owned lock found dk =
     (let closed = (\<lambda>e db dk.
            (Inl e, \<lparr>os_idb = None, os_lock_file = None, os_lock_path = None,
                     os_disk = cleanup_failed_open ida env db lock owned dk\<rparr>))
      in case configure_database ida env rq (fst found) of
           (Inl e, db) \<Rightarrow> closed e db dk
         | (Inr _, db) \<Rightarrow>
      (let (db, fs) = (if \<not> is_idb_request env rq \<and> or_auto_analyse rq then flush_analysis ida db (dk_files dk) else (db, dk_files dk));
           dk = dk\<lparr>dk_files := fs\<rparr>
       in case load_debug_information ida env rq plan (dk_files dk) db of
           (Inl e, db) \<Rightarrow> closed e db dk
         | (Inr debug_info, db) \<Rightarrow>
             (case ensure_not_cancelled (oe_cancelled env PollEnd) of
                Inl e \<Rightarrow> closed e db dk
              | Inr _ \<Rightarrow>
                  (Inr (build_db_info ida db (snd found) debug_info),
                   \<lparr>os_idb = Some db, os_lock_file = Some (fst (into_parts lock)), os_lock_path = Some (snd (into_parts lock)),
                    os_disk = dk\<rparr>))))"

text \<open>The handler from the acquired lock on.\<close>

definition open_locked ::
  "'db idalib \<Rightarrow> open_env \<Rightarrow> open_request \<Rightarrow> open_plan \<Rightarrow> mcp_lock \<Rightarrow> disk \<Rightarrow> 'db open_state \<Rightarrow> (tool_error + db_info) \<times> 'db open_state" where
  "open_locked ida env rq plan lock dk s =
     (case check_candidate ida env rq (pl_candidate plan) lock dk of
        (Inl e, dk) \<Rightarrow> (Inl e, s\<lparr>os_disk := dk\<rparr>)
      | (Inr reused, dk) \<Rightarrow>
          (let owned = (if \<not> is_idb_request env rq \<and> reused = None
                        then map_option (snapshot_database_artifacts (dk_files dk)) (pl_raw_out plan) else None)
           in case open_database ida env rq plan reused owned lock dk of
             (Inl e, dk) \<Rightarrow> (Inl e, s\<lparr>os_disk := dk\<rparr>)
           | (Inr found, dk) \<Rightarrow>
               (case finish_open ida env rq plan owned lock found dk of
                  (Inl e, t) \<Rightarrow> (Inl e, s\<lparr>os_disk := os_disk t\<rparr>)
                | (Inr info, t) \<Rightarrow> (Inr info, t))))"

definition handle_open ::
  "'db idalib \<Rightarrow> open_env \<Rightarrow> open_request \<Rightarrow> string option \<Rightarrow> 'db open_state \<Rightarrow> (tool_error + db_info) \<times> 'db open_state" where
  "handle_open ida env rq effective_database_path s =
     (case check_open_parameters env rq (os_idb s \<noteq> None) of
        Inl e \<Rightarrow> (Inl e, s)
      | Inr _ \<Rightarrow>
     (case os_idb s of
        Some db \<Rightarrow> (open_while_open ida env rq effective_database_path db, s)
      | None \<Rightarrow>
     (case plan_open env rq (dk_files (os_disk s)) of
        Inl e \<Rightarrow> (Inl e, s)
      | Inr plan \<Rightarrow>
          (case acquire_mcp_lock (oe_lock_faults env) (oe_pid env) (oe_host env) (oe_exe env) (oe_now env)
                  (lock_target_path env rq plan) (force_clean env rq plan (dk_os (os_disk s))) of
             (Inl e, os) \<Rightarrow> (Inl e, s\<lparr>os_disk := (os_disk s)\<lparr>dk_os := os\<rparr>\<rparr>)
           | (Inr lock, os) \<Rightarrow> open_locked ida env rq plan lock ((os_disk s)\<lparr>dk_os := os\<rparr>) s))))"

definition handle_load_debug_info ::
  "'db idalib \<Rightarrow> files \<Rightarrow> 'db option \<Rightarrow> string option \<Rightarrow> bool \<Rightarrow> (tool_error + string \<times> bool) \<times> 'db option" where
  "handle_load_debug_info ida fs idb path verbose =
     (case idb of
        None \<Rightarrow> (Inl NoDatabaseOpen, None)
      | Some db \<Rightarrow>
          (case (case path of Some p \<Rightarrow> Some p | None \<Rightarrow> dsym_path_for_binary fs (base_input_path_for_database (il_path ida db))) of
             None \<Rightarrow> (Inl (InvalidPath ''No sibling .dSYM found''), Some db)
           | Some resolved \<Rightarrow>
               if \<not> path_exists fs resolved then (Inl (InvalidPath (''File not found: '' @ resolved)), Some db)
               else (case il_load_debug_info ida resolved verbose db of
                       (Inl e, db) \<Rightarrow> (Inl (IdaError e), Some db)
                     | (Inr loaded, db) \<Rightarrow> (Inr (resolved, loaded), Some db))))"

section \<open>Locks of the process\<close>

definition no_lock :: "pid \<Rightarrow> os_state \<Rightarrow> bool" where
  "no_lock me os \<longleftrightarrow> (\<forall>i. os_locks os i \<noteq> Some me)"

definition only_lock :: "pid \<Rightarrow> inode \<Rightarrow> os_state \<Rightarrow> bool" where
  "only_lock me i os \<longleftrightarrow> (\<forall>j. os_locks os j = Some me \<longleftrightarrow> j = i)"

lemma close_file_no_lock: "no_lock me os \<Longrightarrow> no_lock me (close_file me i os)"
  by (simp add: no_lock_def close_file_def)

lemma close_file_only_lock: "only_lock me i os \<Longrightarrow> no_lock me (close_file me i os)"
  by (auto simp: no_lock_def only_lock_def close_file_def)

lemma remove_file_locks [simp]:
  "no_lock me (remove_file f p os) = no_lock me os" "only_lock me i (remove_file f p os) = only_lock me i os"
  by (simp_all add: remove_file_def unlink_def no_lock_def only_lock_def)

lemma set_content_locks [simp]:
  "no_lock me (set_content i c os) = no_lock me os" "only_lock me j (set_content i c os) = only_lock me j os"
  by (simp_all add: set_content_def no_lock_def only_lock_def)

lemma open_create_locks: "open_create p os = (i, os1) \<Longrightarrow> no_lock me os1 = no_lock me os"
  by (auto simp: open_create_def no_lock_def split: option.splits)

lemma try_lock_only: "try_lock_file me i os = Inr os1 \<Longrightarrow> no_lock me os \<Longrightarrow> only_lock me i os1"
  by (auto simp: try_lock_file_def no_lock_def only_lock_def split: if_splits)

lemma remove_mcp_lock_file_locks:
  assumes "only_lock me (ml_file lock) os" "remove_mcp_lock_file f me lock os = (r, os1)"
  shows "no_lock me os1"
  using assms by (auto simp: remove_mcp_lock_file_def into_parts_def close_file_only_lock split: if_splits)

lemma release_on_locks:
  "only_lock me (ml_file lock) (dk_os dk) \<Longrightarrow> no_lock me (dk_os (release_on f me lock dk))"
  using remove_mcp_lock_file_locks[of me lock "dk_os dk" f]
  by (cases "remove_mcp_lock_file f me lock (dk_os dk)") (simp add: release_on_def release_mcp_lock_file_def)

lemma mcp_lock_drop_locks: "only_lock me (ml_file lock) os \<Longrightarrow> no_lock me (mcp_lock_drop f me lock os)"
  by (simp add: mcp_lock_drop_def close_file_only_lock)

lemma reclaim_locks:
  assumes "no_lock me os" "reclaim_mcp_lock_path f me p expected os = (r, os1)"
  shows "case r of None \<Rightarrow> no_lock me os1 | Some lock \<Rightarrow> only_lock me (ml_file lock) os1"
  using assms
  by (auto simp: reclaim_mcp_lock_path_def intro: close_file_no_lock close_file_only_lock try_lock_only
      split: option.splits sum.splits if_splits)

lemma reclaim_remove_locks:
  assumes "no_lock me os"
  shows "no_lock me (snd (case reclaim_mcp_lock_path f me p x os of
           (Some lock, os2) \<Rightarrow>
             (case remove_mcp_lock_file f me lock os2 of (Inr _, os3) \<Rightarrow> (Some info, os3) | (Inl _, os3) \<Rightarrow> (None, os3))
         | (None, os2) \<Rightarrow> (None, os2)))"
proof (cases "reclaim_mcp_lock_path f me p x os")
  case (Pair r os2)
  show ?thesis
  proof (cases r)
    case None
    then show ?thesis using reclaim_locks[OF assms Pair] Pair by simp
  next
    case (Some lock)
    obtain r3 os3 where removed: "remove_mcp_lock_file f me lock os2 = (r3, os3)" by (metis surj_pair)
    have "no_lock me os3" using reclaim_locks[OF assms Pair] Some removed by (auto intro: remove_mcp_lock_file_locks)
    then show ?thesis using Pair Some removed by (simp split: sum.split)
  qed
qed

lemma read_lock_file_pid_locks: "no_lock me os \<Longrightarrow> read_lock_file_pid me p os = (x, os1) \<Longrightarrow> no_lock me os1"
  by (auto simp: read_lock_file_pid_def close_file_no_lock split: option.splits)

lemma clean_stale_locks:
  assumes "no_lock me os"
  shows "no_lock me (snd (clean_stale_mcp_lock f running me p os))"
proof (cases "read_lock_file_pid me (lock_path_of p) os")
  case (Pair x os1)
  then have "no_lock me os1" using assms read_lock_file_pid_locks by blast
  then show ?thesis using assms Pair
    by (cases x) (simp_all add: clean_stale_mcp_lock_def Let_def reclaim_remove_locks)
qed

lemma force_clean_locks: "no_lock (oe_pid env) os \<Longrightarrow> no_lock (oe_pid env) (force_clean env rq plan os)"
  by (simp add: force_clean_def clean_stale_locks)

lemma first_locked_locks: "no_lock me os \<Longrightarrow> no_lock me (snd (first_locked me cs os))"
  by (induction me cs os rule: first_locked.induct)
    (auto simp: locked_by_pid_def close_file_no_lock split: option.splits prod.splits)

lemma or_else_lock_locks:
  assumes "no_lock me os"
  shows "no_lock me (snd (or_else_lock me paths e os))"
proof -
  let ?f = "\<lambda>p (r, os). if r = None then detect_db_lock me p os else (r, os)"
  have step: "no_lock me (snd (fold ?f ps ros))" if "no_lock me (snd ros)" for ps ros
    using that
  proof (induction ps arbitrary: ros)
    case (Cons p ps)
    have "no_lock me (snd (?f p ros))"
      using Cons.prems by (cases ros) (simp add: detect_db_lock_def first_locked_locks)
    then show ?case using Cons.IH by simp
  qed simp
  show ?thesis
  proof (cases "fold ?f paths (None, os)")
    case (Pair r os1)
    then have "no_lock me os1" using step[of "(None, os)" paths] assms by simp
    then show ?thesis by (cases r) (simp_all add: or_else_lock_def Pair)
  qed
qed

lemma or_else_lock_eq: "or_else_lock me paths e os = (e1, os1) \<Longrightarrow> no_lock me os \<Longrightarrow> no_lock me os1"
  using or_else_lock_locks[of me os paths e] by simp

lemma try_lock_paths: "try_lock_file me i os = Inr os1 \<Longrightarrow> os_paths os1 = os_paths os"
  by (auto simp: try_lock_file_def split: if_splits)

lemma open_create_path: "open_create p os = (i, os1) \<Longrightarrow> os_paths os1 p = Some i"
  by (auto simp: open_create_def split: option.splits)

lemma acquire_locks:
  assumes free: "no_lock me os" and run: "acquire_mcp_lock f me host exe now p os = (r, os1)"
  shows "case r of Inl _ \<Rightarrow> no_lock me os1
         | Inr lock \<Rightarrow> only_lock me (ml_file lock) os1 \<and> ml_path lock = lock_path_of p \<and> os_paths os1 (ml_path lock) = Some (ml_file lock)"
proof (cases "of_open f")
  case None
  obtain i os2 where opened: "open_create (lock_path_of p) os = (i, os2)" by (metis surj_pair)
  have free2: "no_lock me os2" using free open_create_locks[OF opened] by simp
  show ?thesis
  proof (cases "try_lock_file me i os2")
    case (Inl holder)
    then show ?thesis using run None opened free2 by (auto simp: acquire_mcp_lock_def close_file_no_lock)
  next
    case (Inr os3)
    then have "only_lock me i os3" "os_paths os3 (lock_path_of p) = Some i"
      using try_lock_only[OF Inr free2] try_lock_paths[OF Inr] open_create_path[OF opened] by simp_all
    then show ?thesis using run None opened Inr by (auto simp: acquire_mcp_lock_def) (simp add: set_content_def)
  qed
qed (use free run in \<open>auto simp: acquire_mcp_lock_def Let_def\<close>)

section \<open>The lock of the output\<close>

text \<open>The output database of a request, as the pool computes it for the child that opens it.\<close>

definition output_of :: "open_env \<Rightarrow> open_request \<Rightarrow> string" where
  "output_of env rq = database_path_for_open_request (oe_home env) (or_path rq) (or_idb_out rq)"

lemma lock_target_output:
  assumes "plan_open env rq fs = Inr plan"
  shows "lock_target_path env rq plan = output_of env rq"
  using assms
  by (auto simp: plan_open_def lock_target_path_def output_of_def database_path_for_open_request_def is_idb_request_def
      expanded_of_def Let_def split: if_splits sum.splits option.splits)

lemma drop_on_os [simp]: "dk_os (drop_on ida db dk) = dk_os dk"
  by (simp add: drop_on_def)

lemma cleanup_locks:
  "only_lock me (ml_file lock) (dk_os dk) \<Longrightarrow> no_lock me (dk_os (cleanup_open_artifacts_before_unlock ue f me lock owned dk))"
  by (auto simp: cleanup_open_artifacts_before_unlock_def intro!: release_on_locks split: option.split)

lemma cleanup_failed_open_locks:
  "only_lock (oe_pid env) (ml_file lock) (dk_os dk) \<Longrightarrow> no_lock (oe_pid env) (dk_os (cleanup_failed_open ida env db lock owned dk))"
  by (simp add: cleanup_failed_open_def cleanup_locks)

lemma check_candidate_locks:
  assumes held: "only_lock (oe_pid env) (ml_file lock) (dk_os dk)"
    and run: "check_candidate ida env rq candidate lock dk = (r, dk1)"
  shows "case r of Inl _ \<Rightarrow> no_lock (oe_pid env) (dk_os dk1) | Inr _ \<Rightarrow> dk_os dk1 = dk_os dk"
  using run held
  by (auto simp: check_candidate_def Let_def release_on_locks intro: or_else_lock_eq split: option.splits prod.splits sum.splits existing_raw_idb_action.splits)

lemma open_database_locks:
  assumes held: "only_lock (oe_pid env) (ml_file lock) (dk_os dk)"
    and run: "open_database ida env rq plan reused owned lock dk = (r, dk1)"
  shows "case r of Inl _ \<Rightarrow> no_lock (oe_pid env) (dk_os dk1) | Inr _ \<Rightarrow> dk_os dk1 = dk_os dk"
  using run held
  by (auto simp: open_database_def Let_def cleanup_locks release_on_locks mcp_lock_drop_locks intro: or_else_lock_eq split: option.splits prod.splits sum.splits if_splits)

lemma finish_open_locks:
  assumes held: "only_lock (oe_pid env) (ml_file lock) (dk_os dk)"
    and run: "finish_open ida env rq plan owned lock found dk = (r, t)"
  shows "case r of Inl _ \<Rightarrow> os_idb t = None \<and> no_lock (oe_pid env) (dk_os (os_disk t))
         | Inr _ \<Rightarrow> os_idb t \<noteq> None \<and> os_lock_file t = Some (ml_file lock) \<and> os_lock_path t = Some (ml_path lock)
                    \<and> dk_os (os_disk t) = dk_os dk"
  using run held
  by (auto simp: finish_open_def Let_def cleanup_failed_open_locks into_parts_def split: prod.splits sum.splits if_splits)

lemma check_open_parameters_cases: "(\<exists>e. check_open_parameters env rq b = Inl e) \<or> check_open_parameters env rq b = Inr ()"
  by (cases "check_open_parameters env rq b") auto

text \<open>The steps under the lock, one after the other.\<close>

lemma open_lockedE:
  assumes "open_locked ida env rq plan lock dk s = (r, t)"
  obtains (refused) e dk1 where "check_candidate ida env rq (pl_candidate plan) lock dk = (Inl e, dk1)" "r = Inl e" "t = s\<lparr>os_disk := dk1\<rparr>"
  | (unopened) reused dk1 owned e dk2 where
      "check_candidate ida env rq (pl_candidate plan) lock dk = (Inr reused, dk1)"
      "owned = (if \<not> is_idb_request env rq \<and> reused = None
                then map_option (snapshot_database_artifacts (dk_files dk1)) (pl_raw_out plan) else None)"
      "open_database ida env rq plan reused owned lock dk1 = (Inl e, dk2)" "r = Inl e" "t = s\<lparr>os_disk := dk2\<rparr>"
  | (opened) reused dk1 owned found dk2 t1 where
      "check_candidate ida env rq (pl_candidate plan) lock dk = (Inr reused, dk1)"
      "owned = (if \<not> is_idb_request env rq \<and> reused = None
                then map_option (snapshot_database_artifacts (dk_files dk1)) (pl_raw_out plan) else None)"
      "open_database ida env rq plan reused owned lock dk1 = (Inr found, dk2)"
      "finish_open ida env rq plan owned lock found dk2 = (r, t1)"
      "t = (case r of Inl _ \<Rightarrow> s\<lparr>os_disk := os_disk t1\<rparr> | Inr _ \<Rightarrow> t1)"
  using assms by (auto simp: open_locked_def Let_def split: prod.splits sum.splits)

lemma open_locked_locks:
  assumes held: "only_lock (oe_pid env) (ml_file lock) (dk_os dk)" and closed: "os_idb s = None"
    and run: "open_locked ida env rq plan lock dk s = (r, t)"
  shows "case r of Inl _ \<Rightarrow> os_idb t = None \<and> no_lock (oe_pid env) (dk_os (os_disk t))
         | Inr _ \<Rightarrow> os_idb t \<noteq> None \<and> os_lock_file t = Some (ml_file lock) \<and> os_lock_path t = Some (ml_path lock)
                    \<and> dk_os (os_disk t) = dk_os dk"
  using run
proof (cases rule: open_lockedE)
  case (refused e dk1)
  then show ?thesis using check_candidate_locks[OF held refused(1)] closed by simp
next
  case (unopened reused dk1 owned e dk2)
  then have "only_lock (oe_pid env) (ml_file lock) (dk_os dk1)" using check_candidate_locks[OF held unopened(1)] held by simp
  then show ?thesis using open_database_locks[OF _ unopened(3)] unopened closed by simp
next
  case (opened reused dk1 owned found dk2 t1)
  have "dk_os dk1 = dk_os dk" using check_candidate_locks[OF held opened(1)] by simp
  moreover from this have "dk_os dk2 = dk_os dk1" using open_database_locks[OF _ opened(3)] held by simp
  ultimately show ?thesis using finish_open_locks[OF _ opened(4)] held closed opened(5) by (cases r) auto
qed

text \<open>
  C27: After opening a database the worker has the lock of its output exactly when it has the database. A
  successful open leaves the process with one lock, on the lock file of the output database of the request,
  the same one that the pool would look for if the worker was killed; after every failed open, wherever it
  failed, no lock of the process is left and no database is open.
\<close>

theorem open_lock_exact:
  assumes "os_idb s = None" "no_lock (oe_pid env) (dk_os (os_disk s))"
    and "handle_open ida env rq eff s = (r, t)"
  shows "case r of
           Inl _ \<Rightarrow> os_idb t = None \<and> no_lock (oe_pid env) (dk_os (os_disk t))
         | Inr _ \<Rightarrow> os_idb t \<noteq> None \<and> os_lock_path t = Some (lock_path_of (output_of env rq)) \<and>
             (\<exists>i. os_lock_file t = Some i \<and> only_lock (oe_pid env) i (dk_os (os_disk t))
               \<and> os_paths (dk_os (os_disk t)) (lock_path_of (output_of env rq)) = Some i)"
proof (cases "check_open_parameters env rq False")
  case params: (Inr u)
  show ?thesis
  proof (cases "plan_open env rq (dk_files (os_disk s))")
    case (Inr plan)
    obtain a os where acq: "acquire_mcp_lock (oe_lock_faults env) (oe_pid env) (oe_host env) (oe_exe env) (oe_now env)
        (lock_target_path env rq plan) (force_clean env rq plan (dk_os (os_disk s))) = (a, os)" by (metis surj_pair)
    note got = acquire_locks[OF force_clean_locks[OF assms(2)] acq]
    show ?thesis
    proof (cases a)
      case (Inl e)
      then show ?thesis using assms(1,3) params Inr acq got by (auto simp: handle_open_def)
    next
      case lock: (Inr lock)
      then have run: "open_locked ida env rq plan lock ((os_disk s)\<lparr>dk_os := os\<rparr>) s = (r, t)"
        using assms(1,3) params Inr acq by (simp add: handle_open_def)
      have "only_lock (oe_pid env) (ml_file lock) os" "ml_path lock = lock_path_of (output_of env rq)"
          "os_paths os (ml_path lock) = Some (ml_file lock)"
        using got lock lock_target_output[OF Inr] by auto
      then show ?thesis using open_locked_locks[OF _ assms(1) run] by (cases r) auto
    qed
  qed (use assms(1,2,3) params in \<open>auto simp: handle_open_def\<close>)
qed (use assms(1,2,3) in \<open>auto simp: handle_open_def\<close>)

section \<open>The files of a failed open\<close>

lemma removed_or_kept: "remove_new_database_artifacts ue as fs p = fs p \<or> remove_new_database_artifacts ue as fs p = None"
  by (induction ue as fs rule: remove_new_database_artifacts.induct) (auto split: if_splits)

lemma touched_absent: "fs (as_path a) = None \<Longrightarrow> \<not> touched_by_this_call a fs"
  by (simp add: touched_by_this_call_def artifact_identity_def split: option.split)

lemma touched_cong: "fs (as_path a) = fs' (as_path a) \<Longrightarrow> touched_by_this_call a fs = touched_by_this_call a fs'"
  by (simp add: touched_by_this_call_def artifact_identity_def)

lemma remove_untouched:
  "\<forall>a \<in> set as. as_path a = p \<longrightarrow> \<not> touched_by_this_call a fs \<Longrightarrow> remove_new_database_artifacts ue as fs p = fs p"
proof (induction as arbitrary: fs)
  case (Cons a as)
  define fs' where "fs' = (if touched_by_this_call a fs \<and> ue (as_path a) = None then fs(as_path a := None) else fs)"
  have same: "fs' p = fs p" using Cons.prems by (auto simp: fs'_def)
  have "\<not> touched_by_this_call b fs'" if "b \<in> set as" "as_path b = p" for b
    using that same touched_cong[of fs' b fs] Cons.prems by simp
  then show ?case using Cons.IH[of fs'] same by (simp add: fs'_def)
qed simp

lemma remove_touched:
  "a \<in> set as \<Longrightarrow> touched_by_this_call a fs \<Longrightarrow> ue (as_path a) = None \<Longrightarrow> remove_new_database_artifacts ue as fs (as_path a) = None"
proof (induction as arbitrary: fs)
  case (Cons b as)
  let ?fs = "if touched_by_this_call b fs \<and> ue (as_path b) = None then fs(as_path b := None) else fs"
  show ?case
  proof (cases "?fs (as_path a) = None")
    case True
    then show ?thesis using removed_or_kept[of ue as ?fs "as_path a"] by simp
  next
    case False
    then have same: "?fs (as_path a) = fs (as_path a)" by (auto split: if_splits)
    have "a \<noteq> b" using False Cons.prems(2,3) by auto
    moreover have "touched_by_this_call a ?fs" using same Cons.prems(2) touched_cong by blast
    ultimately show ?thesis using Cons by simp
  qed
qed simp

text \<open>What is left at an artifact path has the identity it had in the snapshot.\<close>

lemma remove_restores:
  assumes "p \<in> set (database_artifact_paths out)" "ue p = None"
  shows "artifact_identity (remove_new_database_artifacts ue (snapshot_database_artifacts fs0 out) fs) p \<in> {None, artifact_identity fs0 p}"
proof -
  let ?as = "snapshot_database_artifacts fs0 out" and ?a = "\<lparr>as_path = p, as_before = artifact_identity fs0 p\<rparr>"
  have a: "?a \<in> set ?as" and same: "\<And>b. b \<in> set ?as \<Longrightarrow> as_path b = p \<Longrightarrow> b = ?a"
    using assms(1) by (auto simp: snapshot_database_artifacts_def)
  show ?thesis
  proof (cases "touched_by_this_call ?a fs")
    case True
    then show ?thesis using remove_touched[OF a True] assms(2) by (simp add: artifact_identity_def)
  next
    case False
    have "remove_new_database_artifacts ue ?as fs p = fs p"
    proof (rule remove_untouched, intro ballI impI)
      fix b assume "b \<in> set ?as" "as_path b = p"
      then have "b = ?a" by (rule same)
      with False show "\<not> touched_by_this_call b fs" by simp
    qed
    then show ?thesis using False by (auto simp: touched_by_this_call_def artifact_identity_def split: option.splits)
  qed
qed

text \<open>The files outside \<open>W\<close>, where IDA does not write.\<close>

definition same_outside :: "string set \<Rightarrow> files \<Rightarrow> files \<Rightarrow> bool" where
  "same_outside W fs fs' \<longleftrightarrow> (\<forall>p. p \<notin> W \<longrightarrow> fs' p = fs p)"

definition ida_writes :: "string set \<Rightarrow> 'db idalib \<Rightarrow> bool" where
  "ida_writes W ida \<longleftrightarrow>
     (\<forall>opts p fs. same_outside W fs (snd (il_open ida opts p fs)))
     \<and> (\<forall>db fs. same_outside W fs (il_drop ida db fs))
     \<and> (\<forall>db fs. same_outside W fs (snd (snd (il_save_database ida db fs))))"

lemma same_outside_refl [simp]: "same_outside W fs fs"
  by (simp add: same_outside_def)

lemma same_outside_trans [trans]: "same_outside W fs fs1 \<Longrightarrow> same_outside W fs1 fs2 \<Longrightarrow> same_outside W fs fs2"
  by (simp add: same_outside_def)

lemma release_on_files [simp]: "dk_files (release_on f me lock dk) = dk_files dk"
  by (simp add: release_on_def)

definition owned_ok :: "string set \<Rightarrow> artifact_snapshot list option \<Rightarrow> files \<Rightarrow> bool" where
  "owned_ok W owned fs \<longleftrightarrow> (\<forall>as \<in> set_option owned. \<forall>a \<in> set as. as_path a \<notin> W \<longrightarrow> as_before a = artifact_identity fs (as_path a))"

lemma cleanup_outside:
  assumes "owned_ok W owned fs" "same_outside W fs (dk_files dk)"
  shows "same_outside W fs (dk_files (cleanup_open_artifacts_before_unlock ue f me lock owned dk))"
proof (cases owned)
  case (Some as)
  have "remove_new_database_artifacts ue as (dk_files dk) p = dk_files dk p" if "p \<notin> W" for p
  proof (rule remove_untouched, intro ballI impI)
    fix a assume a: "a \<in> set as" "as_path a = p"
    then have "as_before a = artifact_identity (dk_files dk) (as_path a)"
      using assms Some that by (auto simp: owned_ok_def same_outside_def artifact_identity_def)
    then show "\<not> touched_by_this_call a (dk_files dk)" by (simp add: touched_by_this_call_def split: option.split)
  qed
  then show ?thesis using assms(2) Some by (simp add: cleanup_open_artifacts_before_unlock_def same_outside_def)
qed (use assms(2) in \<open>simp add: cleanup_open_artifacts_before_unlock_def\<close>)

lemma open_outside: "ida_writes W ida \<Longrightarrow> il_open ida opts p fs = (r, fs1) \<Longrightarrow> same_outside W fs fs1"
  by (metis ida_writes_def snd_conv)

lemma drop_outside: "ida_writes W ida \<Longrightarrow> same_outside W fs fs1 \<Longrightarrow> same_outside W fs (il_drop ida db fs1)"
  by (auto simp: ida_writes_def intro: same_outside_trans)

lemma flush_outside: "ida_writes W ida \<Longrightarrow> flush_analysis ida db fs = (db1, fs1) \<Longrightarrow> same_outside W fs fs1"
  by (metis ida_writes_def flush_analysis_def snd_conv)

lemma open_existing_outside:
  assumes w: "ida_writes W ida"
  shows "open_existing_idb ida p args save fs = (r, fs1) \<Longrightarrow> same_outside W fs fs1"
  by (auto simp: open_existing_idb_def dest!: open_outside[OF w] intro: same_outside_trans split: prod.splits sum.splits option.splits if_splits)

lemma check_candidate_outside:
  assumes w: "ida_writes W ida"
  shows "check_candidate ida env rq candidate lock dk = (r, dk1) \<Longrightarrow> same_outside W (dk_files dk) (dk_files dk1)"
  by (auto simp: check_candidate_def Let_def drop_on_def dest!: open_existing_outside[OF w] intro: drop_outside[OF w]
      split: option.splits prod.splits sum.splits existing_raw_idb_action.splits)

lemma open_database_outside:
  assumes w: "ida_writes W ida"
    and "owned_ok W owned (dk_files dk)" "open_database ida env rq plan reused owned lock dk = (r, dk1)"
  shows "same_outside W (dk_files dk) (dk_files dk1)"
  using assms(2,3)
  by (auto simp: open_database_def open_raw_def Let_def intro!: cleanup_outside dest!: open_existing_outside[OF w] open_outside[OF w]
      split: option.splits prod.splits sum.splits if_splits)

lemma closed_outside:
  assumes "ida_writes W ida" "owned_ok W owned fs" "same_outside W fs (dk_files dk)"
  shows "same_outside W fs (dk_files (cleanup_failed_open ida env db lock owned dk))"
  using assms by (simp add: cleanup_failed_open_def cleanup_outside drop_on_def drop_outside)

lemma finish_open_outside:
  assumes w: "ida_writes W ida" and ok: "owned_ok W owned fs" "same_outside W fs (dk_files dk)"
    and run: "finish_open ida env rq plan owned lock found dk = (r, t)"
  shows "same_outside W fs (dk_files (os_disk t))"
proof -
  have flushed: "same_outside W fs fs1"
    if "(if c then flush_analysis ida db (dk_files dk) else (db, dk_files dk)) = (db1, fs1)" for c db db1 fs1
    using that ok(2) by (auto split: if_splits dest!: flush_outside[OF w] intro: same_outside_trans)
  show ?thesis
    using run flushed
    by (auto simp: finish_open_def Let_def ok intro!: closed_outside[OF w] split: prod.splits sum.splits)
qed

lemma open_locked_outside:
  assumes w: "ida_writes W ida" and run: "open_locked ida env rq plan lock dk s = (r, t)"
  shows "same_outside W (dk_files dk) (dk_files (os_disk t))"
  using run
proof (cases rule: open_lockedE)
  case refused
  then show ?thesis using check_candidate_outside[OF w] by simp
next
  case (unopened reused dk1 owned e dk2)
  have "owned_ok W owned (dk_files dk1)" by (auto simp: unopened(2) owned_ok_def snapshot_database_artifacts_def)
  then show ?thesis
    using check_candidate_outside[OF w unopened(1)] open_database_outside[OF w _ unopened(3)] unopened(5)
    by (auto intro: same_outside_trans)
next
  case (opened reused dk1 owned found dk2 t1)
  have ok: "owned_ok W owned (dk_files dk1)" by (auto simp: opened(2) owned_ok_def snapshot_database_artifacts_def)
  have "same_outside W (dk_files dk1) (dk_files (os_disk t1))"
    by (rule finish_open_outside[OF w ok open_database_outside[OF w ok opened(3)] opened(4)])
  then show ?thesis using check_candidate_outside[OF w opened(1)] opened(5) by (auto intro: same_outside_trans split: sum.split)
qed

text \<open>What reading the input to its end gives, and what its hash is the hash of.\<close>

fun content_of :: "(string + string) list \<Rightarrow> string option" where
  "content_of [] = Some []"
| "content_of (Inl _ # _) = None"
| "content_of (Inr bytes # reads) = (if bytes = [] then Some [] else map_option ((@) bytes) (content_of reads))"

lemma sha256_reader_content:
  "sha256_reader sha path cancelled n fed reads = Inr h \<Longrightarrow> \<exists>c. content_of reads = Some c \<and> h = sha (fed @ c)"
proof (induction sha path cancelled n fed reads rule: sha256_reader.induct)
  case (2 sha path cancelled n fed r reads)
  then show ?case by (cases r) (auto split: if_splits)
qed (auto split: if_splits)

lemma sha256_file_content:
  "sha256_file sha path cancelled input = Inr h \<Longrightarrow> \<exists>reads c. input = Inr reads \<and> content_of reads = Some c \<and> h = sha c"
  by (auto simp: sha256_file_def dest!: sha256_reader_content split: sum.splits)

lemma candidate_provenance:
  assumes "check_candidate ida env rq (Some candidate) lock dk = (Inr reused, dk1)"
  shows "\<exists>db opened fs reads content.
           open_existing_idb ida candidate (init_database_args (or_extra_args rq)) False (dk_files dk) = (Inr (db, opened), fs)
         \<and> oe_input env = Inr reads \<and> content_of reads = Some content
         \<and> existing_raw_idb_action_of (or_rebuild rq) (il_input_file_sha256 ida db) (oe_sha env content)
             (recorded_input_path_matches (oe_home env) (oe_canonicalize env) (expanded_of env rq) (il_input_file_path ida db)) \<noteq> None"
  using assms
  by (fastforce simp: check_candidate_def Let_def dest!: sha256_file_content
      split: prod.splits sum.splits option.splits existing_raw_idb_action.splits)

lemma action_cases:
  "existing_raw_idb_action_of rebuild recorded input matches = Some a \<longleftrightarrow>
     (case a of Reuse \<Rightarrow> \<not> rebuild \<and> hash_recorded recorded \<and> recorded = input
      | Rebuild \<Rightarrow> rebuild \<and> (hash_recorded recorded \<and> recorded = input \<or> matches))"
  by (auto simp: existing_raw_idb_action_of_def Let_def split: existing_raw_idb_action.split)

lemma handle_open_lockedE:
  assumes "handle_open ida env rq eff s = (r, t)" "os_idb s = None" "plan_open env rq (dk_files (os_disk s)) = Inr plan"
  obtains (early) e where "r = Inl e" "dk_files (os_disk t) = dk_files (os_disk s)"
  | (locked) lock dk where "dk_files dk = dk_files (os_disk s)" "open_locked ida env rq plan lock dk s = (r, t)"
  using assms
  by (auto simp: handle_open_def split: sum.splits prod.splits) (rule that(2)[rotated], assumption, simp)

text \<open>What opening does to the paths of the operating system: only those of the lock files of the request.\<close>

definition request_locks :: "open_env \<Rightarrow> open_request \<Rightarrow> string set" where
  "request_locks env rq = lock_path_of ` (if or_force rq then {output_of env rq, expanded_of env rq} else {output_of env rq})"

definition same_paths :: "string set \<Rightarrow> os_state \<Rightarrow> os_state \<Rightarrow> bool" where
  "same_paths L os os' \<longleftrightarrow> (\<forall>q. q \<notin> L \<longrightarrow> os_paths os' q = os_paths os q)"

lemma same_paths_refl [simp]: "same_paths L os os"
  by (simp add: same_paths_def)

lemma same_paths_trans [trans]: "same_paths L os os1 \<Longrightarrow> same_paths L os1 os2 \<Longrightarrow> same_paths L os os2"
  by (simp add: same_paths_def)

lemma close_file_paths [simp]: "os_paths (close_file me i os) = os_paths os"
  by (simp add: close_file_def)

lemma remove_lock_paths: "ml_path lock \<in> L \<Longrightarrow> same_paths L os (snd (remove_mcp_lock_file f me lock os))"
  by (auto simp: same_paths_def remove_mcp_lock_file_def into_parts_def remove_file_def unlink_def Let_def)

lemma release_on_paths [simp]: "ml_path lock \<in> L \<Longrightarrow> same_paths L (dk_os dk) (dk_os (release_on f me lock dk))"
  by (simp add: release_on_def release_mcp_lock_file_def remove_lock_paths)

lemma mcp_lock_drop_paths: "ml_path lock \<in> L \<Longrightarrow> same_paths L os (mcp_lock_drop f me lock os)"
  by (auto simp: same_paths_def mcp_lock_drop_def remove_file_def unlink_def)

lemma first_locked_paths: "os_paths (snd (first_locked me cs os)) = os_paths os"
  by (induction me cs os rule: first_locked.induct) (auto simp: locked_by_pid_def split: option.splits prod.splits)

lemma or_else_lock_paths: "or_else_lock me paths e os = (r, os1) \<Longrightarrow> same_paths L os os1"
proof -
  assume run: "or_else_lock me paths e os = (r, os1)"
  let ?f = "\<lambda>p (r, os). if r = None then detect_db_lock me p os else (r, os)"
  have step: "os_paths (snd (fold ?f ps ros)) = os_paths (snd ros)" for ps ros
  proof (induction ps arbitrary: ros)
    case (Cons p ps)
    have "os_paths (snd (?f p ros)) = os_paths (snd ros)"
      by (cases ros) (simp add: detect_db_lock_def first_locked_paths)
    then show ?case using Cons.IH by simp
  qed simp
  show ?thesis using run step[of paths "(None, os)"]
    by (auto simp: or_else_lock_def same_paths_def split: prod.splits option.splits)
qed

lemma reclaim_paths:
  assumes "reclaim_mcp_lock_path f me p expected os = (r, os1)"
  shows "os_paths os1 = os_paths os \<and> (\<forall>lock. r = Some lock \<longrightarrow> ml_path lock = p)"
  using assms by (auto simp: reclaim_mcp_lock_path_def dest!: try_lock_paths split: option.splits sum.splits if_splits)

lemma reclaim_remove_paths:
  assumes "p \<in> L"
  shows "same_paths L os (snd (case reclaim_mcp_lock_path f me p x os of
           (Some lock, os2) \<Rightarrow>
             (case remove_mcp_lock_file f me lock os2 of (Inr _, os3) \<Rightarrow> (Some info, os3) | (Inl _, os3) \<Rightarrow> (None, os3))
         | (None, os2) \<Rightarrow> (None, os2)))"
proof (cases "reclaim_mcp_lock_path f me p x os")
  case (Pair r os2)
  note paths = reclaim_paths[OF Pair]
  show ?thesis
  proof (cases r)
    case (Some lock)
    then have "same_paths L os2 (snd (remove_mcp_lock_file f me lock os2))" using paths assms by (intro remove_lock_paths) simp
    then show ?thesis using Pair Some paths
      by (cases "remove_mcp_lock_file f me lock os2") (simp add: same_paths_def split: sum.split)
  qed (use Pair paths in \<open>simp add: same_paths_def\<close>)
qed

lemma clean_stale_paths:
  assumes "lock_path_of p \<in> L"
  shows "same_paths L os (snd (clean_stale_mcp_lock f running me p os))"
proof (cases "read_lock_file_pid me (lock_path_of p) os")
  case (Pair x os1)
  then have os1: "os_paths os1 = os_paths os" by (auto simp: read_lock_file_pid_def split: option.splits)
  have "same_paths L os1 (snd (clean_stale_mcp_lock f running me p os)) \<or> snd (clean_stale_mcp_lock f running me p os) = os"
    using Pair by (cases x) (simp_all add: clean_stale_mcp_lock_def Let_def reclaim_remove_paths[OF assms])
  then show ?thesis using os1 by (auto simp: same_paths_def)
qed

lemma force_clean_paths:
  assumes "lock_target_path env rq plan = output_of env rq"
  shows "same_paths (request_locks env rq) os (force_clean env rq plan os)"
proof (cases "or_force rq")
  case True
  then have "lock_path_of (output_of env rq) \<in> request_locks env rq" "lock_path_of (expanded_of env rq) \<in> request_locks env rq"
    by (simp_all add: request_locks_def)
  then show ?thesis using True
    by (auto simp: force_clean_def assms intro: same_paths_trans clean_stale_paths)
qed (simp add: force_clean_def)

lemma acquire_paths:
  assumes "acquire_mcp_lock f me host exe now p os = (r, os1)" "lock_path_of p \<in> L"
  shows "same_paths L os os1"
  using assms
  by (auto simp: acquire_mcp_lock_def Let_def same_paths_def open_create_def set_content_def
      dest!: try_lock_paths split: option.splits sum.splits prod.splits if_splits)

lemma cleanup_paths: "ml_path lock \<in> L \<Longrightarrow>
    same_paths L (dk_os dk) (dk_os (cleanup_open_artifacts_before_unlock ue f me lock owned dk))"
  by (cases owned) (simp_all add: cleanup_open_artifacts_before_unlock_def release_on_def release_mcp_lock_file_def remove_lock_paths)

lemma check_candidate_paths:
  assumes held: "ml_path lock \<in> L"
    and run: "check_candidate ida env rq candidate lock dk = (r, dk1)"
  shows "same_paths L (dk_os dk) (dk_os dk1)"
proof -
  have keep: "same_paths L (dk_os dk') os1"
    if "or_else_lock me paths e (dk_os (release_on f me lock dk')) = (e1, os1)" for f me paths e dk' e1 os1
    using release_on_paths[OF held] or_else_lock_paths[OF that] by (rule same_paths_trans)
  have drop: "same_paths L (dk_os dk') (dk_os (release_on f me lock (drop_on ida db dk')))" for f me db dk'
    using release_on_paths[OF held, of "drop_on ida db dk'"] by simp
  show ?thesis using run keep[of _ _ _ _ "dk\<lparr>dk_files := fs\<rparr>" for fs] drop[of "dk\<lparr>dk_files := fs\<rparr>" for fs]
    by (fastforce simp: check_candidate_def Let_def split: option.splits prod.splits sum.splits existing_raw_idb_action.splits)
qed

lemma open_database_paths:
  assumes held: "ml_path lock \<in> L"
    and run: "open_database ida env rq plan reused owned lock dk = (r, dk1)"
  shows "same_paths L (dk_os dk) (dk_os dk1)"
proof -
  have keep: "same_paths L (dk_os dk') os1"
    if "or_else_lock me paths e (dk_os (cleanup_open_artifacts_before_unlock ue f me lock owned dk')) = (e1, os1)" for ue f me paths e dk' e1 os1
    using cleanup_paths[OF held] or_else_lock_paths[OF that] by (rule same_paths_trans)
  show ?thesis using run keep[of _ _ _ _ _ "dk\<lparr>dk_files := fs\<rparr>" for fs] release_on_paths[OF held] mcp_lock_drop_paths[OF held]
    by (fastforce simp: open_database_def Let_def split: option.splits prod.splits sum.splits if_splits)
qed

lemma finish_open_paths:
  assumes held: "ml_path lock \<in> L"
    and run: "finish_open ida env rq plan owned lock found dk = (r, t)"
  shows "same_paths L (dk_os dk) (dk_os (os_disk t))"
proof -
  have keep: "same_paths L (dk_os dk') (dk_os (cleanup_failed_open ida env db lock owned dk'))" for db dk'
    using cleanup_paths[OF held, of "drop_on ida db dk'"] by (simp add: cleanup_failed_open_def)
  show ?thesis using run keep[of dk] keep[of "dk\<lparr>dk_files := fs\<rparr>" for fs]
    by (auto simp: finish_open_def Let_def split: prod.splits sum.splits if_splits)
qed

lemma open_locked_paths:
  assumes held: "ml_path lock \<in> L" and run: "open_locked ida env rq plan lock dk s = (r, t)"
  shows "same_paths L (dk_os dk) (dk_os (os_disk t))"
  using run
proof (cases rule: open_lockedE)
  case refused
  then show ?thesis using check_candidate_paths[OF held] by simp
next
  case unopened
  then show ?thesis using same_paths_trans[OF check_candidate_paths[OF held unopened(1)] open_database_paths[OF held unopened(3)]] by simp
next
  case opened
  then show ?thesis
    using same_paths_trans[OF same_paths_trans[OF check_candidate_paths[OF held opened(1)] open_database_paths[OF held opened(3)]]
        finish_open_paths[OF held opened(4)]]
    by (simp split: sum.split)
qed

lemma handle_open_paths:
  assumes run: "handle_open ida env rq eff s = (r, t)"
  shows "same_paths (request_locks env rq) (dk_os (os_disk s)) (dk_os (os_disk t))"
proof (cases "check_open_parameters env rq (os_idb s \<noteq> None)")
  case params: (Inr u)
  show ?thesis
  proof (cases "os_idb s = None \<and> (\<exists>plan. plan_open env rq (dk_files (os_disk s)) = Inr plan)")
    case True
    then obtain plan where plan: "os_idb s = None" "plan_open env rq (dk_files (os_disk s)) = Inr plan" by blast
    note target = lock_target_output[OF plan(2)]
    have out: "lock_path_of (output_of env rq) \<in> request_locks env rq" by (simp add: request_locks_def)
    obtain a os where acq: "acquire_mcp_lock (oe_lock_faults env) (oe_pid env) (oe_host env) (oe_exe env) (oe_now env)
        (output_of env rq) (force_clean env rq plan (dk_os (os_disk s))) = (a, os)" by (metis surj_pair)
    have os: "same_paths (request_locks env rq) (dk_os (os_disk s)) os"
      using force_clean_paths[OF target] acquire_paths[OF acq out] by (rule same_paths_trans)
    show ?thesis
    proof (cases a)
      case (Inl e)
      then show ?thesis using run params plan acq os target by (auto simp: handle_open_def)
    next
      case (Inr lock)
      then have locked: "open_locked ida env rq plan lock ((os_disk s)\<lparr>dk_os := os\<rparr>) s = (r, t)"
        using run params plan acq target by (simp add: handle_open_def)
      have "ml_path lock \<in> request_locks env rq"
        using acq Inr out by (auto simp: acquire_mcp_lock_def Let_def split: option.splits sum.splits prod.splits)
      from same_paths_trans[OF os open_locked_paths[OF this locked, simplified]] show ?thesis .
    qed
  qed (use run params in \<open>auto simp: handle_open_def split: sum.splits option.splits\<close>)
qed (use run in \<open>auto simp: handle_open_def\<close>)

text \<open>
  C28: IDA's files and the lock files aside, opening touches nothing: whatever the request and its result, a
  file that IDA itself does not write is the file it was, and a path that is not the \<open>.imcp\<close> lock file of the
  output, or with \<open>force\<close> of the input, names what it named. Above all, a failed rebuild never deletes the
  database it was to replace unless IDA had begun to rewrite it.
\<close>

theorem open_spares_files:
  assumes "ida_writes W ida" "p \<notin> W" "p \<notin> request_locks env rq" "handle_open ida env rq eff s = (r, t)"
  shows "dk_files (os_disk t) p = dk_files (os_disk s) p \<and> os_paths (dk_os (os_disk t)) p = os_paths (dk_os (os_disk s)) p"
proof
  show "os_paths (dk_os (os_disk t)) p = os_paths (dk_os (os_disk s)) p"
    using handle_open_paths[OF assms(4)] assms(3) by (simp add: same_paths_def)
  show "dk_files (os_disk t) p = dk_files (os_disk s) p"
  proof (cases "os_idb s")
    case (Some db)
    then show ?thesis using assms(4) by (auto simp: handle_open_def split: sum.splits)
  next
    case closed: None
    show ?thesis
    proof (cases "plan_open env rq (dk_files (os_disk s))")
      case (Inr plan)
      from assms(4) closed Inr show ?thesis
      proof (cases rule: handle_open_lockedE)
        case (locked lock dk)
        then show ?thesis using open_locked_outside[OF assms(1) locked(2)] assms(2) by (simp add: same_outside_def)
      qed simp
    qed (use assms(4) closed in \<open>auto simp: handle_open_def split: sum.splits\<close>)
  qed
qed

text \<open>
  C30: An existing output is used only with proven provenance. If opening a raw input succeeds although its
  output database existed, the input was read to its end, and without \<open>rebuild\<close> the hash that the database
  recorded is the hash of that content; with \<open>rebuild\<close> it is, or the database recorded this input path.
\<close>

theorem reuse_needs_provenance:
  assumes "handle_open ida env rq eff s = (Inr info, t)" "os_idb s = None"
    and "plan_open env rq (dk_files (os_disk s)) = Inr plan" "pl_candidate plan = Some candidate"
  shows "\<exists>db opened fs reads content.
           open_existing_idb ida candidate (init_database_args (or_extra_args rq)) False (dk_files (os_disk s)) = (Inr (db, opened), fs)
         \<and> oe_input env = Inr reads \<and> content_of reads = Some content
         \<and> (hash_recorded (il_input_file_sha256 ida db) \<and> il_input_file_sha256 ida db = oe_sha env content
            \<or> or_rebuild rq \<and> recorded_input_path_matches (oe_home env) (oe_canonicalize env) (expanded_of env rq) (il_input_file_path ida db))"
  using assms(1,2,3)
proof (cases rule: handle_open_lockedE)
  case (locked lock dk)
  from locked(2) obtain reused dk1 where "check_candidate ida env rq (Some candidate) lock dk = (Inr reused, dk1)"
    by (cases rule: open_lockedE) (use assms(4) in auto)
  from candidate_provenance[OF this] show ?thesis
    by (auto simp: locked(1) action_cases split: existing_raw_idb_action.splits)
qed simp

lemma cleanup_restores:
  assumes "p \<in> set (database_artifact_paths out)" "ue p = None"
  shows "artifact_identity (dk_files (cleanup_open_artifacts_before_unlock ue f me lock (Some (snapshot_database_artifacts fs out)) dk)) p
           \<in> {None, artifact_identity fs p}"
  using remove_restores[where ue = ue, OF assms] by (simp add: cleanup_open_artifacts_before_unlock_def)

lemma open_database_restores:
  assumes "p \<in> set (database_artifact_paths out)" "\<forall>p. oe_unlink_error env p = None" "\<not> is_idb_request env rq"
    and "open_database ida env rq plan None (Some (snapshot_database_artifacts (dk_files dk) out)) lock dk = (Inl e, dk1)"
  shows "artifact_identity (dk_files dk1) p \<in> {None, artifact_identity (dk_files dk) p}"
proof -
  define P where "P fs \<longleftrightarrow> artifact_identity fs p \<in> {None, artifact_identity (dk_files dk) p}" for fs
  have kept: "P (dk_files (cleanup_open_artifacts_before_unlock (oe_unlink_error env) f me lock (Some (snapshot_database_artifacts (dk_files dk) out)) dk'))" for f me lock dk'
    unfolding P_def using assms(1,2) by (intro cleanup_restores) simp_all
  have "P (dk_files dk)" by (simp add: P_def)
  then have "P (dk_files dk1)" using assms(3,4) kept
    by (auto simp: open_database_def Let_def split: option.splits prod.splits sum.splits)
  then show ?thesis by (simp add: P_def)
qed

lemma finish_open_restores:
  assumes "p \<in> set (database_artifact_paths out)" "\<forall>p. oe_unlink_error env p = None"
    and "finish_open ida env rq plan (Some (snapshot_database_artifacts fs out)) lock found dk = (Inl e, t)"
  shows "artifact_identity (dk_files (os_disk t)) p \<in> {None, artifact_identity fs p}"
proof -
  define P where "P fs' \<longleftrightarrow> artifact_identity fs' p \<in> {None, artifact_identity fs p}" for fs'
  have kept: "P (dk_files (cleanup_failed_open ida env db lock (Some (snapshot_database_artifacts fs out)) dk'))" for db dk'
    unfolding P_def cleanup_failed_open_def using assms(1,2) by (intro cleanup_restores) simp_all
  have "P (dk_files (os_disk t))" using assms(3) kept
    by (auto simp: finish_open_def Let_def split: prod.splits sum.splits)
  then show ?thesis by (simp add: P_def)
qed

lemma fresh_output:
  assumes "plan_open env rq fs = Inr plan" "pl_candidate plan = None" "\<not> is_idb_request env rq"
  shows "\<exists>out. pl_raw_out plan = Some out \<and> (\<forall>p \<in> set (database_artifact_paths out). fs p = None)"
proof -
  define explicit where "explicit = map_option (expand_path (oe_home env)) (or_idb_out rq)"
  define out where "out = (case explicit of Some out \<Rightarrow> out | None \<Rightarrow> idb_path_for_raw_binary (expanded_of env rq))"
  have plan: "validate_raw_idb_output (oe_canonicalize env) (oe_stat_error env) fs (expanded_of env rq) out = Inr ()"
      "pl_raw_out plan = Some out" "existing_idb_for_raw_open fs (expanded_of env rq) explicit = None"
    using assms by (auto simp: plan_open_def Let_def explicit_def out_def split: if_splits sum.splits)
  have absent: "\<not> ida_database_output_exists fs out"
    using plan(3) by (auto simp: existing_idb_for_raw_open_def existing_idb_for_raw_binary_def out_def Let_def split: option.splits if_splits)
  have "find (path_exists fs) (drop 1 (database_artifact_paths out)) = None"
    using plan(1) absent by (auto simp: validate_raw_idb_output_def split: if_splits option.splits list.splits)
  then have "\<forall>p \<in> set (drop 1 (database_artifact_paths out)). \<not> path_exists fs p" by (simp add: find_None_iff)
  moreover have "\<not> path_exists fs out" using absent by (simp add: ida_database_output_exists_def)
  moreover have "set (database_artifact_paths out) = insert out (set (drop 1 (database_artifact_paths out)))"
    by (simp add: database_artifact_paths_def)
  ultimately show ?thesis using plan(2) by (simp add: path_exists_def)
qed

text \<open>
  C29: A failed open of a raw input leaves nothing behind. If the output did not exist, and files can be
  removed, then after the failure, wherever it happened and whatever IDA wrote, none of the files of the
  output database exists, so that a later call cannot take a partial database for a finished one.
\<close>

theorem failed_raw_open_undone:
  assumes "handle_open ida env rq eff s = (Inl e, t)" "os_idb s = None" "\<not> is_idb_request env rq"
    and plan: "plan_open env rq (dk_files (os_disk s)) = Inr plan" "pl_candidate plan = None" "pl_raw_out plan = Some out"
    and "\<forall>p. oe_unlink_error env p = None" "p \<in> set (database_artifact_paths out)"
  shows "dk_files (os_disk t) p = None"
proof -
  have before: "dk_files (os_disk s) p = None" using fresh_output[OF plan(1,2) assms(3)] plan(3) assms(8) by auto
  have gone: "fs' p = None" if "artifact_identity fs' p \<in> {None, artifact_identity (dk_files (os_disk s)) p}" for fs'
    using that before by (auto simp: artifact_identity_def)
  from assms(1,2) plan(1) show ?thesis
  proof (cases rule: handle_open_lockedE)
    case (locked lock dk)
    have candidate: "check_candidate ida env rq (pl_candidate plan) lock dk = (Inr None, dk)"
      by (simp add: plan(2) check_candidate_def)
    from locked(2) show ?thesis
    proof (cases rule: open_lockedE)
      case (unopened reused dk1 owned e dk2)
      then show ?thesis using candidate assms(3,7,8) plan(3) locked(1) open_database_restores[of p out env rq ida plan dk lock e dk2]
        by (auto intro!: gone)
    next
      case (opened reused dk1 owned found dk2 t1)
      then show ?thesis using candidate assms(3,7,8) plan(3) locked(1) finish_open_restores[of p out env ida rq plan "dk_files dk" lock found dk2 e t1]
        by (auto intro!: gone)
    qed (use candidate in simp)
  qed (simp add: before)
qed

text \<open>
  Cleaning up after a killed worker: a file disappears only if this open changed it, and only when the lock file
  of the output was seen with the process id of that worker.
\<close>

lemma reclaim_killed_recorded:
  assumes "reclaim_killed_worker_mcp_lock f me out worker os = (Some lock, os1)"
  shows "\<exists>w i. worker = Some w \<and> os_paths os (lock_path_of out) = Some i \<and> read_lock_file_pid_from_file i os = Some w"
proof (cases worker)
  case (Some w)
  then have "reclaim_mcp_lock_path f me (lock_path_of out) (Some w) os = (Some lock, os1)"
    using assms by (simp add: reclaim_killed_worker_mcp_lock_def)
  then obtain i os2 where "os_paths os (lock_path_of out) = Some i" "try_lock_file me i os = Inr os2" "read_lock_file_pid_from_file i os2 = Some w"
    by (auto simp: reclaim_mcp_lock_path_def split: option.splits sum.splits if_splits)
  moreover from this have "os_content os2 = os_content os" by (auto simp: try_lock_file_def split: if_splits)
  ultimately show ?thesis using Some by (simp add: read_lock_file_pid_from_file_def)
qed (use assms in \<open>simp add: reclaim_killed_worker_mcp_lock_def\<close>)

lemma reclaim_attempts_owned:
  assumes "\<And>n dk. dk_files (elapse n dk) = dk_files dk"
    and "dk_files (reclaim_attempts ue f me elapse c worker attempt left dk) p \<noteq> dk_files dk p"
  shows "(\<exists>a \<in> set (rc_artifacts c). as_path a = p \<and> touched_by_this_call a (dk_files dk))
    \<and> (\<exists>w i os. worker = Some w \<and> os_paths os (lock_path_of (rc_output c)) = Some i \<and> read_lock_file_pid_from_file i os = Some w)"
  using assms(2)
proof (induction left arbitrary: attempt dk)
  case (Suc left)
  obtain l os where reclaim: "reclaim_killed_worker_mcp_lock f me (rc_output c) worker (dk_os dk) = (l, os)" by (metis surj_pair)
  show ?case
  proof (cases l)
    case None
    define dk1 where "dk1 = (if attempt + 1 < WORKER_LOCK_RECLAIM_ATTEMPTS then elapse attempt (dk\<lparr>dk_os := os\<rparr>) else dk\<lparr>dk_os := os\<rparr>)"
    have "dk_files dk1 = dk_files dk" by (simp add: dk1_def assms(1))
    then show ?thesis using Suc.prems Suc.IH[of "Suc attempt" dk1] reclaim None by (simp add: dk1_def Let_def)
  next
    case (Some lock)
    then have "remove_new_database_artifacts ue (rc_artifacts c) (dk_files dk) p \<noteq> dk_files dk p" using Suc.prems reclaim by simp
    then have "\<exists>a \<in> set (rc_artifacts c). as_path a = p \<and> touched_by_this_call a (dk_files dk)" using remove_untouched by metis
    moreover have "\<exists>w i os. worker = Some w \<and> os_paths os (lock_path_of (rc_output c)) = Some i \<and> read_lock_file_pid_from_file i os = Some w"
      using reclaim_killed_recorded reclaim Some by blast
    ultimately show ?thesis by blast
  qed
qed simp

theorem killed_open_cleanup_owned:
  assumes "\<And>n dk. dk_files (elapse n dk) = dk_files dk"
    and "dk_files (cleanup_after_worker_loss ue f me elapse c worker dk) p \<noteq> dk_files dk p"
  shows "(\<exists>a \<in> set (rc_artifacts c). as_path a = p \<and> touched_by_this_call a (dk_files dk))
    \<and> (\<exists>w i os. worker = Some w \<and> os_paths os (lock_path_of (rc_output c)) = Some i \<and> read_lock_file_pid_from_file i os = Some w)"
  using assms(2) unfolding cleanup_after_worker_loss_def by (rule reclaim_attempts_owned[rotated]) (rule assms(1))

section \<open>Witnesses\<close>

definition demo_ida :: "bool \<Rightarrow> nat idalib" where
  "demo_ida fails =
     \<lparr>il_open = (\<lambda>opts p fs. case oo_idb opts of
                    Some out \<Rightarrow>
                      (if fails then Inl ''disk full'' else Inr 1,
                       if out = ''/d/a.i64'' then fs(out \<mapsto> \<lparr>fm_len = 7, fm_modified = Some 3, fm_dir = False, fm_readonly = False\<rparr>) else fs)
                  | None \<Rightarrow> (if p = ''/d/b.i64'' then Inr 2 else Inl ''no database'', fs)),
      il_drop = (\<lambda>db fs. fs), il_base_address = (\<lambda>_. None), il_path = (\<lambda>_. ''/d/b''), il_input_file_path = (\<lambda>_. ''/d/b''),
      il_input_file_sha256 = (\<lambda>_. ''xy''), il_save_on_close = (\<lambda>_ db. db), il_is_64bit = (\<lambda>_. True), il_is_32bit_exactly = (\<lambda>_. False),
      il_set_app_bitness = (\<lambda>_ db. db), il_segments = (\<lambda>_. []), il_set_segment_bitness = (\<lambda>_ _ db. (True, db)),
      il_segment_at = (\<lambda>_ _. True), il_is_thumb_at = (\<lambda>_ _. False), il_set_thumb_at = (\<lambda>_ db. (True, db)),
      il_start_address = (\<lambda>_. None), il_set_start_address = (\<lambda>_ db. (True, db)), il_auto_wait = (\<lambda>db. (True, db)),
      il_is_code_at = (\<lambda>_ _. True), il_recreate_insn_at = (\<lambda>_ db. (True, db)), il_save_database = (\<lambda>db fs. (Inr ''/d/b.i64'', db, fs)),
      il_load_debug_info = (\<lambda>_ _ db. (Inr True, db)), il_file_type = (\<lambda>_. ''ELF''), il_loader = (\<lambda>_. ''ELF64''),
      il_processor = (\<lambda>_. ''x86''), il_function_count = (\<lambda>_. 3), il_analysis_status = (\<lambda>_. ''ready'')\<rparr>"

definition demo_open_env :: open_env where
  "demo_open_env =
     \<lparr>oe_pid = 9, oe_host = ''h'', oe_exe = ''ida'', oe_now = 5, oe_home = None, oe_canonicalize = (\<lambda>_. None), oe_sha = (\<lambda>s. s),
      oe_input = Inr [Inr ''x'', Inr ''y''], oe_cancelled = (\<lambda>_. False), oe_running = (\<lambda>_. False), oe_stat_error = (\<lambda>_. []),
      oe_unlink_error = (\<lambda>_. None), oe_clean_faults = (\<lambda>_. no_faults), oe_lock_faults = no_faults, oe_release_faults = no_faults\<rparr>"

definition demo_request :: "string \<Rightarrow> open_request" where
  "demo_request path =
     \<lparr>or_path = path, or_load_debug_info = False, or_debug_info_path = None, or_debug_info_verbose = False, or_force = False,
      or_rebuild = False, or_auto_analyse = True,
      or_target = \<lparr>rt_processor = None, rt_bitness = None, rt_base_address = None, rt_entry_point = None\<rparr>,
      or_extra_args = [], or_idb_out = None\<rparr>"

definition demo_disk :: disk where
  "demo_disk =
     \<lparr>dk_files = (\<lambda>p. if p = ''/d'' then Some \<lparr>fm_len = 0, fm_modified = None, fm_dir = True, fm_readonly = False\<rparr>
                     else if p \<in> set [''/d/a'', ''/d/b'', ''/d/b.i64''] then Some \<lparr>fm_len = 2, fm_modified = Some 1, fm_dir = False, fm_readonly = False\<rparr>
                     else None),
      dk_os = \<lparr>os_paths = Map.empty, os_content = (\<lambda>_. []), os_locks = Map.empty, os_next = 0\<rparr>\<rparr>"

definition demo_closed :: "nat open_state" where
  "demo_closed = \<lparr>os_idb = None, os_lock_file = None, os_lock_path = None, os_disk = demo_disk\<rparr>"

lemma demo_ida_writes: "ida_writes {''/d/a.i64''} (demo_ida b)"
  by (simp add: ida_writes_def demo_ida_def same_outside_def split: option.split)

lemma demo_plan:
  "plan_open demo_open_env (demo_request ''/d/a'') (dk_files demo_disk) = Inr \<lparr>pl_raw_out = Some ''/d/a.i64'', pl_candidate = None, pl_dsym = None\<rparr>"
  by code_simp

lemma demo_plan_reuse:
  "plan_open demo_open_env (demo_request ''/d/b'') (dk_files demo_disk) = Inr \<lparr>pl_raw_out = Some ''/d/b.i64'', pl_candidate = Some ''/d/b.i64'', pl_dsym = None\<rparr>"
  by code_simp

lemma demo_parameters:
  "check_open_parameters demo_open_env (demo_request ''/d/a'') False = Inr ()" "check_open_parameters demo_open_env (demo_request ''/d/b'') False = Inr ()"
  "\<not> is_idb_request demo_open_env (demo_request ''/d/a'')" "\<not> is_idb_request demo_open_env (demo_request ''/d/b'')"
  by code_simp+

lemma demo_acquire_open:
  "\<exists>lock os. acquire_mcp_lock (oe_lock_faults demo_open_env) (oe_pid demo_open_env) (oe_host demo_open_env) (oe_exe demo_open_env)
      (oe_now demo_open_env) p (dk_os demo_disk) = (Inr lock, os)"
  by (simp add: acquire_mcp_lock_def no_faults_def demo_open_env_def demo_disk_def open_create_def try_lock_file_def Let_def)

lemma demo_force: "force_clean demo_open_env (demo_request p) plan os = os"
  by (simp add: force_clean_def demo_request_def)

lemma demo_failed: "\<exists>e t. handle_open (demo_ida True) demo_open_env (demo_request ''/d/a'') None demo_closed = (Inl e, t)"
proof -
  let ?rq = "demo_request ''/d/a''" and ?env = demo_open_env
  let ?plan = "\<lparr>pl_raw_out = Some ''/d/a.i64'', pl_candidate = None, pl_dsym = None\<rparr>"
  obtain lock os where acquired: "acquire_mcp_lock (oe_lock_faults ?env) (oe_pid ?env) (oe_host ?env) (oe_exe ?env) (oe_now ?env)
      (lock_target_path ?env ?rq ?plan) (dk_os demo_disk) = (Inr lock, os)"
    using demo_acquire_open by blast
  have fails: "\<exists>e dk1. open_database (demo_ida True) ?env ?rq ?plan None owned lock dk = (Inl e, dk1)" for owned dk
    using demo_parameters(3)
    by (auto simp: open_database_def open_raw_def demo_ida_def Let_def demo_request_def split: prod.split)
  have "\<exists>e t. open_locked (demo_ida True) ?env ?rq ?plan lock dk demo_closed = (Inl e, t)" for dk
  proof -
    obtain e dk1 where "open_database (demo_ida True) ?env ?rq ?plan None (Some (snapshot_database_artifacts (dk_files dk) ''/d/a.i64'')) lock dk = (Inl e, dk1)"
      using fails by blast
    then show ?thesis using demo_parameters(3) by (simp add: open_locked_def check_candidate_def)
  qed
  then show ?thesis using acquired demo_plan demo_parameters(1) demo_force
    by (simp add: handle_open_def demo_closed_def)
qed

lemma demo_candidate:
  "\<exists>dk1. check_candidate (demo_ida True) demo_open_env (demo_request ''/d/b'') (Some ''/d/b.i64'') lock dk = (Inr (Some (2, ''/d/b.i64'')), dk1)"
  by (simp add: check_candidate_def open_existing_idb_def demo_ida_def plain_options_def demo_open_env_def ensure_not_cancelled_def
      sha256_file_def existing_raw_idb_action_of_def hash_recorded_def demo_request_def Let_def)

lemma demo_reused: "\<exists>info t. handle_open (demo_ida True) demo_open_env (demo_request ''/d/b'') None demo_closed = (Inr info, t)"
proof -
  let ?rq = "demo_request ''/d/b''" and ?env = demo_open_env
  let ?plan = "\<lparr>pl_raw_out = Some ''/d/b.i64'', pl_candidate = Some ''/d/b.i64'', pl_dsym = None\<rparr>"
  obtain lock os where acquired: "acquire_mcp_lock (oe_lock_faults ?env) (oe_pid ?env) (oe_host ?env) (oe_exe ?env) (oe_now ?env)
      (lock_target_path ?env ?rq ?plan) (dk_os demo_disk) = (Inr lock, os)"
    using demo_acquire_open by blast
  have target: "rt_bitness (or_target ?rq) = None" "normalized_raw_entry_point (or_target ?rq) = None" "rt_entry_point (or_target ?rq) = None"
      "\<not> or_load_debug_info ?rq"
    by (simp_all add: demo_request_def normalized_raw_entry_point_def)
  have calm: "ensure_not_cancelled (oe_cancelled ?env p) = Inr ()" for p by (simp add: demo_open_env_def ensure_not_cancelled_def)
  have finishes: "\<exists>info t. finish_open (demo_ida True) ?env ?rq ?plan owned lock found dk = (Inr info, t)" for owned found dk
    by (simp add: finish_open_def configure_database_def load_debug_information_def target calm Let_def split: prod.split)
  have "\<exists>info t. open_locked (demo_ida True) ?env ?rq ?plan lock dk demo_closed = (Inr info, t)" for dk
  proof -
    obtain dk1 where candidate: "check_candidate (demo_ida True) ?env ?rq (Some ''/d/b.i64'') lock dk = (Inr (Some (2, ''/d/b.i64'')), dk1)"
      using demo_candidate by blast
    obtain info t where "finish_open (demo_ida True) ?env ?rq ?plan None lock (2, ''/d/b.i64'') dk1 = (Inr info, t)" using finishes by blast
    then show ?thesis using candidate by (simp add: open_locked_def open_database_def)
  qed
  then show ?thesis using acquired demo_plan_reuse demo_parameters(2) demo_force
    by (simp add: handle_open_def demo_closed_def)
qed

theorem open_lock_exact_witness:
  "\<exists>t :: nat open_state. os_idb t \<noteq> None \<and> os_lock_path t = Some ''/d/b.imcp'' \<and> (\<exists>i. os_lock_file t = Some i
     \<and> only_lock 9 i (dk_os (os_disk t)) \<and> os_paths (dk_os (os_disk t)) ''/d/b.imcp'' = Some i)"
proof -
  obtain info t where run: "handle_open (demo_ida True) demo_open_env (demo_request ''/d/b'') None demo_closed = (Inr info, t)"
    using demo_reused by blast
  have "oe_pid demo_open_env = 9" by (simp add: demo_open_env_def)
  moreover have "lock_path_of (output_of demo_open_env (demo_request ''/d/b'')) = ''/d/b.imcp''" by code_simp
  ultimately show ?thesis using open_lock_exact[OF _ _ run] by (auto simp: demo_closed_def demo_disk_def no_lock_def)
qed

theorem open_spares_files_witness:
  "\<exists>e t. handle_open (demo_ida True) demo_open_env (demo_request ''/d/a'') None demo_closed = (Inl e, t) \<and> dk_files (os_disk t) ''/d/a'' \<noteq> None
     \<and> os_paths (dk_os (os_disk t)) ''/d/a'' = None"
proof -
  obtain e t where run: "handle_open (demo_ida True) demo_open_env (demo_request ''/d/a'') None demo_closed = (Inl e, t)"
    using demo_failed by blast
  have "''/d/a'' \<notin> {''/d/a.i64''}" by simp
  moreover have "''/d/a'' \<notin> request_locks demo_open_env (demo_request ''/d/a'')"
  proof -
    have "lock_path_of (output_of demo_open_env (demo_request ''/d/a'')) \<noteq> ''/d/a''" by code_simp
    then show ?thesis by (simp add: request_locks_def demo_request_def)
  qed
  ultimately show ?thesis using open_spares_files[OF demo_ida_writes _ _ run] run by (auto simp: demo_closed_def demo_disk_def)
qed

theorem failed_raw_open_undone_witness:
  "\<exists>e t. handle_open (demo_ida True) demo_open_env (demo_request ''/d/a'') None demo_closed = (Inl e, t) \<and> dk_files (os_disk t) ''/d/a.i64'' = None"
proof -
  obtain e t where run: "handle_open (demo_ida True) demo_open_env (demo_request ''/d/a'') None demo_closed = (Inl e, t)"
    using demo_failed by blast
  have plan: "plan_open demo_open_env (demo_request ''/d/a'') (dk_files (os_disk demo_closed)) = Inr \<lparr>pl_raw_out = Some ''/d/a.i64'', pl_candidate = None, pl_dsym = None\<rparr>"
    using demo_plan by (simp add: demo_closed_def)
  have "dk_files (os_disk t) ''/d/a.i64'' = None"
  proof (rule failed_raw_open_undone[OF run _ demo_parameters(3) plan])
    show "''/d/a.i64'' \<in> set (database_artifact_paths ''/d/a.i64'')" unfolding database_artifact_paths_def by (rule list.set_intros(1))
  qed (simp_all add: demo_closed_def demo_open_env_def)
  with run show ?thesis by blast
qed

theorem reuse_needs_provenance_witness:
  "oe_input demo_open_env = Inr [Inr ''x'', Inr ''y'']
   \<and> (\<exists>db opened fs. open_existing_idb (demo_ida True) ''/d/b.i64'' (init_database_args []) False (dk_files demo_disk) = (Inr (db, opened), fs)
        \<and> il_input_file_sha256 (demo_ida True) db = oe_sha demo_open_env ''xy'')"
proof -
  obtain info t where run: "handle_open (demo_ida True) demo_open_env (demo_request ''/d/b'') None demo_closed = (Inr info, t)"
    using demo_reused by blast
  have plan: "plan_open demo_open_env (demo_request ''/d/b'') (dk_files (os_disk demo_closed)) = Inr \<lparr>pl_raw_out = Some ''/d/b.i64'', pl_candidate = Some ''/d/b.i64'', pl_dsym = None\<rparr>"
    using demo_plan_reuse by (simp add: demo_closed_def)
  have input: "oe_input demo_open_env = Inr [Inr ''x'', Inr ''y'']" "\<not> or_rebuild (demo_request ''/d/b'')" "or_extra_args (demo_request ''/d/b'') = []"
    by (simp_all add: demo_open_env_def demo_request_def)
  have "\<exists>db opened fs. open_existing_idb (demo_ida True) ''/d/b.i64'' (init_database_args []) False (dk_files demo_disk) = (Inr (db, opened), fs)
        \<and> il_input_file_sha256 (demo_ida True) db = oe_sha demo_open_env ''xy''"
    using reuse_needs_provenance[OF run _ plan, of "''/d/b.i64''"] by (auto simp: input demo_closed_def)
  then show ?thesis using input(1) by blast
qed

end
