(* ===== verification/Tool_Args.thy ===== *)
theory Tool_Args
  imports Remote Db_Open
begin

text \<open>
  \<open>src/src/server/mod.rs\<close>: the parsing of tool arguments (addresses, byte strings, paging and
  timeouts, paths, processors) and the lookup of several addresses in one call. Parsing a JSON text
  and Rust's debug form of a string are arguments.
\<close>

section \<open>Addresses\<close>

definition ascii_alphabetic :: "char \<Rightarrow> bool" where
  "ascii_alphabetic c \<longleftrightarrow> (let n = (of_char c :: nat) in 65 \<le> n \<and> n \<le> 90 \<or> 97 \<le> n \<and> n \<le> 122)"

text \<open>\<open>dbg\<close> is the debug form of a string, in quotes and with escapes.\<close>

definition describe_bad_address :: "(string \<Rightarrow> string) \<Rightarrow> string \<Rightarrow> string" where
  "describe_bad_address dbg original =
     (let looks_like_symbol =
            (case original of [] \<Rightarrow> False | c # _ \<Rightarrow> ascii_alphabetic c \<or> c = CHR ''_'')
            \<and> strip_prefix ''0x'' original = None \<and> strip_prefix ''0X'' original = None
      in if looks_like_symbol
         then dbg original @ '' is a symbol name, not an address; pass a hex address such as 0x100000660, or give the name to a tool''
              @ [CHR 0x27] @ ''s target_name/name parameter, or resolve it first with resolve_function''
         else dbg original @ '' is not a hex (0x...), decimal, octal (0o...), or binary (0b...) address'')"

definition or_prefix :: "string \<Rightarrow> string \<Rightarrow> string \<Rightarrow> string option" where
  "or_prefix p q s = (case strip_prefix p s of Some t \<Rightarrow> Some t | None \<Rightarrow> strip_prefix q s)"

definition parse_digits :: "string \<Rightarrow> nat option" where
  "parse_digits digits =
     (case or_prefix ''0x'' ''0X'' digits of
        Some hex \<Rightarrow> from_str_radix 16 (2 ^ 64) hex
      | None \<Rightarrow>
     (case or_prefix ''0b'' ''0B'' digits of
        Some bin \<Rightarrow> from_str_radix 2 (2 ^ 64) bin
      | None \<Rightarrow>
     (case or_prefix ''0o'' ''0O'' digits of
        Some oct \<Rightarrow> from_str_radix 8 (2 ^ 64) oct
      | None \<Rightarrow> from_str_radix 10 (2 ^ 64) digits)))"

definition parse_address :: "(string \<Rightarrow> string) \<Rightarrow> string \<Rightarrow> tool_error + u64" where
  "parse_address dbg s =
     (let original = trim s; digits = filter (\<lambda>c. c \<noteq> CHR ''_'') original
      in case parse_digits digits of
           Some n \<Rightarrow> Inr (word_of_nat n)
         | None \<Rightarrow> Inl (InvalidAddress (describe_bad_address dbg original)))"

text \<open>A list of JSON strings and numbers.\<close>

fun scalar_strings :: "json list \<Rightarrow> tool_error + string list" where
  "scalar_strings [] = Inr []"
| "scalar_strings (v # vs) =
     (case (case v of JStr s \<Rightarrow> Some s | JNum n \<Rightarrow> Some n | _ \<Rightarrow> None) of
        None \<Rightarrow> Inl (IdaError ''expected string or number'')
      | Some s \<Rightarrow> (case scalar_strings vs of Inl e \<Rightarrow> Inl e | Inr ss \<Rightarrow> Inr (s # ss)))"

definition value_to_strings :: "(string \<Rightarrow> json option) \<Rightarrow> json \<Rightarrow> tool_error + string list" where
  "value_to_strings from_str v =
     (case v of
        JStr s \<Rightarrow>
          (let trimmed = trim s
           in case (if strip_prefix ''['' trimmed \<noteq> None then from_str trimmed else None) of
                Some (JArr arr) \<Rightarrow> scalar_strings arr
              | _ \<Rightarrow>
                  if CHR '','' \<in> set trimmed then Inr (filter (\<lambda>t. t \<noteq> []) (map trim (split_char (CHR '','') trimmed)))
                  else if trimmed = [] then Inl (IdaError ''empty string'')
                  else Inr [trimmed])
      | JNum n \<Rightarrow> Inr [n]
      | JArr arr \<Rightarrow> scalar_strings arr
      | _ \<Rightarrow> Inl (IdaError ''expected string, number, or array''))"

fun collect_results :: "('e + 'a) list \<Rightarrow> 'e + 'a list" where
  "collect_results [] = Inr []"
| "collect_results (r # rs) =
     (case r of Inl e \<Rightarrow> Inl e | Inr x \<Rightarrow> (case collect_results rs of Inl e \<Rightarrow> Inl e | Inr xs \<Rightarrow> Inr (x # xs)))"

definition value_to_addresses :: "(string \<Rightarrow> string) \<Rightarrow> (string \<Rightarrow> json option) \<Rightarrow> json \<Rightarrow> tool_error + u64 list" where
  "value_to_addresses dbg from_str v =
     (case value_to_strings from_str v of
        Inl e \<Rightarrow> Inl e
      | Inr strings \<Rightarrow>
          if strings = [] then Inl (InvalidAddress ''no addresses provided'')
          else collect_results (map (parse_address dbg) strings))"

definition value_to_exactly_one_address ::
  "(string \<Rightarrow> string) \<Rightarrow> (string \<Rightarrow> json option) \<Rightarrow> json \<Rightarrow> string \<Rightarrow> tool_error + u64" where
  "value_to_exactly_one_address dbg from_str v field_name =
     (case value_to_addresses dbg from_str v of
        Inl e \<Rightarrow> Inl e
      | Inr [a] \<Rightarrow> Inr a
      | Inr many \<Rightarrow>
          Inl (InvalidParams (field_name @ '' must contain exactly one address, got '' @ show_nat (length many) @
            ''; this tool handles one address per call'')))"

definition mutation_target_address ::
  "(string \<Rightarrow> string) \<Rightarrow> (string \<Rightarrow> json option) \<Rightarrow> json option \<Rightarrow> string option \<Rightarrow> string \<Rightarrow> tool_error + u64 option" where
  "mutation_target_address dbg from_str address name name_field =
     (case (address, name) of
        (Some _, Some _) \<Rightarrow> Inl (InvalidParams (''pass either address or '' @ name_field @ '' for the target, not both''))
      | (None, None) \<Rightarrow> Inl (InvalidParams (''pass address or '' @ name_field @ '' for the target''))
      | (Some v, None) \<Rightarrow>
          (case value_to_exactly_one_address dbg from_str v ''address'' of Inl e \<Rightarrow> Inl e | Inr a \<Rightarrow> Inr (Some a))
      | (None, Some n) \<Rightarrow>
          if n = [] then Inl (InvalidParams (name_field @ '' must not be empty'')) else Inr None)"

section \<open>Bytes\<close>

definition ascii_hexdigit :: "char \<Rightarrow> bool" where
  "ascii_hexdigit c \<longleftrightarrow> radix_digit 16 c \<noteq> None"

definition skipped_char :: "char \<Rightarrow> bool" where
  "skipped_char c \<longleftrightarrow> c \<in> {CHR '' '', CHR 0x09, CHR 0x0A, CHR 0x0C, CHR 0x0D, CHR '','', CHR ''_'', CHR '':'', CHR ''-'', CHR ''x'', CHR ''X''}"

fun clean_hex :: "string \<Rightarrow> tool_error + string" where
  "clean_hex [] = Inr []"
| "clean_hex (c # cs) =
     (if ascii_hexdigit c then (case clean_hex cs of Inl e \<Rightarrow> Inl e | Inr s \<Rightarrow> Inr (c # s))
      else if skipped_char c then clean_hex cs
      else Inl (InvalidParams (''invalid hex character: '' @ take (utf8_len c) (c # cs))))"

fun hex_pairs :: "string \<Rightarrow> tool_error + nat list" where
  "hex_pairs (c # d # cs) =
     (case from_str_radix 16 256 [c, d] of
        None \<Rightarrow> Inl (InvalidParams ''invalid hex byte'')
      | Some b \<Rightarrow> (case hex_pairs cs of Inl e \<Rightarrow> Inl e | Inr bs \<Rightarrow> Inr (b # bs)))"
| "hex_pairs _ = Inr []"

text \<open>\<open>Number::as_u64\<close>: an integer literal without sign and below \<open>2 ^ 64\<close>.\<close>

definition as_u64 :: "string \<Rightarrow> nat option" where
  "as_u64 n = (if list_all (\<lambda>c. radix_digit 10 c \<noteq> None) n then from_str_radix 10 (2 ^ 64) n else None)"

definition number_byte :: "string \<Rightarrow> tool_error + nat" where
  "number_byte n =
     (case as_u64 n of
        None \<Rightarrow> Inl (InvalidParams ''invalid byte'')
      | Some b \<Rightarrow> if 255 < b then Inl (InvalidParams ''byte value out of range'') else Inr b)"

definition item_byte :: "(string \<Rightarrow> string) \<Rightarrow> json \<Rightarrow> tool_error + nat" where
  "item_byte dbg v =
     (case v of
        JNum n \<Rightarrow> number_byte n
      | JStr s \<Rightarrow>
          (case parse_address dbg s of
             Inl e \<Rightarrow> Inl e
           | Inr a \<Rightarrow> if 255 < unat a then Inl (InvalidParams ''byte value out of range'') else Inr (unat a))
      | _ \<Rightarrow> Inl (InvalidParams ''bytes must be numbers or strings''))"

definition value_to_bytes :: "(string \<Rightarrow> string) \<Rightarrow> json \<Rightarrow> tool_error + nat list" where
  "value_to_bytes dbg v =
     (case v of
        JStr s \<Rightarrow>
          (case clean_hex s of
             Inl e \<Rightarrow> Inl e
           | Inr cleaned \<Rightarrow>
               if cleaned = [] then Inl (InvalidParams ''no bytes provided'')
               else if odd (length cleaned) then Inl (InvalidParams ''hex string has odd length'')
               else hex_pairs cleaned)
      | JArr arr \<Rightarrow>
          (case collect_results (map (item_byte dbg) arr) of
             Inl e \<Rightarrow> Inl e
           | Inr out \<Rightarrow> if out = [] then Inl (InvalidParams ''no bytes provided'') else Inr out)
      | JNum n \<Rightarrow> (case number_byte n of Inl e \<Rightarrow> Inl e | Inr b \<Rightarrow> Inr [b])
      | _ \<Rightarrow> Inl (InvalidParams ''expected hex string or array of bytes''))"

section \<open>Paging, timeouts and sizes\<close>

text \<open>\<open>bound\<close> is the number of values of the target type and \<open>type_name\<close> its name.\<close>

definition parse_optional_unsigned :: "nat \<Rightarrow> string \<Rightarrow> int option \<Rightarrow> string \<Rightarrow> tool_error + nat option" where
  "parse_optional_unsigned bound type_name v name =
     (case v of
        None \<Rightarrow> Inr None
      | Some i \<Rightarrow>
          if 0 \<le> i \<and> nat i < bound then Inr (Some (nat i))
          else Inl (InvalidParams (name @ '' ('' @ show_int i @ '') is out of range for '' @ type_name)))"

definition DEFAULT_XREFS_LIMIT :: nat where "DEFAULT_XREFS_LIMIT = 1000"
definition MAX_XREFS_LIMIT :: nat where "MAX_XREFS_LIMIT = 10000"
definition MAX_XREF_MATRIX_ADDRESSES :: nat where "MAX_XREF_MATRIX_ADDRESSES = 512"

record xrefs_request =
  xr_address :: json
  xr_limit :: "int option"
  xr_offset :: "int option"
  xr_timeout_secs :: "int option"

definition parse_xrefs_paging :: "xrefs_request \<Rightarrow> tool_error + nat \<times> nat \<times> nat option" where
  "parse_xrefs_paging rq =
     (case parse_optional_unsigned (2 ^ 64) ''usize'' (xr_limit rq) ''limit'' of
        Inl e \<Rightarrow> Inl e
      | Inr limit \<Rightarrow>
     (case parse_optional_unsigned (2 ^ 64) ''usize'' (xr_offset rq) ''offset'' of
        Inl e \<Rightarrow> Inl e
      | Inr offset \<Rightarrow>
     (case parse_optional_unsigned (2 ^ 64) ''u64'' (xr_timeout_secs rq) ''timeout_secs'' of
        Inl e \<Rightarrow> Inl e
      | Inr timeout_secs \<Rightarrow>
          Inr (case offset of Some n \<Rightarrow> n | None \<Rightarrow> 0,
               min MAX_XREFS_LIMIT (max 1 (case limit of Some n \<Rightarrow> n | None \<Rightarrow> DEFAULT_XREFS_LIMIT)),
               timeout_secs))))"

definition validate_xref_matrix_size :: "u64 list \<Rightarrow> tool_error + unit" where
  "validate_xref_matrix_size addrs =
     (if MAX_XREF_MATRIX_ADDRESSES < length addrs
      then Inl (InvalidParams (''xref_matrix accepts at most '' @ show_nat MAX_XREF_MATRIX_ADDRESSES @
             '' addresses (received '' @ show_nat (length addrs) @ '')''))
      else Inr ())"

definition parse_debug_timeout :: "int option \<Rightarrow> nat \<Rightarrow> tool_error + nat" where
  "parse_debug_timeout v default_secs =
     (case parse_optional_unsigned (2 ^ 32) ''u32'' v ''timeout_secs'' of
        Inl e \<Rightarrow> Inl e
      | Inr t \<Rightarrow>
          (let timeout = (case t of Some n \<Rightarrow> n | None \<Rightarrow> default_secs)
           in if timeout < 1 \<or> 120 < timeout then Inl (InvalidParams ''timeout_secs must be between 1 and 120'') else Inr timeout))"

section \<open>Looking up several addresses\<close>

datatype 'l xrefs_entry = XrefsListing u64 'l | XrefsError u64 string

datatype 'l xrefs_output = XrefsSingle 'l | XrefsBatch "'l xrefs_entry list"

text \<open>\<open>ask\<close> is the worker's answer for one address; a fatal error ends the batch.\<close>

fun xrefs_batch :: "(u64 \<Rightarrow> tool_error + 'l) \<Rightarrow> u64 list \<Rightarrow> tool_error + 'l xrefs_entry list" where
  "xrefs_batch ask [] = Inr []"
| "xrefs_batch ask (a # as) =
     (case ask a of
        Inr l \<Rightarrow> (case xrefs_batch ask as of Inl e \<Rightarrow> Inl e | Inr es \<Rightarrow> Inr (XrefsListing a l # es))
      | Inl e \<Rightarrow>
          if is_fatal e then Inl e
          else (case xrefs_batch ask as of Inl e' \<Rightarrow> Inl e' | Inr es \<Rightarrow> Inr (XrefsError a (display e) # es)))"

definition xrefs_lookup ::
  "(string \<Rightarrow> string) \<Rightarrow> (string \<Rightarrow> json option) \<Rightarrow> (u64 \<Rightarrow> nat \<Rightarrow> nat \<Rightarrow> nat option \<Rightarrow> tool_error + 'l) \<Rightarrow> xrefs_request
   \<Rightarrow> tool_error + 'l xrefs_output" where
  "xrefs_lookup dbg from_str xrefs_for rq =
     (case parse_xrefs_paging rq of
        Inl e \<Rightarrow> Inl e
      | Inr (offset, limit, timeout_secs) \<Rightarrow>
     (case value_to_addresses dbg from_str (xr_address rq) of
        Inl e \<Rightarrow> Inl e
      | Inr addrs \<Rightarrow>
          (let ask = (\<lambda>a. xrefs_for a offset limit timeout_secs)
           in case addrs of
                [a] \<Rightarrow> (case ask a of Inl e \<Rightarrow> Inl e | Inr l \<Rightarrow> Inr (XrefsSingle l))
              | _ \<Rightarrow> (case xrefs_batch ask addrs of Inl e \<Rightarrow> Inl e | Inr es \<Rightarrow> Inr (XrefsBatch es)))))"

section \<open>What the parsers accept\<close>

definition radix_of :: "string \<Rightarrow> nat option" where
  "radix_of p = map_of [(''0x'', 16), (''0X'', 16), (''0b'', 2), (''0B'', 2), (''0o'', 8), (''0O'', 8), ([], 10)] p"

lemma strip_prefix_show_base:
  assumes "p \<in> {''0x'', ''0X'', ''0b'', ''0B'', ''0o'', ''0O''}"
  shows "strip_prefix p (show_base 10 n) = None"
proof (rule ccontr)
  assume "strip_prefix p (show_base 10 n) \<noteq> None"
  then obtain r where r: "show_base 10 n = p @ r" using strip_prefix_Some by blast
  have "\<exists>c \<in> set p. radix_digit 10 c = None" using assms by (auto simp: radix_digit_def Let_def)
  then obtain c where c: "c \<in> set p" "radix_digit 10 c = None" by blast
  then obtain d where "d < 10" "c = digit_char d" using show_base_digits[of 10 c n] r by auto
  then show False using c radix_digit_char[of 10 d] by simp
qed

lemma parse_digits_spelled:
  assumes "radix_of p = Some b" "n < 2 ^ 64"
  shows "parse_digits (p @ show_base b n) = Some n"
  using assms from_str_radix_show_base[of b n "2 ^ 64"]
  by (auto simp: radix_of_def parse_digits_def or_prefix_def strip_prefix_show_base split: if_splits)

lemma parse_address_spelled:
  assumes "radix_of p = Some b" "filter (\<lambda>c. c \<noteq> CHR ''_'') (trim s) = p @ show_base b (unat a)"
  shows "parse_address dbg s = Inr a"
proof -
  have "unat a < 2 ^ 64" using unsigned_less[of a] by simp
  then show ?thesis using assms parse_digits_spelled[OF assms(1)] by (simp add: parse_address_def)
qed

text \<open>
  Every way to spell an address is read back: hexadecimal, binary, octal with the prefix in either case,
  or decimal, with underscores between, before or after the digits and white space around, gives the address.
\<close>

theorem address_argument_roundtrip:
  assumes "radix_of p = Some b" "filter (\<lambda>c. c \<noteq> CHR ''_'') (trim s) = p @ show_base b (unat a)"
  shows "parse_address dbg s = Inr a"
  using assms by (rule parse_address_spelled)

theorem address_argument_roundtrip_witness: "parse_address id '' 0x1_f '' = Inr 31"
proof (rule address_argument_roundtrip[of "''0x''" 16])
  show "filter (\<lambda>c. c \<noteq> CHR ''_'') (trim '' 0x1_f '') = ''0x'' @ show_base 16 (unat (31 :: u64))"
    by (simp add: show_base.simps[of 16] digit_char_def) code_simp
qed (simp add: radix_of_def)

text \<open>Bytes as text: two hexadecimal digits each.\<close>

lemma clean_hex_ok: "\<forall>c \<in> set s. ascii_hexdigit c \<or> skipped_char c \<Longrightarrow> clean_hex s = Inr (filter ascii_hexdigit s)"
  by (induction s) auto

definition byte_text :: "nat \<Rightarrow> string" where
  "byte_text b = [digit_char (b div 16), digit_char (b mod 16)]"

lemma hex_pair_value: "x < 16 \<Longrightarrow> y < 16 \<Longrightarrow> from_str_radix 16 256 [digit_char x, digit_char y] = Some (x * 16 + y)"
proof -
  assume xy: "x < 16" "y < 16"
  have "digit_char x \<noteq> CHR ''+''" using radix_digit_char[of 16 x] xy(1) by (auto simp: radix_digit_def Let_def)
  moreover have "x * 16 + y < 256" "x < 256" using xy by linarith+
  ultimately show ?thesis using xy by (simp add: from_str_radix_def radix_digit_char)
qed

lemma hex_pairs_text: "\<forall>b \<in> set bs. b < 256 \<Longrightarrow> hex_pairs (concat (map byte_text bs)) = Inr bs"
proof (induction bs)
  case (Cons b bs)
  then have "b div 16 < 16" by auto
  then show ?case using Cons hex_pair_value[of "b div 16" "b mod 16"] by (simp add: byte_text_def)
qed simp

lemma length_byte_texts: "length (concat (map byte_text bs)) = 2 * length bs"
  by (induction bs) (simp_all add: byte_text_def)

text \<open>
  A byte string is read back whatever separators it is written with: if a text contains only hexadecimal
  digits and the separators that are skipped, and its digits spell the bytes two by two, the bytes are read.
\<close>

theorem bytes_argument_roundtrip:
  assumes "\<forall>c \<in> set s. ascii_hexdigit c \<or> skipped_char c" "filter ascii_hexdigit s = concat (map byte_text bs)"
    and "bs \<noteq> []" "\<forall>b \<in> set bs. b < 256"
  shows "value_to_bytes dbg (JStr s) = Inr bs"
proof -
  have "clean_hex s = Inr (concat (map byte_text bs))" using assms(1,2) by (simp add: clean_hex_ok)
  moreover have "concat (map byte_text bs) \<noteq> []" using assms(3) by (cases bs) (simp_all add: byte_text_def)
  ultimately show ?thesis using hex_pairs_text[OF assms(4)] length_byte_texts[of bs] by (simp add: value_to_bytes_def)
qed

theorem bytes_argument_roundtrip_witness: "value_to_bytes id (JStr ''1f 20:03-d5'') = Inr [0x1f, 0x20, 0x03, 0xd5]"
  by (rule bytes_argument_roundtrip) code_simp+

text \<open>
  The prefix \<open>0x\<close> is misread in byte strings. The \<open>x\<close> is skipped but the zero before it counts as a digit:
  two prefixed bytes become three other bytes, one prefixed byte is refused, while the same texts in an array
  give the intended bytes, and a text without prefix is hexadecimal alone but decimal in an array.
\<close>

theorem prefixed_bytes_misread:
  "value_to_bytes dbg (JStr ''0x90 0x91'') = Inr [0x09, 0x00, 0x91]
   \<and> value_to_bytes dbg (JStr ''0x90'') = Inl (InvalidParams ''hex string has odd length'')
   \<and> value_to_bytes dbg (JArr [JStr ''0x90'', JStr ''0x91'']) = Inr [0x90, 0x91]
   \<and> value_to_bytes dbg (JStr ''90'') = Inr [0x90] \<and> value_to_bytes dbg (JArr [JStr ''90'']) = Inr [90]"
proof -
  have texts: "clean_hex ''0x90 0x91'' = Inr ''090091''" "hex_pairs ''090091'' = Inr [0x09, 0x00, 0x91]" "clean_hex ''0x90'' = Inr ''090''"
      "clean_hex ''90'' = Inr ''90''" "hex_pairs ''90'' = Inr [0x90]"
    by code_simp+
  have items: "parse_address dbg ''0x90'' = Inr 0x90" "parse_address dbg ''0x91'' = Inr 0x91" "parse_address dbg ''90'' = Inr 90"
    by (rule parse_address_spelled[of "''0x''" 16], code_simp, code_simp,
        rule parse_address_spelled[of "''0x''" 16], code_simp, code_simp,
        rule parse_address_spelled[of "[]" 10], code_simp, code_simp)
  show ?thesis by (simp add: value_to_bytes_def item_byte_def texts items del: clean_hex.simps hex_pairs.simps)
qed

text \<open>A batch of addresses has one answer per address in their order, unless an error is fatal.\<close>

fun entry_address :: "'l xrefs_entry \<Rightarrow> u64" where
  "entry_address (XrefsListing a l) = a"
| "entry_address (XrefsError a e) = a"

theorem xrefs_batch_complete:
  "xrefs_batch ask addrs = Inr es \<Longrightarrow>
     es = map (\<lambda>a. case ask a of Inr l \<Rightarrow> XrefsListing a l | Inl e \<Rightarrow> XrefsError a (display e)) addrs"
  by (induction addrs arbitrary: es) (auto split: sum.splits if_splits)

theorem xrefs_batch_fatal: "a \<in> set addrs \<Longrightarrow> ask a = Inl e \<Longrightarrow> is_fatal e \<Longrightarrow> \<exists>e'. xrefs_batch ask addrs = Inl e' \<and> is_fatal e'"
  by (induction addrs) (auto split: sum.split)

lemma parse_optional_unsigned_bound: "parse_optional_unsigned bound ty v name = Inr (Some n) \<Longrightarrow> n < bound"
  by (auto simp: parse_optional_unsigned_def split: option.splits if_splits)

theorem xrefs_paging_bounds:
  "parse_xrefs_paging rq = Inr (offset, limit, timeout_secs) \<Longrightarrow> 1 \<le> limit \<and> limit \<le> MAX_XREFS_LIMIT \<and> offset < 2 ^ 64"
  by (auto simp: parse_xrefs_paging_def MAX_XREFS_LIMIT_def dest!: parse_optional_unsigned_bound split: sum.splits option.splits)

end
