(* ===== verification/Foreground.thy ===== *)
theory Foreground
  imports Operation_Registry Worker_Pool
begin

text \<open>
  \<open>src/src/server/mod.rs\<close>: running a tool call in the foreground. The operation races the client's
  cancellation and a timer; whatever wins, the operation is recorded in the history that clients can
  read, and a fatal error is not hidden behind a timeout.
\<close>

section \<open>Deadlines\<close>

definition FOREGROUND_CANCEL_CLEANUP_TIMEOUT_SECS :: nat where "FOREGROUND_CANCEL_CLEANUP_TIMEOUT_SECS = 6"
definition FOREGROUND_SUPERVISOR_MARGIN_SECS :: nat where "FOREGROUND_SUPERVISOR_MARGIN_SECS = 3"

definition FOREGROUND_MAX_SECS :: nat where
  "FOREGROUND_MAX_SECS = MAX_TIMEOUT_SECS + CHILD_TIMEOUT_GRACE_SECS + FOREGROUND_SUPERVISOR_MARGIN_SECS"

definition WORKER_UNBOUNDED_SECS :: nat where "WORKER_UNBOUNDED_SECS = 60 * 60 * 24 * 365"

datatype server_mode = ModeStdio | ModeHttp | ModeWorker

definition timeout_with_child_grace :: "nat option \<Rightarrow> nat \<Rightarrow> nat" where
  "timeout_with_child_grace timeout_secs default_secs =
     u64_saturating_add (min (case timeout_secs of Some t \<Rightarrow> t | None \<Rightarrow> default_secs) MAX_TIMEOUT_SECS) CHILD_TIMEOUT_GRACE_SECS"

definition foreground_timeout_secs :: "bool \<Rightarrow> nat option \<Rightarrow> nat \<Rightarrow> nat option" where
  "foreground_timeout_secs pooled timeout_secs default_secs =
     (if pooled
      then Some (u64_saturating_add (timeout_with_child_grace timeout_secs default_secs) FOREGROUND_SUPERVISOR_MARGIN_SECS)
      else timeout_secs)"

definition foreground_deadline :: "server_mode \<Rightarrow> nat option \<Rightarrow> nat \<Rightarrow> nat" where
  "foreground_deadline mode timeout_secs default_secs =
     (case mode of
        ModeWorker \<Rightarrow> WORKER_UNBOUNDED_SECS
      | _ \<Rightarrow> min (case timeout_secs of Some t \<Rightarrow> t | None \<Rightarrow> default_secs) FOREGROUND_MAX_SECS)"

section \<open>The operation\<close>

datatype 'v foreground_error =
    FgTool tool_error
  | FgTimedOut nat operation_snapshot
  | FgCancelled operation_snapshot

text \<open>What won the race; the operation is looked at first. \<open>cleanup\<close> is how the operation settled in the time it got afterwards.\<close>

datatype 'v race = OpFinished "tool_error + 'v" | TimerFired | ClientCancelled

definition finish_cancelled_foreground :: "(tool_error + 'v) option \<Rightarrow> tool_error option" where
  "finish_cancelled_foreground cleanup =
     (case cleanup of Some (Inl e) \<Rightarrow> if is_fatal e then Some e else None | _ \<Rightarrow> None)"

definition fallback_operation_snapshot :: "string \<Rightarrow> string \<Rightarrow> string \<Rightarrow> operation_status \<Rightarrow> string \<Rightarrow> operation_snapshot" where
  "fallback_operation_snapshot op_id tool_name phase status message =
     \<lparr>os_op_id = op_id, os_tool = tool_name, os_target_summary = ''unknown'', os_phase = phase, os_status = status,
      os_message = message, os_started_at_ms = 0, os_last_update_ms = 0, os_elapsed_ms = 0\<rparr>"

text \<open>
  The clocks and what other operations do to the shared history: \<open>ft_gap n\<close> happens before the \<open>n\<close>-th
  access of this operation. \<open>ft_progress\<close> are the progress updates that the drain task records.
\<close>

record fg_turn =
  ft_gap :: "nat \<Rightarrow> operation_registry \<Rightarrow> operation_registry"
  ft_ms :: "nat \<Rightarrow> u64"
  ft_now :: "nat \<Rightarrow> instant"
  ft_progress :: "(string \<times> string) list"

fun record_all :: "fg_turn \<Rightarrow> string \<Rightarrow> nat \<Rightarrow> (string \<times> string) list \<Rightarrow> operation_registry \<Rightarrow> operation_registry" where
  "record_all tn op_id n [] r = r"
| "record_all tn op_id n ((phase, msg) # ps) r =
     record_all tn op_id (Suc n) ps (snd (record_progress op_id phase msg (ft_ms tn n) (ft_now tn n) (ft_gap tn n r)))"

definition settle_op ::
  "fg_turn \<Rightarrow> string \<Rightarrow> operation_status \<Rightarrow> string \<Rightarrow> nat \<Rightarrow> operation_registry \<Rightarrow> operation_snapshot option \<times> operation_registry" where
  "settle_op tn op_id status message n r = finish_op op_id status message (ft_ms tn n) (ft_now tn n) (ft_gap tn n r)"

text \<open>The snapshot that goes into the answer: of the settled operation, else the current one, else a made-up one.\<close>

definition settled_snapshot ::
  "fg_turn \<Rightarrow> string \<Rightarrow> string \<Rightarrow> string \<Rightarrow> operation_status \<Rightarrow> string \<Rightarrow> nat \<Rightarrow> operation_registry \<Rightarrow> operation_snapshot \<times> operation_registry" where
  "settled_snapshot tn op_id tool_name phase status message n r =
     (case settle_op tn op_id status message n r of
        (Some s, r) \<Rightarrow> (s, r)
      | (None, r) \<Rightarrow>
          (let r = ft_gap tn (Suc n) r
           in (case registry_snapshot op_id (ft_now tn (Suc n)) r of
                 Some s \<Rightarrow> s
               | None \<Rightarrow> fallback_operation_snapshot op_id tool_name phase status message, r)))"

definition run_foreground_operation ::
  "fg_turn \<Rightarrow> server_mode \<Rightarrow> string \<Rightarrow> string \<Rightarrow> string \<Rightarrow> nat option \<Rightarrow> nat \<Rightarrow> 'v race \<Rightarrow> (tool_error + 'v) option
   \<Rightarrow> operation_registry \<Rightarrow> ('v foreground_error + 'v) \<times> operation_registry" where
  "run_foreground_operation tn mode op_id tool_name target timeout_secs default_secs race cleanup r =
     (let r = op_start op_id tool_name target (ft_ms tn 0) (ft_now tn 0) (ft_gap tn 0 r);
          r = record_all tn op_id 1 (ft_progress tn) r;
          n = Suc (length (ft_progress tn));
          timeout = foreground_deadline mode timeout_secs default_secs
      in case race of
           OpFinished (Inr v) \<Rightarrow> (Inr v, snd (settle_op tn op_id OpCompleted (tool_name @ '' completed successfully'') n r))
         | OpFinished (Inl (Cancelled m)) \<Rightarrow>
             (case settled_snapshot tn op_id tool_name ''cancelled'' OpCancelled (tool_name @ '' cancelled'') n r of
                (s, r) \<Rightarrow> (Inl (FgCancelled s), r))
         | OpFinished (Inl e) \<Rightarrow>
             (Inl (FgTool e), snd (settle_op tn op_id OpFailed (tool_name @ '' failed: '' @ display e) n r))
         | TimerFired \<Rightarrow>
             (case finish_cancelled_foreground cleanup of
                Some e \<Rightarrow> (Inl (FgTool e), snd (settle_op tn op_id OpFailed (tool_name @ '' failed: '' @ display e) n r))
              | None \<Rightarrow>
                  (case settled_snapshot tn op_id tool_name ''timed_out'' OpTimedOut
                          (tool_name @ '' timed out after '' @ show_nat timeout @ ''s'') n r of
                     (s, r) \<Rightarrow> (Inl (FgTimedOut timeout s), r)))
         | ClientCancelled \<Rightarrow>
             (case finish_cancelled_foreground cleanup of
                Some e \<Rightarrow> (Inl (FgTool e), snd (settle_op tn op_id OpFailed (tool_name @ '' failed: '' @ display e) n r))
              | None \<Rightarrow>
                  (case settled_snapshot tn op_id tool_name ''cancelled'' OpCancelled (tool_name @ '' cancelled by client'') n r of
                     (s, r) \<Rightarrow> (Inl (FgCancelled s), r))))"

section \<open>Messages\<close>

definition newline :: string where "newline = [CHR 0x0A]"

definition snapshot_lines :: "operation_snapshot \<Rightarrow> string" where
  "snapshot_lines s =
     ''Last known phase: '' @ os_phase s @ ''.'' @ newline @
     ''Operation id: '' @ os_op_id s @ ''.'' @ newline @
     ''Elapsed: '' @ show_nat (unat (os_elapsed_ms s)) @ '' ms.'' @ newline @
     ''Check recent_operations for the recorded event trail.''"

definition operation_timeout_message :: "string \<Rightarrow> nat \<Rightarrow> operation_snapshot \<Rightarrow> string option \<Rightarrow> string" where
  "operation_timeout_message tool_name timeout_secs s detail =
     tool_name @ '' timed out after '' @ show_nat timeout_secs @ '' seconds.'' @ newline @ snapshot_lines s @
     (case detail of Some d \<Rightarrow> newline @ newline @ d | None \<Rightarrow> [])"

definition operation_cancelled_message :: "string \<Rightarrow> operation_snapshot \<Rightarrow> string" where
  "operation_cancelled_message tool_name s =
     tool_name @ '' was cancelled by the client.'' @ newline @ snapshot_lines s"

section \<open>Properties\<close>

text \<open>Other operations leave this one's entry alone.\<close>

definition gaps_spare :: "fg_turn \<Rightarrow> string \<Rightarrow> bool" where
  "gaps_spare tn op_id \<longleftrightarrow>
     (\<forall>n r. hm_wf (or_current r) \<longrightarrow> hm_wf (or_current (ft_gap tn n r))
        \<and> hm_get (or_current (ft_gap tn n r)) op_id = hm_get (or_current r) op_id)"

definition running_op :: "string \<Rightarrow> operation_registry \<Rightarrow> bool" where
  "running_op op_id r \<longleftrightarrow> hm_wf (or_current r) \<and> (\<exists>st. hm_get (or_current r) op_id = Some st \<and> op_op_id st = op_id)"

lemma running_op_start: "hm_wf (or_current r) \<Longrightarrow> running_op op_id (op_start op_id tool target ms now r)"
  by (simp add: running_op_def op_start_def Let_def hm.map_laws)

lemma running_op_gap: "gaps_spare tn op_id \<Longrightarrow> running_op op_id r \<Longrightarrow> running_op op_id (ft_gap tn n r)"
  by (simp add: running_op_def gaps_spare_def)

lemma running_op_progress: "running_op op_id r \<Longrightarrow> running_op op_id (snd (record_progress op_id phase msg ms now r))"
  by (auto simp: running_op_def record_progress_def Let_def hm.map_laws progress_state_def)

lemma running_op_record_all:
  "gaps_spare tn op_id \<Longrightarrow> running_op op_id r \<Longrightarrow> running_op op_id (record_all tn op_id n ps r)"
  by (induction tn op_id n ps r rule: record_all.induct) (simp_all add: running_op_gap running_op_progress)

text \<open>An operation is settled when its entry is gone and the last event records how it ended.\<close>

definition settled_as :: "string \<Rightarrow> operation_status \<Rightarrow> operation_registry \<Rightarrow> bool" where
  "settled_as op_id status r \<longleftrightarrow>
     hm_get (or_current r) op_id = None \<and> or_active_op_id r \<noteq> Some op_id
     \<and> or_events r \<noteq> [] \<and> oe_op_id (last (or_events r)) = op_id \<and> oe_status (last (or_events r)) = status"

lemma finish_op_settles:
  assumes "running_op op_id r"
  shows "\<exists>s r'. finish_op op_id status msg ms now r = (Some s, r') \<and> os_op_id s = op_id \<and> os_status s = status \<and> settled_as op_id status r'"
  using assms
  by (auto simp: running_op_def finish_op_def Let_def settled_as_def op_event_def op_snapshot_def push_event_def hm.map_laws)

lemma settle_op_settles:
  assumes "gaps_spare tn op_id" "running_op op_id r" "settle_op tn op_id status msg n r = (s, r')"
  shows "\<exists>s'. s = Some s' \<and> os_op_id s' = op_id \<and> os_status s' = status \<and> settled_as op_id status r'"
  using finish_op_settles[OF running_op_gap[OF assms(1,2), of n], of status msg "ft_ms tn n" "ft_now tn n"] assms(3)
  unfolding settle_op_def by auto

lemma settled_snapshot_settles:
  assumes "gaps_spare tn op_id" "running_op op_id r" "settled_snapshot tn op_id tool phase status msg n r = (s, r')"
  shows "os_op_id s = op_id \<and> os_status s = status \<and> settled_as op_id status r'"
proof -
  obtain s0 r0 where settle: "settle_op tn op_id status msg n r = (s0, r0)" by (metis surj_pair)
  then show ?thesis using settle_op_settles[OF assms(1,2) settle] assms(3) by (auto simp: settled_snapshot_def)
qed

fun outcome_status :: "'v foreground_error + 'v \<Rightarrow> operation_status" where
  "outcome_status (Inr _) = OpCompleted"
| "outcome_status (Inl (FgTool _)) = OpFailed"
| "outcome_status (Inl (FgTimedOut _ _)) = OpTimedOut"
| "outcome_status (Inl (FgCancelled _)) = OpCancelled"

fun outcome_snapshot :: "'v foreground_error + 'v \<Rightarrow> operation_snapshot option" where
  "outcome_snapshot (Inl (FgTimedOut _ s)) = Some s"
| "outcome_snapshot (Inl (FgCancelled s)) = Some s"
| "outcome_snapshot _ = None"

text \<open>
  C31: Every foreground operation is settled in the history exactly as it is answered. However it ends, and
  whatever other operations do to the history meanwhile, it is no longer listed as current or active, the last
  event is its end with the status of the answer, and a snapshot in the answer is the one of this operation.
\<close>

theorem foreground_settles:
  assumes gaps: "gaps_spare tn op_id" and wf: "hm_wf (or_current (ft_gap tn 0 r))"
    and run: "run_foreground_operation tn mode op_id tool target timeout_secs default_secs race cleanup r = (res, r')"
  shows "settled_as op_id (outcome_status res) r'
    \<and> (\<forall>s \<in> set_option (outcome_snapshot res). os_op_id s = op_id \<and> os_status s = outcome_status res)"
proof -
  define n where "n = Suc (length (ft_progress tn))"
  define r1 where "r1 = record_all tn op_id 1 (ft_progress tn) (op_start op_id tool target (ft_ms tn 0) (ft_now tn 0) (ft_gap tn 0 r))"
  have running: "running_op op_id r1" unfolding r1_def by (rule running_op_record_all[OF gaps running_op_start[OF wf]])
  have plain: "settled_as op_id status (snd (settle_op tn op_id status msg n r1))" for status msg
    using settle_op_settles[OF gaps running] by (metis surj_pair snd_conv)
  note shot = settled_snapshot_settles[OF gaps running]
  show ?thesis
    using run plain unfolding run_foreground_operation_def Let_def r1_def[symmetric] n_def[symmetric]
    by (auto split: race.splits sum.splits tool_error.splits option.splits prod.splits dest: shot)
qed

theorem foreground_settles_witness:
  "\<exists>res r'. run_foreground_operation
       \<lparr>ft_gap = \<lambda>_ r. r, ft_ms = \<lambda>_. 0, ft_now = \<lambda>_. 0, ft_progress = [(''load'', ''opening'')]\<rparr>
       ModeStdio ''op-1'' ''open_idb'' ''/db.i64'' (Some 5) 60 (TimerFired :: nat race) None operation_registry_new = (res, r')
     \<and> settled_as ''op-1'' (outcome_status res) r'"
proof -
  let ?tn = "\<lparr>ft_gap = \<lambda>_ r. r, ft_ms = \<lambda>_. 0, ft_now = \<lambda>_. 0, ft_progress = [(''load'', ''opening'')]\<rparr> :: fg_turn"
  let ?run = "run_foreground_operation ?tn ModeStdio ''op-1'' ''open_idb'' ''/db.i64'' (Some 5) 60
                (TimerFired :: nat race) None operation_registry_new"
  have "gaps_spare ?tn ''op-1''" by (simp add: gaps_spare_def)
  moreover have "hm_wf (or_current (ft_gap ?tn 0 operation_registry_new))" by (simp add: operation_registry_new_def hm.map_laws)
  moreover have "?run = (fst ?run, snd ?run)" by simp
  ultimately show ?thesis using foreground_settles by blast
qed

text \<open>
  With a pooled worker the supervisor decides first. Whatever timeout the client asked for, the pool kills
  a stuck worker before the foreground timer fires, also at the largest timeout, and when the operation then
  settles with the fatal error, that error is the answer and not the timeout.
\<close>

theorem supervisor_decides_first:
  assumes "mode \<noteq> ModeWorker"
  shows "worker_op_timeout cfg (Some (case timeout_secs of Some t \<Rightarrow> t | None \<Rightarrow> default_secs))
           < from_secs (foreground_deadline mode (foreground_timeout_secs True timeout_secs default_secs) default_secs)
    \<and> (is_fatal e \<longrightarrow>
         fst (run_foreground_operation tn mode op_id tool target timeout default_secs TimerFired (Some (Inl e)) r) = Inl (FgTool e))"
proof -
  let ?t = "case timeout_secs of Some t \<Rightarrow> t | None \<Rightarrow> default_secs"
  have "foreground_deadline mode (foreground_timeout_secs True timeout_secs default_secs) default_secs = min ?t 600 + 13"
    using assms
    by (cases mode) (simp_all add: foreground_deadline_def foreground_timeout_secs_def timeout_with_child_grace_def u64_saturating_add_def
        FOREGROUND_SUPERVISOR_MARGIN_SECS_def FOREGROUND_MAX_SECS_def CHILD_TIMEOUT_GRACE_SECS_def MAX_TIMEOUT_SECS_def min_def)
  moreover have "worker_op_timeout cfg (Some ?t) \<le> from_secs (min ?t 600 + 10)"
    by (simp add: worker_op_timeout_def u64_saturating_add_def MAX_TIMEOUT_SECS_def CHILD_TIMEOUT_GRACE_SECS_def)
  ultimately show ?thesis
    by (auto simp: run_foreground_operation_def finish_cancelled_foreground_def Let_def from_secs_def)
qed

theorem supervisor_decides_first_witness:
  "\<forall>cfg tn r. worker_op_timeout cfg (Some 600)
       < from_secs (foreground_deadline ModeHttp (foreground_timeout_secs True (Some 600) 60) 60)
     \<and> fst (run_foreground_operation tn ModeHttp ''op-1'' ''decompile'' ''f'' (Some 613) 60
          TimerFired (Some (Inl (SdkCrashed ''signal 11''))) r) = (Inl (FgTool (SdkCrashed ''signal 11'')) :: nat foreground_error + nat)"
proof (intro allI)
  fix cfg tn r
  show "worker_op_timeout cfg (Some 600)
       < from_secs (foreground_deadline ModeHttp (foreground_timeout_secs True (Some 600) 60) 60)
     \<and> fst (run_foreground_operation tn ModeHttp ''op-1'' ''decompile'' ''f'' (Some 613) 60
          TimerFired (Some (Inl (SdkCrashed ''signal 11''))) r) = (Inl (FgTool (SdkCrashed ''signal 11'')) :: nat foreground_error + nat)"
    using supervisor_decides_first[where mode = ModeHttp and cfg = cfg and timeout_secs = "Some 600" and default_secs = 60
        and e = "SdkCrashed ''signal 11''" and tn = tn and op_id = "''op-1''" and tool = "''decompile''" and target = "''f''"
        and timeout = "Some 613" and r = r] by simp
qed

end
