(* ===== verification/Tool_Dispatch.thy ===== *)
theory Tool_Dispatch
  imports Tool_Filter Workspace_Registry Task_Registry Foreground
begin

text \<open>
  \<open>src/src/server/mod.rs\<close>: the way of a tool call. The outer server checks the filter and reports
  crashes; the router checks the request, selects or allocates the database it works on, holds a lease
  while the tool runs, and names a new database to the client. Also the tool that closes a database.
\<close>

section \<open>Requests and responses\<close>

text \<open>
  Of the request metadata only the answers of rmcp's predicates are kept: whether the complete inline
  key set is there, whether the peer speaks the protocol of 2026, and whether it declared tasks.
\<close>

record tool_request =
  tq_name :: string
  tq_arguments :: "(string, json) hashmap option"
  tq_request_state :: "string option"
  tq_input_responses :: "json option"
  tq_inline_metadata :: bool
  tq_speaks_2026 :: bool
  tq_supports_tasks :: bool

datatype 'v call_response =
    RespComplete call_tool_result
  | RespTask "'v task_state"
  | RespInputRequired json

definition invalid_params :: "string \<Rightarrow> error_data" where
  "invalid_params msg = \<lparr>ed_code = -32602, ed_message = msg\<rparr>"

definition mcp_internal_error :: "string \<Rightarrow> error_data" where
  "mcp_internal_error msg = \<lparr>ed_code = -32603, ed_message = msg\<rparr>"

definition success_result :: "content list \<Rightarrow> call_tool_result" where
  "success_result cs = \<lparr>tr_content = cs, tr_structured = None, tr_is_error = Some False, tr_meta = None\<rparr>"

section \<open>The server\<close>

record server_config =
  sc_mode :: server_mode
  sc_workspace :: bool
  sc_legacy_pooled :: bool
  sc_stateless_http :: bool

text \<open>The databases and workers, and the background tasks.\<close>

type_synonym 'v srv = "reg_sys \<times> 'v task_registry"

text \<open>
  The arguments of a dispatch: a fresh UUID, clocks, parsing and printing of UUIDs and JSON, and what
  other calls do to the state before its \<open>n\<close>-th access.
\<close>

record 'v dispatch_env =
  de_uuid :: string
  de_now :: "nat \<Rightarrow> instant"
  de_gap :: "nat \<Rightarrow> 'v srv \<Rightarrow> 'v srv"
  de_parse_uuid :: "string \<Rightarrow> string option"
  de_from_str :: "string \<Rightarrow> json option"
  de_pretty :: "json \<Rightarrow> string option"
  de_compact :: "json \<Rightarrow> string"

type_synonym 'v tool_handler =
  "string option \<Rightarrow> tool_request \<Rightarrow> 'v srv \<Rightarrow> (error_data + 'v call_response) \<times> 'v srv"

section \<open>The database of a call\<close>

definition MRTR_AWARE_TOOLS :: "string list" where "MRTR_AWARE_TOOLS = [''open_idb'']"

definition database_id_invalid :: error_data where
  "database_id_invalid = invalid_params ''database_id must be a UUID string''"

definition take_workspace_database_id ::
  "(string \<Rightarrow> string option) \<Rightarrow> (string, json) hashmap option
   \<Rightarrow> (error_data + string option) \<times> (string, json) hashmap option" where
  "take_workspace_database_id parse_uuid arguments =
     (case Option.bind arguments (\<lambda>m. hm_get m ''database_id'') of
        None \<Rightarrow> (Inr None, arguments)
      | Some v \<Rightarrow>
          (case v of
             JStr s \<Rightarrow> (case parse_uuid (trim s) of None \<Rightarrow> Inl database_id_invalid | Some db \<Rightarrow> Inr (Some db))
           | _ \<Rightarrow> Inl database_id_invalid,
           map_option (hm_remove ''database_id'') arguments))"

datatype route = RouteServer | RouteAllocated string | RouteAcquired string

fun routed_database :: "route \<Rightarrow> string option" where
  "routed_database RouteServer = None"
| "routed_database (RouteAllocated db) = Some db"
| "routed_database (RouteAcquired db) = Some db"

definition route_in_workspace ::
  "'v dispatch_env \<Rightarrow> string \<Rightarrow> string option \<Rightarrow> ws_registry \<Rightarrow> (error_data + route) \<times> ws_registry" where
  "route_in_workspace env name supplied r =
     (case get_tool name of
        None \<Rightarrow> (Inl (invalid_params (''unknown tool: '' @ name)), r)
      | Some info \<Rightarrow>
          if allocates_database name
          then if supplied \<noteq> None
               then (Inl (invalid_params ''open_idb/open_dsc allocate a new database_id; do not provide one''), r)
               else (case allocate_database (de_uuid env) (de_now env 0) r of (db, r) \<Rightarrow> (Inr (RouteAllocated db), r))
          else if ti_scope info = ScopeDatabase
          then (case supplied of
                  None \<Rightarrow> (Inl (invalid_params (name @ '' requires database_id in workspace mode'')), r)
                | Some db \<Rightarrow>
                    (case acquire_database db (de_now env 0) r of
                       (None, r) \<Rightarrow> (Inl (invalid_params (''unknown or expired database_id: '' @ db)), r)
                     | (Some _, r) \<Rightarrow> (Inr (RouteAcquired db), r)))
          else if supplied \<noteq> None
          then (Inl (invalid_params (name @ '' is runtime-scoped and does not accept database_id'')), r)
          else (Inr RouteServer, r))"

text \<open>The checks before a tool runs, in their order.\<close>

definition route_call ::
  "server_config \<Rightarrow> 'v dispatch_env \<Rightarrow> tool_request \<Rightarrow> ws_registry \<Rightarrow> (error_data + route) \<times> ws_registry" where
  "route_call cfg env rq r =
     (if sc_legacy_pooled cfg \<and> tq_inline_metadata rq
      then (Inl (invalid_params (''pooled HTTP (--max-workers > 1) requires the legacy initialize lifecycle; '' @
                   ''sessionless inline request metadata is not supported here'')), r)
      else if tq_name rq \<notin> set MRTR_AWARE_TOOLS \<and> (tq_request_state rq \<noteq> None \<or> tq_input_responses rq \<noteq> None)
      then (Inl (invalid_params (''tool '' @ [CHR 0x27] @ tq_name rq @ [CHR 0x27] @ '' does not accept requestState/inputResponses'')), r)
      else (case fst (take_workspace_database_id (de_parse_uuid env) (tq_arguments rq)) of
              Inl e \<Rightarrow> (Inl e, r)
            | Inr supplied \<Rightarrow>
                if sc_workspace cfg then route_in_workspace env (tq_name rq) supplied r
                else if supplied \<noteq> None
                then (Inl (invalid_params ''database_id is available only when ida-mcp starts with --workspace''), r)
                else (Inr RouteServer, r)))"

section \<open>The response\<close>

definition first_json :: "(string \<Rightarrow> json option) \<Rightarrow> call_tool_result \<Rightarrow> json option" where
  "first_json from_str r = (case tr_content r of TextContent t # _ \<Rightarrow> from_str t | _ \<Rightarrow> None)"

definition json_fields :: "json option \<Rightarrow> (string, json) hashmap option" where
  "json_fields v = (case v of Some (JObj m) \<Rightarrow> Some m | _ \<Rightarrow> None)"

definition id_object :: "string \<Rightarrow> json" where
  "id_object db = JObj [(''database_id'', JStr db)]"

definition attach_workspace_database_id ::
  "(string \<Rightarrow> json option) \<Rightarrow> (json \<Rightarrow> string option) \<Rightarrow> (json \<Rightarrow> string) \<Rightarrow> string \<Rightarrow> 'v call_response \<Rightarrow> bool \<times> 'v call_response" where
  "attach_workspace_database_id from_str pretty compact db response =
     (case response of
        RespComplete r \<Rightarrow>
          if tr_is_error r = Some True then (False, response)
          else
            (let fields = json_fields (first_json from_str r)
             in if Option.bind fields (\<lambda>m. hm_get m ''status'') = Some (JStr ''already_running'') then (False, response)
                else
                  (let replacement = Option.bind fields (\<lambda>m. pretty (JObj (hm_insert ''database_id'' (JStr db) m)))
                   in (True, RespComplete (r\<lparr>tr_content :=
                        (case (replacement, tr_content r) of
                           (Some t, _ # cs) \<Rightarrow> TextContent t # cs
                         | (_, cs) \<Rightarrow> cs @ [TextContent (compact (id_object db))])\<rparr>))))
      | _ \<Rightarrow> (False, response))"

definition task_id_from_call_tool_result :: "(string \<Rightarrow> json option) \<Rightarrow> call_tool_result \<Rightarrow> string option" where
  "task_id_from_call_tool_result from_str r =
     (case first_json from_str r of
        Some (JObj m) \<Rightarrow> (case hm_get m ''task_id'' of Some (JStr t) \<Rightarrow> Some t | _ \<Rightarrow> None)
      | _ \<Rightarrow> None)"

definition materialize_task_response ::
  "(string \<Rightarrow> json option) \<Rightarrow> bool \<Rightarrow> instant \<Rightarrow> 'v call_response \<Rightarrow> 'v task_registry
   \<Rightarrow> (error_data + 'v call_response) \<times> 'v task_registry" where
  "materialize_task_response from_str should_materialize now response tasks =
     (if \<not> should_materialize then (Inr response, tasks)
      else case response of
        RespComplete r \<Rightarrow>
          (case task_id_from_call_tool_result from_str r of
             None \<Rightarrow> (Inr response, tasks)
           | Some tid \<Rightarrow>
               (case get_task tid now tasks of
                  (None, tasks) \<Rightarrow> (Inl (mcp_internal_error (''Task '' @ tid @ '' disappeared'')), tasks)
                | (Some st, tasks) \<Rightarrow> (Inr (RespTask st), tasks)))
      | _ \<Rightarrow> (Inr response, tasks))"

section \<open>Running a tool\<close>

definition on_registry :: "(ws_registry \<Rightarrow> ws_registry) \<Rightarrow> 'v srv \<Rightarrow> 'v srv" where
  "on_registry f s = ((f (fst (fst s)), snd (fst s)), snd s)"

definition drop_route_lease :: "route \<Rightarrow> instant \<Rightarrow> 'v srv \<Rightarrow> 'v srv" where
  "drop_route_lease route now s =
     (case routed_database route of None \<Rightarrow> s | Some db \<Rightarrow> on_registry (drop_workspace_lease db now) s)"

definition forget_allocated :: "route \<Rightarrow> 'v srv \<Rightarrow> 'v srv" where
  "forget_allocated route s =
     (case route of RouteAllocated db \<Rightarrow> on_registry (\<lambda>r. snd (remove_database db r)) s | _ \<Rightarrow> s)"

definition announce ::
  "'v dispatch_env \<Rightarrow> route \<Rightarrow> 'v call_response \<Rightarrow> 'v srv \<Rightarrow> 'v call_response \<times> 'v srv" where
  "announce env route response s =
     (case route of
        RouteAllocated db \<Rightarrow>
          (case attach_workspace_database_id (de_from_str env) (de_pretty env) (de_compact env) db response of
             (kept, response) \<Rightarrow> (response, if kept then s else forget_allocated route s))
      | _ \<Rightarrow> (response, s))"

definition tool_mux_call ::
  "server_config \<Rightarrow> 'v dispatch_env \<Rightarrow> 'v tool_handler \<Rightarrow> tool_request \<Rightarrow> 'v srv \<Rightarrow> (error_data + 'v call_response) \<times> 'v srv" where
  "tool_mux_call cfg env handler rq s =
     (let s = de_gap env 0 s;
          should_materialize = tq_name rq = ''open_dsc'' \<and> \<not> sc_workspace cfg \<and> tq_speaks_2026 rq \<and> tq_supports_tasks rq
      in case route_call cfg env rq (fst (fst s)) of
           (Inl e, r) \<Rightarrow> (Inl e, on_registry (\<lambda>_. r) s)
         | (Inr route, r) \<Rightarrow>
             (let arguments = snd (take_workspace_database_id (de_parse_uuid env) (tq_arguments rq))
              in case handler (routed_database route) (rq\<lparr>tq_arguments := arguments\<rparr>) (on_registry (\<lambda>_. r) s) of
                   (result, s) \<Rightarrow>
                     (let s = de_gap env 1 (drop_route_lease route (de_now env 1) s)
                      in case result of
                           Inl e \<Rightarrow> (Inl e, forget_allocated route s)
                         | Inr response \<Rightarrow>
                             (case announce env route response s of
                                (response, s) \<Rightarrow>
                                  (let s = de_gap env 2 s
                                   in case materialize_task_response (de_from_str env) should_materialize (de_now env 2) response (snd s) of
                                        (answer, tasks) \<Rightarrow> (answer, (fst s, tasks)))))))"

section \<open>Closing a database\<close>

text \<open>How the worker answers: the close has an outcome, or the owner's token was required.\<close>

datatype close_reply = CloseSettled "tool_error + unit" | CloseDenied string

definition close_idb_worker ::
  "server_config \<Rightarrow> bool \<Rightarrow> pool_config \<Rightarrow> close_env \<Rightarrow> string \<Rightarrow> string option \<Rightarrow> bool option \<Rightarrow> ws \<Rightarrow> close_reply \<times> ws" where
  "close_idb_worker cfg uses_close_tokens pc ce session_id tok force w =
     (if \<not> sc_workspace cfg \<and> sc_mode cfg = ModeHttp \<and> uses_close_tokens
      then (case close_authorized pc ce session_id tok (force = Some True) w of
              (Inl e, w) \<Rightarrow> (CloseSettled (Inl e), w)
            | (Inr (Denied owner), w) \<Rightarrow> (CloseDenied owner, w)
            | (Inr _, w) \<Rightarrow> (CloseSettled (Inr ()), w))
      else (case close_database pc ce w of (result, w) \<Rightarrow> (CloseSettled result, w)))"

definition workspace_close_should_remove_entry ::
  "tool_error + unit \<Rightarrow> string option \<Rightarrow> instant \<Rightarrow> 'v task_registry \<Rightarrow> bool \<times> 'v task_registry" where
  "workspace_close_should_remove_entry result database_id now tasks =
     (if result \<noteq> Inl NoDatabaseOpen then (True, tasks)
      else case database_id of
             None \<Rightarrow> (True, tasks)
           | Some db \<Rightarrow> (case has_running_workspace_open db now tasks of (running, tasks) \<Rightarrow> (\<not> running, tasks)))"

definition denied_json :: "string \<Rightarrow> json" where
  "denied_json owner =
     JObj [(''closed'', JBool False), (''reason'', JStr ''owner token required''),
           (''owner_session_id'', JStr owner),
           (''hint'', JStr (''Provide the close_token from open_idb, or call close_idb(force=true) from a trusted '' @
              ''client if that token was lost.''))]"

text \<open>
  \<open>worker_db\<close> is the entry whose database the worker of the call is bound to, \<open>workspace_db\<close> the id the call
  was routed with, if any. Between the answer of the worker and the removal the handler does not wait.
\<close>

definition close_idb ::
  "server_config \<Rightarrow> 'v dispatch_env \<Rightarrow> bool \<Rightarrow> pool_config \<Rightarrow> close_env \<Rightarrow> string \<Rightarrow> string \<Rightarrow> string option \<Rightarrow> string option \<Rightarrow> bool option
   \<Rightarrow> 'v srv \<Rightarrow> call_tool_result \<times> 'v srv" where
  "close_idb cfg env uses_close_tokens pc ce session_id worker_db workspace_db tok force s =
     (case on_database worker_db (close_idb_worker cfg uses_close_tokens pc ce session_id tok force) (fst s) of
        (Some (CloseDenied owner), sys) \<Rightarrow>
          (success_result [TextContent (case de_pretty env (denied_json owner) of
               Some t \<Rightarrow> t | None \<Rightarrow> ''close_idb ignored: owner token required'')], (sys, snd s))
      | (reply, sys) \<Rightarrow>
          (let result = (case reply of Some (CloseSettled result) \<Rightarrow> result | _ \<Rightarrow> Inl NoDatabaseOpen)
           in case workspace_close_should_remove_entry result workspace_db (de_now env 3) (snd s) of
                (remove, tasks) \<Rightarrow>
                  (let s = (sys, tasks);
                       s = (if remove \<and> sc_workspace cfg
                            then (case workspace_db of Some db \<Rightarrow> on_registry (\<lambda>r. snd (remove_database db r)) s | None \<Rightarrow> s)
                            else s)
                   in (case result of Inr _ \<Rightarrow> success_result [TextContent ''Database closed''] | Inl e \<Rightarrow> to_tool_result e, s))))"

section \<open>The outer server\<close>

record outer_server =
  os_filter :: tool_filter
  os_workspace :: bool
  os_child :: bool

definition disabled_tool_message :: "string \<Rightarrow> bool \<Rightarrow> bool \<Rightarrow> string" where
  "disabled_tool_message name workspace debugger =
     (let quoted = ''tool '' @ [CHR 0x27] @ name @ [CHR 0x27]
      in if (case get_tool name of Some t \<Rightarrow> rq_workspace (ti_requirements t) \<and> \<not> workspace | None \<Rightarrow> False)
         then quoted @ '' requires explicit --workspace startup; call tool_catalog to see enabled tools''
         else if \<not> debugger \<and> (case get_tool name of Some t \<Rightarrow> rq_debugger (ti_requirements t) | None \<Rightarrow> False)
         then quoted @ '' requires explicit --enable-debugger startup and a platform whose native debugger integration gate has passed; call tool_catalog to see enabled tools''
         else quoted @ '' is disabled by current filter (--toolsets/--tools/--exclude-tools/--read-only); call tool_catalog to see enabled tools'')"

text \<open>\<open>inner\<close> is the call of the inner server; the flag of the state is the crash signal of the process.\<close>

definition sanitized_call_tool ::
  "outer_server \<Rightarrow> (tool_request \<Rightarrow> 's \<times> bool \<Rightarrow> (error_data + 'v call_response) \<times> 's \<times> bool) \<Rightarrow> tool_request
   \<Rightarrow> 's \<times> bool \<Rightarrow> (error_data + 'v call_response) \<times> 's \<times> bool" where
  "sanitized_call_tool srv inner rq s =
     (let name = tq_name rq;
          refusal = Inl (invalid_params (disabled_tool_message name (os_workspace srv) (tf_debugger_enabled (os_filter srv))))
      in if get_tool name \<noteq> None \<and> \<not> is_enabled (os_filter srv) name then (refusal, s)
         else if (case get_tool name of Some t \<Rightarrow> rq_workspace (ti_requirements t) \<and> \<not> os_workspace srv | None \<Rightarrow> False)
         then (refusal, s)
         else
           (case inner rq s of
              (response, (s, signal)) \<Rightarrow>
                (let response =
                       (case response of
                          Inr (RespComplete r) \<Rightarrow> if \<not> os_child srv then Inr (RespComplete (strip_result_metadata r)) else response
                        | _ \<Rightarrow> response)
                 in if \<not> (os_child srv \<and> signal) then (response, (s, signal))
                    else
                      (let r =
                             (case response of
                                Inr (RespComplete r) \<Rightarrow> r
                              | _ \<Rightarrow> to_tool_result (SdkCrashed (name @ '' crashed inside the IDA SDK. The database state can no longer be '' @
                                       ''trusted; reopen it.'')))
                       in (Inr (RespComplete (mark_sdk_crashed r)), (s, False))))))"

section \<open>The lease of a call\<close>

text \<open>
  What goes on while a call runs on the database \<open>db\<close>: other calls take and return leases on it, only
  \<open>n\<close> of which they hold, tools work on any database, tasks pin, the reaper probes and removes, and
  other databases come and go. With \<open>closing\<close> clients also remove \<open>db\<close> itself, as \<open>close_idb\<close> does.
\<close>

inductive others_step :: "pool_config \<Rightarrow> bool \<Rightarrow> string \<Rightarrow> nat \<times> reg_sys \<Rightarrow> nat \<times> reg_sys \<Rightarrow> bool" for cfg closing db where
  os_acquire: "lookup_entry r db \<noteq> None \<Longrightarrow> others_step cfg closing db (n, r, p) (Suc n, snd (acquire_database db now r), p)"
| os_drop: "others_step cfg closing db (Suc n, r, p) (n, drop_workspace_lease db now r, p)"
| os_reap: "take_expired_entries locked now xs r = (ys, r') \<Longrightarrow> others_step cfg closing db (n, r, p) (n, r', p)"
| os_allocate: "hm_get (rg_store r) uuid = None \<Longrightarrow> others_step cfg closing db (n, r, p) (n, snd (allocate_database uuid now r), p)"
| os_acquire_other: "db' \<noteq> db \<Longrightarrow> others_step cfg closing db (n, r, p) (n, snd (acquire_database db' now r), p)"
| os_drop_other: "db' \<noteq> db \<Longrightarrow> others_step cfg closing db (n, r, p) (n, drop_workspace_lease db' now r, p)"
| os_remove_other: "db' \<noteq> db \<Longrightarrow> others_step cfg closing db (n, r, p) (n, snd (remove_database db' r), p)"
| os_remove: "closing \<Longrightarrow> others_step cfg closing db (n, r, p) (n, snd (remove_database db r), p)"
| os_pin: "others_step cfg closing db (n, r, p) (n, snd (pin_database db' now r), p)"
| os_drop_pin: "others_step cfg closing db (n, r, p) (n, drop_workspace_pin db' now r, p)"
| os_use: "hm_get (rg_store r) db' = Some e \<Longrightarrow> held e \<Longrightarrow> db_handler cfg (re_database e, p) (d, p') \<Longrightarrow>
    others_step cfg closing db (n, r, p) (n, with_entry db' (\<lambda>e. e\<lparr>re_database := d\<rparr>) r, p')"
| os_probe: "probe_one cfg turn db' (r, p) = (x, s') \<Longrightarrow> others_step cfg closing db (n, r, p) (n, s')"
| os_close: "on_database db' (close_database cfg ce) (r, p) = (x, s') \<Longrightarrow> others_step cfg closing db (n, r, p) (n, s')"

inductive others_run :: "pool_config \<Rightarrow> bool \<Rightarrow> string \<Rightarrow> nat \<times> reg_sys \<Rightarrow> nat \<times> reg_sys \<Rightarrow> bool" for cfg closing db where
  others_refl: "others_run cfg closing db c c"
| others_next: "others_run cfg closing db c c1 \<Longrightarrow> others_step cfg closing db c1 c2 \<Longrightarrow> others_run cfg closing db c c2"

text \<open>The database is listed and \<open>m\<close> calls have a lease on it.\<close>

definition leased_by :: "nat \<Rightarrow> string \<Rightarrow> ws_registry \<Rightarrow> bool" where
  "leased_by m db r \<longleftrightarrow> hm_wf (rg_store r) \<and> (\<exists>e. lookup_entry r db = Some e \<and> re_active_calls e = m)"

lemma lookup_with_entry:
  "hm_wf (rg_store r) \<Longrightarrow> lookup_entry (with_entry db' f r) db = (if db = db' then map_option f (lookup_entry r db) else lookup_entry r db)"
  by (auto simp: lookup_entry_def with_entry_def hm.map_laws)

lemma wf_with_entry [simp]: "hm_wf (rg_store (with_entry db f r)) = hm_wf (rg_store r)"
  by (auto simp: with_entry_def hm_wf_def hm_modify_def comp_def case_prod_beta)

lemma leased_by_with:
  "leased_by m db r \<Longrightarrow> (\<And>e. re_active_calls (f e) = re_active_calls e) \<Longrightarrow> leased_by m db (with_entry db' f r)"
  by (auto simp: leased_by_def lookup_with_entry)

lemma leased_by_with_database [simp]: "leased_by m db r \<Longrightarrow> leased_by m db (with_entry db' (\<lambda>e. e\<lparr>re_database := d\<rparr>) r)"
  by (rule leased_by_with) simp_all

lemma leased_by_insert: "leased_by m db r \<Longrightarrow> hm_get (rg_store r) db' = None \<Longrightarrow> leased_by m db (insert_entry db' e r)"
  by (auto simp: leased_by_def lookup_entry_def insert_entry_def hm.map_laws split: if_splits)

lemma leased_by_acquire:
  "hm_wf (rg_store r) \<Longrightarrow> leased_by m db r \<Longrightarrow> leased_by (if db' = db then Suc m else m) db (snd (acquire_database db' now r))"
  by (auto simp: leased_by_def acquire_database_def lookup_with_entry touch_def split: option.split)

lemma leased_by_drop: "leased_by m db r \<Longrightarrow> leased_by (if db' = db then m - 1 else m) db (drop_workspace_lease db' now r)"
  by (auto simp: leased_by_def drop_workspace_lease_def lookup_with_entry touch_def)

lemma leased_by_remove: "leased_by m db r \<Longrightarrow> db' \<noteq> db \<Longrightarrow> leased_by m db (snd (remove_database db' r))"
  by (simp add: leased_by_def lookup_remove) (simp add: remove_database_def split: option.split)

text \<open>A leased entry is guarded, so the reaper leaves it alone.\<close>

lemma leased_by_reap: "leased_by (Suc m) db r \<Longrightarrow> take_expired_entries locked now xs r = (ys, r') \<Longrightarrow> leased_by (Suc m) db r'"
proof (induction xs arbitrary: r ys)
  case (Cons x xs)
  have "fst x \<noteq> db" if "still_reapable locked now x r"
    using that Cons.prems(1) by (auto simp: still_reapable_def leased_by_def unguarded_def split: option.splits)
  then show ?case
    using Cons.IH[of "snd (remove_database (fst x) r)"] Cons.IH[of r] Cons.prems leased_by_remove[OF Cons.prems(1), of "fst x"]
    by (auto split: if_splits prod.splits)
qed simp

lemma probe_one_registry:
  assumes "probe_one cfg turn db' (r, p) = (x, s')"
  shows "\<exists>d. fst s' = r \<or> fst s' = with_entry db' (\<lambda>e. e\<lparr>re_database := d\<rparr>) r"
  using assms by (auto simp: probe_one_def Let_def split: option.splits prod.splits lease_reap_decision.splits)

lemma on_database_registry:
  assumes "on_database db' f (r, p) = (x, s')"
  shows "\<exists>d. fst s' = r \<or> fst s' = with_entry db' (\<lambda>e. e\<lparr>re_database := d\<rparr>) r"
  using assms by (auto simp: on_database_def split: option.splits prod.splits)

lemma leased_by_database: "fst s' = r \<or> fst s' = with_entry db' (\<lambda>e. e\<lparr>re_database := d\<rparr>) r \<Longrightarrow> leased_by m db r \<Longrightarrow> leased_by m db (fst s')"
  by (elim disjE) simp_all

lemma leased_by_step: "others_step cfg closing db c c' \<Longrightarrow> \<not> closing \<Longrightarrow> leased_by (Suc (fst c)) db (fst (snd c)) \<Longrightarrow> leased_by (Suc (fst c')) db (fst (snd c'))"
proof (induction rule: others_step.induct)
  case (os_acquire r n p now)
  then show ?case using leased_by_acquire[of r "Suc n" db db now] by (simp add: leased_by_def)
next
  case (os_drop n r p now)
  then show ?case using leased_by_drop[of "Suc (Suc n)" db r db now] by simp
next
  case (os_acquire_other db' n r p now)
  then show ?case using leased_by_acquire[of r "Suc n" db db' now] by (simp add: leased_by_def)
next
  case (os_drop_other db' n r p now)
  then show ?case using leased_by_drop[of "Suc n" db r db' now] by simp
next
  case (os_probe turn db' r p x s' n)
  then show ?case using probe_one_registry[OF os_probe(1)] leased_by_database by auto
next
  case (os_close db' ce r p x s' n)
  then show ?case using on_database_registry[OF os_close(1)] leased_by_database by auto
qed (auto simp: leased_by_reap leased_by_remove allocate_database_def leased_by_insert pin_database_def drop_workspace_pin_def touch_def
    intro: leased_by_with split: option.splits)

lemma leased_by_run: "others_run cfg closing db c c' \<Longrightarrow> \<not> closing \<Longrightarrow> leased_by (Suc (fst c)) db (fst (snd c)) \<Longrightarrow> leased_by (Suc (fst c')) db (fst (snd c'))"
  by (induction rule: others_run.induct) (auto intro: leased_by_step)

text \<open>The database is still there, listed or not, and \<open>m\<close> calls have a lease on it.\<close>

definition held_by :: "nat \<Rightarrow> string \<Rightarrow> ws_registry \<Rightarrow> bool" where
  "held_by m db r \<longleftrightarrow> hm_wf (rg_store r) \<and> (\<exists>e. hm_get (rg_store r) db = Some e \<and> re_active_calls e = m)"

lemma leased_held: "leased_by m db r \<Longrightarrow> held_by m db r"
  by (auto simp: leased_by_def held_by_def lookup_entry_def split: if_splits)

lemma with_entry_get:
  "hm_wf (rg_store r) \<Longrightarrow> hm_get (rg_store (with_entry db' f r)) db =
     (if db = db' then map_option f (hm_get (rg_store r) db) else hm_get (rg_store r) db)"
  by (auto simp: with_entry_def hm.map_laws)

lemma held_by_with:
  "held_by m db r \<Longrightarrow> (\<And>e. re_active_calls (f e) = re_active_calls e) \<Longrightarrow> held_by m db (with_entry db' f r)"
  by (auto simp: held_by_def with_entry_get)

lemma held_by_insert: "held_by m db r \<Longrightarrow> hm_get (rg_store r) db' = None \<Longrightarrow> held_by m db (insert_entry db' e r)"
  by (auto simp: held_by_def insert_entry_def hm.map_laws split: if_splits)

lemma held_by_store: "rg_store r' = rg_store r \<Longrightarrow> held_by m db r' = held_by m db r"
  by (simp add: held_by_def)

lemma remove_database_store [simp]: "rg_store (snd (remove_database db r)) = rg_store r"
  by (simp add: remove_database_def split: option.split)

lemma held_by_remove [simp]: "held_by m db (snd (remove_database db' r)) = held_by m db r"
  by (rule held_by_store) simp

lemma held_by_acquire:
  "held_by m db r \<Longrightarrow> lookup_entry r db \<noteq> None \<or> db' \<noteq> db \<Longrightarrow>
   held_by (if db' = db then Suc m else m) db (snd (acquire_database db' now r))"
  by (auto simp: held_by_def acquire_database_def with_entry_get touch_def lookup_entry_def split: option.split if_splits)

lemma held_by_drop: "held_by m db r \<Longrightarrow> held_by (if db' = db then m - 1 else m) db (drop_workspace_lease db' now r)"
  by (auto simp: held_by_def drop_workspace_lease_def with_entry_get touch_def)

lemma held_by_reap: "held_by m db r \<Longrightarrow> take_expired_entries locked now xs r = (ys, r') \<Longrightarrow> held_by m db r'"
proof (induction xs arbitrary: r ys)
  case (Cons x xs)
  show ?case using Cons.IH[of "snd (remove_database (fst x) r)"] Cons.IH[of r] Cons.prems by (auto split: if_splits prod.splits)
qed simp

lemma held_by_step: "others_step cfg closing db c c' \<Longrightarrow> held_by (Suc (fst c)) db (fst (snd c)) \<Longrightarrow> held_by (Suc (fst c')) db (fst (snd c'))"
proof (induction rule: others_step.induct)
  case (os_acquire r n p now)
  then show ?case using held_by_acquire[of "Suc n" db r db now] by simp
next
  case (os_drop n r p now)
  then show ?case using held_by_drop[of "Suc (Suc n)" db r db now] by simp
next
  case (os_acquire_other db' n r p now)
  then show ?case using held_by_acquire[of "Suc n" db r db' now] by simp
next
  case (os_drop_other db' n r p now)
  then show ?case using held_by_drop[of "Suc n" db r db' now] by simp
next
  case (os_probe turn db' r p x s' n)
  then show ?case using probe_one_registry[OF os_probe(1)] by (auto simp: held_by_with)
next
  case (os_close db' ce r p x s' n)
  then show ?case using on_database_registry[OF os_close(1)] by (auto simp: held_by_with)
qed (auto simp: held_by_reap allocate_database_def held_by_insert pin_database_def drop_workspace_pin_def touch_def
    intro: held_by_with split: option.splits)

lemma held_by_run: "others_run cfg closing db c c' \<Longrightarrow> held_by (Suc (fst c)) db (fst (snd c)) \<Longrightarrow> held_by (Suc (fst c')) db (fst (snd c'))"
  by (induction rule: others_run.induct) (auto intro: held_by_step)

section \<open>Properties of a call\<close>

lemma on_registry_simps [simp]:
  "fst (fst (on_registry f s)) = f (fst (fst s))" "snd (fst (on_registry f s)) = snd (fst s)" "snd (on_registry f s) = snd s"
  by (simp_all add: on_registry_def)

lemma on_registry_const [simp]: "on_registry (\<lambda>_. fst (fst s)) s = s"
  by (simp add: on_registry_def)

lemma materialize_off [simp]: "materialize_task_response from_str False now response tasks = (Inr response, tasks)"
  by (simp add: materialize_task_response_def)

text \<open>What the router selects, and that a refusal changes nothing.\<close>

lemma route_refused: "route_call cfg env rq r = (Inl e, r') \<Longrightarrow> r' = r"
  by (auto simp: route_call_def route_in_workspace_def allocate_database_def acquire_database_def Let_def
      split: if_splits sum.splits option.splits prod.splits)

lemma route_database_tool:
  assumes "sc_workspace cfg" "get_tool (tq_name rq) = Some t" "ti_scope t = ScopeDatabase" "\<not> allocates_database (tq_name rq)"
    and "route_call cfg env rq r = (Inr route, r')"
  shows "\<exists>db. fst (take_workspace_database_id (de_parse_uuid env) (tq_arguments rq)) = Inr (Some db) \<and> route = RouteAcquired db
    \<and> lookup_entry r db \<noteq> None \<and> r' = snd (acquire_database db (de_now env 0) r)"
  using assms
  by (auto simp: route_call_def route_in_workspace_def acquire_database_def Let_def split: if_splits sum.splits option.splits)

lemma tool_mux_call_acquired:
  assumes "sc_workspace cfg" "route_call cfg env rq (fst (fst (de_gap env 0 s))) = (Inr (RouteAcquired db), r)"
    and "handler (Some db) (rq\<lparr>tq_arguments := snd (take_workspace_database_id (de_parse_uuid env) (tq_arguments rq))\<rparr>)
           (on_registry (\<lambda>_. r) (de_gap env 0 s)) = (result, s2)"
    and "\<forall>k>0. de_gap env k = id"
  shows "tool_mux_call cfg env handler rq s = (result, on_registry (drop_workspace_lease db (de_now env 1)) s2)"
  using assms by (auto simp: tool_mux_call_def Let_def drop_route_lease_def forget_allocated_def announce_def split: sum.split)

text \<open>Example inputs for the witnesses.\<close>

lemma demo_tool: "\<exists>t. get_tool ''dsc_add_dylib'' = Some t \<and> ti_scope t = ScopeDatabase \<and> \<not> rq_workspace (ti_requirements t) \<and> \<not> rq_debugger (ti_requirements t)"
  by (simp add: get_tool_def TOOL_REGISTRY_def tools_core_def BASELINE_def)

lemma demo_open_tool: "\<exists>t. get_tool ''open_idb'' = Some t"
  by (simp add: get_tool_def TOOL_REGISTRY_def tools_core_def)

definition demo_request :: "string \<Rightarrow> (string, json) hashmap option \<Rightarrow> tool_request" where
  "demo_request name arguments = \<lparr>tq_name = name, tq_arguments = arguments, tq_request_state = None, tq_input_responses = None,
     tq_inline_metadata = False, tq_speaks_2026 = False, tq_supports_tasks = False\<rparr>"

definition demo_server :: server_config where
  "demo_server = \<lparr>sc_mode = ModeStdio, sc_workspace = True, sc_legacy_pooled = False, sc_stateless_http = False\<rparr>"

definition demo_env :: "nat dispatch_env" where
  "demo_env = \<lparr>de_uuid = ''u'', de_now = (\<lambda>_. 30), de_gap = (\<lambda>_. id), de_parse_uuid = Some,
     de_from_str = (\<lambda>t. if t = ''id'' then Some (id_object ''u'') else if t = ''{}'' then Some (JObj []) else None),
     de_pretty = (\<lambda>j. if j = id_object ''u'' then Some ''id'' else None), de_compact = (\<lambda>_. ''id'')\<rparr>"

definition demo_srv :: "nat srv" where
  "demo_srv = ((demo_registry (demo_entry demo_database 3 0), demo_pool (Leased ''a'' 1) 5 1), \<lparr>tr_entries = [], tr_fired = []\<rparr>)"

definition demo_handler :: "nat tool_handler" where
  "demo_handler db rq s = (Inr (RespComplete (success_result [TextContent ''{}''])), s)"

lemmas demo_defs = demo_request_def demo_server_def demo_env_def demo_srv_def demo_handler_def



text \<open>The client learns of a new database when a finished answer, not an error or a duplicate, carries its id.\<close>

definition json_entry :: "json option \<Rightarrow> string \<Rightarrow> json option" where
  "json_entry v k = Option.bind (json_fields v) (\<lambda>m. hm_get m k)"

definition hands_out :: "'v dispatch_env \<Rightarrow> string \<Rightarrow> 'v call_response \<Rightarrow> bool" where
  "hands_out env db response =
     (case response of
        RespComplete r \<Rightarrow>
          tr_is_error r \<noteq> Some True
          \<and> json_entry (first_json (de_from_str env) r) ''status'' \<noteq> Some (JStr ''already_running'')
          \<and> (json_entry (first_json (de_from_str env) r) ''database_id'' = Some (JStr db)
             \<or> (tr_content r \<noteq> [] \<and> last (tr_content r) = TextContent (de_compact env (id_object db))))
      | _ \<Rightarrow> False)"

lemma attach_hands_out:
  assumes pretty: "\<And>j t. de_pretty env j = Some t \<Longrightarrow> de_from_str env t = Some j"
    and compact: "de_from_str env (de_compact env (id_object db)) = Some (id_object db)"
    and attach: "attach_workspace_database_id (de_from_str env) (de_pretty env) (de_compact env) db response = (kept, response')"
  shows "kept \<longleftrightarrow> hands_out env db response'"
proof (cases response)
  case (RespComplete r)
  define fields where "fields = json_fields (first_json (de_from_str env) r)"
  have entry: "json_entry (first_json (de_from_str env) r) k = Option.bind fields (\<lambda>m. hm_get m k)" for k
    by (simp add: json_entry_def fields_def)
  show ?thesis
  proof (cases "tr_is_error r = Some True \<or> Option.bind fields (\<lambda>m. hm_get m ''status'') = Some (JStr ''already_running'')")
    case True
    then have "kept = False" "response' = response"
      using attach RespComplete by (auto simp: attach_workspace_database_id_def fields_def Let_def split: if_splits)
    then show ?thesis using True RespComplete entry by (auto simp: hands_out_def)
  next
    case False
    define replacement where "replacement = Option.bind fields (\<lambda>m. de_pretty env (JObj (hm_insert ''database_id'' (JStr db) m)))"
    define cs where "cs = (case (replacement, tr_content r) of (Some t, _ # cs) \<Rightarrow> TextContent t # cs
      | (_, cs) \<Rightarrow> cs @ [TextContent (de_compact env (id_object db))])"
    have answer: "kept = True" "response' = RespComplete (r\<lparr>tr_content := cs\<rparr>)"
      using attach RespComplete False
      by (auto simp: attach_workspace_database_id_def fields_def replacement_def cs_def Let_def split: if_splits)
    have "hands_out env db (RespComplete (r\<lparr>tr_content := cs\<rparr>))"
    proof (cases "\<exists>t c rest. replacement = Some t \<and> tr_content r = c # rest")
      case True
      then obtain t m where t: "replacement = Some t" "fields = Some m" "de_pretty env (JObj (hm_insert ''database_id'' (JStr db) m)) = Some t"
          "cs = TextContent t # tl (tr_content r)"
        by (auto simp: replacement_def cs_def bind_eq_Some_conv)
      then show ?thesis using False pretty[OF t(3)]
        by (simp add: hands_out_def json_entry_def first_json_def) (simp add: json_fields_def hm_get_insert_raw)
    next
      case none: False
      then have cs: "cs = tr_content r @ [TextContent (de_compact env (id_object db))]"
        by (auto simp: cs_def split: option.split list.split)
      have "json_entry (first_json (de_from_str env) (r\<lparr>tr_content := cs\<rparr>)) ''status'' \<noteq> Some (JStr ''already_running'')"
      proof (cases "tr_content r")
        case Nil
        then show ?thesis using compact by (simp add: cs first_json_def json_entry_def json_fields_def id_object_def hm_get_def)
      next
        case (Cons c rest)
        then have "first_json (de_from_str env) (r\<lparr>tr_content := cs\<rparr>) = first_json (de_from_str env) r" by (simp add: cs first_json_def)
        then show ?thesis using False entry by simp
      qed
      then show ?thesis using False by (simp add: hands_out_def cs)
    qed
    then show ?thesis using answer by simp
  qed
qed (use attach in \<open>auto simp: attach_workspace_database_id_def hands_out_def\<close>)

lemma route_open:
  assumes "sc_workspace cfg" "allocates_database (tq_name rq)" "route_call cfg env rq r = (Inr route, r')"
  shows "route = RouteAllocated (de_uuid env) \<and> r' = snd (allocate_database (de_uuid env) (de_now env 0) r)"
  using assms
  by (auto simp: route_call_def route_in_workspace_def allocate_database_def Let_def split: if_splits sum.splits option.splits)

lemma leased_by_allocate:
  "hm_wf (rg_store r) \<Longrightarrow> hm_get (rg_store r) uuid = None \<Longrightarrow> leased_by 1 uuid (snd (allocate_database uuid now r))"
  by (simp add: leased_by_def allocate_database_def insert_entry_def lookup_entry_def hm.map_laws)

lemma listed_leased: "leased_by n db r \<Longrightarrow> db \<in> set (rg_entries r)"
  by (auto simp: leased_by_def lookup_entry_def split: if_splits)

lemma removed_not_listed: "leased_by n db r \<Longrightarrow> db \<notin> set (rg_entries (snd (remove_database db r)))"
  by (auto simp: leased_by_def remove_database_def)

lemma tool_mux_call_allocated:
  assumes "sc_workspace cfg" "route_call cfg env rq (fst (fst (de_gap env 0 s))) = (Inr (RouteAllocated db), r)"
    and "handler (Some db) (rq\<lparr>tq_arguments := snd (take_workspace_database_id (de_parse_uuid env) (tq_arguments rq))\<rparr>)
           (on_registry (\<lambda>_. r) (de_gap env 0 s)) = (result, s2)"
    and "\<forall>k>0. de_gap env k = id"
  shows "tool_mux_call cfg env handler rq s =
    (let s3 = on_registry (drop_workspace_lease db (de_now env 1)) s2
     in case result of
          Inl e \<Rightarrow> (Inl e, forget_allocated (RouteAllocated db) s3)
        | Inr response \<Rightarrow> (case announce env (RouteAllocated db) response s3 of (response, s4) \<Rightarrow> (Inr response, s4)))"
  using assms by (auto simp: tool_mux_call_def Let_def drop_route_lease_def split: sum.split prod.split)

lemma leased_listed_iff:
  assumes "leased_by n db (fst (fst s))"
  shows "db \<in> set (rg_entries (fst (fst s)))" "db \<notin> set (rg_entries (fst (fst (forget_allocated (RouteAllocated db) s))))"
  using listed_leased[OF assms] removed_not_listed[OF assms] by (simp_all add: forget_allocated_def)

text \<open>
  A new database is kept exactly when its id reaches the client. When an open call in workspace mode ends,
  the database it allocated is listed if and only if the answer is finished, no error and no duplicate, and
  carries the id, whatever other calls, tasks and the reaper do while the tool runs.
\<close>

theorem allocation_kept_iff_returned:
  assumes "sc_workspace cfg" "allocates_database (tq_name rq)"
    and pretty: "\<And>j t. de_pretty env j = Some t \<Longrightarrow> de_from_str env t = Some j"
    and compact: "de_from_str env (de_compact env (id_object (de_uuid env))) = Some (id_object (de_uuid env))"
    and gaps: "\<forall>k>0. de_gap env k = id"
    and wf: "hm_wf (rg_store (fst (fst (de_gap env 0 s))))"
    and fresh: "hm_get (rg_store (fst (fst (de_gap env 0 s)))) (de_uuid env) = None"
      "de_uuid env \<notin> set (rg_entries (fst (fst (de_gap env 0 s))))"
    and others: "\<And>s1 result s2. handler (Some (de_uuid env))
        (rq\<lparr>tq_arguments := snd (take_workspace_database_id (de_parse_uuid env) (tq_arguments rq))\<rparr>) s1 = (result, s2)
      \<Longrightarrow> \<exists>pc n. others_run pc False (de_uuid env) (0, fst s1) (n, fst s2)"
    and call: "tool_mux_call cfg env handler rq s = (answer, s')"
  shows "de_uuid env \<in> set (rg_entries (fst (fst s'))) \<longleftrightarrow> (\<exists>response. answer = Inr response \<and> hands_out env (de_uuid env) response)"
proof (cases "route_call cfg env rq (fst (fst (de_gap env 0 s)))")
  case (Pair choice r)
  show ?thesis
  proof (cases choice)
    case (Inl e)
    with Pair have "r = fst (fst (de_gap env 0 s))" using route_refused by blast
    then show ?thesis using Pair Inl call fresh(2) by (auto simp: tool_mux_call_def Let_def)
  next
    case (Inr route)
    then have route: "route = RouteAllocated (de_uuid env)" "r = snd (allocate_database (de_uuid env) (de_now env 0) (fst (fst (de_gap env 0 s))))"
      using route_open[OF assms(1,2)] Pair by blast+
    define s1 where "s1 = on_registry (\<lambda>_. r) (de_gap env 0 s)"
    obtain result s2 where run: "handler (Some (de_uuid env))
        (rq\<lparr>tq_arguments := snd (take_workspace_database_id (de_parse_uuid env) (tq_arguments rq))\<rparr>) s1 = (result, s2)" by (rule prod.exhaust)
    then obtain pc n where "others_run pc False (de_uuid env) (0, fst s1) (n, fst s2)" using others by blast
    moreover have "leased_by 1 (de_uuid env) (fst (fst s1))" using leased_by_allocate[OF wf fresh(1)] by (simp add: s1_def route(2))
    ultimately have "leased_by (Suc n) (de_uuid env) (fst (fst s2))" using leased_by_run by fastforce
    then have left: "leased_by n (de_uuid env) (fst (fst (on_registry (drop_workspace_lease (de_uuid env) (de_now env 1)) s2)))"
      using leased_by_drop[of "Suc n" "de_uuid env" _ "de_uuid env"] by simp
    show ?thesis
      using tool_mux_call_allocated[OF assms(1) _ _ gaps, of rq s "de_uuid env" r handler result s2] Pair Inr route(1) run call
        leased_listed_iff[OF left] attach_hands_out[where env = env and db = "de_uuid env", OF pretty compact]
      by (auto simp: s1_def Let_def announce_def split: sum.splits prod.splits if_splits)
  qed
qed

theorem allocation_kept_iff_returned_witness:
  "''u'' \<in> set (rg_entries (fst (fst (snd (tool_mux_call demo_server demo_env demo_handler (demo_request ''open_idb'' None) demo_srv)))))"
proof -
  let ?rq = "demo_request ''open_idb'' None"
  let ?call = "tool_mux_call demo_server demo_env demo_handler ?rq demo_srv"
  obtain t where t: "get_tool ''open_idb'' = Some t" using demo_open_tool by blast
  have uuid: "de_uuid demo_env = ''u''" by (simp add: demo_defs)
  have "\<exists>response. fst ?call = Inr response \<and> hands_out demo_env ''u'' response"
    using t
    by (simp add: tool_mux_call_def route_call_def route_in_workspace_def allocates_database_def Let_def MRTR_AWARE_TOOLS_def
        take_workspace_database_id_def demo_defs allocate_database_def announce_def attach_workspace_database_id_def success_result_def
        json_fields_def json_entry_def first_json_def hands_out_def id_object_def hm_get_def hm_insert_def hm_remove_def)
  moreover have "''u'' \<in> set (rg_entries (fst (fst (snd ?call))))
      \<longleftrightarrow> (\<exists>response. fst ?call = Inr response \<and> hands_out demo_env ''u'' response)"
  proof (rule allocation_kept_iff_returned[of demo_server ?rq demo_env demo_srv demo_handler, unfolded uuid])
    show "de_from_str demo_env v = Some j" if "de_pretty demo_env j = Some v" for j v
      using that by (auto simp: demo_env_def split: if_splits)
    show "\<exists>pc n. others_run pc False ''u'' (0, fst s1) (n, fst s2)" if "demo_handler (Some ''u'') rq s1 = (result, s2)" for rq s1 result s2
      using that by (auto simp: demo_handler_def intro: others_refl)
  qed (simp_all add: demo_defs allocates_database_def demo_registry_def hm_wf_def hm_get_def)
  ultimately show ?thesis by blast
qed

text \<open>
  C33: A crash of the SDK is reported to the parent and to nobody else. For a call that was not refused: a
  child whose crash signal was raised answers with a finished result that the parent reads as the fatal crash error,
  whatever the tool itself answered, and the signal is taken; in every other case a finished result carries no
  crash marker, unless the tool of a child put it there.
\<close>

theorem crash_reported_exactly:
  assumes run: "inner rq s = (response, s1, signal)"
    and enabled: "get_tool (tq_name rq) = None \<or> is_enabled (os_filter srv) (tq_name rq)"
      "case get_tool (tq_name rq) of Some t \<Rightarrow> \<not> rq_workspace (ti_requirements t) \<or> os_workspace srv | None \<Rightarrow> True"
    and wf: "\<And>r m. response = Inr (RespComplete r) \<Longrightarrow> tr_meta r = Some m \<Longrightarrow> hm_wf m"
    and unmarked: "\<And>r. os_child srv \<Longrightarrow> response = Inr (RespComplete r) \<Longrightarrow> \<not> is_sdk_crash r"
  shows "\<exists>answer signal'. sanitized_call_tool srv inner rq s = (answer, s1, signal')
    \<and> (if os_child srv \<and> signal
       then \<not> signal' \<and> (\<exists>r e. answer = Inr (RespComplete r) \<and> sdk_crash r (tq_name rq) = Some e \<and> is_fatal e)
       else signal' = signal \<and> (\<forall>r. answer = Inr (RespComplete r) \<longrightarrow> sdk_crash r (tq_name rq) = None))"
proof -
  have crash: "\<exists>e. sdk_crash (mark_sdk_crashed r) tool = Some e \<and> is_fatal e" if "\<forall>m. tr_meta r = Some m \<longrightarrow> hm_wf m" for r tool
    using is_sdk_crash_mark[OF that] by (simp add: sdk_crash_def)
  have "\<forall>m. tr_meta (to_tool_result e) = Some m \<longrightarrow> hm_wf m" for e by (simp add: to_tool_result_def error_result_def)
  note fresh = crash[OF this]
  have stripped: "\<not> is_sdk_crash (strip_result_metadata r)" if "response = Inr (RespComplete r)" for r
    using is_sdk_crash_strip[of r] wf[OF that] by blast
  show ?thesis
  proof (cases "\<exists>r. response = Inr (RespComplete r)")
    case True
    then obtain r where r: "response = Inr (RespComplete r)" by blast
    have "\<exists>e. sdk_crash (mark_sdk_crashed r) (tq_name rq) = Some e \<and> is_fatal e" using crash wf[OF r] by blast
    then show ?thesis
      using enabled run stripped[OF r] unmarked[OF _ r]
      by (auto simp: sanitized_call_tool_def Let_def r sdk_crash_def split: option.splits)
  next
    case False
    then show ?thesis
      using enabled run fresh
      by (auto simp: sanitized_call_tool_def Let_def split: option.splits sum.splits call_response.splits)
  qed
qed

theorem crash_reported_exactly_witness:
  "\<exists>r e. fst (sanitized_call_tool \<lparr>os_filter = \<lparr>tf_enabled = {''dsc_add_dylib''}, tf_is_active = False, tf_debugger_enabled = False,
        tf_workspace_enabled = False\<rparr>, os_workspace = False, os_child = True\<rparr>
      (\<lambda>rq s. (Inl (mcp_internal_error ''gone''), fst s, True)) (demo_request ''dsc_add_dylib'' None) ((), False))
    = (Inr (RespComplete r) :: error_data + nat call_response) \<and> sdk_crash r ''dsc_add_dylib'' = Some e \<and> is_fatal e"
proof -
  let ?srv = "\<lparr>os_filter = \<lparr>tf_enabled = {''dsc_add_dylib''}, tf_is_active = False, tf_debugger_enabled = False,
        tf_workspace_enabled = False\<rparr>, os_workspace = False, os_child = True\<rparr>"
  let ?inner = "\<lambda>rq (s :: unit \<times> bool). (Inl (mcp_internal_error ''gone'') :: error_data + nat call_response, fst s, True)"
  obtain t where t: "get_tool ''dsc_add_dylib'' = Some t" "\<not> rq_workspace (ti_requirements t)" "\<not> rq_debugger (ti_requirements t)"
    using demo_tool by blast
  show ?thesis
    using crash_reported_exactly[of ?inner "demo_request ''dsc_add_dylib'' None" "((), False)" "Inl (mcp_internal_error ''gone'')" "()" True ?srv] t
    by (auto simp: demo_request_def is_enabled_def)
qed

text \<open>A close that settles leaves the database without a worker; one that is denied changes nothing.\<close>

lemma settled_handle_gone:
  assumes "reply = CloseSettled result" "close_idb_worker cfg uses_tokens pc ce session_id tok force w = (reply, (d, p))"
  shows "wd_handle d = None"
  using assms
  by (auto simp: close_idb_worker_def close_authorized_def close_database_def take_handle_def
      split: if_splits option.splits prod.splits sum.splits close_authorization.splits)

lemma denied_unchanged:
  assumes "close_idb_worker cfg uses_tokens pc ce session_id tok force (d0, p0) = (CloseDenied owner, (d, p))"
  shows "d = d0 \<and> p = p0 \<and> \<not> sc_workspace cfg \<and> sc_mode cfg = ModeHttp \<and> uses_tokens \<and> force \<noteq> Some True"
proof -
  have granted: "authorize_close session_id tok True st \<noteq> Denied owner" for st
    by (simp add: authorize_close_def split: option.split)
  show ?thesis using assms granted
    by (auto simp: close_idb_worker_def close_authorized_def split: if_splits option.splits prod.splits sum.splits close_authorization.splits)
qed



end
