(* ===== verification/Tool_Endpoints.thy ===== *)
theory Tool_Endpoints
  imports Tool_Dispatch Task_Contract
begin

text \<open>
  \<open>src/src/server/mod.rs\<close>: what the server says beside running tools. The list of tools, the requests
  about background tasks with their owners, and the close metadata that goes into an answer.
\<close>

section \<open>The list of tools\<close>

text \<open>\<open>routed\<close> tells whether the router has a handler of a name.\<close>

definition list_all_tools :: "(string \<Rightarrow> bool) \<Rightarrow> string list" where
  "list_all_tools routed = filter routed (map ti_name TOOL_REGISTRY)"

definition list_tools :: "outer_server \<Rightarrow> string list \<Rightarrow> string list" where
  "list_tools srv tools =
     filter (\<lambda>name. is_enabled (os_filter srv) name
       \<and> (case get_tool name of None \<Rightarrow> True | Some t \<Rightarrow> \<not> rq_workspace (ti_requirements t) \<or> os_workspace srv)) tools"

definition call_refused :: "(error_data + 'v call_response) \<Rightarrow> string \<Rightarrow> outer_server \<Rightarrow> bool" where
  "call_refused answer name srv \<longleftrightarrow>
     answer = Inl (invalid_params (disabled_tool_message name (os_workspace srv) (tf_debugger_enabled (os_filter srv))))"

section \<open>Requests about tasks\<close>

definition is_sessionless_http_request :: "server_config \<Rightarrow> bool \<Rightarrow> bool" where
  "is_sessionless_http_request cfg inline_metadata \<longleftrightarrow> sc_mode cfg = ModeHttp \<and> (sc_stateless_http cfg \<or> inline_metadata)"

definition request_task_owner :: "server_config \<Rightarrow> task_owner \<Rightarrow> bool \<Rightarrow> task_owner" where
  "request_task_owner cfg session_task_owner inline_metadata =
     (if is_sessionless_http_request cfg inline_metadata then Runtime else session_task_owner)"

text \<open>Which lifetime a background task has as its parent.\<close>

datatype session_lifetime = RuntimeLifetime | SessionBound

definition background_lifetime :: "server_config \<Rightarrow> bool \<Rightarrow> session_lifetime" where
  "background_lifetime cfg inline_metadata =
     (if is_sessionless_http_request cfg inline_metadata then RuntimeLifetime else SessionBound)"

definition unknown_task :: error_data where
  "unknown_task = invalid_params ''Unknown task_id''"

definition get_task_request ::
  "task_owner \<Rightarrow> string \<Rightarrow> instant \<Rightarrow> 'v task_registry \<Rightarrow> (error_data + 'v task_state) \<times> 'v task_registry" where
  "get_task_request owner tid t tasks =
     (case get_for_owner owner tid t tasks of
        (None, tasks) \<Rightarrow> (Inl unknown_task, tasks)
      | (Some st, tasks) \<Rightarrow> (Inr st, tasks))"

definition apply_task_update ::
  "task_owner \<Rightarrow> string \<Rightarrow> instant \<Rightarrow> 'v task_registry \<Rightarrow> (error_data + unit) \<times> 'v task_registry" where
  "apply_task_update owner tid t tasks =
     (case get_for_owner owner tid t tasks of
        (None, tasks) \<Rightarrow> (Inl unknown_task, tasks)
      | (Some _, tasks) \<Rightarrow> (Inr (), tasks))"

definition cancel_task_request ::
  "task_owner \<Rightarrow> string \<Rightarrow> clock \<Rightarrow> instant \<Rightarrow> 'v task_registry \<Rightarrow> (error_data + unit) \<times> 'v task_registry" where
  "cancel_task_request owner tid now t tasks =
     (case get_for_owner owner tid t tasks of
        (None, tasks) \<Rightarrow> (Inl unknown_task, tasks)
      | (Some st, tasks) \<Rightarrow>
          (Inr (), if ts_status st = TsRunning then snd (cancel_for_owner owner tid now t tasks) else tasks))"

text \<open>The task as the protocol shows it. \<open>looks_like\<close> tells whether a value parses as a tool result.\<close>

datatype task_payload = TpWorking | TpCompleted "(string \<times> json) list" | TpFailed "(string \<times> json) list" | TpCancelled

definition value_as_json_object :: "json \<Rightarrow> (string \<times> json) list" where
  "value_as_json_object v = (case v of JObj m \<Rightarrow> m | _ \<Rightarrow> [(''value'', v)])"

definition task_payload_result_value :: "(json \<Rightarrow> bool) \<Rightarrow> (json \<Rightarrow> json) \<Rightarrow> json option \<Rightarrow> json" where
  "task_payload_result_value looks_like wrap result =
     (case result of Some v \<Rightarrow> if looks_like v then v else wrap v | None \<Rightarrow> wrap JNull)"

definition task_state_payload :: "(json \<Rightarrow> bool) \<Rightarrow> (json \<Rightarrow> json) \<Rightarrow> json task_state \<Rightarrow> task_payload" where
  "task_state_payload looks_like wrap st =
     (case ts_status st of
        TsRunning \<Rightarrow> TpWorking
      | TsCompleted \<Rightarrow> TpCompleted (value_as_json_object (task_payload_result_value looks_like wrap (ts_result st)))
      | TsFailed \<Rightarrow> TpFailed (value_as_json_object (JObj [(''code'', JNum ''-32603''), (''message'', JStr (ts_message st))]))
      | TsCancelled \<Rightarrow> TpCancelled)"

section \<open>Close metadata\<close>

definition close_hint_for :: "server_mode \<Rightarrow> bool \<Rightarrow> bool \<Rightarrow> string" where
  "close_hint_for mode pooled workspace =
     (if workspace then ''In workspace mode, call close_idb with this database_id to release its IDA worker and database state.''
      else case (mode, pooled) of
        (ModeHttp, True) \<Rightarrow> ''In pooled HTTP/SSE mode, close_idb releases this session'' @ [CHR 0x27] @
           ''s child worker lease. Sessions do not share one global close_token.''
      | (ModeStdio, _) \<Rightarrow> ''Call close_idb when done to release locks for other sessions.''
      | (ModeHttp, False) \<Rightarrow> ''In HTTP/SSE mode, keep the close_token returned by open_idb. Sessionless MCP 2026 and non-owning legacy contexts must pass it to close_idb; the owning legacy session can close directly. If the token is lost, close_idb(force=true) can recover the shared IDA context.''
      | (ModeWorker, _) \<Rightarrow> ''Child worker mode is managed by the parent router; close_idb is normally called by the parent.'')"

definition apply_close_metadata ::
  "(string + close_token_grant) option \<Rightarrow> string \<Rightarrow> (string, json) hashmap \<Rightarrow> (string, json) hashmap" where
  "apply_close_metadata grant close_hint m =
     (case grant of
        Some (Inr g) \<Rightarrow>
          (let m = hm_insert ''close_token'' (JStr (cg_token g))
                     (hm_insert ''close_owner_session_id'' (JStr (cg_owner_session_id g)) (hm_insert ''close_hint'' (JStr close_hint) m))
           in if cg_reused g then hm_insert ''close_token_reused'' (JBool True) m else m)
      | Some (Inl owner) \<Rightarrow>
          hm_insert ''close_recovery_hint'' (JStr ''If the original close_token was lost, call close_idb(force=true) from a trusted client.'')
            (hm_insert ''close_owner_session_id'' (JStr owner)
              (hm_insert ''close_hint'' (JStr (''The open database is currently owned by HTTP context '' @ owner @
                ''. Provide its close_token to close_idb, or call close_idb(force=true) if that token was lost.'')) m))
      | None \<Rightarrow> hm_insert ''close_hint'' (JStr close_hint) m)"

definition http_close_grant ::
  "server_config \<Rightarrow> bool \<Rightarrow> (workspace_database \<Rightarrow> (string + close_token_grant) option \<times> workspace_database) \<Rightarrow> workspace_database
   \<Rightarrow> (string + close_token_grant) option \<times> workspace_database" where
  "http_close_grant cfg uses_close_tokens issue d =
     (if \<not> sc_workspace cfg \<and> sc_mode cfg = ModeHttp \<and> uses_close_tokens then issue d else (None, d))"

section \<open>Properties\<close>

text \<open>
  The tools that a client sees are the registered tools it may call: a routed tool is listed exactly when a
  call of it is not refused for the configuration, whatever its handler would answer.
\<close>

theorem listed_exactly_callable:
  assumes "routed name" "name \<in> set (map ti_name TOOL_REGISTRY)" "\<not> call_refused (fst (inner rq s)) name srv" "tq_name rq = name"
    and "os_child srv \<longrightarrow> \<not> snd (snd (inner rq s))"
  shows "name \<in> set (list_tools srv (list_all_tools routed)) \<longleftrightarrow> \<not> call_refused (fst (sanitized_call_tool srv inner rq s)) name srv"
proof -
  obtain t where t: "get_tool name = Some t" using assms(2) get_tool_iff[of name] by auto
  have "name \<in> set (list_tools srv (list_all_tools routed)) \<longleftrightarrow>
      is_enabled (os_filter srv) name \<and> (\<not> rq_workspace (ti_requirements t) \<or> os_workspace srv)"
    using assms(1,2) t by (simp add: list_tools_def list_all_tools_def)
  then show ?thesis
    using assms(3-5) t
    by (auto simp: sanitized_call_tool_def call_refused_def Let_def split: prod.splits sum.splits call_response.splits)
qed

text \<open>A request about a task of another owner is answered as if the task did not exist.\<close>

lemma get_for_owner_foreign:
  assumes "hm_wf (tr_entries tasks)" "hm_get (tr_entries tasks) tid = Some e" "te_owner e \<noteq> owner"
  shows "get_for_owner owner tid t tasks = (None, tasks\<lparr>tr_entries := prune_terminal_tasks t (tr_entries tasks)\<rparr>)"
  using assms by (auto simp: get_for_owner_def prune_terminal_tasks_def Let_def hm.map_laws split: option.split)

lemma get_for_owner_missing:
  "hm_wf (tr_entries tasks) \<Longrightarrow> hm_get (tr_entries tasks) tid = None \<Longrightarrow> fst (get_for_owner owner tid t tasks) = None"
  by (simp add: get_for_owner_def prune_terminal_tasks_def Let_def hm.map_laws)

text \<open>
  C35: A task of another owner is out of reach. Asking for it, updating it or cancelling it is answered exactly as if
  the task did not exist, and no entry changes and no cancellation fires: at most expired entries are pruned.
\<close>

theorem foreign_task_out_of_reach:
  assumes "hm_wf (tr_entries tasks)" "hm_get (tr_entries tasks) tid = Some e" "te_owner e \<noteq> owner"
  shows "let absent = tasks\<lparr>tr_entries := hm_remove tid (tr_entries tasks)\<rparr>;
            pruned = tasks\<lparr>tr_entries := prune_terminal_tasks t (tr_entries tasks)\<rparr>
         in get_task_request owner tid t tasks = (fst (get_task_request owner tid t absent), pruned)
          \<and> apply_task_update owner tid t tasks = (fst (apply_task_update owner tid t absent), pruned)
          \<and> cancel_task_request owner tid now t tasks = (fst (cancel_task_request owner tid now t absent), pruned)"
proof -
  have "fst (get_for_owner owner tid t (tasks\<lparr>tr_entries := hm_remove tid (tr_entries tasks)\<rparr>)) = None"
    using assms(1) by (intro get_for_owner_missing) (simp_all add: hm.map_laws)
  then show ?thesis
    using get_for_owner_foreign[OF assms, of t]
    by (auto simp: get_task_request_def apply_task_update_def cancel_task_request_def Let_def split: prod.splits option.splits)
qed

theorem foreign_task_out_of_reach_witness:
  "get_task_request Runtime ''t'' 5 \<lparr>tr_entries = [(''t'', task_entry_new (Session ''a'')
       \<lparr>ts_id = ''t'', ts_status = TsRunning, ts_message = [], ts_result = (None :: nat option), ts_created_at = 0, ts_updated_at = 0,
        ts_created_at_iso = [], ts_updated_at_iso = [], ts_key = None\<rparr>)], tr_fired = []\<rparr> =
   (Inl unknown_task, \<lparr>tr_entries = [(''t'', task_entry_new (Session ''a'')
       \<lparr>ts_id = ''t'', ts_status = TsRunning, ts_message = [], ts_result = None, ts_created_at = 0, ts_updated_at = 0,
        ts_created_at_iso = [], ts_updated_at_iso = [], ts_key = None\<rparr>)], tr_fired = []\<rparr>)"
proof -
  let ?e = "task_entry_new (Session ''a'') \<lparr>ts_id = ''t'', ts_status = TsRunning, ts_message = [], ts_result = (None :: nat option),
      ts_created_at = 0, ts_updated_at = 0, ts_created_at_iso = [], ts_updated_at_iso = [], ts_key = None\<rparr>"
  let ?tasks = "\<lparr>tr_entries = [(''t'', ?e)], tr_fired = []\<rparr>"
  have "hm_wf (tr_entries ?tasks)" "hm_get (tr_entries ?tasks) ''t'' = Some ?e" "te_owner ?e \<noteq> Runtime"
    by (simp_all add: hm_wf_def hm_get_def task_entry_new_def)
  from foreign_task_out_of_reach[OF this, of 5] show ?thesis
    by (simp add: Let_def get_task_request_def get_for_owner_def prune_terminal_tasks_def hm_retain_def hm_remove_def hm_get_def task_entry_new_def)
qed

text \<open>
  Everything that a child adds to its answer about closing is removed by the parent, which adds its own: the
  parent's client never sees a close token or a hint of the child.
\<close>

lemma remove_insert: "k \<in> set ks \<Longrightarrow> fold hm_remove ks (hm_insert k v m) = fold hm_remove ks m"
proof (induction ks arbitrary: m)
  case (Cons k' ks)
  have "hm_remove k' (hm_insert k v m) = (if k' = k then hm_remove k m else hm_insert k v (hm_remove k' m))"
    unfolding hm_insert_def hm_remove_def by (auto intro!: filter_cong)
  then show ?case using Cons by (cases "k' = k") simp_all
qed simp

theorem child_close_metadata_stripped:
  "strip_worker_metadata (JObj (apply_close_metadata grant close_hint m)) = strip_worker_metadata (JObj m)"
  by (auto simp: strip_worker_metadata_def apply_close_metadata_def worker_metadata_keys_def Let_def
      remove_insert[of _ "[''session_id'', ''close_hint'', ''close_owner_session_id'', ''close_token'', ''close_token_reused'', ''close_recovery_hint'']",
        simplified] split: option.split sum.split)

end
