(* ===== verification/Schema_Normalize.thy ===== *)
theory Schema_Normalize
  imports Remote
begin

text \<open>
  \<open>src/src/server/mod.rs\<close>: the normalization of the JSON schemas of tools, that removes
  \<open>$schema\<close> and the shapes for optional values, and what it achieves.
\<close>

section \<open>The normalization\<close>

definition is_null_schema :: "json \<Rightarrow> bool" where
  "is_null_schema v = (case v of JObj m \<Rightarrow> hm_get m ''type'' = Some (JStr ''null'') | _ \<Rightarrow> False)"

text \<open>The branches that are not null, of which there may be one, and how many are null.\<close>

fun scan_branches :: "json option \<Rightarrow> nat \<Rightarrow> json list \<Rightarrow> (json option \<times> nat) option" where
  "scan_branches non_null nulls [] = Some (non_null, nulls)"
| "scan_branches non_null nulls (b # bs) =
     (if is_null_schema b then scan_branches non_null (Suc nulls) bs
      else case non_null of Some _ \<Rightarrow> None | None \<Rightarrow> scan_branches (Some b) nulls bs)"

definition branch_fields :: "json option \<Rightarrow> (string, json) hashmap option" where
  "branch_fields v = (case v of Some (JObj m) \<Rightarrow> Some m | Some (JBool True) \<Rightarrow> Some [] | _ \<Rightarrow> None)"

definition inherit_fields :: "(string, json) hashmap \<Rightarrow> (string, json) hashmap \<Rightarrow> (string, json) hashmap" where
  "inherit_fields schema branch =
     fold (\<lambda>(k, v). hm_insert k v) (filter (\<lambda>p. fst p \<noteq> ''anyOf'') schema) branch"

definition nullable_any_of_replacement :: "(string, json) hashmap \<Rightarrow> (string, json) hashmap option" where
  "nullable_any_of_replacement schema =
     (case hm_get schema ''anyOf'' of
        Some (JArr branches) \<Rightarrow>
          (case scan_branches None 0 branches of
             Some (non_null, nulls) \<Rightarrow>
               if nulls \<noteq> 1 then None
               else (case branch_fields non_null of
                       None \<Rightarrow> None
                     | Some branch \<Rightarrow>
                         (let replacement = inherit_fields schema branch
                          in Some (if hm_get replacement ''default'' = Some JNull
                                   then hm_remove ''default'' replacement else replacement)))
           | None \<Rightarrow> None)
      | _ \<Rightarrow> None)"

definition is_null_type :: "json \<Rightarrow> bool" where
  "is_null_type v \<longleftrightarrow> v = JStr ''null''"

definition nullable_type_array_replacement :: "(string, json) hashmap \<Rightarrow> json option option" where
  "nullable_type_array_replacement schema =
     (case hm_get schema ''type'' of
        Some (JArr types) \<Rightarrow>
          (let non_null = filter (\<lambda>v. \<not> is_null_type v) types
           in if \<not> (\<exists>v \<in> set types. is_null_type v) then None
              else Some (case non_null of [] \<Rightarrow> None | [v] \<Rightarrow> Some v | _ \<Rightarrow> Some (JArr non_null)))
      | _ \<Rightarrow> None)"

text \<open>The three steps on the object itself.\<close>

definition normalize_object :: "(string, json) hashmap \<Rightarrow> (string, json) hashmap" where
  "normalize_object schema =
     (let schema = (case nullable_any_of_replacement schema of Some r \<Rightarrow> r | None \<Rightarrow> schema);
          schema = hm_remove ''$schema'' schema
      in case nullable_type_array_replacement schema of
           None \<Rightarrow> schema
         | Some (Some t) \<Rightarrow> hm_insert ''type'' t schema
         | Some None \<Rightarrow> hm_remove ''type'' schema)"

section \<open>Sizes\<close>

lemma size_object_value: "(k, v) \<in> set m \<Longrightarrow> size v < size (JObj m)"
proof (induction m)
  case (Cons p m)
  then show ?case by (cases p) auto
qed simp

lemma size_array_value: "v \<in> set vs \<Longrightarrow> size v < size (JArr vs)"
  by (induction vs) auto

lemma size_array_filter: "size (JArr (filter P vs)) \<le> size (JArr vs)"
  by (induction vs) auto

lemma hm_get_in: "hm_get m k = Some v \<Longrightarrow> (k, v) \<in> set m"
  by (simp add: hm_get_def map_of_SomeD)

lemma hm_remove_subset: "set (hm_remove k m) \<subseteq> set m"
  by (auto simp: hm_remove_def)

lemma hm_insert_subset: "set (hm_insert k v m) \<subseteq> insert (k, v) (set m)"
  by (auto simp: hm_insert_def hm_remove_def)

lemma fold_insert_subset: "set (fold (\<lambda>(k, v). hm_insert k v) ps m) \<subseteq> set ps \<union> set m"
proof (induction ps arbitrary: m)
  case (Cons p ps)
  then show ?case using hm_insert_subset[of "fst p" "snd p" m] by (fastforce simp: case_prod_beta)
qed simp

lemma scan_branches_member: "scan_branches non_null nulls bs = Some (Some b, n) \<Longrightarrow> non_null = Some b \<or> b \<in> set bs"
  by (induction non_null nulls bs rule: scan_branches.induct) (auto split: if_splits option.splits)

text \<open>Every value of the rewritten object is smaller than the object.\<close>

lemma any_of_replacement_smaller:
  assumes "nullable_any_of_replacement schema = Some r" "(k, v) \<in> set r"
  shows "size v < size (JObj schema)"
proof -
  obtain bs non_null branch where bs: "hm_get schema ''anyOf'' = Some (JArr bs)" "scan_branches None 0 bs = Some (non_null, 1)"
      "branch_fields non_null = Some branch" "set r \<subseteq> set (inherit_fields schema branch)"
    using assms(1) hm_remove_subset
    by (auto simp: nullable_any_of_replacement_def Let_def split: option.splits json.splits prod.splits if_splits)
  then have "(k, v) \<in> set schema \<or> (k, v) \<in> set branch"
    using assms(2) fold_insert_subset[of "filter (\<lambda>p. fst p \<noteq> ''anyOf'') schema" branch] by (auto simp: inherit_fields_def)
  then show ?thesis
  proof
    assume "(k, v) \<in> set branch"
    then have "non_null = Some (JObj branch)"
      using bs(3) by (auto simp: branch_fields_def split: option.splits json.splits bool.splits)
    then have "JObj branch \<in> set bs" using scan_branches_member[of None 0 bs "JObj branch"] bs(2) by simp
    then have "size (JObj branch) < size (JArr bs)" by (rule size_array_value)
    moreover have "size v < size (JObj branch)" using \<open>(k, v) \<in> set branch\<close> by (rule size_object_value)
    moreover have "size (JArr bs) < size (JObj schema)" using hm_get_in[OF bs(1)] by (rule size_object_value)
    ultimately show ?thesis by simp
  qed (rule size_object_value)
qed

lemma type_replacement_smaller:
  assumes "nullable_type_array_replacement schema = Some (Some v)"
  shows "\<exists>w. (''type'', w) \<in> set schema \<and> size v \<le> size w"
proof -
  obtain ts where ts: "hm_get schema ''type'' = Some (JArr ts)" "v \<in> set ts \<or> v = JArr (filter (\<lambda>v. \<not> is_null_type v) ts)"
  proof -
    obtain ts where ts: "hm_get schema ''type'' = Some (JArr ts)"
      using assms by (auto simp: nullable_type_array_replacement_def split: option.splits json.splits)
    define nn where "nn = filter (\<lambda>v. \<not> is_null_type v) ts"
    have "set nn \<subseteq> set ts" by (auto simp: nn_def)
    then have "v \<in> set ts \<or> v = JArr nn"
      using assms ts by (auto simp: nullable_type_array_replacement_def Let_def nn_def[symmetric] split: if_splits list.splits)
    then show ?thesis using ts that by (auto simp: nn_def)
  qed
  then show ?thesis using size_array_value[of v ts] size_array_filter[of _ ts] hm_get_in[OF ts(1)] by force
qed

lemma normalize_object_smaller:
  assumes "(k, v) \<in> set (normalize_object schema)"
  shows "size v < size (JObj schema)"
proof -
  define s1 where "s1 = (case nullable_any_of_replacement schema of Some r \<Rightarrow> r | None \<Rightarrow> schema)"
  have s1: "size w < size (JObj schema)" if "(k', w) \<in> set (hm_remove ''$schema'' s1)" for k' w
    using that any_of_replacement_smaller[of schema s1 k' w] size_object_value[of k' w schema] hm_remove_subset[of "''$schema''" s1]
    by (auto simp: s1_def split: option.splits)
  show ?thesis
  proof (cases "nullable_type_array_replacement (hm_remove ''$schema'' s1)")
    case None
    then show ?thesis using assms s1 by (simp add: normalize_object_def s1_def[symmetric])
  next
    case (Some t)
    show ?thesis
    proof (cases t)
      case None
      then show ?thesis using assms s1 Some hm_remove_subset[of "''type''" "hm_remove ''$schema'' s1"]
        by (auto simp: normalize_object_def s1_def[symmetric])
    next
      case (Some w)
      with \<open>_ = Some t\<close> have t: "nullable_type_array_replacement (hm_remove ''$schema'' s1) = Some (Some w)" by simp
      then have "(k, v) = (''type'', w) \<or> (k, v) \<in> set (hm_remove ''$schema'' s1)"
        using assms hm_insert_subset[of "''type''" w "hm_remove ''$schema'' s1"] by (auto simp: normalize_object_def s1_def[symmetric])
      then show ?thesis using type_replacement_smaller[OF t] s1 by fastforce
    qed
  qed
qed

section \<open>The whole schema\<close>

function normalize_schema_value :: "json \<Rightarrow> json" where
  "normalize_schema_value (JObj schema) = JObj (map (\<lambda>(k, v). (k, normalize_schema_value v)) (normalize_object schema))"
| "normalize_schema_value (JArr items) = JArr (map normalize_schema_value items)"
| "normalize_schema_value JNull = JNull"
| "normalize_schema_value (JBool b) = JBool b"
| "normalize_schema_value (JNum n) = JNum n"
| "normalize_schema_value (JStr s) = JStr s"
  by pat_completeness auto

termination
  by (relation "measure size") (auto dest: normalize_object_smaller size_array_value)

section \<open>What it achieves\<close>

text \<open>
  The shapes for optional values, as a schema spells them and without the code above: two branches of which
  exactly one is the null type, around the fields of the other one, and \<open>null\<close> among several types.
\<close>

definition null_only :: "json \<Rightarrow> bool" where
  "null_only v \<longleftrightarrow> (\<exists>m \<in> (case v of JObj m \<Rightarrow> {m} | _ \<Rightarrow> {}). hm_get m ''type'' = Some (JStr ''null''))"

fun other_branch :: "json list \<Rightarrow> json option" where
  "other_branch [a, b] = (if null_only a = null_only b then None else if null_only a then Some b else Some a)"
| "other_branch _ = None"

definition option_content :: "(string, json) hashmap \<Rightarrow> (string, json) hashmap option" where
  "option_content m =
     (case hm_get m ''anyOf'' of
        Some (JArr bs) \<Rightarrow> (case other_branch bs of Some (JObj b) \<Rightarrow> Some b | Some (JBool True) \<Rightarrow> Some [] | _ \<Rightarrow> None)
      | _ \<Rightarrow> None)"

definition nullable_types :: "(string, json) hashmap \<Rightarrow> bool" where
  "nullable_types m \<longleftrightarrow> (case hm_get m ''type'' of Some (JArr ts) \<Rightarrow> JStr ''null'' \<in> set ts | _ \<Rightarrow> False)"

text \<open>A schema in normal form: no object in it has \<open>$schema\<close> or one of these shapes.\<close>

function normal_schema :: "json \<Rightarrow> bool" where
  "normal_schema (JObj m) \<longleftrightarrow> hm_get m ''$schema'' = None \<and> option_content m = None
     \<and> \<not> nullable_types m \<and> (\<forall>p \<in> set m. normal_schema (snd p))"
| "normal_schema (JArr vs) \<longleftrightarrow> (\<forall>v \<in> set vs. normal_schema v)"
| "normal_schema JNull \<longleftrightarrow> True"
| "normal_schema (JBool b) \<longleftrightarrow> True"
| "normal_schema (JNum n) \<longleftrightarrow> True"
| "normal_schema (JStr t) \<longleftrightarrow> True"
  by pat_completeness auto

termination
  by (relation "measure size") (auto dest: size_object_value size_array_value)

text \<open>The schemas of the tools: objects have distinct keys, types are named, and no option is an option again.\<close>

definition plain_object :: "(string, json) hashmap \<Rightarrow> bool" where
  "plain_object m \<longleftrightarrow> hm_wf m
     \<and> (\<forall>ts. hm_get m ''type'' = Some (JArr ts) \<longrightarrow> (\<forall>t \<in> set ts. \<exists>n. t = JStr n))
     \<and> (\<forall>bs b. hm_get m ''anyOf'' = Some (JArr bs) \<longrightarrow> JObj b \<in> set bs \<longrightarrow> option_content b = None)"

text \<open>What a keyword of an object stands for: an option has those of its content, unless it has its own.\<close>

definition keyword :: "json \<Rightarrow> string \<Rightarrow> json option" where
  "keyword v k = (case v of JObj m \<Rightarrow> hm_get m k | _ \<Rightarrow> None)"

definition meant :: "(string, json) hashmap \<Rightarrow> string \<Rightarrow> json option" where
  "meant m k = (case hm_get m k of Some w \<Rightarrow> Some w | None \<Rightarrow> Option.bind (option_content m) (\<lambda>b. hm_get b k))"

function plain_schema :: "json \<Rightarrow> bool" where
  "plain_schema (JObj m) \<longleftrightarrow> plain_object m \<and> (\<forall>p \<in> set m. plain_schema (snd p))"
| "plain_schema (JArr vs) \<longleftrightarrow> (\<forall>v \<in> set vs. plain_schema v)"
| "plain_schema JNull \<longleftrightarrow> True"
| "plain_schema (JBool b) \<longleftrightarrow> True"
| "plain_schema (JNum n) \<longleftrightarrow> True"
| "plain_schema (JStr t) \<longleftrightarrow> True"
  by pat_completeness auto

termination
  by (relation "measure size") (auto dest: size_object_value size_array_value)

text \<open>The code recognises exactly these shapes.\<close>

lemma null_only_iff: "null_only v = is_null_schema v"
  by (cases v) (auto simp: null_only_def is_null_schema_def)

lemma scan_branches_count:
  "scan_branches x n bs = Some (y, k) \<Longrightarrow> k + (if y = None then 0 else 1) = n + (if x = None then 0 else 1) + length bs"
  by (induction x n bs rule: scan_branches.induct) (auto split: if_splits option.splits)

lemma scan_branches_other: "scan_branches None 0 bs = Some (Some b, 1) \<longleftrightarrow> other_branch bs = Some b"
proof (cases "length bs = 2")
  case True
  then obtain c d where "bs = [c, d]" by (auto simp: numeral_2_eq_2 length_Suc_conv)
  then show ?thesis by (auto simp: null_only_iff)
next
  case False
  then have "other_branch bs = None" by (cases bs rule: other_branch.cases) auto
  then show ?thesis using False scan_branches_count[of None 0 bs "Some b" 1] by auto
qed

lemma any_of_content:
  "nullable_any_of_replacement m = map_option (\<lambda>branch.
     let r = inherit_fields m branch in if hm_get r ''default'' = Some JNull then hm_remove ''default'' r else r) (option_content m)"
proof (cases "\<exists>bs b. hm_get m ''anyOf'' = Some (JArr bs) \<and> other_branch bs = Some b")
  case True
  then obtain bs b where b: "hm_get m ''anyOf'' = Some (JArr bs)" "other_branch bs = Some b" by blast
  have "branch_fields (Some b) = option_content m"
    using b by (auto simp: option_content_def branch_fields_def split: json.split bool.split)
  then show ?thesis using b scan_branches_other[of bs b]
    by (auto simp: nullable_any_of_replacement_def Let_def split: option.split)
next
  case False
  have none: "x = None" if "hm_get m ''anyOf'' = Some (JArr bs)" "scan_branches None 0 bs = Some (x, 1)" for bs x
    using False that scan_branches_other[of bs] by (cases x) auto
  have "option_content m = None" using False by (auto simp: option_content_def split: option.split json.split)
  moreover have "nullable_any_of_replacement m = None"
    using none by (auto simp: nullable_any_of_replacement_def branch_fields_def split: option.split json.split)
  ultimately show ?thesis by simp
qed

lemma any_of_none [simp]: "option_content m = None \<longleftrightarrow> nullable_any_of_replacement m = None"
  by (simp add: any_of_content)

lemma types_none [simp]: "nullable_types m \<longleftrightarrow> nullable_type_array_replacement m \<noteq> None"
  by (auto simp: nullable_types_def nullable_type_array_replacement_def is_null_type_def Let_def split: option.split json.split)

lemma hm_get_map: "hm_get (map (\<lambda>(k, v). (k, f v)) m) k = map_option f (hm_get m k)"
  by (simp add: hm_get_def map_of_map)

lemma hm_get_fold_insert:
  "distinct (map fst ps) \<Longrightarrow> hm_get (fold (\<lambda>(k, v). hm_insert k v) ps m) k = (case map_of ps k of Some v \<Rightarrow> Some v | None \<Rightarrow> hm_get m k)"
proof (induction ps arbitrary: m)
  case (Cons p ps)
  then have "fst p \<notin> dom (map_of ps)" by (simp add: dom_map_of_conv_image_fst)
  then show ?case using Cons by (auto simp: case_prod_beta hm_get_insert_raw split: option.splits)
qed (simp add: hm_get_def)

lemma hm_get_inherit:
  assumes "hm_wf schema"
  shows "hm_get (inherit_fields schema branch) k =
    (if k = ''anyOf'' then hm_get branch k else case hm_get schema k of Some v \<Rightarrow> Some v | None \<Rightarrow> hm_get branch k)"
proof -
  have "distinct (map fst (filter (\<lambda>p. fst p \<noteq> ''anyOf'') schema))"
    using assms by (simp add: hm_wf_def distinct_map_filter)
  moreover have "map_of (filter (\<lambda>p. fst p \<noteq> ''anyOf'') schema) k = (if k = ''anyOf'' then None else hm_get schema k)"
    using hm_get_remove_raw[of "''anyOf''" schema k] by (simp add: hm_get_def hm_remove_def)
  ultimately show ?thesis by (simp add: inherit_fields_def hm_get_fold_insert)
qed

text \<open>The parts of a replaced option.\<close>

lemma any_of_replacementE:
  assumes "nullable_any_of_replacement schema = Some r" "hm_wf schema"
  obtains bs non_null branch where "hm_get schema ''anyOf'' = Some (JArr bs)" "scan_branches None 0 bs = Some (Some non_null, 1)"
    "branch_fields (Some non_null) = Some branch" "non_null \<in> set bs" "set r \<subseteq> set schema \<union> set branch"
    "\<forall>k. k \<noteq> ''default'' \<longrightarrow> hm_get r k = (if k = ''anyOf'' then hm_get branch k else case hm_get schema k of Some v \<Rightarrow> Some v | None \<Rightarrow> hm_get branch k)"
proof -
  obtain bs x branch where bs: "hm_get schema ''anyOf'' = Some (JArr bs)" "scan_branches None 0 bs = Some (x, 1)"
      "branch_fields x = Some branch" "r = inherit_fields schema branch \<or> r = hm_remove ''default'' (inherit_fields schema branch)"
    using assms(1)
    by (auto simp: nullable_any_of_replacement_def Let_def split: option.splits json.splits prod.splits if_splits)
  then obtain non_null where x: "x = Some non_null" by (cases x) (auto simp: branch_fields_def)
  have "\<forall>k. k \<noteq> ''default'' \<longrightarrow> hm_get r k = (if k = ''anyOf'' then hm_get branch k else case hm_get schema k of Some v \<Rightarrow> Some v | None \<Rightarrow> hm_get branch k)"
    using bs(4) hm_get_inherit[OF assms(2), of branch] by (auto simp: hm_get_remove_raw)
  moreover have "set r \<subseteq> set schema \<union> set branch"
    using bs(4) hm_remove_subset fold_insert_subset[of "filter (\<lambda>p. fst p \<noteq> ''anyOf'') schema" branch] by (fastforce simp: inherit_fields_def)
  ultimately show ?thesis using that bs(1-3) scan_branches_member[of None 0 bs non_null] x by auto
qed

lemma scan_branches_not_null: "scan_branches non_null nulls bs = Some (Some b, n) \<Longrightarrow> non_null = None \<Longrightarrow> \<not> is_null_schema b"
proof -
  have "scan_branches non_null nulls bs = Some (Some b, n) \<Longrightarrow> (\<forall>c. non_null = Some c \<longrightarrow> \<not> is_null_schema c) \<Longrightarrow> \<not> is_null_schema b"
    by (induction non_null nulls bs rule: scan_branches.induct) (auto split: if_splits option.splits)
  then show "scan_branches non_null nulls bs = Some (Some b, n) \<Longrightarrow> non_null = None \<Longrightarrow> \<not> is_null_schema b" by simp
qed

text \<open>An option stays an option under a rewriting of its branches that keeps the null branches.\<close>

lemma scan_branches_map:
  assumes "\<And>b. b \<in> set bs \<Longrightarrow> is_null_schema (f b) = is_null_schema b"
  shows "scan_branches (map_option f non_null) nulls (map f bs) = map_option (\<lambda>(x, n). (map_option f x, n)) (scan_branches non_null nulls bs)"
  using assms
proof (induction bs arbitrary: non_null nulls)
  case (Cons b bs)
  then show ?case using Cons.IH[of "Some b"] by (auto split: option.split)
qed simp

lemma normalize_shape [simp]:
  "normalize_schema_value v = JStr n \<longleftrightarrow> v = JStr n"
  "normalize_schema_value v = JArr vs \<longleftrightarrow> (\<exists>ws. v = JArr ws \<and> vs = map normalize_schema_value ws)"
  by (cases v; auto)+

lemma branch_cases: "branch_fields (Some v) = Some branch \<Longrightarrow> v = JObj branch \<or> branch = []"
  by (auto simp: branch_fields_def split: json.splits bool.splits)

lemma plain_value: "plain_schema (JObj m) \<Longrightarrow> hm_get m k = Some v \<Longrightarrow> plain_schema v"
  using hm_get_in by force

text \<open>The object after the first step: itself, or the lifted branch with the fields around it.\<close>

lemma lifted_cases:
  assumes "plain_schema (JObj m)"
  obtains "nullable_any_of_replacement m = None"
  | r branch where "nullable_any_of_replacement m = Some r" "plain_schema (JObj branch)" "nullable_any_of_replacement branch = None"
      "hm_get branch ''type'' \<noteq> Some (JStr ''null'')" "set r \<subseteq> set m \<union> set branch"
      "hm_get r ''anyOf'' = hm_get branch ''anyOf''"
      "hm_get r ''type'' = (case hm_get m ''type'' of Some v \<Rightarrow> Some v | None \<Rightarrow> hm_get branch ''type'')"
proof (cases "nullable_any_of_replacement m")
  case (Some r)
  have wf: "hm_wf m" using assms by (simp add: plain_object_def)
  obtain bs nn branch where r: "hm_get m ''anyOf'' = Some (JArr bs)" "scan_branches None 0 bs = Some (Some nn, 1)"
      "branch_fields (Some nn) = Some branch" "nn \<in> set bs" "set r \<subseteq> set m \<union> set branch"
      "\<forall>k. k \<noteq> ''default'' \<longrightarrow> hm_get r k = (if k = ''anyOf'' then hm_get branch k else case hm_get m k of Some v \<Rightarrow> Some v | None \<Rightarrow> hm_get branch k)"
    using any_of_replacementE[OF Some wf] by blast
  have "plain_schema nn" using plain_value[OF assms r(1)] r(4) by simp
  moreover have "\<not> is_null_schema nn" using scan_branches_not_null[OF r(2)] by simp
  moreover have "nn = JObj branch \<Longrightarrow> nullable_any_of_replacement branch = None" using assms r(1,4) by (auto simp: plain_object_def)
  moreover have "plain_schema (JObj [])" "nullable_any_of_replacement [] = None"
    by (simp_all add: plain_object_def hm_wf_def hm_get_def nullable_any_of_replacement_def)
  ultimately have "plain_schema (JObj branch)" "nullable_any_of_replacement branch = None" "hm_get branch ''type'' \<noteq> Some (JStr ''null'')"
    using branch_cases[OF r(3)] by (elim disjE; simp add: is_null_schema_def hm_get_def)+
  then show ?thesis using that(2)[OF Some] r(5,6) by simp
qed (use that in blast)

lemma type_step:
  assumes "nullable_type_array_replacement s = Some x"
  shows "\<exists>ts. hm_get s ''type'' = Some (JArr ts) \<and> x \<noteq> Some (JStr ''null'')
    \<and> (\<forall>v. x = Some v \<longrightarrow> v \<in> set ts \<or> v = JArr (filter (\<lambda>v. \<not> is_null_type v) ts))"
proof -
  obtain ts where ts: "hm_get s ''type'' = Some (JArr ts)"
    using assms by (auto simp: nullable_type_array_replacement_def split: option.splits json.splits)
  define nn where "nn = filter (\<lambda>v. \<not> is_null_type v) ts"
  have "\<forall>v \<in> set nn. v \<in> set ts \<and> v \<noteq> JStr ''null''" by (auto simp: nn_def is_null_type_def)
  then show ?thesis
    using assms ts by (auto simp: nullable_type_array_replacement_def Let_def nn_def[symmetric] split: if_splits list.splits)
qed

lemma normalize_object_cases:
  obtains s where "s = (case nullable_any_of_replacement m of Some r \<Rightarrow> r | None \<Rightarrow> m)"
    and "nullable_type_array_replacement (hm_remove ''$schema'' s) = None" "normalize_object m = hm_remove ''$schema'' s"
  | s x where "s = (case nullable_any_of_replacement m of Some r \<Rightarrow> r | None \<Rightarrow> m)"
    and "nullable_type_array_replacement (hm_remove ''$schema'' s) = Some x"
    and "normalize_object m = (case x of Some t \<Rightarrow> hm_insert ''type'' t (hm_remove ''$schema'' s) | None \<Rightarrow> hm_remove ''type'' (hm_remove ''$schema'' s))"
  by (cases "nullable_type_array_replacement (hm_remove ''$schema'' (case nullable_any_of_replacement m of Some r \<Rightarrow> r | None \<Rightarrow> m))")
    (use that in \<open>auto simp: normalize_object_def Let_def\<close>)

text \<open>What is in the object before the type is rewritten.\<close>

lemma lifted_plain:
  assumes "plain_schema (JObj m)" "s = (case nullable_any_of_replacement m of Some r \<Rightarrow> r | None \<Rightarrow> m)"
  shows "(k, v) \<in> set s \<Longrightarrow> plain_schema v"
    and "nullable_any_of_replacement s = None"
    and "hm_get s ''type'' = Some (JArr ts) \<Longrightarrow> (\<forall>t \<in> set ts. \<exists>n. t = JStr n) \<and> hm_get m ''type'' \<noteq> Some (JStr ''null'')"
    and "hm_get s ''type'' = Some (JStr ''null'') \<longleftrightarrow> hm_get m ''type'' = Some (JStr ''null'')"
    and "hm_get s ''anyOf'' = Some (JArr bs) \<Longrightarrow> b \<in> set bs \<Longrightarrow> plain_schema b"
proof -
  have vals: "plain_schema v" if "(k, v) \<in> set m'" "plain_schema (JObj m')" for m' k v using that by force
  have branches: "plain_schema b" if "hm_get m' ''anyOf'' = Some (JArr bs)" "b \<in> set bs" "plain_schema (JObj m')" for m' bs b
    using plain_value[OF that(3,1)] that(2) by simp
  have named: "\<forall>t \<in> set ts. \<exists>n. t = JStr n" if "hm_get m' ''type'' = Some (JArr ts)" "plain_schema (JObj m')" for m' ts
    using that by (simp add: plain_object_def)
  have any: "nullable_any_of_replacement r = None" if "hm_get r ''anyOf'' = hm_get b ''anyOf''" "nullable_any_of_replacement b = None" for r b
    using that by (auto simp: nullable_any_of_replacement_def Let_def split: option.splits json.splits prod.splits if_splits)
  show "(k, v) \<in> set s \<Longrightarrow> plain_schema v"
    using assms vals by (cases rule: lifted_cases[OF assms(1)]) auto
  show "nullable_any_of_replacement s = None"
    using assms any by (cases rule: lifted_cases[OF assms(1)]) auto
  show "hm_get s ''type'' = Some (JArr ts) \<Longrightarrow> (\<forall>t \<in> set ts. \<exists>n. t = JStr n) \<and> hm_get m ''type'' \<noteq> Some (JStr ''null'')"
    using assms named by (cases rule: lifted_cases[OF assms(1)]) (auto split: option.splits)
  show "hm_get s ''type'' = Some (JStr ''null'') \<longleftrightarrow> hm_get m ''type'' = Some (JStr ''null'')"
    using assms by (cases rule: lifted_cases[OF assms(1)]) (auto split: option.splits)
  show "hm_get s ''anyOf'' = Some (JArr bs) \<Longrightarrow> b \<in> set bs \<Longrightarrow> plain_schema b"
    using assms branches by (cases rule: lifted_cases[OF assms(1)]) auto
qed

lemma normalize_keeps_null: "plain_schema b \<Longrightarrow> is_null_schema (normalize_schema_value b) = is_null_schema b"
proof (cases b)
  case (JObj m)
  assume plain: "plain_schema b"
  have "hm_get (normalize_object m) ''type'' = Some (JStr ''null'') \<longleftrightarrow> hm_get m ''type'' = Some (JStr ''null'')"
  proof (cases rule: normalize_object_cases[of m])
    case (1 s)
    then show ?thesis using lifted_plain(4)[OF _ 1(1)] plain JObj by (simp add: hm_get_remove_raw)
  next
    case (2 s x)
    then obtain ts where ts: "hm_get s ''type'' = Some (JArr ts)" "x \<noteq> Some (JStr ''null'')" using type_step[OF 2(2)] by (auto simp: hm_get_remove_raw)
    then have "hm_get m ''type'' \<noteq> Some (JStr ''null'')" using lifted_plain(3)[OF _ 2(1)] plain JObj by simp
    then show ?thesis using 2(3) ts(2) by (auto simp: hm_get_remove_raw hm_get_insert_raw split: option.split)
  qed
  then show ?thesis by (simp add: JObj is_null_schema_def hm_get_map)
qed (simp_all add: is_null_schema_def)

lemma normalize_branch_fields: "branch_fields x = None \<Longrightarrow> branch_fields (map_option normalize_schema_value x) = None"
proof (cases x)
  case (Some v)
  assume "branch_fields x = None"
  then show ?thesis using Some by (cases v) (auto simp: branch_fields_def split: bool.splits)
qed (simp add: branch_fields_def)

lemma normalize_any_of:
  assumes "nullable_any_of_replacement m = None" "\<And>bs b. hm_get m ''anyOf'' = Some (JArr bs) \<Longrightarrow> b \<in> set bs \<Longrightarrow> plain_schema b"
  shows "nullable_any_of_replacement (map (\<lambda>(k, v). (k, normalize_schema_value v)) m) = None"
proof (cases "\<exists>bs. hm_get m ''anyOf'' = Some (JArr bs)")
  case True
  then obtain bs where bs: "hm_get m ''anyOf'' = Some (JArr bs)" by blast
  have "scan_branches (map_option normalize_schema_value None) 0 (map normalize_schema_value bs) =
      map_option (\<lambda>(x, n). (map_option normalize_schema_value x, n)) (scan_branches None 0 bs)"
    using assms(2)[OF bs] normalize_keeps_null by (intro scan_branches_map) blast
  then show ?thesis using assms(1) bs
    by (auto simp: nullable_any_of_replacement_def hm_get_map normalize_branch_fields Let_def split: option.splits prod.splits if_splits)
next
  case False
  then show ?thesis by (auto simp: nullable_any_of_replacement_def hm_get_map split: option.split json.split)
qed

lemma normalize_object_plain: "plain_schema (JObj m) \<Longrightarrow> (k, v) \<in> set (normalize_object m) \<Longrightarrow> plain_schema v"
proof (cases rule: normalize_object_cases[of m])
  case (1 s)
  assume "plain_schema (JObj m)" "(k, v) \<in> set (normalize_object m)"
  then show ?thesis using lifted_plain(1)[OF _ 1(1), of k v] 1(3) hm_remove_subset by auto
next
  case (2 s x)
  assume plain: "plain_schema (JObj m)" and kv: "(k, v) \<in> set (normalize_object m)"
  obtain ts where ts: "hm_get s ''type'' = Some (JArr ts)" "\<And>v. x = Some v \<Longrightarrow> v \<in> set ts \<or> v = JArr (filter (\<lambda>v. \<not> is_null_type v) ts)"
    using type_step[OF 2(2)] by (auto simp: hm_get_remove_raw)
  have "\<forall>t \<in> set ts. plain_schema t" using lifted_plain(3)[OF plain 2(1) ts(1)] by auto
  then have new: "\<And>v. x = Some v \<Longrightarrow> plain_schema v" using ts(2) by auto
  have "(k, v) \<in> set s \<or> x = Some v"
    using kv 2(3) hm_insert_subset hm_remove_subset by (fastforce split: option.splits)
  then show ?thesis using new lifted_plain(1)[OF plain 2(1)] by blast
qed

lemma normalize_object_normal:
  assumes "plain_schema (JObj m)"
  shows "hm_get (normalize_object m) ''$schema'' = None" "nullable_any_of_replacement (normalize_object m) = None"
    and "hm_get (normalize_object m) ''anyOf'' = Some (JArr bs) \<Longrightarrow> b \<in> set bs \<Longrightarrow> plain_schema b"
    and "hm_get (normalize_object m) ''type'' = Some (JArr ts) \<Longrightarrow> t \<in> set ts \<Longrightarrow> \<not> is_null_type t"
proof -
  have "hm_get (normalize_object m) ''$schema'' = None \<and> nullable_any_of_replacement (normalize_object m) = None
    \<and> (\<forall>bs b. hm_get (normalize_object m) ''anyOf'' = Some (JArr bs) \<longrightarrow> b \<in> set bs \<longrightarrow> plain_schema b)
    \<and> (\<forall>ts t. hm_get (normalize_object m) ''type'' = Some (JArr ts) \<longrightarrow> t \<in> set ts \<longrightarrow> \<not> is_null_type t)"
  proof (cases rule: normalize_object_cases[of m])
    case (1 s)
    note s = lifted_plain[OF assms 1(1)]
    have any: "nullable_any_of_replacement (hm_remove ''$schema'' s) = None"
      using s(2) by (auto simp: nullable_any_of_replacement_def hm_get_remove_raw Let_def split: option.splits json.splits prod.splits if_splits)
    have "\<forall>ts t. hm_get s ''type'' = Some (JArr ts) \<longrightarrow> t \<in> set ts \<longrightarrow> \<not> is_null_type t"
      using 1(2) by (auto simp: nullable_type_array_replacement_def hm_get_remove_raw Let_def split: if_splits)
    then show ?thesis using any s(5) 1(3) by (auto simp: hm_get_remove_raw)
  next
    case (2 s x)
    note s = lifted_plain[OF assms 2(1)]
    obtain ts where ts: "hm_get s ''type'' = Some (JArr ts)" "\<And>v. x = Some v \<Longrightarrow> v \<in> set ts \<or> v = JArr (filter (\<lambda>v. \<not> is_null_type v) ts)"
      using type_step[OF 2(2)] by (auto simp: hm_get_remove_raw)
    have any: "nullable_any_of_replacement (normalize_object m) = None"
      using s(2) 2(3) by (auto simp: nullable_any_of_replacement_def hm_get_remove_raw hm_get_insert_raw Let_def split: option.splits json.splits prod.splits if_splits)
    have named: "\<forall>t \<in> set ts. \<exists>n. t = JStr n" using s(3)[OF ts(1)] by blast
    show ?thesis
    proof (cases x)
      case None
      then show ?thesis using any 2(3) s(5) by (auto simp: hm_get_remove_raw)
    next
      case (Some v)
      then show ?thesis using any 2(3) s(5) ts(2)[OF Some] named by (auto simp: hm_get_remove_raw hm_get_insert_raw)
    qed
  qed
  then show "hm_get (normalize_object m) ''$schema'' = None" "nullable_any_of_replacement (normalize_object m) = None"
    and "hm_get (normalize_object m) ''anyOf'' = Some (JArr bs) \<Longrightarrow> b \<in> set bs \<Longrightarrow> plain_schema b"
    and "hm_get (normalize_object m) ''type'' = Some (JArr ts) \<Longrightarrow> t \<in> set ts \<Longrightarrow> \<not> is_null_type t" by blast+
qed

lemma is_null_type_normalize [simp]: "is_null_type (normalize_schema_value t) = is_null_type t"
  by (simp add: is_null_type_def)

lemma normalize_normal: "plain_schema v \<Longrightarrow> normal_schema (normalize_schema_value v)"
proof (induction v rule: normalize_schema_value.induct)
  case (1 m)
  note nf = normalize_object_normal[OF 1(2)]
  let ?n = "map (\<lambda>(k, v). (k, normalize_schema_value v)) (normalize_object m)"
  have "nullable_any_of_replacement ?n = None" by (rule normalize_any_of[OF nf(2) nf(3)])
  moreover have "nullable_type_array_replacement ?n = None"
    using nf(4) by (auto simp: nullable_type_array_replacement_def hm_get_map Let_def split: option.split json.split)
  moreover have "normal_schema (normalize_schema_value v)" if "(k, v) \<in> set (normalize_object m)" for k v
    using 1(1)[of "(k, v)" k v] that normalize_object_plain[OF 1(2) that] by simp
  ultimately show ?case using nf(1) by (auto simp: hm_get_map)
qed auto

text \<open>A schema in normal form is left as it is.\<close>

lemma hm_remove_absent: "hm_get m k = None \<Longrightarrow> hm_remove k m = m"
  by (force simp: hm_remove_def hm_get_def map_of_eq_None_iff filter_id_conv)

lemma normal_unchanged: "normal_schema v \<Longrightarrow> normalize_schema_value v = v"
proof (induction v rule: normal_schema.induct)
  case (1 m)
  then have "normalize_object m = m" by (simp add: normalize_object_def hm_remove_absent)
  moreover have "map (\<lambda>(k, v). (k, normalize_schema_value v)) m = m" using 1 by (intro map_idI) auto
  ultimately show ?case by simp
qed (auto intro: map_idI)

text \<open>Apart from the keywords it is about, the normalization keeps what an object means.\<close>

lemma normalize_keeps_keyword:
  assumes "hm_wf m" "k \<notin> {''anyOf'', ''default'', ''$schema''}" "k = ''type'' \<Longrightarrow> \<forall>ts. meant m k \<noteq> Some (JArr ts)"
  shows "hm_get (normalize_object m) k = meant m k"
proof -
  define s where "s = (case nullable_any_of_replacement m of Some r \<Rightarrow> r | None \<Rightarrow> m)"
  have s: "hm_get s j = meant m j" if j: "j \<notin> {''anyOf'', ''default''}" for j
  proof (cases "option_content m")
    case None
    then show ?thesis by (simp add: s_def any_of_content meant_def split: option.split del: any_of_none)
  next
    case (Some branch)
    define r where "r = inherit_fields m branch"
    have "hm_get s j = hm_get r j"
      using j Some by (simp add: s_def any_of_content r_def[symmetric] hm_get_remove_raw Let_def del: any_of_none)
    also have "\<dots> = meant m j" using j Some by (simp add: r_def hm_get_inherit[OF assms(1)] meant_def del: any_of_none split: option.split)
    finally show ?thesis .
  qed
  have "nullable_type_array_replacement (hm_remove ''$schema'' s) = None" if "k = ''type''"
    using assms(3)[OF that] s[of "''type''"] that
    by (auto simp: nullable_type_array_replacement_def hm_get_remove_raw split: option.split json.split)
  note type = this
  have k: "hm_get (hm_remove ''$schema'' s) k = meant m k" using assms(2) s[of k] by (simp add: hm_get_remove_raw)
  show ?thesis
  proof (cases "nullable_type_array_replacement (hm_remove ''$schema'' s)")
    case None
    then show ?thesis using k by (simp add: normalize_object_def s_def[symmetric])
  next
    case (Some x)
    then have "k \<noteq> ''type''" using type by auto
    then show ?thesis using k Some
      by (cases x) (simp_all add: normalize_object_def s_def[symmetric] hm_get_remove_raw hm_get_insert_raw)
  qed
qed


text \<open>An option inside an option is not reached: one pass leaves the inner one.\<close>

definition option_of :: "json \<Rightarrow> json" where
  "option_of v = JObj [(''anyOf'', JArr [v, JObj [(''type'', JStr ''null'')]])]"

lemmas normalize_eval = option_of_def normalize_object_def nullable_any_of_replacement_def nullable_type_array_replacement_def
  is_null_schema_def branch_fields_def inherit_fields_def is_null_type_def hm_get_def hm_remove_def hm_insert_def

theorem nested_option_survives:
  "normalize_schema_value (option_of (option_of (JObj [(''type'', JStr ''string'')]))) = option_of (JObj [(''type'', JStr ''string'')])
   \<and> \<not> normal_schema (option_of (JObj [(''type'', JStr ''string'')]))"
  by (simp add: normalize_eval)


end
