(* ===== verification/Dsc_Open.thy ===== *)
theory Dsc_Open
  imports Tool_Endpoints Db_Open
begin

text \<open>
  \<open>src/src/server/mod.rs\<close>: opening a shared cache of Apple's dynamic linker. Where its database is kept,
  which way it is opened, and the background task that opens it and loads the requested images.
\<close>

section \<open>Where the database is kept\<close>

datatype dsc_open_plan = DirectExistingI64 | BackgroundDirectRawDsc | LegacyIdatBackground

definition dsc_open_plan_of :: "int \<times> int \<Rightarrow> bool \<Rightarrow> dsc_open_plan" where
  "dsc_open_plan_of sdk_version i64_exists =
     (if i64_exists then DirectExistingI64
      else if fst sdk_version > 9 \<or> fst sdk_version = 9 \<and> snd sdk_version \<ge> 4 then BackgroundDirectRawDsc
      else LegacyIdatBackground)"

definition ascii_alphanumeric :: "char \<Rightarrow> bool" where
  "ascii_alphanumeric c \<longleftrightarrow> (let n = (of_char c :: nat) in 48 \<le> n \<and> n \<le> 57 \<or> 65 \<le> n \<and> n \<le> 90 \<or> 97 \<le> n \<and> n \<le> 122)"

text \<open>A character that is not ASCII has several bytes and becomes one underscore; its first byte stands for it.\<close>

definition sanitize_temp_component :: "string \<Rightarrow> string" where
  "sanitize_temp_component s =
     (let sanitized = map (\<lambda>c. if ascii_alphanumeric c \<or> c = CHR ''.'' \<or> c = CHR ''-'' \<or> c = CHR ''_'' then c else CHR ''_'')
                          (filter (\<lambda>c. \<not> utf8_cont c) s)
      in if sanitized = [] then ''dsc'' else sanitized)"

text \<open>The header is what could be read of the first 0x68 bytes, or the error of reading.\<close>

definition hex_encode :: "nat list \<Rightarrow> string" where
  "hex_encode bytes = concat (map (\<lambda>b. [digit_char (b div 16), digit_char (b mod 16)]) bytes)"

definition u32_le :: "nat list \<Rightarrow> nat" where
  "u32_le bs = foldr (\<lambda>b n. b + 256 * n) bs 0"

definition dsc_content_identity :: "string \<Rightarrow> string + nat list \<Rightarrow> tool_error + string" where
  "dsc_content_identity path content =
     (case content of
        Inl err \<Rightarrow> Inl (InvalidPath (''failed to read DSC header for cache identity ('' @ path @ ''): '' @ err))
      | Inr bytes \<Rightarrow>
          (let header = take 0x68 bytes;
               mapping_offset = u32_le (take 4 (drop 0x10 header));
               uuid = take 16 (drop 0x58 header)
           in if length header = 0x68 \<and> take 7 header = map of_char ''dyld_v1''
                \<and> 0x68 \<le> mapping_offset \<and> (\<exists>b \<in> set uuid. b \<noteq> 0)
              then Inr (hex_encode uuid)
              else Inl (InvalidParams (path @ '' does not carry a dyld_shared_cache UUID, so its generated database cannot be '' @
                     ''identified safely; open it with open_idb instead''))))"

definition direct_dsc_cache_i64_path :: "string \<Rightarrow> string \<Rightarrow> string + nat list \<Rightarrow> tool_error + string" where
  "direct_dsc_cache_i64_path temp_dir dsc_path content =
     (let name = (case file_name dsc_path of
                    Some n \<Rightarrow> if utf8_valid n then sanitize_temp_component n else ''dsc''
                  | None \<Rightarrow> ''dsc'')
      in case dsc_content_identity dsc_path content of
           Inl e \<Rightarrow> Inl e
         | Inr identity \<Rightarrow> Inr (path_join temp_dir (''ida-mcp-dsc-'' @ name @ ''-'' @ identity @ ''.i64'')))"

section \<open>Raw blobs\<close>

definition has_control :: "string \<Rightarrow> bool" where
  "has_control s \<longleftrightarrow> (\<exists>c \<in> set s. (of_char c :: nat) < 32 \<or> (of_char c :: nat) = 127)"

text \<open>\<open>c1_control\<close> tells whether a text has one of the control characters beyond ASCII.\<close>

definition validate_raw_processor :: "(string \<Rightarrow> bool) \<Rightarrow> string \<Rightarrow> tool_error + unit" where
  "validate_raw_processor c1_control processor =
     (if 128 < length processor \<or> has_control processor \<or> c1_control processor
      then Inl (InvalidParams ''processor must be at most 128 characters and contain no control characters'')
      else
        (let normalized = to_ascii_lowercase processor
         in if normalized = ''arm''
            then Inl (InvalidParams (''\"arm\" is ambiguous for a raw blob in headless mode; use an explicit variant such as '' @
                   ''\"arm:ARMv7-M\" or \"arm:ARMv8-A\"''))
            else if normalized \<in> {''metapc'', ''pc''}
            then Inl (InvalidParams (''\"metapc\" is ambiguous for a raw blob in headless mode; use an explicit variant such as '' @
                   ''\"metapc:80386p\"''))
            else if normalized \<in> {''mips'', ''mipsl'', ''mipsb'', ''ppc'', ''riscv''}
            then Inl (InvalidParams (''the selected processor has ambiguous modes for a raw blob in headless mode; use an '' @
                   ''explicit processor:variant''))
            else Inr ()))"

definition raw_blob_idb_path :: "string option \<Rightarrow> string \<Rightarrow> string option \<Rightarrow> string" where
  "raw_blob_idb_path home input idb_out =
     (case idb_out of Some out \<Rightarrow> expand_path home out | None \<Rightarrow> expand_path home input @ ''.i64'')"

definition raw_blob_database_exists :: "string option \<Rightarrow> files \<Rightarrow> string \<Rightarrow> string option \<Rightarrow> bool" where
  "raw_blob_database_exists home fs input idb_out = ida_database_output_exists fs (raw_blob_idb_path home input idb_out)"

section \<open>Files of the background task\<close>

text \<open>\<open>unremovable\<close> tells which files the system refuses to remove.\<close>

definition unlink :: "(string \<Rightarrow> bool) \<Rightarrow> string \<Rightarrow> files \<Rightarrow> files" where
  "unlink unremovable p fs = (if unremovable p then fs else fs(p := None))"

definition remove_partial_idat_outputs :: "(string \<Rightarrow> bool) \<Rightarrow> string \<Rightarrow> files \<Rightarrow> files" where
  "remove_partial_idat_outputs unremovable out_i64 fs =
     fold (unlink unremovable) (out_i64 # map (\<lambda>ext. set_extension ext out_i64) [''id0'', ''id1'', ''id2'', ''nam'', ''til'']) fs"

fun remove_orphans :: "(string \<Rightarrow> string option) \<Rightarrow> string list \<Rightarrow> files \<Rightarrow> (tool_error + unit) \<times> files" where
  "remove_orphans unlink_error [] fs = (Inr (), fs)"
| "remove_orphans unlink_error (p # ps) fs =
     (case (fs p, unlink_error p) of
        (None, _) \<Rightarrow> remove_orphans unlink_error ps fs
      | (Some _, None) \<Rightarrow> remove_orphans unlink_error ps (fs(p := None))
      | (Some _, Some err) \<Rightarrow> (Inl (OpenFailed (''failed to remove orphaned DSC database artifact '' @ p @ '': '' @ err)), fs))"

text \<open>\<open>acquired\<close> is the answer of the lock of the output, which is released before the end, \<open>gap\<close> what others do before it.\<close>

definition remove_orphaned_dsc_output_artifacts ::
  "(string \<Rightarrow> string option) \<Rightarrow> tool_error + unit \<Rightarrow> (files \<Rightarrow> files) \<Rightarrow> string \<Rightarrow> files \<Rightarrow> (tool_error + unit) \<times> files" where
  "remove_orphaned_dsc_output_artifacts unlink_error acquired gap out_i64 fs =
     (let appeared = Inl (DatabaseLocked (out_i64 @ '' appeared while preparing DSC generation; retry open_dsc to reuse it''))
      in if ida_database_output_exists fs out_i64 then (appeared, fs)
         else
           (let fs = gap fs
            in case acquired of
                 Inl e \<Rightarrow> (Inl e, fs)
               | Inr _ \<Rightarrow>
                   if ida_database_output_exists fs out_i64 then (appeared, fs)
                   else remove_orphans unlink_error (map (\<lambda>ext. set_extension ext out_i64) [''id1'', ''id2'', ''nam'', ''til'']) fs))"

section \<open>The background task\<close>

text \<open>The state that the task works on: the worker with its database, the tasks, the files.\<close>

record 'w bg =
  bg_worker :: 'w
  bg_tasks :: "json task_registry"
  bg_files :: files

datatype dsc_background_open =
    DirectRawDsc string string
  | LegacyIdat string "string option" string

record dsc_background_ctx =
  dx_open :: dsc_background_open
  dx_module :: string
  dx_frameworks :: "string list"
  dx_owner_session_id :: "string option"

text \<open>How the idat process ended: not started, stopped by the cancellation, waiting failed, or its exit code and error text.\<close>

datatype idat_outcome = IdatSpawnFailed string | IdatStopped | IdatWaitFailed string | IdatExited int string

text \<open>
  What the task waits for, each with what others do meanwhile: the operations of the worker and the idat
  process; \<open>dc_gap\<close> is what they do before a result is published. \<open>dc_value\<close> is the JSON form of a tool result.
\<close>

record 'w dsc_env =
  dc_open :: "string \<Rightarrow> string option \<Rightarrow> bool \<Rightarrow> 'w bg \<Rightarrow> (tool_error + json \<times> u64) \<times> 'w bg"
  dc_load :: "string \<Rightarrow> u64 \<Rightarrow> 'w bg \<Rightarrow> (tool_error + json) \<times> 'w bg"
  dc_status :: "u64 \<Rightarrow> 'w bg \<Rightarrow> (tool_error + json \<times> bool) \<times> 'w bg"
  dc_close_if :: "u64 \<Rightarrow> 'w bg \<Rightarrow> (tool_error + conditional_close_result) \<times> 'w bg"
  dc_close_token :: "string \<Rightarrow> u64 \<Rightarrow> 'w bg \<Rightarrow> (string + close_token_grant) option \<times> 'w bg"
  dc_idat :: "'w bg \<Rightarrow> idat_outcome \<times> 'w bg"
  dc_gap :: "'w bg \<Rightarrow> 'w bg"
  dc_clock :: "'w bg \<Rightarrow> clock"
  dc_unlink_error :: "string \<Rightarrow> string option"
  dc_lock :: "tool_error + unit"
  dc_log_tail :: "string option"
  dc_value :: "call_tool_result \<Rightarrow> json"

definition on_tasks :: "(json task_registry \<Rightarrow> json task_registry) \<Rightarrow> 'w bg \<Rightarrow> 'w bg" where
  "on_tasks f s = s\<lparr>bg_tasks := f (bg_tasks s)\<rparr>"

definition is_cancelled :: "token \<Rightarrow> 'w bg \<Rightarrow> bool" where
  "is_cancelled tok s \<longleftrightarrow> tok \<in> set (tr_fired (bg_tasks s))"

definition say :: "'w dsc_env \<Rightarrow> string \<Rightarrow> string \<Rightarrow> 'w bg \<Rightarrow> 'w bg" where
  "say env tid msg s = on_tasks (update_message tid (dc_clock env s) msg) s"

definition cancel_with :: "'w dsc_env \<Rightarrow> string \<Rightarrow> string \<Rightarrow> 'w bg \<Rightarrow> 'w bg" where
  "cancel_with env tid msg s = on_tasks (\<lambda>r. snd (finish_cancelled tid msg (dc_clock env s) (fst (dc_clock env s)) r)) s"

definition complete_background_tool_error ::
  "'w dsc_env \<Rightarrow> string \<Rightarrow> token \<Rightarrow> tool_error \<Rightarrow> string \<Rightarrow> 'w bg \<Rightarrow> 'w bg" where
  "complete_background_tool_error env tid tok error cancel_message s =
     (let s = dc_gap env s; now = dc_clock env s; v = dc_value env (to_tool_result error)
      in if is_fatal error
         then on_tasks (\<lambda>r. snd (complete_after_fatal_error tid v now (fst now) r)) s
         else on_tasks (\<lambda>r. snd (complete_with_cancel_token tid v tok cancel_message now (fst now) r)) s)"

definition cleanup_failed :: "'w dsc_env \<Rightarrow> string \<Rightarrow> string \<Rightarrow> 'w bg \<Rightarrow> 'w bg" where
  "cleanup_failed env tid msg s =
     on_tasks (\<lambda>r. snd (fail_after_cleanup_error tid msg (dc_clock env s) (fst (dc_clock env s)) r)) s"

definition finish_dsc_tool_error_after_open ::
  "'w dsc_env \<Rightarrow> string \<Rightarrow> token \<Rightarrow> u64 \<Rightarrow> tool_error \<Rightarrow> 'w bg \<Rightarrow> 'w bg" where
  "finish_dsc_tool_error_after_open env tid tok g error s =
     (case dc_close_if env g s of
        (Inr _, s) \<Rightarrow> complete_background_tool_error env tid tok error ''Cancelled after the failed DSC operation settled'' s
      | (Inl close_error, s) \<Rightarrow>
          cleanup_failed env tid (display error @ ''; cleanup failed for database generation '' @ show_nat (unat g) @ '': '' @ display close_error) s)"

definition finish_dsc_cancellation_after_open :: "'w dsc_env \<Rightarrow> string \<Rightarrow> u64 \<Rightarrow> 'w bg \<Rightarrow> 'w bg" where
  "finish_dsc_cancellation_after_open env tid g s =
     (case dc_close_if env g s of
        (Inr Closed, s) \<Rightarrow> cancel_with env tid ''Cancelled after the active DSC operation settled and its database closed'' s
      | (Inr NotCurrent, s) \<Rightarrow>
          cancel_with env tid ''Cancelled after the active DSC operation settled; its database generation was already replaced'' s
      | (Inl e, s) \<Rightarrow>
          cleanup_failed env tid (''Cancellation cleanup failed for database generation '' @ show_nat (unat g) @ '': '' @ display e) s)"

text \<open>The input that is opened next: its path, the output, whether to analyse, and whether images are loaded.\<close>

type_synonym dsc_prepared = "string \<times> string option \<times> bool \<times> bool"

definition prepare_direct ::
  "'w dsc_env \<Rightarrow> string \<Rightarrow> token \<Rightarrow> string \<Rightarrow> string \<Rightarrow> 'w bg \<Rightarrow> dsc_prepared option \<times> 'w bg" where
  "prepare_direct env tid tok open_path idb_out s =
     (let s = say env tid ''Opening DSC directly with idalib...'' s
      in case remove_orphaned_dsc_output_artifacts (dc_unlink_error env) (dc_lock env) (\<lambda>fs. fs) idb_out (bg_files s) of
           (Inl e, fs) \<Rightarrow> (None, complete_background_tool_error env tid tok e ''Cancelled while preparing the DSC output'' (s\<lparr>bg_files := fs\<rparr>))
         | (Inr _, fs) \<Rightarrow> (Some (open_path, Some idb_out, False, True), s\<lparr>bg_files := fs\<rparr>))"

definition idat_failed_message :: "int \<Rightarrow> string \<Rightarrow> string option \<Rightarrow> string" where
  "idat_failed_message code stderr tail =
     ''idat exited with code '' @ show_int code @ ''.'' @ newline @ ''stderr: '' @ stderr @
     (case tail of Some t \<Rightarrow> newline @ ''log (last 20 lines):'' @ newline @ t | None \<Rightarrow> [])"

definition with_files :: "(files \<Rightarrow> files) \<Rightarrow> 'w bg \<Rightarrow> 'w bg" where
  "with_files f s = s\<lparr>bg_files := f (bg_files s)\<rparr>"

definition refused :: "'w dsc_env \<Rightarrow> string \<Rightarrow> bool" where
  "refused env p \<longleftrightarrow> dc_unlink_error env p \<noteq> None"

text \<open>What follows when the idat process has ended.\<close>

definition after_idat ::
  "'w dsc_env \<Rightarrow> string \<Rightarrow> token \<Rightarrow> string \<Rightarrow> int \<Rightarrow> string \<Rightarrow> 'w bg \<Rightarrow> dsc_prepared option \<times> 'w bg" where
  "after_idat env tid tok out_i64 code stderr s =
     (if is_cancelled tok s then (None, cancel_with env tid ''Cancelled after the idat subprocess settled'' s)
      else if code \<noteq> 0 \<or> \<not> path_exists (bg_files s) out_i64
      then (None, complete_background_tool_error env tid tok (OpenFailed (idat_failed_message code stderr (dc_log_tail env)))
                    ''Cancelled after the idat subprocess settled'' (with_files (remove_partial_idat_outputs (refused env) out_i64) s))
      else (Some (out_i64, None, True, False), say env tid ''Opening database with idalib...'' s))"

definition prepare_legacy ::
  "'w dsc_env \<Rightarrow> string \<Rightarrow> token \<Rightarrow> string \<Rightarrow> string \<Rightarrow> 'w bg \<Rightarrow> dsc_prepared option \<times> 'w bg" where
  "prepare_legacy env tid tok script_path out_i64 s =
     (let cleanup = (\<lambda>(prepared, s). (prepared, with_files (unlink (refused env) script_path) s));
          partial = with_files (remove_partial_idat_outputs (refused env) out_i64)
      in case remove_orphaned_dsc_output_artifacts (dc_unlink_error env) (dc_lock env) (\<lambda>fs. fs) out_i64 (bg_files s) of
           (Inl e, fs) \<Rightarrow> cleanup (None, complete_background_tool_error env tid tok e ''Cancelled while preparing the DSC output'' (s\<lparr>bg_files := fs\<rparr>))
         | (Inr _, fs) \<Rightarrow>
             (case dc_idat env (say env tid ''Running idat to create .i64...'' (s\<lparr>bg_files := fs\<rparr>)) of
                (IdatStopped, s) \<Rightarrow>
                  cleanup (None, cancel_with env tid ''Cancelled; the idat subprocess was killed and its partial output removed'' (partial s))
              | (IdatWaitFailed e, s) \<Rightarrow>
                  (let s = partial s
                   in cleanup (None, on_tasks (\<lambda>r. snd (fail_task tid (''failed to wait for idat: '' @ e) (dc_clock env s) (fst (dc_clock env s)) r)) s))
              | (IdatSpawnFailed e, s) \<Rightarrow> cleanup (after_idat env tid tok out_i64 (- 1) (''Failed to spawn idat: '' @ e) s)
              | (IdatExited code stderr, s) \<Rightarrow> cleanup (after_idat env tid tok out_i64 code stderr s)))"

text \<open>One image: \<open>None\<close> when the task was settled.\<close>

definition load_dsc_image ::
  "'w dsc_env \<Rightarrow> string \<Rightarrow> token \<Rightarrow> u64 \<Rightarrow> string \<Rightarrow> string \<Rightarrow> string \<Rightarrow> 'w bg \<Rightarrow> json option \<times> 'w bg" where
  "load_dsc_image env tid tok g loading failed name s =
     (case dc_load env name g (say env tid loading s) of
        (result, s) \<Rightarrow>
          (case result of
             Inl e \<Rightarrow>
               if is_fatal e then (None, complete_background_tool_error env tid tok e ''Cancelled after the worker was lost'' s)
               else if is_cancelled tok s then (None, finish_dsc_cancellation_after_open env tid g s)
               else (None, finish_dsc_tool_error_after_open env tid tok g (IdaError (failed @ display e)) s)
           | Inr img \<Rightarrow>
               if is_cancelled tok s then (None, finish_dsc_cancellation_after_open env tid g s) else (Some img, s)))"

fun load_frameworks :: "'w dsc_env \<Rightarrow> string \<Rightarrow> token \<Rightarrow> u64 \<Rightarrow> string list \<Rightarrow> 'w bg \<Rightarrow> json list option \<times> 'w bg" where
  "load_frameworks env tid tok g [] s = (Some [], s)"
| "load_frameworks env tid tok g (f # fs) s =
     (if is_cancelled tok s then (None, finish_dsc_cancellation_after_open env tid g s)
      else case load_dsc_image env tid tok g (''Loading DSC framework '' @ f @ ''...'') (''Failed to load DSC framework '' @ f @ '': '') f s of
             (None, s) \<Rightarrow> (None, s)
           | (Some img, s) \<Rightarrow>
               (case load_frameworks env tid tok g fs s of
                  (None, s) \<Rightarrow> (None, s)
                | (Some images, s) \<Rightarrow> (Some (img # images), s)))"

definition dsc_analysis_next_steps :: "bool option \<Rightarrow> string \<Rightarrow> string list" where
  "dsc_analysis_next_steps analysis_ready ready_message =
     (if analysis_ready = Some True then [ready_message]
      else [''Call analysis_status to check auto-analysis progress.'',
            ''If auto_is_ok is false, run analyze_funcs and wait for completion before xrefs/decompile.''])"

text \<open>The images and the status of the analysis, when they are loaded here.\<close>

record dsc_loaded =
  dl_images :: "json list"
  dl_status :: "(json \<times> bool) option"

definition load_dsc_images ::
  "'w dsc_env \<Rightarrow> string \<Rightarrow> token \<Rightarrow> u64 \<Rightarrow> string \<Rightarrow> string list \<Rightarrow> 'w bg \<Rightarrow> dsc_loaded option \<times> 'w bg" where
  "load_dsc_images env tid tok g module frameworks s =
     (case load_dsc_image env tid tok g ''Loading DSC module through ida_dscu...'' (''Failed to load DSC module '' @ module @ '': '') module s of
        (None, s) \<Rightarrow> (None, s)
      | (Some img, s) \<Rightarrow>
     (case load_frameworks env tid tok g frameworks s of
        (None, s) \<Rightarrow> (None, s)
      | (Some images, s) \<Rightarrow>
     (case dc_status env g s of
        (status, s) \<Rightarrow>
          (case status of
             Inl e \<Rightarrow>
               if is_fatal e then (None, complete_background_tool_error env tid tok e ''Cancelled after the worker was lost'' s)
               else if is_cancelled tok s then (None, finish_dsc_cancellation_after_open env tid g s)
               else (Some \<lparr>dl_images = img # images, dl_status = None\<rparr>, s)
           | Inr st \<Rightarrow>
               if is_cancelled tok s then (None, finish_dsc_cancellation_after_open env tid g s)
               else (Some \<lparr>dl_images = img # images, dl_status = Some st\<rparr>, s)))))"

definition dsc_result ::
  "json \<Rightarrow> string \<Rightarrow> string list \<Rightarrow> dsc_loaded option \<Rightarrow> string option \<Rightarrow> (string + close_token_grant) option \<Rightarrow> string \<Rightarrow> json" where
  "dsc_result info module frameworks loaded database_id grant close_hint =
     (case info of
        JObj m \<Rightarrow>
          (let strs = (\<lambda>xs. JArr (map JStr xs));
               m = hm_insert ''module'' (JStr module) m;
               m = (if frameworks = [] then m else hm_insert ''frameworks_loaded'' (strs frameworks) m);
               m = (case loaded of
                      None \<Rightarrow> m
                    | Some l \<Rightarrow>
                        (let m = (case dl_images l of i # _ \<Rightarrow> hm_insert ''module_info'' i m | [] \<Rightarrow> m);
                             ready = map_option snd (dl_status l)
                         in hm_insert ''next_steps'' (strs (dsc_analysis_next_steps ready
                                ''Proceed with xrefs/decompile/list_functions for the loaded DSC module.''))
                              (hm_insert ''analysis_ready'' (case ready of Some b \<Rightarrow> JBool b | None \<Rightarrow> JNull)
                                (hm_insert ''analysis_status'' (case dl_status l of Some (v, _) \<Rightarrow> v | None \<Rightarrow> JNull)
                                  (hm_insert ''loaded_images'' (JArr (dl_images l)) (hm_insert ''dsc_backend'' (JStr ''dscu'') m))))));
               m = (case database_id of Some db \<Rightarrow> hm_insert ''database_id'' (JStr db) m | None \<Rightarrow> m)
           in JObj (apply_close_metadata grant close_hint m))
      | v \<Rightarrow> v)"

definition run_dsc_opened ::
  "'w dsc_env \<Rightarrow> server_mode \<Rightarrow> bool \<Rightarrow> string option \<Rightarrow> string \<Rightarrow> token \<Rightarrow> dsc_background_ctx \<Rightarrow> json \<Rightarrow> u64 \<Rightarrow> bool \<Rightarrow> 'w bg \<Rightarrow> 'w bg" where
  "run_dsc_opened env mode legacy_pooled database_id tid tok ctx info g with_images s =
     (case (if with_images
            then (case load_dsc_images env tid tok g (dx_module ctx) (dx_frameworks ctx) s of
                    (None, s) \<Rightarrow> (None, s) | (Some l, s) \<Rightarrow> (Some (Some l), s))
            else (Some None, s)) of
        (None, s) \<Rightarrow> s
      | (Some loaded, s) \<Rightarrow>
          if is_cancelled tok s then finish_dsc_cancellation_after_open env tid g s
          else
            (case (case (mode, dx_owner_session_id ctx) of
                     (ModeHttp, Some owner) \<Rightarrow> dc_close_token env owner g s
                   | _ \<Rightarrow> (None, s)) of
               (grant, s) \<Rightarrow>
                 (let value = dsc_result info (dx_module ctx) (dx_frameworks ctx) loaded database_id grant
                        (close_hint_for mode legacy_pooled (database_id \<noteq> None));
                      s = dc_gap env s;
                      now = dc_clock env s
                  in case complete_or_defer_cancellation tid value tok now (fst now) (bg_tasks s) of
                       (DecCancellationPending, r) \<Rightarrow> finish_dsc_cancellation_after_open env tid g (s\<lparr>bg_tasks := r\<rparr>)
                     | (_, r) \<Rightarrow> s\<lparr>bg_tasks := r\<rparr>)))"

definition run_dsc_background ::
  "'w dsc_env \<Rightarrow> server_mode \<Rightarrow> bool \<Rightarrow> string option \<Rightarrow> string \<Rightarrow> token \<Rightarrow> dsc_background_ctx \<Rightarrow> 'w bg \<Rightarrow> 'w bg" where
  "run_dsc_background env mode legacy_pooled database_id tid tok ctx s =
     (if is_cancelled tok s then cancel_with env tid ''Cancelled by session shutdown'' s
      else case (case dx_open ctx of
                   DirectRawDsc open_path idb_out \<Rightarrow> prepare_direct env tid tok open_path idb_out s
                 | LegacyIdat script log out_i64 \<Rightarrow> prepare_legacy env tid tok script out_i64 s) of
             (None, s) \<Rightarrow> s
           | (Some (open_path, idb_out, auto_analyse, with_images), s) \<Rightarrow>
               (case dc_open env open_path idb_out auto_analyse s of
                  (Inl e, s) \<Rightarrow> complete_background_tool_error env tid tok e ''Cancelled after the DSC open operation settled'' s
                | (Inr (info, g), s) \<Rightarrow>
                    if is_cancelled tok s then finish_dsc_cancellation_after_open env tid g s
                    else run_dsc_opened env mode legacy_pooled database_id tid tok ctx info g with_images s))"

section \<open>Starting the task\<close>

definition task_create_error_to_tool_error :: "task_create_error \<Rightarrow> tool_error" where
  "task_create_error_to_tool_error error =
     (case error of
        AlreadyRunning _ \<Rightarrow> Busy
      | ExistingTaskIdIsPrivate \<Rightarrow> BackgroundTaskHandlePrivate
      | CapacityExceeded m \<Rightarrow> BackgroundTaskRegistryFull (word_of_nat m))"

text \<open>
  The reply and the id of the task that is started. \<open>pretty\<close> prints JSON; between the registration and the
  binding the function does not wait, and the token is stored after the task was spawned.
\<close>

definition start_dsc_background ::
  "(json \<Rightarrow> string option) \<Rightarrow> task_owner \<Rightarrow> string \<Rightarrow> string \<Rightarrow> string \<Rightarrow> string option \<Rightarrow> token \<Rightarrow> instant \<Rightarrow> clock
   \<Rightarrow> json task_registry \<Rightarrow> (call_tool_result \<times> string option) \<times> json task_registry" where
  "start_dsc_background pretty owner dedup_key initial_message uuid database_id tok t now tasks =
     (let reply = (\<lambda>status tid message.
            success_result [TextContent (case pretty (JObj [(''status'', JStr status), (''task_id'', JStr tid), (''message'', JStr message)]) of
                Some s \<Rightarrow> s | None \<Rightarrow> [])])
      in case create_keyed owner ''dsc'' dedup_key initial_message uuid t now tasks of
           (Inl (AlreadyRunning existing), tasks) \<Rightarrow>
             ((reply ''already_running'' existing
                 ''A DSC loading task for this path is already in progress. Poll task_status(task_id) for progress.'', None), tasks)
         | (Inl error, tasks) \<Rightarrow> ((to_tool_result (task_create_error_to_tool_error error), None), tasks)
         | (Inr tid, tasks) \<Rightarrow>
             (let tasks = (case database_id of Some db \<Rightarrow> bind_workspace_open tid db tasks | None \<Rightarrow> tasks)
              in ((reply ''started'' tid ''DSC loading started in background. Poll task_status(task_id) for progress.'', Some tid),
                  set_cancel_token tid tok tasks)))"

section \<open>How the background task ends\<close>

text \<open>The task is registered and running; and it has ended, a cancelled one without leaving its database open.\<close>

definition bg_live :: "string \<Rightarrow> 'w bg \<Rightarrow> bool" where
  "bg_live tid s \<longleftrightarrow> hm_wf (tr_entries (bg_tasks s)) \<and> (\<exists>e. hm_get (tr_entries (bg_tasks s)) tid = Some e \<and> is_running e)"

definition bg_ended :: "('w \<Rightarrow> bool) \<Rightarrow> string \<Rightarrow> 'w bg \<Rightarrow> bool" where
  "bg_ended open_in tid s \<longleftrightarrow>
     (\<forall>e. hm_get (tr_entries (bg_tasks s)) tid = Some e \<longrightarrow>
        \<not> is_running e \<and> (te_status e = TsCancelled \<longrightarrow> \<not> open_in (bg_worker s)))"

text \<open>
  What the task relies on. Nobody else settles the task, only \<open>dc_open\<close> opens the database, which has the generation \<open>g\<close>, a
  failed open leaves it closed, and a conditional close that succeeds leaves no database of the generation.
\<close>

definition dsc_rely :: "(u64 \<Rightarrow> 'w \<Rightarrow> bool) \<Rightarrow> u64 \<Rightarrow> string \<Rightarrow> 'w dsc_env \<Rightarrow> bool" where
  "dsc_rely open_in g tid env \<longleftrightarrow>
     (\<forall>s. bg_live tid s \<longrightarrow>
        (\<forall>p i a. bg_live tid (snd (dc_open env p i a s))
           \<and> (case fst (dc_open env p i a s) of Inr (_, g') \<Rightarrow> g' = g | Inl _ \<Rightarrow> \<not> open_in g (bg_worker (snd (dc_open env p i a s)))))
        \<and> (\<forall>f. bg_live tid (snd (dc_load env f g s))) \<and> bg_live tid (snd (dc_status env g s))
        \<and> (\<forall>u. bg_live tid (snd (dc_close_token env u g s)))
        \<and> bg_live tid (snd (dc_close_if env g s))
        \<and> (case fst (dc_close_if env g s) of Inr _ \<Rightarrow> \<not> open_in g (bg_worker (snd (dc_close_if env g s))) | Inl _ \<Rightarrow> True)
        \<and> bg_live tid (snd (dc_idat env s)) \<and> bg_live tid (dc_gap env s)
        \<and> (\<not> open_in g (bg_worker s) \<longrightarrow> \<not> open_in g (bg_worker (snd (dc_idat env s))) \<and> \<not> open_in g (bg_worker (dc_gap env s))))"

lemma on_tasks_simps [simp]:
  "bg_tasks (on_tasks f s) = f (bg_tasks s)" "bg_worker (on_tasks f s) = bg_worker s" "bg_files (on_tasks f s) = bg_files s"
  by (simp_all add: on_tasks_def)

lemma with_files_simps [simp]:
  "bg_tasks (with_files f s) = bg_tasks s" "bg_worker (with_files f s) = bg_worker s" "bg_files (with_files f s) = f (bg_files s)"
  by (simp_all add: with_files_def)

lemma files_irrelevant [simp]:
  "bg_live tid (with_files f s) = bg_live tid s" "bg_live tid (s\<lparr>bg_files := fs\<rparr>) = bg_live tid s"
  "bg_ended P tid (with_files f s) = bg_ended P tid s" "bg_ended P tid (s\<lparr>bg_files := fs\<rparr>) = bg_ended P tid s"
  by (simp_all add: bg_live_def bg_ended_def)

lemma say_simps [simp]: "bg_worker (say env tid msg s) = bg_worker s" "bg_files (say env tid msg s) = bg_files s"
  by (simp_all add: say_def)

lemma message_running [simp]: "te_status (entry_update_message now msg e) = te_status e"
  by (simp add: entry_update_message_def refresh_updated_def)

lemma say_live [simp]: "bg_live tid s \<Longrightarrow> bg_live tid (say env tid msg s)"
  by (auto simp: bg_live_def say_def update_message_def hm.map_laws)

text \<open>Settling puts the settled entry in place, or prunes it.\<close>

lemma settle_with_entry:
  assumes "hm_wf (tr_entries r)" "hm_get (tr_entries r) tid = Some e" "hm_get (tr_entries (snd (settle_with f tid t r))) tid = Some e'"
  shows "e' = fst (f e)"
  using assms by (auto simp: settle_with_def Let_def prune_terminal_tasks_def hm.map_laws split: if_splits option.splits)

lemma settle_with_ended:
  assumes "bg_live tid s" "\<And>e. is_running e \<Longrightarrow> \<not> is_running (fst (f e)) \<and> (te_status (fst (f e)) = TsCancelled \<longrightarrow> \<not> P (bg_worker s))"
  shows "bg_ended P tid (on_tasks (\<lambda>r. snd (settle_with f tid t r)) s)"
proof -
  obtain e where e: "hm_wf (tr_entries (bg_tasks s))" "hm_get (tr_entries (bg_tasks s)) tid = Some e" "is_running e"
    using assms(1) by (auto simp: bg_live_def)
  show ?thesis using settle_with_entry[OF e(1,2)] assms(2)[OF e(3)] by (auto simp: bg_ended_def)
qed

lemmas entry_settlements = entry_complete_def entry_complete_after_fatal_error_def entry_complete_with_cancel_token_def
  entry_fail_def entry_fail_after_cleanup_error_def entry_finish_cancelled_def transition_cancelled_def clear_runtime_def refresh_updated_def

lemma cancel_with_ended:
  assumes "bg_live tid s" "\<not> P (bg_worker s)"
  shows "bg_ended P tid (cancel_with env tid msg s)"
proof -
  obtain e where e: "hm_wf (tr_entries (bg_tasks s))" "hm_get (tr_entries (bg_tasks s)) tid = Some e" "is_running e"
    using assms(1) by (auto simp: bg_live_def)
  then show ?thesis
    using assms(2)
    by (auto simp: bg_ended_def cancel_with_def finish_cancelled_def Let_def prune_terminal_tasks_def hm.map_laws entry_settlements
        split: if_splits option.splits)
qed

lemma cleanup_failed_ended: "bg_live tid s \<Longrightarrow> bg_ended P tid (cleanup_failed env tid msg s)"
  unfolding cleanup_failed_def fail_after_cleanup_error_def
  by (rule settle_with_ended) (auto simp: entry_settlements Let_def)

lemma tool_error_ended:
  assumes "bg_live tid (dc_gap env s)" "\<not> is_fatal e \<Longrightarrow> \<not> P (bg_worker (dc_gap env s))"
  shows "bg_ended P tid (complete_background_tool_error env tid tok e msg s)"
proof (cases "is_fatal e")
  case True
  then show ?thesis
    unfolding complete_background_tool_error_def Let_def complete_after_fatal_error_def if_P[OF True]
    by (intro settle_with_ended assms(1)) (auto simp: entry_settlements Let_def)
next
  case False
  have "bg_ended P tid (on_tasks (\<lambda>r. snd (settle_with (entry_complete_with_cancel_token c msg now v) tid t r)) (dc_gap env s))" for c now v t
    by (rule settle_with_ended[OF assms(1)]) (use assms(2)[OF False] in \<open>auto simp: entry_settlements Let_def split: option.splits\<close>)
  then show ?thesis
    using False by (simp add: complete_background_tool_error_def Let_def complete_with_cancel_token_def on_tasks_def)
qed

lemma relyD:
  assumes "dsc_rely open_in g tid env" "bg_live tid s"
  shows "bg_live tid (snd (dc_open env p i a s))" "fst (dc_open env p i a s) = Inr (v, g') \<Longrightarrow> g' = g"
    and "fst (dc_open env p i a s) = Inl e \<Longrightarrow> \<not> open_in g (bg_worker (snd (dc_open env p i a s)))"
    and "bg_live tid (snd (dc_load env f g s))" "bg_live tid (snd (dc_status env g s))" "bg_live tid (snd (dc_close_token env u g s))"
    and "bg_live tid (snd (dc_close_if env g s))" "fst (dc_close_if env g s) = Inr c \<Longrightarrow> \<not> open_in g (bg_worker (snd (dc_close_if env g s)))"
    and "bg_live tid (snd (dc_idat env s))" "bg_live tid (dc_gap env s)"
    and "\<not> open_in g (bg_worker s) \<Longrightarrow> \<not> open_in g (bg_worker (snd (dc_idat env s)))"
    and "\<not> open_in g (bg_worker s) \<Longrightarrow> \<not> open_in g (bg_worker (dc_gap env s))"
  using assms(1)[unfolded dsc_rely_def, rule_format, OF assms(2)] by (auto split: sum.splits prod.splits)

text \<open>Every way out after the open leaves the task ended.\<close>

lemma cancellation_after_open_ended:
  assumes "dsc_rely open_in g tid env" "bg_live tid s"
  shows "bg_ended (open_in g) tid (finish_dsc_cancellation_after_open env tid g s)"
proof (cases "dc_close_if env g s")
  case (Pair c s')
  then have live: "bg_live tid s'" and closed: "\<And>x. c = Inr x \<Longrightarrow> \<not> open_in g (bg_worker s')"
    using relyD(7,8)[OF assms] by auto
  show ?thesis
    using Pair cancel_with_ended[OF live] cleanup_failed_ended[OF live] closed
    by (auto simp: finish_dsc_cancellation_after_open_def split: sum.split conditional_close_result.split)
qed

lemma tool_error_after_open_ended:
  assumes "dsc_rely open_in g tid env" "bg_live tid s"
  shows "bg_ended (open_in g) tid (finish_dsc_tool_error_after_open env tid tok g e s)"
proof (cases "dc_close_if env g s")
  case (Pair c s')
  then have live: "bg_live tid s'" and closed: "\<And>x. c = Inr x \<Longrightarrow> \<not> open_in g (bg_worker s')"
    using relyD(7,8)[OF assms] by auto
  show ?thesis
    using Pair tool_error_ended[OF relyD(10)[OF assms(1) live]] relyD(12)[OF assms(1) live] cleanup_failed_ended[OF live] closed
    by (auto simp: finish_dsc_tool_error_after_open_def split: sum.split)
qed

lemma fatal_ended:
  "dsc_rely open_in g tid env \<Longrightarrow> bg_live tid s \<Longrightarrow> is_fatal e \<Longrightarrow> bg_ended P tid (complete_background_tool_error env tid tok e msg s)"
  by (rule tool_error_ended[OF relyD(10)]) simp_all

text \<open>A stage settles the task, or it goes on with the task still running.\<close>

definition stage_ok :: "('w \<Rightarrow> bool) \<Rightarrow> string \<Rightarrow> 'a option \<times> 'w bg \<Rightarrow> bool" where
  "stage_ok P tid res \<longleftrightarrow> (case res of (None, s) \<Rightarrow> bg_ended P tid s | (Some _, s) \<Rightarrow> bg_live tid s)"

lemma load_image_ok:
  assumes "dsc_rely open_in g tid env" "bg_live tid s"
  shows "stage_ok (open_in g) tid (load_dsc_image env tid tok g loading failed name s)"
proof (cases "dc_load env name g (say env tid loading s)")
  case (Pair result s')
  then have live: "bg_live tid s'" using relyD(4)[OF assms(1), of "say env tid loading s" name] assms(2) by simp
  show ?thesis
    using Pair live fatal_ended[OF assms(1) live] cancellation_after_open_ended[OF assms(1) live] tool_error_after_open_ended[OF assms(1) live]
    by (auto simp: load_dsc_image_def stage_ok_def split: sum.split)
qed

lemma load_frameworks_ok:
  "dsc_rely open_in g tid env \<Longrightarrow> bg_live tid s \<Longrightarrow> stage_ok (open_in g) tid (load_frameworks env tid tok g fs s)"
proof (induction fs arbitrary: s)
  case (Cons f fs)
  note image = load_image_ok[OF Cons.prems, of tok "''Loading DSC framework '' @ f @ ''...''" "''Failed to load DSC framework '' @ f @ '': ''" f]
  show ?case
    using image Cons.IH[OF Cons.prems(1)] cancellation_after_open_ended[OF Cons.prems]
    by (fastforce simp: stage_ok_def split: prod.splits option.splits)
qed (simp add: stage_ok_def)

lemma load_images_ok:
  assumes rely: "dsc_rely open_in g tid env" and "bg_live tid s"
  shows "stage_ok (open_in g) tid (load_dsc_images env tid tok g module frameworks s)"
proof (cases "load_dsc_image env tid tok g ''Loading DSC module through ida_dscu...'' (''Failed to load DSC module '' @ module @ '': '') module s")
  case (Pair img s1)
  have ok: "stage_ok (open_in g) tid (img, s1)" using load_image_ok[OF assms] Pair by metis
  show ?thesis
  proof (cases img)
    case None
    then show ?thesis using ok Pair by (simp add: load_dsc_images_def stage_ok_def)
  next
    case (Some i)
    then have live1: "bg_live tid s1" using ok by (simp add: stage_ok_def)
    obtain imgs s2 where loaded: "load_frameworks env tid tok g frameworks s1 = (imgs, s2)" by (rule prod.exhaust)
    have ok2: "stage_ok (open_in g) tid (imgs, s2)" using load_frameworks_ok[OF rely live1] loaded by metis
    obtain status s3 where status: "dc_status env g s2 = (status, s3)" by (rule prod.exhaust)
    have "bg_live tid s3" if "bg_live tid s2" using relyD(5)[OF rely that] status by simp
    then show ?thesis
      using ok2 Pair Some loaded status fatal_ended[OF rely, of s3] cancellation_after_open_ended[OF rely, of s3]
      by (auto simp: load_dsc_images_def stage_ok_def split: option.splits sum.split)
  qed
qed

lemma defer_or_ended:
  assumes rely: "dsc_rely open_in g tid env" and live: "bg_live tid s"
    and decide: "complete_or_defer_cancellation tid v tok now t (bg_tasks s) = (decision, r)"
  shows "if decision = DecCancellationPending then bg_live tid (s\<lparr>bg_tasks := r\<rparr>) else bg_ended (open_in g) tid (s\<lparr>bg_tasks := r\<rparr>)"
proof -
  obtain e where e: "hm_wf (tr_entries (bg_tasks s))" "hm_get (tr_entries (bg_tasks s)) tid = Some e" "is_running e"
    using live by (auto simp: bg_live_def)
  show ?thesis
    using decide e live
    by (auto simp: complete_or_defer_cancellation_def bg_ended_def prune_terminal_tasks_def hm.map_laws entry_settlements Let_def
        split: if_splits option.splits)
qed

lemma opened_ended:
  assumes rely: "dsc_rely open_in g tid env" and live: "bg_live tid s"
  shows "bg_ended (open_in g) tid (run_dsc_opened env mode legacy_pooled database_id tid tok ctx info g with_images s)"
proof -
  define stage where "stage = (if with_images
      then (case load_dsc_images env tid tok g (dx_module ctx) (dx_frameworks ctx) s of (None, s) \<Rightarrow> (None, s) | (Some l, s) \<Rightarrow> (Some (Some l), s))
      else (Some None, s))"
  have ok: "stage_ok (open_in g) tid stage"
    using load_images_ok[OF assms, of tok "dx_module ctx" "dx_frameworks ctx"] live
    by (auto simp: stage_def stage_ok_def split: prod.splits option.splits)
  obtain loaded s1 where st: "stage = (loaded, s1)" by (rule prod.exhaust)
  show ?thesis
  proof (cases loaded)
    case None
    then show ?thesis using ok st by (simp add: run_dsc_opened_def stage_def[symmetric] stage_ok_def)
  next
    case (Some l)
    then have live1: "bg_live tid s1" using ok st by (simp add: stage_ok_def)
    obtain grant s2 where token: "(case (mode, dx_owner_session_id ctx) of (ModeHttp, Some owner) \<Rightarrow> dc_close_token env owner g s1 | _ \<Rightarrow> (None, s1)) = (grant, s2)"
      by (rule prod.exhaust)
    have "bg_live tid s2"
      using token live1 relyD(6)[OF rely live1] by (auto split: server_mode.splits option.splits) (metis snd_conv)+
    then have live2: "bg_live tid (dc_gap env s2)" by (rule relyD(10)[OF rely])
    show ?thesis
      using st Some token cancellation_after_open_ended[OF rely live1] defer_or_ended[OF rely live2] cancellation_after_open_ended[OF rely]
      by (fastforce simp: run_dsc_opened_def stage_def[symmetric] Let_def split: prod.splits task_completion_decision.splits)
  qed
qed

text \<open>The stages before the open: they do not open the database.\<close>

lemma closed_error_ended:
  assumes "dsc_rely open_in g tid env" "bg_live tid s" "\<not> open_in g (bg_worker s)"
  shows "bg_ended (open_in g) tid (complete_background_tool_error env tid tok e msg s)"
  using relyD(10,12)[OF assms(1,2)] assms(3) by (intro tool_error_ended) auto

lemma prepare_direct_ok:
  assumes "dsc_rely open_in g tid env" "bg_live tid s" "\<not> open_in g (bg_worker s)"
  shows "stage_ok (open_in g) tid (prepare_direct env tid tok open_path idb_out s)"
  using closed_error_ended[OF assms(1)] assms(2,3)
  by (auto simp: prepare_direct_def stage_ok_def Let_def split: prod.splits sum.splits)

lemma after_idat_ok:
  assumes "dsc_rely open_in g tid env" "bg_live tid s" "\<not> open_in g (bg_worker s)"
  shows "stage_ok (open_in g) tid (after_idat env tid tok out_i64 code stderr s)"
  using closed_error_ended[OF assms(1), of "with_files (remove_partial_idat_outputs (refused env) out_i64) s"] cancel_with_ended[where P = "open_in g", OF assms(2,3)] assms(2,3)
  by (auto simp: after_idat_def stage_ok_def)

lemma fail_task_ended: "bg_live tid s \<Longrightarrow> \<not> P (bg_worker s) \<Longrightarrow> bg_ended P tid (on_tasks (\<lambda>r. snd (fail_task tid msg now t r)) s)"
  unfolding fail_task_def by (rule settle_with_ended) (auto simp: entry_settlements Let_def split: option.splits)

lemma stage_ok_files [simp]:
  "stage_ok P tid (x, with_files f s) = stage_ok P tid (x, s)"
  by (simp add: stage_ok_def split: option.split)

lemma prepare_legacy_ok:
  assumes rely: "dsc_rely open_in g tid env" and live: "bg_live tid s" and closed: "\<not> open_in g (bg_worker s)"
  shows "stage_ok (open_in g) tid (prepare_legacy env tid tok script out_i64 s)"
proof (cases "remove_orphaned_dsc_output_artifacts (dc_unlink_error env) (dc_lock env) (\<lambda>fs. fs) out_i64 (bg_files s)")
  case (Pair res fs)
  let ?s1 = "say env tid ''Running idat to create .i64...'' (s\<lparr>bg_files := fs\<rparr>)"
  have early: "stage_ok (open_in g) tid (None, complete_background_tool_error env tid tok e msg (s\<lparr>bg_files := fs\<rparr>))" for e msg
    using closed_error_ended[OF rely, of "s\<lparr>bg_files := fs\<rparr>"] live closed by (simp add: stage_ok_def)
  obtain outcome s2 where idat: "dc_idat env ?s1 = (outcome, s2)" by (rule prod.exhaust)
  have live2: "bg_live tid s2" using relyD(9)[OF rely, of ?s1] idat live by simp
  have closed2: "\<not> open_in g (bg_worker s2)" using relyD(11)[OF rely, of ?s1] idat live closed by simp
  let ?s3 = "with_files (remove_partial_idat_outputs (refused env) out_i64) s2"
  have stopped: "stage_ok (open_in g) tid (None, cancel_with env tid msg ?s3)" for msg
    using cancel_with_ended[of tid ?s3] live2 closed2 by (simp add: stage_ok_def)
  have failed: "stage_ok (open_in g) tid (None, on_tasks (\<lambda>r. snd (fail_task tid msg (dc_clock env ?s3) (fst (dc_clock env ?s3)) r)) ?s3)" for msg
    using fail_task_ended[of tid ?s3] live2 closed2 by (simp add: stage_ok_def)
  have cleaned: "stage_ok (open_in g) tid (case res of (prepared, s) \<Rightarrow> (prepared, with_files f s))"
    if "stage_ok (open_in g) tid res" for res :: "'b option \<times> 'a bg" and f
    using that by (cases res) simp
  show ?thesis
    using Pair idat early stopped failed cleaned[OF after_idat_ok[OF rely live2 closed2]]
    by (auto simp: prepare_legacy_def Let_def split: sum.split idat_outcome.split)
qed

text \<open>
  C37: The background task that opens a shared cache always ends, and a cancelled one leaves nothing open. Whichever
  step fails or is cancelled, the task is settled in the registry when the function returns, and if it is settled as
  cancelled, the worker has no database of the generation that the task opened.
\<close>

theorem dsc_task_ends_clean:
  assumes rely: "dsc_rely open_in g tid env" and "bg_live tid s" "\<not> open_in g (bg_worker s)"
  shows "bg_ended (open_in g) tid (run_dsc_background env mode legacy_pooled database_id tid tok ctx s)"
proof -
  define stage where "stage = (case dx_open ctx of
      DirectRawDsc open_path idb_out \<Rightarrow> prepare_direct env tid tok open_path idb_out s
    | LegacyIdat script log out_i64 \<Rightarrow> prepare_legacy env tid tok script out_i64 s)"
  have ok: "stage_ok (open_in g) tid stage"
    using prepare_direct_ok[OF assms] prepare_legacy_ok[OF assms] by (simp add: stage_def split: dsc_background_open.split)
  obtain prepared s1 where st: "stage = (prepared, s1)" by (rule prod.exhaust)
  show ?thesis
  proof (cases prepared)
    case None
    then show ?thesis
      using ok st cancel_with_ended[where P = "open_in g", OF assms(2,3)] by (simp add: run_dsc_background_def stage_def[symmetric] stage_ok_def)
  next
    case (Some p)
    obtain open_path idb_out auto_analyse with_images where p: "p = (open_path, idb_out, auto_analyse, with_images)" by (cases p)
    have live1: "bg_live tid s1" using ok st Some by (simp add: stage_ok_def)
    obtain res s2 where opened: "dc_open env open_path idb_out auto_analyse s1 = (res, s2)" by (rule prod.exhaust)
    then have live2: "bg_live tid s2" using relyD(1)[OF rely live1] by (metis snd_conv)
    have "\<not> open_in g (bg_worker s2)" if "res = Inl e" for e using relyD(3)[OF rely live1] opened that by (metis fst_conv snd_conv)
    moreover have "g' = g" if "res = Inr (info, g')" for info g' using relyD(2)[OF rely live1] opened that by (metis fst_conv)
    ultimately show ?thesis
      using st Some p opened cancel_with_ended[where P = "open_in g", OF assms(2,3)] closed_error_ended[OF rely live2]
        cancellation_after_open_ended[OF rely live2] opened_ended[OF rely live2]
      by (auto simp: run_dsc_background_def stage_def[symmetric] split: sum.split prod.split)
  qed
qed

text \<open>The conditional close of a pooled database keeps what the task relies on.\<close>

lemma conditional_close_law:
  "close_if_generation cfg ce g w = (Inr c, w') \<Longrightarrow> \<not> (\<exists>l. wd_handle (fst w') = Some l \<and> dl_generation l = g)"
  by (auto simp: close_if_generation_def split: option.splits if_splits prod.splits sum.splits)

text \<open>An example: a worker that is only the generation of its database, and a task that is cancelled while an image is loaded.\<close>

definition demo_dsc_env :: "u64 option dsc_env" where
  "demo_dsc_env = \<lparr>dc_open = (\<lambda>p i a s. (Inr (JObj [], 1), s\<lparr>bg_worker := Some 1\<rparr>)),
     dc_load = (\<lambda>f g s. (Inr JNull, s\<lparr>bg_tasks := (bg_tasks s)\<lparr>tr_fired := [7]\<rparr>\<rparr>)),
     dc_status = (\<lambda>g s. (Inr (JNull, True), s)), dc_close_if = (\<lambda>g s. (Inr Closed, s\<lparr>bg_worker := None\<rparr>)),
     dc_close_token = (\<lambda>u g s. (None, s)), dc_idat = (\<lambda>s. (IdatStopped, s)), dc_gap = (\<lambda>s. s), dc_clock = (\<lambda>s. (5, ''now'')),
     dc_unlink_error = (\<lambda>_. None), dc_lock = Inr (), dc_log_tail = None, dc_value = (\<lambda>_. JNull)\<rparr>"

definition demo_dsc_state :: "u64 option bg" where
  "demo_dsc_state = \<lparr>bg_worker = None, bg_tasks = \<lparr>tr_entries = [(''t'', task_entry_new Runtime
       \<lparr>ts_id = ''t'', ts_status = TsRunning, ts_message = [], ts_result = None, ts_created_at = 0, ts_updated_at = 0,
        ts_created_at_iso = [], ts_updated_at_iso = [], ts_key = None\<rparr>)], tr_fired = []\<rparr>, bg_files = (\<lambda>_. None)\<rparr>"

theorem dsc_task_ends_clean_witness:
  "bg_ended (\<lambda>w. w = Some 1) ''t'' (run_dsc_background demo_dsc_env ModeStdio False None ''t'' 7
     \<lparr>dx_open = DirectRawDsc ''/dsc'' ''/tmp/dsc.i64'', dx_module = ''libobjc'', dx_frameworks = [], dx_owner_session_id = None\<rparr> demo_dsc_state)"
proof (rule dsc_task_ends_clean[where open_in = "\<lambda>g w. w = Some g"])
  show "dsc_rely (\<lambda>g w. w = Some g) 1 ''t'' demo_dsc_env"
    by (auto simp: dsc_rely_def demo_dsc_env_def bg_live_def)
  show "bg_live ''t'' demo_dsc_state" by (simp add: demo_dsc_state_def bg_live_def hm_wf_def hm_get_def task_entry_new_def)
  show "bg_worker demo_dsc_state \<noteq> Some 1" by (simp add: demo_dsc_state_def)
qed

text \<open>
  A cancellation that is seen only after idat has ended keeps what idat wrote, also when idat failed: the
  untrusted output is not removed, and the next open of the shared cache takes it for a finished database.
\<close>

theorem cancelled_idat_keeps_output:
  assumes "dx_open ctx = LegacyIdat script log out_i64" "\<not> is_cancelled tok s" "script \<noteq> out_i64"
    and "remove_orphaned_dsc_output_artifacts (dc_unlink_error env) (dc_lock env) (\<lambda>fs. fs) out_i64 (bg_files s) = (Inr (), fs)"
    and "dc_idat env (say env tid ''Running idat to create .i64...'' (s\<lparr>bg_files := fs\<rparr>)) = (IdatExited code stderr, s2)"
    and "is_cancelled tok s2" "path_exists (bg_files s2) out_i64"
  shows "path_exists (bg_files (run_dsc_background env mode legacy_pooled database_id tid tok ctx s)) out_i64
    \<and> dsc_open_plan_of sdk_version (path_exists (bg_files (run_dsc_background env mode legacy_pooled database_id tid tok ctx s)) out_i64) = DirectExistingI64"
  using assms
  by (simp add: run_dsc_background_def prepare_legacy_def after_idat_def cancel_with_def unlink_def path_exists_def dsc_open_plan_of_def)

section \<open>The name of the database\<close>

lemma digit_char_inj: "x < 16 \<Longrightarrow> y < 16 \<Longrightarrow> digit_char x = digit_char y \<Longrightarrow> x = y"
  using digit_val_char by metis

lemma length_hex_encode: "length (hex_encode bs) = 2 * length bs"
  by (induction bs) (simp_all add: hex_encode_def)

lemma hex_encode_inj:
  "length bs = length cs \<Longrightarrow> \<forall>b \<in> set bs. b < 256 \<Longrightarrow> \<forall>c \<in> set cs. c < 256 \<Longrightarrow> hex_encode bs = hex_encode cs \<Longrightarrow> bs = cs"
proof (induction bs cs rule: list_induct2)
  case (Cons b bs c cs)
  then have "digit_char (b div 16) = digit_char (c div 16)" "digit_char (b mod 16) = digit_char (c mod 16)"
    by (simp_all add: hex_encode_def)
  moreover have "b div 16 < 16" "c div 16 < 16" using Cons.prems(1,2) by auto
  ultimately have "b div 16 = c div 16" "b mod 16 = c mod 16" using digit_char_inj by (simp_all add: digit_char_inj)
  then have "b = c" by (metis div_mult_mod_eq)
  then show ?case using Cons by (simp add: hex_encode_def)
qed simp

definition dsc_uuid :: "nat list \<Rightarrow> nat list" where
  "dsc_uuid bytes = take 16 (drop 0x58 (take 0x68 bytes))"

definition dsc_name :: "string \<Rightarrow> string" where
  "dsc_name path = (case file_name path of Some n \<Rightarrow> if utf8_valid n then sanitize_temp_component n else ''dsc'' | None \<Rightarrow> ''dsc'')"

lemma dsc_cache_path_parts:
  assumes "direct_dsc_cache_i64_path tmp path (Inr bytes) = Inr p"
  shows "p = path_join tmp (''ida-mcp-dsc-'' @ dsc_name path @ ''-'' @ hex_encode (dsc_uuid bytes) @ ''.i64'') \<and> length (dsc_uuid bytes) = 16"
  using assms
  by (auto simp: direct_dsc_cache_i64_path_def dsc_content_identity_def dsc_uuid_def dsc_name_def Let_def split: if_splits)

lemma path_join_relative_inj: "hd q \<noteq> CHR ''/'' \<Longrightarrow> hd r \<noteq> CHR ''/'' \<Longrightarrow> path_join p q = path_join p r \<longleftrightarrow> q = r"
  by (auto simp: path_join_def)

text \<open>
  The database of a shared cache is kept under its content. Two caches that are accepted share a database
  file exactly when their file names read the same and they carry the same UUID: wherever they are mounted, the same
  firmware finds its analysis again, and another firmware at the same place never gets it.
\<close>

theorem dsc_cache_path_by_content:
  assumes "direct_dsc_cache_i64_path tmp path1 (Inr bytes1) = Inr p1" "direct_dsc_cache_i64_path tmp path2 (Inr bytes2) = Inr p2"
    and "\<forall>b \<in> set bytes1. b < 256" "\<forall>b \<in> set bytes2. b < 256"
  shows "p1 = p2 \<longleftrightarrow> dsc_name path1 = dsc_name path2 \<and> dsc_uuid bytes1 = dsc_uuid bytes2"
proof -
  note parts = dsc_cache_path_parts[OF assms(1)] dsc_cache_path_parts[OF assms(2)]
  have "p1 = p2 \<longleftrightarrow> dsc_name path1 @ ''-'' @ hex_encode (dsc_uuid bytes1) = dsc_name path2 @ ''-'' @ hex_encode (dsc_uuid bytes2)"
    using parts by (simp add: path_join_relative_inj)
  also have "\<dots> \<longleftrightarrow> dsc_name path1 = dsc_name path2 \<and> hex_encode (dsc_uuid bytes1) = hex_encode (dsc_uuid bytes2)"
    using parts length_hex_encode[of "dsc_uuid bytes1"] length_hex_encode[of "dsc_uuid bytes2"]
    by (simp add: append_eq_append_conv)
  also have "hex_encode (dsc_uuid bytes1) = hex_encode (dsc_uuid bytes2) \<longleftrightarrow> dsc_uuid bytes1 = dsc_uuid bytes2"
    using hex_encode_inj[of "dsc_uuid bytes1" "dsc_uuid bytes2"] parts assms(3,4)
    by (auto simp: dsc_uuid_def dest!: in_set_takeD in_set_dropD)
  finally show ?thesis .
qed

text \<open>A header of zeros but for the magic, the mapping offset and the UUID.\<close>

definition demo_header :: "nat \<Rightarrow> nat list" where
  "demo_header u = map of_char ''dyld_v1'' @ replicate 9 0 @ [0x68, 0, 0, 0] @ replicate 0x44 0 @ replicate 16 u"

theorem dsc_cache_path_by_content_witness:
  "direct_dsc_cache_i64_path ''/tmp'' ''/mnt/a/dyld'' (Inr (demo_header 1)) \<noteq> direct_dsc_cache_i64_path ''/tmp'' ''/mnt/a/dyld'' (Inr (demo_header 2))"
proof -
  have header: "length (demo_header u) = 0x68" "take 0x68 (demo_header u) = demo_header u" "take 7 (demo_header u) = map of_char ''dyld_v1''"
      "u32_le (take 4 (drop 0x10 (demo_header u))) = 0x68" "take 16 (drop 0x58 (demo_header u)) = replicate 16 u" for u
    by (simp_all add: demo_header_def u32_le_def)
  then have "\<exists>p. direct_dsc_cache_i64_path ''/tmp'' ''/mnt/a/dyld'' (Inr (demo_header u)) = Inr p" if "u \<noteq> 0" for u
    using that by (simp add: direct_dsc_cache_i64_path_def dsc_content_identity_def)
  from this[of 1] this[of 2]
  obtain p q where pq: "direct_dsc_cache_i64_path ''/tmp'' ''/mnt/a/dyld'' (Inr (demo_header 1)) = Inr p"
      "direct_dsc_cache_i64_path ''/tmp'' ''/mnt/a/dyld'' (Inr (demo_header 2)) = Inr q" by auto
  have "dsc_uuid (demo_header 1) \<noteq> dsc_uuid (demo_header 2)" by (simp add: dsc_uuid_def header)
  moreover have "\<forall>b \<in> set (demo_header 1). b < 256" "\<forall>b \<in> set (demo_header 2). b < 256" by (auto simp: demo_header_def)
  ultimately show ?thesis using dsc_cache_path_by_content[OF pq] pq by auto
qed

end
