(* ===== verification/Dsc_Script.thy ===== *)
theory Dsc_Script
  imports Dsc_Open
begin

text \<open>
  \<open>src/src/dsc.rs\<close>: the arguments of \<open>idat\<close> and the Python scripts that load images of a shared cache in
  IDA versions without the native service, and that a name from a client cannot break out of its string literal.
\<close>

section \<open>Escaping\<close>

definition replace_char :: "char \<Rightarrow> string \<Rightarrow> string \<Rightarrow> string" where
  "replace_char c t s = concat (map (\<lambda>x. if x = c then t else [x]) s)"

abbreviation backslash :: char where "backslash \<equiv> CHR 0x5C"
abbreviation dquote :: char where "dquote \<equiv> CHR 0x22"
abbreviation tab :: char where "tab \<equiv> CHR 0x09"

definition escape_python_string :: "string \<Rightarrow> string" where
  "escape_python_string s =
     replace_char (CHR 0x0D) [backslash, CHR ''r'']
       (replace_char (CHR 0x0A) [backslash, CHR ''n'']
         (replace_char dquote [backslash, dquote]
           (replace_char backslash [backslash, backslash] s)))"

section \<open>Arguments\<close>

definition dsc_file_type :: "string \<Rightarrow> nat \<Rightarrow> string" where
  "dsc_file_type arch ida_version =
     ''Apple DYLD cache for '' @ arch @ '' ('' @ (if 9 \<le> ida_version then ''select module(s)'' else ''single module'') @ '')''"

definition idat_dsc_args :: "string \<Rightarrow> string \<Rightarrow> string \<Rightarrow> string \<Rightarrow> string option \<Rightarrow> string list" where
  "idat_dsc_args dsc_path out_i64 script_path file_type log_path =
     [''-a-'', ''-A'', ''-P+'', ''-Oobjc:+l''] @ (case log_path of Some l \<Rightarrow> [''-L'' @ l] | None \<Rightarrow> []) @
     [''-S'' @ script_path, ''-T'' @ file_type, ''-o'' @ out_i64, dsc_path]"

text \<open>The directory of the environment variable is looked at before the candidates of the platform.\<close>

definition find_idat :: "(string \<Rightarrow> bool) \<Rightarrow> string \<Rightarrow> string option \<Rightarrow> string list \<Rightarrow> tool_error + string" where
  "find_idat exists bin_name idadir candidates =
     (case (case idadir of Some dir \<Rightarrow> if exists (path_join dir bin_name) then Some (path_join dir bin_name) else None | None \<Rightarrow> None) of
        Some idat \<Rightarrow> Inr idat
      | None \<Rightarrow>
          (case find exists candidates of
             Some p \<Rightarrow> Inr p
           | None \<Rightarrow> Inl (InvalidParams (''Cannot find idat binary. Set IDADIR environment variable '' @
                ''to your IDA installation directory.''))))"

section \<open>Scripts\<close>

definition dscu_python_helpers :: string where
  \<open>dscu_python_helpers = str_join newline [
     '''',
     ''def run_plugin_checked(name, arg, context, strict_nonzero=False):'',
     ''    def plugin_failed():'',
     ''        raise RuntimeError(f"{name} plugin failed during {context} (return={rc!r})")'',
     '''',
     ''    rc = load_and_run_plugin(name, arg)'',
     ''    if rc is None:'',
     ''        plugin_failed()'',
     ''    if strict_nonzero and (rc is False or (isinstance(rc, int) and rc <= 0)):'',
     ''        plugin_failed()'',
     ''    if isinstance(rc, int) and rc < 0:'',
     ''        plugin_failed()'',
     ''    return rc'',
     '''',
     ''def legacy_dscu_load_module(module):'',
     ''    node = idaapi.netnode()'',
     ''    node.create("$ dscu")'',
     ''    node.supset(2, module)'',
     ''    run_plugin_checked("dscu", 1, f"loading module {module}", True)'',
     '''',
     ''def modern_dscu_service():'',
     ''    try:'',
     ''        import ida_dscu'',
     ''    except ImportError:'',
     ''        return None, None'',
     '''',
     ''    svc = ida_dscu.get_dscu_svc()'',
     ''    if svc is None:'',
     ''        return ida_dscu, None'',
     ''    return ida_dscu, svc'',
     '''',
     ''def dscu_load_module(module):'',
     ''    ida_dscu, svc = modern_dscu_service()'',
     ''    if svc is None:'',
     ''        legacy_dscu_load_module(module)'',
     ''        return "legacy"'',
     '''',
     ''    image_index = svc.get_image_index(module)'',
     ''    if image_index < 0:'',
     ''        raise RuntimeError(f"DSC image not found: {module}")'',
     ''    if svc.is_image_loaded(image_index):'',
     ''        print(f"[ida-mcp] module already loaded: {module}")'',
     ''        return "ida_dscu"'',
     ''    if not svc.load_image(image_index):'',
     ''        raise RuntimeError(f"ida_dscu failed to load module: {module}")'',
     ''    return "ida_dscu"'',
     '''',
     ''def legacy_dscu_load_region(ea):'',
     ''    node = idaapi.netnode()'',
     ''    node.create("$ dscu")'',
     ''    node.altset(3, ea)'',
     ''    run_plugin_checked("dscu", 2, f"loading region {ea:#x}", True)'',
     '''',
     ''def modern_dscu_load_region(ida_dscu, svc, ea):'',
     ''    info = svc.locate_address(ea)'',
     ''    region = info.region'',
     ''    if region.type == ida_dscu.rt_invalid:'',
     ''        raise RuntimeError(f"DSC address is not mapped: {ea:#x}")'',
     '''',
     ''    if region.type == ida_dscu.rt_image_entity:'',
     ''        ok = svc.load_image(region.image_index)'',
     ''    elif region.type == ida_dscu.rt_island:'',
     ''        island = getattr(region, "branch_island_number", region.image_index)'',
     ''        ok = svc.load_island(island)'',
     ''    elif region.type == ida_dscu.rt_mapping:'',
     ''        ok = svc.load_branch_mapping(region.start)'',
     ''    elif region.type == ida_dscu.rt_got:'',
     ''        ok = svc.load_got(region.start)'',
     ''    elif region.type == ida_dscu.rt_unknown:'',
     ''        ok = svc.load_unknown_region(region.start)'',
     ''    elif region.type == ida_dscu.rt_cache_data:'',
     ''        ok = svc.load_cache_data(region.start)'',
     ''    else:'',
     ''        raise RuntimeError(f"DSC region type is not loadable: {region.type}")'',
     '''',
     ''    if not ok:'',
     ''        raise RuntimeError(f"ida_dscu failed to load region at {ea:#x}")'',
     '''',
     ''def dscu_load_region(ea):'',
     ''    ida_dscu, svc = modern_dscu_service()'',
     ''    if svc is None:'',
     ''        legacy_dscu_load_region(ea)'',
     ''        return "legacy"'',
     '''',
     ''    modern_dscu_load_region(ida_dscu, svc, ea)'',
     ''    return "ida_dscu"'',
     '''']\<close>

text \<open>The prefix of all three scripts. In the source the lines behind the first one are indented by a tab.\<close>

definition script_prefix :: string where
  "script_prefix = ''import idaapi'' @ newline @ [tab] @ ''from idc import *'' @ newline @ newline @ [tab] @ dscu_python_helpers @ newline"

definition call_with :: "string \<Rightarrow> string \<Rightarrow> string" where
  "call_with f escaped = f @ ''('' @ [dquote] @ escaped @ [dquote] @ '')''"

definition say_with :: "string \<Rightarrow> string \<Rightarrow> string" where
  "say_with msg escaped = ''print('' @ [dquote] @ ''[ida-mcp] '' @ msg @ escaped @ [dquote] @ '')''"

definition backend_line :: string where
  "backend_line = ''print(f'' @ [dquote] @ ''[ida-mcp] dsc backend: {dsc_backend}'' @ [dquote] @ '')''"

definition analysis_passes :: string where
  \<open>analysis_passes = str_join newline [
     '''',
     ''# ObjC type analysis'',
     ''print("[ida-mcp] analyzing objc types")'',
     ''load_and_run_plugin("objc", 1)'',
     ''print("[ida-mcp] analyzing NSConcreteGlobalBlock objects")'',
     ''load_and_run_plugin("objc", 4)'',
     '''',
     ''# Auto-analysis'',
     ''print("[ida-mcp] performing auto-analysis...")'',
     ''auto_mark_range(0, BADADDR, AU_FINAL)'',
     ''auto_wait()'',
     '''',
     ''# Stack block analysis'',
     ''print("[ida-mcp] analyzing NSConcreteStackBlock objects")'',
     ''load_and_run_plugin("objc", 5)'',
     '''',
     ''print("[ida-mcp] DSC module loading complete")'',
     '''']\<close>

definition dsc_load_script :: "string \<Rightarrow> string list \<Rightarrow> string" where
  "dsc_load_script module frameworks =
     (let m = escape_python_string module
      in script_prefix @ [tab] @ newline @ ''# Load primary module'' @ newline @
         say_with ''loading module: '' m @ newline @
         ''dsc_backend = '' @ call_with ''dscu_load_module'' m @ newline @ backend_line @ newline @
         concat (map (\<lambda>fw. let f = escape_python_string fw
                            in newline @ say_with ''loading framework: '' f @ newline @ call_with ''dscu_load_module'' f @ newline) frameworks) @
         analysis_passes)"

definition light_passes :: string where
  \<open>light_passes = str_join newline [
     ''# ObjC type analysis (lightweight, no full auto-analysis)'',
     ''print("[ida-mcp] analyzing objc types")'',
     ''run_plugin_checked("objc", 1, "objc type analysis", False)'',
     ''print("[ida-mcp] analyzing NSConcreteGlobalBlock objects")'',
     ''run_plugin_checked("objc", 4, "objc global block analysis", False)'',
     '''']\<close>

definition dsc_add_dylib_script :: "string \<Rightarrow> string" where
  "dsc_add_dylib_script module =
     (let m = escape_python_string module
      in script_prefix @ newline @ [tab] @ say_with ''loading additional dylib: '' m @ newline @
         [tab] @ ''dsc_backend = '' @ call_with ''dscu_load_module'' m @ newline @ [tab] @ backend_line @ newline @ newline @
         light_passes @ newline @ say_with ''dsc_add_dylib complete for: '' m @ newline)"

definition dsc_add_region_script :: "u64 \<Rightarrow> string" where
  "dsc_add_region_script ea =
     script_prefix @ newline @ [tab] @ say_with ''loading region '' (show_hex (unat ea)) @ newline @
     [tab] @ ''dsc_backend = dscu_load_region('' @ show_nat (unat ea) @ '')'' @ newline @ [tab] @ backend_line @ newline @
     [tab] @ say_with ''dsc_add_region complete for: '' (show_hex (unat ea)) @ newline @ [tab]"

section \<open>A name stays in its literal\<close>

text \<open>
  Reading a Python string literal behind its opening quote: its value and what follows. Of the escape sequences only those
  are read that stand for one of the four characters; a line may not end in it.
\<close>

fun python_literal :: "string \<Rightarrow> (string \<times> string) option" where
  "python_literal [] = None"
| "python_literal (c # cs) =
     (if c = dquote then Some ([], cs)
      else if c = CHR 0x0A \<or> c = CHR 0x0D then None
      else if c = backslash
      then (case cs of
              [] \<Rightarrow> None
            | d # ds \<Rightarrow>
                (case map_of [(backslash, backslash), (dquote, dquote), (CHR ''n'', CHR 0x0A), (CHR ''r'', CHR 0x0D)] d of
                   None \<Rightarrow> None
                 | Some e \<Rightarrow> map_option (\<lambda>(v, rest). (e # v, rest)) (python_literal ds)))
      else map_option (\<lambda>(v, rest). (c # v, rest)) (python_literal cs))"

definition escape_char :: "char \<Rightarrow> string" where
  "escape_char c =
     (if c = backslash then [backslash, backslash] else if c = dquote then [backslash, dquote]
      else if c = CHR 0x0A then [backslash, CHR ''n''] else if c = CHR 0x0D then [backslash, CHR ''r''] else [c])"

lemma replace_char_append [simp]: "replace_char c t (a @ b) = replace_char c t a @ replace_char c t b"
  by (simp add: replace_char_def)

lemma escape_python_string_simps [simp]:
  "escape_python_string [] = []" "escape_python_string (c # s) = escape_char c @ escape_python_string s"
  by (simp_all add: escape_python_string_def replace_char_def escape_char_def)

text \<open>
  A name from a client cannot leave the string literal that it is written into. Whatever the name contains, Python
  reads the literal to its closing quote and no further, and gets exactly the name.
\<close>

theorem python_literal_roundtrip:
  "python_literal (escape_python_string s @ dquote # rest) = Some (s, rest)"
  by (induction s) (auto simp: escape_char_def)

text \<open>
  The scripts are not valid Python: their second line is indented, which Python refuses after a line that opens no block.
\<close>

theorem scripts_indented:
  "\<exists>r. dsc_load_script module frameworks = ''import idaapi'' @ newline @ tab # ''from idc import *'' @ r"
  "\<exists>r. dsc_add_dylib_script module = ''import idaapi'' @ newline @ tab # ''from idc import *'' @ r"
  "\<exists>r. dsc_add_region_script ea = ''import idaapi'' @ newline @ tab # ''from idc import *'' @ r"
  by (simp_all add: dsc_load_script_def dsc_add_dylib_script_def dsc_add_region_script_def script_prefix_def Let_def)

end
