(* ===== verification/Disassembly.thy ===== *)
theory Disassembly
  imports Listing
begin

text \<open>
  \<open>src/src/ida/handlers/disasm.rs\<close>, \<open>memory.rs\<close>, \<open>address.rs\<close> and \<open>segments.rs\<close>: listings of
  instructions, the bytes patched in a database, pseudocode by address, reads of memory and the
  context of an address. A page of a listing with the page from its next address is the whole
  listing, and the ranges of patched bytes lose none of them.
\<close>

section \<open>Disassembly\<close>

text \<open>The address of the item after \<open>current\<close>, never one at or before it.\<close>

definition next_disasm_address :: "idb \<Rightarrow> u64 \<Rightarrow> u64 option \<Rightarrow> u64 option" where
  "next_disasm_address db current limit =
     (let following = (case db_insn_at db current of
          Some insn \<Rightarrow> checked_add current (of_nat (iv_len insn))
        | None \<Rightarrow> (case limit of
            Some l \<Rightarrow> db_next_head_with db current l
          | None \<Rightarrow> db_next_head db current))
      in case following of
           Some n \<Rightarrow> if current < n then Some n else None
         | None \<Rightarrow> None)"

lemma next_disasm_advances: "next_disasm_address db current limit = Some n \<Longrightarrow> current < n"
  by (auto simp: next_disasm_address_def Let_def split: option.splits if_splits)

definition rendered_line :: "u64 \<Rightarrow> string \<Rightarrow> string" where
  "rendered_line a line = show_addr a @ '':'' @ [CHR 0x09] @ line"

definition joined_lines :: "string list \<Rightarrow> string" where
  "joined_lines lines = str_join [CHR 0x0A] lines"

fun disasm_loop :: "idb \<Rightarrow> nat \<Rightarrow> u64 \<Rightarrow> string list \<Rightarrow> string list" where
  "disasm_loop db 0 current lines = lines"
| "disasm_loop db (Suc count) current lines =
     (case db_disasm_line db current of
        None \<Rightarrow> lines
      | Some line \<Rightarrow>
          (let lines' = lines @ [rendered_line current line]
           in case next_disasm_address db current None of
                None \<Rightarrow> lines'
              | Some n \<Rightarrow> disasm_loop db count n lines'))"

definition joined_or_out_of_range :: "u64 \<Rightarrow> string list \<Rightarrow> tool_error + string" where
  "joined_or_out_of_range addr lines = (if lines = [] then Inl (AddressOutOfRange addr) else Inr (joined_lines lines))"

definition handle_disasm :: "idb option \<Rightarrow> u64 \<Rightarrow> nat \<Rightarrow> tool_error + string" where
  "handle_disasm idb addr count =
     with_db idb (\<lambda>db. joined_or_out_of_range addr (disasm_loop db count addr []))"

definition handle_disasm_by_name :: "idb option \<Rightarrow> string \<Rightarrow> nat \<Rightarrow> tool_error + string" where
  "handle_disasm_by_name idb name count =
     with_db idb (\<lambda>db.
       case find (\<lambda>f. case fv_name f of Some n \<Rightarrow> n = name \<or> str_contains name n | None \<Rightarrow> False) (db_functions db) of
         Some f \<Rightarrow> handle_disasm idb (fv_start f) count
       | None \<Rightarrow> Inl (FunctionNameNotFound name))"

text \<open>
  The walk through a function adds the instruction length without a check; the release profile
  wraps. The number of lines bounds it all the same.
\<close>

function disasm_function_loop :: "idb \<Rightarrow> u64 \<Rightarrow> nat \<Rightarrow> u64 \<Rightarrow> string list \<Rightarrow> string list" where
  "disasm_function_loop db end_addr count current lines =
     (if current < end_addr \<and> length lines < count
      then (case db_disasm_line db current of
              None \<Rightarrow> lines
            | Some line \<Rightarrow>
                (let lines' = lines @ [rendered_line current line]
                 in case db_insn_at db current of
                      Some insn \<Rightarrow> disasm_function_loop db end_addr count (current + of_nat (iv_len insn)) lines'
                    | None \<Rightarrow>
                        (case db_next_head db current of
                           Some n \<Rightarrow> if n \<le> current then lines' else disasm_function_loop db end_addr count n lines'
                         | None \<Rightarrow> lines')))
      else lines)"
  by pat_completeness auto
termination
  by (relation "measure (\<lambda>(_, _, count, _, lines). count - length lines)") auto

declare disasm_function_loop.simps [simp del]

definition handle_disasm_function_at :: "idb option \<Rightarrow> u64 \<Rightarrow> nat \<Rightarrow> tool_error + string" where
  "handle_disasm_function_at idb addr count =
     with_db idb (\<lambda>db.
       case db_function_at db addr of
         None \<Rightarrow> Inl (FunctionNotFound addr)
       | Some f \<Rightarrow> joined_or_out_of_range addr (disasm_function_loop db (fv_end f) count (fv_start f) []))"

section \<open>A page of a range\<close>

text \<open>The lines so far, where the walk stands, and the address the next page starts at.\<close>

function render_loop :: "idb \<Rightarrow> u64 \<Rightarrow> nat \<Rightarrow> u64 \<Rightarrow> string list \<Rightarrow> string list \<times> u64 \<times> u64 option" where
  "render_loop db end_addr max_lines current lines =
     (if \<not> current < end_addr then (lines, current, None)
      else
        (let n = next_disasm_address db current (Some end_addr);
             lines' = (case db_disasm_line db current of
               Some line \<Rightarrow> lines @ [rendered_line current line] | None \<Rightarrow> lines)
         in if db_disasm_line db current \<noteq> None \<and> max_lines \<le> length lines'
            then (case n of
                    Some a \<Rightarrow> if a < end_addr \<and> current < a then (lines', current, Some a) else (lines', end_addr, None)
                  | None \<Rightarrow> (lines', end_addr, None))
            else (case n of
                    Some a \<Rightarrow> if current < a \<and> a < end_addr then render_loop db end_addr max_lines a lines'
                       else (lines', end_addr, None)
                  | None \<Rightarrow> (lines', end_addr, None))))"
  by pat_completeness auto
termination
  by (relation "measure (\<lambda>(_, end_addr, _, current, _). unat end_addr - unat current)") (auto simp: word_less_nat_alt)

declare render_loop.simps [simp del]

record rendered_range =
  rr_start :: string
  rr_end :: string
  rr_rendered_until :: string
  rr_truncated :: bool
  rr_next_address :: "string option"
  rr_line_count :: nat
  rr_lines :: "string list"
  rr_text :: string

definition handle_render_range :: "idb option \<Rightarrow> u64 \<Rightarrow> u64 \<Rightarrow> nat \<Rightarrow> tool_error + rendered_range" where
  "handle_render_range idb start end_addr max_lines =
     with_db idb (\<lambda>db.
       if end_addr \<le> start then Inl (InvalidParams ''end must be greater than start'')
       else if 0x10000 < end_addr - start
         then Inl (InvalidParams ''render_range is limited to 65536 bytes per call'')
       else (case render_loop db end_addr (max 1 (min max_lines 4096)) start [] of
           (lines, current, next_address) \<Rightarrow>
             if lines = [] then Inl (AddressOutOfRange start)
             else Inr \<lparr>rr_start = show_addr start, rr_end = show_addr end_addr,
                 rr_rendered_until = show_addr (case next_address of Some a \<Rightarrow> a | None \<Rightarrow> min current end_addr),
                 rr_truncated = (next_address \<noteq> None), rr_next_address = map_option show_addr next_address,
                 rr_line_count = length lines, rr_lines = lines, rr_text = joined_lines lines\<rparr>))"

text \<open>The reference: every line of the range, without pages.\<close>

function range_listing :: "idb \<Rightarrow> u64 \<Rightarrow> u64 \<Rightarrow> string list" where
  "range_listing db end_addr current =
     (if current < end_addr
      then (case db_disasm_line db current of Some line \<Rightarrow> [rendered_line current line] | None \<Rightarrow> [])
        @ (case next_disasm_address db current (Some end_addr) of
             Some n \<Rightarrow> if current < n then range_listing db end_addr n else []
           | None \<Rightarrow> [])
      else [])"
  by pat_completeness auto
termination
  by (relation "measure (\<lambda>(_, end_addr, current). unat end_addr - unat current)") (auto simp: word_less_nat_alt)

declare range_listing.simps [simp del]

definition continued :: "idb \<Rightarrow> u64 \<Rightarrow> u64 option \<Rightarrow> string list" where
  "continued db end_addr n = (case n of Some a \<Rightarrow> range_listing db end_addr a | None \<Rightarrow> [])"

lemma range_listing_beyond: "\<not> a < end_addr \<Longrightarrow> range_listing db end_addr a = []"
  by (simp add: range_listing.simps)

lemma render_loop_lines:
  "render_loop db end_addr max_lines current lines = (out, stopped, n) \<Longrightarrow>
     out @ continued db end_addr n = lines @ range_listing db end_addr current"
proof (induction db end_addr max_lines current lines arbitrary: out stopped n rule: render_loop.induct)
  case (1 db end_addr max_lines current lines)
  show ?case
  proof (cases "current < end_addr")
    case False
    with "1.prems" show ?thesis by (simp add: render_loop.simps [of _ _ _ current] continued_def range_listing_beyond)
  next
    case True
    let ?n = "next_disasm_address db current (Some end_addr)"
    let ?line = "db_disasm_line db current"
    define lines' where
      "lines' = (case ?line of Some line \<Rightarrow> lines @ [rendered_line current line] | None \<Rightarrow> lines)"
    have step: "render_loop db end_addr max_lines current lines =
      (case ?n of
         Some a \<Rightarrow> if a < end_addr
           then (if ?line \<noteq> None \<and> max_lines \<le> length lines' then (lines', current, Some a)
                 else render_loop db end_addr max_lines a lines')
           else (lines', end_addr, None)
       | None \<Rightarrow> (lines', end_addr, None))"
      using True next_disasm_advances [of db current "Some end_addr"]
      by (subst render_loop.simps) (auto simp: Let_def lines'_def split: option.split)
    have listing: "lines @ range_listing db end_addr current = lines' @ continued db end_addr ?n"
      using True next_disasm_advances [of db current "Some end_addr"]
      by (auto simp: range_listing.simps [of _ _ current] lines'_def continued_def split: option.splits)
    show ?thesis
    proof (cases "\<exists>a. ?n = Some a \<and> a < end_addr \<and> \<not> (?line \<noteq> None \<and> max_lines \<le> length lines')")
      case False
      then have "out = lines' \<and> continued db end_addr n = continued db end_addr ?n"
        using "1.prems" range_listing_beyond [of _ end_addr db]
        by (auto simp: step continued_def split: option.splits if_splits)
      with listing show ?thesis by simp
    next
      case a: True
      then obtain a where a: "?n = Some a" "a < end_addr" "\<not> (?line \<noteq> None \<and> max_lines \<le> length lines')" by blast
      with "1.prems" have "render_loop db end_addr max_lines a lines' = (out, stopped, n)"
        by (auto simp: step split: if_splits)
      with "1.IH" [OF _ refl lines'_def] True a next_disasm_advances [OF a(1)] listing show ?thesis
        by (simp add: continued_def)
    qed
  qed
qed

text \<open>A page holds at most \<open>max_lines\<close> lines, and the next address lies inside the rest of the range.\<close>

lemma render_loop_bounds:
  "render_loop db end_addr max_lines current lines = (out, stopped, n) \<Longrightarrow> length lines < max_lines \<Longrightarrow>
     length out \<le> max_lines \<and> (case n of Some a \<Rightarrow> current < a \<and> a < end_addr \<and> out \<noteq> [] | None \<Rightarrow> True)"
proof (induction db end_addr max_lines current lines arbitrary: out stopped n rule: render_loop.induct)
  case (1 db end_addr max_lines current lines)
  let ?n = "next_disasm_address db current (Some end_addr)"
  let ?line = "db_disasm_line db current"
  define lines' where
    "lines' = (case ?line of Some line \<Rightarrow> lines @ [rendered_line current line] | None \<Rightarrow> lines)"
  have len: "length lines' \<le> max_lines" "?line \<noteq> None \<Longrightarrow> lines' \<noteq> []"
    using "1.prems"(2) by (auto simp: lines'_def split: option.split)
  have step: "render_loop db end_addr max_lines current lines =
    (if current < end_addr
     then (case ?n of
         Some a \<Rightarrow> if a < end_addr
           then (if ?line \<noteq> None \<and> max_lines \<le> length lines' then (lines', current, Some a)
                 else render_loop db end_addr max_lines a lines')
           else (lines', end_addr, None)
       | None \<Rightarrow> (lines', end_addr, None))
     else (lines, current, None))"
    using next_disasm_advances [of db current "Some end_addr"]
    by (subst render_loop.simps) (auto simp: Let_def lines'_def split: option.split)
  show ?case
  proof (cases "\<exists>a. current < end_addr \<and> ?n = Some a \<and> a < end_addr \<and> \<not> (?line \<noteq> None \<and> max_lines \<le> length lines')")
    case False
    with "1.prems" len next_disasm_advances [of db current "Some end_addr"] show ?thesis
      by (auto simp: step split: option.splits if_splits)
  next
    case True
    then obtain a where a: "current < end_addr" "?n = Some a" "a < end_addr"
      "\<not> (?line \<noteq> None \<and> max_lines \<le> length lines')" by blast
    have short: "length lines' < max_lines"
      using a(4) "1.prems"(2) by (auto simp: lines'_def split: option.splits)
    from a "1.prems"(1) have "render_loop db end_addr max_lines a lines' = (out, stopped, n)"
      by (auto simp: step split: if_splits)
    with "1.IH" [OF _ refl lines'_def] a short next_disasm_advances [OF a(2)]
    have "length out \<le> max_lines \<and> (case n of Some b \<Rightarrow> a < b \<and> b < end_addr \<and> out \<noteq> [] | None \<Rightarrow> True)"
      by simp
    with next_disasm_advances [OF a(2)] show ?thesis by (auto split: option.splits)
  qed
qed

text \<open>A client that follows the next address of each page until there is none.\<close>

function collect_pages :: "idb \<Rightarrow> u64 \<Rightarrow> nat \<Rightarrow> u64 \<Rightarrow> string list" where
  "collect_pages db end_addr max_lines a =
     (case handle_render_range (Some db) a end_addr max_lines of
        Inl _ \<Rightarrow> []
      | Inr r \<Rightarrow> rr_lines r @ (case rr_next_address r of
            None \<Rightarrow> []
          | Some s \<Rightarrow> (case parse_address_str s of
              Inr b \<Rightarrow> if a < b \<and> b < end_addr then collect_pages db end_addr max_lines b else []
            | Inl _ \<Rightarrow> [])))"
  by pat_completeness auto
termination
  by (relation "measure (\<lambda>(_, end_addr, _, a). unat end_addr - unat a)") (auto simp: word_less_nat_alt)

declare collect_pages.simps [simp del]

lemma handle_render_range_page:
  assumes "a < end_addr" "end_addr - a \<le> 0x10000"
    and "render_loop db end_addr (max 1 (min max_lines 4096)) a [] = (lines, current, n)"
  shows "handle_render_range (Some db) a end_addr max_lines =
    (if lines = [] then Inl (AddressOutOfRange a)
     else Inr \<lparr>rr_start = show_addr a, rr_end = show_addr end_addr,
       rr_rendered_until = show_addr (case n of Some b \<Rightarrow> b | None \<Rightarrow> min current end_addr),
       rr_truncated = (n \<noteq> None), rr_next_address = map_option show_addr n,
       rr_line_count = length lines, rr_lines = lines, rr_text = joined_lines lines\<rparr>)"
  using assms by (simp add: handle_render_range_def with_db_def not_le not_less)

lemma unat_succ_less: "a < b \<Longrightarrow> unat (a + 1) = Suc (unat (a :: u64))"
  using unsigned_less [of b, where 'a = nat] by (simp add: word_less_nat_alt unat_word_ariths)

lemma range_shrinks: "a \<le> b \<Longrightarrow> b < e \<Longrightarrow> e - b \<le> e - (a :: u64)"
  by (simp add: word_le_nat_alt word_less_nat_alt unat_sub_if')

text \<open>C39: Whatever the page size, a client of render_range that follows the next address of every page
  reads exactly the listing of the range, every line once and in order.\<close>

theorem render_pages_complete:
  assumes "start < end_addr" and "end_addr - start \<le> 0x10000"
  shows "collect_pages db end_addr max_lines start = range_listing db end_addr start"
  using assms
proof (induction db end_addr max_lines start rule: collect_pages.induct)
  case (1 db end_addr max_lines start)
  obtain lines current n where loop: "render_loop db end_addr (max 1 (min max_lines 4096)) start [] = (lines, current, n)"
    by (rule prod_cases3)
  note page = handle_render_range_page [OF "1.prems" loop]
  have whole: "lines @ continued db end_addr n = range_listing db end_addr start"
    using render_loop_lines [OF loop] by simp
  have bounds: "case n of Some a \<Rightarrow> start < a \<and> a < end_addr \<and> lines \<noteq> [] | None \<Rightarrow> True"
    using render_loop_bounds [OF loop] by simp
  show ?case
  proof (cases n)
    case None
    with whole show ?thesis by (subst collect_pages.simps) (simp add: page continued_def)
  next
    case (Some a)
    with bounds have a: "start < a" "a < end_addr" "lines \<noteq> []" by auto
    have "end_addr - a \<le> 0x10000"
      using a "1.prems"(2) by (intro order_trans [OF range_shrinks [of start a end_addr]]) simp_all
    then have "collect_pages db end_addr max_lines a = range_listing db end_addr a"
      using "1.IH" [OF page [unfolded if_not_P [OF a(3)]]] a Some by simp
    with whole a Some show ?thesis by (subst collect_pages.simps) (simp add: page continued_def)
  qed
qed

section \<open>Patched bytes\<close>

record patched_byte =
  pb_address :: u64
  pb_file_offset :: int
  pb_original_value :: u64
  pb_patched_value :: u64

record patch_range =
  pr_start :: string
  pr_end :: string
  pr_length :: nat
  pr_file_offset :: "int option"
  pr_original_values :: "u64 list"
  pr_patched_values :: "u64 list"
  pr_original_hex :: string
  pr_patched_hex :: string

definition format_patch_values :: "u64 list \<Rightarrow> string" where
  "format_patch_values vs = str_join '' '' (map (\<lambda>v. zero_pad 2 (show_base 16 (unat v))) vs)"

text \<open>\<open>u64::saturating_add(1)\<close> and \<open>i64::saturating_add(1)\<close>\<close>

definition sat_succ :: "u64 \<Rightarrow> u64" where
  "sat_succ a = (case checked_add a 1 of Some b \<Rightarrow> b | None \<Rightarrow> a)"

definition i64_sat_succ :: "int \<Rightarrow> int" where
  "i64_sat_succ n = min (n + 1) (2 ^ 63 - 1)"

text \<open>Whether a patched byte extends the range that ends with the one before it.\<close>

definition patches_touch :: "patched_byte \<Rightarrow> patched_byte \<Rightarrow> bool" where
  "patches_touch previous current \<longleftrightarrow>
     pb_address current = sat_succ (pb_address previous)
     \<and> (if pb_file_offset previous < 0 \<or> pb_file_offset current < 0
        then pb_file_offset previous < 0 \<and> pb_file_offset current < 0
        else pb_file_offset current = i64_sat_succ (pb_file_offset previous))"

text \<open>How many of the bytes after \<open>previous\<close> the range takes: the inner loop.\<close>

fun run_length :: "patched_byte \<Rightarrow> patched_byte list \<Rightarrow> nat" where
  "run_length previous [] = 0"
| "run_length previous (current # bytes) =
     (if patches_touch previous current then Suc (run_length current bytes) else 0)"

definition patch_range_of :: "patched_byte list \<Rightarrow> patch_range" where
  "patch_range_of bytes =
     (let original = map pb_original_value bytes; patched = map pb_patched_value bytes
      in \<lparr>pr_start = show_addr (pb_address (hd bytes)), pr_end = show_addr (sat_succ (pb_address (last bytes))),
          pr_length = length bytes,
          pr_file_offset = (if 0 \<le> pb_file_offset (hd bytes) then Some (pb_file_offset (hd bytes)) else None),
          pr_original_values = original, pr_patched_values = patched,
          pr_original_hex = format_patch_values original, pr_patched_hex = format_patch_values patched\<rparr>)"

function coalesce_patched_bytes :: "patched_byte list \<Rightarrow> patch_range list" where
  "coalesce_patched_bytes [] = []"
| "coalesce_patched_bytes (first # bytes) =
     (let n = run_length first bytes
      in patch_range_of (first # take n bytes) # coalesce_patched_bytes (drop n bytes))"
  by pat_completeness auto
termination
  by (relation "measure length") auto

record patch_page =
  pp_start :: string
  pp_end :: string
  pp_ranges :: "patch_range list"
  pp_total :: nat
  pp_next_offset :: "nat option"

text \<open>The database answers the addresses its segments span and the bytes patched in a range.\<close>

definition handle_list_patches ::
  "(idb \<Rightarrow> u64 \<times> u64) \<Rightarrow> (idb \<Rightarrow> u64 \<Rightarrow> u64 \<Rightarrow> string + patched_byte list)
     \<Rightarrow> idb option \<Rightarrow> u64 option \<Rightarrow> u64 option \<Rightarrow> nat \<Rightarrow> nat \<Rightarrow> tool_error + patch_page" where
  "handle_list_patches extent patched_bytes idb start end_addr offset limit =
     with_db idb (\<lambda>db.
       let s = (case start of Some a \<Rightarrow> a | None \<Rightarrow> fst (extent db));
           e = (case end_addr of Some a \<Rightarrow> a | None \<Rightarrow> snd (extent db))
       in if e \<le> s then Inl (InvalidParams ''end must be greater than start'')
          else (case patched_bytes db s e of
              Inl err \<Rightarrow> Inl (IdaError err)
            | Inr patches \<Rightarrow>
                (let ranges = coalesce_patched_bytes patches;
                     selected = take (max limit 1) (drop offset ranges)
                 in Inr \<lparr>pp_start = show_addr s, pp_end = show_addr e, pp_ranges = selected,
                     pp_total = length ranges,
                     pp_next_offset = next_offset offset (length selected) (length ranges)\<rparr>)))"

text \<open>The bytes a range stands for.\<close>

definition range_bytes :: "patch_range \<Rightarrow> patched_byte list" where
  "range_bytes r =
     map (\<lambda>i. \<lparr>pb_address = (case parse_address_str (pr_start r) of Inr a \<Rightarrow> a + of_nat i | Inl _ \<Rightarrow> 0),
             pb_file_offset = (case pr_file_offset r of Some f \<Rightarrow> f + int i | None \<Rightarrow> - 1),
             pb_original_value = pr_original_values r ! i, pb_patched_value = pr_patched_values r ! i\<rparr>)
       [0..<pr_length r]"

definition offset_ok :: "patched_byte \<Rightarrow> bool" where
  "offset_ok b \<longleftrightarrow> pb_file_offset b = - 1 \<or> 0 \<le> pb_file_offset b \<and> pb_file_offset b < 2 ^ 63 - 1"

lemma run_length_le: "run_length b bs \<le> length bs"
  by (induction b bs rule: run_length.induct) auto

lemma sat_succ_less: "a < b \<Longrightarrow> sat_succ a = a + 1"
  using unsigned_less [of b, where 'a = nat] by (auto simp: sat_succ_def checked_add_def word_less_nat_alt)

lemma touch_next:
  assumes "patches_touch b c" "pb_address b < pb_address c" "offset_ok b" "offset_ok c"
  shows "pb_address c = pb_address b + 1
     \<and> pb_file_offset c = (if pb_file_offset b < 0 then - 1 else pb_file_offset b + 1)"
  using assms sat_succ_less [OF assms(2)]
  by (auto simp: patches_touch_def offset_ok_def i64_sat_succ_def split: if_splits)

lemma run_nth:
  "sorted_wrt (<) (map pb_address (b # bs)) \<Longrightarrow> \<forall>x \<in> set (b # bs). offset_ok x \<Longrightarrow> i \<le> run_length b bs \<Longrightarrow>
     pb_address ((b # bs) ! i) = pb_address b + of_nat i
     \<and> pb_file_offset ((b # bs) ! i) = (if pb_file_offset b < 0 then - 1 else pb_file_offset b + int i)"
proof (induction b bs arbitrary: i rule: run_length.induct)
  case (1 b)
  then show ?case by (auto simp: offset_ok_def)
next
  case (2 b c bs)
  show ?case
  proof (cases i)
    case 0
    with "2.prems"(2) show ?thesis by (auto simp: offset_ok_def)
  next
    case (Suc j)
    with "2.prems"(3) have touch: "patches_touch b c" and j: "j \<le> run_length c bs" by (auto split: if_splits)
    have "pb_address b < pb_address c" "offset_ok b" "offset_ok c" using "2.prems" by auto
    note at = touch_next [OF touch this]
    have "pb_address ((c # bs) ! j) = pb_address c + of_nat j
      \<and> pb_file_offset ((c # bs) ! j) = (if pb_file_offset c < 0 then - 1 else pb_file_offset c + int j)"
      using "2.IH" [OF touch] "2.prems" j by simp
    with at Suc show ?thesis by (auto simp: algebra_simps)
  qed
qed

lemma range_bytes_nth:
  "i < length bs \<Longrightarrow> range_bytes (patch_range_of bs) ! i = (bs ! i)
     \<lparr>pb_address := pb_address (hd bs) + of_nat i,
      pb_file_offset := (if pb_file_offset (hd bs) < 0 then - 1 else pb_file_offset (hd bs) + int i)\<rparr>"
  by (cases "bs ! i") (simp add: range_bytes_def patch_range_of_def Let_def)

text \<open>C40: Coalescing the patched bytes of a database into ranges loses none of them: reading the ranges back byte
  by byte gives the list of patches, with their addresses, file offsets and both values.\<close>

theorem patch_ranges_roundtrip:
  assumes "sorted_wrt (<) (map pb_address bytes)" and "\<forall>b \<in> set bytes. offset_ok b"
  shows "concat (map range_bytes (coalesce_patched_bytes bytes)) = bytes"
  using assms
proof (induction bytes rule: coalesce_patched_bytes.induct)
  case (2 first bytes)
  let ?n = "run_length first bytes"
  let ?run = "first # take ?n bytes"
  have n: "length (take ?n bytes) = ?n" using run_length_le by simp
  have "range_bytes (patch_range_of ?run) = ?run"
  proof (rule nth_equalityI)
    fix i assume "i < length (range_bytes (patch_range_of ?run))"
    with n have i: "i \<le> ?n" by (simp add: range_bytes_def patch_range_of_def Let_def)
    then have same: "?run ! i = (first # bytes) ! i" by (cases i) auto
    have "pb_address (?run ! i) = pb_address first + of_nat i
      \<and> pb_file_offset (?run ! i) = (if pb_file_offset first < 0 then - 1 else pb_file_offset first + int i)"
      using run_nth [OF "2.prems" i] same by simp
    with i n show "range_bytes (patch_range_of ?run) ! i = ?run ! i"
      by (cases "?run ! i") (simp add: range_bytes_nth)
  qed (use n in \<open>simp add: range_bytes_def patch_range_of_def Let_def\<close>)
  moreover have "sorted_wrt (<) (map pb_address (drop ?n bytes))"
    using "2.prems"(1) by (simp add: drop_map [symmetric] sorted_wrt_drop)
  moreover have "\<forall>b \<in> set (drop ?n bytes). offset_ok b" using "2.prems"(2) by (auto dest: in_set_dropD)
  ultimately show ?case using "2.IH" [OF refl] by (simp add: Let_def)
qed simp

text \<open>A range is as long as it can be: the byte after it does not touch its last byte.\<close>

lemma runs_are_maximal:
  "run_length b bs < length bs \<Longrightarrow> \<not> patches_touch ((b # bs) ! run_length b bs) (bs ! run_length b bs)"
  by (induction b bs rule: run_length.induct) auto

section \<open>Pseudocode by address\<close>

record stmt_view =
  st_address :: u64
  st_text :: string
  st_opcode :: int
  st_bounds :: "(u64 \<times> u64) option"

record cfunc_view =
  cf_pseudocode :: string
  cf_has_eamap :: bool
  cf_statements_at :: "u64 \<Rightarrow> stmt_view list option"

definition handle_decompile ::
  "bool \<Rightarrow> (func_view \<Rightarrow> string + cfunc_view) \<Rightarrow> idb option \<Rightarrow> u64 \<Rightarrow> tool_error + string" where
  "handle_decompile available decompile idb addr =
     with_db idb (\<lambda>db.
       if \<not> available then Inl DecompilerUnavailable
       else case db_function_at db addr of
         None \<Rightarrow> Inl (FunctionNotFound addr)
       | Some f \<Rightarrow> (case decompile f of Inl e \<Rightarrow> Inl (IdaError e) | Inr c \<Rightarrow> Inr (cf_pseudocode c)))"

record statement_info =
  sn_address :: string
  sn_text :: string
  sn_opcode :: int
  sn_bounds :: "(string \<times> string) option"

definition statement_info_of :: "stmt_view \<Rightarrow> statement_info" where
  "statement_info_of s =
     \<lparr>sn_address = show_addr (st_address s), sn_text = trim (st_text s), sn_opcode = st_opcode s,
      sn_bounds = map_option (\<lambda>(a, b). (show_addr a, show_addr b)) (st_bounds s)\<rparr>"

text \<open>The statements collected so far and the addresses already seen.\<close>

type_synonym statement_state = "stmt_view list \<times> u64 list"

definition add_statement :: "stmt_view \<Rightarrow> statement_state \<Rightarrow> statement_state" where
  "add_statement s st =
     (case st of (statements, seen) \<Rightarrow>
        if st_address s \<in> set seen then (statements, seen) else (statements @ [s], st_address s # seen))"

definition statements_of :: "cfunc_view \<Rightarrow> u64 \<Rightarrow> statement_state \<Rightarrow> statement_state" where
  "statements_of c a st = (case cf_statements_at c a of Some stmts \<Rightarrow> fold add_statement stmts st | None \<Rightarrow> st)"

function statements_walk :: "cfunc_view \<Rightarrow> u64 \<Rightarrow> u64 \<Rightarrow> statement_state \<Rightarrow> statement_state" where
  "statements_walk c end_addr cur st =
     (if cur < end_addr then statements_walk c end_addr (cur + 1) (statements_of c cur st) else st)"
  by pat_completeness auto
termination
proof (relation "measure (\<lambda>(_, end_addr, cur, _). unat end_addr - unat cur)", simp, goal_cases)
  case (1 c end_addr cur st)
  then show ?case using unat_succ_less [of cur end_addr] by (simp add: word_less_nat_alt)
qed

declare statements_walk.simps [simp del]

record pseudocode_function =
  pf_address :: string
  pf_name :: string
  pf_start :: string
  pf_end :: string

record pseudocode_result =
  ps_function :: pseudocode_function
  ps_query_address :: string
  ps_query_end_address :: "string option"
  ps_eamap_ready :: bool
  ps_statements :: "statement_info list"
  ps_count :: nat

definition handle_pseudocode_at ::
  "bool \<Rightarrow> (func_view \<Rightarrow> string + cfunc_view) \<Rightarrow> idb option \<Rightarrow> u64 \<Rightarrow> u64 option \<Rightarrow> tool_error + pseudocode_result" where
  "handle_pseudocode_at available decompile idb addr end_addr =
     with_db idb (\<lambda>db.
       if \<not> available then Inl DecompilerUnavailable
       else case db_function_at db addr of
         None \<Rightarrow> Inl (FunctionNotFound addr)
       | Some f \<Rightarrow>
           (case decompile f of
              Inl e \<Rightarrow> Inl (IdaError e)
            | Inr c \<Rightarrow>
                (let statements = fst (case end_addr of
                       Some e \<Rightarrow> statements_walk c e addr ([], [])
                     | None \<Rightarrow> statements_of c addr ([], []))
                 in Inr \<lparr>ps_function = \<lparr>pf_address = show_addr (fv_start f), pf_name = func_name f,
                       pf_start = show_addr (fv_start f), pf_end = show_addr (fv_end f)\<rparr>,
                     ps_query_address = show_addr addr, ps_query_end_address = map_option show_addr end_addr,
                     ps_eamap_ready = cf_has_eamap c, ps_statements = map statement_info_of statements,
                     ps_count = length statements\<rparr>)))"

text \<open>The addresses of the statements that cover an address of a set.\<close>

definition covering :: "cfunc_view \<Rightarrow> u64 set \<Rightarrow> u64 set" where
  "covering c A = {st_address s | s a stmts. a \<in> A \<and> cf_statements_at c a = Some stmts \<and> s \<in> set stmts}"

definition statements_inv :: "u64 set \<Rightarrow> statement_state \<Rightarrow> bool" where
  "statements_inv A st \<longleftrightarrow> set (snd st) = A \<and> distinct (map st_address (fst st)) \<and> st_address ` set (fst st) = A"

lemma add_statement_inv: "statements_inv A st \<Longrightarrow> statements_inv (insert (st_address s) A) (add_statement s st)"
  by (cases st) (auto simp: statements_inv_def add_statement_def)

lemma fold_statements_inv:
  "statements_inv A st \<Longrightarrow> statements_inv (A \<union> st_address ` set stmts) (fold add_statement stmts st)"
proof (induction stmts arbitrary: A st)
  case (Cons s stmts)
  from Cons.IH [OF add_statement_inv [OF Cons.prems]] show ?case by simp
qed simp

lemma statements_of_inv: "statements_inv A st \<Longrightarrow> statements_inv (A \<union> covering c {a}) (statements_of c a st)"
proof -
  assume st: "statements_inv A st"
  have "covering c {a} = (case cf_statements_at c a of Some stmts \<Rightarrow> st_address ` set stmts | None \<Rightarrow> {})"
    by (auto simp: covering_def split: option.split)
  with fold_statements_inv [OF st] st show ?thesis by (auto simp: statements_of_def split: option.split)
qed

lemma covering_union: "covering c (A \<union> B) = covering c A \<union> covering c B"
  by (auto simp: covering_def)

lemma range_step: "cur < e \<Longrightarrow> {cur..<e} = {cur} \<union> {cur + 1..<(e :: u64)}"
  using unat_succ_less [of cur e]
  by (auto simp: word_less_nat_alt word_le_nat_alt word_unat_eq_iff)

lemma statements_walk_inv:
  "statements_inv A st \<Longrightarrow> statements_inv (A \<union> covering c {cur..<e}) (statements_walk c e cur st)"
proof (induction c e cur st arbitrary: A rule: statements_walk.induct)
  case (1 c e cur st)
  show ?case
  proof (cases "cur < e")
    case True
    from "1.IH" [OF True statements_of_inv [OF "1.prems"]] show ?thesis
      unfolding range_step [OF True] covering_union by (subst statements_walk.simps) (simp add: True Un_assoc)
  next
    case False
    then have "{cur..<e} = {}" by auto
    with False "1.prems" show ?thesis by (subst statements_walk.simps) (simp add: covering_def)
  qed
qed

text \<open>
  A range query lists each statement that covers an address of the range exactly once.
\<close>

lemma pseudocode_range_exact:
  assumes "handle_pseudocode_at True decompile (Some db) addr (Some e) = Inr r"
    and "db_function_at db addr = Some f" and "decompile f = Inr c"
  shows "\<exists>as. map sn_address (ps_statements r) = map show_addr as \<and> distinct as \<and> set as = covering c {addr..<e}"
proof -
  let ?st = "statements_walk c e addr ([], [])"
  have "statements_inv {} ([], [])" by (simp add: statements_inv_def)
  from statements_walk_inv [OF this, of c addr e]
  have "distinct (map st_address (fst ?st))" "set (map st_address (fst ?st)) = covering c {addr..<e}"
    by (simp_all add: statements_inv_def)
  moreover have "map sn_address (ps_statements r) = map show_addr (map st_address (fst ?st))"
    using assms by (auto simp: handle_pseudocode_at_def with_db_def statement_info_of_def Let_def)
  ultimately show ?thesis by blast
qed

section \<open>Memory\<close>

record bytes_result =
  br_address :: string
  br_bytes :: string
  br_length :: nat

definition handle_get_bytes :: "idb option \<Rightarrow> u64 option \<Rightarrow> string option \<Rightarrow> int \<Rightarrow> nat \<Rightarrow> tool_error + bytes_result" where
  "handle_get_bytes idb addr name offset width =
     with_db idb (\<lambda>db.
       case resolve_address idb addr name offset of
         Inl e \<Rightarrow> Inl e
       | Inr a \<Rightarrow>
           (let bytes = db_get_bytes db a (min width 0x10000)
            in Inr \<lparr>br_address = show_addr a, br_bytes = hex_encode bytes, br_length = length bytes\<rparr>))"

text \<open>The reads of the binding at the four widths.\<close>

record int_reader =
  ir_byte :: "u64 \<Rightarrow> u8"
  ir_word :: "u64 \<Rightarrow> u16"
  ir_dword :: "u64 \<Rightarrow> u32"
  ir_qword :: "u64 \<Rightarrow> u64"

record int_result =
  in_address :: string
  in_size :: nat
  in_value :: u64
  in_hex :: string

definition read_int_value :: "int_reader \<Rightarrow> u64 \<Rightarrow> nat \<Rightarrow> tool_error + u64" where
  "read_int_value rd addr width =
     (if width = 1 then Inr (ucast (ir_byte rd addr))
      else if width = 2 then Inr (ucast (ir_word rd addr))
      else if width = 4 then Inr (ucast (ir_dword rd addr))
      else if width = 8 then Inr (ir_qword rd addr)
      else Inl (IdaError (''unsupported integer size: '' @ show_nat width)))"

definition handle_read_int :: "(idb \<Rightarrow> int_reader) \<Rightarrow> idb option \<Rightarrow> u64 \<Rightarrow> nat \<Rightarrow> tool_error + int_result" where
  "handle_read_int reader idb addr width =
     with_db idb (\<lambda>db. map_sum id
       (\<lambda>v. \<lparr>in_address = show_addr addr, in_size = width, in_value = v, in_hex = ''0x'' @ show_base 16 (unat v)\<rparr>)
       (read_int_value (reader db) addr width))"

lemma unat_ucast_small: "unat (ucast (x :: 'a::len word) :: 'b::len word) < 2 ^ LENGTH('a)"
proof -
  have "unat (ucast x :: 'b word) \<le> unat x" by (simp add: unsigned_ucast_eq take_bit_nat_less_eq_self)
  also have "\<dots> < 2 ^ LENGTH('a)" by (rule unsigned_less)
  finally show ?thesis .
qed

text \<open>A value read with \<open>width\<close> bytes fits into them.\<close>

lemma read_int_bounds:
  assumes "read_int_value rd addr width = Inr v"
  shows "unat v < 2 ^ (8 * width)"
proof -
  from assms consider "width = 1" "v = ucast (ir_byte rd addr)" | "width = 2" "v = ucast (ir_word rd addr)"
    | "width = 4" "v = ucast (ir_dword rd addr)" | "width = 8"
    by (auto simp: read_int_value_def split: if_splits)
  then show ?thesis
  proof cases
    case 1
    with unat_ucast_small [of "ir_byte rd addr", where 'b = 64] show ?thesis by simp
  next
    case 2
    with unat_ucast_small [of "ir_word rd addr", where 'b = 64] show ?thesis by simp
  next
    case 3
    with unat_ucast_small [of "ir_dword rd addr", where 'b = 64] show ?thesis by simp
  next
    case 4
    with unsigned_less [of v, where 'a = nat] show ?thesis by simp
  qed
qed

section \<open>Segments and the context of an address\<close>

text \<open>What else the binding knows of a segment.\<close>

record seg_detail =
  sd_name :: "string option"
  sd_readable :: bool
  sd_writable :: bool
  sd_executable :: bool
  sd_type :: string
  sd_bitness :: nat

record segment_info =
  sg_name :: string
  sg_start :: string
  sg_end :: string
  sg_size :: nat
  sg_permissions :: string
  sg_type :: string
  sg_bitness :: nat

definition permissions_text :: "seg_detail \<Rightarrow> string" where
  "permissions_text d =
     (if sd_readable d then ''r'' else ''-'') @ (if sd_writable d then ''w'' else ''-'')
     @ (if sd_executable d then ''x'' else ''-'')"

definition segment_info_of :: "seg_view \<Rightarrow> seg_detail \<Rightarrow> segment_info" where
  "segment_info_of s d =
     \<lparr>sg_name = (case sd_name d of Some n \<Rightarrow> n | None \<Rightarrow> []), sg_start = show_addr (sv_start s),
      sg_end = show_addr (sv_end s), sg_size = sv_len s, sg_permissions = permissions_text d,
      sg_type = sd_type d, sg_bitness = sd_bitness d\<rparr>"

definition handle_segments :: "(seg_view \<Rightarrow> seg_detail) \<Rightarrow> idb option \<Rightarrow> tool_error + segment_info list" where
  "handle_segments detail idb =
     with_db idb (\<lambda>db. Inr (map (\<lambda>s. segment_info_of s (detail s)) (db_segments db)))"

record symbol_info =
  sy_name :: string
  sy_address :: string
  sy_delta :: int
  sy_exact :: bool
  sy_is_public :: bool
  sy_is_weak :: bool

definition symbol_delta :: "u64 \<Rightarrow> u64 \<Rightarrow> int" where
  "symbol_delta addr at =
     (let raw = (if at \<le> addr then int (unat (addr - at)) else - int (unat (at - addr)))
      in max (- (2 ^ 63)) (min raw (2 ^ 63 - 1)))"

definition symbol_info_of :: "u64 \<Rightarrow> name_view \<Rightarrow> symbol_info" where
  "symbol_info_of addr n =
     (let delta = symbol_delta addr (nv_address n)
      in \<lparr>sy_name = nv_name n, sy_address = show_addr (nv_address n), sy_delta = delta, sy_exact = (delta = 0),
          sy_is_public = nv_is_public n, sy_is_weak = nv_is_weak n\<rparr>)"

record address_info =
  ai_address :: string
  ai_segment :: "segment_info option"
  ai_function :: "function_range_info option"
  ai_symbol :: "symbol_info option"

definition handle_addr_info :: "(seg_view \<Rightarrow> seg_detail) \<Rightarrow> idb option \<Rightarrow> u64 \<Rightarrow> tool_error + address_info" where
  "handle_addr_info detail idb addr =
     with_db idb (\<lambda>db. Inr
       \<lparr>ai_address = show_addr addr,
        ai_segment = map_option (\<lambda>s. segment_info_of s (detail s)) (db_segment_at db addr),
        ai_function = map_option (\<lambda>f. \<lparr>fr_address = show_addr (fv_start f), fr_name = func_name f,
            fr_start = show_addr (fv_start f), fr_end = show_addr (fv_end f), fr_size = fv_len f\<rparr>)
          (db_function_at db addr),
        ai_symbol = map_option (symbol_info_of addr) (db_closest_name db addr)\<rparr>)"

lemma symbol_delta_signed:
  "symbol_delta addr at = max (- (2 ^ 63)) (min (int (unat addr) - int (unat at)) (2 ^ 63 - 1))"
  by (cases "at \<le> addr") (simp_all add: symbol_delta_def Let_def word_le_nat_alt unat_sub_if' of_nat_diff)

text \<open>Only the address of the symbol itself is exact, although large distances are clamped.\<close>

lemma symbol_exact_iff: "sy_exact (symbol_info_of addr n) \<longleftrightarrow> nv_address n = addr"
  by (auto simp: symbol_info_of_def symbol_delta_signed Let_def max_def min_def word_uint_eq_iff split: if_splits)

section \<open>A small database\<close>

definition demo_code :: idb where
  "demo_code = demo_db\<lparr>db_insn_at := (\<lambda>_. Some \<lparr>iv_len = 1, iv_is_call = False, iv_branch_targets = []\<rparr>),
     db_disasm_line := (\<lambda>a. if a = 0x1001 then None else Some ''nop'')\<rparr>"

theorem render_pages_complete_witness:
  "collect_pages demo_code 0x1003 1 0x1000 = [rendered_line 0x1000 ''nop'', rendered_line 0x1002 ''nop'']"
proof -
  have "range_listing demo_code 0x1003 0x1000 = [rendered_line 0x1000 ''nop'', rendered_line 0x1002 ''nop'']"
    by (simp add: range_listing.simps demo_code_def demo_db_def next_disasm_address_def checked_add_def)
  then show ?thesis using render_pages_complete [of "0x1000" "0x1003" demo_code 1] by simp
qed

definition demo_patches :: "patched_byte list" where
  "demo_patches =
     [\<lparr>pb_address = 0x1000, pb_file_offset = 32, pb_original_value = 0xAA, pb_patched_value = 0x11\<rparr>,
      \<lparr>pb_address = 0x1001, pb_file_offset = 33, pb_original_value = 0xBB, pb_patched_value = 0x22\<rparr>,
      \<lparr>pb_address = 0x1003, pb_file_offset = - 1, pb_original_value = 0xCC, pb_patched_value = 0x33\<rparr>]"

theorem patch_ranges_roundtrip_witness:
  "concat (map range_bytes (coalesce_patched_bytes demo_patches)) = demo_patches"
  by (rule patch_ranges_roundtrip) (simp_all add: demo_patches_def offset_ok_def)

end
