(* ===== verification/Database_Edits.thy ===== *)
theory Database_Edits
  imports Mutation_Target Listing
begin

text \<open>
  The handlers that change a database: \<open>lvars.rs\<close>, \<open>annotations.rs\<close>, the patches of
  \<open>memory.rs\<close>, the type operations of \<open>types.rs\<close> and \<open>lumina.rs\<close> of
  \<open>src/src/ida/handlers\<close>. What idalib does is an argument: \<open>edit_api\<close> holds its answers. A handler
  returns its own answer with the list of the edits it has asked idalib for, in order.
\<close>

section \<open>Edits\<close>

datatype db_edit =
    EdPatch u64 "u8 list"
  | EdComment u64 string
  | EdCommentWith u64 string bool
  | EdName u64 string
  | EdNameFlags u64 string int
  | EdRenameLocal u64 nat string
  | EdLocalType u64 nat string
  | EdPseudocodeComment u64 string string
  | EdApplyDecl u64 string bool bool bool
  | EdApplyNamed u64 string
  | EdSetStackVar u64 "string option" int bool string bool bool
  | EdDefineStackVar u64 "string option" int string bool
  | EdDeleteStackVar u64 "string option" int bool
  | EdPull u64 bool bool

fun edit_address :: "db_edit \<Rightarrow> u64" where
  "edit_address (EdPatch a _) = a"
| "edit_address (EdComment a _) = a"
| "edit_address (EdCommentWith a _ _) = a"
| "edit_address (EdName a _) = a"
| "edit_address (EdNameFlags a _ _) = a"
| "edit_address (EdRenameLocal a _ _) = a"
| "edit_address (EdLocalType a _ _) = a"
| "edit_address (EdPseudocodeComment a _ _) = a"
| "edit_address (EdApplyDecl a _ _ _ _) = a"
| "edit_address (EdApplyNamed a _) = a"
| "edit_address (EdSetStackVar a _ _ _ _ _ _) = a"
| "edit_address (EdDefineStackVar a _ _ _ _) = a"
| "edit_address (EdDeleteStackVar a _ _ _) = a"
| "edit_address (EdPull a _ _) = a"

record local_variable =
  lv_name :: string
  lv_type_name :: string
  lv_location :: string
  lv_locator :: "string option"
  lv_definition_address :: "u64 option"
  lv_width :: int
  lv_is_argument :: bool
  lv_has_user_name :: bool
  lv_has_user_type :: bool

text \<open>A decompiled function of the binding.\<close>

record cfunction =
  cf_local_count :: "tool_error + nat"
  cf_local :: "nat \<Rightarrow> tool_error + local_variable option"
  cf_rename_local :: "nat \<Rightarrow> string \<Rightarrow> tool_error + unit"
  cf_set_local_type :: "nat \<Rightarrow> string \<Rightarrow> tool_error + string"
  cf_comment_locations :: "tool_error + (string \<times> u64 \<times> nat \<times> string \<times> string) list"
  cf_set_comment :: "string \<Rightarrow> string \<Rightarrow> tool_error + unit"

record stack_answer =
  sa_code :: int
  sa_name :: string
  sa_offset :: int

record edit_api =
  ea_patch_bytes :: "u64 \<Rightarrow> u8 list \<Rightarrow> tool_error + unit"
  ea_assemble_line :: "u64 \<Rightarrow> string \<Rightarrow> string + u8 list"
  ea_set_cmt :: "u64 \<Rightarrow> string \<Rightarrow> tool_error + unit"
  ea_set_cmt_with :: "u64 \<Rightarrow> string \<Rightarrow> bool \<Rightarrow> tool_error + unit"
  ea_set_name :: "u64 \<Rightarrow> string \<Rightarrow> tool_error + unit"
  ea_set_name_with_flags :: "u64 \<Rightarrow> string \<Rightarrow> int \<Rightarrow> tool_error + unit"
  ea_decompiler_available :: bool
  ea_decompile :: "func_view \<Rightarrow> tool_error + cfunction"
  ea_apply_decl_type :: "u64 \<Rightarrow> string \<Rightarrow> bool \<Rightarrow> bool \<Rightarrow> bool \<Rightarrow> bool"
  ea_apply_named_type :: "u64 \<Rightarrow> string \<Rightarrow> bool"
  ea_set_stack_var_type :: "u64 \<Rightarrow> string option \<Rightarrow> int \<Rightarrow> bool \<Rightarrow> string \<Rightarrow> bool \<Rightarrow> bool \<Rightarrow> stack_answer"
  ea_define_stack_var :: "u64 \<Rightarrow> string option \<Rightarrow> int \<Rightarrow> string \<Rightarrow> bool \<Rightarrow> stack_answer"
  ea_delete_stack_var :: "u64 \<Rightarrow> string option \<Rightarrow> int \<Rightarrow> bool \<Rightarrow> stack_answer"

type_synonym 'r edited = "(tool_error + 'r) \<times> db_edit list"

text \<open>Stop with an error before any edit, or ask idalib for one edit.\<close>

definition refused :: "tool_error \<Rightarrow> 'r edited" where
  "refused e = (Inl e, [])"

definition performed :: "db_edit \<Rightarrow> (tool_error + 'a) \<Rightarrow> ('a \<Rightarrow> 'r) \<Rightarrow> 'r edited" where
  "performed edit answer f = (map_sum id f answer, [edit])"

text \<open>The first lines of the handlers: the open database and the exact target.\<close>

definition on_target ::
  "idb option \<Rightarrow> string option \<Rightarrow> target_spec \<Rightarrow> (idb \<Rightarrow> u64 \<Rightarrow> mutation_target \<Rightarrow> 'r edited) \<Rightarrow> 'r edited" where
  "on_target idb database spec act =
     (case idb of
        None \<Rightarrow> refused NoDatabaseOpen
      | Some db \<Rightarrow>
          (case resolve_mutation_target db database spec of
             Inl e \<Rightarrow> refused e
           | Inr (addr, target) \<Rightarrow> act db addr target))"

section \<open>Patches, comments and names\<close>

record edit_result =
  er_address :: string
  er_target :: mutation_target

record patch_result = edit_result +
  er_length :: nat

record asm_result = patch_result +
  er_line :: string
  er_bytes :: string

definition handle_patch_bytes ::
  "edit_api \<Rightarrow> idb option \<Rightarrow> string option \<Rightarrow> target_spec \<Rightarrow> u8 list \<Rightarrow> patch_result edited" where
  "handle_patch_bytes api idb database spec bytes =
     on_target idb database spec (\<lambda>db addr target.
       performed (EdPatch addr bytes) (ea_patch_bytes api addr bytes)
         (\<lambda>_. \<lparr>er_address = show_addr addr, er_target = target, er_length = length bytes\<rparr>))"

definition handle_patch_asm ::
  "edit_api \<Rightarrow> idb option \<Rightarrow> string option \<Rightarrow> target_spec \<Rightarrow> string \<Rightarrow> asm_result edited" where
  "handle_patch_asm api idb database spec line =
     on_target idb database spec (\<lambda>db addr target.
       case ea_assemble_line api addr line of
         Inl e \<Rightarrow> refused (IdaError e)
       | Inr bytes \<Rightarrow>
           performed (EdPatch addr bytes) (ea_patch_bytes api addr bytes)
             (\<lambda>_. \<lparr>er_address = show_addr addr, er_target = target, er_length = length bytes, er_line = line,
                er_bytes = str_join '' '' (map hex_byte bytes)\<rparr>))"

record comment_result = edit_result +
  er_repeatable :: bool
  er_comment :: string

definition handle_set_comments ::
  "edit_api \<Rightarrow> idb option \<Rightarrow> string option \<Rightarrow> target_spec \<Rightarrow> string \<Rightarrow> bool \<Rightarrow> comment_result edited" where
  "handle_set_comments api idb database spec comment repeatable =
     on_target idb database spec (\<lambda>db addr target.
       let answer = (\<lambda>_. \<lparr>er_address = show_addr addr, er_target = target, er_repeatable = repeatable, er_comment = comment\<rparr>)
       in if repeatable then performed (EdCommentWith addr comment True) (ea_set_cmt_with api addr comment True) answer
          else performed (EdComment addr comment) (ea_set_cmt api addr comment) answer)"

record rename_result = edit_result +
  er_name :: string
  er_flags :: int

definition handle_rename ::
  "edit_api \<Rightarrow> idb option \<Rightarrow> string option \<Rightarrow> target_spec \<Rightarrow> string \<Rightarrow> int \<Rightarrow> rename_result edited" where
  "handle_rename api idb database spec name flags =
     on_target idb database spec (\<lambda>db addr target.
       let answer = (\<lambda>_. \<lparr>er_address = show_addr addr, er_target = target, er_name = name, er_flags = flags\<rparr>)
       in if flags = 0 then performed (EdName addr name) (ea_set_name api addr name) answer
          else performed (EdNameFlags addr name flags) (ea_set_name_with_flags api addr name flags) answer)"

section \<open>Types and stack variables\<close>

record stack_var_result =
  sr_function :: string
  sr_name :: string
  sr_offset :: int
  sr_code :: int
  sr_status :: string
  sr_target :: mutation_target

definition stack_var_result_of :: "u64 \<Rightarrow> mutation_target \<Rightarrow> stack_answer \<Rightarrow> stack_var_result" where
  "stack_var_result_of func_addr target r =
     \<lparr>sr_function = show_addr func_addr, sr_name = sa_name r, sr_offset = sa_offset r, sr_code = sa_code r,
      sr_status = (if sa_code r = 0 then ''ok'' else ''error''), sr_target = target\<rparr>"

record apply_type_result =
  at_address :: string
  at_applied :: bool
  at_source :: string
  at_target :: mutation_target

record type_request =
  tr_stack_offset :: "int option"
  tr_stack_name :: "string option"
  tr_decl :: "string option"
  tr_type_name :: "string option"
  tr_relaxed :: bool
  tr_delay :: bool
  tr_strict :: bool

text \<open>A stack variable when the request names one, the type of an address otherwise.\<close>

definition handle_apply_types ::
  "edit_api \<Rightarrow> idb option \<Rightarrow> string option \<Rightarrow> target_spec \<Rightarrow> type_request
     \<Rightarrow> (stack_var_result + apply_type_result) edited" where
  "handle_apply_types api idb database spec r =
     on_target idb database spec (\<lambda>db address target.
       if tr_stack_offset r \<noteq> None \<or> tr_stack_name r \<noteq> None
       then (case tr_decl r of
           None \<Rightarrow> refused (InvalidParams ''apply_types for stack var requires decl'')
         | Some decl \<Rightarrow>
             (let use_offset = (tr_stack_offset r \<noteq> None);
                  off = (case tr_stack_offset r of Some n \<Rightarrow> n | None \<Rightarrow> 0)
              in performed (EdSetStackVar address (tr_stack_name r) off use_offset decl (tr_relaxed r) (tr_strict r))
                   (Inr (ea_set_stack_var_type api address (tr_stack_name r) off use_offset decl (tr_relaxed r) (tr_strict r)))
                   (\<lambda>a. Inl (stack_var_result_of address target a))))
       else
         (let answer = (\<lambda>source applied.
             Inr \<lparr>at_address = show_addr address, at_applied = applied, at_source = source, at_target = target\<rparr>)
          in case tr_decl r of
               Some decl \<Rightarrow>
                 performed (EdApplyDecl address decl (tr_relaxed r) (tr_delay r) (tr_strict r))
                   (Inr (ea_apply_decl_type api address decl (tr_relaxed r) (tr_delay r) (tr_strict r))) (answer ''decl'')
             | None \<Rightarrow>
                 (case tr_type_name r of
                    Some type_name \<Rightarrow>
                      performed (EdApplyNamed address type_name) (Inr (ea_apply_named_type api address type_name))
                        (answer ''named'')
                  | None \<Rightarrow> refused (InvalidParams ''apply_types requires decl or type_name''))))"

text \<open>The frame operations ignore the offset of the target: theirs is the stack offset.\<close>

definition handle_declare_stack ::
  "edit_api \<Rightarrow> idb option \<Rightarrow> string option \<Rightarrow> target_spec \<Rightarrow> int \<Rightarrow> string option \<Rightarrow> string \<Rightarrow> bool
     \<Rightarrow> stack_var_result edited" where
  "handle_declare_stack api idb database spec off var_name decl relaxed =
     on_target idb database (spec\<lparr>ts_offset := 0\<rparr>) (\<lambda>db func_addr target.
       performed (EdDefineStackVar func_addr var_name off decl relaxed)
         (Inr (ea_define_stack_var api func_addr var_name off decl relaxed)) (stack_var_result_of func_addr target))"

definition handle_delete_stack ::
  "edit_api \<Rightarrow> idb option \<Rightarrow> string option \<Rightarrow> target_spec \<Rightarrow> int option \<Rightarrow> string option
     \<Rightarrow> stack_var_result edited" where
  "handle_delete_stack api idb database spec off var_name =
     (if idb = None then refused NoDatabaseOpen
      else if off = None \<and> var_name = None then refused (InvalidParams ''delete_stack requires offset or name'')
      else on_target idb database (spec\<lparr>ts_offset := 0\<rparr>) (\<lambda>db func_addr target.
        let n = (case off of Some n \<Rightarrow> n | None \<Rightarrow> 0)
        in performed (EdDeleteStackVar func_addr var_name n (off \<noteq> None))
             (Inr (ea_delete_stack_var api func_addr var_name n (off \<noteq> None))) (stack_var_result_of func_addr target)))"

section \<open>Local variables of the decompiler\<close>

definition MAX_LOCALS :: nat where "MAX_LOCALS = 100000"
definition MAX_NAME_BYTES :: nat where "MAX_NAME_BYTES = 1024"
definition MAX_DECL_BYTES :: nat where "MAX_DECL_BYTES = 16384"
definition MAX_LOCATOR_BYTES :: nat where "MAX_LOCATOR_BYTES = 16384"

datatype local_variable_selector = LocalName string | LocalLocator string

record local_variable_info =
  li_name :: string
  li_type_name :: string
  li_location :: string
  li_locator :: "string option"
  li_definition_address :: "string option"
  li_size :: "nat option"
  li_is_argument :: bool
  li_has_user_name :: bool
  li_has_user_type :: bool

definition variable_info :: "local_variable \<Rightarrow> local_variable_info" where
  "variable_info v =
     \<lparr>li_name = lv_name v, li_type_name = lv_type_name v, li_location = lv_location v, li_locator = lv_locator v,
      li_definition_address = map_option show_addr (lv_definition_address v),
      li_size = (if 0 \<le> lv_width v \<and> lv_width v < 2 ^ 32 then Some (nat (lv_width v)) else None),
      li_is_argument = lv_is_argument v, li_has_user_name = lv_has_user_name v, li_has_user_type = lv_has_user_type v\<rparr>"

definition local_selector :: "string option \<Rightarrow> string option \<Rightarrow> tool_error + local_variable_selector" where
  "local_selector name locator =
     (case (name, locator) of
        (Some n, None) \<Rightarrow>
          (case checked_text n ''lvar_name'' MAX_NAME_BYTES of Inl e \<Rightarrow> Inl e | Inr _ \<Rightarrow> Inr (LocalName n))
      | (None, Some l) \<Rightarrow>
          (case checked_text l ''lvar_locator'' MAX_LOCATOR_BYTES of Inl e \<Rightarrow> Inl e | Inr _ \<Rightarrow> Inr (LocalLocator l))
      | _ \<Rightarrow> Inl (InvalidParams ''pass exactly one of lvar_name or lvar_locator''))"

text \<open>
  The scan for a name: an error of an entry or a second match ends it. \<open>lower\<close> is
  \<open>str::to_lowercase\<close> and \<open>dbg\<close> the debug format of a text or a list of texts.
\<close>

fun name_scan ::
  "(string \<Rightarrow> string) \<Rightarrow> (string \<Rightarrow> string) \<Rightarrow> string \<Rightarrow> (tool_error + nat \<times> string) list \<Rightarrow> nat option
     \<Rightarrow> string list \<Rightarrow> tool_error + nat option \<times> string list" where
  "name_scan lower dbg query [] found similar = Inr (found, similar)"
| "name_scan lower dbg query (Inl e # es) found similar = Inl e"
| "name_scan lower dbg query (Inr (index, name) # es) found similar =
     (if name = query
      then (if found \<noteq> None
            then Inl (InvalidParams (''more than one decompiler local is named exactly '' @ dbg query @ ''; no change was made''))
            else name_scan lower dbg query es (Some index) similar)
      else if length similar < 8 \<and> str_contains (lower query) (lower name)
           then name_scan lower dbg query es found (similar @ [name])
           else name_scan lower dbg query es found similar)"

definition exact_local_index ::
  "(string \<Rightarrow> string) \<Rightarrow> (string \<Rightarrow> string) \<Rightarrow> (string list \<Rightarrow> string) \<Rightarrow> string \<Rightarrow> (tool_error + nat \<times> string) list
     \<Rightarrow> tool_error + nat" where
  "exact_local_index lower dbg dbgs query entries =
     (case name_scan lower dbg query entries None [] of
        Inl e \<Rightarrow> Inl e
      | Inr (Some index, _) \<Rightarrow> Inr index
      | Inr (None, similar) \<Rightarrow>
          (let hint = (if similar = [] then ''use list_lvars to find its exact name'' else ''similar names: '' @ dbgs similar)
           in Inl (InvalidParams (''no decompiler local is named exactly '' @ dbg query @ ''; '' @ hint @ ''. No change was made''))))"

fun locator_scan ::
  "string \<Rightarrow> (tool_error + nat \<times> string option) list \<Rightarrow> nat option \<Rightarrow> tool_error + nat option" where
  "locator_scan query [] found = Inr found"
| "locator_scan query (Inl e # es) found = Inl e"
| "locator_scan query (Inr (index, locator) # es) found =
     (if locator = Some query
      then (if found \<noteq> None
            then Inl (InvalidParams ''lvar_locator matches multiple current locals; no change was made'')
            else locator_scan query es (Some index))
      else locator_scan query es found)"

definition exact_locator_index :: "string \<Rightarrow> (tool_error + nat \<times> string option) list \<Rightarrow> tool_error + nat" where
  "exact_locator_index query entries =
     (case locator_scan query entries None of
        Inl e \<Rightarrow> Inl e
      | Inr (Some index) \<Rightarrow> Inr index
      | Inr None \<Rightarrow> Inl (InvalidParams (''lvar_locator is stale or does not belong to this function; use list_lvars again. ''
            @ ''No change was made'')))"

text \<open>A local of the current decompilation; one that is gone is an error.\<close>

definition fetch_local :: "string \<Rightarrow> cfunction \<Rightarrow> nat \<Rightarrow> tool_error + local_variable" where
  "fetch_local gone c index =
     (case cf_local c index of
        Inl e \<Rightarrow> Inl e
      | Inr None \<Rightarrow> Inl (IdaError gone)
      | Inr (Some v) \<Rightarrow> Inr v)"

definition indexed_locals :: "(local_variable \<Rightarrow> 'a) \<Rightarrow> cfunction \<Rightarrow> nat \<Rightarrow> (tool_error + nat \<times> 'a) list" where
  "indexed_locals key c n =
     map (\<lambda>i. map_sum id (\<lambda>v. (i, key v)) (fetch_local ''decompiler local disappeared before the edit'' c i)) [0..<n]"

definition selected_local ::
  "(string \<Rightarrow> string) \<Rightarrow> (string \<Rightarrow> string) \<Rightarrow> (string list \<Rightarrow> string) \<Rightarrow> cfunction \<Rightarrow> local_variable_selector
     \<Rightarrow> tool_error + nat \<times> local_variable_info" where
  "selected_local lower dbg dbgs c selector =
     (case cf_local_count c of
        Inl e \<Rightarrow> Inl e
      | Inr n \<Rightarrow>
          (case (case selector of
                   LocalName name \<Rightarrow> exact_local_index lower dbg dbgs name (indexed_locals lv_name c n)
                 | LocalLocator locator \<Rightarrow> exact_locator_index locator (indexed_locals lv_locator c n)) of
             Inl e \<Rightarrow> Inl e
           | Inr index \<Rightarrow>
               map_sum id (\<lambda>v. (index, variable_info v))
                 (fetch_local ''decompiler local disappeared before the edit'' c index)))"

text \<open>A decompilation with the start of its function.\<close>

definition decompile_at :: "edit_api \<Rightarrow> func_view \<Rightarrow> tool_error + u64 \<times> cfunction" where
  "decompile_at api f = map_sum id (Pair (fv_start f)) (ea_decompile api f)"

definition decompile_target ::
  "edit_api \<Rightarrow> idb option \<Rightarrow> string option \<Rightarrow> target_spec \<Rightarrow> tool_error + (u64 \<times> cfunction) \<times> mutation_target" where
  "decompile_target api idb database spec =
     (case decompile_mutation_target (ea_decompiler_available api) (decompile_at api) idb database spec of
        Inl e \<Rightarrow> Inl e
      | Inr ((entry, c), target) \<Rightarrow>
          (case cf_local_count c of
             Inl e \<Rightarrow> Inl e
           | Inr n \<Rightarrow>
               if MAX_LOCALS < n
               then Inl (IdaError (''function has more than '' @ show_nat MAX_LOCALS @ '' decompiler locals''))
               else Inr ((entry, c), target)))"

record list_lvars_result =
  ll_target :: mutation_target
  ll_lvars :: "local_variable_info list"
  ll_total :: nat
  ll_next_offset :: "nat option"

text \<open>Unnamed temporaries are not listed.\<close>

fun lvars_loop ::
  "cfunction \<Rightarrow> nat \<Rightarrow> nat \<Rightarrow> nat list \<Rightarrow> nat \<Rightarrow> local_variable_info list \<Rightarrow> tool_error + local_variable_info list \<times> nat" where
  "lvars_loop c offset limit [] seen lvars = Inr (lvars, seen)"
| "lvars_loop c offset limit (i # is) seen lvars =
     (case fetch_local ''decompiler local disappeared while listing'' c i of
        Inl e \<Rightarrow> Inl e
      | Inr v \<Rightarrow>
          if lv_name v = [] then lvars_loop c offset limit is seen lvars
          else lvars_loop c offset limit is (seen + 1)
                 (if offset \<le> seen \<and> length lvars < limit then lvars @ [variable_info v] else lvars))"

definition handle_list_lvars ::
  "edit_api \<Rightarrow> idb option \<Rightarrow> string option \<Rightarrow> target_spec \<Rightarrow> nat \<Rightarrow> nat \<Rightarrow> tool_error + list_lvars_result" where
  "handle_list_lvars api idb database spec offset limit =
     (case decompile_target api idb database spec of
        Inl e \<Rightarrow> Inl e
      | Inr ((entry, c), target) \<Rightarrow>
          (case cf_local_count c of
             Inl e \<Rightarrow> Inl e
           | Inr n \<Rightarrow>
               map_sum id
                 (\<lambda>(lvars, seen). \<lparr>ll_target = target, ll_lvars = lvars, ll_total = seen,
                    ll_next_offset = next_offset offset (length lvars) seen\<rparr>)
                 (lvars_loop c offset limit [0..<n] 0 [])))"

record lvar_result =
  vr_target :: mutation_target
  vr_variable :: local_variable_info
  vr_value :: string

text \<open>\<open>vr_value\<close> is the new name of a rename, and the name of the type that was set.\<close>

definition handle_rename_lvar ::
  "(string \<Rightarrow> string) \<Rightarrow> (string \<Rightarrow> string) \<Rightarrow> (string list \<Rightarrow> string) \<Rightarrow> edit_api \<Rightarrow> idb option \<Rightarrow> string option
     \<Rightarrow> target_spec \<Rightarrow> local_variable_selector \<Rightarrow> string \<Rightarrow> lvar_result edited" where
  "handle_rename_lvar lower dbg dbgs api idb database spec selector new_name =
     (case checked_text new_name ''new_name'' MAX_NAME_BYTES of
        Inl e \<Rightarrow> refused e
      | Inr _ \<Rightarrow>
          (case decompile_target api idb database spec of
             Inl e \<Rightarrow> refused e
           | Inr ((entry, c), target) \<Rightarrow>
               (case selected_local lower dbg dbgs c selector of
                  Inl e \<Rightarrow> refused e
                | Inr (index, variable) \<Rightarrow>
                    performed (EdRenameLocal entry index new_name) (cf_rename_local c index new_name)
                      (\<lambda>_. \<lparr>vr_target = target, vr_variable = variable, vr_value = new_name\<rparr>))))"

definition handle_set_lvar_type ::
  "(string \<Rightarrow> string) \<Rightarrow> (string \<Rightarrow> string) \<Rightarrow> (string list \<Rightarrow> string) \<Rightarrow> edit_api \<Rightarrow> idb option \<Rightarrow> string option
     \<Rightarrow> target_spec \<Rightarrow> local_variable_selector \<Rightarrow> string \<Rightarrow> lvar_result edited" where
  "handle_set_lvar_type lower dbg dbgs api idb database spec selector decl =
     (case checked_text decl ''decl'' MAX_DECL_BYTES of
        Inl e \<Rightarrow> refused e
      | Inr _ \<Rightarrow>
          (case decompile_target api idb database spec of
             Inl e \<Rightarrow> refused e
           | Inr ((entry, c), target) \<Rightarrow>
               (case selected_local lower dbg dbgs c selector of
                  Inl e \<Rightarrow> refused e
                | Inr (index, variable) \<Rightarrow>
                    performed (EdLocalType entry index decl) (cf_set_local_type c index decl)
                      (\<lambda>type_name. \<lparr>vr_target = target, vr_variable = variable, vr_value = type_name\<rparr>))))"

section \<open>Comments in pseudocode\<close>

definition MAX_COMMENT_LOCATOR_BYTES :: nat where "MAX_COMMENT_LOCATOR_BYTES = 128"
definition MAX_COMMENT_BYTES :: nat where "MAX_COMMENT_BYTES = 16384"

text \<open>An empty comment is valid: it removes the comment.\<close>

definition check_pseudocode_comment :: "string \<Rightarrow> string \<Rightarrow> tool_error + unit" where
  "check_pseudocode_comment locator comment =
     (case checked_text locator ''comment_locator'' MAX_COMMENT_LOCATOR_BYTES of
        Inl e \<Rightarrow> Inl e
      | Inr _ \<Rightarrow>
          if MAX_COMMENT_BYTES < length comment \<or> CHR 0x00 \<in> set comment
          then Inl (InvalidParams (''comment must contain at most '' @ show_nat MAX_COMMENT_BYTES @ '' bytes and no NUL''))
          else Inr ())"

record comment_location =
  co_locator :: string
  co_address :: string
  co_line_number :: nat
  co_text :: string
  co_comment :: string

record comments_result =
  cs_target :: mutation_target
  cs_locations :: "comment_location list"
  cs_total :: nat
  cs_next_offset :: "nat option"

definition handle_list_pseudocode_comments ::
  "edit_api \<Rightarrow> idb option \<Rightarrow> string option \<Rightarrow> target_spec \<Rightarrow> nat \<Rightarrow> nat \<Rightarrow> tool_error + comments_result" where
  "handle_list_pseudocode_comments api idb database spec offset limit =
     (case decompile_mutation_target (ea_decompiler_available api) (decompile_at api) idb database spec of
        Inl e \<Rightarrow> Inl e
      | Inr ((entry, c), target) \<Rightarrow>
          map_sum id
            (\<lambda>all. let locations = map (\<lambda>(locator, address, line, text, comment).
                      \<lparr>co_locator = locator, co_address = show_addr address, co_line_number = line, co_text = text,
                       co_comment = comment\<rparr>) (take limit (drop offset all))
                   in \<lparr>cs_target = target, cs_locations = locations, cs_total = length all,
                       cs_next_offset = next_offset offset (length locations) (length all)\<rparr>)
            (cf_comment_locations c))"

record set_comment_result =
  sc_target :: mutation_target
  sc_locator :: string
  sc_deleted :: bool

definition handle_set_pseudocode_comment ::
  "edit_api \<Rightarrow> idb option \<Rightarrow> string option \<Rightarrow> target_spec \<Rightarrow> string \<Rightarrow> string \<Rightarrow> set_comment_result edited" where
  "handle_set_pseudocode_comment api idb database spec locator comment =
     (case decompile_mutation_target (ea_decompiler_available api) (decompile_at api) idb database spec of
        Inl e \<Rightarrow> refused e
      | Inr ((entry, c), target) \<Rightarrow>
          performed (EdPseudocodeComment entry locator comment) (cf_set_comment c locator comment)
            (\<lambda>_. \<lparr>sc_target = target, sc_locator = locator, sc_deleted = (comment = [])\<rparr>))"

section \<open>Lumina\<close>

datatype pull_status = BadPattern | PsNotFound | PsError | PsOk | PsAdded | PsUnknown int

fun status_name :: "pull_status \<Rightarrow> string" where
  "status_name BadPattern = ''bad_pattern''"
| "status_name PsNotFound = ''not_found''"
| "status_name PsError = ''error''"
| "status_name PsOk = ''ok''"
| "status_name PsAdded = ''added''"
| "status_name (PsUnknown code) = ''unknown_'' @ show_int code"

record 'v pull_result =
  pu_address :: string
  pu_status :: string
  pu_answer :: 'v
  pu_force :: bool
  pu_previous_name :: "string option"
  pu_current_name :: "string option"
  pu_target :: "mutation_target option"

text \<open>
  A lookup resolves its target loosely, an application exactly. \<open>pull\<close> is the call of the
  Lumina server with the status and the other fields it answers, \<open>after\<close> the database then.
\<close>

definition handle_pull ::
  "(u64 \<Rightarrow> bool \<Rightarrow> bool \<Rightarrow> tool_error + pull_status \<times> 'v) \<Rightarrow> (idb \<Rightarrow> idb) \<Rightarrow> idb option \<Rightarrow> bool \<Rightarrow> string option
     \<Rightarrow> target_spec \<Rightarrow> bool \<Rightarrow> bool \<Rightarrow> 'v pull_result edited" where
  "handle_pull pull after idb allow_lumina database spec do_apply force =
     (if \<not> allow_lumina
      then refused (InvalidParams (''Lumina access is disabled; restart ida-mcp with --allow-lumina or ''
             @ ''IDA_MCP_ALLOW_LUMINA=true''))
      else case idb of
        None \<Rightarrow> refused NoDatabaseOpen
      | Some db \<Rightarrow>
          (case (if do_apply then map_sum id (\<lambda>(a, t). (a, Some t)) (resolve_mutation_target db database spec)
                 else map_sum id (\<lambda>a. (a, None)) (resolve_address idb (ts_addr spec) (ts_name spec) (ts_offset spec))) of
             Inl e \<Rightarrow> refused e
           | Inr (requested, target) \<Rightarrow>
               (case db_function_at db requested of
                  None \<Rightarrow> refused (FunctionNotFound requested)
                | Some f \<Rightarrow>
                    (let address = fv_start f;
                         response = (\<lambda>(status, answer). \<lparr>pu_address = show_addr address, pu_status = status_name status,
                              pu_answer = answer, pu_force = force, pu_previous_name = fv_name f,
                              pu_current_name = (case db_function_at (after db) address of
                                 Some g \<Rightarrow> fv_name g | None \<Rightarrow> None),
                              pu_target = map_option (\<lambda>t. acting_at t address) target\<rparr>)
                     in if do_apply then performed (EdPull address do_apply force) (pull address do_apply force) response
                        else (map_sum id response (pull address do_apply force), [])))))"

section \<open>Every edit hits the resolved target\<close>

text \<open>
  What a handler owes: no edit on an error before it, otherwise one edit, at the exact
  resolution of its target, and that is the address the answer reports. A handler that acts on
  a \<open>whole\<close> function acts at the start of the one that contains the target instead, and only there.
\<close>

definition hits :: "bool \<Rightarrow> idb \<Rightarrow> u64 \<Rightarrow> mutation_target \<Rightarrow> u64 \<Rightarrow> mutation_target \<Rightarrow> bool" where
  "hits whole db a t at reported \<longleftrightarrow>
     (if whole then \<exists>f. db_function_at db a = Some f \<and> at = fv_start f \<and> reported = acting_at t (fv_start f)
      else at = a \<and> reported = t)"

definition exact_edit :: "bool \<Rightarrow> idb option \<Rightarrow> string option \<Rightarrow> target_spec \<Rightarrow> (tool_error + mutation_target) \<times> db_edit list \<Rightarrow> bool" where
  "exact_edit whole idb database spec out \<longleftrightarrow>
     snd out = [] \<and> isl (fst out)
     \<or> (\<exists>db a t e reported. idb = Some db \<and> resolve_mutation_target db database spec = Inr (a, t) \<and> snd out = [e]
          \<and> hits whole db a t (edit_address e) reported \<and> (\<forall>t'. fst out = Inr t' \<longrightarrow> t' = reported))"

definition reporting :: "('r \<Rightarrow> mutation_target) \<Rightarrow> 'r edited \<Rightarrow> (tool_error + mutation_target) \<times> db_edit list" where
  "reporting f out = (map_sum id f (fst out), snd out)"

definition edits_target :: "u64 \<Rightarrow> mutation_target \<Rightarrow> ('r \<Rightarrow> mutation_target) \<Rightarrow> 'r edited \<Rightarrow> bool" where
  "edits_target a t f out \<longleftrightarrow>
     snd out = [] \<and> isl (fst out)
     \<or> (\<exists>e. snd out = [e] \<and> edit_address e = a \<and> (\<forall>x. fst out = Inr x \<longrightarrow> f x = t))"

lemma edits_refused [simp]: "edits_target a t f (refused e)"
  by (simp add: edits_target_def refused_def)

lemma edits_performed [simp]:
  "edit_address e = a \<Longrightarrow> (\<And>x. f (g x) = t) \<Longrightarrow> edits_target a t f (performed e answer g)"
  by (cases answer) (auto simp: edits_target_def performed_def)

lemma exact_refused [simp]: "exact_edit whole idb database spec (reporting f (refused e))"
  by (simp add: exact_edit_def reporting_def refused_def)

lemma exact_edits_target:
  "resolve_mutation_target db database spec = Inr (a, t) \<Longrightarrow> hits whole db a t at reported \<Longrightarrow> edits_target at reported f out \<Longrightarrow>
     exact_edit whole (Some db) database spec (reporting f out)"
  by (cases "fst out") (auto simp: edits_target_def exact_edit_def reporting_def)

lemma exact_on_target:
  assumes "\<And>db a t. edits_target a t f (act db a t)"
  shows "exact_edit False idb database spec (reporting f (on_target idb database spec act))"
proof (cases idb)
  case (Some db)
  show ?thesis
  proof (cases "resolve_mutation_target db database spec")
    case (Inr r)
    obtain a t where r: "r = (a, t)" by (rule prod.exhaust)
    have "hits False db a t a t" by (simp add: hits_def)
    with exact_edits_target [OF Inr [unfolded r] this assms] Some Inr r show ?thesis by (simp add: on_target_def)
  qed (simp add: on_target_def Some)
qed (simp add: on_target_def)

lemma map_sum_InrE: "map_sum id f r = Inr y \<Longrightarrow> (\<And>x. r = Inr x \<Longrightarrow> y = f x \<Longrightarrow> P) \<Longrightarrow> P"
  by (cases r) auto

lemma decompiled_hits:
  assumes "decompile_mutation_target available (decompile_at api) idb database spec = Inr ((entry, c), target)"
  shows "\<exists>db a t. idb = Some db \<and> resolve_mutation_target db database spec = Inr (a, t) \<and> hits True db a t entry target"
  using assms
  by (fastforce simp: decompile_mutation_target_def with_db_def decompile_at_def hits_def
      split: option.splits sum.splits prod.splits if_splits elim: map_sum_InrE)

lemma exact_decompiled:
  assumes "decompile_mutation_target available (decompile_at api) idb database spec = Inr ((entry, c), target)"
    and "edits_target entry target f out"
  shows "exact_edit True idb database spec (reporting f out)"
  using decompiled_hits [OF assms(1)] exact_edits_target [OF _ _ assms(2)] by blast

lemma decompile_target_Inr:
  "decompile_target api idb database spec = Inr ((entry, c), target) \<Longrightarrow>
     decompile_mutation_target (ea_decompiler_available api) (decompile_at api) idb database spec = Inr ((entry, c), target)"
  by (auto simp: decompile_target_def split: sum.splits prod.splits if_splits)

locale exact_editor =
  fixes run :: "idb option \<Rightarrow> string option \<Rightarrow> target_spec \<Rightarrow> 'r edited"
    and aim :: "target_spec \<Rightarrow> target_spec"
    and target_of :: "'r \<Rightarrow> mutation_target"
    and whole :: bool
  assumes exact: "exact_edit whole idb database (aim spec) (reporting target_of (run idb database spec))"
begin

lemma no_database_no_edit: "snd (run None database spec) = []"
  using exact [of None database spec] by (auto simp: exact_edit_def reporting_def)

lemma unresolved_no_edit:
  "resolve_mutation_target db database (aim spec) = Inl e \<Longrightarrow> snd (run (Some db) database spec) = []"
  using exact [of "Some db" database spec] by (auto simp: exact_edit_def reporting_def)

lemma at_most_one_edit: "length (snd (run idb database spec)) \<le> 1"
  using exact [of idb database spec] by (auto simp: exact_edit_def reporting_def)

lemma answer_names_the_edit:
  "run idb database spec = (Inr x, es) \<Longrightarrow> \<exists>e db a t. idb = Some db \<and> es = [e]
     \<and> resolve_mutation_target db database (aim spec) = Inr (a, t) \<and> hits whole db a t (edit_address e) (target_of x)"
  using exact [of idb database spec] by (auto simp: exact_edit_def reporting_def)

end

interpretation patch_bytes: exact_editor "\<lambda>idb database spec. handle_patch_bytes api idb database spec bytes" id er_target False
  by unfold_locales (auto simp: handle_patch_bytes_def intro!: exact_on_target)

interpretation patch_asm: exact_editor "\<lambda>idb database spec. handle_patch_asm api idb database spec line" id er_target False
  by unfold_locales (auto simp: handle_patch_asm_def intro!: exact_on_target split: sum.split)

interpretation set_comments: exact_editor
  "\<lambda>idb database spec. handle_set_comments api idb database spec comment repeatable" id er_target False
  by unfold_locales (auto simp: handle_set_comments_def Let_def intro!: exact_on_target)

interpretation rename_symbol: exact_editor "\<lambda>idb database spec. handle_rename api idb database spec name flags" id er_target False
  by unfold_locales (auto simp: handle_rename_def Let_def intro!: exact_on_target)

definition type_target :: "stack_var_result + apply_type_result \<Rightarrow> mutation_target" where
  "type_target r = (case r of Inl s \<Rightarrow> sr_target s | Inr a \<Rightarrow> at_target a)"

interpretation apply_types: exact_editor "\<lambda>idb database spec. handle_apply_types api idb database spec request" id type_target False
  by unfold_locales
    (auto simp: handle_apply_types_def stack_var_result_of_def type_target_def Let_def
      intro!: exact_on_target split: option.split)

interpretation declare_stack: exact_editor
  "\<lambda>idb database spec. handle_declare_stack api idb database spec off var_name decl relaxed"
  "\<lambda>spec. spec\<lparr>ts_offset := 0\<rparr>" sr_target False
  by unfold_locales (auto simp: handle_declare_stack_def stack_var_result_of_def intro!: exact_on_target)

interpretation delete_stack: exact_editor
  "\<lambda>idb database spec. handle_delete_stack api idb database spec off var_name"
  "\<lambda>spec. spec\<lparr>ts_offset := 0\<rparr>" sr_target False
  by unfold_locales
    (auto simp: handle_delete_stack_def stack_var_result_of_def Let_def intro!: exact_on_target)

interpretation rename_lvar: exact_editor
  "\<lambda>idb database spec. handle_rename_lvar lower dbg dbgs api idb database spec selector new_name" id vr_target True
  by unfold_locales
    (auto simp: handle_rename_lvar_def intro!: exact_decompiled [OF decompile_target_Inr] split: sum.split prod.split)

interpretation set_lvar_type: exact_editor
  "\<lambda>idb database spec. handle_set_lvar_type lower dbg dbgs api idb database spec selector decl" id vr_target True
  by unfold_locales
    (auto simp: handle_set_lvar_type_def intro!: exact_decompiled [OF decompile_target_Inr] split: sum.split prod.split)

interpretation set_pseudocode_comment: exact_editor
  "\<lambda>idb database spec. handle_set_pseudocode_comment api idb database spec locator comment" id sc_target True
  by unfold_locales
    (auto simp: handle_set_pseudocode_comment_def intro!: exact_decompiled split: sum.split prod.split)

definition pull_target :: "'v pull_result \<Rightarrow> mutation_target" where
  "pull_target r = the (pu_target r)"

lemma pull_exact: "exact_edit True idb database spec (reporting pull_target (handle_pull pull after idb allow database spec True force))"
proof (cases idb)
  case (Some db)
  show ?thesis
  proof (cases "resolve_mutation_target db database spec")
    case (Inl e)
    with Some show ?thesis by (simp add: handle_pull_def)
  next
    case (Inr r)
    obtain a t where r: "r = (a, t)" by (rule prod.exhaust)
    show ?thesis
    proof (cases "allow \<and> (\<exists>f. db_function_at db a = Some f)")
      case True
      then obtain f where f: "allow" "db_function_at db a = Some f" by blast
      then have "hits True db a t (fv_start f) (acting_at t (fv_start f))" by (auto simp: hits_def)
      note at = exact_edits_target [OF Inr [unfolded r] this]
      show ?thesis
        using Some Inr r f by (auto simp: handle_pull_def Let_def pull_target_def case_prod_unfold intro!: at)
    next
      case False
      with Some Inr r show ?thesis by (auto simp: handle_pull_def)
    qed
  qed
qed (simp add: handle_pull_def)

interpretation pull_metadata: exact_editor
  "\<lambda>idb database spec. handle_pull pull after idb allow database spec True force" id pull_target True
  by unfold_locales (simp add: pull_exact)

text \<open>A lookup edits nothing.\<close>

lemma lookup_edits_nothing: "snd (handle_pull pull after idb allow database spec False force) = []"
  by (auto simp: handle_pull_def refused_def Let_def split: option.split sum.split)

section \<open>All edits\<close>

datatype edit_request =
    ReqPatchBytes "u8 list"
  | ReqPatchAsm string
  | ReqSetComments string bool
  | ReqRename string int
  | ReqApplyTypes type_request
  | ReqDeclareStack int "string option" string bool
  | ReqDeleteStack "int option" "string option"
  | ReqRenameLvar local_variable_selector string
  | ReqSetLvarType local_variable_selector string
  | ReqSetPseudocodeComment string string
  | ReqApplyLumina bool bool

text \<open>The code points that the handlers get from the standard library, idalib and the Lumina server.\<close>

record 'v edit_env =
  ee_lower :: "string \<Rightarrow> string"
  ee_dbg :: "string \<Rightarrow> string"
  ee_dbgs :: "string list \<Rightarrow> string"
  ee_api :: edit_api
  ee_pull :: "u64 \<Rightarrow> bool \<Rightarrow> bool \<Rightarrow> tool_error + pull_status \<times> 'v"
  ee_after :: "idb \<Rightarrow> idb"

fun run_edit ::
  "'v edit_env \<Rightarrow> idb option \<Rightarrow> string option \<Rightarrow> target_spec \<Rightarrow> edit_request
     \<Rightarrow> (tool_error + mutation_target) \<times> db_edit list" where
  "run_edit v idb database spec (ReqPatchBytes bytes) =
     reporting er_target (handle_patch_bytes (ee_api v) idb database spec bytes)"
| "run_edit v idb database spec (ReqPatchAsm line) =
     reporting er_target (handle_patch_asm (ee_api v) idb database spec line)"
| "run_edit v idb database spec (ReqSetComments comment repeatable) =
     reporting er_target (handle_set_comments (ee_api v) idb database spec comment repeatable)"
| "run_edit v idb database spec (ReqRename name flags) =
     reporting er_target (handle_rename (ee_api v) idb database spec name flags)"
| "run_edit v idb database spec (ReqApplyTypes request) =
     reporting type_target (handle_apply_types (ee_api v) idb database spec request)"
| "run_edit v idb database spec (ReqDeclareStack off var_name decl relaxed) =
     reporting sr_target (handle_declare_stack (ee_api v) idb database spec off var_name decl relaxed)"
| "run_edit v idb database spec (ReqDeleteStack off var_name) =
     reporting sr_target (handle_delete_stack (ee_api v) idb database spec off var_name)"
| "run_edit v idb database spec (ReqRenameLvar selector new_name) =
     reporting vr_target
       (handle_rename_lvar (ee_lower v) (ee_dbg v) (ee_dbgs v) (ee_api v) idb database spec selector new_name)"
| "run_edit v idb database spec (ReqSetLvarType selector decl) =
     reporting vr_target
       (handle_set_lvar_type (ee_lower v) (ee_dbg v) (ee_dbgs v) (ee_api v) idb database spec selector decl)"
| "run_edit v idb database spec (ReqSetPseudocodeComment locator comment) =
     reporting sc_target (handle_set_pseudocode_comment (ee_api v) idb database spec locator comment)"
| "run_edit v idb database spec (ReqApplyLumina allow force) =
     reporting pull_target (handle_pull (ee_pull v) (ee_after v) idb allow database spec True force)"

definition aim_of :: "edit_request \<Rightarrow> target_spec \<Rightarrow> target_spec" where
  "aim_of request spec =
     (case request of
        ReqDeclareStack _ _ _ _ \<Rightarrow> spec\<lparr>ts_offset := 0\<rparr>
      | ReqDeleteStack _ _ \<Rightarrow> spec\<lparr>ts_offset := 0\<rparr>
      | _ \<Rightarrow> spec)"

text \<open>The decompiler and Lumina act on the function that contains the target, the others on the target.\<close>

fun acts_on_function :: "edit_request \<Rightarrow> bool" where
  "acts_on_function (ReqRenameLvar _ _) \<longleftrightarrow> True"
| "acts_on_function (ReqSetLvarType _ _) \<longleftrightarrow> True"
| "acts_on_function (ReqSetPseudocodeComment _ _) \<longleftrightarrow> True"
| "acts_on_function (ReqApplyLumina _ _) \<longleftrightarrow> True"
| "acts_on_function _ \<longleftrightarrow> False"

lemmas handlers_exact =
  patch_bytes.exact patch_asm.exact set_comments.exact rename_symbol.exact apply_types.exact declare_stack.exact
  delete_stack.exact rename_lvar.exact set_lvar_type.exact set_pseudocode_comment.exact pull_metadata.exact

lemma run_edit_exact: "exact_edit (acts_on_function request) idb database (aim_of request spec) (run_edit v idb database spec request)"
  using handlers_exact [unfolded id_def] by (cases request) (simp_all only: run_edit.simps aim_of_def edit_request.case acts_on_function.simps)

lemma resolved_address: "resolve_mutation_target db database spec = Inr (a, t) \<Longrightarrow> mt_address t = show_addr a"
  by (auto simp: resolve_mutation_target_def Let_def split: option.splits sum.splits prod.splits)

lemma hits_address:
  "hits whole db a t at reported \<Longrightarrow> resolve_mutation_target db database spec = Inr (a, t) \<Longrightarrow> mt_address reported = show_addr at"
  by (auto simp: hits_def acting_at_def dest: resolved_address split: if_splits)

text \<open>C38: A tool that changes the database makes one change at most: a patch, a comment, a name, a type or a stack
  variable at exactly the address its target resolves to, an edit of the decompiler or of Lumina at the start of the
  function that contains this address; and a successful answer names the address that was changed.\<close>

theorem edits_hit_their_target:
  assumes "run_edit v idb database spec request = (r, es)" and "e \<in> set es"
  shows "\<exists>db a t. idb = Some db \<and> resolve_mutation_target db database (aim_of request spec) = Inr (a, t) \<and> es = [e]
     \<and> (if acts_on_function request then \<exists>f. db_function_at db a = Some f \<and> edit_address e = fv_start f
        else edit_address e = a)
     \<and> (\<forall>reported. r = Inr reported \<longrightarrow> mt_address reported = show_addr (edit_address e))"
proof -
  have "exact_edit (acts_on_function request) idb database (aim_of request spec) (r, es)"
    using run_edit_exact [of request idb database spec v] assms(1) by simp
  with assms(2) obtain db a t reported where at: "idb = Some db"
    "resolve_mutation_target db database (aim_of request spec) = Inr (a, t)" "es = [e]"
    "hits (acts_on_function request) db a t (edit_address e) reported" "\<forall>t'. r = Inr t' \<longrightarrow> t' = reported"
    by (auto simp: exact_edit_def)
  moreover have "mt_address reported = show_addr (edit_address e)" using hits_address [OF at(4,2)] .
  ultimately show ?thesis by (auto simp: hits_def split: if_splits)
qed

section \<open>One local variable\<close>

definition selects :: "local_variable_selector \<Rightarrow> local_variable \<Rightarrow> bool" where
  "selects selector v = (case selector of LocalName n \<Rightarrow> lv_name v = n | LocalLocator l \<Rightarrow> lv_locator v = Some l)"

definition matches_of :: "('k \<Rightarrow> bool) \<Rightarrow> (nat \<times> 'k) list \<Rightarrow> nat list" where
  "matches_of P xs = map fst (filter (\<lambda>x. P (snd x)) xs)"

lemma name_scan_iff:
  "(\<exists>s. name_scan lower dbg query (map Inr xs) found similar = Inr (Some i, s)) \<longleftrightarrow>
     (case found of Some j \<Rightarrow> [j] | None \<Rightarrow> []) @ matches_of (\<lambda>n. n = query) xs = [i]"
proof (induction xs arbitrary: found similar)
  case (Cons x xs)
  obtain j n where x: "x = (j, n)" by (rule prod.exhaust)
  from Cons show ?case by (cases found) (auto simp: x matches_of_def)
qed (auto simp: matches_of_def split: option.split)

lemma locator_scan_iff:
  "locator_scan query (map Inr xs) found = Inr (Some i) \<longleftrightarrow>
     (case found of Some j \<Rightarrow> [j] | None \<Rightarrow> []) @ matches_of (\<lambda>l. l = Some query) xs = [i]"
proof (induction xs arbitrary: found)
  case (Cons x xs)
  obtain j n where x: "x = (j, n)" by (rule prod.exhaust)
  from Cons show ?case by (cases found) (auto simp: x matches_of_def)
qed (auto simp: matches_of_def split: option.split)

text \<open>An entry that cannot be read ends a scan with an error.\<close>

lemma name_scan_all_read:
  "name_scan lower dbg query entries found similar = Inr z \<Longrightarrow> \<forall>e \<in> set entries. \<not> isl e"
  by (induction lower dbg query entries found similar rule: name_scan.induct) (auto split: if_splits)

lemma locator_scan_all_read: "locator_scan query entries found = Inr z \<Longrightarrow> \<forall>e \<in> set entries. \<not> isl e"
  by (induction query entries found rule: locator_scan.induct) (auto split: if_splits)

lemma all_read: "\<forall>e \<in> set entries. \<not> isl e \<Longrightarrow> entries = map Inr (map projr entries)"
  by (induction entries) auto

lemma exact_local_index_iff:
  "exact_local_index lower dbg dbgs query entries = Inr i \<longleftrightarrow>
     (\<forall>e \<in> set entries. \<not> isl e) \<and> matches_of (\<lambda>n. n = query) (map projr entries) = [i]"
proof -
  have "exact_local_index lower dbg dbgs query entries = Inr i \<longleftrightarrow>
      (\<exists>s. name_scan lower dbg query entries None [] = Inr (Some i, s))"
    by (auto simp: exact_local_index_def Let_def split: sum.split prod.split option.split)
  with name_scan_all_read all_read [of entries]
    name_scan_iff [of lower dbg query "map projr entries" None "[]" i]
  show ?thesis by (metis append_Nil option.simps(4))
qed

lemma exact_locator_index_iff:
  "exact_locator_index query entries = Inr i \<longleftrightarrow>
     (\<forall>e \<in> set entries. \<not> isl e) \<and> matches_of (\<lambda>l. l = Some query) (map projr entries) = [i]"
proof -
  have "exact_locator_index query entries = Inr i \<longleftrightarrow> locator_scan query entries None = Inr (Some i)"
    by (auto simp: exact_locator_index_def split: sum.split option.split)
  with locator_scan_all_read all_read [of entries] locator_scan_iff [of query "map projr entries" None i]
  show ?thesis by (metis append_Nil option.simps(4))
qed

lemma distinct_singleton: "distinct xs \<Longrightarrow> xs = [i] \<longleftrightarrow> set xs = {i}"
  by (cases xs; cases "tl xs") auto

lemma filter_upt_single: "filter P [0..<n] = [i] \<longleftrightarrow> i < n \<and> P i \<and> (\<forall>j < n. P j \<longrightarrow> j = i)"
  by (subst distinct_singleton) auto

lemma fetch_local_Inr: "fetch_local gone c j = Inr w \<longleftrightarrow> cf_local c j = Inr (Some w)"
  by (auto simp: fetch_local_def split: sum.split option.split)

lemma indexed_matches:
  "(\<forall>e \<in> set (indexed_locals key c n). \<not> isl e) \<and> matches_of P (map projr (indexed_locals key c n)) = [i] \<longleftrightarrow>
     i < n \<and> (\<exists>v. cf_local c i = Inr (Some v) \<and> P (key v))
     \<and> (\<forall>j < n. \<exists>w. cf_local c j = Inr (Some w) \<and> (P (key w) \<longrightarrow> j = i))"
proof (cases "\<forall>j < n. \<exists>w. cf_local c j = Inr (Some w)")
  case True
  then obtain loc where loc: "\<And>j. j < n \<Longrightarrow> cf_local c j = Inr (Some (loc j))" by metis
  have entries: "indexed_locals key c n = map (\<lambda>j. Inr (j, key (loc j))) [0..<n]"
    unfolding indexed_locals_def by (rule map_cong [OF refl]) (use loc in \<open>simp add: fetch_local_def\<close>)
  have "matches_of P (map projr (indexed_locals key c n)) = filter (\<lambda>j. P (key (loc j))) [0..<n]"
    unfolding entries matches_of_def by (simp add: filter_map comp_def)
  moreover have "\<forall>e \<in> set (indexed_locals key c n). \<not> isl e" unfolding entries by auto
  moreover have "(\<exists>v. cf_local c i = Inr (Some v) \<and> P (key v)) \<longleftrightarrow> P (key (loc i))" if "i < n"
    using loc [OF that] by simp
  moreover have "(\<exists>w. cf_local c j = Inr (Some w) \<and> (P (key w) \<longrightarrow> j = i)) \<longleftrightarrow> (P (key (loc j)) \<longrightarrow> j = i)" if "j < n" for j
    using loc [OF that] by simp
  ultimately show ?thesis by (simp add: filter_upt_single cong: conj_cong imp_cong)
next
  case False
  then obtain j where j: "j < n" "\<And>w. cf_local c j \<noteq> Inr (Some w)" by blast
  then have "isl (map_sum id (\<lambda>v. (j, key v)) (fetch_local ''decompiler local disappeared before the edit'' c j))"
    by (auto simp: fetch_local_def split: sum.split option.split)
  with j(1) have "\<exists>e \<in> set (indexed_locals key c n). isl e" by (auto simp: indexed_locals_def)
  moreover have "\<not> (\<forall>j < n. \<exists>w. cf_local c j = Inr (Some w) \<and> (P (key w) \<longrightarrow> j = i))" using j by blast
  ultimately show ?thesis by blast
qed

text \<open>The local variable that a rename or a type goes to is the only one of the function, among all of its
  locals, whose name or whose locator is exactly the one given; otherwise nothing is selected.\<close>

theorem selected_local_unique:
  "selected_local lower dbg dbgs c selector = Inr (i, info) \<longleftrightarrow>
     (\<exists>n v. cf_local_count c = Inr n \<and> i < n \<and> cf_local c i = Inr (Some v) \<and> info = variable_info v
        \<and> selects selector v \<and> (\<forall>j < n. \<exists>w. cf_local c j = Inr (Some w) \<and> (selects selector w \<longrightarrow> j = i)))"
proof (cases "cf_local_count c")
  case (Inr n)
  have found: "(case selector of
        LocalName name \<Rightarrow> exact_local_index lower dbg dbgs name (indexed_locals lv_name c n)
      | LocalLocator locator \<Rightarrow> exact_locator_index locator (indexed_locals lv_locator c n)) = Inr i \<longleftrightarrow>
    i < n \<and> (\<exists>v. cf_local c i = Inr (Some v) \<and> selects selector v)
      \<and> (\<forall>j < n. \<exists>w. cf_local c j = Inr (Some w) \<and> (selects selector w \<longrightarrow> j = i))" for i
    by (cases selector)
      (simp_all add: exact_local_index_iff exact_locator_index_iff indexed_matches selects_def)
  have "selected_local lower dbg dbgs c selector = Inr (i, info) \<longleftrightarrow>
    (case selector of
        LocalName name \<Rightarrow> exact_local_index lower dbg dbgs name (indexed_locals lv_name c n)
      | LocalLocator locator \<Rightarrow> exact_locator_index locator (indexed_locals lv_locator c n)) = Inr i
    \<and> (\<exists>v. fetch_local ''decompiler local disappeared before the edit'' c i = Inr v \<and> info = variable_info v)"
    (is "_ \<longleftrightarrow> ?index = Inr i \<and> _")
    using Inr
    by (cases ?index) (auto simp: selected_local_def elim!: map_sum_InrE)
  then show ?thesis unfolding found fetch_local_Inr using Inr by auto
qed (simp add: selected_local_def)

section \<open>A small example\<close>

definition demo_local :: "string \<Rightarrow> local_variable" where
  "demo_local n = \<lparr>lv_name = n, lv_type_name = ''int'', lv_location = ''rax'', lv_locator = None,
     lv_definition_address = None, lv_width = 4, lv_is_argument = False, lv_has_user_name = False,
     lv_has_user_type = False\<rparr>"

definition demo_cfunction :: cfunction where
  "demo_cfunction = \<lparr>cf_local_count = Inr 2, cf_local = (\<lambda>i. Inr (Some (demo_local (if i = 0 then ''v1'' else ''v2'')))),
     cf_rename_local = (\<lambda>_ _. Inr ()), cf_set_local_type = (\<lambda>_ decl. Inr decl), cf_comment_locations = Inr [],
     cf_set_comment = (\<lambda>_ _. Inr ())\<rparr>"

definition demo_api :: edit_api where
  "demo_api = \<lparr>ea_patch_bytes = (\<lambda>_ _. Inr ()), ea_assemble_line = (\<lambda>_ _. Inr []), ea_set_cmt = (\<lambda>_ _. Inr ()),
     ea_set_cmt_with = (\<lambda>_ _ _. Inr ()), ea_set_name = (\<lambda>_ _. Inr ()), ea_set_name_with_flags = (\<lambda>_ _ _. Inr ()),
     ea_decompiler_available = True, ea_decompile = (\<lambda>_. Inr demo_cfunction), ea_apply_decl_type = (\<lambda>_ _ _ _ _. True),
     ea_apply_named_type = (\<lambda>_ _. True), ea_set_stack_var_type = (\<lambda>_ _ _ _ _ _ _. \<lparr>sa_code = 0, sa_name = [], sa_offset = 0\<rparr>),
     ea_define_stack_var = (\<lambda>_ _ _ _ _. \<lparr>sa_code = 0, sa_name = [], sa_offset = 0\<rparr>),
     ea_delete_stack_var = (\<lambda>_ _ _ _. \<lparr>sa_code = 0, sa_name = [], sa_offset = 0\<rparr>)\<rparr>"

definition demo_env :: "unit edit_env" where
  "demo_env = \<lparr>ee_lower = id, ee_dbg = id, ee_dbgs = concat, ee_api = demo_api, ee_pull = (\<lambda>_ _ _. Inr (PsOk, ())),
     ee_after = id\<rparr>"

definition demo_spec :: target_spec where
  "demo_spec = \<lparr>ts_addr = Some 0x1000, ts_name = None, ts_offset = 16\<rparr>"

definition demo_edit :: db_edit where "demo_edit = EdComment 0x1010 ''note''"

theorem edits_hit_their_target_witness:
  "\<exists>a t. resolve_mutation_target demo_db None demo_spec = Inr (a, t)
     \<and> edit_address demo_edit = a"
proof -
  let ?request = "ReqSetComments ''note'' False"
  obtain reported where run: "run_edit demo_env (Some demo_db) None demo_spec ?request = (Inr reported, [demo_edit])"
    by (simp add: demo_env_def demo_api_def demo_spec_def demo_db_def demo_edit_def handle_set_comments_def on_target_def
        performed_def reporting_def resolve_mutation_target_def listed_name_at_def checked_add_signed_def)
  from edits_hit_their_target [OF run, of demo_edit] show ?thesis by (auto simp: aim_of_def)
qed

theorem selected_local_unique_witness:
  "selected_local id id concat demo_cfunction (LocalName ''v2'') = Inr (1, variable_info (demo_local ''v2''))"
proof -
  have "\<forall>j < (2 :: nat). j = 0 \<or> j = 1" by auto
  then show ?thesis
    unfolding selected_local_unique
    by (auto simp: demo_cfunction_def demo_local_def selects_def)
qed

end
