(* ===== verification/Type_Handlers.thy ===== *)
theory Type_Handlers
  imports Disassembly
begin

text \<open>
  The rest of \<open>src/src/ida/handlers/structs.rs\<close> and \<open>types.rs\<close>: the lookup of a struct by name,
  its layout, the bytes of its members and the references to one of them, stack frames, and the
  declaration and inference of types.
\<close>

section \<open>Finding a struct\<close>

text \<open>\<open>struct \<close> or \<open>union \<close> in front of a name is not part of it.\<close>

definition strip_kind :: "string \<Rightarrow> string" where
  "strip_kind name =
     (case strip_prefix ''struct '' name of
        Some n \<Rightarrow> n
      | None \<Rightarrow> (case strip_prefix ''union '' name of Some n \<Rightarrow> n | None \<Rightarrow> name))"

definition names_struct :: "string \<Rightarrow> udt_view \<Rightarrow> bool" where
  "names_struct query u \<longleftrightarrow>
     uv_name u = query \<or> strip_kind (uv_name u) = query \<or> strip_kind (uv_name u) = strip_kind query"

definition resembles_struct :: "(string \<Rightarrow> string) \<Rightarrow> string \<Rightarrow> udt_view \<Rightarrow> bool" where
  "resembles_struct lower query u \<longleftrightarrow> str_contains (lower query) (lower (uv_name u))"

text \<open>The loop: an exact name ends it, similar names are counted.\<close>

fun struct_loop ::
  "(string \<Rightarrow> string) \<Rightarrow> string \<Rightarrow> udt_view list \<Rightarrow> udt_view option \<Rightarrow> nat \<Rightarrow> udt_view option" where
  "struct_loop lower query [] fuzzy count = (if count = 1 then fuzzy else None)"
| "struct_loop lower query (u # us) fuzzy count =
     (if names_struct query u then Some u
      else if resembles_struct lower query u then struct_loop lower query us (Some u) (count + 1)
      else struct_loop lower query us fuzzy count)"

definition find_struct_by_name :: "(string \<Rightarrow> string) \<Rightarrow> idb \<Rightarrow> string \<Rightarrow> udt_view option" where
  "find_struct_by_name lower db name =
     struct_loop lower (trim name) (ordinals (db_udt_info db) (db_udt_limit db)) None 0"

text \<open>The selection that the three handlers of a struct share, each with a message of its own.\<close>

definition select_struct ::
  "(string \<Rightarrow> string) \<Rightarrow> string \<Rightarrow> idb \<Rightarrow> u32 option \<Rightarrow> string option \<Rightarrow> tool_error + udt_view" where
  "select_struct lower missing db ordinal name =
     (case (ordinal, name) of
        (Some o1, _) \<Rightarrow>
          (case db_udt_info db (unat o1) of
             Some u \<Rightarrow> Inr u | None \<Rightarrow> Inl (InvalidParams (''unknown struct ordinal: '' @ show_nat (unat o1))))
      | (None, Some n) \<Rightarrow>
          (case find_struct_by_name lower db n of
             Some u \<Rightarrow> Inr u | None \<Rightarrow> Inl (InvalidParams (''unknown struct name: '' @ n)))
      | (None, None) \<Rightarrow> Inl (InvalidParams missing))"

section \<open>Layout and bytes\<close>

definition div_ceil :: "u64 \<Rightarrow> u64 \<Rightarrow> u64" where
  "div_ceil a b = (if a mod b = 0 then a div b else a div b + 1)"

record struct_member_info =
  me_name :: string
  me_type_name :: string
  me_offset_bits :: u64
  me_size_bits :: u64
  me_offset :: u64
  me_size :: u64
  me_is_bitfield :: bool

definition member_info_of :: "member_view \<Rightarrow> struct_member_info" where
  "member_info_of m =
     \<lparr>me_name = mv_name m, me_type_name = mv_type_name m, me_offset_bits = mv_offset_bits m, me_size_bits = mv_size_bits m,
      me_offset = mv_offset_bits m div 8, me_size = div_ceil (mv_size_bits m) 8, me_is_bitfield = mv_is_bitfield m\<rparr>"

definition members_of :: "idb \<Rightarrow> udt_view \<Rightarrow> member_view list" where
  "members_of db u = List.map_filter (db_udt_member db (uv_ordinal u)) [0..<uv_member_count u]"

record struct_info =
  sf_ordinal :: u32
  sf_name :: string
  sf_size :: u64
  sf_is_union :: bool
  sf_member_count :: nat
  sf_members :: "struct_member_info list"

definition handle_struct_info ::
  "(string \<Rightarrow> string) \<Rightarrow> idb option \<Rightarrow> u32 option \<Rightarrow> string option \<Rightarrow> tool_error + struct_info" where
  "handle_struct_info lower idb ordinal name =
     with_db idb (\<lambda>db. map_sum id
       (\<lambda>u. \<lparr>sf_ordinal = uv_ordinal u, sf_name = uv_name u, sf_size = uv_size u, sf_is_union = uv_is_union u,
            sf_member_count = uv_member_count u, sf_members = map member_info_of (members_of db u)\<rparr>)
       (select_struct lower ''struct_info requires ordinal or name'' db ordinal name))"

text \<open>\<open>u64::saturating_add\<close>\<close>

definition sat_add :: "u64 \<Rightarrow> u64 \<Rightarrow> u64" where
  "sat_add a b = (case checked_add a b of Some c \<Rightarrow> c | None \<Rightarrow> - 1)"

record struct_member_value = struct_member_info +
  me_bytes :: string

definition member_bytes :: "idb \<Rightarrow> u64 \<Rightarrow> member_view \<Rightarrow> string" where
  "member_bytes db addr m =
     (let read_len = min (unat (div_ceil (mv_size_bits m) 8)) 0x10000
      in if read_len = 0 then [] else hex_encode (db_get_bytes db (sat_add addr (mv_offset_bits m div 8)) read_len))"

definition member_value_of :: "idb \<Rightarrow> u64 \<Rightarrow> member_view \<Rightarrow> struct_member_value" where
  "member_value_of db addr m =
     \<lparr>me_name = mv_name m, me_type_name = mv_type_name m, me_offset_bits = mv_offset_bits m, me_size_bits = mv_size_bits m,
      me_offset = mv_offset_bits m div 8, me_size = div_ceil (mv_size_bits m) 8, me_is_bitfield = mv_is_bitfield m,
      me_bytes = member_bytes db addr m\<rparr>"

record struct_read_result =
  sx_address :: string
  sx_ordinal :: u32
  sx_name :: string
  sx_size :: u64
  sx_members :: "struct_member_value list"

definition handle_read_struct ::
  "(string \<Rightarrow> string) \<Rightarrow> idb option \<Rightarrow> u64 \<Rightarrow> u32 option \<Rightarrow> string option \<Rightarrow> tool_error + struct_read_result" where
  "handle_read_struct lower idb addr ordinal name =
     with_db idb (\<lambda>db. map_sum id
       (\<lambda>u. \<lparr>sx_address = show_addr addr, sx_ordinal = uv_ordinal u, sx_name = uv_name u, sx_size = uv_size u,
            sx_members = map (member_value_of db addr) (members_of db u)\<rparr>)
       (select_struct lower ''read_struct requires ordinal or name'' db ordinal name))"

section \<open>References to a member\<close>

definition member_position ::
  "idb \<Rightarrow> udt_view \<Rightarrow> u32 option \<Rightarrow> string option \<Rightarrow> tool_error + nat" where
  "member_position db u member_index member_name =
     (case (member_index, member_name) of
        (Some i, _) \<Rightarrow> Inr (unat i)
      | (None, Some n) \<Rightarrow>
          (case find (\<lambda>i. case db_udt_member db (uv_ordinal u) i of Some m \<Rightarrow> mv_name m = n | None \<Rightarrow> False)
              [0..<uv_member_count u] of
             Some i \<Rightarrow> Inr i
           | None \<Rightarrow> Inl (InvalidParams (''unknown struct member name: '' @ n @ '' in '' @ uv_name u)))
      | (None, None) \<Rightarrow> Inl (InvalidParams ''xrefs_to_field requires member index or name''))"

fun field_xrefs :: "nat \<Rightarrow> xref_view list \<Rightarrow> xref_info list \<Rightarrow> xref_info list \<times> bool" where
  "field_xrefs limit [] xrefs = (xrefs, False)"
| "field_xrefs limit (x # xs) xrefs =
     (if limit \<le> length xrefs then (xrefs, True) else field_xrefs limit xs (xrefs @ [to_xref_info x]))"

record xrefs_to_field_result =
  xf_struct_ordinal :: u32
  xf_struct_name :: string
  xf_member_index :: nat
  xf_member_name :: string
  xf_member_type :: string
  xf_member_offset_bits :: u64
  xf_member_size_bits :: u64
  xf_tid :: string
  xf_xrefs :: "xref_info list"
  xf_truncated :: bool

definition field_result :: "idb \<Rightarrow> nat \<Rightarrow> udt_view \<Rightarrow> nat \<Rightarrow> tool_error + xrefs_to_field_result" where
  "field_result db limit u i =
     (if uv_member_count u \<le> i
      then Inl (InvalidParams (''member index out of range: '' @ show_nat i @ '' (member_count='' @ show_nat (uv_member_count u) @ '')''))
      else case db_udt_member db (uv_ordinal u) i of
        None \<Rightarrow> Inl (InvalidParams ''failed to load struct member'')
      | Some m \<Rightarrow>
          (case db_udt_member_tid db (uv_ordinal u) i of
             None \<Rightarrow> Inl (InvalidParams ''struct member has no TID'')
           | Some tid \<Rightarrow>
               (case field_xrefs limit (db_tid_xrefs db tid) [] of
                  (xrefs, truncated) \<Rightarrow>
                    Inr \<lparr>xf_struct_ordinal = uv_ordinal u, xf_struct_name = uv_name u, xf_member_index = i,
                      xf_member_name = mv_name m, xf_member_type = mv_type_name m,
                      xf_member_offset_bits = mv_offset_bits m, xf_member_size_bits = mv_size_bits m,
                      xf_tid = show_addr tid, xf_xrefs = xrefs, xf_truncated = truncated\<rparr>)))"

definition handle_xrefs_to_field ::
  "(string \<Rightarrow> string) \<Rightarrow> idb option \<Rightarrow> u32 option \<Rightarrow> string option \<Rightarrow> u32 option \<Rightarrow> string option \<Rightarrow> nat
     \<Rightarrow> tool_error + xrefs_to_field_result" where
  "handle_xrefs_to_field lower idb ordinal name member_index member_name limit =
     with_db idb (\<lambda>db.
       case select_struct lower ''xrefs_to_field requires struct ordinal or name'' db ordinal name of
         Inl e \<Rightarrow> Inl e
       | Inr u \<Rightarrow>
           (case member_position db u member_index member_name of
              Inl e \<Rightarrow> Inl e
            | Inr i \<Rightarrow> field_result db limit u i))"

section \<open>Stack frames and types\<close>

record frame_view =
  fw_frame_size :: u64
  fw_ret_size :: int
  fw_frsize :: u64
  fw_frregs :: nat
  fw_argsize :: u64
  fw_fpd :: u64
  fw_args :: "u64 \<times> u64"
  fw_retaddr :: "u64 \<times> u64"
  fw_savregs :: "u64 \<times> u64"
  fw_locals :: "u64 \<times> u64"
  fw_member_count :: nat

record frame_member_info = struct_member_info +
  me_part :: string

record frame_info =
  fm_address :: string
  fm_frame_size :: u64
  fm_ret_size :: int
  fm_frsize :: u64
  fm_frregs :: nat
  fm_argsize :: u64
  fm_fpd :: u64
  fm_args_range :: "string \<times> string"
  fm_retaddr_range :: "string \<times> string"
  fm_savregs_range :: "string \<times> string"
  fm_locals_range :: "string \<times> string"
  fm_member_count :: nat
  fm_members :: "frame_member_info list"

definition show_range :: "u64 \<times> u64 \<Rightarrow> string \<times> string" where
  "show_range r = (show_addr (fst r), show_addr (snd r))"

definition frame_member_of :: "member_view \<times> string \<Rightarrow> frame_member_info" where
  "frame_member_of p = (case p of (m, part) \<Rightarrow>
     \<lparr>me_name = mv_name m, me_type_name = mv_type_name m, me_offset_bits = mv_offset_bits m, me_size_bits = mv_size_bits m,
      me_offset = mv_offset_bits m div 8, me_size = div_ceil (mv_size_bits m) 8, me_is_bitfield = mv_is_bitfield m,
      me_part = part\<rparr>)"

text \<open>The frame of the function at an address and its members come from the binding.\<close>

definition handle_stack_frame ::
  "(idb \<Rightarrow> u64 \<Rightarrow> frame_view option) \<Rightarrow> (idb \<Rightarrow> u64 \<Rightarrow> nat \<Rightarrow> (member_view \<times> string) option) \<Rightarrow> idb option \<Rightarrow> u64
     \<Rightarrow> tool_error + frame_info" where
  "handle_stack_frame frame member idb addr =
     with_db idb (\<lambda>db.
       case frame db addr of
         None \<Rightarrow> Inl (FunctionNotFound addr)
       | Some f \<Rightarrow> Inr
           \<lparr>fm_address = show_addr addr, fm_frame_size = fw_frame_size f, fm_ret_size = fw_ret_size f,
            fm_frsize = fw_frsize f, fm_frregs = fw_frregs f, fm_argsize = fw_argsize f, fm_fpd = fw_fpd f,
            fm_args_range = show_range (fw_args f), fm_retaddr_range = show_range (fw_retaddr f),
            fm_savregs_range = show_range (fw_savregs f), fm_locals_range = show_range (fw_locals f),
            fm_member_count = fw_member_count f,
            fm_members = map frame_member_of (List.map_filter (member db addr) [0..<fw_member_count f])\<rparr>)"

record declare_answer =
  da_code :: int
  da_name :: string
  da_decl :: string
  da_kind :: string

record declare_type_result = declare_answer +
  da_replaced :: bool

datatype declare_result = DeclaredTypes int | DeclaredType declare_type_result

definition handle_declare_type ::
  "(idb \<Rightarrow> string \<Rightarrow> bool \<Rightarrow> int) \<Rightarrow> (idb \<Rightarrow> string \<Rightarrow> bool \<Rightarrow> bool \<Rightarrow> declare_answer) \<Rightarrow> idb option
     \<Rightarrow> string \<Rightarrow> bool \<Rightarrow> bool \<Rightarrow> bool \<Rightarrow> tool_error + declare_result" where
  "handle_declare_type declare_types declare_type idb decl relaxed replace multi =
     with_db idb (\<lambda>db.
       if multi then Inr (DeclaredTypes (declare_types db decl relaxed))
       else (let r = declare_type db decl relaxed replace
             in Inr (DeclaredType \<lparr>da_code = da_code r, da_name = da_name r, da_decl = da_decl r, da_kind = da_kind r,
                  da_replaced = replace\<rparr>)))"

record guess_type_result =
  gt_address :: string
  gt_code :: int
  gt_status :: string
  gt_decl :: string
  gt_kind :: string

definition guess_status :: "int \<Rightarrow> string" where
  "guess_status code =
     (if code = 0 then ''failed'' else if code = 1 then ''trivial'' else if code = 2 then ''ok'' else ''unknown'')"

definition handle_infer_types ::
  "(idb \<Rightarrow> u64 \<Rightarrow> int \<times> string \<times> string) \<Rightarrow> idb option \<Rightarrow> u64 option \<Rightarrow> string option \<Rightarrow> int
     \<Rightarrow> tool_error + guess_type_result" where
  "handle_infer_types guess_type idb addr name offset =
     with_db idb (\<lambda>db.
       case resolve_address idb addr name offset of
         Inl e \<Rightarrow> Inl e
       | Inr a \<Rightarrow>
           (case guess_type db a of (code, decl, kind) \<Rightarrow>
              Inr \<lparr>gt_address = show_addr a, gt_code = code, gt_status = guess_status code, gt_decl = decl, gt_kind = kind\<rparr>))"

section \<open>What a name selects\<close>

definition single :: "'a list \<Rightarrow> 'a option" where
  "single xs = (if length xs = 1 then Some (last xs) else None)"

lemma struct_loop_spec:
  "struct_loop lower query us (if seen = [] then None else Some (last seen)) (length seen) =
     (case find (names_struct query) us of
        Some u \<Rightarrow> Some u
      | None \<Rightarrow> single (seen @ filter (resembles_struct lower query) us))"
proof (induction us arbitrary: seen)
  case (Cons u us)
  show ?case
  proof (cases "names_struct query u")
    case False
    with Cons.IH [of seen] Cons.IH [of "seen @ [u]"] show ?thesis by (simp split: option.split)
  qed simp
qed (simp add: single_def)

text \<open>
  The first exact name wins; a part of a name selects a struct only when it is part of one name.
\<close>

lemma find_struct_spec:
  "find_struct_by_name lower db name =
     (let all = ordinals (db_udt_info db) (db_udt_limit db)
      in case find (names_struct (trim name)) all of
           Some u \<Rightarrow> Some u
         | None \<Rightarrow> single (filter (resembles_struct lower (trim name)) all))"
  using struct_loop_spec [of lower "trim name" _ "[]"] by (simp add: find_struct_by_name_def Let_def split: option.split)

lemma field_xrefs_window:
  "length xrefs \<le> limit \<Longrightarrow> field_xrefs limit xs xrefs =
     (xrefs @ map to_xref_info (take (limit - length xrefs) xs), limit < length xrefs + length xs)"
proof (induction xs arbitrary: xrefs)
  case (Cons x xs)
  show ?case
  proof (cases "length xrefs = limit")
    case False
    with Cons.prems have "length (xrefs @ [to_xref_info x]) \<le> limit" by simp
    moreover have "limit - length xrefs = Suc (limit - Suc (length xrefs))" using False Cons.prems by simp
    ultimately show ?thesis using Cons.IH [of "xrefs @ [to_xref_info x]"] False Cons.prems by simp
  qed simp
qed simp

text \<open>The references of a member are the first \<open>limit\<close> ones, and the mark says whether there are more.\<close>

lemma field_xrefs_exact: "field_xrefs limit xs [] = (map to_xref_info (take limit xs), limit < length xs)"
  using field_xrefs_window [of "[]" limit xs] by simp


text \<open>The bytes of a size in bits are the fewest that hold it.\<close>

lemma div_ceil_bytes:
  "unat (div_ceil bits 8) * 8 - unat bits < 8 \<and> unat bits \<le> unat (div_ceil bits 8) * 8"
proof -
  have eight: "unat (8 :: u64) = 8" by simp
  have q: "unat (bits div 8) = unat bits div 8" "unat (bits mod 8) = unat bits mod 8"
    by (simp_all add: unat_div unat_mod eight)
  have "unat (bits div 8 + 1) = Suc (unat bits div 8)"
    using unsigned_less [of bits, where 'a = nat] q by (simp add: unat_word_ariths)
  with q show ?thesis
    by (auto simp: div_ceil_def word_unat_eq_iff) presburger+
qed

end
