(* ===== verification/Script_Handlers.thy ===== *)
theory Script_Handlers
  imports Db_Open Disassembly
begin

text \<open>
  \<open>src/src/ida/handlers/script.rs\<close>, \<open>analysis.rs\<close> and \<open>dscu.rs\<close>: the answer to a script, the
  status of the analysis and the images and regions of a shared cache. The Python interpreter,
  the parser of JSON and the dscu service of IDA are arguments.
\<close>

section \<open>Scripts\<close>

text \<open>\<open>str::lines\<close>: a carriage return goes only with the line feed after it.\<close>

definition strip_cr :: "string \<Rightarrow> string" where
  "strip_cr l = (if l \<noteq> [] \<and> last l = CHR 0x0D then butlast l else l)"

definition str_lines :: "string \<Rightarrow> string list" where
  "str_lines s =
     (let ps = split_char (CHR 0x0A) s in map strip_cr (butlast ps) @ (if last ps = [] then [] else [last ps]))"

fun first_non_empty :: "string list \<Rightarrow> string option" where
  "first_non_empty [] = None"
| "first_non_empty (l # ls) = (if trim l = [] then first_non_empty ls else Some (trim l))"

definition last_non_empty_line :: "string \<Rightarrow> string option" where
  "last_non_empty_line s = first_non_empty (rev (str_lines s))"

definition classify_python_error :: "string \<Rightarrow> string option" where
  "classify_python_error details =
     (let lowered = to_ascii_lowercase details
      in if str_contains ''syntaxerror'' lowered \<or> str_contains ''invalid syntax'' lowered then Some ''SyntaxError''
         else if str_contains ''nameerror'' lowered then Some ''NameError''
         else if str_contains ''attributeerror'' lowered then Some ''AttributeError''
         else if str_contains ''importerror'' lowered \<or> str_contains ''modulenotfounderror'' lowered then Some ''ImportError''
         else if str_contains ''typeerror'' lowered then Some ''TypeError''
         else if str_contains ''valueerror'' lowered then Some ''ValueError''
         else None)"

record python_output =
  po_success :: bool
  po_stdout :: string
  po_stderr :: string
  po_error :: "string option"
  po_result_json :: "string option"
  po_result_is_repr :: bool

definition error_summary_of :: "python_output \<Rightarrow> string option" where
  "error_summary_of out =
     (case map_option trim (po_error out) of
        Some e \<Rightarrow> if e = [] then last_non_empty_line (po_stderr out) else Some e
      | None \<Rightarrow> last_non_empty_line (po_stderr out))"

definition optional_field :: "string \<Rightarrow> string option \<Rightarrow> (string \<times> json) list" where
  "optional_field key v = (case v of Some t \<Rightarrow> [(key, JStr t)] | None \<Rightarrow> [])"

definition result_fields :: "(string \<Rightarrow> string + json) \<Rightarrow> python_output \<Rightarrow> tool_error + (string \<times> json) list" where
  "result_fields from_str out =
     (case po_result_json out of
        None \<Rightarrow> Inr []
      | Some encoded \<Rightarrow>
          (case from_str encoded of
             Inl e \<Rightarrow> Inl (IdaError (''run_script produced a result that is not valid JSON ('' @ e
                        @ ''); print the value instead''))
           | Inr v \<Rightarrow> Inr ((''result'', v) # (if po_result_is_repr out then [(''result_is_repr'', JBool True)] else []))))"

definition script_result :: "(string \<Rightarrow> string + json) \<Rightarrow> python_output \<Rightarrow> tool_error + (string \<times> json) list" where
  "script_result from_str out =
     (let error_summary = error_summary_of out;
          details = (case error_summary of Some e \<Rightarrow> e | None \<Rightarrow> []) @ [CHR 0x0A] @ po_stderr out
      in map_sum id
           (\<lambda>result.
              [(''success'', JBool (po_success out)), (''stdout'', JStr (po_stdout out)), (''stderr'', JStr (po_stderr out))]
              @ result
              @ (case po_error out of
                   Some e \<Rightarrow> [(''error'', JStr e)]
                 | None \<Rightarrow> if \<not> po_success out then optional_field ''error'' error_summary else [])
              @ optional_field ''error_summary'' error_summary
              @ optional_field ''error_kind'' (classify_python_error details))
           (result_fields from_str out))"

text \<open>The flags say whether the client has cancelled before the script and after it.\<close>

definition handle_run_script ::
  "(idb \<Rightarrow> string \<Rightarrow> tool_error + python_output) \<Rightarrow> (string \<Rightarrow> string + json) \<Rightarrow> idb option \<Rightarrow> string \<Rightarrow> bool \<Rightarrow> bool
     \<Rightarrow> tool_error + (string \<times> json) list" where
  "handle_run_script run_python from_str idb code cancelled_before cancelled_after =
     with_db idb (\<lambda>db.
       case ensure_not_cancelled cancelled_before of
         Inl e \<Rightarrow> Inl e
       | Inr _ \<Rightarrow>
           (case run_python db code of
              Inl e \<Rightarrow> Inl e
            | Inr out \<Rightarrow>
                (case ensure_not_cancelled cancelled_after of
                   Inl e \<Rightarrow> Inl e
                 | Inr _ \<Rightarrow> script_result from_str out)))"

lemma first_non_empty_some: "first_non_empty ls = None \<longleftrightarrow> (\<forall>l \<in> set ls. trim l = [])"
  by (induction ls) auto

text \<open>A script that failed always says why, when it wrote anything to its error stream.\<close>

lemma failed_script_explained:
  assumes "script_result from_str out = Inr answer" and "\<not> po_success out"
    and "\<exists>l \<in> set (str_lines (po_stderr out)). trim l \<noteq> []"
  shows "\<exists>e. (''error'', JStr e) \<in> set answer"
proof (cases "po_error out")
  case None
  have "last_non_empty_line (po_stderr out) \<noteq> None"
    using assms(3) by (auto simp: last_non_empty_line_def first_non_empty_some)
  then obtain e where "error_summary_of out = Some e" using None by (auto simp: error_summary_of_def)
  with assms(1,2) None show ?thesis
    by (cases "result_fields from_str out") (auto simp: script_result_def optional_field_def Let_def)
next
  case (Some e)
  with assms(1) show ?thesis
    by (cases "result_fields from_str out") (auto simp: script_result_def optional_field_def Let_def)
qed

section \<open>Analysis status\<close>

definition auto_states :: "(int \<times> string) list" where
  "auto_states =
     [(0, ''AU_NONE''), (10, ''AU_UNK''), (20, ''AU_CODE''), (25, ''AU_WEAK''), (30, ''AU_PROC''), (35, ''AU_TAIL''),
      (38, ''AU_FCHUNK''), (40, ''AU_USED''), (45, ''AU_USD2''), (50, ''AU_TYPE''), (60, ''AU_LIBF''), (70, ''AU_LBF2''),
      (80, ''AU_LBF3''), (90, ''AU_CHLB''), (200, ''AU_FINAL'')]"

definition auto_state_name :: "int \<Rightarrow> string" where
  "auto_state_name s = (case map_of auto_states s of Some n \<Rightarrow> n | None \<Rightarrow> ''AU_UNKNOWN'')"

record analysis_status =
  as_auto_enabled :: bool
  as_auto_is_ok :: bool
  as_auto_state :: string
  as_auto_state_id :: int
  as_analysis_running :: bool

text \<open>What the binding knows of the analysis: enabled, finished, and its state.\<close>

definition build_analysis_status :: "bool \<times> bool \<times> int \<Rightarrow> analysis_status" where
  "build_analysis_status meta =
     (case meta of (enabled, ok, state) \<Rightarrow>
        \<lparr>as_auto_enabled = enabled, as_auto_is_ok = ok, as_auto_state = auto_state_name state, as_auto_state_id = state,
         as_analysis_running = (enabled \<and> \<not> ok)\<rparr>)"

definition handle_analysis_status :: "(idb \<Rightarrow> bool \<times> bool \<times> int) \<Rightarrow> idb option \<Rightarrow> tool_error + analysis_status" where
  "handle_analysis_status meta idb = with_db idb (\<lambda>db. Inr (build_analysis_status (meta db)))"

section \<open>Images and regions of a shared cache\<close>

record image_view =
  iw_index :: int
  iw_name :: string
  iw_file_name :: string
  iw_address :: u64
  iw_total_size :: u64
  iw_file_index :: "u64 option"
  iw_loaded :: bool

record dsc_image_info =
  di_index :: int
  di_name :: string
  di_file_name :: string
  di_address :: string
  di_address_value :: u64
  di_total_size :: u64
  di_file_index :: "u64 option"
  di_loaded :: bool

definition image_info :: "image_view \<Rightarrow> dsc_image_info" where
  "image_info i =
     \<lparr>di_index = iw_index i, di_name = iw_name i, di_file_name = iw_file_name i, di_address = show_addr (iw_address i),
      di_address_value = iw_address i, di_total_size = iw_total_size i, di_file_index = iw_file_index i,
      di_loaded = iw_loaded i\<rparr>"

datatype region_kind =
    RkImageEntity | RkIsland | RkHeader | RkMapping | RkUnknown | RkGot | RkCacheData | RkInvalid int

fun region_kind_text :: "region_kind \<Rightarrow> string" where
  "region_kind_text RkImageEntity = ''image_entity''"
| "region_kind_text RkIsland = ''island''"
| "region_kind_text RkHeader = ''header''"
| "region_kind_text RkMapping = ''mapping''"
| "region_kind_text RkUnknown = ''unknown''"
| "region_kind_text RkGot = ''got''"
| "region_kind_text RkCacheData = ''cache_data''"
| "region_kind_text (RkInvalid raw) = ''invalid('' @ show_int raw @ '')''"

record region_view =
  rw_start :: u64
  rw_size :: u64
  rw_kind :: region_kind
  rw_image_index :: int
  rw_name :: string
  rw_loaded :: bool

record dsc_region_info =
  dr_start :: string
  dr_start_value :: u64
  dr_size :: u64
  dr_kind :: string
  dr_image_index :: int
  dr_name :: string
  dr_loaded :: bool

definition region_info :: "region_view \<Rightarrow> dsc_region_info" where
  "region_info r =
     \<lparr>dr_start = show_addr (rw_start r), dr_start_value = rw_start r, dr_size = rw_size r,
      dr_kind = region_kind_text (rw_kind r), dr_image_index = rw_image_index r, dr_name = rw_name r,
      dr_loaded = rw_loaded r\<rparr>"

definition require_dscu :: "bool \<Rightarrow> idb option \<Rightarrow> tool_error + unit" where
  "require_dscu available idb =
     with_db idb (\<lambda>_.
       if available then Inr ()
       else Inl (NotSupported (''IDA dscu service is not available for the current database; open a dyld_shared_cache ''
                   @ ''with IDA 9.4+ first'')))"

definition handle_dsc_load_image ::
  "bool \<Rightarrow> (string \<Rightarrow> tool_error + image_view) \<Rightarrow> idb option \<Rightarrow> string \<Rightarrow> tool_error + dsc_image_info" where
  "handle_dsc_load_image available load_image idb module =
     (case require_dscu available idb of Inl e \<Rightarrow> Inl e | Inr _ \<Rightarrow> map_sum id image_info (load_image module))"

definition handle_dsc_load_region ::
  "bool \<Rightarrow> (u64 \<Rightarrow> tool_error + region_view) \<Rightarrow> idb option \<Rightarrow> u64 \<Rightarrow> tool_error + dsc_region_info" where
  "handle_dsc_load_region available load_region idb ea =
     (case require_dscu available idb of Inl e \<Rightarrow> Inl e | Inr _ \<Rightarrow> map_sum id region_info (load_region ea))"

text \<open>A state code names a phase of the analysis exactly when it is one of the table.\<close>

lemma auto_state_known: "auto_state_name s = ''AU_UNKNOWN'' \<longleftrightarrow> s \<notin> fst ` set auto_states"
  by (auto simp: auto_state_name_def auto_states_def split: if_splits)

lemma distinct_regions: "region_kind_text k = region_kind_text k' \<Longrightarrow> k = k' \<or> (\<exists>r. k = RkInvalid r) \<and> (\<exists>r. k' = RkInvalid r)"
  by (cases k; cases k') auto

end
