(* ===== verification/Spec2Isabelle.thy ===== *)
theory Spec2Isabelle
  imports Remote Task_Contract Workspace_Registry Operation_Registry Macho_Fat Stdio_Transport
    Tool_Filter Http_Access Http_Sessions Mutation_Target Byte_Search Control_Flow Ida_Worker Db_Open Tool_Args Foreground
    Tool_Dispatch Tool_Endpoints Schema_Normalize Dsc_Open Dsc_Script
    Disassembly Database_Edits Type_Handlers Script_Handlers
begin

text \<open>
  \<^bold>\<open>The program.\<close> \<open>ida-mcp-rs\<close> is a server that lets clients of the Model Context Protocol
  drive the IDA disassembler. A public server reads requests from standard input or from HTTP,
  checks them (\<open>server/http_access.rs\<close>, \<open>transport/public_stdio.rs\<close>), offers the tools its
  configuration enables (\<open>tool_registry.rs\<close>, \<open>server/tool_filter.rs\<close>), records what it runs
  (\<open>server/operation.rs\<close>, \<open>server/task.rs\<close>) and hands each tool call to a worker: the IDA thread
  of the same process (\<open>ida/worker.rs\<close>, \<open>ida/loop_impl.rs\<close>) or a child process taken from a pool
  (\<open>ida/pool.rs\<close>, \<open>ida/remote.rs\<close>). The worker owns at most one database, protected by a lock
  file (\<open>ida/lock.rs\<close>), and answers through the handlers of \<open>ida/handlers\<close>.

  \<^bold>\<open>Conventions.\<close> A Rust struct is a record or datatype with the source's fields, an enum a
  datatype with its variants, \<open>u64\<close> and its kin words or numbers with the wrap-around or the
  checked operation written out, a \<open>String\<close> the list of its UTF-8 bytes, a \<open>HashMap\<close> an association
  list with distinct keys, an error a value of a sum type. Clocks, random identifiers, the outcome
  of a process or of a system call, and every answer of IDA are arguments of the operation that
  reads them, so a theorem holds whatever they are. One critical section of a mutex is one step of
  a transition system; interleavings are sequences of such steps.

  \<^bold>\<open>Shared theories.\<close>
  \<^item> \<open>Prelude\<close>: transition systems with invariants (locale \<open>transition_system\<close> and its
    extensions), association lists, checked and saturating arithmetic, lists.
  \<^item> \<open>Rust_Std\<close>, \<open>Rust_Path\<close>, \<open>Ip_Address\<close>: what the sources use of Rust's strings, integer
    parsing and printing, paths and network addresses.
  \<^item> \<open>Tool_Error\<close>: \<open>error.rs\<close>. The error type, its text, what an error says about a lease.

  \<^bold>\<open>Public server.\<close>
  \<^item> \<open>Stdio_Transport\<close>: \<open>transport/public_stdio.rs\<close> and \<open>transport.rs\<close>. The bounded line framer is
    equal to a reference that splits the whole input, however the bytes arrive in chunks; shutdown
    saves first.
  \<^item> \<open>Tool_Registry\<close>, \<open>Tool_Filter\<close>: \<open>tool_registry.rs\<close>, \<open>server/tool_filter.rs\<close>. The table of all
    tools is well formed, a tool is enabled exactly when the filter's rules say so.
  \<^item> \<open>Http_Access\<close>, \<open>Http_Sessions\<close>: \<open>server/http_access.rs\<close>, \<open>server/http_config.rs\<close>. The default
    policy admits no foreign origin and no foreign host name; a session that disconnected is closed only when nobody came
    back.
  \<^item> \<open>Task_Registry\<close>, \<open>Task_Contract\<close>: \<open>server/task.rs\<close>. The registry is bounded, running tasks
    survive pruning, a settled task never changes, results are retained for the promised time.
  \<^item> \<open>Operation_Registry\<close>: \<open>server/operation.rs\<close>, the bounded history of foreground operations.
  \<^item> \<open>Macho_Fat\<close>: \<open>macho_fat.rs\<close>. Every slice that the header parser accepts lies inside the file,
    and extraction leaves no other file behind than the slice.

  \<^bold>\<open>Tools.\<close> All from \<open>server/mod.rs\<close>, and \<open>dsc.rs\<close>.
  \<^item> \<open>Tool_Dispatch\<close>: the way of a call through the filter, the choice of its database, the lease, the
    tool itself (an argument), the announcement of a new database and the crash report. A database
    stays leased while a call runs on it, and listed unless a client closes it; a new one is kept exactly when its id reaches the client,
    closing loses no worker; and a crash is reported whatever the tool answered.
  \<^item> \<open>Tool_Endpoints\<close>: the list of tools, requests about tasks and their owners, close metadata.
  \<^item> \<open>Tool_Args\<close>: the parsers of tool arguments; what is spelled is read back.
  \<^item> \<open>Foreground\<close>: running a tool against cancellation and a timer; every operation is settled in
    the history as it was answered.
  \<^item> \<open>Schema_Normalize\<close>: the normalization of tool schemas reaches a normal form in one pass,
    stated over the shapes that a schema may spell, and keeps every other keyword.
  \<^item> \<open>Dsc_Open\<close>, \<open>Dsc_Script\<close>: shared caches. The name of the database depends on the content, the
    background task always ends and a cancelled one leaves no database open, a name stays in the
    literal of the script that it is written into.

  \<^bold>\<open>Worker pool and workspace.\<close>
  \<^item> \<open>Remote\<close>: \<open>ida/remote.rs\<close>. What a child's error is to its parent, which sees
    its text only: four kinds come back as themselves, of the others the text.
  \<^item> \<open>Worker_Pool\<close>, \<open>Pool_Contract\<close>, \<open>Pool_Properties\<close>, \<open>Pool_Handlers\<close>: the worker pool of
    \<open>ida/pool.rs\<close>. Its critical sections form a transition system with an invariant kept by every
    section; capacity, exclusive leases and inert ended leases follow. The handlers are compositions
    of the sections; replenishment and shutdown are proved on them.
  \<^item> \<open>Workspace_Database\<close>, \<open>Workspace_Contract\<close>, \<open>Workspace_Registry\<close>: databases shared between
    sessions. An abstract specification of lifetimes is refined by the handlers of one database;
    the registry and its reaper respect guards and pins.

  \<^bold>\<open>IDA worker.\<close>
  \<^item> \<open>Db_Lock\<close>: \<open>ida/lock.rs\<close> over a model of paths, inodes and advisory locks, alone and
    interleaved with other processes at the granularity of system calls.
  \<^item> \<open>Debugger\<close>: \<open>ida/handlers/debugger.rs\<close>, the debugger session and its helper process.
  \<^item> \<open>Ida_Worker\<close>: \<open>ida/request.rs\<close>, \<open>crash_guard.rs\<close>, \<open>ida/worker.rs\<close>, \<open>ida/loop_impl.rs\<close>. The
    worker loop with its whole state; admission of side effects, crash recovery, generations.
  \<^item> \<open>Db_Open\<close>: \<open>ida/handlers/database.rs\<close>. Opening a database with its effect on files, lock and
    database: the lock of the output is held exactly while the database is open, a failed open
    removes what IDA wrote and, apart from the lock files, nothing else, an old output is reused only for the recorded input.
  \<^item> \<open>Ida_View\<close>, \<open>Mutation_Target\<close>, \<open>Listing\<close>, \<open>Byte_Search\<close>, \<open>Control_Flow\<close>: the handlers. The
    database is a record of what IDA answers (\<open>ida_view\<close>). Paging lists everything once, the search
    finds what a naive search over each segment finds, the call graph and the path search agree
    with reachability in the graph of calls.
  \<^item> \<open>Disassembly\<close>, \<open>Type_Handlers\<close>, \<open>Script_Handlers\<close>: the other handlers that read. The pages of a
    rendered range make up its listing, the ranges of patched bytes lose none, a struct is found by
    an exact name or by the only similar one, a failed script says why.
  \<^item> \<open>Database_Edits\<close>: the handlers that change a database. The locale \<open>exact_editor\<close> is what they owe,
    interpreted for each: one edit at most, at the exact resolution of the target or, for the
    decompiler and Lumina, at the start of the function that contains it.

  \<^bold>\<open>Bounds and termination.\<close> The loop that replenishes the pool takes as fuel the number of
  workers wanted, which is the number of rounds the code can make. The search for pages and the
  breadth-first loop over the call graph are partial functions with a theorem that they return
  (\<open>callgraph_terminates\<close>); every other loop is a total function. The interleaved model of the lock
  file assumes that one process performs one lock operation at a time on a path, which the worker
  loop guarantees by being a single thread.

  \<^bold>\<open>Not modelled.\<close> The command line, logging and the start of the process (\<open>main.rs\<close>), progress
  reports (\<open>ida/observability.rs\<close>), the private copy of the Windows registry, the serde records of
  the requests and the text of the server's instructions hold no state and decide nothing that
  another part relies on. Of \<open>server/mod.rs\<close> the tools that parse arguments, call one method of the
  worker and print the answer are arguments of the dispatch. idalib itself, rmcp, tokio, serde and
  the operating system are not part of the repository, and what is used of them is an argument. Tests
  are not modelled.
\<close>

end
